(* ===== verification/Prelude.thy ===== *)
theory Prelude
  imports
    Main
    "HOL-Library.AList"
    "HOL-Library.Char_ord"
    "HOL-Library.List_Lexorder"
    "HOL-Library.Product_Lexorder"
begin

text \<open>
  The prelude of the development: Python's exceptions as values, insertion-ordered
  dictionaries as association lists, the string and JSON functions of Python's standard
  library that the sources call, and the generic lemmas the component theories share.

  \<^item> An operation that may raise returns \<open>py_error + 'a\<close>. A method of an object returns in
    addition the object's state, also when it raises, because several methods of the sources
    change a field before they raise.
  \<^item> A \<open>dict\<close> keeps insertion order: assignment to a present key keeps its place, a new key
    goes last. That is \<open>AList.update\<close>; \<open>pop\<close> is \<open>AList.delete\<close>; \<open>get\<close> is \<open>map_of\<close>.
  \<^item> Python integers are unbounded: \<open>int\<close>. Strings are lists of characters, with code points
    below 256.
\<close>

named_theorems dict_simps \<open>lookup, update and sums over dictionaries\<close>

section \<open>Exceptions\<close>

datatype py_error =
    ValueError string
  | RuntimeError string
  | PermissionError string
  | AssertionError string
  | TypeError string
  | AttributeError string
  | IndexError string
  | KeyError
  | OverflowError string
  | CallbackError string
  | JournalVersionError string
  | JournalLockError string
  | JournalQuotaError string
  | JournalKeyError string

type_synonym ('a, 's) outcome = "(py_error + 'a) \<times> 's"

definition require :: "bool \<Rightarrow> py_error \<Rightarrow> py_error + unit" where
  "require b e = (if b then Inr () else Inl e)"

text \<open>Sequencing of a call that may raise and what follows it.\<close>

definition and_then :: "('a, 's) outcome \<Rightarrow> ('a \<Rightarrow> 's \<Rightarrow> ('b, 's) outcome) \<Rightarrow> ('b, 's) outcome" where
  "and_then m f = (case m of (Inl e, s) \<Rightarrow> (Inl e, s) | (Inr x, s) \<Rightarrow> f x s)"

definition sum_then :: "py_error + 'a \<Rightarrow> ('a \<Rightarrow> py_error + 'b) \<Rightarrow> py_error + 'b" where
  "sum_then m f = (case m of Inl e \<Rightarrow> Inl e | Inr x \<Rightarrow> f x)"

section \<open>Dictionaries\<close>

type_synonym ('k, 'v) dict = "('k \<times> 'v) list"

abbreviation dict_get :: "('k, 'v) dict \<Rightarrow> 'k \<Rightarrow> 'v option" where
  "dict_get d k \<equiv> map_of d k"

abbreviation dict_set :: "'k \<Rightarrow> 'v \<Rightarrow> ('k, 'v) dict \<Rightarrow> ('k, 'v) dict" where
  "dict_set k v d \<equiv> AList.update k v d"

abbreviation dict_pop :: "'k \<Rightarrow> ('k, 'v) dict \<Rightarrow> ('k, 'v) dict" where
  "dict_pop k d \<equiv> AList.delete k d"

abbreviation dict_keys :: "('k, 'v) dict \<Rightarrow> 'k list" where
  "dict_keys d \<equiv> map fst d"

abbreviation dict_values :: "('k, 'v) dict \<Rightarrow> 'v list" where
  "dict_values d \<equiv> map snd d"

definition dict_ok :: "('k, 'v) dict \<Rightarrow> bool" where
  "dict_ok d \<longleftrightarrow> distinct (dict_keys d)"

definition dict_has :: "('k, 'v) dict \<Rightarrow> 'k \<Rightarrow> bool" where
  "dict_has d k \<longleftrightarrow> dict_get d k \<noteq> None"

definition dict_get0 :: "('k, int) dict \<Rightarrow> 'k \<Rightarrow> int" where
  "dict_get0 d k = (case dict_get d k of None \<Rightarrow> 0 | Some v \<Rightarrow> v)"

text \<open>\<open>dict.setdefault\<close>, and the dict comprehension over a sequence of items.\<close>

definition dict_setdefault :: "'k \<Rightarrow> 'v \<Rightarrow> ('k, 'v) dict \<Rightarrow> ('k, 'v) dict" where
  "dict_setdefault k v d = (case dict_get d k of None \<Rightarrow> dict_set k v d | Some _ \<Rightarrow> d)"

definition dict_of_list :: "('k \<times> 'v) list \<Rightarrow> ('k, 'v) dict" where
  "dict_of_list xs = fold (\<lambda>(k, v) d. dict_set k v d) xs []"

definition dict_map :: "('v \<Rightarrow> 'w) \<Rightarrow> ('k, 'v) dict \<Rightarrow> ('k, 'w) dict" where
  "dict_map f d = map (\<lambda>(k, v). (k, f v)) d"

text \<open>A property of all the items of a dictionary.\<close>

definition dict_all :: "('k \<Rightarrow> 'v \<Rightarrow> bool) \<Rightarrow> ('k, 'v) dict \<Rightarrow> bool" where
  "dict_all P d \<longleftrightarrow> (\<forall>k v. dict_get d k = Some v \<longrightarrow> P k v)"

text \<open>The sum of a quantity over the items of a dictionary.\<close>

definition dict_sum :: "('k \<Rightarrow> 'v \<Rightarrow> int) \<Rightarrow> ('k, 'v) dict \<Rightarrow> int" where
  "dict_sum f d = sum_list (map (\<lambda>(k, v). f k v) d)"

section \<open>Strings\<close>

text \<open>\<open>str.isspace\<close> on one character, and \<open>str.strip()\<close>.\<close>

definition py_isspace :: "char \<Rightarrow> bool" where
  "py_isspace c \<longleftrightarrow> (let n = (of_char c :: nat) in
     (9 \<le> n \<and> n \<le> 13) \<or> (28 \<le> n \<and> n \<le> 32) \<or> n = 133 \<or> n = 160)"

definition py_strip :: "string \<Rightarrow> string" where
  "py_strip s = rev (dropWhile py_isspace (rev (dropWhile py_isspace s)))"

fun starts_with :: "string \<Rightarrow> string \<Rightarrow> bool" where
  "starts_with s [] = True"
| "starts_with [] (p # ps) = False"
| "starts_with (c # cs) (p # ps) = (c = p \<and> starts_with cs ps)"

text \<open>Decimal digits: \<open>str(n)\<close> of an integer.\<close>

definition digit_char :: "nat \<Rightarrow> char" where
  "digit_char n = char_of (48 + n)"

fun str_nat :: "nat \<Rightarrow> string" where
  "str_nat n = (if n < 10 then [digit_char n] else str_nat (n div 10) @ [digit_char (n mod 10)])"

definition str_int :: "int \<Rightarrow> string" where
  "str_int i = (if i < 0 then ''-'' @ str_nat (nat (- i)) else str_nat (nat i))"

fun py_join :: "string \<Rightarrow> string list \<Rightarrow> string" where
  "py_join sep [] = []"
| "py_join sep [x] = x"
| "py_join sep (x # y # xs) = x @ sep @ py_join sep (y # xs)"

section \<open>Canonical JSON\<close>

text \<open>
  The values the sources hash, and
  \<open>json.dumps(value, sort_keys=True, separators=(",", ":"))\<close> with the default
  \<open>ensure_ascii=True\<close>: \<open>json_escape\<close> is the escape table of Python's encoder for code points
  below 256.
\<close>

datatype json =
    JNull
  | JBool bool
  | JInt int
  | JStr string
  | JList "json list"
  | JObj "(string \<times> json) list"

definition hex_digit :: "nat \<Rightarrow> char" where
  "hex_digit n = (if n < 10 then char_of (48 + n) else char_of (87 + n))"

definition json_escape :: "char \<Rightarrow> string" where
  "json_escape c = (let n = (of_char c :: nat) in
     if n = 34 then [char_of (92 :: nat), char_of (34 :: nat)]
     else if n = 92 then [char_of (92 :: nat), char_of (92 :: nat)]
     else if n = 10 then [char_of (92 :: nat), CHR ''n'']
     else if n = 13 then [char_of (92 :: nat), CHR ''r'']
     else if n = 9 then [char_of (92 :: nat), CHR ''t'']
     else if n = 8 then [char_of (92 :: nat), CHR ''b'']
     else if n = 12 then [char_of (92 :: nat), CHR ''f'']
     else if 32 \<le> n \<and> n \<le> 126 then [c]
     else [char_of (92 :: nat), CHR ''u'', CHR ''0'', CHR ''0'',
           hex_digit (n div 16), hex_digit (n mod 16)])"

text \<open>
  An equation for evaluation: printable characters other than the quote and the backslash are
  recognised by their bits.
\<close>

definition json_escape_rare :: "char \<Rightarrow> string" where
  "json_escape_rare c = json_escape c"

lemma json_escape_rare_code [code]:
  "json_escape_rare c = (let n = (of_char c :: nat) in
     if n = 34 then [char_of (92 :: nat), char_of (34 :: nat)]
     else if n = 92 then [char_of (92 :: nat), char_of (92 :: nat)]
     else if n = 10 then [char_of (92 :: nat), CHR ''n'']
     else if n = 13 then [char_of (92 :: nat), CHR ''r'']
     else if n = 9 then [char_of (92 :: nat), CHR ''t'']
     else if n = 8 then [char_of (92 :: nat), CHR ''b'']
     else if n = 12 then [char_of (92 :: nat), CHR ''f'']
     else if 32 \<le> n \<and> n \<le> 126 then [c]
     else [char_of (92 :: nat), CHR ''u'', CHR ''0'', CHR ''0'',
           hex_digit (n div 16), hex_digit (n mod 16)])"
  by (simp add: json_escape_rare_def json_escape_def)

lemma json_escape_code [code]:
  "json_escape (Char b0 b1 b2 b3 b4 b5 b6 b7) =
     (if \<not> b7 \<and> (b5 \<or> b6) \<and> (b0 \<or> \<not> b1 \<or> b2 \<or> b3 \<or> b4 \<or> b6)
         \<and> (b0 \<or> b1 \<or> \<not> b2 \<or> \<not> b3 \<or> \<not> b4 \<or> \<not> b6 \<or> b5)
         \<and> \<not> (b0 \<and> b1 \<and> b2 \<and> b3 \<and> b4 \<and> b5 \<and> b6)
      then [Char b0 b1 b2 b3 b4 b5 b6 b7]
      else json_escape_rare (Char b0 b1 b2 b3 b4 b5 b6 b7))"
  by (cases b0; cases b1; cases b2; cases b3; cases b4; cases b5; cases b6; cases b7;
      simp add: json_escape_rare_def json_escape_def Let_def)

definition json_string :: "string \<Rightarrow> string" where
  "json_string s = [char_of (34 :: nat)] @ concat (map json_escape s) @ [char_of (34 :: nat)]"

primrec json_dumps :: "json \<Rightarrow> string" where
  "json_dumps JNull = ''null''"
| "json_dumps (JBool b) = (if b then ''true'' else ''false'')"
| "json_dumps (JInt i) = str_int i"
| "json_dumps (JStr s) = json_string s"
| "json_dumps (JList xs) = ''['' @ py_join '','' (map json_dumps xs) @ '']''"
| "json_dumps (JObj kvs) = [CHR 0x7B] @ py_join '',''
     (map (\<lambda>(k, r). json_string k @ '':'' @ r)
        (sort_key fst (map (map_prod id json_dumps) kvs))) @ [CHR 0x7D]"

text \<open>
  \<open>hashlib.sha256(...).hexdigest()\<close> is the parameter \<open>sha\<close> of every definition that hashes;
  \<open>json_digest\<close> is the composition the sources call \<open>_digest\<close>.
\<close>

type_synonym hash = "string \<Rightarrow> string"

definition json_digest :: "hash \<Rightarrow> json \<Rightarrow> string" where
  "json_digest sha v = sha (json_dumps v)"

text \<open>\<open>canonical_digest\<close> of core/contracts.py.\<close>

definition canonical_digest :: "hash \<Rightarrow> json \<Rightarrow> string" where
  "canonical_digest sha v = ''sha256:'' @ json_digest sha v"

text \<open>
  \<open>str(v)\<close> and \<open>int(v)\<close> of a decoded JSON value. The \<open>repr\<close> of a list or of a dictionary is
  the parameter \<open>rep\<close>; \<open>int\<close> of a string accepts surrounding white space, one sign, and
  digits with single underscores between them.
\<close>

definition py_str :: "(json \<Rightarrow> string) \<Rightarrow> json \<Rightarrow> string" where
  "py_str rep v = (case v of
       JNull \<Rightarrow> ''None''
     | JBool b \<Rightarrow> (if b then ''True'' else ''False'')
     | JInt i \<Rightarrow> str_int i
     | JStr s \<Rightarrow> s
     | JList _ \<Rightarrow> rep v
     | JObj _ \<Rightarrow> rep v)"

definition digit_value :: "char \<Rightarrow> int option" where
  "digit_value c = (let n = (of_char c :: nat) in
     if 48 \<le> n \<and> n \<le> 57 then Some (int n - 48) else None)"

fun parse_digits :: "string \<Rightarrow> int \<Rightarrow> bool \<Rightarrow> int option"
  and parse_digits_after :: "string \<Rightarrow> int \<Rightarrow> int option" where
  "parse_digits [] acc seen = (if seen then Some acc else None)"
| "parse_digits (c # cs) acc seen =
     (if c = CHR ''_'' then (if seen then parse_digits_after cs acc else None)
      else case digit_value c of None \<Rightarrow> None | Some d \<Rightarrow> parse_digits cs (10 * acc + d) True)"
| "parse_digits_after [] acc = None"
| "parse_digits_after (c # cs) acc =
     (case digit_value c of None \<Rightarrow> None | Some d \<Rightarrow> parse_digits cs (10 * acc + d) True)"

definition py_int_of_string :: "string \<Rightarrow> int option" where
  "py_int_of_string s = (case py_strip s of
       [] \<Rightarrow> None
     | c # cs \<Rightarrow> if c = CHR ''-'' then map_option uminus (parse_digits cs 0 False)
                 else if c = CHR ''+'' then parse_digits cs 0 False
                 else parse_digits (c # cs) 0 False)"

definition py_int :: "json \<Rightarrow> py_error + int" where
  "py_int v = (case v of
       JInt i \<Rightarrow> Inr i
     | JBool b \<Rightarrow> Inr (if b then 1 else 0)
     | JStr s \<Rightarrow> (case py_int_of_string s of
                     None \<Rightarrow> Inl (ValueError ''invalid literal for int() with base 10'')
                   | Some i \<Rightarrow> Inr i)
     | _ \<Rightarrow> Inl (TypeError ''int() argument must be a string or a number''))"

text \<open>The truth value of a decoded JSON value, and its comparison with an integer.\<close>

definition py_truth :: "json \<Rightarrow> bool" where
  "py_truth v = (case v of JNull \<Rightarrow> False | JBool b \<Rightarrow> b | JInt i \<Rightarrow> i \<noteq> 0 | JStr s \<Rightarrow> s \<noteq> []
                 | JList xs \<Rightarrow> xs \<noteq> [] | JObj kvs \<Rightarrow> kvs \<noteq> [])"

definition py_eq_int :: "json \<Rightarrow> int \<Rightarrow> bool" where
  "py_eq_int v n = (case v of JInt i \<Rightarrow> i = n | JBool b \<Rightarrow> (if b then 1 else 0) = n | _ \<Rightarrow> False)"

text \<open>Iterating a JSON value: a list gives its items, a string its characters, an object its keys.\<close>

definition py_iter :: "json \<Rightarrow> py_error + json list" where
  "py_iter v = (case v of
       JList xs \<Rightarrow> Inr xs
     | JStr s \<Rightarrow> Inr (map (\<lambda>c. JStr [c]) s)
     | JObj kvs \<Rightarrow> Inr (map (\<lambda>(k, v). JStr k) kvs)
     | _ \<Rightarrow> Inl (TypeError ''object is not iterable''))"

text \<open>\<open>dict(v)\<close>: a copy of a mapping. For other values it is the parameter \<open>dict_of\<close>.\<close>

definition py_dict :: "(json \<Rightarrow> py_error + (string, json) dict) \<Rightarrow> json \<Rightarrow> py_error + (string, json) dict" where
  "py_dict dict_of v = (case v of JObj kvs \<Rightarrow> Inr kvs | _ \<Rightarrow> dict_of v)"

fun sum_map :: "('a \<Rightarrow> py_error + 'b) \<Rightarrow> 'a list \<Rightarrow> py_error + 'b list" where
  "sum_map f [] = Inr []"
| "sum_map f (x # xs) = sum_then (f x) (\<lambda>y. sum_then (sum_map f xs) (\<lambda>ys. Inr (y # ys)))"

text \<open>
  \<open>_require_digest\<close> and its copies: seventy-one characters, the prefix \<open>sha256:\<close>, and a rest
  that \<open>int(rest, 16)\<close> accepts (a sign, a \<open>0x\<close> prefix and single underscores included).
\<close>

definition is_hex_digit :: "char \<Rightarrow> bool" where
  "is_hex_digit c \<longleftrightarrow> (let n = (of_char c :: nat) in
     (48 \<le> n \<and> n \<le> 57) \<or> (65 \<le> n \<and> n \<le> 70) \<or> (97 \<le> n \<and> n \<le> 102))"

fun hex_digits_ok :: "bool \<Rightarrow> string \<Rightarrow> bool" where
  "hex_digits_ok after_digit [] = after_digit"
| "hex_digits_ok after_digit (c # cs) =
     (if c = CHR ''_'' then after_digit \<and> hex_digits_ok False cs
      else is_hex_digit c \<and> hex_digits_ok True cs)"

definition py_hex_ok :: "string \<Rightarrow> bool" where
  "py_hex_ok s =
     (let t = py_strip s;
          u = (case t of [] \<Rightarrow> [] | c # cs \<Rightarrow> if c = CHR ''-'' \<or> c = CHR ''+'' then cs else t)
      in if starts_with u ''0x'' \<or> starts_with u ''0X''
         then (let d = drop 2 u in
               hex_digits_ok False (if starts_with d ''_'' then drop 1 d else d))
         else hex_digits_ok False u)"

definition canonical_digest_ok :: "string \<Rightarrow> bool" where
  "canonical_digest_ok v \<longleftrightarrow> length v = 71 \<and> starts_with v ''sha256:'' \<and> py_hex_ok (drop 7 v)"

section \<open>Reachable states\<close>

inductive reachable :: "('s \<Rightarrow> bool) \<Rightarrow> ('s \<Rightarrow> 's \<Rightarrow> bool) \<Rightarrow> 's \<Rightarrow> bool"
  for init :: "'s \<Rightarrow> bool" and step :: "'s \<Rightarrow> 's \<Rightarrow> bool" where
  start: "init s \<Longrightarrow> reachable init step s"
| next_state: "reachable init step s \<Longrightarrow> step s t \<Longrightarrow> reachable init step t"

section \<open>Lemmas on outcomes\<close>

lemma and_then_simps [simp]:
  "and_then (Inl e, s) f = (Inl e, s)" "and_then (Inr x, s) f = f x s"
  by (simp_all add: and_then_def)

lemma and_then_cases:
  assumes "and_then m f = (r, t)"
  obtains (raised) e where "m = (Inl e, t)" "r = Inl e"
  | (returned) x s where "m = (Inr x, s)" "f x s = (r, t)"
  using assms by (auto simp: and_then_def split: prod.splits sum.splits)

lemma sum_then_simps [simp]: "sum_then (Inl e) f = Inl e" "sum_then (Inr x) f = f x"
  by (simp_all add: sum_then_def)

lemma sum_then_Inr: "sum_then m f = Inr y \<longleftrightarrow> (\<exists>x. m = Inr x \<and> f x = Inr y)"
  by (cases m) simp_all

lemma sum_map_Inr: "(\<And>x. x \<in> set xs \<Longrightarrow> f x = Inr (g x)) \<Longrightarrow> sum_map f xs = Inr (map g xs)"
  by (induction xs) auto

section \<open>Lemmas on dictionaries\<close>

lemmas [dict_simps] = AList.update_conv' AList.delete_conv'

lemma dict_ok_Nil [simp]: "dict_ok []"
  by (simp add: dict_ok_def)

lemma dict_ok_set [simp, intro]: "dict_ok d \<Longrightarrow> dict_ok (dict_set k v d)"
  by (simp add: dict_ok_def distinct_update)

lemma dict_ok_pop [simp, intro]: "dict_ok d \<Longrightarrow> dict_ok (dict_pop k d)"
  by (simp add: dict_ok_def distinct_delete)

lemma dict_ok_setdefault [simp, intro]: "dict_ok d \<Longrightarrow> dict_ok (dict_setdefault k v d)"
  by (simp add: dict_setdefault_def split: option.splits)

lemma dict_ok_map [simp]: "dict_ok (dict_map f d) \<longleftrightarrow> dict_ok d"
  by (simp add: dict_ok_def dict_map_def case_prod_beta comp_def)

lemma dict_ok_filter [intro]: "dict_ok d \<Longrightarrow> dict_ok (filter P d)"
  by (simp add: dict_ok_def distinct_map_filter)

lemma dict_ok_fold_set: "dict_ok d \<Longrightarrow> dict_ok (fold (\<lambda>(k, v) d. dict_set k v d) xs d)"
  by (induction xs arbitrary: d) auto

lemma dict_ok_of_list [simp]: "dict_ok (dict_of_list xs)"
  by (simp add: dict_of_list_def dict_ok_fold_set)

lemma dict_keys_fold_set:
  "fst ` set (fold (\<lambda>(k, v) d. dict_set k v d) xs d) = fst ` set d \<union> fst ` set xs"
  by (induction xs arbitrary: d) (auto simp: dom_map_of_conv_image_fst [symmetric] dict_simps)

lemma dict_keys_of_list: "fst ` set (dict_of_list xs) = fst ` set xs"
  by (simp add: dict_of_list_def dict_keys_fold_set)

lemma dict_get_map [simp]: "dict_get (dict_map f d) k = map_option f (dict_get d k)"
  by (induction d) (auto simp: dict_map_def)

lemma dict_keys_map [simp]: "dict_keys (dict_map f d) = dict_keys d"
  by (simp add: dict_map_def case_prod_beta comp_def)

lemma fst_set_dict_map [simp]: "fst ` set (dict_map f d) = fst ` set d"
  by (force simp: dict_map_def image_iff)

lemma dict_values_map [simp]: "dict_values (dict_map f d) = map f (dict_values d)"
  by (simp add: dict_map_def case_prod_beta comp_def)

lemma dict_get_iff: "dict_ok d \<Longrightarrow> dict_get d k = Some v \<longleftrightarrow> (k, v) \<in> set d"
  by (simp add: dict_ok_def)

lemma dict_ok_unique: "dict_ok d \<Longrightarrow> (k, v) \<in> set d \<Longrightarrow> (k, w) \<in> set d \<Longrightarrow> v = w"
  by (metis dict_get_iff option.inject)

lemma dict_get_in: "dict_get d k = Some v \<Longrightarrow> (k, v) \<in> set d"
  by (rule map_of_SomeD)

lemma dict_key_in: "(k, v) \<in> set d \<Longrightarrow> k \<in> fst ` set d"
  by force

lemma dict_get_None_iff: "dict_get d k = None \<longleftrightarrow> k \<notin> set (dict_keys d)"
  by (simp add: map_of_eq_None_iff)

lemma dict_set_new: "dict_get d k = None \<Longrightarrow> dict_set k v d = d @ [(k, v)]"
  by (induction d) auto

lemma dict_of_list_distinct: "distinct (map fst kvs) \<Longrightarrow> dict_of_list kvs = kvs"
proof (induction kvs rule: rev_induct)
  case Nil
  then show ?case by (simp add: dict_of_list_def)
next
  case (snoc kv kvs)
  then have "dict_of_list (kvs @ [kv]) = dict_set (fst kv) (snd kv) kvs"
    by (simp add: dict_of_list_def case_prod_beta)
  moreover have "dict_get kvs (fst kv) = None" using snoc.prems by (auto simp: map_of_eq_None_iff)
  ultimately show ?case by (simp add: dict_set_new)
qed

lemma dict_set_same: "dict_get d k = Some v \<Longrightarrow> dict_set k v d = d"
  by (induction d) auto

lemma dict_set_twice: "dict_set k v (dict_set k w d) = dict_set k v d"
  by (induction d) auto

lemma dict_keys_set_old: "dict_get d k \<noteq> None \<Longrightarrow> dict_keys (dict_set k v d) = dict_keys d"
  by (induction d) auto

lemma dict_keys_set_member: "k \<in> set (dict_keys d) \<Longrightarrow> dict_keys (dict_set k v d) = dict_keys d"
  by (induction d) auto

lemma dict_has_set [simp]: "dict_has (dict_set k v d) j \<longleftrightarrow> j = k \<or> dict_has d j"
  by (simp add: dict_has_def dict_simps)

lemma dict_has_pop [simp]: "dict_has (dict_pop k d) j \<longleftrightarrow> j \<noteq> k \<and> dict_has d j"
  by (simp add: dict_has_def dict_simps)

lemma dict_get0_set [simp]: "dict_get0 (dict_set k v d) j = (if j = k then v else dict_get0 d j)"
  by (simp add: dict_get0_def dict_simps)

lemma dict_get0_pop [simp]: "dict_get0 (dict_pop k d) j = (if j = k then 0 else dict_get0 d j)"
  by (simp add: dict_get0_def dict_simps)

lemma set_dict_set:
  "dict_ok d \<Longrightarrow> set (dict_set k v d) = insert (k, v) {p \<in> set d. fst p \<noteq> k}"
proof (induction d)
  case Nil
  then show ?case by simp
next
  case (Cons p d)
  then have "fst p \<notin> fst ` set d" and "dict_ok d" by (auto simp: dict_ok_def)
  with Cons.IH show ?case by (cases p) force
qed

lemma set_dict_pop: "set (dict_pop k d) = {p \<in> set d. fst p \<noteq> k}"
  by (auto simp: AList.delete_eq)

lemma length_dict_set:
  "length (dict_set k v d) = (if dict_has d k then length d else Suc (length d))"
  by (induction d) (auto simp: dict_has_def)

lemma dict_pop_absent: "dict_get d k = None \<Longrightarrow> dict_pop k d = d"
  by (simp add: map_of_eq_None_iff)

lemma dict_pop_set_new: "dict_get d k = None \<Longrightarrow> dict_pop k (dict_set k v d) = d"
  by (simp add: AList.delete_update_same dict_pop_absent)

lemma length_dict_pop: "dict_ok d \<Longrightarrow> dict_has d k \<Longrightarrow> Suc (length (dict_pop k d)) = length d"
proof (induction d)
  case Nil
  then show ?case by (simp add: dict_has_def)
next
  case (Cons p d)
  obtain j w where p: "p = (j, w)" by (cases p)
  show ?case
  proof (cases "j = k")
    case True
    with Cons.prems p have "dict_get d k = None" by (auto simp: dict_ok_def dict_get_None_iff)
    with p True show ?thesis by (simp add: dict_pop_absent)
  next
    case False
    with Cons p show ?thesis by (simp add: dict_has_def dict_ok_def)
  qed
qed

lemma dict_all_Nil [simp]: "dict_all P []"
  by (simp add: dict_all_def)

lemma dict_allD: "dict_all P d \<Longrightarrow> dict_get d k = Some v \<Longrightarrow> P k v"
  by (simp add: dict_all_def)

lemma dict_all_set [simp, intro]: "P k v \<Longrightarrow> dict_all P d \<Longrightarrow> dict_all P (dict_set k v d)"
  by (simp add: dict_all_def dict_simps)

lemma dict_all_pop [simp, intro]: "dict_all P d \<Longrightarrow> dict_all P (dict_pop k d)"
  by (simp add: dict_all_def dict_simps)

lemma dict_all_filter: "dict_ok d \<Longrightarrow> dict_all P d \<Longrightarrow> dict_all P (filter Q d)"
  by (auto simp: dict_all_def dict_get_iff dict_ok_filter)

lemma dict_all_mono: "dict_all P d \<Longrightarrow> (\<And>k v. P k v \<Longrightarrow> Q k v) \<Longrightarrow> dict_all Q d"
  by (simp add: dict_all_def)

lemma dict_all_values: "dict_ok d \<Longrightarrow> dict_all (\<lambda>_. P) d \<longleftrightarrow> (\<forall>v \<in> set (dict_values d). P v)"
  by (force simp: dict_all_def dict_get_iff)

section \<open>Sums over dictionaries\<close>

lemma dict_sum_Nil [simp]: "dict_sum f [] = 0"
  by (simp add: dict_sum_def)

lemma dict_sum_Cons [simp]: "dict_sum f ((k, v) # d) = f k v + dict_sum f d"
  by (simp add: dict_sum_def)

lemma dict_sum_append [simp]: "dict_sum f (d @ e) = dict_sum f d + dict_sum f e"
  by (simp add: dict_sum_def)

lemma dict_sum_cong:
  "(\<And>k v. (k, v) \<in> set d \<Longrightarrow> f k v = g k v) \<Longrightarrow> dict_sum f d = dict_sum g d"
  by (induction d) auto

lemma dict_sum_mono:
  "(\<And>k v. (k, v) \<in> set d \<Longrightarrow> f k v \<le> g k v) \<Longrightarrow> dict_sum f d \<le> dict_sum g d"
  by (induction d) (force intro: add_mono)+

lemma dict_sum_nonneg: "(\<And>k v. (k, v) \<in> set d \<Longrightarrow> 0 \<le> f k v) \<Longrightarrow> 0 \<le> dict_sum f d"
  by (induction d) (auto intro: add_nonneg_nonneg)

lemma dict_sum_set_new: "dict_get d k = None \<Longrightarrow> dict_sum f (dict_set k v d) = dict_sum f d + f k v"
  by (simp add: dict_set_new)

lemma dict_sum_pop:
  "dict_ok d \<Longrightarrow> dict_get d k = Some v \<Longrightarrow> dict_sum f (dict_pop k d) = dict_sum f d - f k v"
proof (induction d)
  case Nil
  then show ?case by simp
next
  case (Cons p d)
  obtain j w where p: "p = (j, w)" by (cases p)
  show ?case
  proof (cases "j = k")
    case True
    with Cons.prems p have "dict_get d k = None" by (auto simp: dict_ok_def dict_get_None_iff)
    with Cons.prems p True show ?thesis by (simp add: dict_pop_absent)
  next
    case False
    with Cons p show ?thesis by (auto simp: dict_ok_def)
  qed
qed

lemma dict_sum_set_old:
  "dict_ok d \<Longrightarrow> dict_get d k = Some w \<Longrightarrow> dict_sum f (dict_set k v d) = dict_sum f d - f k w + f k v"
proof (induction d)
  case Nil
  then show ?case by simp
next
  case (Cons p d)
  obtain j u where p: "p = (j, u)" by (cases p)
  show ?case
  proof (cases "j = k")
    case True
    with Cons.prems p show ?thesis by simp
  next
    case False
    with Cons p show ?thesis by (auto simp: dict_ok_def)
  qed
qed

lemma dict_sum_map: "dict_sum f (dict_map g d) = dict_sum (\<lambda>k v. f k (g v)) d"
  by (induction d) (auto simp: dict_map_def)

lemma dict_sum_filter: "dict_sum f (filter P d) = dict_sum (\<lambda>k v. if P (k, v) then f k v else 0) d"
  by (induction d) auto

lemma dict_sum_ge_item:
  "(\<And>k v. (k, v) \<in> set d \<Longrightarrow> 0 \<le> f k v) \<Longrightarrow> (k, v) \<in> set d \<Longrightarrow> f k v \<le> dict_sum f d"
proof (induction d)
  case Nil
  then show ?case by simp
next
  case (Cons p d)
  obtain j w where p: "p = (j, w)" by (cases p)
  have rest: "0 \<le> dict_sum f d" using Cons.prems(1) by (intro dict_sum_nonneg) auto
  show ?case
  proof (cases "(k, v) = p")
    case True
    with p rest show ?thesis by simp
  next
    case False
    with Cons p have "f k v \<le> dict_sum f d" by auto
    moreover have "0 \<le> f j w" using Cons.prems(1) p by simp
    ultimately show ?thesis using p by simp
  qed
qed

section \<open>Lists and reachability\<close>

lemma find_SomeD: "find P xs = Some x \<Longrightarrow> x \<in> set xs \<and> P x"
  by (auto simp: find_Some_iff)


lemma reachable_steps: "reachable init step s \<Longrightarrow> step\<^sup>*\<^sup>* s t \<Longrightarrow> reachable init step t"
proof (rotate_tac, induction rule: rtranclp_induct)
  case base
  then show ?case .
next
  case (step t u)
  then show ?case by (blast intro: next_state)
qed

lemma reachable_one: "step s t \<Longrightarrow> init s \<Longrightarrow> reachable init step t"
  by (blast intro: reachable.intros)

end
