(* ===== verification/Interfaces.thy ===== *)
theory Interfaces
  imports Prelude
begin

text \<open>
  The contracts the components of the DI core share, as locales. Each is interpreted on the
  model's own definitions in the theory of the component that provides it.

  \<^item> \<open>invariant_system\<close>: an invariant that the start states have and every operation keeps.
  \<^item> \<open>refinement\<close>: a system with an invariant whose operations are steps of a specification.
  \<^item> \<open>append_log\<close>: a ledger that operations only extend.
  \<^item> \<open>attempt_fence\<close>: an attempt high watermark per key that never regresses, and an
    admission test that respects it.
  \<^item> \<open>terminal_once\<close>: a terminal outcome that is set at most once; \<open>terminal_fence\<close> adds the
    test by which the component accepts events, which is closed once the outcome is set.
\<close>

section \<open>Invariants\<close>

locale invariant_system =
  fixes init :: "'s \<Rightarrow> bool"
    and step :: "'s \<Rightarrow> 's \<Rightarrow> bool"
    and inv :: "'s \<Rightarrow> bool"
  assumes init_inv: "init s \<Longrightarrow> inv s"
    and step_inv: "inv s \<Longrightarrow> step s t \<Longrightarrow> inv t"
begin

lemma steps_inv: "step\<^sup>*\<^sup>* s t \<Longrightarrow> inv s \<Longrightarrow> inv t"
  by (induction rule: rtranclp_induct) (auto intro: step_inv)

lemma reachable_inv: "reachable init step s \<Longrightarrow> inv s"
  by (induction rule: reachable.induct) (auto intro: init_inv step_inv)

end

section \<open>Refinement\<close>

text \<open>
  A system whose operations, seen through an abstraction, are steps of a specification: every
  reachable state then abstracts to a reachable state of the specification.
\<close>

locale refinement = invariant_system init step inv
  for init :: "'s \<Rightarrow> bool" and step :: "'s \<Rightarrow> 's \<Rightarrow> bool" and inv :: "'s \<Rightarrow> bool" +
  fixes spec_init :: "'a \<Rightarrow> bool"
    and spec_step :: "'a \<Rightarrow> 'a \<Rightarrow> bool"
    and abs :: "'s \<Rightarrow> 'a"
  assumes init_refines: "init s \<Longrightarrow> spec_init (abs s)"
    and step_refines: "inv s \<Longrightarrow> step s t \<Longrightarrow> spec_step\<^sup>*\<^sup>* (abs s) (abs t)"
begin

lemma reachable_refines: "reachable init step s \<Longrightarrow> reachable spec_init spec_step (abs s)"
proof (induction rule: reachable.induct)
  case (start s)
  then show ?case by (blast intro: reachable.start init_refines)
next
  case (next_state s t)
  then have "spec_step\<^sup>*\<^sup>* (abs s) (abs t)" by (blast intro: step_refines reachable_inv)
  with next_state.IH show ?case by (rule reachable_steps)
qed

end

section \<open>Append-only logs\<close>

locale append_log =
  fixes step :: "'s \<Rightarrow> 's \<Rightarrow> bool"
    and log_of :: "'s \<Rightarrow> 'e list"
  assumes step_extends: "step s t \<Longrightarrow> \<exists>es. log_of t = log_of s @ es"
begin

lemma steps_extend: "step\<^sup>*\<^sup>* s t \<Longrightarrow> \<exists>es. log_of t = log_of s @ es"
proof (induction rule: rtranclp_induct)
  case base
  show ?case by simp
next
  case (step t u)
  then obtain es fs where "log_of t = log_of s @ es" and "log_of u = log_of t @ fs"
    using step_extends by blast
  then show ?case by simp
qed

lemma steps_keep_entry:
  assumes "step\<^sup>*\<^sup>* s t" and "i < length (log_of s)"
  shows "i < length (log_of t) \<and> log_of t ! i = log_of s ! i"
proof -
  from steps_extend [OF assms(1)] obtain es where "log_of t = log_of s @ es" by blast
  with assms(2) show ?thesis by (simp add: nth_append)
qed

end

section \<open>Attempt fences\<close>

locale attempt_fence =
  fixes step :: "'s \<Rightarrow> 's \<Rightarrow> bool"
    and watermark :: "'s \<Rightarrow> 'k \<Rightarrow> int"
    and admits :: "'s \<Rightarrow> 'k \<Rightarrow> int \<Rightarrow> bool"
  assumes watermark_step: "step s t \<Longrightarrow> watermark s k \<le> watermark t k"
    and admits_watermark: "admits s k e \<Longrightarrow> watermark s k \<le> e"
begin

lemma watermark_steps: "step\<^sup>*\<^sup>* s t \<Longrightarrow> watermark s k \<le> watermark t k"
  by (induction rule: rtranclp_induct) (auto dest: watermark_step intro: order_trans)

lemma fenced_forever: "e < watermark s k \<Longrightarrow> step\<^sup>*\<^sup>* s t \<Longrightarrow> \<not> admits t k e"
  by (drule watermark_steps [where k = k]) (auto dest: admits_watermark)

end

section \<open>Terminal outcomes\<close>

locale terminal_once =
  fixes step :: "'s \<Rightarrow> 's \<Rightarrow> bool"
    and outcome_of :: "'s \<Rightarrow> 'o"
    and undecided :: 'o
  assumes outcome_step: "outcome_of s \<noteq> undecided \<Longrightarrow> step s t \<Longrightarrow> outcome_of t = outcome_of s"
begin

lemma outcome_steps: "step\<^sup>*\<^sup>* s t \<Longrightarrow> outcome_of s \<noteq> undecided \<Longrightarrow> outcome_of t = outcome_of s"
proof (induction rule: rtranclp_induct)
  case base
  show ?case by simp
next
  case (step t u)
  then have "outcome_of t \<noteq> undecided" by simp
  from outcome_step [OF this step.hyps(2)] step show ?case by simp
qed

end

locale terminal_fence = terminal_once step outcome_of undecided
  for step :: "'s \<Rightarrow> 's \<Rightarrow> bool" and outcome_of :: "'s \<Rightarrow> 'o" and undecided :: 'o +
  fixes accepts :: "'s \<Rightarrow> 'a \<Rightarrow> bool"
  assumes terminal_rejects: "outcome_of s \<noteq> undecided \<Longrightarrow> \<not> accepts s a"
begin

lemma terminal_rejects_forever:
  "step\<^sup>*\<^sup>* s t \<Longrightarrow> outcome_of s \<noteq> undecided \<Longrightarrow> \<not> accepts t a"
  using outcome_steps terminal_rejects by metis

end

end
