(* ===== verification/Device_Scheduler.thy ===== *)
theory Device_Scheduler
  imports Interfaces
begin

text \<open>
  \<open>core/device_scheduler.py\<close>: the provider-local queue and just-in-time device admission
  (\<open>MultiDeviceSchedulerV3\<close>). The lock of the object makes each method one step. The lemmas
  show that the memory booked on a device is exactly that of its active roles and never
  exceeds the device, that fencing sequences are unique, and that a refused admission loses
  no work.
\<close>

section \<open>Jobs and admissions\<close>

record device_job =
  dj_request_id :: string
  dj_role :: string
  dj_required_memory_mb :: int
  dj_preferred_device :: string

definition make_device_job :: "string \<Rightarrow> string \<Rightarrow> int \<Rightarrow> string \<Rightarrow> py_error + device_job" where
  "make_device_job request_id role required_memory_mb preferred_device =
     (if request_id = [] \<or> role = [] \<or> required_memory_mb \<le> 0
      then Inl (ValueError ''invalid V3 device job'')
      else Inr \<lparr>dj_request_id = request_id, dj_role = role,
                dj_required_memory_mb = required_memory_mb,
                dj_preferred_device = preferred_device\<rparr>)"

record device_admission =
  da_request_id :: string
  da_role :: string
  da_device :: string
  da_fencing_sequence :: int

section \<open>The scheduler\<close>

record scheduler =
  sch_capacity :: "(string, int) dict"
  sch_used :: "(string, int) dict"
  sch_active :: "(string, device_admission) dict"
  sch_active_memory :: "(string, int) dict"
  sch_queue :: "(string, device_job) dict"
  sch_sequence :: int
  sch_max_queue :: int

definition scheduler_init :: "(string \<times> int) list \<Rightarrow> int \<Rightarrow> py_error + scheduler" where
  "scheduler_init device_memory_mb max_queue =
     (let devices = dict_of_list device_memory_mb in
      if devices = [] \<or> (\<exists>(device, memory) \<in> set devices. device = [] \<or> memory \<le> 0)
         \<or> max_queue \<le> 0
      then Inl (ValueError ''invalid V3 device scheduler topology'')
      else Inr \<lparr>sch_capacity = devices, sch_used = dict_map (\<lambda>_. 0) devices, sch_active = [],
                sch_active_memory = [], sch_queue = [], sch_sequence = 0,
                sch_max_queue = max_queue\<rparr>)"

definition candidate_devices :: "scheduler \<Rightarrow> device_job \<Rightarrow> string list" where
  "candidate_devices s job =
     filter (\<lambda>device. (dj_preferred_device job = [] \<or> device = dj_preferred_device job)
                 \<and> dict_get0 (sch_capacity s) device - dict_get0 (sch_used s) device
                   \<ge> dj_required_memory_mb job)
       (sort (dict_keys (sch_capacity s)))"

definition scheduler_submit :: "device_job \<Rightarrow> scheduler \<Rightarrow> (unit, scheduler) outcome" where
  "scheduler_submit job s =
     (if dict_has (sch_queue s) (dj_request_id job) \<or> dict_has (sch_active s) (dj_request_id job)
      then (Inl (ValueError ''duplicate V3 device request''), s)
      else if int (length (sch_queue s)) \<ge> sch_max_queue s
      then (Inl (RuntimeError ''V3 device queue is full''), s)
      else if candidate_devices s job = []
      then (Inl (ValueError ''no single visible device can fit V3 role''), s)
      else (Inr (), s\<lparr>sch_queue := dict_set (dj_request_id job) job (sch_queue s)\<rparr>))"

definition scheduler_admit :: "string \<Rightarrow> scheduler \<Rightarrow> (device_admission, scheduler) outcome" where
  "scheduler_admit request_id s =
     (case dict_get (sch_queue s) request_id of
        None \<Rightarrow> (Inl (ValueError ''unknown or already admitted V3 request''), s)
      | Some job \<Rightarrow>
          (let s1 = s\<lparr>sch_queue := dict_pop request_id (sch_queue s)\<rparr> in
           case candidate_devices s1 job of
             [] \<Rightarrow> (Inl (RuntimeError ''V3 device capacity became unavailable''),
                    s1\<lparr>sch_queue := dict_set request_id job (sch_queue s1)\<rparr>)
           | device # _ \<Rightarrow>
               (let sequence = sch_sequence s1 + 1;
                    admission = \<lparr>da_request_id = request_id, da_role = dj_role job,
                                 da_device = device, da_fencing_sequence = sequence\<rparr>
                in (Inr admission,
                    s1\<lparr>sch_sequence := sequence,
                       sch_used := dict_set device
                         (dict_get0 (sch_used s1) device + dj_required_memory_mb job) (sch_used s1),
                       sch_active := dict_set request_id admission (sch_active s1),
                       sch_active_memory :=
                         dict_set request_id (dj_required_memory_mb job) (sch_active_memory s1)\<rparr>))))"

definition scheduler_complete :: "string \<Rightarrow> scheduler \<Rightarrow> (unit, scheduler) outcome" where
  "scheduler_complete request_id s =
     (case dict_get (sch_active s) request_id of
        None \<Rightarrow> (Inl (ValueError ''unknown V3 active request''), s)
      | Some admission \<Rightarrow>
          (let s1 = s\<lparr>sch_active := dict_pop request_id (sch_active s)\<rparr> in
           case dict_get (sch_active_memory s1) request_id of
             None \<Rightarrow> (Inl KeyError, s1)
           | Some job_memory \<Rightarrow>
               (Inr (),
                s1\<lparr>sch_active_memory := dict_pop request_id (sch_active_memory s1),
                   sch_used := dict_set (da_device admission)
                     (dict_get0 (sch_used s1) (da_device admission) - job_memory)
                     (sch_used s1)\<rparr>)))"

text \<open>One step of the object: a method call by any client, whatever it returns or raises.\<close>

definition scheduler_start :: "scheduler \<Rightarrow> bool" where
  "scheduler_start s \<longleftrightarrow> (\<exists>devices max_queue. scheduler_init devices max_queue = Inr s)"

inductive scheduler_step :: "scheduler \<Rightarrow> scheduler \<Rightarrow> bool" where
  submit: "make_device_job request_id role memory preferred = Inr job \<Longrightarrow>
     scheduler_submit job s = (r, t) \<Longrightarrow> scheduler_step s t"
| admit: "scheduler_admit request_id s = (r, t) \<Longrightarrow> scheduler_step s t"
| complete: "scheduler_complete request_id s = (r, t) \<Longrightarrow> scheduler_step s t"

section \<open>The invariant\<close>

text \<open>The memory of the active roles that were admitted on a device.\<close>

definition booked_memory :: "scheduler \<Rightarrow> string \<Rightarrow> int" where
  "booked_memory s device =
     dict_sum (\<lambda>request_id admission.
        if da_device admission = device then dict_get0 (sch_active_memory s) request_id else 0)
       (sch_active s)"

definition scheduler_dicts :: "scheduler \<Rightarrow> bool" where
  "scheduler_dicts s \<longleftrightarrow>
     dict_ok (sch_capacity s) \<and> dict_ok (sch_used s) \<and> dict_ok (sch_active s)
     \<and> dict_ok (sch_active_memory s) \<and> dict_ok (sch_queue s)
     \<and> set (dict_keys (sch_used s)) = set (dict_keys (sch_capacity s))
     \<and> set (dict_keys (sch_active_memory s)) = set (dict_keys (sch_active s))
     \<and> set (dict_keys (sch_queue s)) \<inter> set (dict_keys (sch_active s)) = {}"

definition scheduler_admissions_ok :: "scheduler \<Rightarrow> bool" where
  "scheduler_admissions_ok s \<longleftrightarrow>
     (\<forall>(k, a) \<in> set (sch_active s). da_request_id a = k
        \<and> da_device a \<in> set (dict_keys (sch_capacity s))
        \<and> 0 < da_fencing_sequence a \<and> da_fencing_sequence a \<le> sch_sequence s)
     \<and> distinct (map da_fencing_sequence (dict_values (sch_active s)))
     \<and> 0 \<le> sch_sequence s"

definition scheduler_sizes_ok :: "scheduler \<Rightarrow> bool" where
  "scheduler_sizes_ok s \<longleftrightarrow>
     (\<forall>(k, m) \<in> set (sch_active_memory s). 0 < m)
     \<and> (\<forall>(k, j) \<in> set (sch_queue s). dj_request_id j = k \<and> 0 < dj_required_memory_mb j)"

definition scheduler_accounts_ok :: "scheduler \<Rightarrow> bool" where
  "scheduler_accounts_ok s \<longleftrightarrow>
     (\<forall>device. dict_get0 (sch_used s) device = booked_memory s device
        \<and> booked_memory s device \<le> dict_get0 (sch_capacity s) device)"

definition scheduler_inv :: "scheduler \<Rightarrow> bool" where
  "scheduler_inv s \<longleftrightarrow> scheduler_dicts s \<and> scheduler_admissions_ok s \<and> scheduler_sizes_ok s
     \<and> scheduler_accounts_ok s"

lemmas scheduler_parts =
  scheduler_dicts_def scheduler_admissions_ok_def scheduler_sizes_ok_def scheduler_accounts_ok_def

section \<open>Preservation\<close>

lemma booked_memory_cong:
  "sch_active t = sch_active s \<Longrightarrow> sch_active_memory t = sch_active_memory s \<Longrightarrow>
   booked_memory t = booked_memory s"
  by (simp add: booked_memory_def fun_eq_iff cong: if_cong)

lemma make_device_job_pos:
  "make_device_job request_id role memory preferred = Inr job \<Longrightarrow> 0 < dj_required_memory_mb job"
  by (auto simp: make_device_job_def split: if_splits)

lemma candidate_devices_in:
  assumes "candidate_devices s job = device # ds"
  shows "device \<in> set (dict_keys (sch_capacity s))"
    and "dict_get0 (sch_used s) device + dj_required_memory_mb job
         \<le> dict_get0 (sch_capacity s) device"
proof -
  have "device \<in> set (candidate_devices s job)" using assms by simp
  then show "device \<in> set (dict_keys (sch_capacity s))"
    and "dict_get0 (sch_used s) device + dj_required_memory_mb job
         \<le> dict_get0 (sch_capacity s) device"
    by (auto simp: candidate_devices_def)
qed

lemma scheduler_inv_used: "scheduler_inv s \<Longrightarrow> dict_get0 (sch_used s) d = booked_memory s d"
  and scheduler_inv_fits: "scheduler_inv s \<Longrightarrow> booked_memory s d \<le> dict_get0 (sch_capacity s) d"
  by (simp_all add: scheduler_inv_def scheduler_accounts_ok_def)

lemma scheduler_init_inv: "scheduler_init devices max_queue = Inr s \<Longrightarrow> scheduler_inv s"
proof -
  assume init: "scheduler_init devices max_queue = Inr s"
  let ?d = "dict_of_list devices"
  have pos: "\<forall>(k, m) \<in> set ?d. 0 < m"
    using init by (force simp: scheduler_init_def Let_def split: if_splits)
  have cap: "0 \<le> dict_get0 ?d device" for device
    using pos by (auto simp: dict_get0_def split: option.splits dest!: map_of_SomeD)
  have zero: "dict_get0 (dict_map (\<lambda>_. 0) ?d) device = 0" for device
    by (simp add: dict_get0_def split: option.splits)
  have s: "s = \<lparr>sch_capacity = ?d, sch_used = dict_map (\<lambda>_. 0) ?d, sch_active = [],
                sch_active_memory = [], sch_queue = [], sch_sequence = 0,
                sch_max_queue = max_queue\<rparr>"
    using init by (auto simp: scheduler_init_def Let_def split: if_splits)
  have "scheduler_dicts s" by (simp add: s scheduler_dicts_def)
  with cap zero show ?thesis by (simp add: s scheduler_inv_def scheduler_parts booked_memory_def)
qed

lemma scheduler_submit_inv:
  assumes "scheduler_inv s" and "0 < dj_required_memory_mb job" and "scheduler_submit job s = (r, t)"
  shows "scheduler_inv t"
proof (cases "t = s")
  case True
  with assms(1) show ?thesis by simp
next
  case False
  let ?k = "dj_request_id job"
  from False assms(3) have t: "t = s\<lparr>sch_queue := dict_set ?k job (sch_queue s)\<rparr>"
    and fresh: "\<not> dict_has (sch_active s) ?k"
    by (auto simp: scheduler_submit_def split: if_splits)
  have "booked_memory t = booked_memory s" by (rule booked_memory_cong) (simp_all add: t)
  then have "scheduler_accounts_ok t" and "scheduler_admissions_ok t"
    using assms(1) by (simp_all add: scheduler_inv_def scheduler_parts t)
  moreover have "dict_ok (sch_queue s)" using assms(1) by (simp add: scheduler_inv_def scheduler_parts)
  then have "scheduler_sizes_ok t"
    using assms(1,2) by (auto simp: scheduler_inv_def scheduler_sizes_ok_def t set_dict_set)
  moreover have "scheduler_dicts t"
    using assms(1) fresh
    by (simp add: scheduler_inv_def scheduler_dicts_def t dom_update dict_has_def dict_get_None_iff)
  ultimately show ?thesis by (simp add: scheduler_inv_def)
qed

lemma booked_memory_admit:
  assumes "dict_get (sch_active s) k = None"
    and "set (dict_keys (sch_active_memory s)) = set (dict_keys (sch_active s))"
    and "sch_active t = dict_set k a (sch_active s)"
    and "sch_active_memory t = dict_set k m (sch_active_memory s)"
  shows "booked_memory t device = booked_memory s device + (if da_device a = device then m else 0)"
proof -
  have "dict_sum (\<lambda>r x. if da_device x = device then dict_get0 (sch_active_memory t) r else 0)
          (sch_active s) = booked_memory s device"
    unfolding booked_memory_def
  proof (rule dict_sum_cong)
    fix r x assume "(r, x) \<in> set (sch_active s)"
    then have "r \<noteq> k" using assms(1) by (force simp: dict_get_None_iff)
    then show "(if da_device x = device then dict_get0 (sch_active_memory t) r else 0)
        = (if da_device x = device then dict_get0 (sch_active_memory s) r else 0)"
      by (simp add: assms(4))
  qed
  with assms(1,3,4) show ?thesis
    by (simp add: booked_memory_def dict_sum_set_new)
qed

lemma booked_memory_complete:
  assumes "dict_ok (sch_active s)" and "dict_get (sch_active s) k = Some a"
    and "sch_active t = dict_pop k (sch_active s)"
    and "sch_active_memory t = dict_pop k (sch_active_memory s)"
  shows "booked_memory t device =
         booked_memory s device - (if da_device a = device then dict_get0 (sch_active_memory s) k else 0)"
proof -
  have "booked_memory t device = dict_sum (\<lambda>r x. if da_device x = device
          then dict_get0 (sch_active_memory s) r else 0) (dict_pop k (sch_active s))"
    unfolding booked_memory_def assms(3)
  proof (rule dict_sum_cong)
    fix r x assume "(r, x) \<in> set (dict_pop k (sch_active s))"
    then have "r \<noteq> k" by (simp add: set_dict_pop)
    then show "(if da_device x = device then dict_get0 (sch_active_memory t) r else 0)
        = (if da_device x = device then dict_get0 (sch_active_memory s) r else 0)"
      by (simp add: assms(4))
  qed
  then show ?thesis
    by (simp add: booked_memory_def dict_sum_pop [OF assms(1,2)])
qed

text \<open>What \<open>admit\<close> does: it fails without a change of the accounts, or books one device.\<close>

lemma scheduler_admit_cases:
  assumes "scheduler_admit request_id s = (r, t)"
  obtains (refused) e q where "r = Inl e" and "t = s\<lparr>sch_queue := q\<rparr>"
      and "q = sch_queue s \<or> (\<exists>job. dict_get (sch_queue s) request_id = Some job
             \<and> q = dict_set request_id job (dict_pop request_id (sch_queue s)))"
  | (admitted) job device ds a where "dict_get (sch_queue s) request_id = Some job"
      and "candidate_devices s job = device # ds"
      and "a = \<lparr>da_request_id = request_id, da_role = dj_role job, da_device = device,
                da_fencing_sequence = sch_sequence s + 1\<rparr>"
      and "r = Inr a"
      and "t = s\<lparr>sch_queue := dict_pop request_id (sch_queue s),
                 sch_sequence := sch_sequence s + 1,
                 sch_used := dict_set device
                   (dict_get0 (sch_used s) device + dj_required_memory_mb job) (sch_used s),
                 sch_active := dict_set request_id a (sch_active s),
                 sch_active_memory :=
                   dict_set request_id (dj_required_memory_mb job) (sch_active_memory s)\<rparr>"
proof (cases "dict_get (sch_queue s) request_id")
  case None
  with assms show ?thesis by (intro refused [of _ "sch_queue s"]) (auto simp: scheduler_admit_def)
next
  case (Some job)
  have same: "candidate_devices (s\<lparr>sch_queue := q\<rparr>) job = candidate_devices s job" for q
    by (simp add: candidate_devices_def)
  show ?thesis
  proof (cases "candidate_devices s job")
    case Nil
    with assms Some same show ?thesis
      by (intro refused [of _ "dict_set request_id job (dict_pop request_id (sch_queue s))"])
        (auto simp: scheduler_admit_def Let_def)
  next
    case (Cons device ds)
    with assms Some same show ?thesis
      by (intro admitted [of job device ds]) (auto simp: scheduler_admit_def Let_def)
  qed
qed

lemma scheduler_admit_inv:
  assumes "scheduler_inv s" and "scheduler_admit request_id s = (r, t)"
  shows "scheduler_inv t"
  using assms(2)
proof (cases rule: scheduler_admit_cases)
  case (refused e q)
  have "dict_ok (sch_queue s)" using assms(1) by (simp add: scheduler_inv_def scheduler_dicts_def)
  with refused(3) have set_eq: "set q = set (sch_queue s)" and ok: "dict_ok q"
    by (auto simp: set_dict_set set_dict_pop dict_get_iff dest: dict_ok_unique)
  have "booked_memory t = booked_memory s"
    by (rule booked_memory_cong) (simp_all add: refused(2))
  with assms(1) set_eq ok show ?thesis
    by (simp add: refused(2) scheduler_inv_def scheduler_parts)
next
  case (admitted job device ds a)
  have dicts: "scheduler_dicts s" and adm: "scheduler_admissions_ok s"
    and sizes: "scheduler_sizes_ok s" and acc: "scheduler_accounts_ok s"
    using assms(1) by (simp_all add: scheduler_inv_def)
  have queued: "(request_id, job) \<in> set (sch_queue s)" using admitted(1) by (rule dict_get_in)
  have pos: "0 < dj_required_memory_mb job"
    using sizes queued by (auto simp: scheduler_sizes_ok_def)
  have fresh: "dict_get (sch_active s) request_id = None"
  proof -
    have "request_id \<in> fst ` set (sch_queue s)" using queued by (rule dict_key_in)
    moreover have "set (dict_keys (sch_queue s)) \<inter> set (dict_keys (sch_active s)) = {}"
      using dicts by (simp add: scheduler_dicts_def)
    ultimately show ?thesis by (simp add: dict_get_None_iff disjoint_iff)
  qed
  have keys: "set (dict_keys (sch_active_memory s)) = set (dict_keys (sch_active s))"
    and mem_ok: "dict_ok (sch_active_memory s)"
    using dicts by (simp_all add: scheduler_dicts_def)
  have device: "device \<in> set (dict_keys (sch_capacity s))"
    by (rule candidate_devices_in(1)[OF admitted(2)])
  have booked: "booked_memory t d = booked_memory s d
      + (if device = d then dj_required_memory_mb job else 0)" for d
    by (subst booked_memory_admit [OF fresh keys, of t a "dj_required_memory_mb job"])
      (simp_all add: admitted(3,5))
  have "scheduler_accounts_ok t"
    using acc candidate_devices_in(2)[OF admitted(2)]
    by (simp add: scheduler_accounts_ok_def booked) (simp add: admitted(5))
  moreover have "scheduler_dicts t"
    using dicts device by (auto simp: scheduler_dicts_def admitted(5) dom_update set_dict_pop)
  moreover have "scheduler_sizes_ok t"
    using sizes pos
    by (auto simp: scheduler_sizes_ok_def admitted(5) set_dict_set [OF mem_ok] set_dict_pop)
  moreover have "scheduler_admissions_ok t"
    using adm device
    by (force simp: scheduler_admissions_ok_def admitted(3,5) dict_set_new [OF fresh])
  ultimately show ?thesis by (simp add: scheduler_inv_def)
qed

lemma scheduler_complete_inv:
  assumes "scheduler_inv s" and "scheduler_complete request_id s = (r, t)"
  shows "scheduler_inv t"
proof (cases "dict_get (sch_active s) request_id")
  case None
  with assms show ?thesis by (simp add: scheduler_complete_def)
next
  case (Some a)
  have dicts: "scheduler_dicts s" and adm: "scheduler_admissions_ok s"
    and sizes: "scheduler_sizes_ok s" and acc: "scheduler_accounts_ok s"
    using assms(1) by (simp_all add: scheduler_inv_def)
  have act: "(request_id, a) \<in> set (sch_active s)" using Some by (rule dict_get_in)
  have act_ok: "dict_ok (sch_active s)" using dicts by (simp add: scheduler_dicts_def)
  have "set (dict_keys (sch_active_memory s)) = set (dict_keys (sch_active s))"
    using dicts by (simp add: scheduler_dicts_def)
  with act have "request_id \<in> set (dict_keys (sch_active_memory s))" by force
  then obtain m where m: "dict_get (sch_active_memory s) request_id = Some m"
    by (meson dict_get_None_iff option.exhaust)
  have t: "t = s\<lparr>sch_active := dict_pop request_id (sch_active s),
       sch_active_memory := dict_pop request_id (sch_active_memory s),
       sch_used := dict_set (da_device a) (dict_get0 (sch_used s) (da_device a) - m) (sch_used s)\<rparr>"
    using assms(2) Some m by (simp add: scheduler_complete_def Let_def)
  have mem: "dict_get0 (sch_active_memory s) request_id = m" by (simp add: dict_get0_def m)
  have pos: "0 < m" using sizes m by (auto simp: scheduler_sizes_ok_def dest: dict_get_in)
  have booked: "booked_memory t d = booked_memory s d - (if da_device a = d then m else 0)" for d
    by (subst booked_memory_complete [OF act_ok Some]) (simp_all add: t mem)
  have "booked_memory t d \<le> booked_memory s d" for d using pos by (simp add: booked)
  then have fits: "booked_memory t d \<le> dict_get0 (sch_capacity t) d" for d
    using acc order_trans by (fastforce simp: scheduler_accounts_ok_def t)
  have "scheduler_accounts_ok t"
    using acc fits by (simp add: scheduler_accounts_ok_def booked) (simp add: t)
  moreover have "scheduler_admissions_ok t"
    using adm by (auto simp: scheduler_admissions_ok_def t set_dict_pop AList.delete_eq
        distinct_map_filter comp_def)
  moreover have "scheduler_sizes_ok t"
    using sizes by (auto simp: scheduler_sizes_ok_def t set_dict_pop)
  moreover have "da_device a \<in> set (dict_keys (sch_capacity s))"
    using adm act by (auto simp: scheduler_admissions_ok_def)
  then have "scheduler_dicts t"
    using dicts by (auto simp: scheduler_dicts_def t dom_update set_dict_pop)
  ultimately show ?thesis by (simp add: scheduler_inv_def)
qed

lemma scheduler_step_inv: "scheduler_inv s \<Longrightarrow> scheduler_step s t \<Longrightarrow> scheduler_inv t"
  by (erule scheduler_step.cases)
    (auto dest: make_device_job_pos
      intro: scheduler_submit_inv scheduler_admit_inv scheduler_complete_inv)

interpretation sched: invariant_system scheduler_start scheduler_step scheduler_inv
  by unfold_locales (auto simp: scheduler_start_def intro: scheduler_init_inv scheduler_step_inv)

section \<open>Properties\<close>

text \<open>
  C3: In every reachable state of the scheduler the memory booked on a device is exactly the
  memory of the roles active on it, it lies between 0 and the capacity of the device (two
  devices are never pooled), and no two active admissions carry the same fencing sequence.
\<close>

theorem scheduler_capacity_safe:
  assumes "reachable scheduler_start scheduler_step s"
  shows "dict_get0 (sch_used s) device = booked_memory s device
    \<and> 0 \<le> booked_memory s device
    \<and> booked_memory s device \<le> dict_get0 (sch_capacity s) device
    \<and> distinct (map da_fencing_sequence (dict_values (sch_active s)))"
proof -
  from sched.reachable_inv [OF assms] have inv: "scheduler_inv s" .
  then have "0 \<le> dict_get0 (sch_active_memory s) k" for k
    by (force simp: scheduler_inv_def scheduler_sizes_ok_def dict_get0_def
        split: option.splits dest: dict_get_in)
  then have "0 \<le> booked_memory s device"
    unfolding booked_memory_def by (intro dict_sum_nonneg) auto
  with inv show ?thesis
    by (simp add: scheduler_inv_def scheduler_accounts_ok_def scheduler_admissions_ok_def)
qed

text \<open>
  A refused admission raises without losing work: the queue holds the same jobs and
  nothing is booked. A granted one books the role on one device that fits it, with a fencing
  sequence above every earlier one, and completing it gives the memory back.
\<close>

lemma scheduler_admit_complete:
  assumes "reachable scheduler_start scheduler_step s" and "scheduler_admit request_id s = (r, t)"
  shows "(\<forall>e. r = Inl e \<longrightarrow> set (sch_queue t) = set (sch_queue s) \<and> sch_used t = sch_used s
            \<and> sch_active t = sch_active s)
    \<and> (\<forall>a. r = Inr a \<longrightarrow>
          sch_sequence s < da_fencing_sequence a
          \<and> dict_get (sch_active t) request_id = Some a
          \<and> (\<exists>u. scheduler_complete request_id t = (Inr (), u)
               \<and> sch_active u = sch_active s \<and> sch_active_memory u = sch_active_memory s
               \<and> (\<forall>d. dict_get0 (sch_used u) d = dict_get0 (sch_used s) d)))"
  using assms(2)
proof (cases rule: scheduler_admit_cases)
  case (refused e q)
  have "dict_ok (sch_queue s)"
    using sched.reachable_inv [OF assms(1)] by (simp add: scheduler_inv_def scheduler_dicts_def)
  with refused show ?thesis
    by (auto simp: set_dict_set set_dict_pop dict_get_iff dest: dict_ok_unique)
next
  case (admitted job device ds a)
  have inv: "scheduler_dicts s"
    using sched.reachable_inv [OF assms(1)] by (simp add: scheduler_inv_def)
  have "request_id \<in> set (dict_keys (sch_queue s))"
    using admitted(1) by (auto dest!: dict_get_in intro: dict_key_in)
  with inv have fresh: "dict_get (sch_active s) request_id = None"
    and fresh_mem: "dict_get (sch_active_memory s) request_id = None"
    by (simp_all add: scheduler_dicts_def dict_get_None_iff disjoint_iff)
  from admitted fresh fresh_mem show ?thesis
    by (auto simp: scheduler_complete_def Let_def dict_simps dict_pop_set_new)
qed

section \<open>Witnesses\<close>

definition demo_scheduler :: scheduler where
  "demo_scheduler = projr (scheduler_init [(''gpu1'', 16), (''gpu0'', 24)] 8)"

definition demo_job :: device_job where
  "demo_job = projr (make_device_job ''r1'' ''stage'' 20 [])"

definition demo_queued :: scheduler where
  "demo_queued = snd (scheduler_submit demo_job demo_scheduler)"

definition demo_admitted :: scheduler where
  "demo_admitted = snd (scheduler_admit ''r1'' demo_queued)"

lemma demo_queued_reachable: "reachable scheduler_start scheduler_step demo_queued"
proof -
  have "scheduler_init [(''gpu1'', 16), (''gpu0'', 24)] 8 = Inr demo_scheduler" by code_simp
  then have "reachable scheduler_start scheduler_step demo_scheduler"
    by (intro reachable.start) (auto simp: scheduler_start_def)
  moreover have "make_device_job ''r1'' ''stage'' 20 [] = Inr demo_job" by code_simp
  then have "scheduler_step demo_scheduler demo_queued"
    by (rule scheduler_step.submit) (simp add: demo_queued_def prod_eq_iff)
  ultimately show ?thesis by (rule reachable.next_state)
qed

theorem scheduler_capacity_safe_witness:
  "reachable scheduler_start scheduler_step demo_admitted
   \<and> dict_get0 (sch_used demo_admitted) ''gpu0'' = 20
   \<and> booked_memory demo_admitted ''gpu0'' = 20
   \<and> booked_memory demo_admitted ''gpu0'' \<le> dict_get0 (sch_capacity demo_admitted) ''gpu0''"
proof -
  have "scheduler_step demo_queued demo_admitted"
    by (rule scheduler_step.admit) (simp add: demo_admitted_def prod_eq_iff)
  with demo_queued_reachable have r: "reachable scheduler_start scheduler_step demo_admitted"
    by (rule reachable.next_state)
  moreover have "dict_get0 (sch_used demo_admitted) ''gpu0'' = 20" by code_simp
  ultimately show ?thesis using scheduler_capacity_safe [OF r, of "''gpu0''"] by simp
qed

theorem scheduler_admit_complete_witness:
  "\<exists>a u. fst (scheduler_admit ''r1'' demo_queued) = Inr a \<and> da_device a = ''gpu0''
     \<and> da_fencing_sequence a = 1
     \<and> scheduler_complete ''r1'' demo_admitted = (Inr (), u) \<and> sch_active u = []"
proof -
  let ?a = "\<lparr>da_request_id = ''r1'', da_role = ''stage'', da_device = ''gpu0'',
             da_fencing_sequence = 1\<rparr>"
  have a: "scheduler_admit ''r1'' demo_queued = (Inr ?a, demo_admitted)" by code_simp
  have "sch_active demo_queued = []" by code_simp
  with scheduler_admit_complete [OF demo_queued_reachable a] a show ?thesis by auto
qed

end
