(* ===== verification/State_Store.thy ===== *)
theory State_Store
  imports Interfaces
begin

text \<open>
  \<open>core/state.py\<close>: the classified failure record (\<open>FailureBoundaryV1\<close>,
  \<open>failure_boundary_for_code\<close>, \<open>FailureRecordV1\<close> with its dictionary form), the execution
  attempt, and \<open>BoundStateStore\<close>, the store whose values are valid only under the exact
  binding they were stored with and which fences stale attempts.
\<close>

section \<open>Failure boundaries\<close>

datatype failure_boundary =
    B_ENVIRONMENT | B_BOOTSTRAP | B_ROUTING | B_ACK | B_PLAN | B_REPO_PUBLISH | B_REPO_FETCH
  | B_PREP | B_DEPENDENCY | B_EXEC | B_TOKEN | B_RESPONSE | B_CLEANUP | B_ANALYZER | B_UNRESOLVED

fun boundary_value :: "failure_boundary \<Rightarrow> string" where
  "boundary_value B_ENVIRONMENT = ''ENVIRONMENT''"
| "boundary_value B_BOOTSTRAP = ''BOOTSTRAP''"
| "boundary_value B_ROUTING = ''ROUTING''"
| "boundary_value B_ACK = ''ACK''"
| "boundary_value B_PLAN = ''PLAN''"
| "boundary_value B_REPO_PUBLISH = ''REPO_PUBLISH''"
| "boundary_value B_REPO_FETCH = ''REPO_FETCH''"
| "boundary_value B_PREP = ''PREP''"
| "boundary_value B_DEPENDENCY = ''DEPENDENCY''"
| "boundary_value B_EXEC = ''EXEC''"
| "boundary_value B_TOKEN = ''TOKEN''"
| "boundary_value B_RESPONSE = ''RESPONSE''"
| "boundary_value B_CLEANUP = ''CLEANUP''"
| "boundary_value B_ANALYZER = ''ANALYZER''"
| "boundary_value B_UNRESOLVED = ''UNRESOLVED''"

definition all_boundaries :: "failure_boundary list" where
  "all_boundaries = [B_ENVIRONMENT, B_BOOTSTRAP, B_ROUTING, B_ACK, B_PLAN, B_REPO_PUBLISH,
     B_REPO_FETCH, B_PREP, B_DEPENDENCY, B_EXEC, B_TOKEN, B_RESPONSE, B_CLEANUP, B_ANALYZER,
     B_UNRESOLVED]"

text \<open>The enumeration's constructor \<open>FailureBoundaryV1(value)\<close>.\<close>

definition boundary_of_value :: "string \<Rightarrow> py_error + failure_boundary" where
  "boundary_of_value v = (case find (\<lambda>b. boundary_value b = v) all_boundaries of
       None \<Rightarrow> Inl (ValueError ''not a valid FailureBoundaryV1'')
     | Some b \<Rightarrow> Inr b)"

definition failure_code_boundaries :: "(string, failure_boundary) dict" where
  "failure_code_boundaries =
     [(''ENV_'', B_ENVIRONMENT), (''BOOT_'', B_BOOTSTRAP), (''ROUTE_'', B_ROUTING),
      (''ACK_'', B_ACK), (''PLAN_'', B_PLAN), (''REPO_PUBLISH_'', B_REPO_PUBLISH),
      (''REPO_FETCH_'', B_REPO_FETCH), (''PREP_'', B_PREP), (''DEPENDENCY_'', B_DEPENDENCY),
      (''EXEC_'', B_EXEC), (''TOKEN_'', B_TOKEN), (''RESPONSE_'', B_RESPONSE),
      (''CLEANUP_'', B_CLEANUP), (''ANALYZER_'', B_ANALYZER)]"

definition failure_boundary_for_code :: "string \<Rightarrow> py_error + failure_boundary" where
  "failure_boundary_for_code code =
     (if code = ''UNRESOLVED_EVIDENCE_GAP'' then Inr B_UNRESOLVED
      else case find (\<lambda>(prefix, b). starts_with code prefix \<and> length prefix < length code)
                  failure_code_boundaries of
             Some (prefix, boundary) \<Rightarrow> Inr boundary
           | None \<Rightarrow> Inl (ValueError ''failure code does not identify an exact lifecycle boundary''))"

section \<open>Failure records\<close>

record failure_record =
  fr_request_id :: string
  fr_attempt_epoch :: int
  fr_component :: string
  fr_failure_code :: string
  fr_last_checkpoint :: string
  fr_terminal_reason :: string
  fr_boundary :: failure_boundary
  fr_provider :: string
  fr_role :: string
  fr_operation_id :: string
  fr_artifact_range :: string
  fr_evidence_paths :: "string list"

definition make_failure_record ::
  "string \<Rightarrow> int \<Rightarrow> string \<Rightarrow> string \<Rightarrow> string \<Rightarrow> string \<Rightarrow> string option \<Rightarrow> string \<Rightarrow> string
     \<Rightarrow> string \<Rightarrow> string \<Rightarrow> string list \<Rightarrow> py_error + failure_record" where
  "make_failure_record request_id attempt_epoch component failure_code last_checkpoint
       terminal_reason boundary_arg provider role operation_id artifact_range evidence_paths =
     (if request_id = [] \<or> attempt_epoch \<le> 0 \<or> component = []
      then Inl (ValueError ''failure record identity is incomplete'')
      else if last_checkpoint = [] \<or> terminal_reason = []
      then Inl (ValueError ''failure record requires last checkpoint and reason'')
      else case failure_boundary_for_code failure_code of
        Inl e \<Rightarrow> Inl e
      | Inr inferred \<Rightarrow>
          (case (case boundary_arg of None \<Rightarrow> Inr inferred | Some v \<Rightarrow> boundary_of_value v) of
             Inl e \<Rightarrow> Inl e
           | Inr boundary \<Rightarrow>
               if boundary \<noteq> inferred
               then Inl (ValueError ''failure code and primary boundary disagree'')
               else if \<exists>path \<in> set evidence_paths. path = []
               then Inl (ValueError ''failure evidence paths must be non-empty'')
               else Inr \<lparr>fr_request_id = request_id, fr_attempt_epoch = attempt_epoch,
                         fr_component = component, fr_failure_code = failure_code,
                         fr_last_checkpoint = last_checkpoint,
                         fr_terminal_reason = terminal_reason, fr_boundary = boundary,
                         fr_provider = provider, fr_role = role, fr_operation_id = operation_id,
                         fr_artifact_range = artifact_range, fr_evidence_paths = evidence_paths\<rparr>))"

definition failure_record_to_dict :: "failure_record \<Rightarrow> (string, json) dict" where
  "failure_record_to_dict r =
     [(''schema'', JStr ''ndnsf-di.failure-record.v1''),
      (''requestId'', JStr (fr_request_id r)),
      (''attemptEpoch'', JInt (fr_attempt_epoch r)),
      (''component'', JStr (fr_component r)),
      (''boundary'', JStr (boundary_value (fr_boundary r))),
      (''failureCode'', JStr (fr_failure_code r)),
      (''provider'', JStr (fr_provider r)),
      (''role'', JStr (fr_role r)),
      (''operationId'', JStr (fr_operation_id r)),
      (''artifactRange'', JStr (fr_artifact_range r)),
      (''lastCheckpoint'', JStr (fr_last_checkpoint r)),
      (''terminalReason'', JStr (fr_terminal_reason r)),
      (''evidencePaths'', JList (map JStr (fr_evidence_paths r)))]"

definition failure_record_keys :: "string list" where
  "failure_record_keys =
     [''schema'', ''requestId'', ''attemptEpoch'', ''component'', ''boundary'', ''failureCode'',
      ''provider'', ''role'', ''operationId'', ''artifactRange'', ''lastCheckpoint'',
      ''terminalReason'', ''evidencePaths'']"

definition failure_record_from_dict ::
  "(json \<Rightarrow> string) \<Rightarrow> (string, json) dict \<Rightarrow> py_error + failure_record" where
  "failure_record_from_dict rep payload =
     (if set (dict_keys payload) \<noteq> set failure_record_keys
         \<or> dict_get payload ''schema'' \<noteq> Some (JStr ''ndnsf-di.failure-record.v1'')
      then Inl (ValueError ''failure record schema mismatch'')
      else let field = (\<lambda>k. the (dict_get payload k)); text_of = (\<lambda>k. py_str rep (field k)) in
        case py_int (field ''attemptEpoch'') of
          Inl e \<Rightarrow> Inl e
        | Inr attempt \<Rightarrow>
            (case py_iter (field ''evidencePaths'') of
               Inl e \<Rightarrow> Inl e
             | Inr paths \<Rightarrow>
                 make_failure_record (text_of ''requestId'') attempt (text_of ''component'')
                   (text_of ''failureCode'') (text_of ''lastCheckpoint'')
                   (text_of ''terminalReason'') (Some (text_of ''boundary''))
                   (text_of ''provider'') (text_of ''role'') (text_of ''operationId'')
                   (text_of ''artifactRange'') (map (py_str rep) paths)))"

section \<open>Execution attempts\<close>

datatype terminal_reason =
    TR_NONE | TR_PROVIDER_LOST | TR_STRAGGLER_DEADLINE | TR_DEPENDENCY_MISSING
  | TR_DEPENDENCY_HASH_MISMATCH | TR_PLAN_STALE | TR_TELEMETRY_STALE
  | TR_CACHE_MISS_FULL_CONTEXT_REQUIRED | TR_ATTEMPT_CANCELLED | TR_NO_COMPATIBLE_REPLACEMENT
  | TR_REQUEST_DEADLINE

record execution_attempt =
  ea_request_id :: string
  ea_attempt_epoch :: int
  ea_plan_id :: string
  ea_terminal_reason :: terminal_reason

definition make_execution_attempt ::
  "string \<Rightarrow> int \<Rightarrow> string \<Rightarrow> terminal_reason \<Rightarrow> py_error + execution_attempt" where
  "make_execution_attempt request_id attempt_epoch plan_id reason =
     (if request_id = [] \<or> plan_id = [] \<or> attempt_epoch \<notin> {0, 1}
      then Inl (ValueError ''invalid execution attempt'')
      else Inr \<lparr>ea_request_id = request_id, ea_attempt_epoch = attempt_epoch,
                ea_plan_id = plan_id, ea_terminal_reason = reason\<rparr>)"

section \<open>Bound state\<close>

record state_binding =
  sb_request_id :: string
  sb_attempt_epoch :: int
  sb_plan_digest :: string
  sb_provider :: string
  sb_provider_boot_epoch :: string
  sb_security_epoch :: int
  sb_cache_epoch :: int
  sb_session_id :: string

definition state_binding_ok :: "state_binding \<Rightarrow> bool" where
  "state_binding_ok b \<longleftrightarrow> \<not> (sb_request_id b = [] \<or> sb_attempt_epoch b \<le> 0 \<or> sb_plan_digest b = []
     \<or> sb_provider b = [] \<or> sb_provider_boot_epoch b = [] \<or> sb_security_epoch b < 0
     \<or> sb_cache_epoch b < 0)"

definition make_state_binding :: "state_binding \<Rightarrow> py_error + state_binding" where
  "make_state_binding b = (if state_binding_ok b then Inr b
     else Inl (ValueError ''invalid Core state binding''))"

definition binding_key :: "state_binding \<Rightarrow> string \<times> string \<times> string" where
  "binding_key b = (sb_request_id b, sb_provider b, sb_session_id b)"

record 'v state_store =
  ss_values :: "(string \<times> string \<times> string, state_binding \<times> 'v) dict"
  ss_attempt_high_watermark :: "(string, int) dict"

definition store_empty :: "'v state_store" where
  "store_empty = \<lparr>ss_values = [], ss_attempt_high_watermark = []\<rparr>"

definition store_put :: "state_binding \<Rightarrow> 'v \<Rightarrow> 'v state_store \<Rightarrow> (unit, 'v state_store) outcome" where
  "store_put binding v s =
     (let highest = dict_get0 (ss_attempt_high_watermark s) (sb_request_id binding) in
      if sb_attempt_epoch binding < highest
      then (Inl (ValueError ''stale attempt cannot bind state''), s)
      else (Inr (), s\<lparr>ss_attempt_high_watermark :=
                 dict_set (sb_request_id binding) (max highest (sb_attempt_epoch binding))
                   (ss_attempt_high_watermark s),
               ss_values := dict_set (binding_key binding) (binding, v) (ss_values s)\<rparr>))"

definition store_get :: "state_binding \<Rightarrow> 'v state_store \<Rightarrow> 'v option" where
  "store_get binding s =
     (case dict_get (ss_values s) (binding_key binding) of
        None \<Rightarrow> None
      | Some (b, v) \<Rightarrow> if b = binding then Some v else None)"

text \<open>Popping the keys of a comprehension over the items, one after the other.\<close>

definition drop_stale ::
  "(state_binding \<Rightarrow> bool) \<Rightarrow> 'v state_store \<Rightarrow> (int, 'v state_store) outcome" where
  "drop_stale old s =
     (let stale = map fst (filter (\<lambda>(k, b, v). old b) (ss_values s)) in
      (Inr (int (length stale)), s\<lparr>ss_values := fold dict_pop stale (ss_values s)\<rparr>))"

definition store_fence_attempt :: "string \<Rightarrow> int \<Rightarrow> 'v state_store \<Rightarrow> (int, 'v state_store) outcome" where
  "store_fence_attempt request_id attempt_epoch s =
     (if request_id = [] \<or> attempt_epoch \<le> 0 then (Inl (ValueError ''invalid attempt fence''), s)
      else if attempt_epoch < dict_get0 (ss_attempt_high_watermark s) request_id
      then (Inl (ValueError ''attempt fence regressed''), s)
      else drop_stale (\<lambda>b. sb_request_id b = request_id \<and> sb_attempt_epoch b < attempt_epoch)
             (s\<lparr>ss_attempt_high_watermark :=
                dict_set request_id attempt_epoch (ss_attempt_high_watermark s)\<rparr>))"

definition store_invalidate_provider_boot ::
  "string \<Rightarrow> string \<Rightarrow> 'v state_store \<Rightarrow> (int, 'v state_store) outcome" where
  "store_invalidate_provider_boot provider boot_epoch s =
     drop_stale (\<lambda>b. sb_provider b = provider \<and> sb_provider_boot_epoch b \<noteq> boot_epoch) s"

definition store_size :: "'v state_store \<Rightarrow> int" where
  "store_size s = int (length (ss_values s))"

inductive store_step :: "'v state_store \<Rightarrow> 'v state_store \<Rightarrow> bool" where
  put: "make_state_binding b = Inr binding \<Longrightarrow> store_put binding v s = (r, t) \<Longrightarrow> store_step s t"
| fence: "store_fence_attempt request_id attempt_epoch s = (r, t) \<Longrightarrow> store_step s t"
| invalidate: "store_invalidate_provider_boot provider boot_epoch s = (r, t) \<Longrightarrow> store_step s t"

section \<open>Lemmas on failure records\<close>

lemma boundary_of_value_value [simp]: "boundary_of_value (boundary_value b) = Inr b"
  by (cases b) (simp_all add: boundary_of_value_def all_boundaries_def)

lemma make_failure_record_fields:
  assumes "make_failure_record request_id attempt_epoch component failure_code last_checkpoint
       terminal_reason boundary_arg provider role operation_id artifact_range evidence_paths = Inr r"
  shows "make_failure_record (fr_request_id r) (fr_attempt_epoch r) (fr_component r)
      (fr_failure_code r) (fr_last_checkpoint r) (fr_terminal_reason r)
      (Some (boundary_value (fr_boundary r))) (fr_provider r) (fr_role r) (fr_operation_id r)
      (fr_artifact_range r) (fr_evidence_paths r) = Inr r"
  using assms
  by (auto simp: make_failure_record_def split: if_splits sum.splits option.splits)

lemma map_py_str_JStr [simp]: "map (py_str rep) (map JStr xs) = xs"
  by (induction xs) (simp_all add: py_str_def)

lemma failure_record_fields_back:
  "failure_record_from_dict rep (failure_record_to_dict r) =
   make_failure_record (fr_request_id r) (fr_attempt_epoch r) (fr_component r)
      (fr_failure_code r) (fr_last_checkpoint r) (fr_terminal_reason r)
      (Some (boundary_value (fr_boundary r))) (fr_provider r) (fr_role r) (fr_operation_id r)
      (fr_artifact_range r) (fr_evidence_paths r)"
proof -
  have "dict_keys (failure_record_to_dict r) = failure_record_keys"
    by (simp add: failure_record_to_dict_def failure_record_keys_def)
  moreover have "py_str rep (JStr x) = x" for x by (simp add: py_str_def)
  ultimately show ?thesis
    by (simp add: failure_record_from_dict_def failure_record_to_dict_def Let_def py_int_def
        py_iter_def del: map_map)
qed

text \<open>
  No prefix of the table is a prefix of another, so at most one entry matches a code and the
  order of the table does not matter.
\<close>

lemma starts_with_comparable:
  "starts_with s p \<Longrightarrow> starts_with s q \<Longrightarrow> starts_with p q \<or> starts_with q p"
proof (induction s p arbitrary: q rule: starts_with.induct)
  case (1 s)
  then show ?case by (cases q) auto
next
  case (2 p ps)
  then show ?case by simp
next
  case (3 c cs p ps)
  then show ?case by (cases q) auto
qed

lemma failure_prefixes_free:
  "(p, b) \<in> set failure_code_boundaries \<Longrightarrow> (q, d) \<in> set failure_code_boundaries \<Longrightarrow>
   starts_with p q \<Longrightarrow> (p, b) = (q, d)"
proof -
  have "list_all (\<lambda>(p, b). list_all (\<lambda>(q, d). starts_with p q \<longrightarrow> (p, b) = (q, d))
          failure_code_boundaries) failure_code_boundaries"
    by code_simp
  then show "(p, b) \<in> set failure_code_boundaries \<Longrightarrow> (q, d) \<in> set failure_code_boundaries \<Longrightarrow>
    starts_with p q \<Longrightarrow> (p, b) = (q, d)"
    by (fastforce simp: list_all_iff)
qed

lemma unresolved_no_prefix:
  "(p, b) \<in> set failure_code_boundaries \<Longrightarrow> \<not> starts_with ''UNRESOLVED_EVIDENCE_GAP'' p"
  by (auto simp: failure_code_boundaries_def)

section \<open>Lemmas on the store\<close>

lemma fold_pop_filter: "fold dict_pop ks d = filter (\<lambda>(k, v). k \<notin> set ks) d"
proof (induction ks arbitrary: d)
  case Nil
  then show ?case by (simp add: case_prod_beta)
next
  case (Cons k ks)
  then show ?case by (auto simp: AList.delete_eq case_prod_beta intro: filter_cong)
qed

lemma drop_stale_values:
  assumes "dict_ok (ss_values s)"
  shows "fold dict_pop (map fst (filter (\<lambda>(k, b, v). old b) (ss_values s))) (ss_values s)
         = filter (\<lambda>(k, b, v). \<not> old b) (ss_values s)"
  unfolding fold_pop_filter
proof (rule filter_cong [OF refl])
  fix p assume p: "p \<in> set (ss_values s)"
  obtain k b v where kbv: "p = (k, b, v)" by (cases p)
  have "old b" if "(k, b', v') \<in> set (ss_values s)" and "old b'" for b' v'
    using dict_ok_unique [OF assms that(1)] p that(2) by (auto simp: kbv)
  then show "(case p of (k, v) \<Rightarrow> k \<notin> set (map fst (filter (\<lambda>(k, b, v). old b) (ss_values s))))
      = (case p of (k, b, v) \<Rightarrow> \<not> old b)"
    using p by (force simp: kbv)
qed

lemma drop_stale_result:
  "dict_ok (ss_values s) \<Longrightarrow> drop_stale old s = (r, t) \<Longrightarrow>
   t = s\<lparr>ss_values := filter (\<lambda>(k, b, v). \<not> old b) (ss_values s)\<rparr>
   \<and> r = Inr (int (length (ss_values s)) - int (length (ss_values t)))"
proof -
  assume ok: "dict_ok (ss_values s)" and drop: "drop_stale old s = (r, t)"
  have t: "t = s\<lparr>ss_values := filter (\<lambda>(k, b, v). \<not> old b) (ss_values s)\<rparr>"
    and r: "r = Inr (int (length (filter (\<lambda>(k, b, v). old b) (ss_values s))))"
    using drop by (auto simp: drop_stale_def Let_def drop_stale_values [OF ok])
  have "length (filter (\<lambda>(k, b, v). old b) (ss_values s))
      + length (filter (\<lambda>(k, b, v). \<not> old b) (ss_values s)) = length (ss_values s)"
    using sum_length_filter_compl [of "\<lambda>(k, b, v). old b" "ss_values s"]
    by (simp add: case_prod_unfold)
  with t r show ?thesis by simp
qed

text \<open>Every stored value carries the key of its binding and an attempt within the watermark.\<close>

definition store_inv :: "'v state_store \<Rightarrow> bool" where
  "store_inv s \<longleftrightarrow> dict_ok (ss_values s)
     \<and> (\<forall>(k, b, v) \<in> set (ss_values s). binding_key b = k \<and> 0 < sb_attempt_epoch b
          \<and> sb_attempt_epoch b \<le> dict_get0 (ss_attempt_high_watermark s) (sb_request_id b))"

lemma store_put_cases:
  assumes "store_put binding v s = (r, t)"
  obtains (stale) e where "r = Inl e" and "t = s"
      and "sb_attempt_epoch binding < dict_get0 (ss_attempt_high_watermark s) (sb_request_id binding)"
  | (stored) "r = Inr ()"
      and "dict_get0 (ss_attempt_high_watermark s) (sb_request_id binding) \<le> sb_attempt_epoch binding"
      and "t = s\<lparr>ss_attempt_high_watermark := dict_set (sb_request_id binding)
                  (sb_attempt_epoch binding) (ss_attempt_high_watermark s),
                ss_values := dict_set (binding_key binding) (binding, v) (ss_values s)\<rparr>"
  using assms by (auto simp: store_put_def Let_def max_def split: if_splits)

lemma store_put_inv:
  assumes "store_inv s" and "0 < sb_attempt_epoch binding" and "store_put binding v s = (r, t)"
  shows "store_inv t"
  using assms(3)
proof (cases rule: store_put_cases)
  case stale
  with assms(1) show ?thesis by simp
next
  case stored
  have ok: "dict_ok (ss_values s)" using assms(1) by (simp add: store_inv_def)
  show ?thesis
    using assms(1,2) stored(2)
    by (fastforce simp: store_inv_def stored(3) set_dict_set [OF ok])
qed

lemma drop_stale_inv: "store_inv s \<Longrightarrow> drop_stale old s = (r, t) \<Longrightarrow> store_inv t"
  unfolding store_inv_def by (frule drop_stale_result [rotated]) (auto intro: dict_ok_filter)

lemma store_fence_cases:
  assumes "store_fence_attempt request_id attempt_epoch s = (r, t)"
  obtains (refused) e where "r = Inl e" and "t = s"
  | (fenced) "0 < attempt_epoch"
      and "dict_get0 (ss_attempt_high_watermark s) request_id \<le> attempt_epoch"
      and "drop_stale (\<lambda>b. sb_request_id b = request_id \<and> sb_attempt_epoch b < attempt_epoch)
             (s\<lparr>ss_attempt_high_watermark :=
                dict_set request_id attempt_epoch (ss_attempt_high_watermark s)\<rparr>) = (r, t)"
  using assms by (auto simp: store_fence_attempt_def split: if_splits)

lemma store_fence_inv:
  assumes "store_inv s" and "store_fence_attempt request_id attempt_epoch s = (r, t)"
  shows "store_inv t"
  using assms(2)
proof (cases rule: store_fence_cases)
  case refused
  with assms(1) show ?thesis by simp
next
  case fenced
  have "store_inv (s\<lparr>ss_attempt_high_watermark :=
      dict_set request_id attempt_epoch (ss_attempt_high_watermark s)\<rparr>)"
    using assms(1) fenced(2) by (fastforce simp: store_inv_def)
  then show ?thesis using fenced(3) by (rule drop_stale_inv)
qed

lemma make_state_binding_pos: "make_state_binding b = Inr binding \<Longrightarrow> 0 < sb_attempt_epoch binding"
  by (auto simp: make_state_binding_def state_binding_ok_def split: if_splits)

lemma store_step_inv: "store_inv s \<Longrightarrow> store_step s t \<Longrightarrow> store_inv t"
  by (erule store_step.cases)
    (auto simp: store_invalidate_provider_boot_def
      dest: make_state_binding_pos intro: store_put_inv store_fence_inv drop_stale_inv)

interpretation bound_store: invariant_system "\<lambda>s. s = store_empty" store_step store_inv
proof unfold_locales
  fix s :: "'v state_store"
  assume "s = store_empty"
  then show "store_inv s" by (simp add: store_inv_def store_empty_def)
qed (rule store_step_inv)

text \<open>The store as an attempt fence: a request admits an epoch when some \<open>put\<close> at it succeeds.\<close>

definition store_admits :: "'v state_store \<Rightarrow> string \<Rightarrow> int \<Rightarrow> bool" where
  "store_admits s request_id epoch \<longleftrightarrow>
     (\<exists>b v. sb_request_id b = request_id \<and> sb_attempt_epoch b = epoch \<and> fst (store_put b v s) = Inr ())"

lemma drop_stale_watermark:
  "drop_stale old s = (r, t) \<Longrightarrow> ss_attempt_high_watermark t = ss_attempt_high_watermark s"
  by (auto simp: drop_stale_def Let_def)

lemma store_watermark_step:
  assumes "store_step s t"
  shows "dict_get0 (ss_attempt_high_watermark s) k \<le> dict_get0 (ss_attempt_high_watermark t) k"
  using assms
proof cases
  case (put b binding v r)
  from put(2) show ?thesis by (cases rule: store_put_cases) auto
next
  case (fence request_id attempt_epoch r)
  from fence show ?thesis by (cases rule: store_fence_cases) (auto dest: drop_stale_watermark)
next
  case (invalidate provider boot_epoch r)
  then show ?thesis
    by (auto simp: store_invalidate_provider_boot_def dest: drop_stale_watermark)
qed

interpretation store_fence: attempt_fence store_step
    "\<lambda>s. dict_get0 (ss_attempt_high_watermark s)" store_admits
  by unfold_locales
    (auto simp: store_admits_def store_put_def Let_def intro: store_watermark_step split: if_splits)

text \<open>What a fence establishes and every later step keeps: no older value of the request.\<close>

definition fenced_from :: "string \<Rightarrow> int \<Rightarrow> 'v state_store \<Rightarrow> bool" where
  "fenced_from request_id epoch s \<longleftrightarrow> store_inv s
     \<and> epoch \<le> dict_get0 (ss_attempt_high_watermark s) request_id
     \<and> (\<forall>(k, b, v) \<in> set (ss_values s). sb_request_id b = request_id \<longrightarrow> epoch \<le> sb_attempt_epoch b)"

lemma drop_stale_subset:
  "store_inv s \<Longrightarrow> drop_stale old s = (r, t) \<Longrightarrow> set (ss_values t) \<subseteq> set (ss_values s)"
  by (auto simp: store_inv_def dest!: drop_stale_result)

lemma fenced_from_step:
  assumes "fenced_from request_id epoch s" and "store_step s t"
  shows "fenced_from request_id epoch t"
proof -
  have inv: "store_inv s" using assms(1) by (simp add: fenced_from_def)
  then have inv': "store_inv t" and ok: "dict_ok (ss_values s)"
    using store_step_inv [OF inv assms(2)] by (simp_all add: store_inv_def)
  have mark: "epoch \<le> dict_get0 (ss_attempt_high_watermark t) request_id"
    using assms(1) store_watermark_step [OF assms(2), of request_id] by (simp add: fenced_from_def)
  have "\<forall>(k, b, v) \<in> set (ss_values t). sb_request_id b = request_id \<longrightarrow> epoch \<le> sb_attempt_epoch b"
    using assms(2)
  proof cases
    case (put b binding v r)
    from put(2) show ?thesis
    proof (cases rule: store_put_cases)
      case stored
      then show ?thesis using assms(1) by (auto simp: fenced_from_def set_dict_set [OF ok])
    qed (use assms(1) in \<open>simp add: fenced_from_def\<close>)
  next
    case (fence rid e r)
    from fence show ?thesis
    proof (cases rule: store_fence_cases)
      case fenced
      have "set (ss_values t) \<subseteq> set (ss_values s)"
        using drop_stale_result [OF _ fenced(3)] ok by auto
      then show ?thesis using assms(1) by (auto simp: fenced_from_def)
    qed (use assms(1) in \<open>simp add: fenced_from_def\<close>)
  next
    case (invalidate provider boot_epoch r)
    then have "set (ss_values t) \<subseteq> set (ss_values s)"
      using drop_stale_subset [OF inv] by (simp add: store_invalidate_provider_boot_def)
    then show ?thesis using assms(1) by (auto simp: fenced_from_def)
  qed
  with inv' mark show ?thesis by (simp add: fenced_from_def)
qed

interpretation store_fenced: invariant_system "fenced_from request_id epoch" store_step
    "fenced_from request_id epoch"
  by unfold_locales (auto intro: fenced_from_step)

lemma store_fence_establishes:
  assumes "store_inv s" and "store_fence_attempt request_id attempt_epoch s = (Inr n, t)"
  shows "fenced_from request_id attempt_epoch t"
  using assms(2)
proof (cases rule: store_fence_cases)
  case fenced
  have "dict_ok (ss_values s)" using assms(1) by (simp add: store_inv_def)
  then have t: "t = s\<lparr>ss_attempt_high_watermark :=
        dict_set request_id attempt_epoch (ss_attempt_high_watermark s),
      ss_values := filter (\<lambda>(k, b, v).
        \<not> (sb_request_id b = request_id \<and> sb_attempt_epoch b < attempt_epoch)) (ss_values s)\<rparr>"
    using drop_stale_result [OF _ fenced(3)] by simp
  show ?thesis
    unfolding fenced_from_def using store_fence_inv [OF assms] by (auto simp: t)
qed simp

section \<open>Properties\<close>

text \<open>
  A failure record survives its dictionary form: \<open>from_dict(to_dict(r))\<close> rebuilds exactly the
  record that the validating constructor returned, for every way it can be constructed.
\<close>

lemma failure_record_roundtrip:
  assumes "make_failure_record request_id attempt_epoch component failure_code last_checkpoint
       terminal_reason boundary_arg provider role operation_id artifact_range evidence_paths = Inr r"
  shows "failure_record_from_dict rep (failure_record_to_dict r) = Inr r"
  using make_failure_record_fields [OF assms] by (simp add: failure_record_fields_back)

text \<open>
  The classification of failure codes is exact: a code longer than a prefix of the table and
  starting with it gets that prefix's boundary whatever the order of the table, and a code that
  is neither the evidence gap nor starts properly with a prefix is refused.
\<close>

lemma failure_boundary_exact:
  assumes "code \<noteq> ''UNRESOLVED_EVIDENCE_GAP''"
  shows "failure_boundary_for_code code = Inr b \<longleftrightarrow>
    (\<exists>p. (p, b) \<in> set failure_code_boundaries \<and> starts_with code p \<and> length p < length code)"
proof -
  let ?m = "\<lambda>(p, b). starts_with code p \<and> length p < length code"
  have uniq: "x = y" if "x \<in> set failure_code_boundaries" "y \<in> set failure_code_boundaries"
      "?m x" "?m y" for x y
    using that starts_with_comparable [of code "fst x" "fst y"]
      failure_prefixes_free [of "fst x" "snd x" "fst y" "snd y"]
      failure_prefixes_free [of "fst y" "snd y" "fst x" "snd x"]
    by (auto simp: case_prod_beta)
  have code: "failure_boundary_for_code code = (case find ?m failure_code_boundaries of
       Some (prefix, boundary) \<Rightarrow> Inr boundary
     | None \<Rightarrow> Inl (ValueError ''failure code does not identify an exact lifecycle boundary''))"
    unfolding failure_boundary_for_code_def using assms by (simp only: if_False)
  show ?thesis
  proof (cases "find ?m failure_code_boundaries")
    case None
    then have "\<not> ?m x" if "x \<in> set failure_code_boundaries" for x
      using that by (auto simp: find_None_iff)
    then show ?thesis unfolding code None by auto
  next
    case (Some x)
    from find_SomeD [OF this] have x: "x \<in> set failure_code_boundaries" "?m x" by blast+
    have "(p, d) = x" if "(p, d) \<in> set failure_code_boundaries" "starts_with code p"
        "length p < length code" for p d
      using uniq [OF that(1) x(1)] x(2) that(2,3) by simp
    moreover obtain p d where pd: "x = (p, d)" by (cases x)
    ultimately have "d = b" if "(q, b) \<in> set failure_code_boundaries" "starts_with code q"
        "length q < length code" for q
      using that by blast
    then show ?thesis unfolding code Some using x by (auto simp: pd)
  qed
qed

text \<open>
  C6: Once \<open>fence_attempt(request_id, e)\<close> has succeeded, no sequence of further operations makes a
  value of the request from an attempt before \<open>e\<close> readable again, and no such attempt can bind
  state any more.
\<close>

theorem fenced_attempt_never_visible:
  assumes "reachable (\<lambda>s. s = store_empty) store_step s"
    and "store_fence_attempt request_id e s = (Inr n, t)"
    and "store_step\<^sup>*\<^sup>* t u"
    and "sb_request_id b = request_id" and "sb_attempt_epoch b < e"
  shows "store_get b u = None \<and> (\<exists>err. fst (store_put b v u) = Inl err)"
proof -
  have "fenced_from request_id e t"
    using bound_store.reachable_inv [OF assms(1)] assms(2) by (rule store_fence_establishes)
  then have u: "fenced_from request_id e u" by (rule store_fenced.steps_inv [OF assms(3)])
  have "store_get b u = None"
    using u assms(4,5)
    by (auto simp: store_get_def fenced_from_def split: option.splits dest!: dict_get_in)
  moreover have "\<exists>err. fst (store_put b v u) = Inl err"
    using u assms(4,5) by (auto simp: store_put_def Let_def fenced_from_def)
  ultimately show ?thesis by blast
qed

text \<open>
  A stored value is read back only under the exact binding: after a successful \<open>put\<close>, \<open>get\<close>
  returns the value for that binding, nothing for any other binding with the same key, and what
  it returned before for every other key.
\<close>

lemma store_put_get:
  assumes "store_put b v s = (Inr (), t)"
  shows "store_get b t = Some v
    \<and> (binding_key b' = binding_key b \<longrightarrow> b' \<noteq> b \<longrightarrow> store_get b' t = None)
    \<and> (binding_key b' \<noteq> binding_key b \<longrightarrow> store_get b' t = store_get b' s)"
  using assms by (cases rule: store_put_cases) (auto simp: store_get_def dict_simps)

section \<open>Witnesses\<close>

definition demo_failure :: failure_record where
  "demo_failure = projr (make_failure_record ''req'' 1 ''provider'' ''REPO_FETCH_TIMEOUT'' ''ACK''
     ''deadline'' None ''/p1'' ''stage0'' ''op'' [] [''log.txt''])"

theorem failure_record_roundtrip_witness:
  "failure_record_from_dict (\<lambda>_. []) (failure_record_to_dict demo_failure) = Inr demo_failure
   \<and> fr_boundary demo_failure = B_REPO_FETCH"
proof -
  have "make_failure_record ''req'' 1 ''provider'' ''REPO_FETCH_TIMEOUT'' ''ACK'' ''deadline'' None
      ''/p1'' ''stage0'' ''op'' [] [''log.txt''] = Inr demo_failure"
    by code_simp
  from failure_record_roundtrip [OF this] show ?thesis by (simp add: demo_failure_def) code_simp
qed

theorem failure_boundary_exact_witness:
  "failure_boundary_for_code ''PREP_OOM'' = Inr B_PREP"
proof -
  have "(''PREP_'', B_PREP) \<in> set failure_code_boundaries" by (simp add: failure_code_boundaries_def)
  then show ?thesis by (subst failure_boundary_exact) (auto intro!: exI [of _ "''PREP_''"])
qed

definition demo_binding :: "int \<Rightarrow> state_binding" where
  "demo_binding epoch = \<lparr>sb_request_id = ''r'', sb_attempt_epoch = epoch, sb_plan_digest = ''d'',
     sb_provider = ''/p'', sb_provider_boot_epoch = ''boot'', sb_security_epoch = 0,
     sb_cache_epoch = 0, sb_session_id = []\<rparr>"

definition demo_store :: "int state_store" where
  "demo_store = snd (store_put (demo_binding 1) 7 store_empty)"

theorem store_put_get_witness:
  "store_get (demo_binding 1) demo_store = Some 7 \<and> store_get (demo_binding 2) demo_store = None"
proof -
  have "store_put (demo_binding 1) 7 store_empty = (Inr (), demo_store)"
    by (simp add: demo_store_def prod_eq_iff) code_simp
  from store_put_get [OF this, of "demo_binding 2"] show ?thesis
    by (simp add: demo_binding_def binding_key_def)
qed

theorem fenced_attempt_never_visible_witness:
  "store_get (demo_binding 1) demo_store = Some 7
   \<and> store_get (demo_binding 1) (snd (store_fence_attempt ''r'' 2 demo_store)) = None
   \<and> (\<exists>err. fst (store_put (demo_binding 1) 8 (snd (store_fence_attempt ''r'' 2 demo_store))) = Inl err)"
proof -
  let ?t = "snd (store_fence_attempt ''r'' 2 demo_store)"
  have "make_state_binding (demo_binding 1) = Inr (demo_binding 1)" by code_simp
  then have "store_step store_empty demo_store"
    by (rule store_step.put) (simp add: demo_store_def prod_eq_iff)
  then have "reachable (\<lambda>s. s = store_empty) store_step demo_store"
    by (rule reachable_one) simp
  moreover have "fst (store_fence_attempt ''r'' 2 demo_store) = Inr 1" by code_simp
  then have "store_fence_attempt ''r'' 2 demo_store = (Inr 1, ?t)" by (simp add: prod_eq_iff)
  ultimately have "store_get (demo_binding 1) ?t = None
      \<and> (\<exists>err. fst (store_put (demo_binding 1) 8 ?t) = Inl err)"
    by (rule fenced_attempt_never_visible) (simp_all add: demo_binding_def)
  moreover have "store_get (demo_binding 1) demo_store = Some 7" by code_simp
  ultimately show ?thesis by blast
qed

end
