(* ===== verification/V3_Lifecycle.thy ===== *)
theory V3_Lifecycle
  imports Interfaces Complex_Main
begin

text \<open>
  \<open>core/v3_lifecycle.py\<close>: the provider-local V3 queue and just-in-time device admission
  (\<open>V3FencingToken\<close>, \<open>V3QueueRecord\<close>, \<open>V3AdmissionController\<close>). Clock readings are arguments
  of the operations that read the clock; \<open>hashlib.sha256\<close> is the parameter \<open>sha\<close> and the
  \<open>.6f\<close> format of a float is the parameter \<open>fmt\<close>. A float is a rational or one of the special
  values, so that the comparisons with \<open>nan\<close> are those of Python.

  The lemmas show device exclusivity for clients that follow the lifecycle order, and what
  happens to it when \<open>cancel\<close> is called on a request that has already completed.
\<close>

section \<open>Values the controller reads\<close>

datatype py_float = Finite rat | PosInf | NegInf | NaN

fun float_less :: "py_float \<Rightarrow> py_float \<Rightarrow> bool" where
  "float_less NaN y = False"
| "float_less x NaN = False"
| "float_less (Finite a) (Finite b) = (a < b)"
| "float_less (Finite a) PosInf = True"
| "float_less (Finite a) NegInf = False"
| "float_less PosInf y = False"
| "float_less NegInf NegInf = False"
| "float_less NegInf y = True"

record role_spec =
  rs_role :: string
  rs_rank :: int
  rs_layer_begin :: int
  rs_layer_end :: int
  rs_recipe_digest :: string
  rs_artifact_digest :: string
  rs_backend :: string
  rs_device_set :: "string list"
  rs_adapter_id :: string
  rs_adapter_version :: string
  rs_role_kind :: string

definition make_role_spec :: "role_spec \<Rightarrow> py_error + role_spec" where
  "make_role_spec r =
     (if rs_role r = [] \<or> rs_rank r < 0 \<or> rs_layer_begin r < 0
         \<or> rs_layer_end r \<le> rs_layer_begin r \<or> rs_backend r = []
      then Inl (ValueError ''invalid role assembly spec'')
      else if \<not> canonical_digest_ok (rs_recipe_digest r)
      then Inl (ValueError ''recipe_digest must be a canonical sha256 digest'')
      else if \<not> canonical_digest_ok (rs_artifact_digest r)
      then Inl (ValueError ''artifact_digest must be a canonical sha256 digest'')
      else if rs_role_kind r \<notin> set [''PIPELINE_RANGE'', ''TENSOR_RANK'', ''HYBRID_RANK'', ''COMPONENT_SET'']
      then Inl (ValueError ''RoleAssemblySpec role_kind is not allowlisted'')
      else if (rs_adapter_id r \<noteq> []) \<noteq> (rs_adapter_version r \<noteq> [])
      then Inl (ValueError ''RoleAssemblySpec adapter identity is incomplete'')
      else Inr r)"

datatype execution_disposition = ACCEPT_IF_EXACT_REUSE | ACCEPT_WITH_PREPARATION | REJECT

text \<open>
  The fields of \<open>ResidencyProofV3\<close>, \<open>ProviderOfferV3\<close>, \<open>PlacementPlanCoreV3\<close> and
  \<open>ProviderSelectionProjectionV3\<close> (sdk/placement.py) that the controller reads.
\<close>

record residency_proof =
  rp_artifact_digest :: string
  rp_role :: string
  rp_rank :: int

record provider_offer =
  po_request_id :: string
  po_provider :: string
  po_status :: bool
  po_execution_disposition :: execution_disposition
  po_residency :: "residency_proof list"
  po_boot_epoch :: string

record placement_plan =
  pp_request_id :: string
  pp_attempt :: int
  pp_provider_by_role :: "(string, string) dict"
  pp_plan_core_digest :: string

record selection_projection =
  sp_provider :: string
  sp_request_id :: string
  sp_attempt :: int
  sp_plan_core_digest :: string
  sp_plan_digest :: string
  sp_roles :: "role_spec list"

section \<open>Tokens and queue records\<close>

datatype v3_state =
    SELECTION_VALIDATED | QUEUE_ACCEPTED | HOST_PREPARING | HOST_READY
  | DEVICE_ADMISSION_PENDING | DEVICE_ADMITTED | COMPLETED | CANCELLED | FAILED

fun v3_state_value :: "v3_state \<Rightarrow> string" where
  "v3_state_value SELECTION_VALIDATED = ''SELECTION_VALIDATED''"
| "v3_state_value QUEUE_ACCEPTED = ''QUEUE_ACCEPTED''"
| "v3_state_value HOST_PREPARING = ''HOST_PREPARING''"
| "v3_state_value HOST_READY = ''HOST_READY''"
| "v3_state_value DEVICE_ADMISSION_PENDING = ''DEVICE_ADMISSION_PENDING''"
| "v3_state_value DEVICE_ADMITTED = ''DEVICE_ADMITTED''"
| "v3_state_value COMPLETED = ''COMPLETED''"
| "v3_state_value CANCELLED = ''CANCELLED''"
| "v3_state_value FAILED = ''FAILED''"

record v3_token =
  vt_provider :: string
  vt_boot_epoch :: string
  vt_resource_sequence :: int
  vt_token :: string

definition issue_token :: "hash \<Rightarrow> string \<Rightarrow> string \<Rightarrow> int \<Rightarrow> py_error + v3_token" where
  "issue_token sha provider boot_epoch resource_sequence =
     (if provider = [] \<or> boot_epoch = [] \<or> resource_sequence \<le> 0
      then Inl (ValueError ''invalid V3 fencing identity'')
      else Inr \<lparr>vt_provider = provider, vt_boot_epoch = boot_epoch,
                vt_resource_sequence = resource_sequence,
                vt_token = sha (provider @ ''|'' @ boot_epoch @ ''|'' @ str_int resource_sequence)\<rparr>)"

record v3_record =
  vr_request_id :: string
  vr_attempt :: int
  vr_provider :: string
  vr_roles :: "role_spec list"
  vr_state :: v3_state
  vr_device_set :: "string list"
  vr_fencing_token :: "v3_token option"
  vr_progress :: py_float
  vr_last_progress_ms :: int

record v3_controller =
  vc_provider :: string
  vc_boot_epoch :: string
  vc_visible_devices :: "string list"
  vc_resource_sequence :: int
  vc_records :: "(string \<times> int, v3_record) dict"
  vc_held :: "string set"
  vc_events :: "(string \<times> string) list"

definition v3_init :: "string \<Rightarrow> string \<Rightarrow> string list \<Rightarrow> py_error + v3_controller" where
  "v3_init provider boot_epoch visible_devices =
     (if provider = [] \<or> boot_epoch = []
      then Inl (ValueError ''provider and boot epoch are required'')
      else Inr \<lparr>vc_provider = provider, vc_boot_epoch = boot_epoch,
                vc_visible_devices = visible_devices, vc_resource_sequence = 0, vc_records = [],
                vc_held = {}, vc_events = []\<rparr>)"

section \<open>Operations\<close>

definition v3_event :: "string \<Rightarrow> string \<Rightarrow> v3_controller \<Rightarrow> v3_controller" where
  "v3_event request_id label c = c\<lparr>vc_events := vc_events c @ [(request_id, label)]\<rparr>"

definition v3_record_of :: "string \<Rightarrow> int \<Rightarrow> v3_controller \<Rightarrow> py_error + v3_record" where
  "v3_record_of request_id attempt c =
     (case dict_get (vc_records c) (request_id, attempt) of
        None \<Rightarrow> Inl (ValueError ''unknown V3 Selection'')
      | Some r \<Rightarrow> Inr r)"

text \<open>Writing back a record that a method has changed in place.\<close>

definition v3_write :: "v3_record \<Rightarrow> v3_controller \<Rightarrow> v3_controller" where
  "v3_write r c = c\<lparr>vc_records := dict_set (vr_request_id r, vr_attempt r) r (vc_records c)\<rparr>"

definition v3_transition ::
  "v3_record \<Rightarrow> v3_state \<Rightarrow> string \<Rightarrow> int \<Rightarrow> v3_controller \<Rightarrow> v3_controller" where
  "v3_transition r state reason clock c =
     v3_event (vr_request_id r) (v3_state_value state @ (if reason = [] then [] else '':'' @ reason))
       (v3_write (r\<lparr>vr_state := state, vr_last_progress_ms := clock\<rparr>) c)"

definition v3_observe_ack :: "provider_offer \<Rightarrow> v3_controller \<Rightarrow> (provider_offer, v3_controller) outcome" where
  "v3_observe_ack offer c =
     (if po_provider offer \<noteq> vc_provider c \<or> po_boot_epoch offer \<noteq> vc_boot_epoch c
      then (Inl (ValueError ''V3 ACK Provider/boot binding mismatch''), c)
      else (Inr offer, v3_event (po_request_id offer) ''ACK_OBSERVED'' c))"

definition local_roles :: "v3_controller \<Rightarrow> placement_plan \<Rightarrow> selection_projection \<Rightarrow> role_spec list" where
  "local_roles c plan projection =
     (let role_names = map rs_role (sp_roles projection) in
      filter (\<lambda>role. dict_get (pp_provider_by_role plan)
                (if count_list role_names (rs_role role) = 1 then rs_role role
                 else rs_role role @ ''#'' @ str_int (rs_rank role)) = Some (vc_provider c))
        (sp_roles projection))"

definition exact_residency :: "provider_offer \<Rightarrow> role_spec \<Rightarrow> bool" where
  "exact_residency offer role \<longleftrightarrow>
     (\<exists>proof \<in> set (po_residency offer). rp_role proof = rs_role role \<and> rp_rank proof = rs_rank role
        \<and> rp_artifact_digest proof = rs_artifact_digest role)"

definition v3_accept_selection ::
  "placement_plan \<Rightarrow> selection_projection \<Rightarrow> provider_offer \<Rightarrow> int \<Rightarrow> v3_controller
     \<Rightarrow> (v3_record, v3_controller) outcome" where
  "v3_accept_selection plan projection offer clock c =
     (if sp_provider projection \<noteq> vc_provider c \<or> sp_plan_digest projection = []
      then (Inl (ValueError ''V3 Selection Provider binding mismatch''), c)
      else if sp_request_id projection \<noteq> pp_request_id plan
              \<or> sp_attempt projection \<noteq> pp_attempt plan
              \<or> sp_plan_core_digest projection \<noteq> pp_plan_core_digest plan
      then (Inl (ValueError ''V3 Selection plan binding mismatch''), c)
      else let roles = local_roles c plan projection in
        if roles = [] then (Inl (ValueError ''V3 Selection contains no local role''), c)
        else if po_execution_disposition offer = REJECT \<or> \<not> po_status offer
        then (Inl (ValueError ''negative V3 ACK cannot be selected''), c)
        else if (\<exists>role \<in> set roles. \<not> exact_residency offer role)
                \<and> po_execution_disposition offer \<noteq> ACCEPT_WITH_PREPARATION
        then (Inl (ValueError ''exact reuse Selection lacks exact residency proof''), c)
        else case dict_get (vc_records c) (pp_request_id plan, pp_attempt plan) of
            Some r \<Rightarrow> (Inr r, c)
          | None \<Rightarrow>
              (let r = \<lparr>vr_request_id = pp_request_id plan, vr_attempt = pp_attempt plan,
                        vr_provider = vc_provider c, vr_roles = roles, vr_state = QUEUE_ACCEPTED,
                        vr_device_set = [], vr_fencing_token = None, vr_progress = Finite 0,
                        vr_last_progress_ms = clock\<rparr>
               in (Inr r, v3_event (pp_request_id plan) ''QUEUE_ACCEPTED'' (v3_write r c))))"

definition v3_mark_host_preparing ::
  "string \<Rightarrow> int \<Rightarrow> int \<Rightarrow> v3_controller \<Rightarrow> (unit, v3_controller) outcome" where
  "v3_mark_host_preparing request_id attempt clock c =
     (case v3_record_of request_id attempt c of
        Inl e \<Rightarrow> (Inl e, c)
      | Inr r \<Rightarrow> (Inr (), v3_transition r HOST_PREPARING [] clock c))"

definition v3_mark_host_ready ::
  "string \<Rightarrow> int \<Rightarrow> int \<Rightarrow> v3_controller \<Rightarrow> (unit, v3_controller) outcome" where
  "v3_mark_host_ready request_id attempt clock c =
     (case v3_record_of request_id attempt c of
        Inl e \<Rightarrow> (Inl e, c)
      | Inr r \<Rightarrow>
          if vr_state r \<notin> {QUEUE_ACCEPTED, HOST_PREPARING}
          then (Inl (ValueError ''V3 host readiness transition is out of order''), c)
          else (Inr (), v3_transition r HOST_READY [] clock c))"

text \<open>
  \<open>admit_devices\<close>: when the token cannot be issued the exception leaves the devices in the
  held set and the record in \<open>DEVICE_ADMISSION_PENDING\<close>.
\<close>

definition v3_admit_devices ::
  "hash \<Rightarrow> string \<Rightarrow> int \<Rightarrow> string list \<Rightarrow> int \<Rightarrow> int \<Rightarrow> int \<Rightarrow> v3_controller
     \<Rightarrow> (v3_token, v3_controller) outcome" where
  "v3_admit_devices sha request_id attempt devices resource_sequence clock1 clock2 c =
     (case v3_record_of request_id attempt c of
        Inl e \<Rightarrow> (Inl e, c)
      | Inr r \<Rightarrow>
          if vr_state r \<notin> {HOST_READY, QUEUE_ACCEPTED}
          then (Inl (ValueError ''V3 device admission requires host readiness''), c)
          else if devices = [] \<and> (\<exists>role \<in> set (vr_roles r). rs_backend role \<noteq> ''cpu'')
          then (Inl (ValueError ''GPU role cannot be admitted without devices''), c)
          else if \<exists>device \<in> set devices. device \<notin> set (vc_visible_devices c)
          then (Inl (ValueError ''V3 device set is not visible''), c)
          else if set devices \<inter> vc_held c \<noteq> {}
          then (Inl (ValueError ''V3 device set is busy''), c)
          else
            (let r1 = r\<lparr>vr_state := DEVICE_ADMISSION_PENDING, vr_last_progress_ms := clock1\<rparr>;
                 c1 = v3_transition r DEVICE_ADMISSION_PENDING [] clock1 c;
                 sequence = max (vc_resource_sequence c1) resource_sequence;
                 c2 = c1\<lparr>vc_held := vc_held c1 \<union> set devices, vc_resource_sequence := sequence\<rparr>
             in case issue_token sha (vc_provider c2) (vc_boot_epoch c2) sequence of
                  Inl e \<Rightarrow> (Inl e, c2)
                | Inr token \<Rightarrow>
                    (Inr token,
                     v3_transition (r1\<lparr>vr_device_set := devices, vr_fencing_token := Some token\<rparr>)
                       DEVICE_ADMITTED [] clock2 c2)))"

definition v3_complete ::
  "string \<Rightarrow> int \<Rightarrow> v3_token \<Rightarrow> int \<Rightarrow> v3_controller \<Rightarrow> (unit, v3_controller) outcome" where
  "v3_complete request_id attempt token clock c =
     (case v3_record_of request_id attempt c of
        Inl e \<Rightarrow> (Inl e, c)
      | Inr r \<Rightarrow>
          if vr_state r \<noteq> DEVICE_ADMITTED
          then (Inl (ValueError ''V3 request is not device-admitted''), c)
          else if vr_fencing_token r \<noteq> Some token \<or> vt_boot_epoch token \<noteq> vc_boot_epoch c
          then (Inl (ValueError ''stale or substituted V3 fencing token''), c)
          else (Inr (), v3_transition r COMPLETED [] clock
                  (c\<lparr>vc_held := vc_held c - set (vr_device_set r)\<rparr>)))"

definition v3_cancel ::
  "string \<Rightarrow> int \<Rightarrow> string \<Rightarrow> int \<Rightarrow> v3_controller \<Rightarrow> (unit, v3_controller) outcome" where
  "v3_cancel request_id attempt reason clock c =
     (case v3_record_of request_id attempt c of
        Inl e \<Rightarrow> (Inl e, c)
      | Inr r \<Rightarrow>
          (let c1 = (if vr_fencing_token r \<noteq> None
                     then c\<lparr>vc_held := vc_held c - set (vr_device_set r)\<rparr> else c)
           in (Inr (), v3_transition (r\<lparr>vr_progress := Finite 0\<rparr>) CANCELLED reason clock c1)))"

definition v3_report_progress ::
  "(py_float \<Rightarrow> string) \<Rightarrow> string \<Rightarrow> int \<Rightarrow> py_float \<Rightarrow> int \<Rightarrow> v3_controller
     \<Rightarrow> (unit, v3_controller) outcome" where
  "v3_report_progress fmt request_id attempt progress clock c =
     (case v3_record_of request_id attempt c of
        Inl e \<Rightarrow> (Inl e, c)
      | Inr r \<Rightarrow>
          if vr_state r \<in> {COMPLETED, CANCELLED, FAILED}
          then (Inl (ValueError ''terminal V3 request cannot report progress''), c)
          else if float_less progress (vr_progress r) \<or> float_less progress (Finite 0)
                  \<or> float_less (Finite 1) progress
          then (Inl (ValueError ''V3 progress must be monotonic in [0,1]''), c)
          else (Inr (), v3_event (vr_request_id r) (''PROGRESS:'' @ fmt progress)
                  (v3_write (r\<lparr>vr_progress := progress, vr_last_progress_ms := clock\<rparr>) c)))"

definition v3_no_progress_expired ::
  "string \<Rightarrow> int \<Rightarrow> int \<Rightarrow> int \<Rightarrow> v3_controller \<Rightarrow> py_error + bool" where
  "v3_no_progress_expired request_id attempt now_ms no_progress_ms c =
     (if no_progress_ms < 0 then Inl (ValueError ''no-progress bound must be non-negative'')
      else case v3_record_of request_id attempt c of
             Inl e \<Rightarrow> Inl e
           | Inr r \<Rightarrow> Inr (now_ms - vr_last_progress_ms r > no_progress_ms))"

section \<open>Lifecycle order\<close>

text \<open>
  The calls of a client that keeps to the lifecycle order: a request is cancelled before it has
  completed or been cancelled, host preparation starts before device admission, and the
  resource sequence of an admission is positive. The controller itself does not enforce these
  three conditions (see the section on calls out of order).
\<close>

definition v3_state_of :: "v3_controller \<Rightarrow> string \<times> int \<Rightarrow> v3_state option" where
  "v3_state_of c k = map_option vr_state (dict_get (vc_records c) k)"

definition v3_start :: "v3_controller \<Rightarrow> bool" where
  "v3_start c \<longleftrightarrow> (\<exists>provider boot_epoch visible. v3_init provider boot_epoch visible = Inr c)"

inductive v3_client_step :: "hash \<Rightarrow> (py_float \<Rightarrow> string) \<Rightarrow> v3_controller \<Rightarrow> v3_controller \<Rightarrow> bool"
  for sha fmt where
  observe_ack: "v3_observe_ack offer c = (r, c') \<Longrightarrow> v3_client_step sha fmt c c'"
| accept: "v3_accept_selection plan projection offer clock c = (r, c') \<Longrightarrow> v3_client_step sha fmt c c'"
| preparing: "v3_state_of c (request_id, attempt)
      \<notin> Some ` {DEVICE_ADMISSION_PENDING, DEVICE_ADMITTED, COMPLETED, CANCELLED, FAILED}
    \<Longrightarrow> v3_mark_host_preparing request_id attempt clock c = (r, c') \<Longrightarrow> v3_client_step sha fmt c c'"
| ready: "v3_mark_host_ready request_id attempt clock c = (r, c') \<Longrightarrow> v3_client_step sha fmt c c'"
| admit: "0 < resource_sequence
    \<Longrightarrow> v3_admit_devices sha request_id attempt devices resource_sequence clock1 clock2 c = (r, c')
    \<Longrightarrow> v3_client_step sha fmt c c'"
| complete: "v3_complete request_id attempt token clock c = (r, c') \<Longrightarrow> v3_client_step sha fmt c c'"
| cancel: "v3_state_of c (request_id, attempt) \<notin> Some ` {COMPLETED, CANCELLED}
    \<Longrightarrow> v3_cancel request_id attempt reason clock c = (r, c') \<Longrightarrow> v3_client_step sha fmt c c'"
| progress: "v3_report_progress fmt request_id attempt value clock c = (r, c')
    \<Longrightarrow> v3_client_step sha fmt c c'"

section \<open>Invariant\<close>

text \<open>The devices a record holds, and those held under a key.\<close>

definition claim_of :: "v3_record \<Rightarrow> string set" where
  "claim_of r = (if vr_state r = DEVICE_ADMITTED then set (vr_device_set r) else {})"

definition device_claim :: "v3_controller \<Rightarrow> string \<times> int \<Rightarrow> string set" where
  "device_claim c k = (case dict_get (vc_records c) k of None \<Rightarrow> {} | Some r \<Rightarrow> claim_of r)"

definition v3_record_ok :: "string \<times> int \<Rightarrow> v3_record \<Rightarrow> bool" where
  "v3_record_ok k r \<longleftrightarrow> (vr_request_id r, vr_attempt r) = k
     \<and> (vr_state r = DEVICE_ADMITTED \<longrightarrow> vr_fencing_token r \<noteq> None)
     \<and> (vr_fencing_token r \<noteq> None \<longrightarrow> vr_state r \<in> {DEVICE_ADMITTED, COMPLETED, CANCELLED})"

definition v3_identity_ok :: "v3_controller \<Rightarrow> bool" where
  "v3_identity_ok c \<longleftrightarrow> vc_provider c \<noteq> [] \<and> vc_boot_epoch c \<noteq> []
     \<and> vc_held c \<subseteq> set (vc_visible_devices c)"

definition v3_records_ok :: "v3_controller \<Rightarrow> bool" where
  "v3_records_ok c \<longleftrightarrow> (\<forall>k r. dict_get (vc_records c) k = Some r \<longrightarrow> v3_record_ok k r)"

definition v3_claims_ok :: "v3_controller \<Rightarrow> bool" where
  "v3_claims_ok c \<longleftrightarrow> vc_held c = (\<Union>k. device_claim c k)
     \<and> (\<forall>j k. j \<noteq> k \<longrightarrow> device_claim c j \<inter> device_claim c k = {})"

definition v3_inv :: "v3_controller \<Rightarrow> bool" where
  "v3_inv c \<longleftrightarrow> v3_identity_ok c \<and> v3_records_ok c \<and> v3_claims_ok c"

lemma v3_event_fields [simp]:
  "vc_records (v3_event i l c) = vc_records c" "vc_held (v3_event i l c) = vc_held c"
  "vc_provider (v3_event i l c) = vc_provider c" "vc_boot_epoch (v3_event i l c) = vc_boot_epoch c"
  "vc_visible_devices (v3_event i l c) = vc_visible_devices c"
  "vc_resource_sequence (v3_event i l c) = vc_resource_sequence c"
  by (simp_all add: v3_event_def)

lemma v3_write_fields [simp]:
  "vc_records (v3_write r c) = dict_set (vr_request_id r, vr_attempt r) r (vc_records c)"
  "vc_held (v3_write r c) = vc_held c"
  "vc_provider (v3_write r c) = vc_provider c" "vc_boot_epoch (v3_write r c) = vc_boot_epoch c"
  "vc_visible_devices (v3_write r c) = vc_visible_devices c"
  "vc_resource_sequence (v3_write r c) = vc_resource_sequence c"
  by (simp_all add: v3_write_def)

lemma v3_transition_fields [simp]:
  "vc_records (v3_transition r st reason clock c) = dict_set (vr_request_id r, vr_attempt r)
     (r\<lparr>vr_state := st, vr_last_progress_ms := clock\<rparr>) (vc_records c)"
  "vc_held (v3_transition r st reason clock c) = vc_held c"
  "vc_provider (v3_transition r st reason clock c) = vc_provider c"
  "vc_boot_epoch (v3_transition r st reason clock c) = vc_boot_epoch c"
  "vc_visible_devices (v3_transition r st reason clock c) = vc_visible_devices c"
  "vc_resource_sequence (v3_transition r st reason clock c) = vc_resource_sequence c"
  by (simp_all add: v3_transition_def)

lemma v3_record_of_Inr: "v3_record_of i a c = Inr r \<longleftrightarrow> dict_get (vc_records c) (i, a) = Some r"
  by (simp add: v3_record_of_def split: option.splits)

lemma v3_inv_event: "v3_inv c \<Longrightarrow> v3_inv (v3_event i l c)"
proof -
  have claims: "device_claim (v3_event i l c) = device_claim c"
    by (simp add: fun_eq_iff device_claim_def)
  assume "v3_inv c"
  then show ?thesis
    unfolding v3_inv_def v3_identity_ok_def v3_records_ok_def v3_claims_ok_def v3_event_fields claims .
qed

text \<open>Every operation that changes a record changes one claim; the rest is kept.\<close>

lemma v3_inv_update:
  assumes inv: "v3_inv c"
    and recs: "vc_records c' = dict_set k r (vc_records c)"
    and ok: "v3_record_ok k r"
    and held: "vc_held c' = (vc_held c - device_claim c k) \<union> claim_of r"
    and free: "claim_of r \<inter> (vc_held c - device_claim c k) = {}"
    and visible: "claim_of r \<subseteq> set (vc_visible_devices c)"
    and same: "vc_provider c' = vc_provider c" "vc_boot_epoch c' = vc_boot_epoch c"
      "vc_visible_devices c' = vc_visible_devices c"
  shows "v3_inv c'"
proof -
  have claim: "device_claim c' = (device_claim c)(k := claim_of r)"
    by (auto simp: fun_eq_iff device_claim_def recs dict_simps)
  have union: "vc_held c = (\<Union>j. device_claim c j)"
    and disj: "\<And>i j. i \<noteq> j \<Longrightarrow> device_claim c i \<inter> device_claim c j = {}"
    using inv unfolding v3_inv_def v3_claims_ok_def by blast+
  have others: "vc_held c - device_claim c k = (\<Union>j \<in> - {k}. device_claim c j)"
    unfolding union using disj by blast
  have "vc_held c' = (\<Union>j. device_claim c' j)"
    unfolding held others claim by auto
  moreover have "device_claim c' i \<inter> device_claim c' j = {}" if "i \<noteq> j" for i j
    using that disj [OF that] free unfolding claim others by auto
  moreover have "v3_records_ok c'"
    using inv ok by (auto simp: v3_inv_def v3_records_ok_def recs dict_simps)
  moreover have "v3_identity_ok c'"
    using inv visible by (auto simp: v3_inv_def v3_identity_ok_def same held)
  ultimately show ?thesis by (simp add: v3_inv_def v3_claims_ok_def)
qed

lemma v3_inv_record: "v3_inv c \<Longrightarrow> v3_record_of i a c = Inr r \<Longrightarrow> v3_record_ok (i, a) r"
  by (simp add: v3_inv_def v3_records_ok_def v3_record_of_Inr)

lemma v3_claim_record: "v3_record_of i a c = Inr r \<Longrightarrow> device_claim c (i, a) = claim_of r"
  by (simp add: device_claim_def v3_record_of_Inr)

text \<open>A record that keeps its claim keeps the invariant.\<close>

lemma v3_inv_keep_claim:
  assumes "v3_inv c" and "v3_record_of i a c = Inr r"
    and "vc_records c' = dict_set (i, a) r' (vc_records c)" and "v3_record_ok (i, a) r'"
    and "claim_of r' = claim_of r" and "vc_held c' = vc_held c"
    and "vc_provider c' = vc_provider c" "vc_boot_epoch c' = vc_boot_epoch c"
      "vc_visible_devices c' = vc_visible_devices c"
  shows "v3_inv c'"
proof (rule v3_inv_update [OF assms(1,3,4)])
  have "claim_of r \<subseteq> vc_held c"
    using assms(1) v3_claim_record [OF assms(2)] by (auto simp: v3_inv_def v3_claims_ok_def)
  then show "vc_held c' = vc_held c - device_claim c (i, a) \<union> claim_of r'"
    and "claim_of r' \<inter> (vc_held c - device_claim c (i, a)) = {}"
    and "claim_of r' \<subseteq> set (vc_visible_devices c)"
    using assms(1,5,6) v3_claim_record [OF assms(2)] by (auto simp: v3_inv_def v3_identity_ok_def)
qed (fact assms)+

lemma v3_accept_selection_inv:
  assumes "v3_inv c" and "v3_accept_selection plan projection offer clock c = (r, c')"
  shows "v3_inv c'"
proof -
  have "c' = c \<or> (\<exists>roles. dict_get (vc_records c) (pp_request_id plan, pp_attempt plan) = None
      \<and> c' = v3_event (pp_request_id plan) ''QUEUE_ACCEPTED''
          (v3_write \<lparr>vr_request_id = pp_request_id plan, vr_attempt = pp_attempt plan,
             vr_provider = vc_provider c, vr_roles = roles, vr_state = QUEUE_ACCEPTED,
             vr_device_set = [], vr_fencing_token = None, vr_progress = Finite 0,
             vr_last_progress_ms = clock\<rparr> c))"
    using assms(2) by (auto simp: v3_accept_selection_def Let_def split: if_splits option.splits)
  then show ?thesis
  proof (elim disjE exE conjE)
    fix roles
    assume new: "dict_get (vc_records c) (pp_request_id plan, pp_attempt plan) = None"
    assume c': "c' = v3_event (pp_request_id plan) ''QUEUE_ACCEPTED''
          (v3_write \<lparr>vr_request_id = pp_request_id plan, vr_attempt = pp_attempt plan,
             vr_provider = vc_provider c, vr_roles = roles, vr_state = QUEUE_ACCEPTED,
             vr_device_set = [], vr_fencing_token = None, vr_progress = Finite 0,
             vr_last_progress_ms = clock\<rparr> c)"
    have "device_claim c (pp_request_id plan, pp_attempt plan) = {}"
      by (simp add: device_claim_def new)
    with assms(1) show ?thesis unfolding c'
      by (intro v3_inv_update [OF assms(1)]) (auto simp: v3_record_ok_def claim_of_def)
  qed (simp add: assms(1))
qed

lemma v3_preparing_inv:
  assumes "v3_inv c" and "v3_mark_host_preparing i a clock c = (r, c')"
    and "v3_state_of c (i, a)
      \<notin> Some ` {DEVICE_ADMISSION_PENDING, DEVICE_ADMITTED, COMPLETED, CANCELLED, FAILED}"
  shows "v3_inv c'"
proof (cases "v3_record_of i a c")
  case (Inl e)
  with assms show ?thesis by (simp add: v3_mark_host_preparing_def)
next
  case (Inr rec)
  note ok = v3_inv_record [OF assms(1) Inr]
  have "vr_state rec \<notin> {DEVICE_ADMISSION_PENDING, DEVICE_ADMITTED, COMPLETED, CANCELLED, FAILED}"
    using assms(3) Inr by (auto simp: v3_state_of_def v3_record_of_Inr)
  with ok assms(2) Inr show ?thesis
    by (intro v3_inv_keep_claim [OF assms(1) Inr, where r' = "rec\<lparr>vr_state := HOST_PREPARING,
            vr_last_progress_ms := clock\<rparr>"])
      (auto simp: v3_mark_host_preparing_def v3_record_ok_def claim_of_def)
qed

lemma v3_ready_inv:
  assumes "v3_inv c" and "v3_mark_host_ready i a clock c = (r, c')"
  shows "v3_inv c'"
proof (cases "v3_record_of i a c")
  case (Inl e)
  with assms show ?thesis by (simp add: v3_mark_host_ready_def)
next
  case (Inr rec)
  note ok = v3_inv_record [OF assms(1) Inr]
  show ?thesis
  proof (cases "vr_state rec \<in> {QUEUE_ACCEPTED, HOST_PREPARING}")
    case True
    with ok assms(2) Inr show ?thesis
      by (intro v3_inv_keep_claim [OF assms(1) Inr, where r' = "rec\<lparr>vr_state := HOST_READY,
              vr_last_progress_ms := clock\<rparr>"])
        (auto simp: v3_mark_host_ready_def v3_record_ok_def claim_of_def)
  next
    case False
    with assms Inr show ?thesis by (simp add: v3_mark_host_ready_def)
  qed
qed

lemma v3_progress_inv:
  assumes "v3_inv c" and "v3_report_progress fmt i a value clock c = (r, c')"
  shows "v3_inv c'"
proof (cases "v3_record_of i a c")
  case (Inl e)
  with assms show ?thesis by (simp add: v3_report_progress_def)
next
  case (Inr rec)
  note ok = v3_inv_record [OF assms(1) Inr]
  show ?thesis
  proof (cases "r")
    case (Inl e)
    with assms Inr show ?thesis by (auto simp: v3_report_progress_def split: if_splits)
  next
    case (Inr u)
    with \<open>v3_record_of i a c = Inr rec\<close> ok assms(2) show ?thesis
      by (intro v3_inv_keep_claim [OF assms(1), where i = i and a = a and r = rec
            and r' = "rec\<lparr>vr_progress := value, vr_last_progress_ms := clock\<rparr>"])
        (auto simp: v3_report_progress_def v3_record_ok_def claim_of_def split: if_splits)
  qed
qed

lemma v3_complete_inv:
  assumes "v3_inv c" and "v3_complete i a token clock c = (r, c')"
  shows "v3_inv c'"
proof (cases "v3_record_of i a c")
  case (Inl e)
  with assms show ?thesis by (simp add: v3_complete_def)
next
  case (Inr rec)
  note ok = v3_inv_record [OF assms(1) Inr]
  show ?thesis
  proof (cases r)
    case (Inl e)
    with assms Inr show ?thesis by (auto simp: v3_complete_def split: if_splits)
  next
    case (Inr u)
    with \<open>v3_record_of i a c = Inr rec\<close> ok assms(2) v3_claim_record show ?thesis
      by (intro v3_inv_update [OF assms(1), where k = "(i, a)"
            and r = "rec\<lparr>vr_state := COMPLETED, vr_last_progress_ms := clock\<rparr>"])
        (auto simp: v3_complete_def v3_record_ok_def claim_of_def split: if_splits)
  qed
qed

lemma v3_cancel_inv:
  assumes "v3_inv c" and "v3_cancel i a reason clock c = (r, c')"
    and "v3_state_of c (i, a) \<notin> Some ` {COMPLETED, CANCELLED}"
  shows "v3_inv c'"
proof (cases "v3_record_of i a c")
  case (Inl e)
  with assms show ?thesis by (simp add: v3_cancel_def)
next
  case (Inr rec)
  note ok = v3_inv_record [OF assms(1) Inr]
  have "vr_state rec \<notin> {COMPLETED, CANCELLED}"
    using assms(3) Inr by (auto simp: v3_state_of_def v3_record_of_Inr)
  with ok have "(vr_fencing_token rec \<noteq> None) = (vr_state rec = DEVICE_ADMITTED)"
    by (auto simp: v3_record_ok_def)
  with ok assms(2) Inr v3_claim_record show ?thesis
    by (intro v3_inv_update [OF assms(1), where k = "(i, a)" and r = "rec\<lparr>vr_progress := Finite 0,
            vr_state := CANCELLED, vr_last_progress_ms := clock\<rparr>"])
      (auto simp: v3_cancel_def v3_record_ok_def claim_of_def Let_def split: if_splits)
qed


lemma issue_token_ok:
  assumes "provider \<noteq> []" and "boot_epoch \<noteq> []" and "0 < n"
  shows "\<exists>token. issue_token sha provider boot_epoch n = Inr token
    \<and> vt_resource_sequence token = n \<and> vt_boot_epoch token = boot_epoch"
  using assms by (simp add: issue_token_def)

text \<open>The outcomes of \<open>admit_devices\<close>, when the sequence of the token is positive.\<close>

lemma v3_admit_cases:
  assumes "v3_admit_devices sha i a devices seq clock1 clock2 c = (r, c')"
    and "0 < max (vc_resource_sequence c) seq" and "v3_inv c"
  obtains (refused) e where "r = Inl e" "c' = c"
  | (admitted) rec token where "r = Inr token" "v3_record_of i a c = Inr rec"
      "vr_state rec \<in> {HOST_READY, QUEUE_ACCEPTED}"
      "set devices \<subseteq> set (vc_visible_devices c)" "set devices \<inter> vc_held c = {}"
      "vt_resource_sequence token = max (vc_resource_sequence c) seq"
      "vt_boot_epoch token = vc_boot_epoch c"
      "vc_records c' = dict_set (i, a) (rec\<lparr>vr_device_set := devices,
         vr_fencing_token := Some token, vr_state := DEVICE_ADMITTED, vr_last_progress_ms := clock2\<rparr>)
         (vc_records c)"
      "vc_held c' = vc_held c \<union> set devices"
      "vc_provider c' = vc_provider c" "vc_boot_epoch c' = vc_boot_epoch c"
      "vc_visible_devices c' = vc_visible_devices c"
proof (cases "v3_record_of i a c")
  case (Inl e)
  with assms(1) show ?thesis by (intro refused [of e]) (auto simp: v3_admit_devices_def)
next
  case (Inr rec)
  have key: "vr_request_id rec = i" "vr_attempt rec = a"
    using v3_inv_record [OF assms(3) Inr] by (simp_all add: v3_record_ok_def)
  have "vc_provider c \<noteq> []" "vc_boot_epoch c \<noteq> []"
    using assms(3) by (simp_all add: v3_inv_def v3_identity_ok_def)
  with assms(2) obtain token where
    token: "issue_token sha (vc_provider c) (vc_boot_epoch c) (max (vc_resource_sequence c) seq) = Inr token"
      "vt_resource_sequence token = max (vc_resource_sequence c) seq"
      "vt_boot_epoch token = vc_boot_epoch c"
    using issue_token_ok by blast
  have update: "dict_set k v (dict_set k u d) = dict_set k v d" for k u v and d :: "('x, 'y) dict"
    by (induction d) auto
  show ?thesis
  proof (cases r)
    case (Inl e)
    with assms(1) Inr token(1) show ?thesis
      by (intro refused [of e]) (auto simp: v3_admit_devices_def Let_def split: if_splits)
  next
    case (Inr t)
    with assms(1) \<open>v3_record_of i a c = Inr rec\<close> token key show ?thesis
      by (intro admitted [of token rec])
        (auto simp: v3_admit_devices_def Let_def update split: if_splits)
  qed
qed

lemma v3_admit_inv:
  assumes "v3_inv c" and "v3_admit_devices sha i a devices seq clock1 clock2 c = (r, c')"
    and "0 < seq"
  shows "v3_inv c'"
proof -
  have "0 < max (vc_resource_sequence c) seq" using assms(3) by simp
  from assms(2) this assms(1) show ?thesis
  proof (cases rule: v3_admit_cases)
    case (refused e)
    with assms(1) show ?thesis by simp
  next
    case (admitted rec token)
    have "device_claim c (i, a) = {}"
      using admitted(3) by (auto simp: v3_claim_record [OF admitted(2)] claim_of_def)
    with admitted v3_inv_record [OF assms(1) admitted(2)] show ?thesis
      by (intro v3_inv_update [OF assms(1) admitted(8)]) (auto simp: v3_record_ok_def claim_of_def)
  qed
qed

lemma v3_init_inv: "v3_start c \<Longrightarrow> v3_inv c"
  by (auto simp: v3_start_def v3_init_def v3_inv_def v3_identity_ok_def v3_records_ok_def
      v3_claims_ok_def device_claim_def split: if_splits)

lemma v3_step_inv: "v3_inv c \<Longrightarrow> v3_client_step sha fmt c c' \<Longrightarrow> v3_inv c'"
proof (erule v3_client_step.cases)
  fix offer x r y
  assume "v3_inv c" "c = x" "c' = y" "v3_observe_ack offer x = (r, y)"
  then show "v3_inv c'" by (auto simp: v3_observe_ack_def intro: v3_inv_event split: if_splits)
qed (blast intro: v3_accept_selection_inv v3_preparing_inv v3_ready_inv v3_admit_inv
    v3_complete_inv v3_cancel_inv v3_progress_inv)+

interpretation v3_system: invariant_system v3_start "v3_client_step sha fmt" v3_inv
  for sha fmt
  by unfold_locales (auto intro: v3_init_inv v3_step_inv)

section \<open>Properties\<close>

text \<open>
  C4: While clients keep to the lifecycle order, the held devices are exactly the devices of
  the device-admitted records, no device is held for two requests at a time, and only visible
  devices are held.
\<close>

theorem v3_devices_exclusive:
  assumes "reachable v3_start (v3_client_step sha fmt) c"
  shows "vc_held c = (\<Union>k. device_claim c k)
    \<and> (\<forall>j k. device_claim c j \<inter> device_claim c k \<noteq> {} \<longrightarrow> j = k)
    \<and> vc_held c \<subseteq> set (vc_visible_devices c)"
proof -
  from v3_system.reachable_inv [OF assms] have "v3_claims_ok c" "v3_identity_ok c"
    by (simp_all add: v3_inv_def)
  then show ?thesis unfolding v3_claims_ok_def v3_identity_ok_def by blast
qed

text \<open>
  Device admission takes all the requested devices or none. A refused call changes
  nothing. A granted one had all its devices free, and only the token it returns completes the
  request, which then frees exactly the devices it took.
\<close>

lemma v3_admission_all_or_none:
  assumes "reachable v3_start (v3_client_step sha fmt) c" and "0 < resource_sequence"
    and "v3_admit_devices sha i a devices resource_sequence clock1 clock2 c = (r, c')"
  shows "(\<forall>e. r = Inl e \<longrightarrow> c' = c)
    \<and> (\<forall>token. r = Inr token \<longrightarrow>
        set devices \<inter> vc_held c = {} \<and> vc_held c' = vc_held c \<union> set devices
        \<and> (\<forall>other clock. other \<noteq> token \<longrightarrow> v3_complete i a other clock c'
             = (Inl (ValueError ''stale or substituted V3 fencing token''), c'))
        \<and> (\<forall>clock. \<exists>d. v3_complete i a token clock c' = (Inr (), d) \<and> vc_held d = vc_held c))"
proof -
  from assms(1) have inv: "v3_inv c" by (rule v3_system.reachable_inv)
  have "0 < max (vc_resource_sequence c) resource_sequence" using assms(2) by simp
  from assms(3) this inv show ?thesis
  proof (cases rule: v3_admit_cases)
    case (refused e)
    then show ?thesis by simp
  next
    case (admitted rec token)
    have stored: "v3_record_of i a c' = Inr (rec\<lparr>vr_device_set := devices,
         vr_fencing_token := Some token, vr_state := DEVICE_ADMITTED, vr_last_progress_ms := clock2\<rparr>)"
      by (simp add: v3_record_of_Inr admitted(8) dict_simps)
    with admitted show ?thesis by (auto simp: v3_complete_def)
  qed
qed

section \<open>Calls out of order\<close>

definition demo_v3_role :: role_spec where
  "demo_v3_role = \<lparr>rs_role = ''stage0'', rs_rank = 0, rs_layer_begin = 0, rs_layer_end = 4,
     rs_recipe_digest = [], rs_artifact_digest = ''art'', rs_backend = ''cuda'',
     rs_device_set = [], rs_adapter_id = [], rs_adapter_version = [],
     rs_role_kind = ''PIPELINE_RANGE''\<rparr>"

definition demo_plan :: "string \<Rightarrow> placement_plan" where
  "demo_plan i = \<lparr>pp_request_id = i, pp_attempt = 1,
     pp_provider_by_role = [(''stage0'', ''/p'')], pp_plan_core_digest = ''d''\<rparr>"

definition demo_projection :: "string \<Rightarrow> selection_projection" where
  "demo_projection i = \<lparr>sp_provider = ''/p'', sp_request_id = i, sp_attempt = 1,
     sp_plan_core_digest = ''d'', sp_plan_digest = ''pd'', sp_roles = [demo_v3_role]\<rparr>"

definition demo_offer :: "string \<Rightarrow> provider_offer" where
  "demo_offer i = \<lparr>po_request_id = i, po_provider = ''/p'', po_status = True,
     po_execution_disposition = ACCEPT_WITH_PREPARATION, po_residency = [],
     po_boot_epoch = ''boot''\<rparr>"

definition demo_accept :: "string \<Rightarrow> v3_controller \<Rightarrow> v3_controller" where
  "demo_accept i c = snd (v3_accept_selection (demo_plan i) (demo_projection i) (demo_offer i) 10 c)"

definition demo_empty :: v3_controller where
  "demo_empty = projr (v3_init ''/p'' ''boot'' [''gpu0'', ''gpu1''])"

definition demo_selected :: v3_controller where
  "demo_selected = demo_accept ''r3'' (demo_accept ''r2'' (demo_accept ''r1'' demo_empty))"

definition demo_admit :: "string \<Rightarrow> int \<Rightarrow> v3_controller \<Rightarrow> (v3_token, v3_controller) outcome" where
  "demo_admit i seq c = v3_admit_devices (\<lambda>s. s) i 1 [''gpu0''] seq 11 12 c"

text \<open>
  Request \<open>r1\<close> runs on \<open>gpu0\<close> and completes; \<open>r2\<close> is admitted to \<open>gpu0\<close>; a late cancel of
  \<open>r1\<close> takes the device out of the held set; \<open>r3\<close> is admitted to the same device.
\<close>

definition demo_late_cancel :: v3_controller where
  "demo_late_cancel =
     (let c1 = snd (demo_admit ''r1'' 1 demo_selected);
          c2 = snd (v3_complete ''r1'' 1 (projr (fst (demo_admit ''r1'' 1 demo_selected))) 13 c1);
          c3 = snd (demo_admit ''r2'' 2 c2);
          c4 = snd (v3_cancel ''r1'' 1 ''late'' 14 c3)
      in snd (demo_admit ''r3'' 3 c4))"


text \<open>
  \<open>cancel\<close> does not look at the state of the request, so cancelling a completed request
  releases devices that another request holds by then: two device-admitted requests share
  \<open>gpu0\<close>. An admission whose resource sequence is not positive raises after its devices entered
  the held set, and cancelling the request does not free them.
\<close>

lemma v3_out_of_order_calls:
  "device_claim demo_late_cancel (''r2'', 1) \<inter> device_claim demo_late_cancel (''r3'', 1) = {''gpu0''}
   \<and> fst (demo_admit ''r1'' 0 demo_selected) = Inl (ValueError ''invalid V3 fencing identity'')
   \<and> vc_held (snd (v3_cancel ''r1'' 1 [] 13 (snd (demo_admit ''r1'' 0 demo_selected)))) = {''gpu0''}"
  by code_simp

section \<open>Witnesses\<close>

lemma demo_accept_step: "v3_client_step sha fmt c (demo_accept i c)"
  by (rule v3_client_step.accept) (simp add: demo_accept_def prod_eq_iff)

lemma demo_selected_reachable: "reachable v3_start (v3_client_step sha fmt) demo_selected"
proof -
  have "v3_init ''/p'' ''boot'' [''gpu0'', ''gpu1''] = Inr demo_empty" by code_simp
  then have "reachable v3_start (v3_client_step sha fmt) demo_empty"
    by (intro reachable.start) (auto simp: v3_start_def)
  moreover have "reachable v3_start (v3_client_step sha fmt) (demo_accept i c)"
    if "reachable v3_start (v3_client_step sha fmt) c" for i c
    using that demo_accept_step by (rule reachable.next_state)
  ultimately show ?thesis unfolding demo_selected_def by blast
qed

lemma demo_admit_reachable:
  "reachable v3_start (v3_client_step (\<lambda>s. s) fmt) (snd (demo_admit ''r1'' 1 demo_selected))"
  by (rule reachable.next_state [OF demo_selected_reachable], rule v3_client_step.admit [of 1])
    (simp_all add: demo_admit_def prod_eq_iff)

theorem v3_devices_exclusive_witness:
  "vc_held (snd (demo_admit ''r1'' 1 demo_selected)) = {''gpu0''}
   \<and> {''gpu0''} = (\<Union>k. device_claim (snd (demo_admit ''r1'' 1 demo_selected)) k)"
proof -
  have "vc_held (snd (demo_admit ''r1'' 1 demo_selected)) = {''gpu0''}" by code_simp
  with v3_devices_exclusive [OF demo_admit_reachable [of "\<lambda>_. []"]] show ?thesis by metis
qed

theorem v3_admission_all_or_none_witness:
  "\<exists>token d. fst (demo_admit ''r1'' 1 demo_selected) = Inr token
     \<and> vc_held (snd (demo_admit ''r1'' 1 demo_selected)) = {''gpu0''}
     \<and> v3_complete ''r1'' 1 token 20 (snd (demo_admit ''r1'' 1 demo_selected)) = (Inr (), d)
     \<and> vc_held d = {}"
proof -
  let ?token = "\<lparr>vt_provider = ''/p'', vt_boot_epoch = ''boot'', vt_resource_sequence = 1,
    vt_token = ''/p|boot|1''\<rparr>"
  have granted: "fst (demo_admit ''r1'' 1 demo_selected) = Inr ?token" by code_simp
  have "vc_held demo_selected = {}" by code_simp
  have "v3_admit_devices (\<lambda>s. s) ''r1'' 1 [''gpu0''] 1 11 12 demo_selected
      = (Inr ?token, snd (demo_admit ''r1'' 1 demo_selected))"
    using granted by (simp add: demo_admit_def prod_eq_iff)
  note call = this
  have "vc_held (snd (demo_admit ''r1'' 1 demo_selected)) = {''gpu0''}" by code_simp
  moreover have "\<exists>d. v3_complete ''r1'' 1 ?token 20 (snd (demo_admit ''r1'' 1 demo_selected))
      = (Inr (), d) \<and> vc_held d = vc_held demo_selected"
    using v3_admission_all_or_none [OF demo_selected_reachable [of _ "\<lambda>_. []"] zero_less_one call]
    by blast
  then have "\<exists>d. v3_complete ''r1'' 1 ?token 20 (snd (demo_admit ''r1'' 1 demo_selected))
      = (Inr (), d) \<and> vc_held d = {}"
    by (simp only: \<open>vc_held demo_selected = {}\<close>)
  ultimately show ?thesis using granted by blast
qed

end
