(* ===== verification/Conflict_Coordination.thy ===== *)
theory Conflict_Coordination
  imports Interfaces
begin

text \<open>
  \<open>core/conflict_coordination.py\<close>: the data of Spec 130 conflict admission and the operations
  of \<open>ConflictAdmissionCoordinator\<close>, which orders overlapping request attempts over the
  resources that providers declare. \<open>hashlib.sha256\<close> is the parameter \<open>sha\<close>; logical times are
  arguments, as in the source. Every method holds the object's lock for its whole body, so the
  methods are the atomic steps of \<open>coord_step\<close>. The safety proofs are in
  \<open>Conflict_Safety\<close>, the signed permit envelope in \<open>Conflict_Permit\<close>, and the persistence in
  \<open>Conflict_Snapshot\<close>.
\<close>

section \<open>Data\<close>

definition CAPABILITY :: string where
  "CAPABILITY = ''DIConflictAdmissionV1''"

definition text_field :: "string \<Rightarrow> string \<Rightarrow> py_error + string" where
  "text_field value field_name =
     (let result = py_strip value in
      if result = [] then Inl (ValueError (field_name @ '' must be non-empty'')) else Inr result)"

record resource_key =
  provider_identity :: string
  provider_boot_epoch :: string
  resource_class :: string
  resource_id :: string
  exclusivity_domain :: string
  capacity_unit :: string
  declaration_version :: string

definition make_resource_key :: "resource_key \<Rightarrow> py_error + resource_key" where
  "make_resource_key k =
     sum_then (text_field (provider_identity k) ''provider_identity'') (\<lambda>a.
     sum_then (text_field (provider_boot_epoch k) ''provider_boot_epoch'') (\<lambda>b.
     sum_then (text_field (resource_class k) ''resource_class'') (\<lambda>c.
     sum_then (text_field (resource_id k) ''resource_id'') (\<lambda>d.
     sum_then (text_field (exclusivity_domain k) ''exclusivity_domain'') (\<lambda>e.
     sum_then (text_field (capacity_unit k) ''capacity_unit'') (\<lambda>f.
     sum_then (text_field (declaration_version k) ''declaration_version'') (\<lambda>g.
       Inr \<lparr>provider_identity = a, provider_boot_epoch = b, resource_class = c, resource_id = d,
            exclusivity_domain = e, capacity_unit = f, declaration_version = g\<rparr>)))))))"

definition key_json :: "resource_key \<Rightarrow> json" where
  "key_json k = JObj
     [(''provider_identity'', JStr (provider_identity k)),
      (''provider_boot_epoch'', JStr (provider_boot_epoch k)),
      (''resource_class'', JStr (resource_class k)),
      (''resource_id'', JStr (resource_id k)),
      (''exclusivity_domain'', JStr (exclusivity_domain k)),
      (''capacity_unit'', JStr (capacity_unit k)),
      (''declaration_version'', JStr (declaration_version k))]"

definition stable_id :: "hash \<Rightarrow> resource_key \<Rightarrow> string" where
  "stable_id sha k = json_digest sha (key_json k)"

type_synonym physical = "string \<times> string \<times> string \<times> string"

definition physical_identity :: "resource_key \<Rightarrow> physical" where
  "physical_identity k =
     (provider_identity k, provider_boot_epoch k, exclusivity_domain k, resource_id k)"

record resource_declaration =
  decl_key :: resource_key
  decl_capacity :: int
  decl_exclusive :: bool
  decl_resource_sequence :: int
  decl_authenticated :: bool
  decl_declaration_digest :: string

definition declaration_canonical_digest :: "hash \<Rightarrow> resource_declaration \<Rightarrow> string" where
  "declaration_canonical_digest sha d = json_digest sha (JObj
     [(''key'', key_json (decl_key d)), (''capacity'', JInt (decl_capacity d)),
      (''exclusive'', JBool (decl_exclusive d)),
      (''resource_sequence'', JInt (decl_resource_sequence d))])"

definition make_declaration :: "hash \<Rightarrow> resource_declaration \<Rightarrow> py_error + resource_declaration" where
  "make_declaration sha d =
     (if decl_capacity d \<le> 0 \<or> decl_resource_sequence d \<le> 0
      then Inl (ValueError ''resource capacity and sequence must be positive'')
      else if \<not> decl_authenticated d
      then Inl (PermissionError ''resource declaration is not authenticated'')
      else let expected = declaration_canonical_digest sha d in
        if decl_declaration_digest d \<noteq> [] \<and> decl_declaration_digest d \<noteq> expected
        then Inl (ValueError ''resource declaration digest mismatch'')
        else Inr (d\<lparr>decl_declaration_digest := expected\<rparr>))"

record resource_claim =
  claim_key :: resource_key
  claim_quantity :: int
  claim_exclusive :: bool

definition make_claim :: "resource_claim \<Rightarrow> py_error + resource_claim" where
  "make_claim c = (if claim_quantity c \<le> 0 then Inl (ValueError ''claim quantity must be positive'')
                   else Inr c)"

record request_attempt =
  ra_requester_identity :: string
  ra_request_id :: string
  ra_attempt :: int
  ra_absolute_deadline :: int
  ra_claims :: "resource_claim list"
  ra_capability :: string
  ra_authenticated :: bool

definition make_request :: "request_attempt \<Rightarrow> py_error + request_attempt" where
  "make_request r =
     sum_then (text_field (ra_requester_identity r) ''requester_identity'') (\<lambda>requester.
     sum_then (text_field (ra_request_id r) ''request_id'') (\<lambda>request_id.
       if ra_attempt r \<le> 0 \<or> ra_absolute_deadline r \<le> 0 \<or> ra_claims r = []
       then Inl (ValueError ''invalid request attempt'')
       else if \<not> distinct (map claim_key (ra_claims r))
       then Inl (ValueError ''duplicate or aliased resource claim'')
       else if \<not> ra_authenticated r
       then Inl (PermissionError ''request attempt is not authenticated'')
       else Inr (r\<lparr>ra_requester_identity := requester, ra_request_id := request_id\<rparr>)))"

type_synonym request_identity = "string \<times> string \<times> int"

definition identity :: "request_attempt \<Rightarrow> request_identity" where
  "identity r = (ra_requester_identity r, ra_request_id r, ra_attempt r)"

definition claim_json :: "resource_claim \<Rightarrow> json" where
  "claim_json c = JObj [(''key'', key_json (claim_key c)), (''quantity'', JInt (claim_quantity c)),
                        (''exclusive'', JBool (claim_exclusive c))]"

definition request_digest :: "hash \<Rightarrow> request_attempt \<Rightarrow> string" where
  "request_digest sha r = json_digest sha (JObj
     [(''requester'', JStr (ra_requester_identity r)), (''request_id'', JStr (ra_request_id r)),
      (''attempt'', JInt (ra_attempt r)), (''deadline'', JInt (ra_absolute_deadline r)),
      (''capability'', JStr (ra_capability r)), (''claims'', JList (map claim_json (ra_claims r)))])"

record authority_epoch =
  ae_scope :: string
  ae_authority_identity :: string
  ae_epoch :: int
  ae_boot_epoch :: string

definition make_authority :: "authority_epoch \<Rightarrow> py_error + authority_epoch" where
  "make_authority a =
     sum_then (text_field (ae_scope a) ''scope'') (\<lambda>scope.
     sum_then (text_field (ae_authority_identity a) ''authority_identity'') (\<lambda>authority.
     sum_then (text_field (ae_boot_epoch a) ''boot_epoch'') (\<lambda>boot.
       if ae_epoch a \<le> 0 then Inl (ValueError ''authority epoch must be positive'')
       else Inr \<lparr>ae_scope = scope, ae_authority_identity = authority, ae_epoch = ae_epoch a,
                 ae_boot_epoch = boot\<rparr>)))"

definition authority_json :: "authority_epoch \<Rightarrow> json" where
  "authority_json a = JObj [(''scope'', JStr (ae_scope a)),
     (''authority_identity'', JStr (ae_authority_identity a)), (''epoch'', JInt (ae_epoch a)),
     (''boot_epoch'', JStr (ae_boot_epoch a))]"

definition authority_digest :: "hash \<Rightarrow> authority_epoch \<Rightarrow> string" where
  "authority_digest sha a = json_digest sha (authority_json a)"

record ledger_event =
  ev_event_id :: string
  ev_sequence :: int
  ev_event_kind :: string
  ev_authority_digest :: string
  ev_request_identity :: "request_identity option"
  ev_subject_digest :: string
  ev_causal_predecessor :: string
  ev_logical_time :: int
  ev_digest :: string

record admission_permit =
  pm_permit_id :: string
  pm_authority :: authority_epoch
  pm_request :: request_attempt
  pm_issued_at :: int
  pm_expires_at :: int
  pm_submission_sequence :: int
  pm_state :: string
  pm_activated_at :: "int option"
  pm_released_at :: "int option"
  pm_terminal_reason :: string
  pm_reservation_bindings :: "(string, string) dict"

definition permit_digest :: "hash \<Rightarrow> admission_permit \<Rightarrow> string" where
  "permit_digest sha p = json_digest sha (JObj
     [(''permit_id'', JStr (pm_permit_id p)), (''authority'', authority_json (pm_authority p)),
      (''request_digest'', JStr (request_digest sha (pm_request p))),
      (''issued_at'', JInt (pm_issued_at p)), (''expires_at'', JInt (pm_expires_at p)),
      (''submission_sequence'', JInt (pm_submission_sequence p))])"

text \<open>The test \<open>permit.state in {"GRANTED", "ACTIVE"}\<close>.\<close>

definition permit_live :: "admission_permit \<Rightarrow> bool" where
  "permit_live p \<longleftrightarrow> pm_state p = ''GRANTED'' \<or> pm_state p = ''ACTIVE''"

definition declarations_conflict ::
  "resource_claim \<Rightarrow> resource_claim \<Rightarrow> resource_declaration \<Rightarrow> bool" where
  "declarations_conflict left right declaration =
     (if claim_key left \<noteq> claim_key right then False
      else decl_exclusive declaration \<or> claim_exclusive left \<or> claim_exclusive right
           \<or> claim_quantity left + claim_quantity right > decl_capacity declaration)"

section \<open>The coordinator\<close>

record coordinator =
  co_authority :: authority_epoch
  co_max_permit_ms :: int
  co_available :: bool
  co_cleanup_only :: bool
  co_declarations :: "(resource_key, resource_declaration) dict"
  co_physical_keys :: "(physical, resource_key) dict"
  co_queued :: "(request_identity, int \<times> request_attempt) dict"
  co_permits :: "(string, admission_permit) dict"
  co_attempt_permits :: "(request_identity, string) dict"
  co_events :: "ledger_event list"
  co_event_digests :: "(string, string) dict"
  co_sequence :: int
  co_submission_sequence :: int

definition coord_init :: "authority_epoch \<Rightarrow> int \<Rightarrow> py_error + coordinator" where
  "coord_init authority max_permit_ms =
     (if max_permit_ms \<le> 0 then Inl (ValueError ''max_permit_ms must be positive'')
      else Inr \<lparr>co_authority = authority, co_max_permit_ms = max_permit_ms, co_available = True,
                co_cleanup_only = False, co_declarations = [], co_physical_keys = [],
                co_queued = [], co_permits = [], co_attempt_permits = [], co_events = [],
                co_event_digests = [], co_sequence = 0, co_submission_sequence = 0\<rparr>)"

definition identity_json :: "request_identity option \<Rightarrow> json" where
  "identity_json i = (case i of None \<Rightarrow> JNull
     | Some (requester, request_id, attempt) \<Rightarrow> JList [JStr requester, JStr request_id, JInt attempt])"

definition event_body :: "ledger_event \<Rightarrow> json" where
  "event_body e = JObj
     [(''event_id'', JStr (ev_event_id e)), (''sequence'', JInt (ev_sequence e)),
      (''event_kind'', JStr (ev_event_kind e)),
      (''authority_digest'', JStr (ev_authority_digest e)),
      (''request_identity'', identity_json (ev_request_identity e)),
      (''subject_digest'', JStr (ev_subject_digest e)),
      (''causal_predecessor'', JStr (ev_causal_predecessor e)),
      (''logical_time'', JInt (ev_logical_time e))]"

text \<open>
  \<open>_append\<close>. Its optional argument \<open>event_id\<close> is never passed, so the identifier is always the
  first 32 characters of a digest; if that identifier is taken, the append returns the event
  that has it or raises.
\<close>

definition new_event :: "hash \<Rightarrow> string \<Rightarrow> int \<Rightarrow> json \<Rightarrow> request_identity option \<Rightarrow> coordinator \<Rightarrow> ledger_event" where
  "new_event sha kind logical_time subject request c =
     (let subject_digest = (case subject of JStr s \<Rightarrow> s | _ \<Rightarrow> json_digest sha subject);
          predecessor = (if co_events c = [] then ''GENESIS'' else ev_digest (last (co_events c)));
          sequence = co_sequence c + 1;
          eid = take 32 (json_digest sha (JObj
                  [(''scope'', JStr (ae_scope (co_authority c))), (''sequence'', JInt sequence),
                   (''kind'', JStr kind), (''subject'', JStr subject_digest)]));
          event = \<lparr>ev_event_id = eid, ev_sequence = sequence, ev_event_kind = kind,
                   ev_authority_digest = authority_digest sha (co_authority c),
                   ev_request_identity = request, ev_subject_digest = subject_digest,
                   ev_causal_predecessor = predecessor, ev_logical_time = logical_time,
                   ev_digest = []\<rparr>
      in event\<lparr>ev_digest := json_digest sha (event_body event)\<rparr>)"

definition coord_append ::
  "hash \<Rightarrow> string \<Rightarrow> int \<Rightarrow> json \<Rightarrow> request_identity option \<Rightarrow> coordinator
     \<Rightarrow> (ledger_event, coordinator) outcome" where
  "coord_append sha kind logical_time subject request c =
     (let event = new_event sha kind logical_time subject request c in
      case dict_get (co_event_digests c) (ev_event_id event) of
        Some previous \<Rightarrow>
          if previous \<noteq> ev_digest event
          then (Inl (RuntimeError ''conflicting duplicate ledger event''), c)
          else (case find (\<lambda>e. ev_event_id e = ev_event_id event) (co_events c) of
                  None \<Rightarrow> (Inl (RuntimeError ''StopIteration''), c)
                | Some e \<Rightarrow> (Inr e, c))
      | None \<Rightarrow>
          (Inr event, c\<lparr>co_events := co_events c @ [event],
                       co_event_digests := dict_set (ev_event_id event) (ev_digest event) (co_event_digests c),
                       co_sequence := ev_sequence event\<rparr>))"

definition coord_log ::
  "hash \<Rightarrow> string \<Rightarrow> int \<Rightarrow> json \<Rightarrow> request_identity option \<Rightarrow> 'a \<Rightarrow> coordinator
     \<Rightarrow> ('a, coordinator) outcome" where
  "coord_log sha kind logical_time subject request result c =
     and_then (coord_append sha kind logical_time subject request c) (\<lambda>_ c. (Inr result, c))"

definition claim_live :: "resource_key \<Rightarrow> coordinator \<Rightarrow> bool" where
  "claim_live key c \<longleftrightarrow> (\<exists>p \<in> set (dict_values (co_permits c)).
     permit_live p \<and> (\<exists>claim \<in> set (ra_claims (pm_request p)). claim_key claim = key))"

fun coord_register_declarations ::
  "hash \<Rightarrow> int \<Rightarrow> resource_declaration list \<Rightarrow> coordinator \<Rightarrow> (unit, coordinator) outcome" where
  "coord_register_declarations sha logical_time [] c = (Inr (), c)"
| "coord_register_declarations sha logical_time (d # ds) c =
     (let key = decl_key d;
          physical = physical_identity key;
          existing_key = dict_get (co_physical_keys c) physical;
          existing = dict_get (co_declarations c) key
      in if provider_boot_epoch key = []
         then (Inl (ValueError ''resource declaration lacks provider boot epoch''), c)
         else if existing_key \<noteq> None \<and> existing_key \<noteq> Some key
         then (Inl (ValueError ''aliased physical resource declaration''), c)
         else if existing \<noteq> None
              \<and> decl_declaration_digest (the existing) = decl_declaration_digest d
         then coord_register_declarations sha logical_time ds c
         else if existing \<noteq> None \<and> decl_resource_sequence d \<le> decl_resource_sequence (the existing)
         then (Inl (RuntimeError ''stale or conflicting resource declaration''), c)
         else if existing \<noteq> None \<and> claim_live key c
         then (Inl (RuntimeError ''cannot reinterpret a live resource''), c)
         else and_then
                (coord_append sha ''DECLARATION'' logical_time (JStr (decl_declaration_digest d)) None
                  (c\<lparr>co_declarations := dict_set key d (co_declarations c),
                     co_physical_keys := dict_set physical key (co_physical_keys c)\<rparr>))
                (\<lambda>_ c. coord_register_declarations sha logical_time ds c))"

fun validate_claims :: "coordinator \<Rightarrow> resource_claim list \<Rightarrow> py_error + unit" where
  "validate_claims c [] = Inr ()"
| "validate_claims c (claim # claims) =
     (case dict_get (co_declarations c) (claim_key claim) of
        None \<Rightarrow> Inl (RuntimeError ''unknown or unverifiable resource declaration'')
      | Some d \<Rightarrow>
          if claim_quantity claim > decl_capacity d
          then Inl (RuntimeError ''resource claim exceeds authoritative capacity'')
          else if decl_exclusive d \<and> \<not> claim_exclusive claim
          then Inl (RuntimeError ''requester cannot weaken Provider exclusivity'')
          else validate_claims c claims)"

definition validate_attempt :: "coordinator \<Rightarrow> request_attempt \<Rightarrow> py_error + unit" where
  "validate_attempt c r =
     (if ra_capability r \<noteq> CAPABILITY
      then Inl (RuntimeError ''exclusive admission capability mismatch'')
      else validate_claims c (ra_claims r))"

definition coord_submit ::
  "hash \<Rightarrow> request_attempt \<Rightarrow> int \<Rightarrow> coordinator \<Rightarrow> (string, coordinator) outcome" where
  "coord_submit sha request now c =
     (case validate_attempt c request of
        Inl e \<Rightarrow> (Inl e, c)
      | Inr _ \<Rightarrow>
          if now \<ge> ra_absolute_deadline request then (Inr ''DEADLINE_EXPIRED'', c)
          else let existing_permit = dict_get (co_attempt_permits c) (identity request) in
          if existing_permit \<noteq> None \<and> existing_permit \<noteq> Some []
          then (case dict_get (co_permits c) (the existing_permit) of
                  None \<Rightarrow> (Inl KeyError, c)
                | Some permit \<Rightarrow>
                    if request_digest sha (pm_request permit) \<noteq> request_digest sha request
                    then (Inl (RuntimeError ''conflicting duplicate request attempt''), c)
                    else (Inr (pm_state permit), c))
          else (case dict_get (co_queued c) (identity request) of
                  Some (_, queued) \<Rightarrow>
                    if request_digest sha queued \<noteq> request_digest sha request
                    then (Inl (RuntimeError ''conflicting duplicate request attempt''), c)
                    else (Inr ''QUEUED'', c)
                | None \<Rightarrow>
                    (let n = co_submission_sequence c + 1 in
                     coord_log sha ''SUBMIT'' now (JStr (request_digest sha request))
                       (Some (identity request)) ''QUEUED''
                       (c\<lparr>co_submission_sequence := n,
                          co_queued := dict_set (identity request) (n, request) (co_queued c)\<rparr>))))"

text \<open>
  \<open>_requests_conflict\<close>: the dictionary of the right request's claims, then a loop over the
  left request's claims that reads the declaration of a shared key.
\<close>

fun claims_conflict ::
  "coordinator \<Rightarrow> (resource_key, resource_claim) dict \<Rightarrow> resource_claim list \<Rightarrow> py_error + bool" where
  "claims_conflict c right_by_key [] = Inr False"
| "claims_conflict c right_by_key (claim # claims) =
     (case dict_get right_by_key (claim_key claim) of
        None \<Rightarrow> claims_conflict c right_by_key claims
      | Some other \<Rightarrow>
          (case dict_get (co_declarations c) (claim_key claim) of
             None \<Rightarrow> Inl KeyError
           | Some d \<Rightarrow> if declarations_conflict claim other d then Inr True
                       else claims_conflict c right_by_key claims))"

definition requests_conflict :: "coordinator \<Rightarrow> request_attempt \<Rightarrow> request_attempt \<Rightarrow> py_error + bool" where
  "requests_conflict c left right =
     claims_conflict c (dict_of_list (map (\<lambda>claim. (claim_key claim, claim)) (ra_claims right)))
       (ra_claims left)"

fun any_conflict :: "coordinator \<Rightarrow> request_attempt \<Rightarrow> request_attempt list \<Rightarrow> py_error + bool" where
  "any_conflict c request [] = Inr False"
| "any_conflict c request (other # others) =
     (case requests_conflict c request other of
        Inl e \<Rightarrow> Inl e
      | Inr b \<Rightarrow> if b then Inr True else any_conflict c request others)"

text \<open>\<open>expire\<close>: a loop over the permits in insertion order.\<close>

fun expire_loop ::
  "hash \<Rightarrow> int \<Rightarrow> string list \<Rightarrow> int \<Rightarrow> coordinator \<Rightarrow> (int, coordinator) outcome" where
  "expire_loop sha now [] expired c = (Inr expired, c)"
| "expire_loop sha now (pid # pids) expired c =
     (case dict_get (co_permits c) pid of
        None \<Rightarrow> expire_loop sha now pids expired c
      | Some p \<Rightarrow>
          if permit_live p \<and> now \<ge> pm_expires_at p
          then (let q = p\<lparr>pm_state := ''RELEASED'', pm_released_at := Some now,
                          pm_terminal_reason := ''LEASE_EXPIRED''\<rparr>
                in and_then
                     (coord_append sha ''LEASE_EXPIRED'' now (JStr (permit_digest sha q))
                        (Some (identity (pm_request q)))
                        (c\<lparr>co_permits := dict_set pid q (co_permits c)\<rparr>))
                     (\<lambda>_ c. expire_loop sha now pids (expired + 1) c))
          else expire_loop sha now pids expired c)"

definition coord_expire :: "hash \<Rightarrow> int \<Rightarrow> coordinator \<Rightarrow> (int, coordinator) outcome" where
  "coord_expire sha now c = expire_loop sha now (dict_keys (co_permits c)) 0 c"

definition queue_order :: "int \<times> request_attempt \<Rightarrow> int \<times> string \<times> string \<times> int" where
  "queue_order = (\<lambda>(n, r). (n, ra_requester_identity r, ra_request_id r, ra_attempt r))"

text \<open>\<open>grant_next\<close>: the loop that selects, then the loop that issues the permits.\<close>

fun grant_select ::
  "hash \<Rightarrow> int \<Rightarrow> request_attempt list \<Rightarrow> (int \<times> request_attempt) list \<Rightarrow> (int \<times> request_attempt) list
     \<Rightarrow> coordinator \<Rightarrow> ((int \<times> request_attempt) list, coordinator) outcome" where
  "grant_select sha now live selected [] c = (Inr selected, c)"
| "grant_select sha now live selected ((n, request) # queue) c =
     (if now \<ge> ra_absolute_deadline request
      then and_then
             (coord_append sha ''DEADLINE_EXPIRED'' now (JStr (request_digest sha request))
                (Some (identity request))
                (c\<lparr>co_queued := dict_pop (identity request) (co_queued c)\<rparr>))
             (\<lambda>_ c. grant_select sha now live selected queue c)
      else case any_conflict c request (live @ map snd selected) of
             Inl e \<Rightarrow> (Inl e, c)
           | Inr True \<Rightarrow> grant_select sha now live selected queue c
           | Inr False \<Rightarrow> grant_select sha now live (selected @ [(n, request)]) queue c)"

definition new_permit ::
  "hash \<Rightarrow> authority_epoch \<Rightarrow> int \<Rightarrow> int \<Rightarrow> int \<Rightarrow> int \<Rightarrow> request_attempt \<Rightarrow> admission_permit" where
  "new_permit sha authority now permit_ms max_permit_ms n request =
     \<lparr>pm_permit_id = take 32 (json_digest sha (JObj
        [(''authority'', JStr (authority_digest sha authority)),
         (''request'', JStr (request_digest sha request)), (''submission'', JInt n)])),
      pm_authority = authority, pm_request = request, pm_issued_at = now,
      pm_expires_at = min (ra_absolute_deadline request) (now + min permit_ms max_permit_ms),
      pm_submission_sequence = n, pm_state = ''GRANTED'', pm_activated_at = None,
      pm_released_at = None, pm_terminal_reason = [], pm_reservation_bindings = []\<rparr>"

fun grant_issue ::
  "hash \<Rightarrow> authority_epoch \<Rightarrow> int \<Rightarrow> int \<Rightarrow> (int \<times> request_attempt) list \<Rightarrow> admission_permit list
     \<Rightarrow> coordinator \<Rightarrow> (admission_permit list, coordinator) outcome" where
  "grant_issue sha authority now permit_ms [] result c = (Inr result, c)"
| "grant_issue sha authority now permit_ms ((n, request) # selected) result c =
     (let permit = new_permit sha authority now permit_ms (co_max_permit_ms c) n request in
      and_then
        (coord_append sha ''GRANT'' now (JStr (permit_digest sha permit)) (Some (identity request))
           (c\<lparr>co_permits := dict_set (pm_permit_id permit) permit (co_permits c),
              co_attempt_permits :=
                dict_set (identity request) (pm_permit_id permit) (co_attempt_permits c),
              co_queued := dict_pop (identity request) (co_queued c)\<rparr>))
        (\<lambda>_ c. grant_issue sha authority now permit_ms selected (result @ [permit]) c))"

definition live_requests :: "coordinator \<Rightarrow> request_attempt list" where
  "live_requests c = map pm_request (filter permit_live (dict_values (co_permits c)))"

definition coord_grant_next ::
  "hash \<Rightarrow> authority_epoch \<Rightarrow> int \<Rightarrow> int \<Rightarrow> coordinator \<Rightarrow> (admission_permit list, coordinator) outcome" where
  "coord_grant_next sha authority now permit_ms c =
     (if authority \<noteq> co_authority c
      then (Inl (RuntimeError ''stale or competing authority epoch''), c)
      else if \<not> co_available c \<or> co_cleanup_only c
      then (Inl (RuntimeError ''authority unavailable for new admission''), c)
      else if permit_ms \<le> 0 then (Inl (ValueError ''permit_ms must be positive''), c)
      else and_then (coord_expire sha now c) (\<lambda>_ c.
           and_then (grant_select sha now (live_requests c) []
                       (sort_key queue_order (dict_values (co_queued c))) c) (\<lambda>selected c.
           grant_issue sha authority now permit_ms selected [] c)))"

text \<open>
  \<open>activate\<close>. A reservation binding is a dictionary of decoded JSON values; \<open>rep\<close> is the
  \<open>repr\<close> of a list or a dictionary, which only \<open>str(reservation_id)\<close> can need.
\<close>

type_synonym binding = "(string, json) dict"

text \<open>
  \<open>tuple(v) == identity\<close>: the characters of a string and the keys of a dictionary never end in
  an integer; a value that is not iterable raises.
\<close>

definition identity_matches :: "json option \<Rightarrow> request_identity \<Rightarrow> py_error + bool" where
  "identity_matches v i = (case v of
       None \<Rightarrow> Inr False
     | Some (JList [JStr a, JStr b, n]) \<Rightarrow>
         Inr (a = fst i \<and> b = fst (snd i) \<and> py_eq_int n (snd (snd i)))
     | Some (JList _) \<Rightarrow> Inr False
     | Some (JStr _) \<Rightarrow> Inr False
     | Some (JObj _) \<Rightarrow> Inr False
     | Some _ \<Rightarrow> Inl (TypeError ''object is not iterable''))"

definition binding_authorizes :: "binding \<Rightarrow> request_identity \<Rightarrow> resource_claim \<Rightarrow> py_error + bool" where
  "binding_authorizes b request claim =
     sum_then (identity_matches (dict_get b ''request_identity'') request) (\<lambda>same.
       if \<not> same then Inr False
       else if dict_get b ''provider_boot_epoch''
               \<noteq> Some (JStr (provider_boot_epoch (claim_key claim))) then Inr False
       else if \<not> (case dict_get b ''live'' of None \<Rightarrow> False | Some v \<Rightarrow> py_truth v) then Inr False
       else sum_then (case dict_get b ''quantity'' of None \<Rightarrow> Inr 0 | Some v \<Rightarrow> py_int v)
              (\<lambda>quantity. Inr (quantity \<ge> claim_quantity claim)))"

fun validate_bindings ::
  "hash \<Rightarrow> (json \<Rightarrow> string) \<Rightarrow> (string, binding) dict \<Rightarrow> request_identity \<Rightarrow> resource_claim list
     \<Rightarrow> (string, string) dict \<Rightarrow> py_error + (string, string) dict" where
  "validate_bindings sha rep bindings request [] validated = Inr validated"
| "validate_bindings sha rep bindings request (claim # claims) validated =
     (let sid = stable_id sha (claim_key claim) in
      case dict_get bindings sid of
        None \<Rightarrow> Inl (RuntimeError ''partial reservation set cannot execute'')
      | Some b \<Rightarrow>
          if b = [] then Inl (RuntimeError ''partial reservation set cannot execute'')
          else sum_then (binding_authorizes b request claim) (\<lambda>ok.
            if \<not> ok then Inl (RuntimeError ''reservation binding does not authorize claim'')
            else sum_then (text_field (case dict_get b ''reservation_id'' of
                                         None \<Rightarrow> ''None'' | Some v \<Rightarrow> py_str rep v) ''reservation_id'')
              (\<lambda>rid. validate_bindings sha rep bindings request claims (dict_set sid rid validated))))"

definition coord_activate ::
  "hash \<Rightarrow> (json \<Rightarrow> string) \<Rightarrow> string \<Rightarrow> (string, binding) dict \<Rightarrow> int \<Rightarrow> coordinator
     \<Rightarrow> (admission_permit, coordinator) outcome" where
  "coord_activate sha rep permit_id bindings now c =
     (case dict_get (co_permits c) permit_id of
        None \<Rightarrow> (Inl (RuntimeError ''permit is not activatable''), c)
      | Some permit \<Rightarrow>
          if \<not> permit_live permit then (Inl (RuntimeError ''permit is not activatable''), c)
          else if pm_state permit = ''ACTIVE'' then (Inr permit, c)
          else if now \<ge> pm_expires_at permit
          then and_then (coord_expire sha now c)
                 (\<lambda>_ c. (Inl (RuntimeError ''permit expired before activation''), c))
          else case validate_bindings sha rep bindings (identity (pm_request permit))
                      (ra_claims (pm_request permit)) [] of
                 Inl e \<Rightarrow> (Inl e, c)
               | Inr validated \<Rightarrow>
                   (let p = permit\<lparr>pm_reservation_bindings := validated, pm_state := ''ACTIVE'',
                                   pm_activated_at := Some now\<rparr>
                    in coord_log sha ''ACTIVATE'' now (JStr (permit_digest sha p))
                         (Some (identity (pm_request p))) p
                         (c\<lparr>co_permits := dict_set permit_id p (co_permits c)\<rparr>)))"

text \<open>\<open>release\<close> moves the permit to RELEASED before it looks at the reason.\<close>

definition coord_release ::
  "hash \<Rightarrow> string \<Rightarrow> int \<Rightarrow> string \<Rightarrow> coordinator \<Rightarrow> (bool, coordinator) outcome" where
  "coord_release sha permit_id now reason c =
     (case dict_get (co_permits c) permit_id of
        None \<Rightarrow> (Inr False, c)
      | Some permit \<Rightarrow>
          if pm_state permit \<in> set [''RELEASED'', ''REJECTED'', ''DEADLINE_EXPIRED'']
          then (Inr False, c)
          else let p = permit\<lparr>pm_state := ''RELEASED'', pm_released_at := Some now\<rparr> in
            case text_field reason ''reason'' of
              Inl e \<Rightarrow> (Inl e, c\<lparr>co_permits := dict_set permit_id p (co_permits c)\<rparr>)
            | Inr text \<Rightarrow>
                (let q = p\<lparr>pm_terminal_reason := text\<rparr> in
                 coord_log sha ''RELEASE'' now
                   (JObj [(''permit'', JStr (permit_digest sha q)), (''reason'', JStr reason)])
                   (Some (identity (pm_request q))) True
                   (c\<lparr>co_permits := dict_set permit_id q (co_permits c)\<rparr>)))"

definition coord_set_available ::
  "hash \<Rightarrow> bool \<Rightarrow> bool \<Rightarrow> int \<Rightarrow> coordinator \<Rightarrow> (unit, coordinator) outcome" where
  "coord_set_available sha available cleanup_only now c =
     coord_log sha ''AUTHORITY_MODE'' now
       (JObj [(''available'', JBool available), (''cleanup_only'', JBool cleanup_only)]) None ()
       (c\<lparr>co_available := available, co_cleanup_only := cleanup_only\<rparr>)"

definition coord_rotate_authority ::
  "hash \<Rightarrow> authority_epoch \<Rightarrow> int \<Rightarrow> coordinator \<Rightarrow> (unit, coordinator) outcome" where
  "coord_rotate_authority sha authority now c =
     (if ae_scope authority \<noteq> ae_scope (co_authority c)
      then (Inl (ValueError ''authority scope changed''), c)
      else if ae_epoch authority \<le> ae_epoch (co_authority c)
      then (Inl (RuntimeError ''stale or competing authority epoch''), c)
      else if \<exists>p \<in> set (dict_values (co_permits c)). permit_live p
      then (Inl (RuntimeError ''cannot rotate authority with live permits''), c)
      else coord_log sha ''AUTHORITY_ROTATE'' now (JStr (authority_digest sha authority)) None ()
             (c\<lparr>co_authority := authority\<rparr>))"

record ownership_interval =
  oi_resource :: string
  oi_request_identity :: request_identity
  oi_start :: int
  oi_end :: int
  oi_quantity :: int

definition permit_intervals :: "hash \<Rightarrow> admission_permit \<Rightarrow> ownership_interval list" where
  "permit_intervals sha p = (case pm_activated_at p of
       None \<Rightarrow> []
     | Some start \<Rightarrow>
         (let finish = (case pm_released_at p of Some t \<Rightarrow> t | None \<Rightarrow> pm_expires_at p) in
          map (\<lambda>claim. \<lparr>oi_resource = stable_id sha (claim_key claim),
                        oi_request_identity = identity (pm_request p), oi_start = start,
                        oi_end = finish, oi_quantity = claim_quantity claim\<rparr>)
            (ra_claims (pm_request p))))"

definition ownership_intervals :: "hash \<Rightarrow> coordinator \<Rightarrow> ownership_interval list" where
  "ownership_intervals sha c = concat (map (permit_intervals sha) (dict_values (co_permits c)))"

text \<open>
  \<open>assert_safe\<close> groups the intervals by resource and compares the pairs of each group; that is
  a comparison of all pairs with equal resource.
\<close>

definition intervals_overlap :: "ownership_interval \<Rightarrow> ownership_interval \<Rightarrow> bool" where
  "intervals_overlap left right \<longleftrightarrow> oi_resource left = oi_resource right
     \<and> max (oi_start left) (oi_start right) < min (oi_end left) (oi_end right)"

fun pairs_overlap :: "ownership_interval list \<Rightarrow> bool" where
  "pairs_overlap [] = False"
| "pairs_overlap (i # is) = ((\<exists>j \<in> set is. intervals_overlap i j) \<or> pairs_overlap is)"

definition coord_assert_safe :: "hash \<Rightarrow> coordinator \<Rightarrow> py_error + unit" where
  "coord_assert_safe sha c =
     (if pairs_overlap (ownership_intervals sha c)
      then Inl (AssertionError ''overlapping exclusive ownership intervals'') else Inr ())"

section \<open>Steps\<close>

text \<open>
  One rule per method, for calls that return and for calls that raise. The arguments are
  objects that their constructors have built: the constructor maps such an object to itself
  (lemma \<open>constructed_made\<close>).
\<close>

definition key_made :: "resource_key \<Rightarrow> bool" where
  "key_made k \<longleftrightarrow> make_resource_key k = Inr k"

definition declaration_made :: "hash \<Rightarrow> resource_declaration \<Rightarrow> bool" where
  "declaration_made sha d \<longleftrightarrow> key_made (decl_key d) \<and> make_declaration sha d = Inr d"

definition claim_made :: "resource_claim \<Rightarrow> bool" where
  "claim_made c \<longleftrightarrow> key_made (claim_key c) \<and> make_claim c = Inr c"

definition request_made :: "request_attempt \<Rightarrow> bool" where
  "request_made r \<longleftrightarrow> (\<forall>c \<in> set (ra_claims r). claim_made c) \<and> make_request r = Inr r"

definition authority_made :: "authority_epoch \<Rightarrow> bool" where
  "authority_made a \<longleftrightarrow> make_authority a = Inr a"

definition coord_start :: "coordinator \<Rightarrow> bool" where
  "coord_start c \<longleftrightarrow> (\<exists>authority max_permit_ms. authority_made authority
     \<and> coord_init authority max_permit_ms = Inr c)"

inductive coord_step :: "hash \<Rightarrow> (json \<Rightarrow> string) \<Rightarrow> coordinator \<Rightarrow> coordinator \<Rightarrow> bool"
  for sha rep where
  register: "\<forall>d \<in> set ds. declaration_made sha d
    \<Longrightarrow> coord_register_declarations sha logical_time ds c = (r, c') \<Longrightarrow> coord_step sha rep c c'"
| submit: "request_made request \<Longrightarrow> coord_submit sha request now c = (r, c')
    \<Longrightarrow> coord_step sha rep c c'"
| grant: "coord_grant_next sha authority now permit_ms c = (r, c') \<Longrightarrow> coord_step sha rep c c'"
| activate: "coord_activate sha rep permit_id bindings now c = (r, c') \<Longrightarrow> coord_step sha rep c c'"
| release: "coord_release sha permit_id now reason c = (r, c') \<Longrightarrow> coord_step sha rep c c'"
| expire: "coord_expire sha now c = (r, c') \<Longrightarrow> coord_step sha rep c c'"
| set_available: "coord_set_available sha available cleanup_only now c = (r, c')
    \<Longrightarrow> coord_step sha rep c c'"
| rotate: "authority_made authority \<Longrightarrow> coord_rotate_authority sha authority now c = (r, c') \<Longrightarrow> coord_step sha rep c c'"


section \<open>Constructors\<close>

lemma dropWhile_space_idem: "dropWhile P (dropWhile P xs) = dropWhile P xs"
  by (induction xs) auto

lemma py_strip_idem [simp]: "py_strip (py_strip s) = py_strip s"
proof -
  let ?t = "dropWhile py_isspace s" and ?u = "dropWhile py_isspace (rev (dropWhile py_isspace s))"
  have head: "rev ?u = [] \<or> \<not> py_isspace (hd (rev ?u))"
  proof (cases "rev ?u = []")
    case False
    have "rev (rev ?t) = rev ?u @ rev (takeWhile py_isspace (rev ?t))"
      by (metis rev_append takeWhile_dropWhile_id)
    then have "hd ?t = hd (rev ?u)" using False by (metis hd_append2 rev_rev_ident)
    moreover have "?t \<noteq> []" using False by (auto dest: set_dropWhileD)
    then have "\<not> py_isspace (hd ?t)" by (rule hd_dropWhile)
    ultimately show ?thesis by simp
  qed simp
  then have "dropWhile py_isspace (rev ?u) = rev ?u"
    by (simp only: dropWhile_eq_self_iff)
  then show ?thesis by (simp add: py_strip_def dropWhile_space_idem)
qed

lemma text_field_idem: "text_field v n = Inr w \<Longrightarrow> text_field w n = Inr w"
  by (auto simp: text_field_def Let_def split: if_splits)

lemma constructed_made:
  "make_resource_key k = Inr k' \<Longrightarrow> key_made k'"
  "make_authority a = Inr a' \<Longrightarrow> authority_made a'"
  "make_request r = Inr r' \<Longrightarrow> make_request r' = Inr r'"
  "make_declaration sha d = Inr d' \<Longrightarrow> make_declaration sha d' = Inr d'"
  by (auto simp: key_made_def make_resource_key_def authority_made_def make_authority_def
      make_request_def make_declaration_def declaration_canonical_digest_def sum_then_Inr Let_def
      text_field_idem split: if_splits)

end
