(* ===== verification/Conflict_Safety.thy ===== *)
theory Conflict_Safety
  imports Conflict_Coordination
begin

text \<open>
  Safety of the conflict coordinator. Every method of the coordinator is a sequence of micro
  steps (\<open>coord_micro\<close>), each of which changes one thing; the lemmas
  \<open>*_micro\<close> show this for each method, including the calls that raise half way. The invariants
  are then proved once per micro step.
\<close>

declare split_paired_All [simp del] split_paired_Ex [simp del]

section \<open>Conflicts\<close>

text \<open>Two requests conflict when two of their claims do, under the declarations of the coordinator.\<close>

definition conflicting :: "coordinator \<Rightarrow> request_attempt \<Rightarrow> request_attempt \<Rightarrow> bool" where
  "conflicting c l r \<longleftrightarrow> (\<exists>a \<in> set (ra_claims l). \<exists>b \<in> set (ra_claims r). \<exists>d.
     claim_key a = claim_key b \<and> dict_get (co_declarations c) (claim_key a) = Some d
     \<and> declarations_conflict a b d)"

definition claims_distinct :: "request_attempt \<Rightarrow> bool" where
  "claims_distinct r \<longleftrightarrow> distinct (map claim_key (ra_claims r))"

lemma declarations_conflict_sym: "declarations_conflict a b d = declarations_conflict b a d"
  by (auto simp: declarations_conflict_def)

lemma conflicting_sym: "conflicting c l r \<longleftrightarrow> conflicting c r l"
  unfolding conflicting_def by (metis declarations_conflict_sym)

lemma conflicting_cong: "co_declarations c' = co_declarations c \<Longrightarrow> conflicting c' l r = conflicting c l r"
  by (simp add: conflicting_def)

lemma dict_get_claims:
  assumes "distinct (map claim_key claims)"
  shows "dict_get (dict_of_list (map (\<lambda>claim. (claim_key claim, claim)) claims)) k = Some b
    \<longleftrightarrow> b \<in> set claims \<and> claim_key b = k"
proof -
  have fold_get: "distinct (map claim_key claims) \<Longrightarrow>
      dict_get (fold (\<lambda>(k, v) d. dict_set k v d) (map (\<lambda>claim. (claim_key claim, claim)) claims) d) k
        = Some b
      \<longleftrightarrow> (b \<in> set claims \<and> claim_key b = k)
          \<or> (k \<notin> set (map claim_key claims) \<and> dict_get d k = Some b)" for d
  proof (induction claims arbitrary: d)
    case Nil
    then show ?case by simp
  next
    case (Cons c cs)
    then have "claim_key c \<notin> claim_key ` set cs" by simp
    with Cons show ?case by (auto simp: dict_simps image_iff)
  qed
  show ?thesis using fold_get [OF assms, of "[]"] by (simp add: dict_of_list_def)
qed

lemma claims_conflict_Inr:
  assumes "claims_conflict c right claims = Inr b"
  shows "b \<longleftrightarrow> (\<exists>a \<in> set claims. \<exists>other d. dict_get right (claim_key a) = Some other
    \<and> dict_get (co_declarations c) (claim_key a) = Some d \<and> declarations_conflict a other d)"
  using assms
  by (induction claims) (auto split: option.splits if_splits)

lemma requests_conflict_Inr:
  assumes "requests_conflict c l r = Inr b" and "claims_distinct r"
  shows "b \<longleftrightarrow> conflicting c l r"
  unfolding conflicting_def
  using claims_conflict_Inr [OF assms(1) [unfolded requests_conflict_def]]
    dict_get_claims [OF assms(2) [unfolded claims_distinct_def]] by (metis (no_types, lifting))

lemma any_conflict_Inr:
  assumes "any_conflict c request others = Inr b" and "\<forall>o' \<in> set others. claims_distinct o'"
  shows "b \<longleftrightarrow> (\<exists>o' \<in> set others. conflicting c request o')"
  using assms
  by (induction others)
    (auto split: sum.splits if_splits dest: requests_conflict_Inr)

section \<open>Micro steps\<close>

lemma coord_append_frame:
  assumes "coord_append sha kind t subject i c = (r, c')"
  shows "co_authority c' = co_authority c" "co_max_permit_ms c' = co_max_permit_ms c"
    "co_available c' = co_available c" "co_cleanup_only c' = co_cleanup_only c"
    "co_declarations c' = co_declarations c" "co_physical_keys c' = co_physical_keys c"
    "co_queued c' = co_queued c" "co_permits c' = co_permits c"
    "co_attempt_permits c' = co_attempt_permits c"
    "co_submission_sequence c' = co_submission_sequence c"
  using assms
  by (auto simp: coord_append_def Let_def split: option.splits if_splits)

lemma coord_append_only:
  assumes "coord_append sha kind t subject i c = (r, c')"
  shows "\<exists>es ds n. c' = c\<lparr>co_events := es, co_event_digests := ds, co_sequence := n\<rparr>"
proof -
  have "c' = c\<lparr>co_events := co_events c', co_event_digests := co_event_digests c',
      co_sequence := co_sequence c'\<rparr>"
    using coord_append_frame [OF assms] by simp
  then show ?thesis by blast
qed

inductive coord_micro :: "hash \<Rightarrow> (json \<Rightarrow> string) \<Rightarrow> coordinator \<Rightarrow> coordinator \<Rightarrow> bool"
  for sha rep where
  append: "coord_append sha kind t subject i c = (r, c') \<Longrightarrow> coord_micro sha rep c c'"
| register: "declaration_made sha d \<Longrightarrow> dict_get (co_declarations c) (decl_key d) = None \<or> \<not> claim_live (decl_key d) c
    \<Longrightarrow> dict_get (co_physical_keys c) (physical_identity (decl_key d)) \<in> {None, Some (decl_key d)}
    \<Longrightarrow> coord_micro sha rep c
          (c\<lparr>co_declarations := dict_set (decl_key d) d (co_declarations c),
             co_physical_keys := dict_set (physical_identity (decl_key d)) (decl_key d) (co_physical_keys c)\<rparr>)"
| enqueue: "request_made request \<Longrightarrow> validate_attempt c request = Inr ()
    \<Longrightarrow> dict_get (co_queued c) (identity request) = None
    \<Longrightarrow> dict_get (co_attempt_permits c) (identity request) \<in> {None, Some []}
    \<Longrightarrow> coord_micro sha rep c
          (c\<lparr>co_submission_sequence := co_submission_sequence c + 1,
             co_queued := dict_set (identity request) (co_submission_sequence c + 1, request) (co_queued c)\<rparr>)"
| dequeue: "coord_micro sha rep c (c\<lparr>co_queued := dict_pop i (co_queued c)\<rparr>)"
| finish: "dict_get (co_permits c) pid = Some p
    \<Longrightarrow> coord_micro sha rep c (c\<lparr>co_permits := dict_set pid (p\<lparr>pm_state := ''RELEASED'',
          pm_released_at := Some now, pm_terminal_reason := reason\<rparr>) (co_permits c)\<rparr>)"
| activate: "dict_get (co_permits c) pid = Some p \<Longrightarrow> pm_state p = ''GRANTED''
    \<Longrightarrow> now < pm_expires_at p
    \<Longrightarrow> validate_bindings sha rep bindings (identity (pm_request p)) (ra_claims (pm_request p)) []
          = Inr validated
    \<Longrightarrow> coord_micro sha rep c (c\<lparr>co_permits := dict_set pid (p\<lparr>pm_reservation_bindings := validated,
          pm_state := ''ACTIVE'', pm_activated_at := Some now\<rparr>) (co_permits c)\<rparr>)"
| grant: "dict_get (co_queued c) (identity request) = Some (n, request)
    \<Longrightarrow> now < ra_absolute_deadline request \<Longrightarrow> 0 < permit_ms
    \<Longrightarrow> \<forall>other \<in> set (live_requests c). \<not> conflicting c request other
    \<Longrightarrow> permit = new_permit sha (co_authority c) now permit_ms (co_max_permit_ms c) n request
    \<Longrightarrow> coord_micro sha rep c
          (c\<lparr>co_permits := dict_set (pm_permit_id permit) permit (co_permits c),
             co_attempt_permits := dict_set (identity request) (pm_permit_id permit) (co_attempt_permits c),
             co_queued := dict_pop (identity request) (co_queued c)\<rparr>)"
| mode: "coord_micro sha rep c (c\<lparr>co_available := available, co_cleanup_only := cleanup_only\<rparr>)"
| rotate: "authority_made authority \<Longrightarrow> ae_scope authority = ae_scope (co_authority c)
    \<Longrightarrow> ae_epoch (co_authority c) < ae_epoch authority \<Longrightarrow> live_requests c = []
    \<Longrightarrow> coord_micro sha rep c (c\<lparr>co_authority := authority\<rparr>)"

text \<open>A change followed by an append is a sequence of micro steps.\<close>

lemma micro_then_append:
  assumes "coord_micro sha rep c c1" and "coord_append sha kind t subject i c1 = (r, c2)"
  shows "(coord_micro sha rep)\<^sup>*\<^sup>* c c2"
  using assms coord_micro.append by (meson r_into_rtranclp rtranclp.rtrancl_into_rtrancl)

lemma micro_then_log:
  assumes "coord_micro sha rep c c1" and "coord_log sha kind t subject i x c1 = (r, c2)"
  shows "(coord_micro sha rep)\<^sup>*\<^sup>* c c2"
  using assms(2) unfolding coord_log_def
  by (cases rule: and_then_cases) (auto intro: micro_then_append [OF assms(1)])

lemma micro_change:
  assumes "coord_micro sha rep c c1" and "coord_append sha kind t subject i c1 = (r, c2)"
    and "(coord_micro sha rep)\<^sup>*\<^sup>* c2 c3"
  shows "(coord_micro sha rep)\<^sup>*\<^sup>* c c3"
  using micro_then_append [OF assms(1,2)] assms(3) by (rule rtranclp_trans)

lemma register_micro:
  "coord_register_declarations sha t ds c = (r, c') \<Longrightarrow> \<forall>d \<in> set ds. declaration_made sha d
    \<Longrightarrow> (coord_micro sha rep)\<^sup>*\<^sup>* c c'"
proof (induction ds arbitrary: c)
  case Nil
  then show ?case by simp
next
  case (Cons d ds)
  let ?c1 = "c\<lparr>co_declarations := dict_set (decl_key d) d (co_declarations c),
    co_physical_keys := dict_set (physical_identity (decl_key d)) (decl_key d) (co_physical_keys c)\<rparr>"
  show ?case
  proof (cases "c' = c \<or> coord_register_declarations sha t ds c = (r, c')")
    case True
    with Cons.IH Cons.prems(2) show ?thesis by auto
  next
    case False
    have guards: "dict_get (co_declarations c) (decl_key d) = None \<or> \<not> claim_live (decl_key d) c"
      "dict_get (co_physical_keys c) (physical_identity (decl_key d)) \<in> {None, Some (decl_key d)}"
      "and_then (coord_append sha ''DECLARATION'' t (JStr (decl_declaration_digest d)) None ?c1)
         (\<lambda>_ c. coord_register_declarations sha t ds c) = (r, c')"
      using Cons.prems(1) False by (auto simp: Let_def split: if_splits)
    have micro: "coord_micro sha rep c ?c1"
      using Cons.prems(2) guards(1,2) by (intro coord_micro.register) auto
    from guards(3) show ?thesis
      by (cases rule: and_then_cases)
        (auto intro: micro_then_append [OF micro] micro_change [OF micro _ Cons.IH] simp: Cons.prems(2))
  qed
qed

lemma submit_micro:
  assumes "request_made request" and "coord_submit sha request now c = (r, c')"
  shows "(coord_micro sha rep)\<^sup>*\<^sup>* c c'"
proof (cases "c' = c")
  case False
  let ?n = "co_submission_sequence c + 1"
  have facts: "validate_attempt c request = Inr ()" "dict_get (co_queued c) (identity request) = None"
    "dict_get (co_attempt_permits c) (identity request) \<in> {None, Some []}"
    "coord_log sha ''SUBMIT'' now (JStr (request_digest sha request)) (Some (identity request)) ''QUEUED''
       (c\<lparr>co_submission_sequence := ?n,
          co_queued := dict_set (identity request) (?n, request) (co_queued c)\<rparr>) = (r, c')"
    using assms(2) False
    by (auto simp: coord_submit_def Let_def split: sum.splits if_splits option.splits prod.splits)
  show ?thesis by (rule micro_then_log [OF coord_micro.enqueue [OF assms(1) facts(1-3)] facts(4)])
qed simp

lemma expire_loop_micro:
  "expire_loop sha now pids n c = (r, c') \<Longrightarrow> (coord_micro sha rep)\<^sup>*\<^sup>* c c'"
proof (induction pids arbitrary: n c)
  case Nil
  then show ?case by simp
next
  case (Cons pid pids)
  show ?case
  proof (cases "\<exists>m. expire_loop sha now pids m c = (r, c')")
    case True
    with Cons.IH show ?thesis by blast
  next
    case False
    then obtain p q where p: "dict_get (co_permits c) pid = Some p"
      and q: "q = p\<lparr>pm_state := ''RELEASED'', pm_released_at := Some now,
        pm_terminal_reason := ''LEASE_EXPIRED''\<rparr>"
      and then': "and_then (coord_append sha ''LEASE_EXPIRED'' now (JStr (permit_digest sha q))
        (Some (identity (pm_request q))) (c\<lparr>co_permits := dict_set pid q (co_permits c)\<rparr>))
        (\<lambda>_ c. expire_loop sha now pids (n + 1) c) = (r, c')"
      using Cons.prems by (auto simp: Let_def split: option.splits if_splits)
    have micro: "coord_micro sha rep c (c\<lparr>co_permits := dict_set pid q (co_permits c)\<rparr>)"
      unfolding q using p by (rule coord_micro.finish)
    from then' show ?thesis
      by (cases rule: and_then_cases)
        (auto intro: micro_then_append [OF micro] micro_change [OF micro _ Cons.IH])
  qed
qed

lemma expire_loop_frame:
  "expire_loop sha now pids n c = (r, c') \<Longrightarrow> co_authority c' = co_authority c
     \<and> co_declarations c' = co_declarations c \<and> co_queued c' = co_queued c
     \<and> co_max_permit_ms c' = co_max_permit_ms c"
proof (induction pids arbitrary: n c)
  case (Cons pid pids)
  then show ?case
    by (auto simp: Let_def split: option.splits if_splits
        elim!: and_then_cases dest!: coord_append_only)
qed simp

lemma expire_micro: "coord_expire sha now c = (r, c') \<Longrightarrow> (coord_micro sha rep)\<^sup>*\<^sup>* c c'"
  unfolding coord_expire_def by (rule expire_loop_micro)

lemma activate_micro:
  assumes "coord_activate sha rep pid bindings now c = (r, c')"
  shows "(coord_micro sha rep)\<^sup>*\<^sup>* c c'"
proof (cases "c' = c")
  case False
  then obtain p where p: "dict_get (co_permits c) pid = Some p" "permit_live p" "pm_state p \<noteq> ''ACTIVE''"
    using assms by (auto simp: coord_activate_def split: option.splits if_splits)
  then have granted: "pm_state p = ''GRANTED''" by (simp add: permit_live_def)
  show ?thesis
  proof (cases "now \<ge> pm_expires_at p")
    case True
    then have "and_then (coord_expire sha now c)
        (\<lambda>_ c. (Inl (RuntimeError ''permit expired before activation''), c)) = (r, c')"
      using assms p by (simp add: coord_activate_def)
    then show ?thesis by (cases rule: and_then_cases) (auto intro: expire_micro)
  next
    case in_time: False
    then obtain validated where v: "validate_bindings sha rep bindings (identity (pm_request p))
        (ra_claims (pm_request p)) [] = Inr validated"
      using assms p False by (auto simp: coord_activate_def split: sum.splits)
    from in_time have "now < pm_expires_at p" by simp
    from micro_then_log [OF coord_micro.activate [OF p(1) granted this v]] show ?thesis
      using assms p in_time v by (simp add: coord_activate_def Let_def)
  qed
qed simp

lemma release_micro:
  assumes "coord_release sha pid now reason c = (r, c')"
  shows "(coord_micro sha rep)\<^sup>*\<^sup>* c c'"
proof (cases "c' = c")
  case False
  then obtain p where p: "dict_get (co_permits c) pid = Some p"
    and state: "pm_state p \<notin> set [''RELEASED'', ''REJECTED'', ''DEADLINE_EXPIRED'']"
    using assms by (auto simp: coord_release_def split: option.splits if_splits)
  note micro = coord_micro.finish [OF p, where now = now]
  show ?thesis
  proof (cases "text_field reason ''reason''")
    case (Inl e)
    have "p\<lparr>pm_state := ''RELEASED'', pm_released_at := Some now\<rparr>
        = p\<lparr>pm_state := ''RELEASED'', pm_released_at := Some now,
            pm_terminal_reason := pm_terminal_reason p\<rparr>" by simp
    with micro [where reason = "pm_terminal_reason p"] assms p state Inl show ?thesis
      by (simp add: coord_release_def Let_def r_into_rtranclp)
  next
    case (Inr stripped)
    from micro_then_log [OF micro [where reason = stripped]] show ?thesis
      using assms p state Inr by (simp add: coord_release_def Let_def)
  qed
qed simp


lemma coord_log_frame_micro:
  assumes "coord_log sha kind t subject i x c = (r, c')"
  shows "(coord_micro sha rep)\<^sup>*\<^sup>* c c'"
  using assms unfolding coord_log_def
  by (cases rule: and_then_cases) (auto intro: coord_micro.append)

lemma set_available_micro:
  "coord_set_available sha a b now c = (r, c') \<Longrightarrow> (coord_micro sha rep)\<^sup>*\<^sup>* c c'"
  unfolding coord_set_available_def by (rule micro_then_log [OF coord_micro.mode])

lemma rotate_micro:
  assumes "authority_made authority" and "coord_rotate_authority sha authority now c = (r, c')"
  shows "(coord_micro sha rep)\<^sup>*\<^sup>* c c'"
proof (cases "c' = c")
  case False
  then have "ae_scope authority = ae_scope (co_authority c)" "ae_epoch (co_authority c) < ae_epoch authority"
    "live_requests c = []"
    "coord_log sha ''AUTHORITY_ROTATE'' now (JStr (authority_digest sha authority)) None ()
       (c\<lparr>co_authority := authority\<rparr>) = (r, c')"
    using assms by (auto simp: coord_rotate_authority_def live_requests_def filter_empty_conv split: if_splits)
  with assms(1) show ?thesis by (blast intro: micro_then_log coord_micro.rotate)
qed simp

section \<open>Selecting and issuing\<close>

text \<open>What the queue of the coordinator keeps, and a queue whose entries wait under their own identity.\<close>

definition queue_ok :: "coordinator \<Rightarrow> bool" where
  "queue_ok c \<longleftrightarrow> dict_ok (co_queued c) \<and> dict_ok (co_permits c)
     \<and> dict_all (\<lambda>i (n, request). identity request = i \<and> claims_distinct request) (co_queued c)
     \<and> dict_all (\<lambda>i p. claims_distinct (pm_request p)) (co_permits c)"

lemma queue_okD:
  assumes "queue_ok c"
  shows "dict_ok (co_queued c)" "dict_ok (co_permits c)"
    "dict_get (co_queued c) i = Some (n, request) \<Longrightarrow> identity request = i"
    "dict_get (co_queued c) i = Some (n, request) \<Longrightarrow> claims_distinct request"
    "dict_get (co_permits c) pid = Some p \<Longrightarrow> claims_distinct (pm_request p)"
  using assms by (auto simp: queue_ok_def dest: dict_allD)

lemma live_requests_iff:
  "dict_ok (co_permits c) \<Longrightarrow> request \<in> set (live_requests c)
    \<longleftrightarrow> (\<exists>i p. dict_get (co_permits c) i = Some p \<and> permit_live p \<and> request = pm_request p)"
  by (force simp: live_requests_def dict_get_iff)

lemma queue_values:
  assumes "queue_ok c"
  shows "distinct (map (identity \<circ> snd) (sort_key queue_order (dict_values (co_queued c))))"
    and "(n, request) \<in> set (sort_key queue_order (dict_values (co_queued c)))
      \<longleftrightarrow> dict_get (co_queued c) (identity request) = Some (n, request)"
proof -
  note ok = queue_okD(1) [OF assms]
  have keys: "identity request = i" if "(i, (n, request)) \<in> set (co_queued c)" for i n request
    using queue_okD(3) [OF assms] that ok by (simp add: dict_get_iff)
  have "map (identity \<circ> snd) (dict_values (co_queued c)) = dict_keys (co_queued c)"
    using keys by (force simp: comp_def)
  then have "distinct (map (identity \<circ> snd) (dict_values (co_queued c)))"
    using ok by (simp only: dict_ok_def)
  then show "distinct (map (identity \<circ> snd) (sort_key queue_order (dict_values (co_queued c))))"
    by (metis distinct_map distinct_sort set_sort)
  show "(n, request) \<in> set (sort_key queue_order (dict_values (co_queued c)))
      \<longleftrightarrow> dict_get (co_queued c) (identity request) = Some (n, request)"
    using keys by (force simp: dict_get_iff [OF ok])
qed

lemma grant_select_micro:
  "grant_select sha now live selected queue c = (r, c') \<Longrightarrow> (coord_micro sha rep)\<^sup>*\<^sup>* c c'"
proof (induction queue arbitrary: selected c)
  case Nil
  then show ?case by simp
next
  case (Cons q queue)
  obtain n request where q: "q = (n, request)" by (cases q)
  show ?case
  proof (cases "now \<ge> ra_absolute_deadline request")
    case True
    note micro = coord_micro.dequeue [of sha rep c "identity request"]
    from True Cons.prems q have "and_then (coord_append sha ''DEADLINE_EXPIRED'' now
        (JStr (request_digest sha request)) (Some (identity request))
        (c\<lparr>co_queued := dict_pop (identity request) (co_queued c)\<rparr>))
        (\<lambda>_ c. grant_select sha now live selected queue c) = (r, c')" by simp
    then show ?thesis
      by (cases rule: and_then_cases)
        (auto intro: micro_then_append [OF micro] micro_change [OF micro _ Cons.IH])
  next
    case False
    with Cons.prems q Cons.IH show ?thesis by (auto split: sum.splits bool.splits)
  qed
qed

text \<open>What the selection keeps, and what it selects.\<close>

definition select_ok ::
  "coordinator \<Rightarrow> int \<Rightarrow> request_attempt list \<Rightarrow> (int \<times> request_attempt) list \<Rightarrow> bool" where
  "select_ok c now live selected \<longleftrightarrow>
     distinct (map (identity \<circ> snd) selected)
     \<and> (\<forall>x \<in> set selected. now < ra_absolute_deadline (snd x) \<and> claims_distinct (snd x)
          \<and> dict_get (co_queued c) (identity (snd x)) = Some x
          \<and> (\<forall>other \<in> set live. \<not> conflicting c (snd x) other))
     \<and> (\<forall>x \<in> set selected. \<forall>y \<in> set selected. x \<noteq> y \<longrightarrow> \<not> conflicting c (snd x) (snd y))"

lemma grant_select_frame:
  "grant_select sha now live selected queue c = (r, c')
    \<Longrightarrow> co_declarations c' = co_declarations c \<and> co_permits c' = co_permits c
      \<and> co_attempt_permits c' = co_attempt_permits c \<and> co_authority c' = co_authority c
      \<and> co_max_permit_ms c' = co_max_permit_ms c
      \<and> (\<forall>i. dict_get (co_queued c') i = None \<or> dict_get (co_queued c') i = dict_get (co_queued c) i)"
proof (induction queue arbitrary: selected c)
  case (Cons q queue)
  obtain n request where q: "q = (n, request)" by (cases q)
  show ?case
  proof (cases "now \<ge> ra_absolute_deadline request")
    case True
    with Cons.prems q have "and_then (coord_append sha ''DEADLINE_EXPIRED'' now
        (JStr (request_digest sha request)) (Some (identity request))
        (c\<lparr>co_queued := dict_pop (identity request) (co_queued c)\<rparr>))
        (\<lambda>_ c. grant_select sha now live selected queue c) = (r, c')" by simp
    then show ?thesis
      by (cases rule: and_then_cases)
        (auto dest!: Cons.IH coord_append_only simp: dict_simps split: if_splits)
  next
    case False
    with Cons.prems q Cons.IH show ?thesis by (auto split: sum.splits bool.splits)
  qed
qed simp

lemma grant_select_ok:
  assumes "grant_select sha now live selected queue c = (Inr sel, c')"
    and "select_ok c now live selected"
    and "distinct (map (identity \<circ> snd) (selected @ queue))"
    and "\<forall>x \<in> set queue. dict_get (co_queued c) (identity (snd x)) = Some x \<and> claims_distinct (snd x)"
    and "\<forall>other \<in> set live. claims_distinct other"
  shows "select_ok c' now live sel \<and> set selected \<subseteq> set sel
    \<and> (\<forall>x \<in> set queue. x \<in> set sel \<or> dict_get (co_queued c') (identity (snd x)) = None
        \<or> (\<exists>other \<in> set live \<union> snd ` set sel. conflicting c (snd x) other))
    \<and> (\<forall>i. i \<notin> (identity \<circ> snd) ` set queue \<longrightarrow> dict_get (co_queued c') i = dict_get (co_queued c) i)"
  using assms
proof (induction queue arbitrary: selected c)
  case Nil
  then show ?case by simp
next
  case (Cons q queue)
  obtain n request where q: "q = (n, request)" by (cases q)
  show ?case
  proof (cases "now \<ge> ra_absolute_deadline request")
    case True
    let ?c = "c\<lparr>co_queued := dict_pop (identity request) (co_queued c)\<rparr>"
    obtain e d where e: "coord_append sha ''DEADLINE_EXPIRED'' now (JStr (request_digest sha request))
        (Some (identity request)) ?c = (Inr e, d)"
      and rest: "grant_select sha now live selected queue d = (Inr sel, c')"
      using Cons.prems(1) True q by (auto elim: and_then_cases)
    have queued: "dict_get (co_queued d) i = (if i = identity request then None else dict_get (co_queued c) i)" for i
      using coord_append_frame [OF e] by (simp add: dict_simps)
    have conf: "conflicting d = conflicting c"
      using coord_append_frame [OF e] by (intro ext conflicting_cong) simp
    have new: "identity (snd x) \<noteq> identity request" if "x \<in> set selected \<union> set queue" for x
      using Cons.prems(3) q that by (auto simp: image_iff)
    have "select_ok d now live selected"
      using Cons.prems(2) new by (auto simp: select_ok_def conf queued image_iff)
    moreover have "\<forall>x \<in> set queue. dict_get (co_queued d) (identity (snd x)) = Some x
        \<and> claims_distinct (snd x)"
      using Cons.prems(4) new by (auto simp: queued image_iff)
    ultimately have IH: "select_ok c' now live sel \<and> set selected \<subseteq> set sel
      \<and> (\<forall>x \<in> set queue. x \<in> set sel \<or> dict_get (co_queued c') (identity (snd x)) = None
          \<or> (\<exists>other \<in> set live \<union> snd ` set sel. conflicting d (snd x) other))
      \<and> (\<forall>i. i \<notin> (identity \<circ> snd) ` set queue \<longrightarrow> dict_get (co_queued c') i = dict_get (co_queued d) i)"
      using Cons.prems(3,5) by (intro Cons.IH [OF rest]) auto
    moreover have "identity request \<notin> (identity \<circ> snd) ` set queue"
      using new by (metis UnCI comp_apply imageE)
    ultimately have "dict_get (co_queued c') (identity request) = None"
      using queued [of "identity request"] by metis
    with IH q queued show ?thesis by (auto simp: conf)
  next
    case False
    have dist: "\<forall>o' \<in> set (live @ map snd selected). claims_distinct o'"
      using Cons.prems(2,5) by (auto simp: select_ok_def)
    show ?thesis
    proof (cases "any_conflict c request (live @ map snd selected)")
      case (Inl e)
      with Cons.prems(1) False q show ?thesis by simp
    next
      case (Inr b)
      note b = any_conflict_Inr [OF Inr dist]
      show ?thesis
      proof (cases b)
        case True
        with Cons.prems(1) False q Inr
        have rest: "grant_select sha now live selected queue c = (Inr sel, c')" by simp
        have IH: "select_ok c' now live sel \<and> set selected \<subseteq> set sel
          \<and> (\<forall>x \<in> set queue. x \<in> set sel \<or> dict_get (co_queued c') (identity (snd x)) = None
              \<or> (\<exists>other \<in> set live \<union> snd ` set sel. conflicting c (snd x) other))
          \<and> (\<forall>i. i \<notin> (identity \<circ> snd) ` set queue \<longrightarrow> dict_get (co_queued c') i = dict_get (co_queued c) i)"
          using Cons.prems(2-5) by (intro Cons.IH [OF rest]) auto
        moreover have "\<exists>other \<in> set live \<union> snd ` set sel. conflicting c request other"
          using b True IH by auto
        ultimately show ?thesis using q by auto
      next
        case no: False
        with Cons.prems(1) False q Inr
        have rest: "grant_select sha now live (selected @ [q]) queue c = (Inr sel, c')" by simp
        have none: "\<not> conflicting c request (snd x)" "\<not> conflicting c (snd x) request"
          if "x \<in> set selected" for x
          using b no that conflicting_sym by auto
        have "select_ok c now live (selected @ [q])"
          using Cons.prems(2,3,4) b no False q none
          by (auto simp: select_ok_def)
        then have "select_ok c' now live sel \<and> set (selected @ [q]) \<subseteq> set sel
          \<and> (\<forall>x \<in> set queue. x \<in> set sel \<or> dict_get (co_queued c') (identity (snd x)) = None
              \<or> (\<exists>other \<in> set live \<union> snd ` set sel. conflicting c (snd x) other))
          \<and> (\<forall>i. i \<notin> (identity \<circ> snd) ` set queue \<longrightarrow> dict_get (co_queued c') i = dict_get (co_queued c) i)"
          using Cons.prems(3-5) by (intro Cons.IH [OF rest]) auto
        then show ?thesis by auto
      qed
    qed
  qed
qed


lemma select_ok_Cons:
  assumes "select_ok c now live (x # sel)"
  shows "select_ok c now live sel" "now < ra_absolute_deadline (snd x)"
    "dict_get (co_queued c) (identity (snd x)) = Some x"
    "\<forall>other \<in> set live. \<not> conflicting c (snd x) other"
  using assms by (auto simp: select_ok_def)

text \<open>After a grant the rest of the selection is still without conflict with the live permits.\<close>

lemma select_ok_grant:
  assumes "select_ok c now (live_requests c) (x # sel)" and "dict_ok (co_permits c)"
    and "co_declarations c' = co_declarations c"
    and "co_permits c' = dict_set pid p (co_permits c)" and "pm_request p = snd x"
    and "co_queued c' = dict_pop (identity (snd x)) (co_queued c)"
  shows "select_ok c' now (live_requests c') sel"
proof -
  have conf: "conflicting c' = conflicting c"
    using assms(3) by (intro ext conflicting_cong)
  have live: "set (live_requests c') \<subseteq> insert (snd x) (set (live_requests c))"
    using assms(2) by (auto simp: live_requests_def assms(4,5) set_dict_set)
  have distinct: "identity (snd y) \<noteq> identity (snd x)" "y \<noteq> x" if "y \<in> set sel" for y
    using assms(1) that by (auto simp: select_ok_def image_iff)
  have "\<not> conflicting c (snd y) other" if "y \<in> set sel" "other \<in> set (live_requests c')" for y other
  proof (cases "other = snd x")
    case True
    with distinct(2) [OF that(1)] that(1) assms(1) show ?thesis by (auto simp: select_ok_def)
  next
    case False
    with live that assms(1) show ?thesis by (auto simp: select_ok_def)
  qed
  with assms(1) distinct(1) show ?thesis
    by (auto simp: select_ok_def conf assms(6) dict_simps)
qed

lemma grant_issue_micro:
  assumes "grant_issue sha authority now permit_ms sel result c = (r, c')"
    and "select_ok c now (live_requests c) sel" and "dict_ok (co_permits c)"
    and "authority = co_authority c" and "0 < permit_ms"
  shows "(coord_micro sha rep)\<^sup>*\<^sup>* c c'
    \<and> (\<forall>permits. r = Inr permits \<longrightarrow> map pm_request permits = map pm_request result @ map snd sel
        \<and> (\<forall>i. i \<notin> (identity \<circ> snd) ` set sel \<longrightarrow> dict_get (co_queued c') i = dict_get (co_queued c) i)
        \<and> (\<forall>x \<in> set sel. dict_get (co_queued c') (identity (snd x)) = None)
        \<and> co_declarations c' = co_declarations c)"
  using assms
proof (induction sel arbitrary: result c)
  case Nil
  then show ?case by auto
next
  case (Cons x sel)
  obtain n request where x: "x = (n, request)" by (cases x)
  let ?p = "new_permit sha authority now permit_ms (co_max_permit_ms c) n request"
  let ?c = "c\<lparr>co_permits := dict_set (pm_permit_id ?p) ?p (co_permits c),
              co_attempt_permits := dict_set (identity request) (pm_permit_id ?p) (co_attempt_permits c),
              co_queued := dict_pop (identity request) (co_queued c)\<rparr>"
  have p: "pm_request ?p = request" by (simp add: new_permit_def)
  note sel = select_ok_Cons [OF Cons.prems(2), unfolded x snd_conv]
  have micro: "coord_micro sha rep c ?c"
    by (rule coord_micro.grant [OF sel(3,2) Cons.prems(5) sel(4)]) (simp add: Cons.prems(4))
  have "and_then (coord_append sha ''GRANT'' now (JStr (permit_digest sha ?p)) (Some (identity request)) ?c)
      (\<lambda>_ c. grant_issue sha authority now permit_ms sel (result @ [?p]) c) = (r, c')"
    using Cons.prems(1) x by (simp add: Let_def)
  then show ?case
  proof (cases rule: and_then_cases)
    case (raised e)
    with micro_then_append [OF micro raised(1)] show ?thesis by simp
  next
    case (returned e d)
    note frame = coord_append_frame [OF returned(1)]
    have "select_ok d now (live_requests d) sel"
      by (rule select_ok_grant [OF Cons.prems(2,3), where pid = "pm_permit_id ?p" and p = ?p])
        (simp_all add: frame p x)
    then have IH: "(coord_micro sha rep)\<^sup>*\<^sup>* d c'
      \<and> (\<forall>permits. r = Inr permits
          \<longrightarrow> map pm_request permits = map pm_request (result @ [?p]) @ map snd sel
          \<and> (\<forall>i. i \<notin> (identity \<circ> snd) ` set sel \<longrightarrow> dict_get (co_queued c') i = dict_get (co_queued d) i)
          \<and> (\<forall>x \<in> set sel. dict_get (co_queued c') (identity (snd x)) = None)
          \<and> co_declarations c' = co_declarations d)"
      using Cons.prems(3-5) by (intro Cons.IH [OF returned(2)]) (simp_all add: frame)
    have "identity request \<notin> (identity \<circ> snd) ` set sel"
      using Cons.prems(2) x by (auto simp: select_ok_def)
    with IH micro_change [OF micro returned(1)] show ?thesis
      by (auto simp: frame p x dict_simps)
  qed
qed

text \<open>\<open>grant_next\<close> once the guards have passed: the three phases, and what is left in the queue.\<close>

lemma grant_select_run:
  assumes "grant_select sha now (live_requests d) []
      (sort_key queue_order (dict_values (co_queued d))) d = (Inr sel, f)" and "queue_ok d"
  shows "select_ok f now (live_requests f) sel"
    and "dict_get (co_queued f) i = Some (n, request) \<Longrightarrow> (n, request) \<in> set sel
      \<or> (\<exists>other \<in> set (live_requests d) \<union> snd ` set sel. conflicting d request other)"
proof -
  note vals = queue_values [OF assms(2)]
  note frame = grant_select_frame [OF assms(1)]
  have ok: "select_ok f now (live_requests d) sel \<and> set [] \<subseteq> set sel
    \<and> (\<forall>x \<in> set (sort_key queue_order (dict_values (co_queued d))). x \<in> set sel
        \<or> dict_get (co_queued f) (identity (snd x)) = None
        \<or> (\<exists>other \<in> set (live_requests d) \<union> snd ` set sel. conflicting d (snd x) other))
    \<and> (\<forall>i. i \<notin> (identity \<circ> snd) ` set (sort_key queue_order (dict_values (co_queued d)))
        \<longrightarrow> dict_get (co_queued f) i = dict_get (co_queued d) i)"
  proof (rule grant_select_ok [OF assms(1)])
    show "select_ok d now (live_requests d) []" by (simp add: select_ok_def)
    show "distinct (map (identity \<circ> snd) ([] @ sort_key queue_order (dict_values (co_queued d))))"
      using vals(1) by simp
    show "\<forall>x \<in> set (sort_key queue_order (dict_values (co_queued d))).
        dict_get (co_queued d) (identity (snd x)) = Some x \<and> claims_distinct (snd x)"
      using vals(2) queue_okD(4) [OF assms(2)] by (metis prod.collapse)
    show "\<forall>other \<in> set (live_requests d). claims_distinct other"
      by (auto simp: live_requests_iff [OF queue_okD(2) [OF assms(2)]] dest: queue_okD(5) [OF assms(2)])
  qed
  have "live_requests f = live_requests d" using frame by (simp add: live_requests_def)
  with ok show "select_ok f now (live_requests f) sel" by simp
  assume queued: "dict_get (co_queued f) i = Some (n, request)"
  with frame have "dict_get (co_queued d) i = Some (n, request)"
    by (metis option.distinct(1))
  moreover from this have "identity request = i" using queue_okD(3) [OF assms(2)] by simp
  ultimately have "(n, request) \<in> set (sort_key queue_order (dict_values (co_queued d)))"
    using vals(2) by simp
  with ok queued \<open>identity request = i\<close> show "(n, request) \<in> set sel
      \<or> (\<exists>other \<in> set (live_requests d) \<union> snd ` set sel. conflicting d request other)"
    by force
qed

lemma grant_phases:
  assumes "coord_grant_next sha authority now permit_ms c = (r, c')"
  obtains (refused) e where "r = Inl e" "c' = c"
  | (expiry_raised) e where "coord_expire sha now c = (Inl e, c')" "r = Inl e"
  | (select_raised) e n d where "coord_expire sha now c = (Inr n, d)"
      "grant_select sha now (live_requests d) []
         (sort_key queue_order (dict_values (co_queued d))) d = (Inl e, c')" "r = Inl e"
  | (issued) n d sel f where "coord_expire sha now c = (Inr n, d)"
      "grant_select sha now (live_requests d) []
         (sort_key queue_order (dict_values (co_queued d))) d = (Inr sel, f)"
      "grant_issue sha authority now permit_ms sel [] f = (r, c')"
      "authority = co_authority f" "0 < permit_ms"
proof (cases "c' = c \<and> (\<exists>e. r = Inl e)")
  case False
  then have a: "authority = co_authority c" "0 < permit_ms"
    and run: "and_then (coord_expire sha now c) (\<lambda>_ c.
           and_then (grant_select sha now (live_requests c) []
                       (sort_key queue_order (dict_values (co_queued c))) c) (\<lambda>selected c.
           grant_issue sha authority now permit_ms selected [] c)) = (r, c')"
    using assms(1) by (auto simp: coord_grant_next_def split: if_splits)
  from run show ?thesis
  proof (cases rule: and_then_cases)
    case raised
    then show ?thesis by (rule expiry_raised)
  next
    case (returned n d)
    note exp = returned(1)
    from returned(2) show ?thesis
    proof (cases rule: and_then_cases)
      case (raised e)
      with exp show ?thesis by (intro select_raised)
    next
      case (returned sel f)
      have "authority = co_authority f"
        using a(1) grant_select_frame [OF returned(1)]
          expire_loop_frame [OF exp [unfolded coord_expire_def]] by simp
      with exp returned a(2) show ?thesis by (intro issued)
    qed
  qed
qed (use refused in blast)

lemma grant_micro:
  assumes "coord_grant_next sha authority now permit_ms c = (r, c')"
    and queue: "\<And>d. (coord_micro sha rep)\<^sup>*\<^sup>* c d \<Longrightarrow> queue_ok d"
  shows "(coord_micro sha rep)\<^sup>*\<^sup>* c c'"
  using assms(1)
proof (cases rule: grant_phases)
  case (issued n d sel f)
  have exp: "(coord_micro sha rep)\<^sup>*\<^sup>* c d" using issued(1) by (rule expire_micro)
  have "(coord_micro sha rep)\<^sup>*\<^sup>* c f"
    using exp grant_select_micro [OF issued(2)] by (rule rtranclp_trans)
  moreover from this have "dict_ok (co_permits f)" using queue queue_okD(2) by blast
  ultimately show ?thesis
    using grant_issue_micro [OF issued(3) grant_select_run(1) [OF issued(2) queue [OF exp]] _ issued(4,5)]
    by (blast intro: rtranclp_trans)
qed (auto intro: expire_micro rtranclp_trans [OF expire_micro grant_select_micro])

text \<open>What is still queued after \<open>grant_next\<close> conflicts with a live or a newly granted request.\<close>

lemma grant_leaves_conflicts:
  assumes "coord_grant_next sha authority now permit_ms c = (Inr permits, c')"
    and queue: "\<And>d. (coord_micro sha rep)\<^sup>*\<^sup>* c d \<Longrightarrow> queue_ok d"
    and "dict_get (co_queued c') i = Some (m, request)"
  shows "\<exists>n d. coord_expire sha now c = (Inr n, d)
    \<and> (\<exists>other \<in> set (live_requests d) \<union> pm_request ` set permits. conflicting c' request other)"
  using assms(1)
proof (cases rule: grant_phases)
  case (issued n d sel f)
  have exp: "(coord_micro sha rep)\<^sup>*\<^sup>* c d" using issued(1) by (rule expire_micro)
  have cf: "(coord_micro sha rep)\<^sup>*\<^sup>* c f"
    using exp grant_select_micro [OF issued(2)] by (rule rtranclp_trans)
  then have ok: "dict_ok (co_permits f)" using queue queue_okD(2) by blast
  note selected = grant_select_run [OF issued(2) queue [OF exp]]
  note run = grant_issue_micro [OF issued(3) selected(1) ok issued(4,5), of rep]
  have "queue_ok c'" using run cf queue by (blast intro: rtranclp_trans)
  then have i: "identity request = i" using assms(3) by (rule queue_okD(3))
  have reqs: "pm_request ` set permits = snd ` set sel" using run by (metis list.set_map self_append_conv2 list.map(1))
  have out: "i \<notin> (identity \<circ> snd) ` set sel" using run assms(3) by auto
  then have "dict_get (co_queued f) i = Some (m, request)" using run assms(3) by auto
  from selected(2) [OF this] have "\<exists>other \<in> set (live_requests d) \<union> snd ` set sel. conflicting d request other"
    using out i by force
  moreover have "conflicting c' = conflicting d"
    using run grant_select_frame [OF issued(2)] by (intro ext conflicting_cong) simp
  ultimately show ?thesis using issued(1) reqs by auto
qed simp_all


section \<open>Invariants\<close>

text \<open>No two live permits conflict.\<close>

definition permits_safe :: "coordinator \<Rightarrow> bool" where
  "permits_safe c \<longleftrightarrow> (\<forall>i j p q. dict_get (co_permits c) i = Some p \<longrightarrow> dict_get (co_permits c) j = Some q
     \<longrightarrow> i \<noteq> j \<longrightarrow> permit_live p \<longrightarrow> permit_live q \<longrightarrow> \<not> conflicting c (pm_request p) (pm_request q))"

text \<open>The window of a permit.\<close>

definition window_ok :: "int \<Rightarrow> admission_permit \<Rightarrow> bool" where
  "window_ok max_ms p \<longleftrightarrow> pm_issued_at p < pm_expires_at p
     \<and> pm_expires_at p \<le> ra_absolute_deadline (pm_request p)
     \<and> pm_expires_at p \<le> pm_issued_at p + max_ms"

text \<open>An active permit was activated inside its window with a reservation for every claim.\<close>

definition activation_ok :: "hash \<Rightarrow> admission_permit \<Rightarrow> bool" where
  "activation_ok sha p \<longleftrightarrow> pm_state p = ''ACTIVE'' \<longrightarrow>
     (\<exists>t. pm_activated_at p = Some t \<and> t < pm_expires_at p)
     \<and> (\<forall>claim \<in> set (ra_claims (pm_request p)). \<exists>rid. rid \<noteq> []
          \<and> dict_get (pm_reservation_bindings p) (stable_id sha (claim_key claim)) = Some rid)"

definition permits_ok :: "hash \<Rightarrow> coordinator \<Rightarrow> bool" where
  "permits_ok sha c \<longleftrightarrow> 0 < co_max_permit_ms c
     \<and> dict_all (\<lambda>i p. window_ok (co_max_permit_ms c) p \<and> activation_ok sha p) (co_permits c)"

text \<open>The ledger is a hash chain numbered from 1 whose identifiers are distinct.\<close>

fun ledger_chain :: "hash \<Rightarrow> string \<Rightarrow> int \<Rightarrow> ledger_event list \<Rightarrow> bool" where
  "ledger_chain sha previous n [] = True"
| "ledger_chain sha previous n (e # es) =
     (ev_sequence e = n \<and> ev_causal_predecessor e = previous
      \<and> ev_digest e = json_digest sha (event_body e) \<and> ledger_chain sha (ev_digest e) (n + 1) es)"

definition ledger_ok :: "hash \<Rightarrow> coordinator \<Rightarrow> bool" where
  "ledger_ok sha c \<longleftrightarrow> co_sequence c = int (length (co_events c))
     \<and> co_event_digests c = map (\<lambda>e. (ev_event_id e, ev_digest e)) (co_events c)
     \<and> distinct (map ev_event_id (co_events c))
     \<and> ledger_chain sha ''GENESIS'' 1 (co_events c)"

text \<open>Every claim of a queued request and of a permit is on a declared resource.\<close>

definition claims_declared :: "coordinator \<Rightarrow> request_attempt \<Rightarrow> bool" where
  "claims_declared c request \<longleftrightarrow>
     (\<forall>claim \<in> set (ra_claims request). dict_has (co_declarations c) (claim_key claim))"

definition declared_ok :: "coordinator \<Rightarrow> bool" where
  "declared_ok c \<longleftrightarrow> dict_all (\<lambda>i (n, request). claims_declared c request) (co_queued c)
     \<and> dict_all (\<lambda>i p. claims_declared c (pm_request p)) (co_permits c)"

definition coord_inv :: "hash \<Rightarrow> coordinator \<Rightarrow> bool" where
  "coord_inv sha c \<longleftrightarrow> queue_ok c \<and> declared_ok c \<and> permits_safe c \<and> permits_ok sha c
     \<and> ledger_ok sha c"

lemma ledger_chain_append:
  "ledger_chain sha previous n (es @ [e]) \<longleftrightarrow> ledger_chain sha previous n es
     \<and> ev_sequence e = n + int (length es)
     \<and> ev_causal_predecessor e = (if es = [] then previous else ev_digest (last es))
     \<and> ev_digest e = json_digest sha (event_body e)"
  by (induction es arbitrary: previous n) auto

lemma event_body_digest: "event_body (e\<lparr>ev_digest := x\<rparr>) = event_body e"
  by (simp add: event_body_def)

lemma coord_append_cases:
  assumes "coord_append sha kind t subject i c = (r, c')"
  obtains (same) "c' = c"
  | (added) e where "e = new_event sha kind t subject i c" "r = Inr e"
      "dict_get (co_event_digests c) (ev_event_id e) = None"
      "c' = c\<lparr>co_events := co_events c @ [e],
              co_event_digests := dict_set (ev_event_id e) (ev_digest e) (co_event_digests c),
              co_sequence := ev_sequence e\<rparr>"
  using assms by (auto simp: coord_append_def Let_def split: option.splits if_splits)

lemma append_ledger_ok:
  assumes "ledger_ok sha c" and "coord_append sha kind t subject i c = (r, c')"
  shows "ledger_ok sha c'"
  using assms(2)
proof (cases rule: coord_append_cases)
  case same
  with assms(1) show ?thesis by simp
next
  case (added e)
  have e: "ev_sequence e = co_sequence c + 1" "ev_digest e = json_digest sha (event_body e)"
    "ev_causal_predecessor e = (if co_events c = [] then ''GENESIS'' else ev_digest (last (co_events c)))"
    by (simp_all add: added(1) new_event_def Let_def event_body_def)
  have "ev_event_id e \<notin> ev_event_id ` set (co_events c)"
    using added(3) assms(1) by (auto simp: ledger_ok_def dict_get_None_iff image_iff)
  moreover have "co_event_digests c' = co_event_digests c @ [(ev_event_id e, ev_digest e)]"
    by (simp add: added(4) dict_set_new [OF added(3)])
  moreover have "co_events c' = co_events c @ [e]" "co_sequence c' = ev_sequence e"
    by (simp_all add: added(4))
  ultimately show ?thesis using assms(1) e by (simp add: ledger_ok_def ledger_chain_append)
qed

lemma ledger_ok_cong:
  "co_events c' = co_events c \<Longrightarrow> co_event_digests c' = co_event_digests c
    \<Longrightarrow> co_sequence c' = co_sequence c \<Longrightarrow> ledger_ok sha c' = ledger_ok sha c"
  by (simp add: ledger_ok_def)

lemma make_request_distinct: "request_made request \<Longrightarrow> claims_distinct request"
  by (auto simp: request_made_def make_request_def claims_distinct_def sum_then_Inr split: if_splits)

lemma validate_bindings_Inr:
  assumes "validate_bindings sha rep bindings request claims v0 = Inr v"
    and "\<forall>k rid. dict_get v0 k = Some rid \<longrightarrow> rid \<noteq> []"
  shows "(\<forall>claim \<in> set claims. \<exists>rid b. rid \<noteq> []
        \<and> dict_get v (stable_id sha (claim_key claim)) = Some rid
        \<and> dict_get bindings (stable_id sha (claim_key claim)) = Some b
        \<and> binding_authorizes b request claim = Inr True)
    \<and> (\<forall>k rid. dict_get v k = Some rid \<longrightarrow> rid \<noteq> [])
    \<and> (\<forall>k. dict_has v0 k \<longrightarrow> dict_has v k)"
  using assms
proof (induction claims arbitrary: v0)
  case Nil
  then show ?case by simp
next
  case (Cons claim claims)
  let ?sid = "stable_id sha (claim_key claim)"
  obtain b rid where b: "dict_get bindings ?sid = Some b" "binding_authorizes b request claim = Inr True"
    and rid: "rid \<noteq> []"
    and rest: "validate_bindings sha rep bindings request claims (dict_set ?sid rid v0) = Inr v"
    using Cons.prems(1)
    by (auto simp: Let_def sum_then_Inr text_field_def split: option.splits if_splits)
  from rid Cons.prems(2) have "\<forall>k rid'. dict_get (dict_set ?sid rid v0) k = Some rid' \<longrightarrow> rid' \<noteq> []"
    by (auto simp: dict_simps)
  note IH = Cons.IH [OF rest this]
  then have sid: "dict_has v ?sid" and keep: "\<forall>k. dict_has v0 k \<longrightarrow> dict_has v k" by simp_all
  from sid obtain rid' where "dict_get v ?sid = Some rid'" by (auto simp: dict_has_def)
  with IH b keep show ?case by auto
qed

lemma queue_ok_micro: "coord_micro sha rep c c' \<Longrightarrow> queue_ok c \<Longrightarrow> queue_ok c'"
proof (induction rule: coord_micro.induct)
  case (append kind t subject i c r c')
  then show ?case using coord_append_frame [OF append(1)] by (simp add: queue_ok_def)
next
  case (enqueue request c)
  then show ?case using make_request_distinct by (auto simp: queue_ok_def)
next
  case (grant c request n now permit_ms permit)
  have "pm_request permit = request" by (simp add: grant(5) new_permit_def)
  with grant(1,6) queue_okD(4) [OF grant(6,1)] show ?case by (simp add: queue_ok_def)
next
  case (finish c pid p now reason)
  with queue_okD(5) [OF finish(2,1)] show ?case by (simp add: queue_ok_def)
next
  case (activate c pid p now bindings validated)
  with queue_okD(5) [OF activate(5,1)] show ?case by (simp add: queue_ok_def)
qed (simp_all add: queue_ok_def)

lemma queue_ok_micros: "(coord_micro sha rep)\<^sup>*\<^sup>* c c' \<Longrightarrow> queue_ok c \<Longrightarrow> queue_ok c'"
  by (induction rule: rtranclp_induct) (auto intro: queue_ok_micro)

lemma permits_ok_micro: "coord_micro sha rep c c' \<Longrightarrow> permits_ok sha c \<Longrightarrow> permits_ok sha c'"
proof (induction rule: coord_micro.induct)
  case (append kind t subject i c r c')
  then show ?case using coord_append_frame [OF append(1)] by (simp add: permits_ok_def)
next
  case (finish c pid p now reason)
  then have "window_ok (co_max_permit_ms c) p" by (auto simp: permits_ok_def dest: dict_allD)
  with finish(2) show ?case by (simp add: permits_ok_def window_ok_def activation_ok_def)
next
  case (activate c pid p now bindings validated)
  then have "window_ok (co_max_permit_ms c) p" by (auto simp: permits_ok_def dest: dict_allD)
  moreover have "\<forall>claim \<in> set (ra_claims (pm_request p)). \<exists>rid. rid \<noteq> []
      \<and> dict_get validated (stable_id sha (claim_key claim)) = Some rid"
    using validate_bindings_Inr [OF activate(4)] by fastforce
  ultimately have "window_ok (co_max_permit_ms c) (p\<lparr>pm_reservation_bindings := validated,
        pm_state := ''ACTIVE'', pm_activated_at := Some now\<rparr>)"
    "activation_ok sha (p\<lparr>pm_reservation_bindings := validated, pm_state := ''ACTIVE'',
        pm_activated_at := Some now\<rparr>)"
    using activate(3) by (simp_all add: window_ok_def activation_ok_def)
  with activate(5) show ?case by (simp add: permits_ok_def)
next
  case (grant c request n now permit_ms permit)
  have "0 < co_max_permit_ms c" using grant(6) by (simp add: permits_ok_def)
  with grant(2,3) have "window_ok (co_max_permit_ms c) permit" "activation_ok sha permit"
    by (simp_all add: window_ok_def activation_ok_def grant(5) new_permit_def)
  with grant(6) show ?case by (simp add: permits_ok_def)
qed (auto simp: permits_ok_def)

lemma validate_claims_declared:
  "validate_claims c claims = Inr () \<Longrightarrow> claim \<in> set claims \<Longrightarrow> dict_has (co_declarations c) (claim_key claim)"
  by (induction claims) (auto simp: dict_has_def split: option.splits if_splits)

lemma claims_declared_mono:
  "(\<And>k. dict_has (co_declarations c) k \<Longrightarrow> dict_has (co_declarations c') k)
    \<Longrightarrow> claims_declared c request \<Longrightarrow> claims_declared c' request"
  by (simp add: claims_declared_def)

lemma declared_ok_mono:
  assumes "\<And>k. dict_has (co_declarations c) k \<Longrightarrow> dict_has (co_declarations c') k"
    and "co_queued c' = co_queued c" and "co_permits c' = co_permits c" and "declared_ok c"
  shows "declared_ok c'"
  using assms(4) claims_declared_mono [OF assms(1)]
  unfolding declared_ok_def assms(2,3) by (auto elim!: dict_all_mono)

lemma claims_declared_update:
  "claims_declared (c\<lparr>co_queued := x\<rparr>) = claims_declared c"
  "claims_declared (c\<lparr>co_permits := y\<rparr>) = claims_declared c"
  "claims_declared (c\<lparr>co_attempt_permits := z\<rparr>) = claims_declared c"
  "claims_declared (c\<lparr>co_submission_sequence := n\<rparr>) = claims_declared c"
  by (simp_all add: fun_eq_iff claims_declared_def)

lemma declared_ok_micro: "coord_micro sha rep c c' \<Longrightarrow> declared_ok c \<Longrightarrow> declared_ok c'"
proof (induction rule: coord_micro.induct)
  case (append kind t subject i c r c')
  show ?case using coord_append_frame [OF append(1)] by (intro declared_ok_mono [OF _ _ _ append(2)]) simp_all
next
  case (register d c)
  show ?case by (rule declared_ok_mono [OF _ _ _ register(4)]) simp_all
next
  case (enqueue request c)
  then have "claims_declared c request"
    using validate_claims_declared
    by (auto simp: validate_attempt_def claims_declared_def split: if_splits)
  with enqueue(5) show ?case by (simp add: declared_ok_def claims_declared_update)
next
  case (grant c request n now permit_ms permit)
  have "pm_request permit = request" by (simp add: grant(5) new_permit_def)
  moreover have "claims_declared c request"
    using grant(1,6) unfolding declared_ok_def by (blast dest: dict_allD)
  ultimately show ?case using grant(6) by (simp add: declared_ok_def claims_declared_update)
next
  case (rotate authority c)
  show ?case by (rule declared_ok_mono [OF _ _ _ rotate(5)]) simp_all
next
  case (mode c available cleanup_only)
  show ?case by (rule declared_ok_mono [OF _ _ _ mode]) simp_all
next
  case (finish c pid p now reason)
  then have "claims_declared c (pm_request p)" by (auto simp: declared_ok_def dest: dict_allD)
  with finish(2) show ?case by (simp add: declared_ok_def claims_declared_update)
next
  case (activate c pid p now bindings validated)
  then have "claims_declared c (pm_request p)" by (auto simp: declared_ok_def dest: dict_allD)
  with activate(5) show ?case by (simp add: declared_ok_def claims_declared_update)
qed (simp add: declared_ok_def claims_declared_update)

lemma permits_safe_cong:
  "co_permits c' = co_permits c \<Longrightarrow> co_declarations c' = co_declarations c
    \<Longrightarrow> permits_safe c' = permits_safe c"
  by (simp add: permits_safe_def conflicting_def)

text \<open>Replacing a permit by one with the same request that is live only if the old one was.\<close>

lemma permits_safe_replace:
  assumes "permits_safe c" and "dict_get (co_permits c) pid = Some p"
    and "pm_request q = pm_request p" and "permit_live q \<longrightarrow> permit_live p"
  shows "permits_safe (c\<lparr>co_permits := dict_set pid q (co_permits c)\<rparr>)"
proof -
  have conf: "conflicting (c\<lparr>co_permits := x\<rparr>) = conflicting c" for x
    by (intro ext conflicting_cong) simp
  show ?thesis
    unfolding permits_safe_def conf
    using assms unfolding permits_safe_def by (auto simp: dict_simps split: if_splits)
qed

lemma permits_safe_micro:
  "coord_micro sha rep c c' \<Longrightarrow> dict_ok (co_permits c) \<Longrightarrow> declared_ok c \<Longrightarrow> permits_safe c
    \<Longrightarrow> permits_safe c'"
proof (induction rule: coord_micro.induct)
  case (append kind t subject i c r c')
  then show ?case using permits_safe_cong coord_append_frame [OF append(1)] by blast
next
  case (register d c)
  have "\<not> claim_live (decl_key d) c"
    using register(2,5)
    by (fastforce simp: claim_live_def declared_ok_def dict_all_def claims_declared_def dict_has_def
        dict_get_iff [OF register(4)])
  then have unused: "claim_key a \<noteq> decl_key d"
    if "dict_get (co_permits c) i = Some p" "permit_live p" "a \<in> set (ra_claims (pm_request p))" for i p a
    using that by (force simp: claim_live_def dict_get_iff [OF register(4)])
  show ?case
    unfolding permits_safe_def
  proof (simp, intro allI impI notI)
    fix i j p q
    assume p: "dict_get (co_permits c) i = Some p" "permit_live p"
      and q: "dict_get (co_permits c) j = Some q" "permit_live q" "i \<noteq> j"
      and "conflicting (c\<lparr>co_declarations := dict_set (decl_key d) d (co_declarations c),
         co_physical_keys := dict_set (physical_identity (decl_key d)) (decl_key d) (co_physical_keys c)\<rparr>)
         (pm_request p) (pm_request q)"
    then have "conflicting c (pm_request p) (pm_request q)"
      using unused [OF p] by (fastforce simp: conflicting_def dict_simps)
    with register(6) p q show False by (auto simp: permits_safe_def)
  qed
next
  case (finish c pid p now reason)
  show ?case
    by (rule permits_safe_replace [OF finish(4,1)]) (simp_all add: permit_live_def)
next
  case (activate c pid p now bindings validated)
  show ?case
    by (rule permits_safe_replace [OF activate(7,1)]) (simp_all add: permit_live_def activate(2))
next
  case (grant c request n now permit_ms permit)
  have conf: "conflicting (c\<lparr>co_permits := x, co_attempt_permits := y, co_queued := z\<rparr>) = conflicting c"
    for x y z by (intro ext conflicting_cong) simp
  have request: "pm_request permit = request" by (simp add: grant(5) new_permit_def)
  have "\<not> conflicting c request (pm_request q) \<and> \<not> conflicting c (pm_request q) request"
    if "dict_get (co_permits c) j = Some q" "permit_live q" for j q
    using grant(4) that live_requests_iff [OF grant(6)] conflicting_sym by blast
  then show ?case
    using grant(8) unfolding permits_safe_def conf by (auto simp: dict_simps request split: if_splits)
qed (simp_all add: permits_safe_def conflicting_def)


lemma ledger_ok_micro: "coord_micro sha rep c c' \<Longrightarrow> ledger_ok sha c \<Longrightarrow> ledger_ok sha c'"
  by (induction rule: coord_micro.induct) (blast intro: append_ledger_ok, simp_all add: ledger_ok_def)

lemma coord_inv_micro: "coord_micro sha rep c c' \<Longrightarrow> coord_inv sha c \<Longrightarrow> coord_inv sha c'"
  by (simp add: coord_inv_def queue_ok_micro declared_ok_micro permits_ok_micro ledger_ok_micro)
    (simp add: permits_safe_micro queue_ok_def)

lemma coord_inv_micros: "(coord_micro sha rep)\<^sup>*\<^sup>* c c' \<Longrightarrow> coord_inv sha c \<Longrightarrow> coord_inv sha c'"
  by (induction rule: rtranclp_induct) (auto intro: coord_inv_micro)

lemma coord_step_micro:
  assumes "coord_step sha rep c c'" and "queue_ok c"
  shows "(coord_micro sha rep)\<^sup>*\<^sup>* c c'"
  using assms
proof (induction rule: coord_step.induct)
  case (grant authority now permit_ms c r c')
  then show ?case by (blast intro: grant_micro queue_ok_micros)
qed (blast intro: register_micro submit_micro activate_micro release_micro expire_micro
    set_available_micro rotate_micro)+

lemma coord_start_inv: "coord_start c \<Longrightarrow> coord_inv sha c"
  by (auto simp: coord_start_def coord_init_def coord_inv_def queue_ok_def declared_ok_def
      permits_safe_def permits_ok_def ledger_ok_def split: if_splits)

interpretation coord: invariant_system coord_start "coord_step sha rep" "coord_inv sha"
  for sha rep
proof unfold_locales
  show "coord_start s \<Longrightarrow> coord_inv sha s" for s by (rule coord_start_inv)
  show "coord_inv sha s \<Longrightarrow> coord_step sha rep s t \<Longrightarrow> coord_inv sha t" for s t
    using coord_step_micro coord_inv_micros coord_inv_def by metis
qed

text \<open>The ledger only grows. The step relation of the log is that of coordinators with a sound queue.\<close>

lemma micro_log: "coord_micro sha rep c c' \<Longrightarrow> \<exists>es. co_events c' = co_events c @ es"
proof (induction rule: coord_micro.induct)
  case (append kind t subject i c r c')
  then show ?case by (cases rule: coord_append_cases) simp_all
qed simp_all

interpretation micro_ledger: append_log "coord_micro sha rep" co_events
  for sha rep
  by unfold_locales (rule micro_log)

lemma coord_steps_micro:
  assumes "(coord_step sha rep)\<^sup>*\<^sup>* c c'" and "coord_inv sha c"
  shows "(coord_micro sha rep)\<^sup>*\<^sup>* c c'"
  using assms
proof (induction rule: rtranclp_induct)
  case (step d e)
  then have "coord_inv sha d" by (blast intro: coord.steps_inv)
  with step show ?case by (auto simp: coord_inv_def intro: rtranclp_trans coord_step_micro)
qed simp


section \<open>Properties\<close>

text \<open>
  C1: In every reachable state, two live permits that claim the same declared resource do so
  under a shared declaration, neither claim is exclusive, and the two quantities fit into the
  declared capacity. So a resource that its provider declares exclusive has at most one live
  permit.
\<close>

theorem live_permits_never_conflict:
  assumes "reachable coord_start (coord_step sha rep) c"
  shows "\<forall>i j p q a b d. i \<noteq> j
    \<and> dict_get (co_permits c) i = Some p \<and> permit_live p \<and> a \<in> set (ra_claims (pm_request p))
    \<and> dict_get (co_permits c) j = Some q \<and> permit_live q \<and> b \<in> set (ra_claims (pm_request q))
    \<and> claim_key a = claim_key b \<and> dict_get (co_declarations c) (claim_key a) = Some d
    \<longrightarrow> \<not> decl_exclusive d \<and> \<not> claim_exclusive a \<and> \<not> claim_exclusive b
      \<and> claim_quantity a + claim_quantity b \<le> decl_capacity d"
proof (intro allI impI, elim conjE)
  fix i j p q a b d
  assume i: "i \<noteq> j" "dict_get (co_permits c) i = Some p" "permit_live p"
      "a \<in> set (ra_claims (pm_request p))"
    and j: "dict_get (co_permits c) j = Some q" "permit_live q" "b \<in> set (ra_claims (pm_request q))"
    and d: "claim_key a = claim_key b" "dict_get (co_declarations c) (claim_key a) = Some d"
  have "permits_safe c" using coord.reachable_inv [OF assms] by (simp add: coord_inv_def)
  with i j have "\<not> conflicting c (pm_request p) (pm_request q)" unfolding permits_safe_def by blast
  with i j d have "\<not> declarations_conflict a b d" unfolding conflicting_def by blast
  with d(1) show "\<not> decl_exclusive d \<and> \<not> claim_exclusive a \<and> \<not> claim_exclusive b
      \<and> claim_quantity a + claim_quantity b \<le> decl_capacity d"
    by (simp add: declarations_conflict_def)
qed

text \<open>
  Every permit of a reachable coordinator has a non-empty window that ends by the deadline
  of its request and is no longer than the configured maximum; an active permit was activated
  inside its window and holds a reservation for every one of its claims.
\<close>

lemma permits_bounded_and_bound:
  assumes "reachable coord_start (coord_step sha rep) c"
  shows "\<forall>i p. dict_get (co_permits c) i = Some p \<longrightarrow>
      pm_issued_at p < pm_expires_at p
    \<and> pm_expires_at p \<le> ra_absolute_deadline (pm_request p)
    \<and> pm_expires_at p \<le> pm_issued_at p + co_max_permit_ms c
    \<and> (pm_state p = ''ACTIVE'' \<longrightarrow> (\<exists>t. pm_activated_at p = Some t \<and> t < pm_expires_at p)
        \<and> (\<forall>claim \<in> set (ra_claims (pm_request p)). \<exists>rid. rid \<noteq> []
             \<and> dict_get (pm_reservation_bindings p) (stable_id sha (claim_key claim)) = Some rid))"
proof -
  have "permits_ok sha c" using coord.reachable_inv [OF assms] by (simp add: coord_inv_def)
  then show ?thesis unfolding permits_ok_def dict_all_def window_ok_def activation_ok_def by blast
qed

text \<open>
  The ledger of the coordinator is append-only over every sequence of calls, and in every
  reachable state it is a gapless hash chain: numbered from 1, each event names the digest of
  the one before it and carries the digest of its own body, and no identifier occurs twice.
\<close>

lemma ledger_append_only_chain:
  assumes "reachable coord_start (coord_step sha rep) c" and "(coord_step sha rep)\<^sup>*\<^sup>* c c'"
  shows "(\<exists>es. co_events c' = co_events c @ es)
    \<and> ledger_chain sha ''GENESIS'' 1 (co_events c') \<and> distinct (map ev_event_id (co_events c'))
    \<and> co_sequence c' = int (length (co_events c'))"
proof -
  have inv: "coord_inv sha c" using assms(1) by (rule coord.reachable_inv)
  then have "ledger_ok sha c'" using coord.steps_inv [OF assms(2)] by (simp add: coord_inv_def)
  with micro_ledger.steps_extend [OF coord_steps_micro [OF assms(2) inv]] show ?thesis
    by (simp add: ledger_ok_def)
qed

text \<open>
  C29: \<open>grant_next\<close> leaves no admissible request waiting: when it returns, every request that is
  still queued conflicts with a request whose permit was live after the expiry sweep or with one
  it has just granted.
\<close>

theorem grant_next_work_conserving:
  assumes "reachable coord_start (coord_step sha rep) c"
    and "coord_grant_next sha authority now permit_ms c = (Inr permits, c')"
  shows "\<exists>n d. coord_expire sha now c = (Inr n, d)
    \<and> (\<forall>i m request. dict_get (co_queued c') i = Some (m, request) \<longrightarrow>
        (\<exists>other \<in> set (live_requests d) \<union> pm_request ` set permits. conflicting c' request other))"
proof -
  have queue: "queue_ok d" if "(coord_micro sha rep)\<^sup>*\<^sup>* c d" for d
    using coord.reachable_inv [OF assms(1)] that by (auto simp: coord_inv_def intro: queue_ok_micros)
  have "\<exists>n d. coord_expire sha now c = (Inr n, d)"
    using assms(2) by (cases rule: grant_phases) auto
  with grant_leaves_conflicts [OF assms(2) queue] show ?thesis by fastforce
qed


section \<open>Witnesses\<close>

text \<open>A stand-in for the hash, and a coordinator with one shared resource of capacity 2.\<close>

definition demo_hash :: hash where
  "demo_hash s = ''h''"

definition demo_authority :: authority_epoch where
  "demo_authority = \<lparr>ae_scope = ''scope'', ae_authority_identity = ''a'', ae_epoch = 1,
     ae_boot_epoch = ''b''\<rparr>"

definition demo_key :: resource_key where
  "demo_key = \<lparr>provider_identity = ''p'', provider_boot_epoch = ''b'', resource_class = ''gpu'',
     resource_id = ''r'', exclusivity_domain = ''d'', capacity_unit = ''slot'',
     declaration_version = ''1''\<rparr>"

definition demo_declaration :: resource_declaration where
  "demo_declaration = \<lparr>decl_key = demo_key, decl_capacity = 2, decl_exclusive = False,
     decl_resource_sequence = 1, decl_authenticated = True, decl_declaration_digest = ''h''\<rparr>"

definition demo_claim :: resource_claim where
  "demo_claim = \<lparr>claim_key = demo_key, claim_quantity = 1, claim_exclusive = False\<rparr>"

definition demo_request :: "string \<Rightarrow> request_attempt" where
  "demo_request i = \<lparr>ra_requester_identity = ''q'', ra_request_id = i, ra_attempt = 1,
     ra_absolute_deadline = 100, ra_claims = [demo_claim], ra_capability = CAPABILITY,
     ra_authenticated = True\<rparr>"

definition demo_coord :: coordinator where
  "demo_coord = projr (coord_init demo_authority 50)"

definition demo_declared :: coordinator where
  "demo_declared = snd (coord_register_declarations demo_hash 0 [demo_declaration] demo_coord)"

definition demo_submitted :: coordinator where
  "demo_submitted = snd (coord_submit demo_hash (demo_request ''x'') 1 demo_declared)"

definition demo_granted :: "(admission_permit list, coordinator) outcome" where
  "demo_granted = coord_grant_next demo_hash demo_authority 4 20 demo_submitted"

lemma demo_digest [simp]: "json_digest demo_hash v = ''h''"
  by (simp add: json_digest_def demo_hash_def)

lemma demo_coord_eq: "coord_init demo_authority 50 = Inr demo_coord"
  by (simp add: demo_coord_def coord_init_def)

lemma demo_declared_eq: "demo_declared = demo_coord\<lparr>
    co_declarations := [(demo_key, demo_declaration)],
    co_physical_keys := [(physical_identity demo_key, demo_key)],
    co_events := [new_event demo_hash ''DECLARATION'' 0 (JStr ''h'') None demo_coord],
    co_event_digests := [(''h'', ''h'')], co_sequence := 1\<rparr>"
  by (simp add: demo_declared_def demo_coord_def coord_init_def demo_declaration_def demo_key_def
      physical_identity_def coord_append_def new_event_def Let_def)


lemma demo_append:
  assumes "co_events c = co_events demo_declared" and "co_event_digests c = [(''h'', ''h'')]"
  shows "coord_append demo_hash kind t subject i c = (Inr (hd (co_events demo_declared)), c)"
  using assms by (simp add: coord_append_def new_event_def Let_def demo_declared_eq)

lemma demo_submitted_eq: "coord_submit demo_hash (demo_request ''x'') 1 demo_declared
    = (Inr ''QUEUED'', demo_declared\<lparr>co_submission_sequence := 1,
         co_queued := [((''q'', ''x'', 1), (1, demo_request ''x''))]\<rparr>)"
proof -
  have valid: "validate_attempt demo_declared (demo_request ''x'') = Inr ()"
    by (simp add: validate_attempt_def demo_request_def demo_claim_def demo_declared_eq
        demo_declaration_def)
  have fields: "co_attempt_permits demo_declared = []" "co_queued demo_declared = []"
    "co_submission_sequence demo_declared = 0" "co_event_digests demo_declared = [(''h'', ''h'')]"
    "ra_absolute_deadline (demo_request i) = 100" "identity (demo_request ''x'') = (''q'', ''x'', 1)" for i
    by (simp_all add: demo_declared_eq demo_coord_def coord_init_def demo_request_def identity_def)
  show ?thesis
    by (simp add: coord_submit_def valid fields coord_log_def demo_append)
qed

definition demo_permit :: admission_permit where
  "demo_permit = new_permit demo_hash demo_authority 4 20 50 1 (demo_request ''x'')"

lemma demo_granted_eq: "demo_granted = (Inr [demo_permit], demo_declared\<lparr>co_submission_sequence := 1,
    co_queued := [], co_permits := [(''h'', demo_permit)],
    co_attempt_permits := [((''q'', ''x'', 1), ''h'')]\<rparr>)"
proof -
  let ?s = "demo_declared\<lparr>co_submission_sequence := 1,
    co_queued := [((''q'', ''x'', 1), (1, demo_request ''x''))]\<rparr>"
  have fields: "co_attempt_permits demo_declared = []" "co_permits demo_declared = []"
    "co_authority demo_declared = demo_authority" "co_max_permit_ms demo_declared = 50"
    "co_available demo_declared" "\<not> co_cleanup_only demo_declared"
    "co_event_digests demo_declared = [(''h'', ''h'')]"
    "ra_absolute_deadline (demo_request i) = 100" "identity (demo_request ''x'') = (''q'', ''x'', 1)" for i
    by (simp_all add: demo_declared_eq demo_coord_def coord_init_def demo_request_def identity_def)
  have pid: "pm_permit_id demo_permit = ''h''" by (simp add: demo_permit_def new_permit_def)
  have sub: "demo_submitted = ?s" by (simp add: demo_submitted_def demo_submitted_eq)
  show ?thesis
    using pid unfolding demo_permit_def
    by (simp add: demo_granted_def sub coord_grant_next_def coord_expire_def live_requests_def fields
        demo_append Let_def)
qed

lemma demo_reachable:
  "reachable coord_start (coord_step demo_hash rep) demo_submitted"
  "reachable coord_start (coord_step demo_hash rep) (snd demo_granted)"
proof -
  have "authority_made demo_authority" by code_simp
  then have "reachable coord_start (coord_step demo_hash rep) demo_coord"
    using demo_coord_eq by (intro reachable.start) (auto simp: coord_start_def)
  moreover have "coord_step demo_hash rep demo_coord demo_declared"
    unfolding demo_declared_def
  proof (rule coord_step.register [OF _ prod.collapse [symmetric]])
    have "key_made demo_key" by code_simp
    then show "\<forall>d \<in> set [demo_declaration]. declaration_made demo_hash d"
      by (simp add: declaration_made_def make_declaration_def declaration_canonical_digest_def
          demo_declaration_def)
  qed
  moreover have "request_made (demo_request ''x'')" by code_simp
  then have "coord_step demo_hash rep demo_declared demo_submitted"
    unfolding demo_submitted_def by (rule coord_step.submit [OF _ prod.collapse [symmetric]])
  ultimately show sub: "reachable coord_start (coord_step demo_hash rep) demo_submitted"
    by (blast intro: reachable.next_state)
  have "coord_step demo_hash rep demo_submitted (snd demo_granted)"
    unfolding demo_granted_def by (rule coord_step.grant [OF prod.collapse [symmetric]])
  with sub show "reachable coord_start (coord_step demo_hash rep) (snd demo_granted)"
    by (rule reachable.next_state)
qed

theorem live_permits_never_conflict_witness:
  "permit_live demo_permit \<and> dict_get (co_permits (snd demo_granted)) ''h'' = Some demo_permit
   \<and> \<not> (\<exists>j q b d. j \<noteq> ''h'' \<and> dict_get (co_permits (snd demo_granted)) j = Some q \<and> permit_live q
        \<and> b \<in> set (ra_claims (pm_request q)) \<and> claim_key demo_claim = claim_key b
        \<and> dict_get (co_declarations (snd demo_granted)) (claim_key demo_claim) = Some d
        \<and> claim_quantity demo_claim + claim_quantity b > decl_capacity d)"
proof -
  have "permit_live demo_permit" "demo_claim \<in> set (ra_claims (pm_request demo_permit))"
    by (simp_all add: permit_live_def demo_permit_def new_permit_def demo_request_def)
  moreover have "dict_get (co_permits (snd demo_granted)) ''h'' = Some demo_permit"
    by (simp add: demo_granted_eq)
  ultimately show ?thesis
    using live_permits_never_conflict [OF demo_reachable(2) [of "\<lambda>_. []"]]
    by (metis linorder_not_le)
qed

theorem permits_bounded_and_bound_witness:
  "dict_get (co_permits (snd demo_granted)) ''h'' = Some demo_permit
   \<and> pm_issued_at demo_permit < pm_expires_at demo_permit
   \<and> pm_expires_at demo_permit \<le> ra_absolute_deadline (pm_request demo_permit)"
proof -
  have "dict_get (co_permits (snd demo_granted)) ''h'' = Some demo_permit"
    by (simp add: demo_granted_eq)
  with permits_bounded_and_bound [OF demo_reachable(2) [of "\<lambda>_. []"]] show ?thesis by metis
qed

theorem ledger_append_only_chain_witness:
  "ledger_chain demo_hash ''GENESIS'' 1 (co_events (snd demo_granted))
   \<and> co_sequence (snd demo_granted) = int (length (co_events (snd demo_granted)))
   \<and> co_events (snd demo_granted) \<noteq> []"
proof -
  have "co_events (snd demo_granted) \<noteq> []" by (simp add: demo_granted_eq demo_declared_eq)
  with ledger_append_only_chain [OF demo_reachable(2) [of "\<lambda>_. []"] rtranclp.rtrancl_refl]
  show ?thesis by blast
qed

theorem grant_next_work_conserving_witness:
  "\<exists>permits n d. fst demo_granted = Inr permits \<and> coord_expire demo_hash 4 demo_submitted = (Inr n, d)
     \<and> co_queued (snd demo_granted) = []"
proof -
  have eq: "coord_grant_next demo_hash demo_authority 4 20 demo_submitted
      = (Inr [demo_permit], snd demo_granted)"
    by (simp add: demo_granted_def [symmetric] demo_granted_eq)
  have "co_queued (snd demo_granted) = []" by (simp add: demo_granted_eq)
  moreover have "fst demo_granted = Inr [demo_permit]" by (simp add: demo_granted_eq)
  moreover obtain n d where "coord_expire demo_hash 4 demo_submitted = (Inr n, d)"
    using grant_next_work_conserving [OF demo_reachable(1) [of "\<lambda>_. []"] eq] by blast
  ultimately show ?thesis by blast
qed



section \<open>Shared capacity\<close>

text \<open>
  The conflict test compares two claims at a time. Three shared claims of one slot each do not
  conflict pairwise on a resource of capacity 2, so the selection of \<open>grant_next\<close> takes all
  three.
\<close>

definition demo_slots :: "(int \<times> request_attempt) list" where
  "demo_slots = [(1, demo_request ''x''), (2, demo_request ''y''), (3, demo_request ''z'')]"

text \<open>
  The capacity of a shared resource is not a bound on the sum of the quantities that are
  granted together: with capacity 2 the selection takes three requests that claim 1 each.
\<close>

lemma shared_capacity_overcommitted:
  "decl_capacity demo_declaration = 2
   \<and> dict_get (co_declarations (demo_coord\<lparr>co_declarations := [(demo_key, demo_declaration)]\<rparr>)) demo_key
       = Some demo_declaration
   \<and> fst (grant_select sha 4 [] [] demo_slots
            (demo_coord\<lparr>co_declarations := [(demo_key, demo_declaration)]\<rparr>)) = Inr demo_slots
   \<and> sum_list (map (\<lambda>(n, r). sum_list (map claim_quantity (ra_claims r))) demo_slots) = 3"
proof -
  have none: "requests_conflict (demo_coord\<lparr>co_declarations := [(demo_key, demo_declaration)]\<rparr>)
      (demo_request i) (demo_request j) = Inr False" for i j
    by (simp add: requests_conflict_def demo_request_def demo_claim_def dict_of_list_def
        declarations_conflict_def demo_declaration_def)
  have "ra_absolute_deadline (demo_request i) = 100" for i by (simp add: demo_request_def)
  then have "fst (grant_select sha 4 [] [] demo_slots
      (demo_coord\<lparr>co_declarations := [(demo_key, demo_declaration)]\<rparr>)) = Inr demo_slots"
    by (simp add: demo_slots_def none)
  then show ?thesis
    by (simp add: demo_declaration_def demo_slots_def demo_request_def demo_claim_def)
qed

end
