(* ===== verification/Conflict_Permit.thy ===== *)
theory Conflict_Permit
  imports Conflict_Safety
begin

text \<open>
  The application-level permit of \<open>core/conflict_coordination.py\<close>:
  \<open>issue_permit_envelope\<close> and \<open>verify_permit_envelope\<close>. The keyed hash
  \<open>hmac.new(key, text, sha256).hexdigest()\<close> is the parameter \<open>mac\<close>; \<open>dict(v)\<close> of a value that is
  not a mapping is the parameter \<open>dict_of\<close>, and the \<open>repr\<close> of a list or a dictionary is \<open>rep\<close>.
\<close>

type_synonym keyed_hash = "string \<Rightarrow> string \<Rightarrow> string"

definition envelope_claim :: "hash \<Rightarrow> resource_claim \<Rightarrow> json" where
  "envelope_claim sha claim = JObj
     [(''resource'', JStr (stable_id sha (claim_key claim))),
      (''providerIdentity'', JStr (provider_identity (claim_key claim))),
      (''providerBootEpoch'', JStr (provider_boot_epoch (claim_key claim))),
      (''quantity'', JInt (claim_quantity claim))]"

definition envelope_body :: "hash \<Rightarrow> admission_permit \<Rightarrow> (string, json) dict" where
  "envelope_body sha permit =
     [(''schema'', JStr ''ndnsf-di-conflict-permit-v1''),
      (''permitId'', JStr (pm_permit_id permit)),
      (''authority'', authority_json (pm_authority permit)),
      (''requesterIdentity'', JStr (ra_requester_identity (pm_request permit))),
      (''requestId'', JStr (ra_request_id (pm_request permit))),
      (''attempt'', JInt (ra_attempt (pm_request permit))),
      (''requestDigest'', JStr (request_digest sha (pm_request permit))),
      (''issuedAt'', JInt (pm_issued_at permit)),
      (''expiresAt'', JInt (pm_expires_at permit)),
      (''claims'', JList (map (envelope_claim sha) (ra_claims (pm_request permit))))]"

definition issue_permit_envelope ::
  "hash \<Rightarrow> keyed_hash \<Rightarrow> admission_permit \<Rightarrow> string \<Rightarrow> py_error + (string, json) dict" where
  "issue_permit_envelope sha mac permit signing_key =
     (if signing_key = [] then Inl (ValueError ''permit signing key must be non-empty'')
      else let body = envelope_body sha permit;
               signature = mac signing_key (json_dumps (JObj body))
           in Inr (body @ [(''signature'', JStr signature)]))"

text \<open>Dictionary equality with \<open>asdict(expected_authority)\<close>.\<close>

definition authority_matches :: "(string, json) dict \<Rightarrow> authority_epoch \<Rightarrow> bool" where
  "authority_matches d a \<longleftrightarrow>
     set (dict_keys d) = {''scope'', ''authority_identity'', ''epoch'', ''boot_epoch''}
     \<and> dict_get d ''scope'' = Some (JStr (ae_scope a))
     \<and> dict_get d ''authority_identity'' = Some (JStr (ae_authority_identity a))
     \<and> dict_get d ''boot_epoch'' = Some (JStr (ae_boot_epoch a))
     \<and> (case dict_get d ''epoch'' of None \<Rightarrow> False | Some v \<Rightarrow> py_eq_int v (ae_epoch a))"

definition is_ascii :: "string \<Rightarrow> bool" where
  "is_ascii s \<longleftrightarrow> (\<forall>c \<in> set s. (of_char c :: nat) < 128)"

text \<open>\<open>hmac.compare_digest\<close> on two strings, which raises on a string that is not ASCII.\<close>

definition compare_digest :: "string \<Rightarrow> string \<Rightarrow> py_error + bool" where
  "compare_digest a b =
     (if is_ascii a \<and> is_ascii b then Inr (a = b)
      else Inl (TypeError ''comparing strings with non-ASCII characters is not supported''))"

definition str_of_get :: "(json \<Rightarrow> string) \<Rightarrow> (string, json) dict \<Rightarrow> string \<Rightarrow> string" where
  "str_of_get rep d k = (case dict_get d k of None \<Rightarrow> [] | Some v \<Rightarrow> py_str rep v)"

definition int_of_get :: "(string, json) dict \<Rightarrow> string \<Rightarrow> py_error + int" where
  "int_of_get d k = (case dict_get d k of None \<Rightarrow> Inr 0 | Some v \<Rightarrow> py_int v)"

definition claim_matches :: "hash \<Rightarrow> resource_key \<Rightarrow> (string, json) dict \<Rightarrow> bool" where
  "claim_matches sha expected_resource item \<longleftrightarrow>
     dict_get item ''resource'' = Some (JStr (stable_id sha expected_resource))
     \<and> dict_get item ''providerIdentity'' = Some (JStr (provider_identity expected_resource))
     \<and> dict_get item ''providerBootEpoch'' = Some (JStr (provider_boot_epoch expected_resource))"

definition verify_permit_envelope ::
  "hash \<Rightarrow> keyed_hash \<Rightarrow> (json \<Rightarrow> string) \<Rightarrow> (json \<Rightarrow> py_error + (string, json) dict)
     \<Rightarrow> (string, json) dict \<Rightarrow> string \<Rightarrow> authority_epoch \<Rightarrow> request_identity \<Rightarrow> resource_key \<Rightarrow> int
     \<Rightarrow> py_error + (string, json) dict" where
  "verify_permit_envelope sha mac rep dict_of envelope signing_key expected_authority
       expected_request_identity expected_resource now =
     (let signature = str_of_get rep envelope ''signature'';
          value = dict_pop ''signature'' envelope;
          expected_signature = mac signing_key (json_dumps (JObj value))
      in sum_then (if signature = [] then Inr False else compare_digest signature expected_signature) (\<lambda>signed.
         if \<not> signed then Inl (PermissionError ''conflict permit signature mismatch'')
         else if dict_get value ''schema'' \<noteq> Some (JStr ''ndnsf-di-conflict-permit-v1'')
         then Inl (ValueError ''conflict permit schema mismatch'')
         else sum_then (case dict_get value ''authority'' of None \<Rightarrow> Inr []
                        | Some v \<Rightarrow> if py_truth v then py_dict dict_of v else Inr []) (\<lambda>authority.
         if \<not> authority_matches authority expected_authority
         then Inl (RuntimeError ''conflict permit authority epoch mismatch'')
         else sum_then (int_of_get value ''attempt'') (\<lambda>attempt.
         if (str_of_get rep value ''requesterIdentity'', str_of_get rep value ''requestId'', attempt)
            \<noteq> expected_request_identity
         then Inl (RuntimeError ''conflict permit request binding mismatch'')
         else sum_then (int_of_get value ''issuedAt'') (\<lambda>issued.
         if now < issued then Inl (RuntimeError ''conflict permit is not live'')
         else sum_then (int_of_get value ''expiresAt'') (\<lambda>expires.
         if now \<ge> expires then Inl (RuntimeError ''conflict permit is not live'')
         else sum_then (case dict_get value ''claims'' of None \<Rightarrow> Inr [] | Some v \<Rightarrow> py_iter v) (\<lambda>items.
              sum_then (sum_map (py_dict dict_of) items) (\<lambda>claims.
         let matches = filter (claim_matches sha expected_resource) claims in
         if length matches \<noteq> 1 then Inl (RuntimeError ''conflict permit lacks exact target claim'')
         else sum_then (int_of_get (hd matches) ''quantity'') (\<lambda>quantity.
         if quantity \<le> 0 then Inl (RuntimeError ''conflict permit lacks exact target claim'')
         else case dict_get value ''permitId'' of
                None \<Rightarrow> Inl KeyError
              | Some permit_id \<Rightarrow> Inr
                  [(''admitted'', JBool True), (''permitId'', JStr (py_str rep permit_id)),
                   (''authorityEpoch'', JInt (ae_epoch expected_authority)),
                   (''authorityDigest'', JStr (authority_digest sha expected_authority)),
                   (''canonicalResourceId'', JStr (stable_id sha expected_resource)),
                   (''resourceSequence'', JInt 1), (''quantity'', JInt quantity)])))))))))"

section \<open>Properties\<close>

text \<open>What the verifier needs of the keyed hash: a hexadecimal digest is ASCII and not empty.\<close>

definition hex_output :: "keyed_hash \<Rightarrow> bool" where
  "hex_output mac \<longleftrightarrow> (\<forall>key msg. mac key msg \<noteq> [] \<and> is_ascii (mac key msg))"

text \<open>No other claim of the request has the digest of the expected resource.\<close>

definition digest_unique :: "hash \<Rightarrow> resource_key \<Rightarrow> resource_claim list \<Rightarrow> bool" where
  "digest_unique sha key claims \<longleftrightarrow>
     (\<forall>claim \<in> set claims. stable_id sha (claim_key claim) = stable_id sha key \<longrightarrow> claim_key claim = key)"

lemma issued_envelope_fields:
  assumes "issue_permit_envelope sha mac permit key = Inr env"
  shows "dict_pop ''signature'' env = envelope_body sha permit"
    and "dict_get env ''signature'' = Some (JStr (mac key (json_dumps (JObj (envelope_body sha permit)))))"
  using assms
  by (auto simp: issue_permit_envelope_def envelope_body_def Let_def split: if_splits)

lemma envelope_match:
  "claim_matches sha expected (case envelope_claim sha claim of JObj kvs \<Rightarrow> kvs | _ \<Rightarrow> [])
    \<longleftrightarrow> stable_id sha (claim_key claim) = stable_id sha expected
      \<and> provider_identity (claim_key claim) = provider_identity expected
      \<and> provider_boot_epoch (claim_key claim) = provider_boot_epoch expected"
  by (auto simp: claim_matches_def envelope_claim_def)

definition claim_item :: "hash \<Rightarrow> resource_claim \<Rightarrow> (string, json) dict" where
  "claim_item sha claim = (case envelope_claim sha claim of JObj kvs \<Rightarrow> kvs | _ \<Rightarrow> [])"

lemma envelope_items:
  "sum_map (py_dict dict_of) (map (envelope_claim sha) claims) = Inr (map (claim_item sha) claims)"
  by (induction claims) (auto simp: py_dict_def claim_item_def envelope_claim_def)

lemma filter_eq_single: "distinct xs \<Longrightarrow> x \<in> set xs \<Longrightarrow> filter (\<lambda>y. y = x) xs = [x]"
proof (induction xs)
  case (Cons y ys)
  then show ?case by (cases "y = x") (auto simp: filter_empty_conv)
qed simp

text \<open>Exactly one item of the envelope of a valid request matches a claimed resource.\<close>

lemma envelope_single_match:
  assumes "distinct (map claim_key claims)" and "claim \<in> set claims"
    and "digest_unique sha (claim_key claim) claims"
  shows "filter (claim_matches sha (claim_key claim)) (map (claim_item sha) claims)
    = [claim_item sha claim]"
proof -
  have iff: "claim_matches sha (claim_key claim) (claim_item sha x) \<longleftrightarrow> x = claim"
    if "x \<in> set claims" for x
    using that assms unfolding claim_item_def envelope_match digest_unique_def
    by (metis (no_types, lifting) distinct_map inj_on_def)
  have "filter (\<lambda>x. claim_matches sha (claim_key claim) (claim_item sha x)) claims
      = filter (\<lambda>x. x = claim) claims"
    using iff by (intro filter_cong) auto
  also have "\<dots> = [claim]"
    using assms(1,2) by (simp add: filter_eq_single distinct_map)
  finally show ?thesis by (simp add: filter_map comp_def)
qed


text \<open>
  A provider accepts offline the permit that the coordinator issued: the verification of an
  issued envelope with the same key, authority, request and a claimed resource, at a time inside
  the permit's window, returns the permit's identifier and the claimed quantity.
\<close>

lemma permit_envelope_roundtrip:
  assumes "hex_output mac" and "issue_permit_envelope sha mac permit key = Inr env"
    and "claim \<in> set (ra_claims (pm_request permit))" and "0 < claim_quantity claim"
    and "distinct (map claim_key (ra_claims (pm_request permit)))"
    and "digest_unique sha (claim_key claim) (ra_claims (pm_request permit))"
    and "pm_issued_at permit \<le> now" and "now < pm_expires_at permit"
  shows "verify_permit_envelope sha mac rep dict_of env key (pm_authority permit)
      (identity (pm_request permit)) (claim_key claim) now
    = Inr [(''admitted'', JBool True), (''permitId'', JStr (pm_permit_id permit)),
           (''authorityEpoch'', JInt (ae_epoch (pm_authority permit))),
           (''authorityDigest'', JStr (authority_digest sha (pm_authority permit))),
           (''canonicalResourceId'', JStr (stable_id sha (claim_key claim))),
           (''resourceSequence'', JInt 1), (''quantity'', JInt (claim_quantity claim))]"
proof -
  note fields = issued_envelope_fields [OF assms(2)]
  have signed: "str_of_get rep env ''signature'' = mac key (json_dumps (JObj (envelope_body sha permit)))"
    by (simp add: str_of_get_def fields py_str_def)
  have body: "dict_get (envelope_body sha permit) ''schema'' = Some (JStr ''ndnsf-di-conflict-permit-v1'')"
    "dict_get (envelope_body sha permit) ''authority'' = Some (authority_json (pm_authority permit))"
    "int_of_get (envelope_body sha permit) ''attempt'' = Inr (ra_attempt (pm_request permit))"
    "str_of_get rep (envelope_body sha permit) ''requesterIdentity'' = ra_requester_identity (pm_request permit)"
    "str_of_get rep (envelope_body sha permit) ''requestId'' = ra_request_id (pm_request permit)"
    "int_of_get (envelope_body sha permit) ''issuedAt'' = Inr (pm_issued_at permit)"
    "int_of_get (envelope_body sha permit) ''expiresAt'' = Inr (pm_expires_at permit)"
    "dict_get (envelope_body sha permit) ''claims''
       = Some (JList (map (envelope_claim sha) (ra_claims (pm_request permit))))"
    "dict_get (envelope_body sha permit) ''permitId'' = Some (JStr (pm_permit_id permit))"
    by (simp_all add: envelope_body_def int_of_get_def str_of_get_def py_int_def py_str_def)
  have authority: "\<exists>kvs. authority_json (pm_authority permit) = JObj kvs \<and> kvs \<noteq> []
      \<and> authority_matches kvs (pm_authority permit)"
    by (auto simp: authority_json_def authority_matches_def py_eq_int_def)
  have item: "int_of_get (claim_item sha claim) ''quantity'' = Inr (claim_quantity claim)"
    by (simp add: int_of_get_def claim_item_def envelope_claim_def py_int_def)
  from authority assms(1,4,7,8) show ?thesis
    by (auto simp: verify_permit_envelope_def Let_def signed fields body hex_output_def compare_digest_def
        py_truth_def py_dict_def identity_def py_iter_def envelope_items
        envelope_single_match [OF assms(5,3,6)] item py_str_def)
qed



section \<open>Witnesses\<close>

definition demo_mac :: keyed_hash where
  "demo_mac key msg = ''m''"

definition demo_envelope :: "(string, json) dict" where
  "demo_envelope = envelope_body demo_hash demo_permit @ [(''signature'', JStr ''m'')]"

lemma demo_envelope_facts:
  "hex_output demo_mac"
  "issue_permit_envelope demo_hash demo_mac demo_permit ''k'' = Inr demo_envelope"
  "demo_claim \<in> set (ra_claims (pm_request demo_permit))" "0 < claim_quantity demo_claim"
  "distinct (map claim_key (ra_claims (pm_request demo_permit)))"
  "digest_unique demo_hash (claim_key demo_claim) (ra_claims (pm_request demo_permit))"
  "pm_issued_at demo_permit \<le> 5" "5 < pm_expires_at demo_permit"
  by (simp_all add: hex_output_def demo_mac_def is_ascii_def issue_permit_envelope_def
      demo_envelope_def demo_permit_def new_permit_def demo_request_def digest_unique_def
      demo_claim_def)

lemma demo_verified: "verify_permit_envelope demo_hash demo_mac (\<lambda>_. []) (\<lambda>_. Inr []) demo_envelope ''k''
      demo_authority (''q'', ''x'', 1) demo_key 5
    = Inr [(''admitted'', JBool True), (''permitId'', JStr ''h''), (''authorityEpoch'', JInt 1),
           (''authorityDigest'', JStr ''h''), (''canonicalResourceId'', JStr ''h''),
           (''resourceSequence'', JInt 1), (''quantity'', JInt 1)]"
  by (simp add: verify_permit_envelope_def demo_envelope_def envelope_body_def str_of_get_def
      py_str_def demo_mac_def compare_digest_def is_ascii_def demo_permit_def new_permit_def
      authority_json_def py_truth_def py_dict_def authority_matches_def py_eq_int_def int_of_get_def
      py_int_def demo_request_def py_iter_def envelope_claim_def claim_matches_def stable_id_def
      demo_claim_def authority_digest_def demo_authority_def)

theorem permit_envelope_roundtrip_witness:
  "\<exists>out. verify_permit_envelope demo_hash demo_mac (\<lambda>_. []) (\<lambda>_. Inr []) demo_envelope ''k''
      (pm_authority demo_permit) (identity (pm_request demo_permit)) (claim_key demo_claim) 5 = Inr out
    \<and> dict_get out ''quantity'' = Some (JInt 1)"
proof -
  have "claim_quantity demo_claim = 1" by (simp add: demo_claim_def)
  with permit_envelope_roundtrip [OF demo_envelope_facts, of "\<lambda>_. []" "\<lambda>_. Inr []"] show ?thesis by auto
qed


end
