(* ===== verification/Conflict_Snapshot.thy ===== *)
theory Conflict_Snapshot
  imports Conflict_Safety
begin

text \<open>
  Persistence of the conflict coordinator: \<open>snapshot\<close>, \<open>restore\<close> and the conversions they use
  (\<open>core/conflict_coordination.py\<close>). The snapshot dictionary is the record of its entries, and
  \<open>restore\<close> runs the constructors on them; entries that are missing or have another JSON type
  are not modelled.
\<close>

record coord_snapshot =
  sn_schema :: string
  sn_authority :: authority_epoch
  sn_max_permit_ms :: int
  sn_available :: bool
  sn_cleanup_only :: bool
  sn_sequence :: int
  sn_submission_sequence :: int
  sn_declarations :: "resource_declaration list"
  sn_queued :: "(int \<times> request_attempt) list"
  sn_permits :: "admission_permit list"
  sn_events :: "ledger_event list"

definition coord_snapshot :: "coordinator \<Rightarrow> coord_snapshot" where
  "coord_snapshot c =
     \<lparr>sn_schema = ''spec130-conflict-coordinator-v1'', sn_authority = co_authority c,
      sn_max_permit_ms = co_max_permit_ms c, sn_available = co_available c,
      sn_cleanup_only = co_cleanup_only c, sn_sequence = co_sequence c,
      sn_submission_sequence = co_submission_sequence c,
      sn_declarations = dict_values (co_declarations c), sn_queued = dict_values (co_queued c),
      sn_permits = dict_values (co_permits c), sn_events = co_events c\<rparr>"

definition declaration_from_dict :: "hash \<Rightarrow> resource_declaration \<Rightarrow> py_error + resource_declaration" where
  "declaration_from_dict sha raw =
     sum_then (make_resource_key (decl_key raw)) (\<lambda>key. make_declaration sha (raw\<lparr>decl_key := key\<rparr>))"

definition claim_from_dict :: "resource_claim \<Rightarrow> py_error + resource_claim" where
  "claim_from_dict raw =
     sum_then (make_resource_key (claim_key raw)) (\<lambda>key. make_claim (raw\<lparr>claim_key := key\<rparr>))"

definition request_from_dict :: "request_attempt \<Rightarrow> py_error + request_attempt" where
  "request_from_dict raw =
     sum_then (sum_map claim_from_dict (ra_claims raw)) (\<lambda>claims. make_request (raw\<lparr>ra_claims := claims\<rparr>))"

definition permit_from_dict :: "admission_permit \<Rightarrow> py_error + admission_permit" where
  "permit_from_dict raw =
     sum_then (make_authority (pm_authority raw)) (\<lambda>authority.
     sum_then (request_from_dict (pm_request raw)) (\<lambda>request.
       Inr (raw\<lparr>pm_authority := authority, pm_request := request\<rparr>)))"

fun restore_declarations :: "hash \<Rightarrow> resource_declaration list \<Rightarrow> coordinator \<Rightarrow> py_error + coordinator" where
  "restore_declarations sha [] c = Inr c"
| "restore_declarations sha (raw # raws) c =
     sum_then (declaration_from_dict sha raw) (\<lambda>d. restore_declarations sha raws
       (c\<lparr>co_declarations := dict_set (decl_key d) d (co_declarations c),
          co_physical_keys := dict_set (physical_identity (decl_key d)) (decl_key d) (co_physical_keys c)\<rparr>))"

fun restore_queued :: "(int \<times> request_attempt) list \<Rightarrow> coordinator \<Rightarrow> py_error + coordinator" where
  "restore_queued [] c = Inr c"
| "restore_queued ((n, raw) # raws) c =
     sum_then (request_from_dict raw) (\<lambda>request. restore_queued raws
       (c\<lparr>co_queued := dict_set (identity request) (n, request) (co_queued c)\<rparr>))"

fun restore_permits :: "admission_permit list \<Rightarrow> coordinator \<Rightarrow> py_error + coordinator" where
  "restore_permits [] c = Inr c"
| "restore_permits (raw # raws) c =
     sum_then (permit_from_dict raw) (\<lambda>permit. restore_permits raws
       (c\<lparr>co_permits := dict_set (pm_permit_id permit) permit (co_permits c),
          co_attempt_permits :=
            dict_set (identity (pm_request permit)) (pm_permit_id permit) (co_attempt_permits c)\<rparr>))"

fun restore_events :: "hash \<Rightarrow> string \<Rightarrow> int \<Rightarrow> ledger_event list \<Rightarrow> coordinator \<Rightarrow> py_error + coordinator" where
  "restore_events sha previous expected [] c = Inr c"
| "restore_events sha previous expected (event # events) c =
     (if ev_sequence event \<noteq> expected \<or> ev_causal_predecessor event \<noteq> previous
      then Inl (RuntimeError ''coordinator event log gap or fork'')
      else if json_digest sha (event_body event) \<noteq> ev_digest event
      then Inl (RuntimeError ''coordinator event digest mismatch'')
      else if ev_authority_digest event \<noteq> authority_digest sha (co_authority c)
              \<and> ev_event_kind event \<noteq> ''AUTHORITY_ROTATE''
      then Inl (RuntimeError ''coordinator event authority mismatch'')
      else restore_events sha (ev_digest event) (expected + 1) events
             (c\<lparr>co_events := co_events c @ [event],
                co_event_digests := dict_set (ev_event_id event) (ev_digest event) (co_event_digests c)\<rparr>))"

definition coord_restore :: "hash \<Rightarrow> coord_snapshot \<Rightarrow> py_error + coordinator" where
  "coord_restore sha sn =
     (if sn_schema sn \<noteq> ''spec130-conflict-coordinator-v1''
      then Inl (ValueError ''unsupported coordinator snapshot'')
      else sum_then (make_authority (sn_authority sn)) (\<lambda>authority.
           sum_then (coord_init authority (sn_max_permit_ms sn)) (\<lambda>c.
           sum_then (restore_declarations sha (sn_declarations sn)
                       (c\<lparr>co_available := sn_available sn, co_cleanup_only := sn_cleanup_only sn\<rparr>)) (\<lambda>c.
           sum_then (restore_queued (sn_queued sn) c) (\<lambda>c.
           sum_then (restore_permits (sn_permits sn) c) (\<lambda>c.
           sum_then (restore_events sha ''GENESIS'' 1 (sn_events sn) c) (\<lambda>c.
             let c = c\<lparr>co_sequence := sn_sequence sn, co_submission_sequence := sn_submission_sequence sn\<rparr> in
             if co_sequence c \<noteq> int (length (sn_events sn))
             then Inl (RuntimeError ''coordinator snapshot sequence mismatch'')
             else sum_then (coord_assert_safe sha c) (\<lambda>_. Inr c))))))))"

section \<open>What is stored was constructed\<close>

lemma made_from_dict:
  "declaration_made sha d \<Longrightarrow> declaration_from_dict sha d = Inr d"
  "request_made r \<Longrightarrow> request_from_dict r = Inr r"
proof -
  show "declaration_made sha d \<Longrightarrow> declaration_from_dict sha d = Inr d"
    by (simp add: declaration_from_dict_def declaration_made_def key_made_def)
  have "claim_made c \<Longrightarrow> claim_from_dict c = Inr c" for c
    by (simp add: claim_from_dict_def claim_made_def key_made_def)
  then show "request_made r \<Longrightarrow> request_from_dict r = Inr r"
    using sum_map_Inr [of "ra_claims r" claim_from_dict "\<lambda>x. x"]
    by (simp add: request_from_dict_def request_made_def)
qed

text \<open>
  The invariant of persistence: stored objects are constructed and stored under their own keys,
  and the index of physical resources follows the declarations.
\<close>

definition stored_ok :: "hash \<Rightarrow> coordinator \<Rightarrow> bool" where
  "stored_ok sha c \<longleftrightarrow> authority_made (co_authority c) \<and> dict_ok (co_declarations c)
     \<and> dict_all (\<lambda>k d. decl_key d = k \<and> declaration_made sha d) (co_declarations c)
     \<and> dict_all (\<lambda>i (n, request). request_made request) (co_queued c)
     \<and> dict_all (\<lambda>i p. pm_permit_id p = i \<and> authority_made (pm_authority p) \<and> request_made (pm_request p))
         (co_permits c)
     \<and> co_physical_keys c = map (\<lambda>k. (physical_identity k, k)) (dict_keys (co_declarations c))
     \<and> distinct (map physical_identity (dict_keys (co_declarations c)))"

lemma stored_ok_register:
  assumes "stored_ok sha c" and "declaration_made sha d"
    and "dict_get (co_physical_keys c) (physical_identity (decl_key d)) \<in> {None, Some (decl_key d)}"
  shows "stored_ok sha (c\<lparr>co_declarations := dict_set (decl_key d) d (co_declarations c),
      co_physical_keys := dict_set (physical_identity (decl_key d)) (decl_key d) (co_physical_keys c)\<rparr>)"
proof -
  let ?k = "decl_key d"
  have phys: "co_physical_keys c = map (\<lambda>k. (physical_identity k, k)) (dict_keys (co_declarations c))"
    and dist: "distinct (map physical_identity (dict_keys (co_declarations c)))"
    using assms(1) by (simp_all add: stored_ok_def)
  have get: "dict_get (co_physical_keys c) (physical_identity ?k) = Some ?k
      \<longleftrightarrow> ?k \<in> set (dict_keys (co_declarations c))"
    using dist unfolding phys by (subst map_of_eq_Some_iff) (auto simp: comp_def image_iff Bex_def)
  show ?thesis
  proof (cases "dict_get (co_declarations c) ?k")
    case None
    then have new: "?k \<notin> set (dict_keys (co_declarations c))" by (simp only: dict_get_None_iff not_False_eq_True)
    with get assms(3) have none: "dict_get (co_physical_keys c) (physical_identity ?k) = None" by auto
    then have "physical_identity ?k \<notin> physical_identity ` set (dict_keys (co_declarations c))"
      unfolding phys dict_get_None_iff by (auto simp: image_iff)
    moreover have "dict_keys (dict_set ?k d (co_declarations c)) = dict_keys (co_declarations c) @ [?k]"
      by (simp add: dict_set_new [OF None])
    moreover have "dict_set (physical_identity ?k) ?k (co_physical_keys c)
        = map (\<lambda>k. (physical_identity k, k)) (dict_keys (co_declarations c) @ [?k])"
      by (subst dict_set_new [OF none]) (simp only: phys map_append list.map)
    ultimately show ?thesis using assms(1,2) by (simp add: stored_ok_def del: map_map)
  next
    case (Some e)
    then have "?k \<in> set (dict_keys (co_declarations c))" by (metis dict_get_None_iff option.distinct(1))
    with get have "dict_get (co_physical_keys c) (physical_identity ?k) = Some ?k" by simp
    with assms(1,2) Some show ?thesis
      by (simp add: stored_ok_def dict_set_same dict_keys_set_old)
  qed
qed

lemma stored_ok_cong:
  "stored_ok sha c \<Longrightarrow> co_authority c' = co_authority c \<Longrightarrow> co_declarations c' = co_declarations c
    \<Longrightarrow> co_queued c' = co_queued c \<Longrightarrow> co_permits c' = co_permits c
    \<Longrightarrow> co_physical_keys c' = co_physical_keys c \<Longrightarrow> stored_ok sha c'"
  by (simp add: stored_ok_def)

lemma stored_ok_micro: "coord_micro sha rep c c' \<Longrightarrow> stored_ok sha c \<Longrightarrow> stored_ok sha c'"
proof (induction rule: coord_micro.induct)
  case (append kind t subject i c r c')
  then show ?case using coord_append_frame [OF append(1)] by (blast intro: stored_ok_cong)
next
  case (register d c)
  show ?case using register(4,1,3) by (rule stored_ok_register)
next
  case (finish c pid p now reason)
  then have "pm_permit_id p = pid \<and> authority_made (pm_authority p) \<and> request_made (pm_request p)"
    by (auto simp: stored_ok_def dest: dict_allD)
  with finish(2) show ?case by (simp add: stored_ok_def)
next
  case (activate c pid p now bindings validated)
  then have "pm_permit_id p = pid \<and> authority_made (pm_authority p) \<and> request_made (pm_request p)"
    by (auto simp: stored_ok_def dest: dict_allD)
  with activate(5) show ?case by (simp add: stored_ok_def)
next
  case (grant c request n now permit_ms permit)
  have "request_made request" using grant(1,6) by (auto simp: stored_ok_def dest: dict_allD)
  moreover have "pm_request permit = request" "pm_authority permit = co_authority c"
    by (simp_all add: grant(5) new_permit_def)
  ultimately show ?case using grant(6) by (simp add: stored_ok_def)
qed (simp_all add: stored_ok_def)


text \<open>
  The index of attempts. Permit identifiers are digests; when as many permits as attempts are
  stored, no identifier was issued twice, and the index then follows the permits.
\<close>

definition attempts_ok :: "coordinator \<Rightarrow> bool" where
  "attempts_ok c \<longleftrightarrow> dict_ok (co_attempt_permits c) \<and> dict_all (\<lambda>i pid. pid \<noteq> []) (co_attempt_permits c)
     \<and> dict_all (\<lambda>i x. dict_get (co_attempt_permits c) i = None) (co_queued c)
     \<and> length (co_permits c) \<le> length (co_attempt_permits c)
     \<and> (length (co_permits c) = length (co_attempt_permits c) \<longrightarrow>
          co_attempt_permits c = map (\<lambda>(pid, p). (identity (pm_request p), pid)) (co_permits c))"

lemma map_set_old:
  assumes "dict_get d k = Some v" and "f (k, w) = f (k, v)"
  shows "map f (dict_set k w d) = map f d"
  using assms by (induction d) auto

lemma attempts_ok_replace:
  assumes "attempts_ok c" and "dict_get (co_permits c) pid = Some p" and "pm_request q = pm_request p"
  shows "attempts_ok (c\<lparr>co_permits := dict_set pid q (co_permits c)\<rparr>)"
proof -
  have "dict_has (co_permits c) pid" using assms(2) by (simp add: dict_has_def)
  moreover have "map (\<lambda>(pid, p). (identity (pm_request p), pid)) (dict_set pid q (co_permits c))
      = map (\<lambda>(pid, p). (identity (pm_request p), pid)) (co_permits c)"
    by (rule map_set_old [OF assms(2)]) (simp add: assms(3))
  ultimately show ?thesis using assms(1) by (simp add: attempts_ok_def length_dict_set)
qed

lemma attempts_ok_grant:
  assumes "attempts_ok c" and "queue_ok c" and "dict_get (co_queued c) (identity request) = Some (n, request)"
    and "pm_request permit = request" and "pm_permit_id permit \<noteq> []"
  shows "attempts_ok (c\<lparr>co_permits := dict_set (pm_permit_id permit) permit (co_permits c),
      co_attempt_permits := dict_set (identity request) (pm_permit_id permit) (co_attempt_permits c),
      co_queued := dict_pop (identity request) (co_queued c)\<rparr>)"
proof -
  let ?q = "dict_pop (identity request) (co_queued c)"
  have new: "dict_get (co_attempt_permits c) (identity request) = None"
    using assms(1,3) by (auto simp: attempts_ok_def dest: dict_allD)
  have waiting: "dict_all (\<lambda>i x. dict_get (dict_set (identity request) (pm_permit_id permit)
      (co_attempt_permits c)) i = None) ?q"
    using assms(1) by (auto simp: attempts_ok_def dict_all_def dict_simps split: if_splits)
  let ?a = "dict_set (identity request) (pm_permit_id permit) (co_attempt_permits c)"
  let ?p = "dict_set (pm_permit_id permit) permit (co_permits c)"
  have a: "?a = co_attempt_permits c @ [(identity request, pm_permit_id permit)]"
    by (rule dict_set_new [OF new])
  have "length ?p \<le> length ?a \<and> (length ?p = length ?a \<longrightarrow>
      ?a = map (\<lambda>(pid, p). (identity (pm_request p), pid)) ?p)"
  proof (cases "dict_get (co_permits c) (pm_permit_id permit)")
    case None
    with assms(1,4) show ?thesis unfolding a by (simp add: attempts_ok_def dict_set_new)
  next
    case (Some p)
    then have "length ?p = length (co_permits c)" by (simp add: length_dict_set dict_has_def)
    with assms(1) show ?thesis unfolding a by (simp add: attempts_ok_def)
  qed
  moreover have "dict_ok ?a" "dict_all (\<lambda>i pid. pid \<noteq> []) ?a"
    using assms(1,5) by (simp_all add: attempts_ok_def)
  ultimately show ?thesis using waiting unfolding attempts_ok_def by simp
qed

lemma attempts_ok_micro:
  assumes "\<forall>s. sha s \<noteq> []"
  shows "coord_micro sha rep c c' \<Longrightarrow> queue_ok c \<Longrightarrow> attempts_ok c \<Longrightarrow> attempts_ok c'"
proof (induction rule: coord_micro.induct)
  case (append kind t subject i c r c')
  then show ?case using coord_append_frame [OF append(1)] by (simp add: attempts_ok_def)
next
  case (enqueue request c)
  then have "dict_get (co_attempt_permits c) (identity request) = None"
    by (auto simp: attempts_ok_def dest: dict_allD)
  with enqueue(6) show ?case by (simp add: attempts_ok_def)
next
  case (finish c pid p now reason)
  show ?case by (rule attempts_ok_replace [OF finish(3,1)]) simp
next
  case (activate c pid p now bindings validated)
  show ?case by (rule attempts_ok_replace [OF activate(6,1)]) simp
next
  case (grant c request n now permit_ms permit)
  have "pm_request permit = request" "pm_permit_id permit \<noteq> []"
    using assms by (simp_all add: grant(5) new_permit_def json_digest_def)
  then show ?case using attempts_ok_grant grant(1,6,7) by blast
qed (simp_all add: attempts_ok_def)

text \<open>The invariant of a coordinator that can be persisted.\<close>

definition persist_inv :: "hash \<Rightarrow> coordinator \<Rightarrow> bool" where
  "persist_inv sha c \<longleftrightarrow> coord_inv sha c \<and> stored_ok sha c \<and> ((\<forall>s. sha s \<noteq> []) \<longrightarrow> attempts_ok c)"

lemma persist_inv_micro: "coord_micro sha rep c c' \<Longrightarrow> persist_inv sha c \<Longrightarrow> persist_inv sha c'"
  by (auto simp: persist_inv_def coord_inv_def intro: attempts_ok_micro stored_ok_micro
      dest: coord_inv_micro)

lemma persist_inv_micros: "(coord_micro sha rep)\<^sup>*\<^sup>* c c' \<Longrightarrow> persist_inv sha c \<Longrightarrow> persist_inv sha c'"
  by (induction rule: rtranclp_induct) (auto intro: persist_inv_micro)

interpretation persist: invariant_system coord_start "coord_step sha rep" "persist_inv sha"
  for sha rep
proof unfold_locales
  show "coord_start s \<Longrightarrow> persist_inv sha s" for s
    using coord_start_inv
    by (auto simp: persist_inv_def coord_start_def coord_init_def stored_ok_def attempts_ok_def
        split: if_splits)
  show "persist_inv sha s \<Longrightarrow> coord_step sha rep s t \<Longrightarrow> persist_inv sha t" for s t
    using coord_step_micro persist_inv_micros persist_inv_def coord_inv_def by metis
qed


section \<open>Restoring\<close>

lemma restore_declarations_ok:
  assumes "\<forall>d \<in> set ds. declaration_made sha d"
    and "distinct (dict_keys (co_declarations c) @ map decl_key ds)"
    and "distinct (dict_keys (co_physical_keys c) @ map (\<lambda>d. physical_identity (decl_key d)) ds)"
  shows "restore_declarations sha ds c = Inr (c\<lparr>
      co_declarations := co_declarations c @ map (\<lambda>d. (decl_key d, d)) ds,
      co_physical_keys := co_physical_keys c @ map (\<lambda>d. (physical_identity (decl_key d), decl_key d)) ds\<rparr>)"
  using assms
proof (induction ds arbitrary: c)
  case (Cons d ds)
  have "dict_get (co_declarations c) (decl_key d) = None"
    "dict_get (co_physical_keys c) (physical_identity (decl_key d)) = None"
    using Cons.prems(2,3) by (auto simp: map_of_eq_None_iff)
  with Cons show ?case by (simp add: made_from_dict dict_set_new)
qed simp

lemma restore_queued_ok:
  assumes "\<forall>x \<in> set qs. request_made (snd x)"
    and "distinct (dict_keys (co_queued c) @ map (\<lambda>x. identity (snd x)) qs)"
  shows "restore_queued qs c = Inr (c\<lparr>co_queued := co_queued c @ map (\<lambda>x. (identity (snd x), x)) qs\<rparr>)"
  using assms
proof (induction qs arbitrary: c)
  case (Cons x qs)
  obtain n request where x: "x = (n, request)" by (cases x)
  have "dict_get (co_queued c) (identity request) = None"
    using Cons.prems(2) x by (auto simp: map_of_eq_None_iff)
  with Cons x show ?case by (simp add: made_from_dict dict_set_new)
qed simp

lemma restore_permits_ok:
  assumes "\<forall>p \<in> set ps. authority_made (pm_authority p) \<and> request_made (pm_request p)"
    and "distinct (dict_keys (co_permits c) @ map pm_permit_id ps)"
    and "distinct (dict_keys (co_attempt_permits c) @ map (\<lambda>p. identity (pm_request p)) ps)"
  shows "restore_permits ps c = Inr (c\<lparr>co_permits := co_permits c @ map (\<lambda>p. (pm_permit_id p, p)) ps,
      co_attempt_permits := co_attempt_permits c @ map (\<lambda>p. (identity (pm_request p), pm_permit_id p)) ps\<rparr>)"
  using assms
proof (induction ps arbitrary: c)
  case (Cons p ps)
  have "dict_get (co_permits c) (pm_permit_id p) = None"
    "dict_get (co_attempt_permits c) (identity (pm_request p)) = None"
    using Cons.prems(2,3) by (auto simp: map_of_eq_None_iff)
  moreover have "permit_from_dict p = Inr p"
    using Cons.prems(1) by (simp add: permit_from_dict_def authority_made_def made_from_dict)
  ultimately show ?case using Cons by (simp add: dict_set_new)
qed simp

text \<open>An event that was logged under another authority than the current one.\<close>

definition foreign_event :: "hash \<Rightarrow> authority_epoch \<Rightarrow> ledger_event \<Rightarrow> bool" where
  "foreign_event sha authority e \<longleftrightarrow> ev_authority_digest e \<noteq> authority_digest sha authority
     \<and> ev_event_kind e \<noteq> ''AUTHORITY_ROTATE''"

lemma restore_events_ok:
  assumes "ledger_chain sha previous n es"
    and "distinct (dict_keys (co_event_digests c) @ map ev_event_id es)"
  shows "restore_events sha previous n es c =
    (if \<exists>e \<in> set es. foreign_event sha (co_authority c) e
     then Inl (RuntimeError ''coordinator event authority mismatch'')
     else Inr (c\<lparr>co_events := co_events c @ es,
        co_event_digests := co_event_digests c @ map (\<lambda>e. (ev_event_id e, ev_digest e)) es\<rparr>))"
  using assms
proof (induction es arbitrary: previous n c)
  case (Cons e es)
  have "dict_get (co_event_digests c) (ev_event_id e) = None"
    using Cons.prems(2) by (auto simp: map_of_eq_None_iff)
  moreover have digest: "json_digest sha (event_body e) = ev_digest e" using Cons.prems(1) by simp
  moreover let ?c = "c\<lparr>co_events := co_events c @ [e],
      co_event_digests := co_event_digests c @ [(ev_event_id e, ev_digest e)]\<rparr>"
  have "restore_events sha (ev_digest e) (n + 1) es ?c =
    (if \<exists>e \<in> set es. foreign_event sha (co_authority ?c) e
     then Inl (RuntimeError ''coordinator event authority mismatch'')
     else Inr (?c\<lparr>co_events := co_events ?c @ es,
        co_event_digests := co_event_digests ?c @ map (\<lambda>e. (ev_event_id e, ev_digest e)) es\<rparr>))"
    using Cons.prems by (intro Cons.IH) auto
  ultimately show ?case using Cons.prems(1) by (auto simp: dict_set_new foreign_event_def)
qed simp

text \<open>A dictionary is the list of its values, each under its own key.\<close>

lemma dict_from_values:
  assumes "dict_ok d" and "dict_all (\<lambda>k v. f v = k) d"
  shows "map (\<lambda>v. (f v, v)) (dict_values d) = d" and "map f (dict_values d) = dict_keys d"
proof -
  have "f v = k" if "(k, v) \<in> set d" for k v
    using assms that by (auto simp: dict_get_iff dest: dict_allD)
  then show "map (\<lambda>v. (f v, v)) (dict_values d) = d" "map f (dict_values d) = dict_keys d"
    by (auto simp: comp_def intro!: map_idI)
qed

lemma persist_lists:
  assumes inv: "persist_inv sha c" and sha: "\<forall>s. sha s \<noteq> []"
    and len: "length (co_permits c) = length (co_attempt_permits c)"
  shows "map (\<lambda>d. (decl_key d, d)) (dict_values (co_declarations c)) = co_declarations c"
    and "map (\<lambda>x. (identity (snd x), x)) (dict_values (co_queued c)) = co_queued c"
    and "map (\<lambda>p. (pm_permit_id p, p)) (dict_values (co_permits c)) = co_permits c"
    and "co_attempt_permits c
      = map (\<lambda>p. (identity (pm_request p), pm_permit_id p)) (dict_values (co_permits c))"
    and "co_physical_keys c
      = map (\<lambda>d. (physical_identity (decl_key d), decl_key d)) (dict_values (co_declarations c))"
    and "distinct (map decl_key (dict_values (co_declarations c)))"
    and "distinct (map (\<lambda>x. identity (snd x)) (dict_values (co_queued c)))"
    and "distinct (map pm_permit_id (dict_values (co_permits c)))"
    and "distinct (map (\<lambda>p. identity (pm_request p)) (dict_values (co_permits c)))"
    and "distinct (map (\<lambda>d. physical_identity (decl_key d)) (dict_values (co_declarations c)))"
proof -
  have stored: "stored_ok sha c" and queue: "queue_ok c" and att: "attempts_ok c"
    using inv sha by (simp_all add: persist_inv_def coord_inv_def)
  have decl: "dict_ok (co_declarations c)" "dict_all (\<lambda>k d. decl_key d = k) (co_declarations c)"
    using stored by (auto simp: stored_ok_def elim: dict_all_mono)
  have qu: "dict_ok (co_queued c)" "dict_all (\<lambda>i x. identity (snd x) = i) (co_queued c)"
    using queue by (auto simp: queue_ok_def elim!: dict_all_mono)
  have pm: "dict_ok (co_permits c)" "dict_all (\<lambda>i p. pm_permit_id p = i) (co_permits c)"
    using queue_okD(2) [OF queue] stored
    by (simp, auto simp: stored_ok_def elim: dict_all_mono)
  let ?ps = "dict_values (co_permits c)"
  note vals = dict_from_values [OF decl] dict_from_values [OF qu] dict_from_values [OF pm]
  have "co_attempt_permits c = map (\<lambda>(pid, p). (identity (pm_request p), pid)) (co_permits c)"
    using att len by (simp add: attempts_ok_def)
  also have "\<dots> = map (\<lambda>(pid, p). (identity (pm_request p), pid)) (map (\<lambda>p. (pm_permit_id p, p)) ?ps)"
    by (simp only: vals(5))
  finally show index: "co_attempt_permits c = map (\<lambda>p. (identity (pm_request p), pm_permit_id p)) ?ps"
    by (simp add: comp_def)
  have "dict_ok (co_attempt_permits c)" using att by (simp add: attempts_ok_def)
  then show "distinct (map (\<lambda>p. identity (pm_request p)) ?ps)"
    unfolding dict_ok_def index by (simp add: comp_def)
  show "co_physical_keys c
      = map (\<lambda>d. (physical_identity (decl_key d), decl_key d)) (dict_values (co_declarations c))"
    "distinct (map (\<lambda>d. physical_identity (decl_key d)) (dict_values (co_declarations c)))"
    using stored unfolding stored_ok_def vals(2) [symmetric] by (simp_all add: comp_def)
  show "distinct (map decl_key (dict_values (co_declarations c)))"
    "distinct (map (\<lambda>x. identity (snd x)) (dict_values (co_queued c)))"
    "distinct (map pm_permit_id ?ps)"
    using decl(1) qu(1) pm(1) unfolding vals(2,4,6) dict_ok_def by simp_all
  show "map (\<lambda>d. (decl_key d, d)) (dict_values (co_declarations c)) = co_declarations c"
    "map (\<lambda>x. (identity (snd x), x)) (dict_values (co_queued c)) = co_queued c"
    "map (\<lambda>p. (pm_permit_id p, p)) (dict_values (co_permits c)) = co_permits c"
    by (fact vals)+
qed

text \<open>The stored objects are the ones \<open>restore\<close> rebuilds.\<close>

lemma restore_snapshot:
  assumes inv: "persist_inv sha c" and sha: "\<forall>s. sha s \<noteq> []"
    and len: "length (co_permits c) = length (co_attempt_permits c)"
  shows "coord_restore sha (coord_snapshot c) =
    (if \<exists>e \<in> set (co_events c). foreign_event sha (co_authority c) e
     then Inl (RuntimeError ''coordinator event authority mismatch'')
     else sum_then (coord_assert_safe sha c) (\<lambda>_. Inr c))"
proof -
  have stored: "stored_ok sha c" and queue: "queue_ok c"
    and permits: "permits_ok sha c" and ledger: "ledger_ok sha c"
    using inv by (simp_all add: persist_inv_def coord_inv_def)
  have made: "\<forall>d \<in> set (dict_values (co_declarations c)). declaration_made sha d"
    "\<forall>x \<in> set (dict_values (co_queued c)). request_made (snd x)"
    "\<forall>p \<in> set (dict_values (co_permits c)). authority_made (pm_authority p) \<and> request_made (pm_request p)"
    using stored queue
    by (auto simp: stored_ok_def queue_ok_def dict_get_iff dest!: dict_allD)
  note lists = persist_lists [OF assms]
  have auth: "make_authority (co_authority c) = Inr (co_authority c)"
    using stored by (simp add: stored_ok_def authority_made_def)
  have max: "0 < co_max_permit_ms c" using permits by (simp add: permits_ok_def)
  have led: "co_sequence c = int (length (co_events c))" "distinct (map ev_event_id (co_events c))"
    "ledger_chain sha ''GENESIS'' 1 (co_events c)"
    "co_event_digests c = map (\<lambda>e. (ev_event_id e, ev_digest e)) (co_events c)"
    using ledger by (simp_all add: ledger_ok_def)
  let ?f = "\<lambda>a b d p q e g h. \<lparr>co_authority = co_authority c, co_max_permit_ms = co_max_permit_ms c,
     co_available = co_available c, co_cleanup_only = co_cleanup_only c, co_declarations = a,
     co_physical_keys = b, co_queued = d, co_permits = p, co_attempt_permits = q, co_events = e,
     co_event_digests = g, co_sequence = h, co_submission_sequence = 0\<rparr>"
  have r1: "restore_declarations sha (dict_values (co_declarations c)) (?f [] [] [] [] [] [] [] 0)
      = Inr (?f (co_declarations c) (co_physical_keys c) [] [] [] [] [] 0)"
    by (subst restore_declarations_ok [OF made(1)])
      (simp_all only: lists(1,5,6,10) coordinator.simps append_Nil list.map)
  have r2: "restore_queued (dict_values (co_queued c)) (?f a b [] [] [] [] [] 0)
      = Inr (?f a b (co_queued c) [] [] [] [] 0)" for a b
    by (subst restore_queued_ok [OF made(2)])
      (simp_all only: lists(2,7) coordinator.simps append_Nil list.map)
  have r3: "restore_permits (dict_values (co_permits c)) (?f a b d [] [] [] [] 0)
      = Inr (?f a b d (co_permits c) (co_attempt_permits c) [] [] 0)" for a b d
    by (subst restore_permits_ok [OF made(3)])
      (simp_all only: lists(3,4,8,9) coordinator.simps append_Nil list.map)
  have r4: "restore_events sha ''GENESIS'' 1 (co_events c) (?f a b d p q [] [] 0)
      = (if \<exists>e \<in> set (co_events c). foreign_event sha (co_authority c) e
         then Inl (RuntimeError ''coordinator event authority mismatch'')
         else Inr (?f a b d p q (co_events c) (co_event_digests c) 0))" for a b d p q
    by (subst restore_events_ok) (simp_all add: led(2,3,4))
  have init: "coord_init (co_authority c) (co_max_permit_ms c) = Inr (?f [] [] [] [] [] [] [] 0
      \<lparr>co_available := True, co_cleanup_only := False\<rparr>)"
    using max by (simp add: coord_init_def)
  have whole: "\<lparr>co_authority = co_authority c, co_max_permit_ms = co_max_permit_ms c,
     co_available = co_available c, co_cleanup_only = co_cleanup_only c,
     co_declarations = co_declarations c, co_physical_keys = co_physical_keys c,
     co_queued = co_queued c, co_permits = co_permits c, co_attempt_permits = co_attempt_permits c,
     co_events = co_events c, co_event_digests = co_event_digests c, co_sequence = co_sequence c,
     co_submission_sequence = co_submission_sequence c\<rparr> = c"
    by simp
  show ?thesis
    by (simp add: coord_restore_def coord_snapshot_def auth init r1 r2 r3 r4 Let_def whole
        led(1) [symmetric])
qed

section \<open>Properties\<close>

text \<open>
  C26: Restoring the snapshot of a reachable coordinator gives back the whole coordinator
  (declarations, queue, permits, ledger and all indices), provided that no permit identifier was
  issued twice, that every event of the ledger was logged under the current authority, and that
  no two ownership intervals of a resource overlap; otherwise it raises.
\<close>

theorem snapshot_restore_roundtrip:
  assumes "reachable coord_start (coord_step sha rep) c" and "\<forall>s. sha s \<noteq> []"
    and "length (co_permits c) = length (co_attempt_permits c)"
  shows "coord_restore sha (coord_snapshot c) =
    (if \<exists>e \<in> set (co_events c). foreign_event sha (co_authority c) e
     then Inl (RuntimeError ''coordinator event authority mismatch'')
     else if pairs_overlap (ownership_intervals sha c)
     then Inl (AssertionError ''overlapping exclusive ownership intervals'')
     else Inr c)"
  using restore_snapshot [OF persist.reachable_inv [OF assms(1)] assms(2,3)]
  by (simp add: coord_assert_safe_def)

text \<open>
  A coordinator that has rotated its authority can no longer be restored: when the ledger
  held an ordinary event logged under the old authority, and the digests of the two authorities
  differ, \<open>restore\<close> rejects the snapshot taken after \<open>rotate_authority\<close>.
\<close>

lemma restore_after_rotation_raises:
  assumes "reachable coord_start (coord_step sha rep) c" and "\<forall>s. sha s \<noteq> []"
    and "authority_made authority"
    and "coord_rotate_authority sha authority now c = (Inr (), c')"
    and "length (co_permits c) = length (co_attempt_permits c)"
    and "e \<in> set (co_events c)" and "ev_event_kind e \<noteq> ''AUTHORITY_ROTATE''"
    and "ev_authority_digest e = authority_digest sha (co_authority c)"
    and "authority_digest sha authority \<noteq> authority_digest sha (co_authority c)"
  shows "coord_restore sha (coord_snapshot c')
    = Inl (RuntimeError ''coordinator event authority mismatch'')"
proof -
  have "coord_step sha rep c c'" using assms(3,4) by (rule coord_step.rotate)
  with assms(1) have inv: "persist_inv sha c'"
    by (meson persist.reachable_inv reachable.next_state)
  obtain r where r: "coord_append sha ''AUTHORITY_ROTATE'' now (JStr (authority_digest sha authority)) None
      (c\<lparr>co_authority := authority\<rparr>) = (r, c')"
    using assms(4) by (auto simp: coord_rotate_authority_def coord_log_def elim!: and_then_cases split: if_splits)
  note frame = coord_append_frame [OF r]
  have "set (co_events c) \<subseteq> set (co_events c')"
    using r by (cases rule: coord_append_cases) auto
  with assms(6-9) frame(1) have "\<exists>e \<in> set (co_events c'). foreign_event sha (co_authority c') e"
    unfolding foreign_event_def by (intro bexI [of _ e]) auto
  moreover have "length (co_permits c') = length (co_attempt_permits c')"
    using assms(5) frame by simp
  ultimately show ?thesis using restore_snapshot [OF inv assms(2)] by simp
qed


section \<open>Witnesses\<close>

theorem snapshot_restore_roundtrip_witness:
  "coord_restore demo_hash (coord_snapshot (snd demo_granted)) = Inr (snd demo_granted)
   \<and> co_permits (snd demo_granted) = [(''h'', demo_permit)]"
proof -
  have "\<forall>s. demo_hash s \<noteq> []" by (simp add: demo_hash_def)
  moreover have "length (co_permits (snd demo_granted)) = length (co_attempt_permits (snd demo_granted))"
    by (simp add: demo_granted_eq)
  moreover have "\<not> (\<exists>e \<in> set (co_events (snd demo_granted)).
      foreign_event demo_hash (co_authority (snd demo_granted)) e)"
    by (simp add: demo_granted_eq demo_declared_eq foreign_event_def new_event_def authority_digest_def Let_def)
  moreover have "ownership_intervals demo_hash (snd demo_granted) = []"
    by (simp add: demo_granted_eq ownership_intervals_def permit_intervals_def demo_permit_def new_permit_def)
  ultimately show ?thesis
    using snapshot_restore_roundtrip [OF demo_reachable(2) [of "\<lambda>_. []"]] by (simp add: demo_granted_eq)
qed

text \<open>A hash that keeps the octal digits of the text, so that it tells the epochs apart.\<close>

definition octal_hash :: hash where
  "octal_hash s = CHR ''h'' # filter (\<lambda>c. case c of Char b0 b1 b2 b3 b4 b5 b6 b7 \<Rightarrow>
     \<not> b7 \<and> \<not> b6 \<and> b5 \<and> b4 \<and> \<not> b3) s"

lemma octal_hash_nonempty: "octal_hash s \<noteq> []"
  by (simp add: octal_hash_def)

definition demo_paused :: coordinator where
  "demo_paused = snd (coord_set_available octal_hash True False 1 demo_coord)"

definition demo_successor :: authority_epoch where
  "demo_successor = demo_authority\<lparr>ae_epoch := 2\<rparr>"

lemma demo_rotation:
  "co_permits demo_paused = []" "co_attempt_permits demo_paused = []"
  "map (\<lambda>e. (ev_event_kind e, ev_authority_digest e)) (co_events demo_paused) = [(''AUTHORITY_MODE'', ''h1'')]"
  "authority_digest octal_hash (co_authority demo_paused) = ''h1''"
  "authority_digest octal_hash demo_successor = ''h2''"
  "authority_made demo_successor"
  "fst (coord_rotate_authority octal_hash demo_successor 2 demo_paused) = Inr ()"
  by code_simp+

theorem restore_after_rotation_raises_witness:
  "coord_restore octal_hash
     (coord_snapshot (snd (coord_rotate_authority octal_hash demo_successor 2 demo_paused)))
   = Inl (RuntimeError ''coordinator event authority mismatch'')"
proof -
  have "authority_made demo_authority" by code_simp
  then have "reachable coord_start (coord_step octal_hash (\<lambda>_. [])) demo_coord"
    using demo_coord_eq by (intro reachable.start) (auto simp: coord_start_def)
  moreover have "coord_step octal_hash (\<lambda>_. []) demo_coord demo_paused"
    unfolding demo_paused_def by (rule coord_step.set_available [OF prod.collapse [symmetric]])
  ultimately have r: "reachable coord_start (coord_step octal_hash (\<lambda>_. [])) demo_paused"
    by (rule reachable.next_state)
  obtain e where e: "co_events demo_paused = [e]" "ev_event_kind e = ''AUTHORITY_MODE''"
    "ev_authority_digest e = ''h1''"
    using demo_rotation(3) by auto
  show ?thesis
    by (rule restore_after_rotation_raises [OF r, where e = e and authority = demo_successor and now = 2])
      (simp_all add: demo_rotation e octal_hash_nonempty prod_eq_iff)
qed

end
