(* ===== verification/Dependency_Execution.thy ===== *)
theory Dependency_Execution
  imports Interfaces
begin

text \<open>
  \<open>core/execution.py\<close>: the manifest, the result contract and the result envelope, and
  \<open>DependencyDrivenExecution\<close>, the authority that decides when a stage of a dependency graph may
  run and which single outcome ends the execution. The evidence verifier and the callbacks are
  arguments of the calls that use them: a callback is a function to the exception it raises, if
  any. A frozenset is a distinct list in its iteration order, which Python leaves open.

  The lemmas show that the constructor accepts exactly the acyclic plans and that its loop ends,
  that a stage runs only with its prerequisites and at most once, and that the terminal outcome
  is set at most once.
\<close>

section \<open>Contracts\<close>

record role_binding =
  rb_role :: string
  rb_provider :: string
  rb_provider_boot_epoch :: string

definition make_role_binding :: "role_binding \<Rightarrow> py_error + role_binding" where
  "make_role_binding b =
     (if rb_role b = [] \<or> rb_provider b = [] \<or> length (rb_provider_boot_epoch b) < 8
      then Inl (ValueError ''invalid role execution binding'') else Inr b)"

definition require_digest :: "string \<Rightarrow> string \<Rightarrow> py_error + unit" where
  "require_digest v field = (if canonical_digest_ok v then Inr ()
     else Inl (ValueError (field @ '' must be a canonical sha256 digest'')))"

fun require_digests :: "(string \<times> string) list \<Rightarrow> py_error + unit" where
  "require_digests [] = Inr ()"
| "require_digests ((v, field) # rest) = sum_then (require_digest v field) (\<lambda>_. require_digests rest)"

record manifest =
  mf_object_name :: string
  mf_request_id :: string
  mf_attempt :: int
  mf_plan_digest :: string
  mf_producer_role :: string
  mf_producer_provider :: string
  mf_producer_boot_epoch :: string
  mf_generation :: int
  mf_consumer_roles :: "string list"
  mf_lineage_digests :: "string list"
  mf_schema_digest :: string
  mf_segment_count :: int
  mf_total_bytes :: int
  mf_payload_digest :: string
  mf_aead_algorithm :: string
  mf_key_grant_digest :: string
  mf_signer_key_id :: string
  mf_signature :: string
  mf_captured_at_ms :: int
  mf_expires_at_ms :: int

definition make_manifest :: "manifest \<Rightarrow> py_error + manifest" where
  "make_manifest m =
     (if \<not> starts_with (mf_object_name m) ''/'' \<or> mf_request_id m = [] \<or> mf_attempt m \<le> 0
         \<or> mf_producer_role m = [] \<or> mf_producer_provider m = []
         \<or> length (mf_producer_boot_epoch m) < 8 \<or> mf_generation m \<le> 0
         \<or> \<not> distinct (mf_consumer_roles m) \<or> mf_lineage_digests m = []
         \<or> mf_segment_count m \<le> 0 \<or> mf_total_bytes m < 0
         \<or> mf_aead_algorithm m \<notin> set [''AES-256-GCM'', ''CHACHA20-POLY1305'']
         \<or> mf_signer_key_id m = [] \<or> mf_signature m = [] \<or> mf_captured_at_ms m < 0
         \<or> mf_expires_at_ms m \<le> mf_captured_at_ms m
      then Inl (ValueError ''invalid InputOutputObjectManifest'')
      else sum_then (require_digests
             ([(mf_plan_digest m, ''plan_digest''), (mf_schema_digest m, ''schema_digest''),
               (mf_payload_digest m, ''payload_digest''), (mf_key_grant_digest m, ''key_grant_digest'')]
              @ map (\<lambda>v. (v, ''lineage_digest'')) (mf_lineage_digests m))) (\<lambda>_. Inr m))"

definition manifest_digest :: "hash \<Rightarrow> manifest \<Rightarrow> string" where
  "manifest_digest sha m = canonical_digest sha (JObj
     [(''object_name'', JStr (mf_object_name m)), (''request_id'', JStr (mf_request_id m)),
      (''attempt'', JInt (mf_attempt m)), (''plan_digest'', JStr (mf_plan_digest m)),
      (''producer_role'', JStr (mf_producer_role m)),
      (''producer_provider'', JStr (mf_producer_provider m)),
      (''producer_boot_epoch'', JStr (mf_producer_boot_epoch m)),
      (''generation'', JInt (mf_generation m)),
      (''consumer_roles'', JList (map JStr (mf_consumer_roles m))),
      (''lineage_digests'', JList (map JStr (mf_lineage_digests m))),
      (''schema_digest'', JStr (mf_schema_digest m)), (''segment_count'', JInt (mf_segment_count m)),
      (''total_bytes'', JInt (mf_total_bytes m)), (''payload_digest'', JStr (mf_payload_digest m)),
      (''aead_algorithm'', JStr (mf_aead_algorithm m)),
      (''key_grant_digest'', JStr (mf_key_grant_digest m)),
      (''signer_key_id'', JStr (mf_signer_key_id m)), (''signature'', JStr (mf_signature m)),
      (''captured_at_ms'', JInt (mf_captured_at_ms m)), (''expires_at_ms'', JInt (mf_expires_at_ms m))])"

record result_contract =
  rc_sink_roles :: "string list"
  rc_result_schema_digest :: string
  rc_result_semantics_digest :: string
  rc_aggregator_role :: string
  rc_aggregation_rule_digest :: string
  rc_aggregation_output_role :: string

definition make_result_contract :: "result_contract \<Rightarrow> py_error + result_contract" where
  "make_result_contract c =
     (if rc_sink_roles c = [] \<or> \<not> distinct (rc_sink_roles c)
      then Inl (ValueError ''invalid ResultContract sinks'')
      else if length (rc_sink_roles c) > 1 \<and> \<not> (rc_aggregator_role c \<noteq> []
              \<or> (rc_aggregation_rule_digest c \<noteq> [] \<and> rc_aggregation_output_role c \<noteq> []))
      then Inl (ValueError ''multiple sinks require an aggregator or aggregation rule'')
      else if rc_aggregator_role c \<noteq> [] \<and> rc_aggregator_role c \<notin> set (rc_sink_roles c)
      then Inl (ValueError ''ResultContract aggregator is not a sink role'')
      else if rc_aggregation_output_role c \<noteq> [] \<and> rc_aggregation_output_role c \<notin> set (rc_sink_roles c)
      then Inl (ValueError ''ResultContract aggregation output is not a sink role'')
      else sum_then (require_digests
             ([(rc_result_schema_digest c, ''result_schema_digest''),
               (rc_result_semantics_digest c, ''result_semantics_digest'')]
              @ (if rc_aggregation_rule_digest c \<noteq> []
                 then [(rc_aggregation_rule_digest c, ''aggregation_rule_digest'')] else [])))
             (\<lambda>_. Inr c))"

definition contract_digest :: "hash \<Rightarrow> result_contract \<Rightarrow> string" where
  "contract_digest sha c = canonical_digest sha (JObj
     [(''sink_roles'', JList (map JStr (rc_sink_roles c))),
      (''result_schema_digest'', JStr (rc_result_schema_digest c)),
      (''result_semantics_digest'', JStr (rc_result_semantics_digest c)),
      (''aggregator_role'', JStr (rc_aggregator_role c)),
      (''aggregation_rule_digest'', JStr (rc_aggregation_rule_digest c)),
      (''aggregation_output_role'', JStr (rc_aggregation_output_role c))])"

definition result_role :: "result_contract \<Rightarrow> string" where
  "result_role c =
     (if rc_aggregator_role c \<noteq> [] then rc_aggregator_role c
      else if length (rc_sink_roles c) = 1 then rc_sink_roles c ! 0
      else rc_aggregation_output_role c)"

record result_envelope =
  re_request_id :: string
  re_attempt :: int
  re_plan_digest :: string
  re_producer_role :: string
  re_producer_provider :: string
  re_producer_boot_epoch :: string
  re_generation :: int
  re_result_contract_digest :: string
  re_output_manifest_digest :: string
  re_result_schema_digest :: string
  re_result_semantics_digest :: string
  re_payload_digest :: string
  re_signer_key_id :: string
  re_signature :: string

definition make_result_envelope :: "result_envelope \<Rightarrow> py_error + result_envelope" where
  "make_result_envelope e =
     (if re_request_id e = [] \<or> re_attempt e \<le> 0 \<or> re_producer_role e = []
         \<or> re_producer_provider e = [] \<or> length (re_producer_boot_epoch e) < 8
         \<or> re_generation e \<le> 0 \<or> re_signer_key_id e = [] \<or> re_signature e = []
      then Inl (ValueError ''invalid DIResultEnvelopeV2'')
      else sum_then (require_digests
             [(re_plan_digest e, ''plan_digest''),
              (re_result_contract_digest e, ''result_contract_digest''),
              (re_output_manifest_digest e, ''output_manifest_digest''),
              (re_result_schema_digest e, ''result_schema_digest''),
              (re_result_semantics_digest e, ''result_semantics_digest''),
              (re_payload_digest e, ''payload_digest'')]) (\<lambda>_. Inr e))"

section \<open>The plan check\<close>

type_synonym edge = "string \<times> string"

definition incoming :: "edge list \<Rightarrow> string \<Rightarrow> string set" where
  "incoming edges role = fst ` set (filter (\<lambda>(src, dst). dst = role) edges)"

definition outgoing :: "edge list \<Rightarrow> string \<Rightarrow> string list" where
  "outgoing edges role = map snd (filter (\<lambda>(src, dst). src = role) edges)"

text \<open>
  The loop of the constructor. The frontier is a stack: \<open>pop()\<close> takes what was appended last,
  so its head is the last element of the Python list. The result is None when the fuel is
  used up.
\<close>

fun visit_roles :: "nat \<Rightarrow> edge list \<Rightarrow> string list \<Rightarrow> string set \<Rightarrow> string set option" where
  "visit_roles fuel edges [] visited = Some visited"
| "visit_roles 0 edges (role # frontier) visited = None"
| "visit_roles (Suc fuel) edges (role # frontier) visited =
     (let seen = insert role visited in
      visit_roles fuel edges
        (fold (\<lambda>dst stack. if incoming edges dst \<subseteq> seen then dst # stack else stack)
           (outgoing edges role) frontier) seen)"

definition initial_frontier :: "string list \<Rightarrow> edge list \<Rightarrow> string list" where
  "initial_frontier roles edges = rev (filter (\<lambda>role. incoming edges role = {}) roles)"

section \<open>The execution\<close>

record execution =
  ex_request_id :: string
  ex_attempt :: int
  ex_plan_digest :: string
  ex_roles :: "string list"
  ex_edges :: "edge list"
  ex_terminal_role :: string
  ex_generation :: int
  ex_deadline_ms :: int
  ex_result_contract :: "result_contract option"
  ex_bindings :: "(string, role_binding) dict"
  ex_has_start_callback :: bool
  ex_has_response_callback :: bool
  ex_selected :: "string set"
  ex_ready :: "string set"
  ex_inputs :: "string \<Rightarrow> string set"
  ex_seen_chunks :: "(string \<times> string \<times> int \<times> int) set"
  ex_seen_manifests :: "string set"
  ex_running :: "(string, int) dict"
  ex_started :: "(string, int) dict"
  ex_completed :: "(string, int) dict"
  ex_aborted :: bool
  ex_abort_reason :: string
  ex_terminal_outcome :: string
  ex_terminal_at_ms :: int

text \<open>
  The constructor. The lists \<open>roles\<close> and \<open>edges\<close> are the frozensets in iteration order; the fuel
  is the number of roles, which is enough (lemma \<open>visit_roles_enough\<close>).
\<close>

definition execution_init ::
  "string \<Rightarrow> int \<Rightarrow> string \<Rightarrow> string list \<Rightarrow> edge list \<Rightarrow> string \<Rightarrow> (string, role_binding) dict \<Rightarrow> int \<Rightarrow> int
     \<Rightarrow> result_contract option \<Rightarrow> bool \<Rightarrow> bool \<Rightarrow> py_error + execution" where
  "execution_init request_id attempt plan_digest roles edges terminal_role bindings generation
       deadline_ms contract has_start has_response =
     (if request_id = [] \<or> attempt \<le> 0 \<or> plan_digest = [] \<or> roles = []
         \<or> terminal_role \<notin> set roles \<or> generation \<le> 0 \<or> deadline_ms \<le> 0
         \<or> (\<exists>(src, dst) \<in> set edges. src \<notin> set roles \<or> dst \<notin> set roles \<or> src = dst)
      then Inl (ValueError ''invalid dependency execution plan'')
      else if (bindings \<noteq> [] \<and> set (dict_keys bindings) \<noteq> set roles)
              \<or> (\<exists>(key, b) \<in> set bindings. key \<noteq> rb_role b)
      then Inl (ValueError ''role execution bindings are incomplete'')
      else if (case contract of None \<Rightarrow> False | Some c \<Rightarrow>
                 \<not> set (rc_sink_roles c) \<subseteq> set roles \<or> result_role c \<noteq> terminal_role)
      then Inl (ValueError ''ResultContract is not bound to the terminal role'')
      else if visit_roles (length roles) edges (initial_frontier roles edges) {} \<noteq> Some (set roles)
      then Inl (ValueError ''dependency plan must be acyclic'')
      else Inr \<lparr>ex_request_id = request_id, ex_attempt = attempt, ex_plan_digest = plan_digest,
                ex_roles = roles, ex_edges = edges, ex_terminal_role = terminal_role,
                ex_generation = generation, ex_deadline_ms = deadline_ms,
                ex_result_contract = contract, ex_bindings = bindings,
                ex_has_start_callback = has_start, ex_has_response_callback = has_response,
                ex_selected = {}, ex_ready = {}, ex_inputs = (\<lambda>_. {}), ex_seen_chunks = {},
                ex_seen_manifests = {}, ex_running = [], ex_started = [], ex_completed = [],
                ex_aborted = False, ex_abort_reason = [], ex_terminal_outcome = [],
                ex_terminal_at_ms = -1\<rparr>)"

definition binding_matches :: "execution \<Rightarrow> string \<Rightarrow> string \<Rightarrow> string \<Rightarrow> int option \<Rightarrow> bool" where
  "binding_matches s role provider boot_epoch generation \<longleftrightarrow>
     (case dict_get (ex_bindings s) role of
        None \<Rightarrow> True
      | Some b \<Rightarrow> provider = rb_provider b \<and> boot_epoch = rb_provider_boot_epoch b)
     \<and> (generation = None \<or> generation = Some (ex_generation s))"

definition event_open :: "execution \<Rightarrow> int option \<Rightarrow> bool" where
  "event_open s at_ms \<longleftrightarrow> ex_terminal_outcome s = [] \<and> \<not> ex_aborted s
     \<and> (case at_ms of None \<Rightarrow> True | Some t \<Rightarrow> t < ex_deadline_ms s)"

definition require_role :: "execution \<Rightarrow> string \<Rightarrow> py_error + unit" where
  "require_role s role = (if role \<in> set (ex_roles s) then Inr () else Inl (ValueError ''unknown stage role''))"

definition eligible_locked :: "execution \<Rightarrow> string \<Rightarrow> bool" where
  "eligible_locked s role \<longleftrightarrow> event_open s None \<and> role \<in> ex_selected s \<and> role \<in> ex_ready s
     \<and> incoming (ex_edges s) role \<subseteq> ex_inputs s role
     \<and> \<not> dict_has (ex_running s) role \<and> \<not> dict_has (ex_completed s) role"

definition execution_eligible :: "execution \<Rightarrow> string \<Rightarrow> py_error + bool" where
  "execution_eligible s role = sum_then (require_role s role) (\<lambda>_. Inr (eligible_locked s role))"

text \<open>\<open>_admit_if_eligible_locked\<close>, with the exception the start callback raises, if any.\<close>

definition admit_if_eligible ::
  "(string \<Rightarrow> py_error option) \<Rightarrow> string \<Rightarrow> int \<Rightarrow> execution \<Rightarrow> (bool, execution) outcome" where
  "admit_if_eligible start_callback role at_ms s =
     (if \<not> ex_has_start_callback s \<or> \<not> eligible_locked s role then (Inr False, s)
      else let s1 = s\<lparr>ex_running := dict_set role at_ms (ex_running s),
                      ex_started := dict_set role at_ms (ex_started s)\<rparr>
           in case start_callback role of
                None \<Rightarrow> (Inr True, s1)
              | Some e \<Rightarrow> (Inl e, s1\<lparr>ex_running := dict_pop role (ex_running s1), ex_aborted := True,
                                    ex_abort_reason := ''START_CALLBACK_FAILED'',
                                    ex_terminal_outcome := ''FAILED'', ex_terminal_at_ms := at_ms\<rparr>))"

definition execution_select ::
  "string \<Rightarrow> string \<Rightarrow> string \<Rightarrow> int option \<Rightarrow> execution \<Rightarrow> (bool, execution) outcome" where
  "execution_select role provider boot_epoch generation s =
     (case require_role s role of
        Inl e \<Rightarrow> (Inl e, s)
      | Inr _ \<Rightarrow>
          if \<not> event_open s None \<or> \<not> binding_matches s role provider boot_epoch generation
          then (Inr False, s) else (Inr True, s\<lparr>ex_selected := insert role (ex_selected s)\<rparr>))"

definition execution_ready ::
  "(string \<Rightarrow> py_error option) \<Rightarrow> string \<Rightarrow> string \<Rightarrow> string \<Rightarrow> int option \<Rightarrow> int \<Rightarrow> execution
     \<Rightarrow> (bool, execution) outcome" where
  "execution_ready start_callback role provider boot_epoch generation at_ms s =
     (case require_role s role of
        Inl e \<Rightarrow> (Inl e, s)
      | Inr _ \<Rightarrow>
          if \<not> event_open s (Some at_ms) \<or> \<not> binding_matches s role provider boot_epoch generation
          then (Inr False, s)
          else and_then (admit_if_eligible start_callback role at_ms
                           (s\<lparr>ex_ready := insert role (ex_ready s)\<rparr>)) (\<lambda>_ s. (Inr True, s)))"

text \<open>\<open>accept_input\<close>, on a mapping of strings.\<close>

definition get_field :: "(string, string) dict \<Rightarrow> string \<Rightarrow> string \<Rightarrow> string" where
  "get_field evidence k absent = (case dict_get evidence k of None \<Rightarrow> absent | Some v \<Rightarrow> v)"

definition execution_accept_input ::
  "((string, string) dict \<Rightarrow> bool) \<Rightarrow> (string, string) dict \<Rightarrow> execution \<Rightarrow> bool \<times> execution" where
  "execution_accept_input verify evidence s =
     (let src = get_field evidence ''producerRole'' []; dst = get_field evidence ''consumerRole'' [] in
      case (py_int_of_string (get_field evidence ''sequence'' ''0''),
            py_int_of_string (get_field evidence ''chunk'' ''0'')) of
        (Some sequence, Some chunk) \<Rightarrow>
          (let valid = event_open s None \<and> (src, dst) \<in> set (ex_edges s)
                 \<and> dict_get evidence ''requestId'' = Some (ex_request_id s)
                 \<and> dict_get evidence ''attempt'' = Some (str_int (ex_attempt s))
                 \<and> dict_get evidence ''planDigest'' = Some (ex_plan_digest s)
                 \<and> get_field evidence ''payloadDigest'' [] \<noteq> []
                 \<and> sequence > 0 \<and> chunk \<ge> 0 \<and> verify evidence
           in if \<not> valid \<or> (src, dst, sequence, chunk) \<in> ex_seen_chunks s then (False, s)
              else (True, s\<lparr>ex_seen_chunks := insert (src, dst, sequence, chunk) (ex_seen_chunks s),
                            ex_inputs := (ex_inputs s)(dst := insert src (ex_inputs s dst))\<rparr>))
      | _ \<Rightarrow> (False, s))"

fun deliver_manifest ::
  "(string \<Rightarrow> py_error option) \<Rightarrow> string \<Rightarrow> int \<Rightarrow> string list \<Rightarrow> execution \<Rightarrow> (bool, execution) outcome" where
  "deliver_manifest start_callback producer at_ms [] s = (Inr True, s)"
| "deliver_manifest start_callback producer at_ms (consumer # consumers) s =
     and_then (admit_if_eligible start_callback consumer at_ms
        (s\<lparr>ex_inputs := (ex_inputs s)(consumer := insert producer (ex_inputs s consumer))\<rparr>))
       (\<lambda>_ s. deliver_manifest start_callback producer at_ms consumers s)"

definition execution_accept_manifest ::
  "hash \<Rightarrow> (manifest \<Rightarrow> bool) \<Rightarrow> (string \<Rightarrow> py_error option) \<Rightarrow> manifest \<Rightarrow> int \<Rightarrow> execution
     \<Rightarrow> (bool, execution) outcome" where
  "execution_accept_manifest sha verify start_callback m at_ms s =
     (if \<not> event_open s (Some at_ms) \<or> mf_request_id m \<noteq> ex_request_id s
         \<or> mf_attempt m \<noteq> ex_attempt s \<or> mf_plan_digest m \<noteq> ex_plan_digest s
         \<or> mf_generation m \<noteq> ex_generation s \<or> at_ms \<ge> mf_expires_at_ms m
         \<or> \<not> binding_matches s (mf_producer_role m) (mf_producer_provider m)
               (mf_producer_boot_epoch m) (Some (mf_generation m))
         \<or> mf_consumer_roles m = []
         \<or> (\<exists>consumer \<in> set (mf_consumer_roles m). (mf_producer_role m, consumer) \<notin> set (ex_edges s))
         \<or> \<not> verify m
      then (Inr False, s)
      else if manifest_digest sha m \<in> ex_seen_manifests s then (Inr False, s)
      else deliver_manifest start_callback (mf_producer_role m) at_ms (mf_consumer_roles m)
             (s\<lparr>ex_seen_manifests := insert (manifest_digest sha m) (ex_seen_manifests s)\<rparr>))"

definition execution_accept_status ::
  "string \<Rightarrow> string \<Rightarrow> string \<Rightarrow> int \<Rightarrow> string \<Rightarrow> int \<Rightarrow> string \<Rightarrow> int \<Rightarrow> execution \<Rightarrow> py_error + bool" where
  "execution_accept_status role provider boot_epoch generation request_id attempt plan_digest at_ms s =
     sum_then (require_role s role) (\<lambda>_. Inr (event_open s (Some at_ms)
       \<and> request_id = ex_request_id s \<and> attempt = ex_attempt s \<and> plan_digest = ex_plan_digest s
       \<and> binding_matches s role provider boot_epoch (Some generation)))"

definition execution_start :: "string \<Rightarrow> int \<Rightarrow> execution \<Rightarrow> (unit, execution) outcome" where
  "execution_start role at_ms s =
     (if at_ms < 0 \<or> at_ms \<ge> ex_deadline_ms s \<or> \<not> eligible_locked s role
      then (Inl (RuntimeError ''stage prerequisites are incomplete''), s)
      else (Inr (), s\<lparr>ex_running := dict_set role at_ms (ex_running s),
                      ex_started := dict_set role at_ms (ex_started s)\<rparr>))"

definition execution_complete :: "string \<Rightarrow> int \<Rightarrow> execution \<Rightarrow> (unit, execution) outcome" where
  "execution_complete role at_ms s =
     (case dict_get (ex_running s) role of
        None \<Rightarrow> (Inl (RuntimeError ''stage is not running''), s)
      | Some started \<Rightarrow>
          if \<not> event_open s (Some at_ms) \<or> at_ms < started
          then (Inl (RuntimeError ''stage is not running''), s)
          else let s1 = s\<lparr>ex_completed := dict_set role at_ms (ex_completed s),
                          ex_running := dict_pop role (ex_running s)\<rparr>
               in (Inr (), if ex_result_contract s = None \<and> role = ex_terminal_role s
                           then s1\<lparr>ex_terminal_outcome := ''RESPONSE'', ex_terminal_at_ms := at_ms\<rparr>
                           else s1))"

definition end_with :: "string \<Rightarrow> string \<Rightarrow> int \<Rightarrow> execution \<Rightarrow> execution" where
  "end_with reason outcome at_ms s =
     s\<lparr>ex_aborted := True, ex_abort_reason := reason, ex_running := [],
       ex_terminal_outcome := outcome, ex_terminal_at_ms := at_ms\<rparr>"

definition execution_fail :: "string \<Rightarrow> int \<Rightarrow> execution \<Rightarrow> bool \<times> execution" where
  "execution_fail reason at_ms s =
     (if \<not> event_open s None then (False, s)
      else (True, end_with (if reason = [] then ''FAILED'' else reason) ''FAILED'' at_ms s))"

definition execution_abort :: "string \<Rightarrow> execution \<Rightarrow> bool \<times> execution" where
  "execution_abort reason s = execution_fail reason 0 s"

definition execution_cancel :: "string \<Rightarrow> int \<Rightarrow> execution \<Rightarrow> bool \<times> execution" where
  "execution_cancel reason at_ms s =
     (if \<not> event_open s None then (False, s)
      else (True, end_with (if reason = [] then ''CANCELLED'' else reason) ''CANCELLED'' at_ms s))"

definition execution_expire :: "int \<Rightarrow> execution \<Rightarrow> bool \<times> execution" where
  "execution_expire at_ms s =
     (if ex_terminal_outcome s \<noteq> [] \<or> at_ms < ex_deadline_ms s then (False, s)
      else (True, end_with ''EXPIRED'' ''EXPIRED'' at_ms s))"

definition execution_supersede :: "int \<Rightarrow> int \<Rightarrow> execution \<Rightarrow> bool \<times> execution" where
  "execution_supersede new_attempt at_ms s =
     (if ex_terminal_outcome s \<noteq> [] \<or> new_attempt \<le> ex_attempt s then (False, s)
      else (True, end_with ''SUPERSEDED'' ''SUPERSEDED'' at_ms s))"

text \<open>The conditions under which \<open>accept_result\<close> takes a result.\<close>

definition result_acceptable ::
  "hash \<Rightarrow> (manifest \<Rightarrow> bool) \<Rightarrow> (result_envelope \<Rightarrow> bool) \<Rightarrow> result_envelope \<Rightarrow> manifest \<Rightarrow> int \<Rightarrow> execution \<Rightarrow> bool" where
  "result_acceptable sha verify_manifest verify_envelope e m at_ms s =
     (case (ex_result_contract s, dict_get (ex_bindings s) (re_producer_role e)) of
        (Some contract, Some b) \<Rightarrow>
          event_open s (Some at_ms)
          \<and> re_request_id e = ex_request_id s \<and> re_attempt e = ex_attempt s
          \<and> re_plan_digest e = ex_plan_digest s \<and> re_generation e = ex_generation s
          \<and> re_producer_role e = result_role contract
          \<and> dict_has (ex_completed s) (re_producer_role e)
          \<and> re_producer_provider e = rb_provider b
          \<and> re_producer_boot_epoch e = rb_provider_boot_epoch b
          \<and> re_result_contract_digest e = contract_digest sha contract
          \<and> re_result_schema_digest e = rc_result_schema_digest contract
          \<and> re_result_semantics_digest e = rc_result_semantics_digest contract
          \<and> manifest_digest sha m = re_output_manifest_digest e
          \<and> mf_payload_digest m = re_payload_digest e
          \<and> mf_schema_digest m = rc_result_schema_digest contract
          \<and> mf_consumer_roles m = []
          \<and> mf_producer_role m = re_producer_role e
          \<and> mf_producer_provider m = re_producer_provider e
          \<and> mf_producer_boot_epoch m = re_producer_boot_epoch e
          \<and> mf_request_id m = ex_request_id s \<and> mf_attempt m = ex_attempt s
          \<and> mf_plan_digest m = ex_plan_digest s \<and> mf_generation m = ex_generation s
          \<and> at_ms < mf_expires_at_ms m
          \<and> verify_manifest m \<and> verify_envelope e
      | _ \<Rightarrow> False)"

definition execution_accept_result ::
  "hash \<Rightarrow> (manifest \<Rightarrow> bool) \<Rightarrow> (result_envelope \<Rightarrow> bool) \<Rightarrow> (result_envelope \<Rightarrow> manifest \<Rightarrow> bool)
     \<Rightarrow> result_envelope \<Rightarrow> manifest \<Rightarrow> int \<Rightarrow> execution \<Rightarrow> bool \<times> execution" where
  "execution_accept_result sha verify_manifest verify_envelope response_raises e m at_ms s =
     (if \<not> result_acceptable sha verify_manifest verify_envelope e m at_ms s then (False, s)
      else let s1 = s\<lparr>ex_terminal_outcome := ''RESPONSE'', ex_terminal_at_ms := at_ms\<rparr> in
           if ex_has_response_callback s \<and> response_raises e m
           then (False, s1\<lparr>ex_terminal_outcome := ''FAILED'',
                           ex_abort_reason := ''RESPONSE_CALLBACK_FAILED'', ex_aborted := True\<rparr>)
           else (True, s1))"

definition execution_state :: "string \<Rightarrow> execution \<Rightarrow> py_error + string" where
  "execution_state role s = sum_then (require_role s role) (\<lambda>_. Inr
     (if dict_has (ex_completed s) role then ''COMPLETED''
      else if dict_has (ex_running s) role then ''RUNNING''
      else if ex_terminal_outcome s \<noteq> [] then ex_terminal_outcome s
      else ''WAITING''))"

definition execution_overlap_ms :: "string \<Rightarrow> string \<Rightarrow> execution \<Rightarrow> int" where
  "execution_overlap_ms first second s =
     (if \<not> dict_has (ex_completed s) first \<or> \<not> dict_has (ex_completed s) second then 0
      else max 0 (min (dict_get0 (ex_completed s) first) (dict_get0 (ex_completed s) second)
                  - max (dict_get0 (ex_started s) first) (dict_get0 (ex_started s) second)))"

section \<open>Steps\<close>

definition execution_start_state :: "execution \<Rightarrow> bool" where
  "execution_start_state s \<longleftrightarrow> (\<exists>request_id attempt plan_digest roles edges terminal bindings generation
     deadline contract has_start has_response. distinct roles \<and> distinct edges \<and> dict_ok bindings
     \<and> execution_init request_id attempt plan_digest roles edges terminal bindings generation deadline
         contract has_start has_response = Inr s)"

inductive execution_step :: "hash \<Rightarrow> execution \<Rightarrow> execution \<Rightarrow> bool" for sha where
  select: "execution_select role provider boot generation s = (r, t) \<Longrightarrow> execution_step sha s t"
| ready: "execution_ready cb role provider boot generation at_ms s = (r, t) \<Longrightarrow> execution_step sha s t"
| input: "execution_accept_input verify evidence s = (b, t) \<Longrightarrow> execution_step sha s t"
| manifest: "execution_accept_manifest sha verify_manifest cb m at_ms s = (r, t)
    \<Longrightarrow> execution_step sha s t"
| begin_stage: "execution_start role at_ms s = (u, t) \<Longrightarrow> execution_step sha s t"
| complete: "execution_complete role at_ms s = (u, t) \<Longrightarrow> execution_step sha s t"
| abort: "execution_abort reason s = (b, t) \<Longrightarrow> execution_step sha s t"
| fail: "execution_fail reason at_ms s = (b, t) \<Longrightarrow> execution_step sha s t"
| cancel: "execution_cancel reason at_ms s = (b, t) \<Longrightarrow> execution_step sha s t"
| expire: "execution_expire at_ms s = (b, t) \<Longrightarrow> execution_step sha s t"
| supersede: "execution_supersede new_attempt at_ms s = (b, t) \<Longrightarrow> execution_step sha s t"
| result: "execution_accept_result sha verify_manifest verify_envelope raises e m at_ms s = (b, t)
    \<Longrightarrow> execution_step sha s t"


section \<open>The plan check is exact\<close>

lemma incoming_iff: "src \<in> incoming edges dst \<longleftrightarrow> (src, dst) \<in> set edges"
  by (force simp: incoming_def)

lemma outgoing_iff: "dst \<in> set (outgoing edges src) \<longleftrightarrow> (src, dst) \<in> set edges"
  by (force simp: outgoing_def)

lemma distinct_outgoing: "distinct edges \<Longrightarrow> distinct (outgoing edges src)"
  by (induction edges) (auto simp: outgoing_def image_iff)

definition plan_edges_ok :: "string list \<Rightarrow> edge list \<Rightarrow> bool" where
  "plan_edges_ok roles edges \<longleftrightarrow> distinct edges
     \<and> (\<forall>(src, dst) \<in> set edges. src \<in> set roles \<and> dst \<in> set roles \<and> src \<noteq> dst)"

text \<open>
  The state of the loop: the frontier is disjoint from what was visited, the two together are
  the roles whose predecessors were all visited, and the visited roles can be ranked along the
  edges.
\<close>

definition ranked :: "edge list \<Rightarrow> string set \<Rightarrow> (string \<Rightarrow> nat) \<Rightarrow> bool" where
  "ranked edges visited rank \<longleftrightarrow> (\<forall>x y. (x, y) \<in> set edges \<longrightarrow> y \<in> visited \<longrightarrow> rank x < rank y)"

definition visit_ok :: "string list \<Rightarrow> edge list \<Rightarrow> string list \<Rightarrow> string set \<Rightarrow> bool" where
  "visit_ok roles edges frontier visited \<longleftrightarrow>
     distinct frontier \<and> set frontier \<inter> visited = {} \<and> visited \<subseteq> set roles
     \<and> (\<forall>x. x \<in> visited \<union> set frontier \<longleftrightarrow> x \<in> set roles \<and> incoming edges x \<subseteq> visited)
     \<and> (\<exists>rank. ranked edges visited rank)"

lemma visit_okD:
  assumes "visit_ok roles edges frontier visited"
  shows "distinct frontier" "set frontier \<inter> visited = {}" "visited \<subseteq> set roles"
    "x \<in> visited \<union> set frontier \<longleftrightarrow> x \<in> set roles \<and> incoming edges x \<subseteq> visited"
    "\<exists>rank. ranked edges visited rank"
  using assms unfolding visit_ok_def by blast+

lemma fold_push:
  "set (fold (\<lambda>dst stack. if P dst then dst # stack else stack) ds stack)
     = set stack \<union> {d \<in> set ds. P d}"
  "distinct (ds @ stack) \<Longrightarrow> distinct (fold (\<lambda>dst stack. if P dst then dst # stack else stack) ds stack)"
  by (induction ds arbitrary: stack) auto

lemma visit_ok_start:
  "distinct roles \<Longrightarrow> visit_ok roles edges (initial_frontier roles edges) {}"
  by (auto simp: visit_ok_def initial_frontier_def ranked_def)

lemma visit_rank_step:
  assumes "plan_edges_ok roles edges" and "visit_ok roles edges (role # frontier) visited"
  shows "\<exists>rank. ranked edges (insert role visited) rank"
proof -
  obtain rank where "ranked edges visited rank" using assms(2) by (auto simp: visit_ok_def)
  then have rank: "\<And>x y. (x, y) \<in> set edges \<Longrightarrow> y \<in> visited \<Longrightarrow> rank x < rank y"
    by (simp add: ranked_def)
  have new: "role \<notin> visited" and closed: "\<And>y. y \<in> visited \<Longrightarrow> incoming edges y \<subseteq> visited"
    and ready: "incoming edges role \<subseteq> visited" and fin: "finite visited"
    using assms(2) by (auto simp: visit_ok_def intro: finite_subset)
  let ?rank = "rank(role := Suc (sum rank visited))"
  have "?rank x < ?rank y" if e: "(x, y) \<in> set edges" and y: "y \<in> insert role visited" for x y
  proof (cases "y = role")
    case True
    then have "x \<in> visited" using ready e by (auto simp: incoming_iff)
    then have "rank x \<le> sum rank visited" using fin by (intro member_le_sum) auto
    with True new \<open>x \<in> visited\<close> show ?thesis by auto
  next
    case False
    then have "incoming edges y \<subseteq> visited" using closed y by simp
    then have "x \<in> visited" using e incoming_iff by blast
    with False new rank [OF e] y show ?thesis by auto
  qed
  then show ?thesis unfolding ranked_def by blast
qed

lemma visit_ok_step:
  assumes plan: "plan_edges_ok roles edges" and ok: "visit_ok roles edges (role # frontier) visited"
  shows "visit_ok roles edges
    (fold (\<lambda>dst stack. if incoming edges dst \<subseteq> insert role visited then dst # stack else stack)
       (outgoing edges role) frontier) (insert role visited)"
proof -
  have fresh: "dst \<notin> visited \<union> set (role # frontier)" if "dst \<in> set (outgoing edges role)" for dst
  proof -
    have "role \<in> incoming edges dst" using that by (simp add: incoming_iff outgoing_iff)
    moreover have "role \<notin> visited" using ok by (auto simp: visit_ok_def)
    ultimately show ?thesis using visit_okD(4) [OF ok, of dst] by auto
  qed
  have roles: "dst \<in> set roles" if "dst \<in> set (outgoing edges role)" for dst
    using plan that by (auto simp: plan_edges_ok_def outgoing_iff)
  have "distinct (outgoing edges role @ frontier)"
    using fresh plan ok by (auto simp: plan_edges_ok_def visit_ok_def intro: distinct_outgoing)
  note push = fold_push(2) [OF this] fold_push(1)
  have mem: "x \<in> insert role visited \<union> (set frontier \<union> {d \<in> set (outgoing edges role).
        incoming edges d \<subseteq> insert role visited})
      \<longleftrightarrow> x \<in> set roles \<and> incoming edges x \<subseteq> insert role visited" for x
  proof -
    have "x \<in> set (outgoing edges role)" if "x \<in> set roles" "incoming edges x \<subseteq> insert role visited"
      "x \<notin> insert role visited \<union> set frontier"
    proof -
      have "\<not> incoming edges x \<subseteq> visited" using that visit_okD(4) [OF ok, of x] by auto
      with that(2) show ?thesis by (auto simp: outgoing_iff incoming_iff)
    qed
    then show ?thesis using roles [of x] visit_okD(4) [OF ok, of x] by auto
  qed
  have disj: "(set frontier \<union> {d \<in> set (outgoing edges role). incoming edges d \<subseteq> insert role visited})
      \<inter> insert role visited = {}"
    using fresh visit_okD(1,2) [OF ok] by auto
  have sub: "insert role visited \<subseteq> set roles"
    using visit_okD(3) [OF ok] visit_okD(4) [OF ok, of role] by auto
  show ?thesis
    unfolding visit_ok_def push(2)
    by (intro conjI allI) (fact push(1) disj sub mem visit_rank_step [OF plan ok])+
qed

lemma visit_roles_enough:
  assumes "plan_edges_ok roles edges" and "visit_ok roles edges frontier visited"
    and "card (set roles - visited) \<le> fuel"
  shows "\<exists>final. visit_roles fuel edges frontier visited = Some final \<and> visit_ok roles edges [] final"
  using assms(2,3)
proof (induction fuel arbitrary: frontier visited)
  case 0
  have "set frontier \<subseteq> set roles - visited" using "0.prems"(1) by (auto simp: visit_ok_def)
  moreover have "set roles \<subseteq> visited" using "0.prems"(2) by simp
  ultimately have "frontier = []" by (cases frontier) auto
  with 0 show ?case by simp
next
  case (Suc fuel)
  show ?case
  proof (cases frontier)
    case Nil
    with Suc show ?thesis by simp
  next
    case (Cons role rest)
    have "role \<in> set roles" "role \<notin> visited"
      using Suc.prems(1) Cons by (auto simp: visit_ok_def)
    then have "card (set roles - insert role visited) \<le> fuel"
      using Suc.prems(2) by (subst Diff_insert) (simp add: card_Diff_singleton)
    then show ?thesis
      using Suc.IH [OF visit_ok_step [OF assms(1) Suc.prems(1) [unfolded Cons]]] Cons
      by (simp add: Let_def)
  qed
qed

lemma visited_all_iff_acyclic:
  assumes "plan_edges_ok roles edges" and "visit_ok roles edges [] final"
  shows "final = set roles \<longleftrightarrow> acyclic (set edges)"
proof
  assume all: "final = set roles"
  obtain rank where "ranked edges final rank" using assms(2) unfolding visit_ok_def by blast
  with all assms(1) have "set edges \<subseteq> measure rank" by (auto simp: plan_edges_ok_def ranked_def)
  then show "acyclic (set edges)" by (meson wf_acyclic wf_measure wf_subset)
next
  assume "acyclic (set edges)"
  then have wf: "wf (set edges)" by (simp add: finite_acyclic_wf)
  show "final = set roles"
  proof (rule ccontr)
    assume "final \<noteq> set roles"
    then obtain r where "r \<in> set roles - final" using visit_okD(3) [OF assms(2)] by blast
    with wf obtain z where z: "z \<in> set roles - final"
      and least: "\<And>y. (y, z) \<in> set edges \<Longrightarrow> y \<notin> set roles - final" by (rule wfE_min) blast
    have "incoming edges z \<subseteq> final"
      using least assms(1) by (fastforce simp: plan_edges_ok_def incoming_iff)
    with z visit_okD(4) [OF assms(2), of z] show False by auto
  qed
qed


text \<open>The constructor accepts a plan exactly when its checks pass and the edges are acyclic.\<close>

lemma plan_check_exact:
  assumes "distinct roles" and "plan_edges_ok roles edges"
  shows "visit_roles (length roles) edges (initial_frontier roles edges) {} \<noteq> None
    \<and> (visit_roles (length roles) edges (initial_frontier roles edges) {} = Some (set roles)
         \<longleftrightarrow> acyclic (set edges))"
proof -
  have "card (set roles - {}) \<le> length roles" by (simp add: card_length)
  from visit_roles_enough [OF assms(2) visit_ok_start [OF assms(1)] this]
  obtain final where "visit_roles (length roles) edges (initial_frontier roles edges) {} = Some final"
    "visit_ok roles edges [] final" by blast
  with visited_all_iff_acyclic [OF assms(2)] show ?thesis by auto
qed

section \<open>Micro steps\<close>

text \<open>
  Every call is a sequence of these changes. Each requires that no terminal outcome is set yet,
  so that a call after the end of the execution changes nothing.
\<close>

inductive exec_micro :: "execution \<Rightarrow> execution \<Rightarrow> bool" where
  select: "event_open s None \<Longrightarrow> role \<in> set (ex_roles s)
    \<Longrightarrow> exec_micro s (s\<lparr>ex_selected := insert role (ex_selected s)\<rparr>)"
| ready: "event_open s None \<Longrightarrow> role \<in> set (ex_roles s)
    \<Longrightarrow> exec_micro s (s\<lparr>ex_ready := insert role (ex_ready s)\<rparr>)"
| seen: "event_open s None \<Longrightarrow> exec_micro s (s\<lparr>ex_seen_chunks := chunks, ex_seen_manifests := manifests\<rparr>)"
| input: "event_open s None \<Longrightarrow> (src, dst) \<in> set (ex_edges s)
    \<Longrightarrow> exec_micro s (s\<lparr>ex_inputs := (ex_inputs s)(dst := insert src (ex_inputs s dst))\<rparr>)"
| admit: "eligible_locked s role
    \<Longrightarrow> exec_micro s (s\<lparr>ex_running := dict_set role at_ms (ex_running s),
                       ex_started := dict_set role at_ms (ex_started s)\<rparr>)"
| admit_failed: "eligible_locked s role
    \<Longrightarrow> exec_micro s (s\<lparr>ex_started := dict_set role at_ms (ex_started s),
          ex_running := dict_pop role (dict_set role at_ms (ex_running s)), ex_aborted := True,
          ex_abort_reason := reason, ex_terminal_outcome := ''FAILED'', ex_terminal_at_ms := at_ms\<rparr>)"
| complete: "event_open s (Some at_ms) \<Longrightarrow> dict_get (ex_running s) role = Some started \<Longrightarrow> started \<le> at_ms
    \<Longrightarrow> exec_micro s (s\<lparr>ex_completed := dict_set role at_ms (ex_completed s),
          ex_running := dict_pop role (ex_running s), ex_terminal_outcome := out,
          ex_terminal_at_ms := at\<rparr>)"
| finish: "ex_terminal_outcome s = [] \<Longrightarrow> out \<noteq> [] \<Longrightarrow> running \<in> {[], ex_running s}
    \<Longrightarrow> exec_micro s (s\<lparr>ex_aborted := aborted, ex_abort_reason := reason, ex_running := running,
          ex_terminal_outcome := out, ex_terminal_at_ms := at_ms\<rparr>)"

lemma event_open_weaken: "event_open s (Some t) \<Longrightarrow> event_open s None"
  by (simp add: event_open_def)

lemma event_open_cong [simp]:
  "event_open (s\<lparr>ex_ready := x\<rparr>) = event_open s" "event_open (s\<lparr>ex_inputs := y\<rparr>) = event_open s"
  "event_open (s\<lparr>ex_seen_chunks := z\<rparr>) = event_open s" "event_open (s\<lparr>ex_seen_manifests := w\<rparr>) = event_open s"
  "event_open (s\<lparr>ex_running := u\<rparr>) = event_open s" "event_open (s\<lparr>ex_started := v\<rparr>) = event_open s"
  by (simp_all add: fun_eq_iff event_open_def split: option.splits)

lemma admit_micro:
  assumes "admit_if_eligible cb role at_ms s = (r, t)"
  shows "exec_micro\<^sup>*\<^sup>* s t" and "r = Inr b \<Longrightarrow> event_open s None \<Longrightarrow> event_open t None"
    and "ex_edges t = ex_edges s"
  using assms
  by (auto simp: admit_if_eligible_def Let_def intro: exec_micro.admit exec_micro.admit_failed
      split: if_splits option.splits)

lemma deliver_micro:
  assumes "deliver_manifest cb producer at_ms consumers s = (r, t)" and "event_open s None"
    and "\<forall>c \<in> set consumers. (producer, c) \<in> set (ex_edges s)"
  shows "exec_micro\<^sup>*\<^sup>* s t"
  using assms
proof (induction consumers arbitrary: s)
  case Nil
  then show ?case by simp
next
  case (Cons c consumers)
  let ?s = "s\<lparr>ex_inputs := (ex_inputs s)(c := insert producer (ex_inputs s c))\<rparr>"
  have first: "exec_micro s ?s" using Cons.prems by (intro exec_micro.input) auto
  have "and_then (admit_if_eligible cb c at_ms ?s)
      (\<lambda>_ s. deliver_manifest cb producer at_ms consumers s) = (r, t)" using Cons.prems(1) by simp
  then show ?case
  proof (cases rule: and_then_cases)
    case (raised e)
    with first admit_micro(1) show ?thesis by (blast intro: converse_rtranclp_into_rtranclp)
  next
    case (returned b u)
    note admitted = admit_micro [OF returned(1)]
    have "exec_micro\<^sup>*\<^sup>* u t"
      using returned(2) admitted(2,3) Cons.prems(2,3) by (intro Cons.IH) auto
    with first admitted(1) show ?thesis by (meson converse_rtranclp_into_rtranclp rtranclp_trans)
  qed
qed

lemma manifest_micro:
  assumes "execution_accept_manifest sha verify cb m at_ms s = (r, t)"
  shows "exec_micro\<^sup>*\<^sup>* s t"
proof (cases "t = s")
  case False
  let ?s = "s\<lparr>ex_seen_chunks := ex_seen_chunks s,
    ex_seen_manifests := insert (manifest_digest sha m) (ex_seen_manifests s)\<rparr>"
  have facts: "event_open s (Some at_ms)"
    "\<forall>c \<in> set (mf_consumer_roles m). (mf_producer_role m, c) \<in> set (ex_edges s)"
    "deliver_manifest cb (mf_producer_role m) at_ms (mf_consumer_roles m) ?s = (r, t)"
    using assms False by (auto simp: execution_accept_manifest_def split: if_splits)
  have first: "exec_micro s ?s"
    using event_open_weaken [OF facts(1)] by (rule exec_micro.seen)
  have "exec_micro\<^sup>*\<^sup>* ?s t"
    using facts by (intro deliver_micro [OF facts(3)]) (auto intro: event_open_weaken)
  with first show ?thesis by (rule converse_rtranclp_into_rtranclp)
qed simp

lemma ready_micro:
  assumes "execution_ready cb role provider boot generation at_ms s = (r, t)"
  shows "exec_micro\<^sup>*\<^sup>* s t"
proof (cases "t = s")
  case False
  let ?s = "s\<lparr>ex_ready := insert role (ex_ready s)\<rparr>"
  have facts: "event_open s (Some at_ms)" "role \<in> set (ex_roles s)"
    "and_then (admit_if_eligible cb role at_ms ?s) (\<lambda>_ s. (Inr True, s)) = (r, t)"
    using assms False by (auto simp: execution_ready_def require_role_def split: if_splits)
  have first: "exec_micro s ?s"
    using event_open_weaken [OF facts(1)] facts(2) by (rule exec_micro.ready)
  from facts(3) have "exec_micro\<^sup>*\<^sup>* ?s t"
    by (cases rule: and_then_cases) (auto dest: admit_micro(1))
  with first show ?thesis by (rule converse_rtranclp_into_rtranclp)
qed simp

lemma input_micro:
  assumes "execution_accept_input verify evidence s = (b, t)"
  shows "exec_micro\<^sup>*\<^sup>* s t"
proof (cases "t = s")
  case False
  then obtain src dst chunks where facts: "event_open s None" "(src, dst) \<in> set (ex_edges s)"
    "t = s\<lparr>ex_seen_chunks := chunks, ex_inputs := (ex_inputs s)(dst := insert src (ex_inputs s dst))\<rparr>"
    using assms by (auto simp: execution_accept_input_def Let_def split: if_splits option.splits)
  let ?s = "s\<lparr>ex_seen_chunks := chunks, ex_seen_manifests := ex_seen_manifests s\<rparr>"
  have "exec_micro s ?s" using facts(1) by (rule exec_micro.seen)
  moreover have "exec_micro ?s (?s\<lparr>ex_inputs := (ex_inputs ?s)(dst := insert src (ex_inputs ?s dst))\<rparr>)"
    using facts(1,2) by (intro exec_micro.input) auto
  ultimately show ?thesis using facts(3) by (simp add: rtranclp.rtrancl_into_rtrancl r_into_rtranclp)
qed simp

lemma finish_micro:
  assumes "ex_terminal_outcome s = []" and "out \<noteq> []"
  shows "exec_micro s (end_with reason out at_ms s)"
  using exec_micro.finish [OF assms, where running = "[]" and aborted = True and reason = reason
      and at_ms = at_ms]
  by (simp add: end_with_def)

lemma result_micro:
  assumes "execution_accept_result sha vm ve raises e m at_ms s = (b, t)"
  shows "exec_micro\<^sup>*\<^sup>* s t"
proof (cases "t = s")
  case False
  then have open_s: "ex_terminal_outcome s = []"
    using assms by (auto simp: execution_accept_result_def result_acceptable_def event_open_def
        split: if_splits option.splits)
  note finish = exec_micro.finish [OF open_s _ insertI2 [OF singletonI]]
  have "s\<lparr>ex_terminal_at_ms := at_ms, ex_terminal_outcome := ''FAILED'',
      ex_abort_reason := ''RESPONSE_CALLBACK_FAILED'', ex_aborted := True\<rparr>
    = s\<lparr>ex_aborted := True, ex_abort_reason := ''RESPONSE_CALLBACK_FAILED'',
      ex_running := ex_running s, ex_terminal_outcome := ''FAILED'', ex_terminal_at_ms := at_ms\<rparr>"
    by (cases s) simp
  then have "exec_micro s (s\<lparr>ex_terminal_at_ms := at_ms, ex_terminal_outcome := ''FAILED'',
      ex_abort_reason := ''RESPONSE_CALLBACK_FAILED'', ex_aborted := True\<rparr>)"
    by (simp only:) (rule finish, simp)
  moreover have "exec_micro s (s\<lparr>ex_aborted := ex_aborted s, ex_abort_reason := ex_abort_reason s,
      ex_running := ex_running s, ex_terminal_outcome := ''RESPONSE'', ex_terminal_at_ms := at_ms\<rparr>)"
    by (rule finish) simp
  ultimately show ?thesis
    using assms False by (auto simp: execution_accept_result_def Let_def split: if_splits)
qed simp

lemma complete_micro:
  assumes "execution_complete role at_ms s = (u, t)"
  shows "exec_micro\<^sup>*\<^sup>* s t"
proof (cases "t = s")
  case False
  then obtain started where facts: "event_open s (Some at_ms)" "dict_get (ex_running s) role = Some started"
    "started \<le> at_ms"
    using assms by (auto simp: execution_complete_def split: option.splits if_splits)
  show ?thesis
    using exec_micro.complete [OF facts, where out = "''RESPONSE''" and at = at_ms]
      exec_micro.complete [OF facts, where out = "ex_terminal_outcome s" and at = "ex_terminal_at_ms s"]
      assms facts
    by (auto simp: execution_complete_def Let_def split: if_splits)
qed simp

lemma execution_step_micro: "execution_step sha s t \<Longrightarrow> exec_micro\<^sup>*\<^sup>* s t"
proof (induction rule: execution_step.induct)
  case (select role provider boot generation s r t)
  then show ?case
    by (auto simp: execution_select_def require_role_def intro: exec_micro.select split: if_splits)
next
  case (begin_stage role at_ms s u t)
  then show ?case by (auto simp: execution_start_def intro: exec_micro.admit split: if_splits)
qed (auto simp: execution_abort_def execution_fail_def execution_cancel_def execution_expire_def
    execution_supersede_def event_open_def intro: ready_micro input_micro manifest_micro
    complete_micro result_micro finish_micro split: if_splits)


section \<open>Invariant\<close>

text \<open>A stage that runs or has run has its prerequisites, and was admitted once.\<close>

definition stages_ok :: "execution \<Rightarrow> bool" where
  "stages_ok s \<longleftrightarrow> (\<forall>role. dict_has (ex_running s) role \<or> dict_has (ex_completed s) role \<longrightarrow>
     role \<in> ex_selected s \<and> role \<in> ex_ready s \<and> incoming (ex_edges s) role \<subseteq> ex_inputs s role)"

definition times_ok :: "execution \<Rightarrow> bool" where
  "times_ok s \<longleftrightarrow> (\<forall>role t. dict_get (ex_running s) role = Some t \<longrightarrow> dict_get (ex_started s) role = Some t)
     \<and> (\<forall>role t. dict_get (ex_completed s) role = Some t \<longrightarrow>
          (\<exists>u. dict_get (ex_started s) role = Some u \<and> u \<le> t))"

definition once_ok :: "execution \<Rightarrow> bool" where
  "once_ok s \<longleftrightarrow> (event_open s None \<longrightarrow> (\<forall>role. dict_has (ex_started s) role \<longrightarrow>
     dict_has (ex_running s) role \<or> dict_has (ex_completed s) role))"

definition inputs_ok :: "execution \<Rightarrow> bool" where
  "inputs_ok s \<longleftrightarrow> (\<forall>src dst. src \<in> ex_inputs s dst \<longrightarrow> (src, dst) \<in> set (ex_edges s))"

definition execution_inv :: "execution \<Rightarrow> bool" where
  "execution_inv s \<longleftrightarrow> stages_ok s \<and> times_ok s \<and> once_ok s \<and> inputs_ok s \<and> acyclic (set (ex_edges s))"

lemma micro_edges: "exec_micro s t \<Longrightarrow> ex_edges t = ex_edges s"
  by (induction rule: exec_micro.induct) simp_all

lemma stages_ok_micro: "exec_micro s t \<Longrightarrow> stages_ok s \<Longrightarrow> stages_ok t"
proof (induction rule: exec_micro.induct)
  case (complete s at_ms role started out at)
  then have "dict_has (ex_running s) role" by (simp add: dict_has_def)
  with complete(4) show ?case by (auto simp: stages_ok_def)
next
  case (finish s out running aborted reason at_ms)
  then show ?case by (auto simp: stages_ok_def dict_has_def)
qed (auto simp: stages_ok_def eligible_locked_def)

lemma times_ok_micro: "exec_micro s t \<Longrightarrow> times_ok s \<Longrightarrow> times_ok t"
proof (induction rule: exec_micro.induct)
  case (admit s role at_ms)
  then have "dict_get (ex_completed s) role = None" by (simp add: eligible_locked_def dict_has_def)
  with admit(2) show ?case by (auto simp: times_ok_def dict_simps)
next
  case (admit_failed s role at_ms reason)
  then have "dict_get (ex_completed s) role = None" by (simp add: eligible_locked_def dict_has_def)
  with admit_failed(2) show ?case by (auto simp: times_ok_def dict_simps split: if_splits)
next
  case (complete s at_ms role started out at)
  then show ?case by (auto simp: times_ok_def dict_simps split: if_splits)
next
  case (finish s out running aborted reason at_ms)
  then show ?case by (auto simp: times_ok_def)
qed (simp_all add: times_ok_def)

lemma once_ok_micro: "exec_micro s t \<Longrightarrow> once_ok s \<Longrightarrow> once_ok t"
proof (induction rule: exec_micro.induct)
  case (complete s at_ms role started out at)
  then show ?case using event_open_weaken [OF complete(1)] by (auto simp: once_ok_def)
next
  case (finish s out running aborted reason at_ms)
  then show ?case by (simp add: once_ok_def event_open_def)
next
  case (admit_failed s role at_ms reason)
  then show ?case by (simp add: once_ok_def event_open_def)
qed (auto simp: once_ok_def event_open_def eligible_locked_def)

lemma inputs_ok_micro: "exec_micro s t \<Longrightarrow> inputs_ok s \<Longrightarrow> inputs_ok t"
  by (induction rule: exec_micro.induct) (auto simp: inputs_ok_def)

lemma execution_inv_micro: "exec_micro s t \<Longrightarrow> execution_inv s \<Longrightarrow> execution_inv t"
  by (simp add: execution_inv_def stages_ok_micro times_ok_micro once_ok_micro inputs_ok_micro micro_edges)

lemma execution_inv_micros: "exec_micro\<^sup>*\<^sup>* s t \<Longrightarrow> execution_inv s \<Longrightarrow> execution_inv t"
  by (induction rule: rtranclp_induct) (auto intro: execution_inv_micro)

lemma execution_start_inv:
  assumes "execution_start_state s"
  shows "execution_inv s"
proof -
  obtain request_id attempt plan_digest roles edges terminal bindings generation deadline contract
      has_start has_response where dist: "distinct roles" "distinct edges"
    and init: "execution_init request_id attempt plan_digest roles edges terminal bindings generation
      deadline contract has_start has_response = Inr s"
    using assms by (auto simp: execution_start_state_def)
  then have "plan_edges_ok roles edges" by (auto simp: execution_init_def plan_edges_ok_def split: if_splits)
  from plan_check_exact [OF dist(1) this] init have "acyclic (set edges)"
    by (auto simp: execution_init_def split: if_splits)
  with init show ?thesis
    by (auto simp: execution_init_def execution_inv_def stages_ok_def times_ok_def once_ok_def
        inputs_ok_def dict_has_def split: if_splits)
qed

interpretation exec: invariant_system execution_start_state "execution_step sha" execution_inv
  for sha
  by unfold_locales (auto intro: execution_start_inv execution_inv_micros execution_step_micro)

text \<open>The end of an execution: nothing changes any more, and no event is accepted.\<close>

lemma micro_open: "exec_micro s t \<Longrightarrow> ex_terminal_outcome s = []"
  by (induction rule: exec_micro.induct) (auto simp: event_open_def eligible_locked_def)

lemma micros_terminal: "exec_micro\<^sup>*\<^sup>* s t \<Longrightarrow> ex_terminal_outcome s \<noteq> [] \<Longrightarrow> t = s"
  by (induction rule: converse_rtranclp_induct) (auto dest: micro_open)

interpretation exec_end: terminal_fence "execution_step sha" ex_terminal_outcome "[]" event_open
  for sha
proof unfold_locales
  show "ex_terminal_outcome s \<noteq> [] \<Longrightarrow> execution_step sha s t \<Longrightarrow> ex_terminal_outcome t = ex_terminal_outcome s"
    for s t using micros_terminal [OF execution_step_micro] by blast
  show "ex_terminal_outcome s \<noteq> [] \<Longrightarrow> \<not> event_open s a" for s a by (simp add: event_open_def)
qed

lemma micro_started:
  assumes "exec_micro s t" and "execution_inv s" and "dict_get (ex_started s) role = Some x"
  shows "dict_get (ex_started t) role = Some x"
  using assms
proof (induction rule: exec_micro.induct)
  case (admit s r at_ms)
  then have "r \<noteq> role" by (auto simp: execution_inv_def once_ok_def eligible_locked_def dict_has_def)
  with admit show ?case by (simp add: dict_simps)
next
  case (admit_failed s r at_ms reason)
  then have "r \<noteq> role" by (auto simp: execution_inv_def once_ok_def eligible_locked_def dict_has_def)
  with admit_failed show ?case by (simp add: dict_simps)
qed simp_all

lemma micros_started:
  "exec_micro\<^sup>*\<^sup>* s t \<Longrightarrow> execution_inv s \<Longrightarrow> dict_get (ex_started s) role = Some x
    \<Longrightarrow> dict_get (ex_started t) role = Some x"
proof (induction rule: rtranclp_induct)
  case (step t u)
  then show ?case by (blast intro: micro_started execution_inv_micros)
qed

lemma steps_micro: "(execution_step sha)\<^sup>*\<^sup>* s t \<Longrightarrow> exec_micro\<^sup>*\<^sup>* s t"
  by (induction rule: rtranclp_induct) (auto intro: rtranclp_trans execution_step_micro)

section \<open>Properties\<close>

text \<open>
  C28: The check of the dependency graph is exact and ends. Whatever the iteration order of the
  sets, its loop visits every role at most once, so that as much fuel as there are roles is
  enough, and it visits all roles exactly when the graph has no cycle.
\<close>

theorem dependency_check_exact:
  assumes "distinct roles" and "plan_edges_ok roles edges"
  shows "\<exists>visited. visit_roles (length roles) edges (initial_frontier roles edges) {} = Some visited
    \<and> (visited = set roles \<longleftrightarrow> acyclic (set edges))"
  using plan_check_exact [OF assms] by auto

text \<open>
  C2: In every reachable state of an execution, a stage that is running or completed was selected
  and was ready, and every predecessor of it in the acyclic plan has delivered accepted input;
  a completed stage ended no earlier than it started.
\<close>

theorem stages_run_with_prerequisites:
  assumes "reachable execution_start_state (execution_step sha) s"
  shows "(\<forall>role. dict_has (ex_running s) role \<or> dict_has (ex_completed s) role \<longrightarrow>
        role \<in> ex_selected s \<and> role \<in> ex_ready s
        \<and> (\<forall>p. (p, role) \<in> set (ex_edges s) \<longrightarrow> p \<in> ex_inputs s role))
    \<and> (\<forall>role t. dict_get (ex_completed s) role = Some t \<longrightarrow>
        (\<exists>u. dict_get (ex_started s) role = Some u \<and> u \<le> t))
    \<and> acyclic (set (ex_edges s))"
  using exec.reachable_inv [OF assms]
  by (simp add: execution_inv_def stages_ok_def times_ok_def subset_iff incoming_iff)

text \<open>
  A stage is admitted at most once: once it has a start time, no later call changes it, so a
  completed, failed or cancelled stage is never started again.
\<close>

lemma stage_admitted_at_most_once:
  assumes "reachable execution_start_state (execution_step sha) s"
    and "dict_get (ex_started s) role = Some x" and "(execution_step sha)\<^sup>*\<^sup>* s t"
  shows "dict_get (ex_started t) role = Some x"
  using micros_started [OF steps_micro [OF assms(3)] exec.reachable_inv [OF assms(1)] assms(2)] .

text \<open>
  C32: The terminal outcome is set at most once. After it is set no sequence of calls changes any
  part of the execution, and no event is accepted.
\<close>

theorem terminal_outcome_final:
  assumes "ex_terminal_outcome s \<noteq> []" and "(execution_step sha)\<^sup>*\<^sup>* s t"
  shows "t = s \<and> \<not> event_open t at_ms"
  using exec_end.terminal_rejects_forever [OF assms(2,1)] micros_terminal [OF steps_micro [OF assms(2)] assms(1)]
  by simp


text \<open>
  A result is accepted only from the completed result role: when \<open>accept_result\<close> returns
  True, the producer had completed with all its prerequisites, the envelope names the output
  manifest and both were verified, the outcome is RESPONSE, and no later call accepts another
  result.
\<close>

lemma result_accepted_once:
  assumes "reachable execution_start_state (execution_step sha) s"
    and "execution_accept_result sha vm ve raises e m at_ms s = (True, t)"
    and "(execution_step sha)\<^sup>*\<^sup>* t u"
  shows "dict_has (ex_completed s) (re_producer_role e)
    \<and> (\<forall>p. (p, re_producer_role e) \<in> set (ex_edges s) \<longrightarrow> p \<in> ex_inputs s (re_producer_role e))
    \<and> manifest_digest sha m = re_output_manifest_digest e \<and> vm m \<and> ve e
    \<and> ex_terminal_outcome u = ''RESPONSE''
    \<and> execution_accept_result sha vm' ve' raises' e' m' at' u = (False, u)"
proof -
  have ok: "result_acceptable sha vm ve e m at_ms s" and t: "ex_terminal_outcome t = ''RESPONSE''"
    using assms(2) by (auto simp: execution_accept_result_def Let_def split: if_splits)
  then have "ex_terminal_outcome t \<noteq> []" by simp
  with assms(3) have u: "u = t" using micros_terminal steps_micro by blast
  have "\<not> result_acceptable sha vm' ve' e' m' at' u"
    by (auto simp: result_acceptable_def event_open_def u t split: option.splits)
  then have "execution_accept_result sha vm' ve' raises' e' m' at' u = (False, u)"
    by (simp add: execution_accept_result_def)
  moreover have done': "dict_has (ex_completed s) (re_producer_role e)"
    and "manifest_digest sha m = re_output_manifest_digest e \<and> vm m \<and> ve e"
    using ok by (auto simp: result_acceptable_def split: option.splits)
  moreover have "stages_ok s" using exec.reachable_inv [OF assms(1)] by (simp add: execution_inv_def)
  then have "incoming (ex_edges s) (re_producer_role e) \<subseteq> ex_inputs s (re_producer_role e)"
    using done' by (simp add: stages_ok_def)
  ultimately show ?thesis using t u by (auto simp: incoming_iff)
qed

section \<open>Witnesses\<close>

definition demo_roles :: "string list" where
  "demo_roles = [''a'', ''b'']"

definition demo_edges :: "edge list" where
  "demo_edges = [(''a'', ''b'')]"

theorem dependency_check_exact_witness:
  "visit_roles (length demo_roles) demo_edges (initial_frontier demo_roles demo_edges) {} = Some (set demo_roles)
   \<and> acyclic (set demo_edges)"
proof -
  have "visit_roles (length demo_roles) demo_edges (initial_frontier demo_roles demo_edges) {}
      = Some (set demo_roles)" by code_simp
  moreover have "distinct demo_roles" "plan_edges_ok demo_roles demo_edges" by code_simp+
  ultimately show ?thesis using dependency_check_exact by fastforce
qed

definition demo_contract :: result_contract where
  "demo_contract = \<lparr>rc_sink_roles = [''a''], rc_result_schema_digest = ''x'',
     rc_result_semantics_digest = ''y'', rc_aggregator_role = [], rc_aggregation_rule_digest = [],
     rc_aggregation_output_role = []\<rparr>"

definition demo_binding_a :: role_binding where
  "demo_binding_a = \<lparr>rb_role = ''a'', rb_provider = ''p'', rb_provider_boot_epoch = ''bootboot''\<rparr>"

definition demo_execution :: execution where
  "demo_execution = projr (execution_init ''r'' 1 ''d'' [''a''] [] ''a'' [(''a'', demo_binding_a)] 1 100
     (Some demo_contract) False False)"

definition demo_done :: execution where
  "demo_done =
     (let s1 = snd (execution_select ''a'' ''p'' ''bootboot'' None demo_execution);
          s2 = snd (execution_ready (\<lambda>_. None) ''a'' ''p'' ''bootboot'' None 1 s1);
          s3 = snd (execution_start ''a'' 2 s2)
      in snd (execution_complete ''a'' 5 s3))"

lemma demo_done_reachable: "reachable execution_start_state (execution_step sha) demo_done"
proof -
  let ?r = "reachable execution_start_state (execution_step sha)"
  have "\<not> isl (execution_init ''r'' 1 ''d'' [''a''] [] ''a'' [(''a'', demo_binding_a)] 1 100
      (Some demo_contract) False False)" by code_simp
  then have "execution_init ''r'' 1 ''d'' [''a''] [] ''a'' [(''a'', demo_binding_a)] 1 100
      (Some demo_contract) False False = Inr demo_execution"
    unfolding demo_execution_def by (rule sum.collapse(2) [symmetric])
  moreover have "distinct [''a'']" "distinct ([] :: edge list)" "dict_ok [(''a'', demo_binding_a)]"
    by (simp_all add: dict_ok_def)
  ultimately have "execution_start_state demo_execution" unfolding execution_start_state_def by blast
  then have "?r demo_execution" by (rule reachable.start)
  moreover have "?r (snd (execution_select r p b v s))" if "?r s" for r p b v s
    using that execution_step.select [OF prod.collapse [symmetric]] by (rule reachable.next_state)
  moreover have "?r (snd (execution_ready raises r p b v n s))" if "?r s" for raises r p b v n s
    using that execution_step.ready [OF prod.collapse [symmetric]] by (rule reachable.next_state)
  moreover have "?r (snd (execution_start r n s))" if "?r s" for r n s
    using that execution_step.begin_stage [OF prod.collapse [symmetric]] by (rule reachable.next_state)
  moreover have "?r (snd (execution_complete r n s))" if "?r s" for r n s
    using that execution_step.complete [OF prod.collapse [symmetric]] by (rule reachable.next_state)
  ultimately show ?thesis unfolding demo_done_def Let_def by (simp only:)
qed

lemma demo_done_fields:
  "dict_get (ex_completed demo_done) ''a'' = Some 5" "dict_get (ex_started demo_done) ''a'' = Some 2"
  "ex_terminal_outcome demo_done = []"
  by code_simp+

theorem stages_run_with_prerequisites_witness:
  "dict_has (ex_completed demo_done) ''a'' \<and> ''a'' \<in> ex_selected demo_done \<and> ''a'' \<in> ex_ready demo_done"
proof -
  have "dict_has (ex_completed demo_done) ''a''" by (simp add: dict_has_def demo_done_fields)
  with stages_run_with_prerequisites [OF demo_done_reachable [of "\<lambda>s. s"]] show ?thesis by blast
qed

theorem stage_admitted_at_most_once_witness:
  "dict_get (ex_started (snd (execution_start ''a'' 7 demo_done))) ''a'' = Some 2"
proof -
  have "execution_step (\<lambda>s. s) demo_done (snd (execution_start ''a'' 7 demo_done))"
    by (rule execution_step.begin_stage [OF prod.collapse [symmetric]])
  with stage_admitted_at_most_once [OF demo_done_reachable demo_done_fields(2)] show ?thesis by blast
qed

definition demo_failed :: execution where
  "demo_failed = snd (execution_fail ''x'' 9 demo_done)"

theorem terminal_outcome_final_witness:
  "ex_terminal_outcome demo_failed = ''FAILED'' \<and> snd (execution_cancel ''late'' 10 demo_failed) = demo_failed"
proof -
  have "ex_terminal_outcome demo_failed = ''FAILED''" by code_simp
  moreover have "execution_step (\<lambda>s. s) demo_failed (snd (execution_cancel ''late'' 10 demo_failed))"
    by (rule execution_step.cancel [OF prod.collapse [symmetric]])
  moreover from calculation(1) have "ex_terminal_outcome demo_failed \<noteq> []" by simp
  ultimately show ?thesis using terminal_outcome_final [OF _ r_into_rtranclp] by metis
qed

definition demo_manifest :: manifest where
  "demo_manifest = \<lparr>mf_object_name = ''/o'', mf_request_id = ''r'', mf_attempt = 1,
     mf_plan_digest = ''d'', mf_producer_role = ''a'', mf_producer_provider = ''p'',
     mf_producer_boot_epoch = ''bootboot'', mf_generation = 1, mf_consumer_roles = [],
     mf_lineage_digests = [], mf_schema_digest = ''x'', mf_segment_count = 1, mf_total_bytes = 1,
     mf_payload_digest = ''z'', mf_aead_algorithm = ''AES-256-GCM'', mf_key_grant_digest = ''k'',
     mf_signer_key_id = ''s'', mf_signature = ''s'', mf_captured_at_ms = 0, mf_expires_at_ms = 50\<rparr>"

definition demo_envelope_a :: result_envelope where
  "demo_envelope_a = \<lparr>re_request_id = ''r'', re_attempt = 1, re_plan_digest = ''d'',
     re_producer_role = ''a'', re_producer_provider = ''p'', re_producer_boot_epoch = ''bootboot'',
     re_generation = 1, re_result_contract_digest = ''sha256:h'',
     re_output_manifest_digest = ''sha256:h'', re_result_schema_digest = ''x'',
     re_result_semantics_digest = ''y'', re_payload_digest = ''z'', re_signer_key_id = ''s'',
     re_signature = ''s''\<rparr>"

definition demo_response :: execution where
  "demo_response = demo_done\<lparr>ex_terminal_outcome := ''RESPONSE'', ex_terminal_at_ms := 6\<rparr>"

lemma demo_result: "execution_accept_result (\<lambda>_. ''h'') (\<lambda>_. True) (\<lambda>_. True) (\<lambda>_ _. False)
    demo_envelope_a demo_manifest 6 demo_done = (True, demo_response)"
proof -
  have "ex_result_contract demo_done = Some demo_contract"
    "dict_get (ex_bindings demo_done) ''a'' = Some demo_binding_a"
    "ex_request_id demo_done = ''r''" "ex_attempt demo_done = 1" "ex_plan_digest demo_done = ''d''"
    "ex_generation demo_done = 1" "event_open demo_done (Some 6)" "dict_has (ex_completed demo_done) ''a''"
    "\<not> ex_has_response_callback demo_done"
    by code_simp+
  then show ?thesis
    by (simp add: execution_accept_result_def result_acceptable_def demo_envelope_a_def
        demo_manifest_def demo_contract_def demo_binding_a_def result_role_def contract_digest_def
        manifest_digest_def canonical_digest_def json_digest_def demo_response_def)
qed

theorem result_accepted_once_witness:
  "dict_has (ex_completed demo_done) (re_producer_role demo_envelope_a)
   \<and> execution_accept_result (\<lambda>_. ''h'') (\<lambda>_. True) (\<lambda>_. True) (\<lambda>_ _. False)
       demo_envelope_a demo_manifest 7 demo_response = (False, demo_response)"
  using result_accepted_once [OF demo_done_reachable demo_result rtranclp.rtrancl_refl] by blast

end
