(* ===== verification/Json_Wire.thy ===== *)
theory Json_Wire
  imports Prelude
begin

text \<open>
  The wire format of the contracts: \<open>json.loads\<close> on the values of the model, the UTF-8 decoding
  that precedes it, and the proof that it inverts \<open>json_dumps\<close>.

  \<^item> The parser follows Python's decoder: white space between tokens, the escapes of a string,
    control characters refused, integers without leading zeros, the last of several equal keys
    of an object.
  \<^item> The values are those of \<open>json\<close>: floating point numbers and code points above 255 have no
    value in the model, and a text that contains one is refused.
  \<^item> The parser recurses on fuel. \<open>parse_fuel\<close> shows that one unit more than twice the length of
    the text is enough: more fuel never changes the result.
\<close>

section \<open>Tokens\<close>

definition is_ws :: "char \<Rightarrow> bool" where
  "is_ws c \<longleftrightarrow> c = CHR '' '' \<or> c = CHR 0x09 \<or> c = CHR 0x0A \<or> c = CHR 0x0D"

definition skip_ws :: "string \<Rightarrow> string" where
  "skip_ws s = dropWhile is_ws s"

definition is_digit :: "char \<Rightarrow> bool" where
  "is_digit c \<longleftrightarrow> 48 \<le> (of_char c :: nat) \<and> (of_char c :: nat) \<le> 57"

definition hex_value :: "char \<Rightarrow> nat option" where
  "hex_value c = (let n = (of_char c :: nat) in
     if 48 \<le> n \<and> n \<le> 57 then Some (n - 48)
     else if 97 \<le> n \<and> n \<le> 102 then Some (n - 87)
     else if 65 \<le> n \<and> n \<le> 70 then Some (n - 55)
     else None)"

definition simple_escape :: "char \<Rightarrow> char option" where
  "simple_escape e =
     (if e = CHR 0x22 then Some (CHR 0x22)
      else if e = CHR 0x5C then Some (CHR 0x5C)
      else if e = CHR ''/'' then Some (CHR ''/'')
      else if e = CHR ''b'' then Some (CHR 0x08)
      else if e = CHR ''f'' then Some (CHR 0x0C)
      else if e = CHR ''n'' then Some (CHR 0x0A)
      else if e = CHR ''r'' then Some (CHR 0x0D)
      else if e = CHR ''t'' then Some (CHR 0x09)
      else None)"

definition unicode_escape :: "char \<Rightarrow> char \<Rightarrow> char \<Rightarrow> char \<Rightarrow> char option" where
  "unicode_escape a b c d =
     (case (hex_value a, hex_value b, hex_value c, hex_value d) of
        (Some w, Some x, Some y, Some z) \<Rightarrow>
          if w = 0 \<and> x = 0 then Some (char_of (16 * y + z)) else None
      | _ \<Rightarrow> None)"

text \<open>The rest of a string literal, after its opening quote.\<close>

fun parse_string :: "string \<Rightarrow> (string \<times> string) option" where
  "parse_string [] = None"
| "parse_string (c # cs) =
     (if c = CHR 0x22 then Some ([], cs)
      else if c = CHR 0x5C then
        (case cs of
           [] \<Rightarrow> None
         | e # es \<Rightarrow>
             if e = CHR ''u'' then
               (case es of
                  h1 # h2 # h3 # h4 # r \<Rightarrow>
                    (case unicode_escape h1 h2 h3 h4 of
                       None \<Rightarrow> None
                     | Some ch \<Rightarrow> map_option (map_prod (Cons ch) id) (parse_string r))
                | _ \<Rightarrow> None)
             else (case simple_escape e of
                     None \<Rightarrow> None
                   | Some ch \<Rightarrow> map_option (map_prod (Cons ch) id) (parse_string es)))
      else if (of_char c :: nat) < 32 then None
      else map_option (map_prod (Cons c) id) (parse_string cs))"

text \<open>An integer literal. A fraction or an exponent makes it a float, which has no value here.\<close>

definition digits_value :: "string \<Rightarrow> nat" where
  "digits_value ds = foldl (\<lambda>acc c. 10 * acc + (of_char c - 48)) 0 ds"

definition starts_float :: "string \<Rightarrow> bool" where
  "starts_float s = (case s of
       [] \<Rightarrow> False
     | c # r \<Rightarrow>
         if c = CHR ''.'' then (case r of [] \<Rightarrow> False | d # _ \<Rightarrow> is_digit d)
         else if c = CHR ''e'' \<or> c = CHR ''E'' then
           (case r of [] \<Rightarrow> False
            | d # q \<Rightarrow> is_digit d \<or>
                ((d = CHR ''+'' \<or> d = CHR ''-'') \<and> (case q of [] \<Rightarrow> False | x # _ \<Rightarrow> is_digit x)))
         else False)"

definition parse_nat :: "string \<Rightarrow> (nat \<times> string) option" where
  "parse_nat s = (case s of
       [] \<Rightarrow> None
     | c # r \<Rightarrow>
         if \<not> is_digit c then None
         else let ds = (if c = CHR ''0'' then [c] else takeWhile is_digit s);
                  rest = drop (length ds) s
              in if starts_float rest then None else Some (digits_value ds, rest))"

definition parse_number :: "string \<Rightarrow> (json \<times> string) option" where
  "parse_number s =
     (if starts_with s ''-''
      then map_option (map_prod (\<lambda>n. JInt (- int n)) id) (parse_nat (tl s))
      else map_option (map_prod (\<lambda>n. JInt (int n)) id) (parse_nat s))"

definition parse_atom :: "string \<Rightarrow> (json \<times> string) option" where
  "parse_atom s =
     (if starts_with s ''null'' then Some (JNull, drop 4 s)
      else if starts_with s ''true'' then Some (JBool True, drop 4 s)
      else if starts_with s ''false'' then Some (JBool False, drop 5 s)
      else parse_number s)"

section \<open>Values\<close>

text \<open>
  \<open>parse_value\<close> starts at a value; \<open>parse_items\<close> at an item of an array, \<open>parse_pairs\<close> at the key of
  a member of an object.
\<close>

fun parse_value :: "nat \<Rightarrow> string \<Rightarrow> (json \<times> string) option"
  and parse_items :: "nat \<Rightarrow> string \<Rightarrow> (json list \<times> string) option"
  and parse_pairs :: "nat \<Rightarrow> string \<Rightarrow> ((string \<times> json) list \<times> string) option" where
  "parse_value 0 s = None"
| "parse_value (Suc n) s = (case s of
       [] \<Rightarrow> None
     | c # r \<Rightarrow>
         if c = CHR 0x22 then map_option (map_prod JStr id) (parse_string r)
         else if c = CHR ''['' then
           (if starts_with (skip_ws r) '']'' then Some (JList [], tl (skip_ws r))
            else map_option (map_prod JList id) (parse_items n (skip_ws r)))
         else if c = CHR 0x7B then
           (if starts_with (skip_ws r) [CHR 0x7D] then Some (JObj [], tl (skip_ws r))
            else map_option (map_prod (\<lambda>ps. JObj (dict_of_list ps)) id) (parse_pairs n (skip_ws r)))
         else parse_atom s)"
| "parse_items 0 s = None"
| "parse_items (Suc n) s = (case parse_value n s of
       None \<Rightarrow> None
     | Some (v, r) \<Rightarrow>
         (case skip_ws r of
            [] \<Rightarrow> None
          | c # q \<Rightarrow>
              if c = CHR '']'' then Some ([v], q)
              else if c = CHR '','' then map_option (map_prod (Cons v) id) (parse_items n (skip_ws q))
              else None))"
| "parse_pairs 0 s = None"
| "parse_pairs (Suc n) s = (case s of
       [] \<Rightarrow> None
     | c # r0 \<Rightarrow>
         if c \<noteq> CHR 0x22 then None
         else (case parse_string r0 of
            None \<Rightarrow> None
          | Some (k, r1) \<Rightarrow>
              if \<not> starts_with (skip_ws r1) '':'' then None
              else (case parse_value n (skip_ws (tl (skip_ws r1))) of
                 None \<Rightarrow> None
               | Some (v, r) \<Rightarrow>
                   (case skip_ws r of
                      [] \<Rightarrow> None
                    | d # q \<Rightarrow>
                        if d = CHR 0x7D then Some ([(k, v)], q)
                        else if d = CHR '','' then
                          map_option (map_prod (Cons (k, v)) id) (parse_pairs n (skip_ws q))
                        else None))))"

definition json_loads :: "string \<Rightarrow> json option" where
  "json_loads s = (case parse_value (Suc (2 * length s)) (skip_ws s) of
       None \<Rightarrow> None
     | Some (v, r) \<Rightarrow> if skip_ws r = [] then Some v else None)"

text \<open>\<open>bytes.decode("utf-8")\<close> for code points below 256.\<close>

fun utf8_decode :: "string \<Rightarrow> string option" where
  "utf8_decode [] = Some []"
| "utf8_decode (c # cs) = (let n = (of_char c :: nat) in
     if n < 128 then map_option (Cons c) (utf8_decode cs)
     else (case cs of
             [] \<Rightarrow> None
           | d # ds \<Rightarrow>
               let m = (of_char d :: nat) in
               if (n = 194 \<or> n = 195) \<and> 128 \<le> m \<and> m < 192
               then map_option (Cons (char_of (64 * (n - 192) + (m - 128)))) (utf8_decode ds)
               else None))"

definition wire_loads :: "string \<Rightarrow> json option" where
  "wire_loads wire = Option.bind (utf8_decode wire) json_loads"


section \<open>The canonical contract boundary\<close>

text \<open>
  \<open>canonical_json\<close> is \<open>json_dumps\<close> on the plain value; \<open>to_bytes\<close> encodes the dictionary of a
  contract with its schema, and \<open>_decode\<close> reads a wire of a given schema.
\<close>

definition canonical_json :: "json \<Rightarrow> string" where
  "canonical_json v = json_dumps v"

definition with_schema :: "string \<Rightarrow> (string, json) dict \<Rightarrow> (string, json) dict" where
  "with_schema schema d = dict_set ''schema'' (JStr schema) d"

definition contract_to_bytes :: "string \<Rightarrow> (string, json) dict \<Rightarrow> string" where
  "contract_to_bytes schema d = canonical_json (JObj (with_schema schema d))"

definition contract_digest_of :: "hash \<Rightarrow> string \<Rightarrow> (string, json) dict \<Rightarrow> string" where
  "contract_digest_of sha schema d = canonical_digest sha (JObj (with_schema schema d))"

definition decode_contract :: "string \<Rightarrow> string \<Rightarrow> py_error + (string, json) dict" where
  "decode_contract wire schema = (case wire_loads wire of
       None \<Rightarrow> Inl (ValueError ''malformed canonical contract'')
     | Some (JObj d) \<Rightarrow>
         (if dict_get d ''schema'' = Some (JStr schema) then Inr d
          else Inl (ValueError ''unsupported contract schema''))
     | Some _ \<Rightarrow> Inl (ValueError ''unsupported contract schema''))"

definition placement_wire_schema :: "string \<Rightarrow> py_error + string" where
  "placement_wire_schema wire = (case wire_loads wire of
       None \<Rightarrow> Inl (ValueError ''malformed placement wire'')
     | Some (JObj d) \<Rightarrow>
         (case dict_get d ''schema'' of
            Some (JStr schema) \<Rightarrow>
              (if schema \<in> {''DI_PLACEMENT_V3'', ''ndnsf-di-provider-offer-v2''} then Inr schema
               else Inl (ValueError ''unknown placement schema; downgrade is forbidden''))
          | _ \<Rightarrow> Inl (ValueError ''placement wire lacks schema''))
     | Some _ \<Rightarrow> Inl (ValueError ''placement wire lacks schema''))"

definition strict_v2_decode :: "string \<Rightarrow> string \<Rightarrow> string set \<Rightarrow> py_error + (string, json) dict" where
  "strict_v2_decode wire schema expected_keys =
     (if 4 * 1024 * 1024 < length wire then Inl (ValueError ''exceeds the bounded wire size'')
      else sum_then (decode_contract wire schema) (\<lambda>payload.
        if set (dict_keys payload) \<noteq> insert ''schema'' expected_keys
        then Inl (ValueError ''contains unknown or missing fields'')
        else if wire \<noteq> canonical_json (JObj payload)
        then Inl (ValueError ''is not canonically encoded'')
        else if \<not> (case dict_get payload ''schema_version'' of None \<Rightarrow> False | Some v \<Rightarrow> py_eq_int v 2)
             \<or> dict_get payload ''canonical_encoding_version'' \<noteq> Some (JStr ''canonical-json-v1'')
             \<or> dict_get payload ''capability_version'' \<noteq> Some (JStr ''SELECTION_DATAFLOW_V2'')
             \<or> dict_get payload ''acceptance_predicate_version'' \<noteq> Some (JStr ''DI_ACCEPTANCE_V2'')
        then Inl (ValueError ''version mismatch; downgrade is forbidden'')
        else Inr (dict_pop ''schema'' payload)))"

text \<open>\<open>payload.get(name, default)\<close> with the conversions the decoders apply to it.\<close>

definition field_or :: "(string, json) dict \<Rightarrow> string \<Rightarrow> json \<Rightarrow> json" where
  "field_or d k v = (case dict_get d k of None \<Rightarrow> v | Some w \<Rightarrow> w)"

definition str_field :: "(json \<Rightarrow> string) \<Rightarrow> (string, json) dict \<Rightarrow> string \<Rightarrow> string" where
  "str_field rep d k = py_str rep (field_or d k (JStr []))"

definition int_field :: "(string, json) dict \<Rightarrow> string \<Rightarrow> int \<Rightarrow> py_error + int" where
  "int_field d k i = py_int (field_or d k (JInt i))"

definition str_list_field :: "(json \<Rightarrow> string) \<Rightarrow> (string, json) dict \<Rightarrow> string \<Rightarrow> py_error + string list" where
  "str_list_field rep d k =
     sum_then (py_iter (field_or d k (JList []))) (\<lambda>xs. Inr (map (py_str rep) xs))"

text \<open>The items of an array of objects, each read with \<open>item.get\<close>; other items have no such method.\<close>

definition object_items :: "((string, json) dict \<Rightarrow> py_error + 'a) \<Rightarrow> (string, json) dict \<Rightarrow> string
    \<Rightarrow> py_error + 'a list" where
  "object_items f d k = sum_then (py_iter (field_or d k (JList []))) (sum_map (\<lambda>v. case v of
       JObj item \<Rightarrow> f item
     | _ \<Rightarrow> Inl (AttributeError ''object has no attribute get'')))"

section \<open>Fuel\<close>

lemma length_skip_ws: "length (skip_ws s) \<le> length s"
  unfolding skip_ws_def by (rule length_dropWhile_le)

lemma skip_ws_Cons: "skip_ws s = c # r \<Longrightarrow> length r < length s"
  using length_skip_ws [of s] by simp

lemma parse_string_shorter: "parse_string s = Some (t, r) \<Longrightarrow> length r < length s"
  by (induction s arbitrary: t r rule: parse_string.induct)
     (auto split: if_splits list.splits option.splits, fastforce+)

lemma parse_nat_shorter: "parse_nat s = Some (k, r) \<Longrightarrow> length r < length s"
  by (auto simp: parse_nat_def Let_def split: list.splits if_splits)

lemma starts_with_length: "starts_with s p \<Longrightarrow> length p \<le> length s"
  by (induction s p rule: starts_with.induct) auto

lemma parse_atom_shorter: "parse_atom s = Some (v, r) \<Longrightarrow> length r < length s"
proof -
  assume *: "parse_atom s = Some (v, r)"
  have "s \<noteq> []"
  proof
    assume "s = []"
    with * show False by (simp add: parse_atom_def parse_number_def parse_nat_def)
  qed
  then obtain c q where s: "s = c # q" by (cases s) auto
  have "length r < length s" if "parse_number s = Some (v, r)"
    using that s by (auto simp: parse_number_def dest!: parse_nat_shorter split: if_splits)
  with * s show ?thesis by (auto simp: parse_atom_def split: if_splits)
qed

lemma tl_skip_ws: "starts_with (skip_ws s) [c] \<Longrightarrow> length (tl (skip_ws s)) < length s"
  using length_skip_ws [of s] starts_with_length [of "skip_ws s" "[c]"] by simp

lemma parse_shorter:
  "parse_value n s = Some (v, r) \<Longrightarrow> length r < length s"
  "parse_items n s = Some (vs, r) \<Longrightarrow> length r < length s"
  "parse_pairs n s = Some (ps, r) \<Longrightarrow> length r < length s"
proof (induction n s and n s and n s arbitrary: v r and vs r and ps r
    rule: parse_value_parse_items_parse_pairs.induct)
  case (2 n s)
  show ?case
  proof (cases s)
    case Nil
    with 2 show ?thesis by simp
  next
    case (Cons c q)
    note len = length_skip_ws [of q]
    consider (str) t where "parse_string q = Some (t, r)"
      | (tail) "r = tl (skip_ws q)"
      | (items) vs where "parse_items n (skip_ws q) = Some (vs, r)" "c = CHR ''[''"
          "\<not> starts_with (skip_ws q) '']''"
      | (pairs) ps where "parse_pairs n (skip_ws q) = Some (ps, r)" "c = CHR 0x7B"
          "\<not> starts_with (skip_ws q) [CHR 0x7D]"
      | (atom) "parse_atom s = Some (v, r)"
      using 2(3) Cons by (auto split: if_splits)
    then show ?thesis
    proof cases
      case str
      with Cons show ?thesis by (auto dest: parse_string_shorter)
    next
      case tail
      with Cons len show ?thesis by simp
    next
      case items
      with 2(1) [of c q vs r] Cons len show ?thesis by simp
    next
      case pairs
      with 2(2) [of c q ps r] Cons len show ?thesis by simp
    next
      case atom
      then show ?thesis by (rule parse_atom_shorter)
    qed
  qed
next
  case (4 n s)
  from 4(3) obtain w q where w: "parse_value n s = Some (w, q)"
    by (auto split: option.splits)
  then have q: "length q < length s" by (rule 4(1))
  from 4(3) w obtain c q' where q': "skip_ws q = c # q'" by (auto split: list.splits)
  then have len: "length q' < length q" by (rule skip_ws_Cons)
  consider "r = q'" | vs' where "c = CHR '',''" "parse_items n (skip_ws q') = Some (vs', r)"
    using 4(3) w q' by (auto split: if_splits)
  then show ?case
  proof cases
    case 1
    with q len show ?thesis by simp
  next
    case 2
    then have "length r < length (skip_ws q')" using 4(2) [OF w refl q'] by auto
    with q len length_skip_ws [of q'] show ?thesis by simp
  qed
next
  case (6 n s)
  from 6(3) obtain r0 k r1 where s: "s = CHR 0x22 # r0" and k: "parse_string r0 = Some (k, r1)"
    and colon: "starts_with (skip_ws r1) '':''"
    by (auto split: list.splits if_splits option.splits)
  let ?b = "skip_ws (tl (skip_ws r1))"
  from 6(3) s k colon obtain w q where w: "parse_value n ?b = Some (w, q)"
    by (auto split: option.splits)
  have "length q < length ?b"
    using 6(1) [OF s _ k refl] colon w by simp
  moreover have "length ?b < length s"
    using length_skip_ws [of "tl (skip_ws r1)"] tl_skip_ws [OF colon] parse_string_shorter [OF k] s
    by simp
  ultimately have q: "length q < length s" by simp
  from 6(3) s k colon w obtain d q' where q': "skip_ws q = d # q'" by (auto split: list.splits)
  then have len: "length q' < length q" by (rule skip_ws_Cons)
  consider "r = q'" | ps' where "d = CHR '',''" "parse_pairs n (skip_ws q') = Some (ps', r)"
    using 6(3) s k colon w q' by (auto split: if_splits)
  then show ?case
  proof cases
    case 1
    with q len show ?thesis by simp
  next
    case 2
    then have "length r < length (skip_ws q')" using 6(2) [OF s _ k refl _ w refl q'] colon by auto
    with q len length_skip_ws [of q'] show ?thesis by simp
  qed
qed simp_all

lemma parse_fuel:
  "2 * length s < n \<Longrightarrow> 2 * length s < m \<Longrightarrow> parse_value n s = parse_value m s"
  "Suc (2 * length s) < n \<Longrightarrow> Suc (2 * length s) < m \<Longrightarrow> parse_items n s = parse_items m s"
  "Suc (2 * length s) < n \<Longrightarrow> Suc (2 * length s) < m \<Longrightarrow> parse_pairs n s = parse_pairs m s"
proof (induction n arbitrary: s m)
  case 0
  { case 1 then show ?case by simp next case 2 then show ?case by simp next case 3 then show ?case by simp }
next
  case (Suc n)
  {
    case 1
    then obtain m' where m: "m = Suc m'" by (cases m) auto
    have "parse_items n (skip_ws r) = parse_items m' (skip_ws r)"
      "parse_pairs n (skip_ws r) = parse_pairs m' (skip_ws r)" if "s = c # r" for c r
      using 1 m that length_skip_ws [of r] by (auto intro!: Suc.IH)
    then show ?case unfolding m by (auto split: list.splits)
  next
    case 2
    then obtain m' where m: "m = Suc m'" by (cases m) auto
    have "parse_value n s = parse_value m' s" using 2 m by (intro Suc.IH) auto
    moreover have "parse_items n (skip_ws q) = parse_items m' (skip_ws q)"
      if "parse_value m' s = Some (v, r)" "skip_ws r = c # q" for v r c q
    proof -
      have "length (skip_ws q) < length s"
        using parse_shorter(1) [OF that(1)] skip_ws_Cons [OF that(2)] length_skip_ws [of q] by simp
      with 2 m show ?thesis by (intro Suc.IH) auto
    qed
    ultimately show ?case unfolding m by (auto split: list.splits option.splits)
  next
    case 3
    then obtain m' where m: "m = Suc m'" by (cases m) auto
    have *: "length (skip_ws (tl (skip_ws r1))) < length r0"
      if "parse_string r0 = Some (k, r1)" "starts_with (skip_ws r1) '':''" for r0 k r1
      using length_skip_ws [of "tl (skip_ws r1)"] tl_skip_ws [OF that(2)] parse_string_shorter [OF that(1)]
      by simp
    have 1: "parse_value n (skip_ws (tl (skip_ws r1))) = parse_value m' (skip_ws (tl (skip_ws r1)))"
      if "s = c # r0" "parse_string r0 = Some (k, r1)" "starts_with (skip_ws r1) '':''" for c r0 k r1
      using * [OF that(2,3)] 3 m that(1) by (intro Suc.IH) auto
    have 2: "parse_pairs n (skip_ws q) = parse_pairs m' (skip_ws q)"
      if "s = c # r0" "parse_string r0 = Some (k, r1)" "starts_with (skip_ws r1) '':''"
        "parse_value m' (skip_ws (tl (skip_ws r1))) = Some (v, r)" "skip_ws r = d # q"
      for c r0 k r1 v r d q
    proof -
      have "length (skip_ws q) < length s"
        using * [OF that(2,3)] parse_shorter(1) [OF that(4)] skip_ws_Cons [OF that(5)]
          length_skip_ws [of q] that(1) by simp
      with 3 m show ?thesis by (intro Suc.IH) auto
    qed
    show ?case unfolding m using 1 2
      by (auto split: list.splits option.splits)
  }
qed


section \<open>Round trip\<close>

text \<open>
  Objects with distinct keys, and the canonical order of their keys: what a value is after
  \<open>json.loads(json.dumps(v, sort_keys=True))\<close>.
\<close>

primrec json_distinct :: "json \<Rightarrow> bool" where
  "json_distinct JNull = True"
| "json_distinct (JBool b) = True"
| "json_distinct (JInt i) = True"
| "json_distinct (JStr s) = True"
| "json_distinct (JList xs) = list_all id (map json_distinct xs)"
| "json_distinct (JObj kvs) = (distinct (map fst kvs) \<and> list_all snd (map (map_prod id json_distinct) kvs))"

primrec json_norm :: "json \<Rightarrow> json" where
  "json_norm JNull = JNull"
| "json_norm (JBool b) = JBool b"
| "json_norm (JInt i) = JInt i"
| "json_norm (JStr s) = JStr s"
| "json_norm (JList xs) = JList (map json_norm xs)"
| "json_norm (JObj kvs) = JObj (sort_key fst (map (map_prod id json_norm) kvs))"

lemma hex_value_digit: "n < 16 \<Longrightarrow> hex_value (hex_digit n) = Some n"
  by (auto simp: hex_value_def hex_digit_def Let_def)

lemma control_chars:
  "char_of (34 :: nat) = CHR 0x22" "char_of (92 :: nat) = CHR 0x5C"
  "char_of (10 :: nat) = CHR 0x0A" "char_of (13 :: nat) = CHR 0x0D" "char_of (9 :: nat) = CHR 0x09"
  "char_of (8 :: nat) = CHR 0x08" "char_of (12 :: nat) = CHR 0x0C"
  by code_simp+

lemma unicode_escape_hex:
  "unicode_escape (CHR ''0'') (CHR ''0'') (hex_digit (of_char c div 16)) (hex_digit (of_char c mod 16)) = Some c"
proof -
  have "hex_value (CHR ''0'') = Some 0" by code_simp
  moreover have "of_char c div 16 < (16 :: nat)"
    using nat_of_char_less_256 [of c] by (simp add: less_mult_imp_div_less)
  moreover have "16 * (of_char c div 16) + of_char c mod 16 = (of_char c :: nat)" by simp
  ultimately show ?thesis by (simp add: unicode_escape_def hex_value_digit)
qed

lemma parse_escape: "parse_string (json_escape c @ r) = map_option (map_prod (Cons c) id) (parse_string r)"
proof -
  have c: "c = char_of (of_char c :: nat)" by simp
  consider (special) "(of_char c :: nat) \<in> {34, 92, 10, 13, 9, 8, 12}"
    | (plain) "(of_char c :: nat) \<notin> {34, 92, 10, 13, 9, 8, 12}" "32 \<le> (of_char c :: nat)" "(of_char c :: nat) \<le> 126"
    | (hex) "(of_char c :: nat) \<notin> {34, 92, 10, 13, 9, 8, 12}" "\<not> (32 \<le> (of_char c :: nat) \<and> (of_char c :: nat) \<le> 126)"
    by blast
  then show ?thesis
  proof cases
    case special
    then have "c \<in> {CHR 0x22, CHR 0x5C, CHR 0x0A, CHR 0x0D, CHR 0x09, CHR 0x08, CHR 0x0C}"
      unfolding control_chars [symmetric] using c by (metis insert_iff empty_iff)
    then show ?thesis by (auto simp: json_escape_def control_chars simple_escape_def)
  next
    case plain
    then have "c \<noteq> CHR 0x22" "c \<noteq> CHR 0x5C" by auto
    with plain show ?thesis by (simp add: json_escape_def)
  next
    case hex
    then have "json_escape c = [CHR 0x5C, CHR ''u'', CHR ''0'', CHR ''0'',
        hex_digit (of_char c div 16), hex_digit (of_char c mod 16)]"
      by (auto simp: json_escape_def Let_def control_chars)
    then show ?thesis by (simp add: unicode_escape_hex)
  qed
qed

lemma parse_json_string:
  "parse_string (concat (map json_escape s) @ CHR 0x22 # r) = Some (s, r)"
  by (induction s) (simp_all add: parse_escape)

text \<open>Decimal numbers.\<close>

definition ends_number :: "string \<Rightarrow> bool" where
  "ends_number r \<longleftrightarrow> (case r of [] \<Rightarrow> True | c # _ \<Rightarrow> c \<in> set '',]'' \<or> c = CHR 0x7D)"

lemma digit_char_props:
  assumes "n < 10"
  shows "of_char (digit_char n) = 48 + n" "is_digit (digit_char n)"
    "digit_char n = CHR ''0'' \<longleftrightarrow> n = 0" "digit_char n \<noteq> CHR ''-''"
proof -
  show *: "of_char (digit_char n) = 48 + n" using assms by (simp add: digit_char_def)
  then show "is_digit (digit_char n)" using assms by (simp add: is_digit_def)
  have eq: "digit_char n = x \<longleftrightarrow> of_char (digit_char n) = (of_char x :: nat)" for x by simp
  show "digit_char n = CHR ''0'' \<longleftrightarrow> n = 0" "digit_char n \<noteq> CHR ''-''" unfolding eq * by simp_all
qed

declare str_nat.simps [simp del]

lemma str_nat_digits: "list_all is_digit (str_nat n) \<and> digits_value (str_nat n) = n"
proof (induction n rule: str_nat.induct)
  case (1 n)
  show ?case
  proof (cases "n < 10")
    case True
    then show ?thesis by (simp add: str_nat.simps [of n] digits_value_def digit_char_props)
  next
    case False
    with 1 have "list_all is_digit (str_nat (n div 10))" "digits_value (str_nat (n div 10)) = n div 10" by auto
    with False show ?thesis
      by (simp add: str_nat.simps [of n] digits_value_def digit_char_props)
  qed
qed

lemma str_nat_head: "\<exists>c cs. str_nat n = c # cs \<and> is_digit c \<and> (c = CHR ''0'' \<longrightarrow> cs = [])"
proof (induction n rule: str_nat.induct)
  case (1 n)
  show ?case
  proof (cases "n < 10")
    case True
    then show ?thesis by (simp add: str_nat.simps [of n] digit_char_props)
  next
    case False
    with 1 obtain c cs where c: "str_nat (n div 10) = c # cs" "is_digit c" "c = CHR ''0'' \<longrightarrow> cs = []" by blast
    have "c \<noteq> CHR ''0''"
    proof
      assume "c = CHR ''0''"
      with c have "digits_value (str_nat (n div 10)) = 0" by (simp add: digits_value_def)
      with str_nat_digits False show False by simp
    qed
    with c False show ?thesis by (simp add: str_nat.simps [of n])
  qed
qed

lemma ends_number_no_digit: "ends_number r \<Longrightarrow> takeWhile is_digit r = [] \<and> \<not> starts_float r"
  by (auto simp: ends_number_def is_digit_def starts_float_def split: list.splits)

lemma parse_nat_str:
  assumes "ends_number r"
  shows "parse_nat (str_nat n @ r) = Some (n, r)"
proof -
  obtain c cs where c: "str_nat n = c # cs" "is_digit c" "c = CHR ''0'' \<longrightarrow> cs = []" using str_nat_head by blast
  have "takeWhile is_digit (str_nat n @ r) = str_nat n"
    using str_nat_digits [of n] ends_number_no_digit [OF assms]
    by (subst takeWhile_append2) (auto simp: list_all_iff)
  moreover have "(if c = CHR ''0'' then [c] else takeWhile is_digit (str_nat n @ r)) = str_nat n"
    using c calculation by auto
  ultimately show ?thesis
    using str_nat_digits [of n] ends_number_no_digit [OF assms] c
    by (auto simp: parse_nat_def Let_def)
qed

lemma parse_number_str:
  assumes "ends_number r"
  shows "parse_number (str_int i @ r) = Some (JInt i, r)"
proof (cases "i < 0")
  case True
  with parse_nat_str [OF assms] show ?thesis by (simp add: str_int_def parse_number_def)
next
  case False
  obtain c cs where c: "str_nat (nat i) = c # cs" "is_digit c" using str_nat_head by blast
  then have "c \<noteq> CHR ''-''" by (auto simp: is_digit_def)
  with c False parse_nat_str [OF assms, of "nat i"] show ?thesis
    by (simp add: str_int_def parse_number_def)
qed

text \<open>A parser that, with enough fuel, reads a value and leaves the rest.\<close>

definition reads :: "(nat \<Rightarrow> string \<Rightarrow> ('a \<times> string) option) \<Rightarrow> string \<Rightarrow> 'a \<Rightarrow> string \<Rightarrow> bool" where
  "reads p s v r \<longleftrightarrow> (\<exists>m. \<forall>n\<ge>m. p n s = Some (v, r))"

lemma readsI: "(\<And>n. p (Suc n) s = Some (v, r)) \<Longrightarrow> reads p s v r"
  unfolding reads_def by (rule exI [of _ 1]) (metis Suc_le_D One_nat_def)

lemma reads_step:
  assumes "reads p s v r" and "\<And>n. p n s = Some (v, r) \<Longrightarrow> q (Suc n) t = Some (w, u)"
  shows "reads q t w u"
proof -
  obtain m where m: "p n s = Some (v, r)" if "m \<le> n" for n using assms(1) unfolding reads_def by blast
  have "q n t = Some (w, u)" if "Suc m \<le> n" for n
    using that assms(2) [OF m] by (cases n) auto
  then show ?thesis unfolding reads_def by blast
qed

lemma reads_step2:
  assumes "reads p s v r" and "reads p' s' v' r'"
    and "\<And>n. p n s = Some (v, r) \<Longrightarrow> p' n s' = Some (v', r') \<Longrightarrow> q (Suc n) t = Some (w, u)"
  shows "reads q t w u"
proof -
  obtain m where m: "p n s = Some (v, r)" if "m \<le> n" for n using assms(1) unfolding reads_def by blast
  obtain m' where m': "p' n s' = Some (v', r')" if "m' \<le> n" for n
    using assms(2) unfolding reads_def by blast
  have "q n t = Some (w, u)" if "Suc (max m m') \<le> n" for n
    using that assms(3) [OF m m'] by (cases n) auto
  then show ?thesis unfolding reads_def by blast
qed

lemma str_int_head: "\<exists>c cs. str_int i = c # cs \<and> (is_digit c \<or> c = CHR ''-'')"
  using str_nat_head [of "nat i"] by (auto simp: str_int_def)

lemma json_dumps_head:
  "\<exists>c cs. json_dumps v = c # cs \<and> \<not> is_ws c \<and> c \<noteq> CHR '']'' \<and> c \<noteq> CHR 0x7D"
proof (cases v)
  case (JInt i)
  then show ?thesis using str_int_head [of i] by (auto simp: is_ws_def is_digit_def)
qed (auto simp: is_ws_def json_string_def control_chars)

lemma skip_ws_dumps [simp]: "skip_ws (json_dumps v @ r) = json_dumps v @ r"
  using json_dumps_head [of v] by (auto simp: skip_ws_def)

lemma reads_atoms:
  assumes "ends_number r"
  shows "reads parse_value (json_dumps JNull @ r) JNull r"
    "reads parse_value (json_dumps (JBool b) @ r) (JBool b) r"
    "reads parse_value (json_dumps (JInt i) @ r) (JInt i) r"
    "reads parse_value (json_dumps (JStr s) @ r) (JStr s) r"
proof -
  show "reads parse_value (json_dumps JNull @ r) JNull r"
    by (rule readsI) (simp add: parse_atom_def)
  show "reads parse_value (json_dumps (JBool b) @ r) (JBool b) r"
    by (rule readsI) (simp add: parse_atom_def)
  show "reads parse_value (json_dumps (JStr s) @ r) (JStr s) r"
    by (rule readsI) (simp add: json_string_def control_chars parse_json_string)
  obtain c cs where c: "str_int i = c # cs" "is_digit c \<or> c = CHR ''-''" using str_int_head by blast
  then have "c \<notin> {CHR 0x22, CHR ''['', CHR 0x7B, CHR ''n'', CHR ''t'', CHR ''f''}"
    by (auto simp: is_digit_def)
  with c parse_number_str [OF assms, of i] show "reads parse_value (json_dumps (JInt i) @ r) (JInt i) r"
    by (intro readsI) (auto simp: parse_atom_def)
qed

lemma ends_number_simps [simp]:
  "ends_number []" "ends_number (CHR '','' # r)" "ends_number (CHR '']'' # r)" "ends_number (CHR 0x7D # r)"
  by (simp_all add: ends_number_def)

lemma skip_ws_simps [simp]:
  "skip_ws [] = []" "skip_ws (CHR '','' # r) = CHR '','' # r" "skip_ws (CHR '']'' # r) = CHR '']'' # r"
  "skip_ws (CHR 0x7D # r) = CHR 0x7D # r" "skip_ws (CHR '':'' # r) = CHR '':'' # r"
  "skip_ws (CHR 0x22 # r) = CHR 0x22 # r"
  by (simp_all add: skip_ws_def is_ws_def)

lemma reads_items:
  assumes "xs \<noteq> []"
    and "\<And>x r. x \<in> set xs \<Longrightarrow> ends_number r \<Longrightarrow> reads parse_value (json_dumps x @ r) (g x) r"
  shows "reads parse_items (py_join '','' (map json_dumps xs) @ CHR '']'' # r) (map g xs) r"
  using assms
proof (induction xs rule: list_nonempty_induct)
  case (single x)
  then have "reads parse_value (json_dumps x @ CHR '']'' # r) (g x) (CHR '']'' # r)" by simp
  then show ?case by (rule reads_step) simp
next
  case (cons x xs)
  obtain y ys where xs: "xs = y # ys" using cons.hyps by (cases xs) auto
  let ?rest = "py_join '','' (map json_dumps xs) @ CHR '']'' # r"
  have ws: "skip_ws ?rest = ?rest" using xs by (cases ys) simp_all
  have "reads parse_value (json_dumps x @ CHR '','' # ?rest) (g x) (CHR '','' # ?rest)"
    using cons.prems by simp
  moreover have "reads parse_items ?rest (map g xs) r" using cons by simp
  ultimately have "reads parse_items (json_dumps x @ CHR '','' # ?rest) (map g (x # xs)) r"
    by (rule reads_step2) (simp add: ws)
  then show ?case by (simp add: xs)
qed

definition json_member :: "string \<times> json \<Rightarrow> string" where
  "json_member kv = json_string (fst kv) @ '':'' @ json_dumps (snd kv)"

lemma parse_member_key:
  "skip_ws (json_member kv @ r) = json_member kv @ r"
  "\<exists>q. json_member kv = CHR 0x22 # q
     \<and> parse_string (q @ r) = Some (fst kv, CHR '':'' # json_dumps (snd kv) @ r)"
  by (simp_all add: json_member_def json_string_def control_chars parse_json_string)

lemma reads_pairs:
  assumes "kvs \<noteq> []"
    and "\<And>x r. x \<in> snd ` set kvs \<Longrightarrow> ends_number r \<Longrightarrow> reads parse_value (json_dumps x @ r) (g x) r"
  shows "reads parse_pairs (py_join '','' (map json_member kvs) @ CHR 0x7D # r) (map (map_prod id g) kvs) r"
  using assms
proof (induction kvs rule: list_nonempty_induct)
  case (single kv)
  let ?r = "CHR 0x7D # r"
  obtain q where q: "json_member kv = CHR 0x22 # q"
    "parse_string (q @ ?r) = Some (fst kv, CHR '':'' # json_dumps (snd kv) @ ?r)"
    using parse_member_key(2) by blast
  have "reads parse_value (json_dumps (snd kv) @ ?r) (g (snd kv)) ?r" using single by simp
  then show ?case by (rule reads_step) (simp add: q map_prod_def split: prod.splits)
next
  case (cons kv kvs)
  obtain y ys where kvs: "kvs = y # ys" using cons.hyps by (cases kvs) auto
  let ?rest = "py_join '','' (map json_member kvs) @ CHR 0x7D # r"
  let ?r = "CHR '','' # ?rest"
  have ws: "skip_ws ?rest = ?rest" using kvs by (cases ys) (simp_all add: parse_member_key)
  obtain q where q: "json_member kv = CHR 0x22 # q"
    "parse_string (q @ ?r) = Some (fst kv, CHR '':'' # json_dumps (snd kv) @ ?r)"
    using parse_member_key(2) by blast
  have "reads parse_value (json_dumps (snd kv) @ ?r) (g (snd kv)) ?r" using cons.prems by simp
  moreover have "reads parse_pairs ?rest (map (map_prod id g) kvs) r" using cons by (simp add: id_def)
  ultimately have "reads parse_pairs (json_member kv @ ?r) (map (map_prod id g) (kv # kvs)) r"
    by (rule reads_step2) (simp add: q ws map_prod_def split: prod.splits)
  then show ?case by (simp add: kvs id_def)
qed

lemma insort_key_map_prod:
  "insort_key fst (map_prod id f x) (map (map_prod id f) xs) = map (map_prod id f) (insort_key fst x xs)"
  by (induction xs) auto

lemma sort_key_map_prod: "sort_key fst (map (map_prod id f) xs) = map (map_prod id f) (sort_key fst xs)"
  by (induction xs) (simp_all add: insort_key_map_prod [unfolded id_def] id_def)

lemma json_dumps_obj:
  "json_dumps (JObj kvs) = [CHR 0x7B] @ py_join '','' (map json_member (sort_key fst kvs)) @ [CHR 0x7D]"
  by (simp add: sort_key_map_prod comp_def case_prod_beta json_member_def [abs_def])

lemma parse_dumps:
  "json_distinct v \<Longrightarrow> ends_number r \<Longrightarrow> reads parse_value (json_dumps v @ r) (json_norm v) r"
proof (induction v arbitrary: r)
  case (JList xs)
  show ?case
  proof (cases "xs = []")
    case True
    show ?thesis by (rule readsI) (simp add: True)
  next
    case False
    have "reads parse_items (py_join '','' (map json_dumps xs) @ CHR '']'' # r) (map json_norm xs) r"
      using JList False by (intro reads_items) (auto simp: list_all_iff)
    moreover obtain y ys where "xs = y # ys" using False by (cases xs) auto
    moreover obtain c cs where "json_dumps y = c # cs" "\<not> is_ws c" "c \<noteq> CHR '']''"
      using json_dumps_head by blast
    ultimately show ?thesis
      by (elim reads_step) (cases ys; simp add: skip_ws_def)
  qed
next
  case (JObj kvs)
  let ?kvs = "sort_key fst kvs"
  have dist: "distinct (map fst ?kvs)" using JObj.prems(1)
    by (metis distinct_map distinct_sort json_distinct.simps(6) set_sort)
  show ?case
  proof (cases "kvs = []")
    case True
    show ?thesis by (rule readsI) (simp add: True dict_of_list_def)
  next
    case False
    then have ne: "?kvs \<noteq> []" by (metis length_0_conv length_sort)
    have "reads parse_pairs (py_join '','' (map json_member ?kvs) @ CHR 0x7D # r)
        (map (map_prod id json_norm) ?kvs) r"
      using JObj ne by (intro reads_pairs) (fastforce simp: list_all_iff snds.simps)+
    moreover obtain y ys where "?kvs = y # ys" using ne by (cases ?kvs) auto
    moreover obtain q where "json_member y = CHR 0x22 # q" using parse_member_key(2) [of y] by blast
    moreover have "dict_of_list (map (map_prod id json_norm) ?kvs) = map (map_prod id json_norm) ?kvs"
      using dist by (intro dict_of_list_distinct) (simp add: comp_def)
    ultimately show ?thesis
      unfolding json_dumps_obj json_norm.simps sort_key_map_prod
      by (elim reads_step) (cases ys; simp)
  qed
qed (use reads_atoms in auto)

lemma json_loads_dumps:
  assumes "json_distinct v"
  shows "json_loads (json_dumps v) = Some (json_norm v)"
proof -
  obtain m where "parse_value n (json_dumps v) = Some (json_norm v, [])" if "m \<le> n" for n
    using parse_dumps [OF assms, of "[]"] unfolding reads_def by auto
  then have "parse_value (max m (Suc (2 * length (json_dumps v)))) (json_dumps v) = Some (json_norm v, [])"
    by simp
  then have "parse_value (Suc (2 * length (json_dumps v))) (json_dumps v) = Some (json_norm v, [])"
    by (subst parse_fuel(1)) auto
  moreover have "skip_ws (json_dumps v) = json_dumps v" using skip_ws_dumps [of v "[]"] by simp
  ultimately show ?thesis by (simp add: json_loads_def)
qed

lemma ascii_escape: "list_all (\<lambda>c. (of_char c :: nat) < 128) (json_escape c)"
proof -
  have "of_char (hex_digit n) < (128 :: nat)" if "n < 16" for n
    using that by (simp add: hex_digit_def)
  moreover have "of_char c div 16 < (16 :: nat)"
    using nat_of_char_less_256 [of c] by (simp add: less_mult_imp_div_less)
  ultimately show ?thesis by (auto simp: json_escape_def Let_def control_chars)
qed

lemma ascii_string: "list_all (\<lambda>c. (of_char c :: nat) < 128) (json_string s)"
  using ascii_escape by (auto simp: json_string_def control_chars list_all_iff)

lemma ascii_join:
  "list_all P sep \<Longrightarrow> list_all (list_all P) xs \<Longrightarrow> list_all P (py_join sep xs)"
  by (induction sep xs rule: py_join.induct) auto

lemma ascii_nat: "list_all (\<lambda>c. (of_char c :: nat) < 128) (str_nat n)"
  using str_nat_digits [of n] by (auto simp: list_all_iff is_digit_def)

lemma ascii_dumps: "list_all (\<lambda>c. (of_char c :: nat) < 128) (json_dumps v)"
proof (induction v)
  case (JInt i)
  then show ?case by (simp add: str_int_def ascii_nat)
next
  case (JStr s)
  then show ?case by (simp add: ascii_string)
next
  case (JList xs)
  then have "list_all (list_all (\<lambda>c. (of_char c :: nat) < 128)) (map json_dumps xs)"
    by (simp add: list_all_iff)
  then show ?case by (auto intro: ascii_join)
next
  case (JObj kvs)
  then have "list_all (list_all (\<lambda>c. (of_char c :: nat) < 128)) (map json_member (sort_key fst kvs))"
    using ascii_string by (force simp: json_member_def list_all_iff snds.simps)
  then show ?case unfolding json_dumps_obj by (auto intro: ascii_join)
qed simp_all

lemma utf8_ascii: "list_all (\<lambda>c. (of_char c :: nat) < 128) s \<Longrightarrow> utf8_decode s = Some s"
  by (induction s) simp_all

lemma wire_loads_dumps: "json_distinct v \<Longrightarrow> wire_loads (json_dumps v) = Some (json_norm v)"
  by (simp add: wire_loads_def utf8_ascii [OF ascii_dumps] json_loads_dumps)

lemma json_dumps_norm: "json_dumps (json_norm v) = json_dumps v"
proof (induction v)
  case (JList xs)
  then have "map (\<lambda>x. json_dumps (json_norm x)) xs = map json_dumps xs" by simp
  then show ?case by (simp add: comp_def del: map_eq_conv)
next
  case (JObj kvs)
  then have "map json_member (map (map_prod id json_norm) (sort_key fst kvs)) = map json_member (sort_key fst kvs)"
    by (force simp: json_member_def snds.simps)
  moreover have "sort_key fst (sort_key fst kvs) = sort_key fst kvs"
    by (rule sort_key_id_if_sorted) (rule sorted_sort_key)
  ultimately show ?case
    unfolding json_dumps_obj json_norm.simps sort_key_map_prod by (simp only:)
qed simp_all

lemma json_dumps_inj:
  "json_distinct v \<Longrightarrow> json_distinct w \<Longrightarrow> json_dumps v = json_dumps w \<Longrightarrow> json_norm v = json_norm w"
  by (metis json_loads_dumps option.inject)

section \<open>Normalised dictionaries\<close>

lemma dict_get_sort: "distinct (map fst kvs) \<Longrightarrow> dict_get (sort_key fst kvs) k = dict_get kvs k"
proof -
  assume d: "distinct (map fst kvs)"
  then have "distinct (map fst (sort_key fst kvs))" by (simp add: distinct_map)
  with d have "map_of (sort_key fst kvs) = map_of kvs" by (subst map_of_inject_set) simp_all
  then show ?thesis by simp
qed

lemma dict_get_norm:
  assumes "distinct (map fst d)"
  shows "dict_get (sort_key fst (map (map_prod id json_norm) d)) k = map_option json_norm (dict_get d k)"
proof -
  have "map (map_prod id json_norm) d = dict_map json_norm d" by (simp add: dict_map_def map_prod_def)
  moreover have "distinct (map fst (dict_map json_norm d))" using assms by simp
  ultimately show ?thesis by (simp only: dict_get_sort dict_get_map)
qed

lemma field_or_norm:
  "dict_get d k = map_option json_norm (dict_get e k) \<Longrightarrow> json_norm v = v
    \<Longrightarrow> field_or d k v = json_norm (field_or e k v)"
  by (simp add: field_or_def split: option.splits)

section \<open>Torn texts and equal objects\<close>

text \<open>
  A parser that succeeds does not look past its value, except that a number goes on with digits, a
  fraction or an exponent: what follows may change without changing the value. So no proper prefix
  of the text of an object is JSON.
\<close>

definition ends_value :: "json \<Rightarrow> string \<Rightarrow> bool" where
  "ends_value v r \<longleftrightarrow> (case v of JInt _ \<Rightarrow> r \<noteq> [] \<and> hd r \<notin> {CHR ''.'', CHR ''e'', CHR ''E''} | _ \<Rightarrow> True)"

lemma starts_with_append: "starts_with s p \<Longrightarrow> starts_with (s @ q) p"
  by (induction s p rule: starts_with.induct) auto

lemma starts_with_iff: "starts_with s p \<longleftrightarrow> (\<exists>r. s = p @ r)"
  by (induction s p rule: starts_with.induct) auto

lemma skip_ws_append: "skip_ws s \<noteq> [] \<Longrightarrow> skip_ws (s @ q) = skip_ws s @ q"
  unfolding skip_ws_def by (induction s) auto

lemma skip_ws_append_Cons: "skip_ws s = c # r \<Longrightarrow> skip_ws (s @ q) = c # r @ q"
  by (simp add: skip_ws_append)

lemma parse_string_append: "parse_string s = Some (t, r) \<Longrightarrow> parse_string (s @ q) = Some (t, r @ q)"
proof (induction s arbitrary: t r rule: length_induct)
  case (1 s)
  then obtain c cs where s: "s = c # cs" by (cases s) auto
  have IH: "parse_string (u @ q) = Some (t', r @ q)" if "parse_string u = Some (t', r)" "length u < length s" for u t'
    using 1(1) that by blast
  consider (quote) "c = CHR 0x22" | (plain) "c \<noteq> CHR 0x22" "c \<noteq> CHR 0x5C"
    | (simple) e es where "c = CHR 0x5C" "cs = e # es" "e \<noteq> CHR ''u''"
    | (unicode) es where "c = CHR 0x5C" "cs = CHR ''u'' # es"
    using 1(2) s by (cases "c = CHR 0x22"; cases "c = CHR 0x5C"; cases cs) auto
  then show ?case
  proof cases
    case plain
    with 1(2) s show ?thesis by (auto simp del: parse_string.simps simp: parse_string.simps(2) IH split: if_splits)
  next
    case simple
    with 1(2) s show ?thesis by (auto simp: IH split: option.splits)
  next
    case unicode
    from 1(2) [unfolded s unicode] obtain h1 h2 h3 h4 u where "es = h1 # h2 # h3 # h4 # u"
      by (auto split: list.splits)
    with 1(2) s unicode show ?thesis by (auto simp: IH split: option.splits)
  qed (use 1(2) s in auto)
qed

lemma takeWhile_append_stop: "dropWhile P s \<noteq> [] \<Longrightarrow> takeWhile P (s @ q) = takeWhile P s"
  by (induction s) auto

lemma starts_float_append:
  "r \<noteq> [] \<Longrightarrow> hd r \<notin> {CHR ''.'', CHR ''e'', CHR ''E''} \<Longrightarrow> \<not> starts_float (r @ q)"
  by (cases r) (simp_all add: starts_float_def)

lemma parse_nat_append:
  assumes "parse_nat s = Some (k, r)" and "r \<noteq> []" and "hd r \<notin> {CHR ''.'', CHR ''e'', CHR ''E''}"
  shows "parse_nat (s @ q) = Some (k, r @ q)"
proof -
  from assms(1) obtain c t where s: "s = c # t" and digit: "is_digit c"
    by (auto simp: parse_nat_def split: list.splits if_splits)
  define ds where "ds = (if c = CHR ''0'' then [c] else takeWhile is_digit s)"
  have k: "k = digits_value ds" and r: "r = drop (length ds) s"
    using assms(1) unfolding ds_def by (auto simp: parse_nat_def s Let_def split: if_splits)
  have "(if c = CHR ''0'' then [c] else takeWhile is_digit (s @ q)) = ds"
  proof (cases "c = CHR ''0''")
    case False
    then have "dropWhile is_digit s \<noteq> []" using assms(2) r by (simp add: ds_def dropWhile_eq_drop)
    with False show ?thesis by (simp add: ds_def takeWhile_append_stop)
  qed (simp add: ds_def)
  moreover have "drop (length ds) (s @ q) = r @ q"
    using assms(2) r by simp
  moreover have "\<not> starts_float (r @ q)" using assms(2,3) by (rule starts_float_append)
  moreover have "parse_nat (s @ q) = (let ds = (if c = CHR ''0'' then [c] else takeWhile is_digit (s @ q));
      rest = drop (length ds) (s @ q) in if starts_float rest then None else Some (digits_value ds, rest))"
    using digit by (simp add: parse_nat_def s)
  ultimately show ?thesis by (simp only: Let_def k if_False)
qed

lemma parse_number_append:
  assumes "parse_number s = Some (v, r)" and "ends_value v r"
  shows "parse_number (s @ q) = Some (v, r @ q) \<and> s \<noteq> [] \<and> (is_digit (hd s) \<or> hd s = CHR ''-'')"
proof (cases "starts_with s ''-''")
  case True
  then obtain t where s: "s = CHR ''-'' # t" by (auto simp: starts_with_iff)
  from assms obtain k where k: "parse_nat t = Some (k, r)" and v: "v = JInt (- int k)"
    by (auto simp: parse_number_def s)
  have "parse_nat (t @ q) = Some (k, r @ q)"
    using k assms(2) by (intro parse_nat_append) (auto simp: v ends_value_def)
  with s v show ?thesis by (simp add: parse_number_def)
next
  case False
  from assms False obtain k where k: "parse_nat s = Some (k, r)" and v: "v = JInt (int k)"
    by (auto simp: parse_number_def)
  then obtain c t where s: "s = c # t" and digit: "is_digit c"
    by (auto simp: parse_nat_def split: list.splits if_splits)
  have "parse_nat (s @ q) = Some (k, r @ q)"
    using k assms(2) by (intro parse_nat_append) (auto simp: v ends_value_def)
  moreover have "\<not> starts_with (s @ q) ''-''" using False by (simp add: s)
  ultimately show ?thesis using s v digit by (simp add: parse_number_def)
qed

lemma parse_atom_append:
  assumes "parse_atom s = Some (v, r)" and "ends_value v r"
  shows "parse_atom (s @ q) = Some (v, r @ q)"
proof -
  consider "starts_with s ''null''" | "starts_with s ''true''" | "starts_with s ''false''"
    | "parse_number s = Some (v, r)"
    using assms(1) by (auto simp: parse_atom_def split: if_splits)
  then show ?thesis
  proof cases
    case 4
    from parse_number_append [OF 4 assms(2), of q]
    obtain c t where "parse_number (s @ q) = Some (v, r @ q)" "s = c # t" "is_digit c \<or> c = CHR ''-''"
      by (cases s) auto
    then show ?thesis by (auto simp: parse_atom_def is_digit_def)
  qed (use assms in \<open>auto simp: parse_atom_def starts_with_iff\<close>)
qed

lemma delimited_value: "skip_ws r = c # q \<Longrightarrow> c \<in> {CHR '','', CHR '']'', CHR 0x7D} \<Longrightarrow> ends_value v r"
proof -
  assume a: "skip_ws r = c # q" "c \<in> {CHR '','', CHR '']'', CHR 0x7D}"
  then obtain d t where r: "r = d # t" by (cases r) (auto simp: skip_ws_def)
  with a have "d = c \<or> is_ws d" by (auto simp: skip_ws_def split: if_splits)
  with a r show ?thesis by (auto simp: ends_value_def is_ws_def split: json.splits)
qed

lemma parse_Nil [simp]: "parse_value n [] = None" "parse_items n [] = None" "parse_pairs n [] = None"
  by (cases n; simp; cases "n - 1"; simp)+

lemma parse_append:
  "parse_value n s = Some (v, r) \<Longrightarrow> ends_value v r \<Longrightarrow> parse_value n (s @ q) = Some (v, r @ q)"
  "parse_items n s = Some (vs, r) \<Longrightarrow> parse_items n (s @ q) = Some (vs, r @ q)"
  "parse_pairs n s = Some (kvs, r) \<Longrightarrow> parse_pairs n (s @ q) = Some (kvs, r @ q)"
proof (induction n arbitrary: s v vs kvs r)
  case 0
  { case 1 then show ?case by simp next case 2 then show ?case by simp next case 3 then show ?case by simp }
next
  case (Suc n)
  {
    case 1
    then obtain c t where s: "s = c # t" by (cases s) auto
    consider (str) "c = CHR 0x22" | (lst) "c = CHR ''[''" | (obj) "c = CHR 0x7B"
      | (atom) "c \<notin> {CHR 0x22, CHR ''['', CHR 0x7B}" by blast
    then show ?case
    proof cases
      case str
      with 1 s show ?thesis by (auto dest: parse_string_append)
    next
      case lst
      show ?thesis
      proof (cases "skip_ws t")
        case Nil
        with 1 s lst show ?thesis by (cases n) auto
      next
        case (Cons d u)
        then have ws: "skip_ws (t @ q) = d # u @ q" by (rule skip_ws_append_Cons)
        from 1 s lst Cons ws show ?thesis
          using Suc.IH(2) [of "d # u"] by (auto split: if_splits)
      qed
    next
      case obj
      show ?thesis
      proof (cases "skip_ws t")
        case Nil
        with 1 s obj show ?thesis by (cases n) auto
      next
        case (Cons d u)
        then have ws: "skip_ws (t @ q) = d # u @ q" by (rule skip_ws_append_Cons)
        from 1 s obj Cons ws show ?thesis
          using Suc.IH(3) [of "d # u"] by (auto split: if_splits)
      qed
    next
      case atom
      with 1 s have "parse_atom s = Some (v, r)" by auto
      from parse_atom_append [OF this 1(2), of q] atom s show ?thesis by simp
    qed
  next
    case 2
    then obtain v r' where v: "parse_value n s = Some (v, r')" by (auto split: option.splits)
    from 2 v obtain c t where c: "skip_ws r' = c # t" and delim: "c = CHR '']'' \<or> c = CHR '',''"
      by (auto split: list.splits if_splits)
    have "parse_value n (s @ q) = Some (v, r' @ q)"
      using v c delim by (intro Suc.IH(1) delimited_value [OF c]) auto
    moreover have "skip_ws (r' @ q) = c # t @ q" using c by (rule skip_ws_append_Cons)
    moreover have "skip_ws (t @ q) = skip_ws t @ q" if "parse_items n (skip_ws t) = Some (w, u)" for w u
      using that by (intro skip_ws_append) (cases n; cases n; auto)
    ultimately show ?case using 2 v c delim Suc.IH(2) [of "skip_ws t"]
      by auto
  next
    case 3
    then obtain t0 where s: "s = CHR 0x22 # t0" by (auto split: list.splits if_splits)
    with 3 obtain k r1 where k: "parse_string t0 = Some (k, r1)" by (auto split: option.splits)
    with 3 s obtain r2 where r1: "skip_ws r1 = CHR '':'' # r2"
      by (auto simp: starts_with_iff split: if_splits)
    with 3 s k obtain v r' where v: "parse_value n (skip_ws r2) = Some (v, r')" by (auto split: option.splits)
    then have ne: "skip_ws r2 \<noteq> []" by (cases n) auto
    from 3 s k r1 v obtain c t where c: "skip_ws r' = c # t" and delim: "c = CHR 0x7D \<or> c = CHR '',''"
      by (auto split: list.splits if_splits)
    have "parse_value n (skip_ws r2 @ q) = Some (v, r' @ q)"
      using v c delim by (intro Suc.IH(1) delimited_value [OF c]) auto
    moreover have "parse_string (t0 @ q) = Some (k, r1 @ q)" using k by (rule parse_string_append)
    moreover have "skip_ws (r1 @ q) = CHR '':'' # r2 @ q" using r1 by (rule skip_ws_append_Cons)
    moreover have "skip_ws (r2 @ q) = skip_ws r2 @ q" using ne by (rule skip_ws_append)
    moreover have "skip_ws (r' @ q) = c # t @ q" using c by (rule skip_ws_append_Cons)
    moreover have "skip_ws (t @ q) = skip_ws t @ q" if "parse_pairs n (skip_ws t) = Some (w, u)" for w u
      using that by (intro skip_ws_append) (cases n; auto)
    ultimately show ?case using 3 s k r1 v c delim Suc.IH(3) [of "skip_ws t"]
      by auto
  }
qed

text \<open>What is cut off from the text of an object leaves no JSON text.\<close>

lemma json_loads_cut:
  assumes "json_distinct (JObj d)" and "json_dumps (JObj d) = p @ q" and "q \<noteq> []"
  shows "json_loads p = None"
proof (rule ccontr)
  assume "json_loads p \<noteq> None"
  then obtain v r where "parse_value (Suc (2 * length p)) (skip_ws p) = Some (v, r)"
    by (auto simp: json_loads_def split: option.splits)
  moreover obtain c t where p: "p = c # t" using calculation by (cases p) auto
  moreover have c: "c = CHR 0x7B" using assms(2) p unfolding json_dumps_obj by simp
  moreover have "skip_ws p = p" by (simp add: p c skip_ws_def is_ws_def)
  ultimately have parse: "parse_value (Suc (2 * length p)) p = Some (v, r)" by simp
  then have "ends_value v r" unfolding p c by (auto simp: ends_value_def split: if_splits)
  obtain m where m: "parse_value n (json_dumps (JObj d)) = Some (json_norm (JObj d), [])" if "m \<le> n" for n
    using parse_dumps [OF assms(1), of "[]"] unfolding reads_def by auto
  let ?n = "max m (Suc (2 * length p))"
  have "parse_value ?n p = Some (v, r)" using parse by (subst parse_fuel(1) [of _ _ "Suc (2 * length p)"]) auto
  from parse_append(1) [OF this \<open>ends_value v r\<close>, of q]
  have "parse_value ?n (json_dumps (JObj d)) = Some (v, r @ q)" by (simp only: assms(2))
  with m [of ?n] assms(3) show False by simp
qed

text \<open>The text of a value has no control characters, in particular no line ends.\<close>

lemma printable_escape: "list_all (\<lambda>c. (32 :: nat) \<le> of_char c) (json_escape c)"
proof -
  have "(32 :: nat) \<le> of_char (hex_digit n)" if "n < 16" for n
    using that by (simp add: hex_digit_def)
  moreover have "of_char c div 16 < (16 :: nat)"
    using nat_of_char_less_256 [of c] by (simp add: less_mult_imp_div_less)
  ultimately show ?thesis by (auto simp: json_escape_def Let_def control_chars)
qed

lemma printable_string: "list_all (\<lambda>c. (32 :: nat) \<le> of_char c) (json_string s)"
  using printable_escape by (auto simp: json_string_def control_chars list_all_iff)

lemma printable_nat: "list_all (\<lambda>c. (32 :: nat) \<le> of_char c) (str_nat n)"
  using str_nat_digits [of n] by (auto simp: list_all_iff is_digit_def)

lemma printable_dumps: "list_all (\<lambda>c. (32 :: nat) \<le> of_char c) (json_dumps v)"
proof (induction v)
  case (JInt i)
  then show ?case by (simp add: str_int_def printable_nat)
next
  case (JStr s)
  then show ?case by (simp add: printable_string)
next
  case (JList xs)
  then have "list_all (list_all (\<lambda>c. (32 :: nat) \<le> of_char c)) (map json_dumps xs)"
    by (simp add: list_all_iff)
  then show ?case by (auto intro: ascii_join)
next
  case (JObj kvs)
  then have "list_all (list_all (\<lambda>c. (32 :: nat) \<le> of_char c)) (map json_member (sort_key fst kvs))"
    using printable_string by (force simp: json_member_def list_all_iff snds.simps)
  then show ?case unfolding json_dumps_obj by (auto intro: ascii_join)
qed simp_all

text \<open>Two dictionaries with the same normalised values are the same object.\<close>

lemma json_norm_norm [simp]: "json_norm (json_norm v) = json_norm v"
proof (induction v)
  case (JObj kvs)
  have "map (map_prod id json_norm) (map (map_prod id json_norm) kvs) = map (map_prod id json_norm) kvs"
    using JObj by (force simp: snds.simps)
  then have "json_norm (json_norm (JObj kvs)) = JObj (sort_key fst (sort_key fst (map (map_prod id json_norm) kvs)))"
    unfolding json_norm.simps sort_key_map_prod [symmetric] by (simp only:)
  also have "\<dots> = json_norm (JObj kvs)" by (simp add: sort_key_id_if_sorted sorted_sort_key)
  finally show ?case .
qed simp_all

lemma json_norm_eqI:
  assumes "distinct (map fst a)" and "distinct (map fst b)"
    and "\<And>k. map_option json_norm (dict_get a k) = map_option json_norm (dict_get b k)"
  shows "json_norm (JObj a) = json_norm (JObj b)"
proof -
  let ?n = "\<lambda>d. sort_key fst (map (map_prod id json_norm) d)"
  have sorted: "sorted (map fst (?n d))" and distinct: "distinct (map fst (?n d))" if "distinct (map fst d)" for d
  proof -
    have "map fst (map (map_prod id json_norm) d) = map fst d" by simp
    with that have "distinct (map fst (map (map_prod id json_norm) d))" by (simp only:)
    then show "distinct (map fst (?n d))" by (simp only: distinct_map distinct_sort set_sort)
  qed (rule sorted_sort_key)
  have "dict_get (?n a) = dict_get (?n b)"
    using assms by (intro ext) (simp only: dict_get_norm)
  then have "set (?n a) = set (?n b)"
    using map_of_inject_set [OF distinct [OF assms(1)] distinct [OF assms(2)]] by simp
  moreover from this have "inj_on fst (set (?n a) \<union> set (?n b))"
    using distinct [OF assms(1)] by (simp only: distinct_map Un_absorb)
  ultimately have "?n a = ?n b"
    using sorted distinct assms(1,2) by (intro map_sorted_distinct_set_unique [of fst]) (simp_all only:)
  then show ?thesis by simp
qed

section \<open>Contracts on the wire\<close>

text \<open>
  A contract: the dictionary of its fields, and the constructor call of its \<open>from_bytes\<close> on a
  decoded dictionary. The provider promises that reading the fields of its own dictionary, in any
  order and normalised, gives the contract back; \<open>canon\<close> is the contract with its mappings in
  key order, the same object for Python. What the wire preserves follows.
\<close>

locale wire_contract =
  fixes schema :: string
    and to_dict :: "'a \<Rightarrow> (string, json) dict"
    and of_dict :: "(string, json) dict \<Rightarrow> py_error + 'a"
    and canon :: "'a \<Rightarrow> 'a"
    and wf :: "'a \<Rightarrow> bool"
  assumes fields_distinct: "wf x \<Longrightarrow> json_distinct (JObj (to_dict x))"
    and no_schema_field: "wf x \<Longrightarrow> \<not> dict_has (to_dict x) ''schema''"
    and reads_own_fields: "wf x \<Longrightarrow> (\<And>k v. k \<noteq> ''schema'' \<Longrightarrow> json_norm v = v \<Longrightarrow>
      field_or d k v = json_norm (field_or (to_dict x) k v)) \<Longrightarrow> of_dict d = Inr (canon x)"
begin

lemma wire_distinct: "wf x \<Longrightarrow> json_distinct (JObj (with_schema schema (to_dict x)))"
proof -
  assume "wf x"
  then have d: "json_distinct (JObj (to_dict x))" and "dict_get (to_dict x) ''schema'' = None"
    using fields_distinct [of x] no_schema_field [of x] by (simp_all only: dict_has_def simp_thms)
  then have "with_schema schema (to_dict x) = to_dict x @ [(''schema'', JStr schema)]"
    by (simp add: with_schema_def dict_set_new)
  with d \<open>dict_get (to_dict x) ''schema'' = None\<close> show ?thesis by (auto simp: map_of_eq_None_iff)
qed

lemma decode_own_norm:
  assumes "wf x"
  obtains d where "decode_contract (contract_to_bytes schema (to_dict x)) schema = Inr d"
    and "JObj d = json_norm (JObj (with_schema schema (to_dict x)))"
    and "\<And>k. dict_get d k = map_option json_norm (dict_get (with_schema schema (to_dict x)) k)"
proof -
  let ?w = "with_schema schema (to_dict x)"
  let ?d = "sort_key fst (map (map_prod id json_norm) ?w)"
  have "distinct (map fst ?w)" using wire_distinct [OF assms] by simp
  then have get: "dict_get ?d k = map_option json_norm (dict_get ?w k)" for k by (rule dict_get_norm)
  have "wire_loads (contract_to_bytes schema (to_dict x)) = Some (JObj ?d)"
    unfolding contract_to_bytes_def canonical_json_def
    by (subst wire_loads_dumps [OF wire_distinct [OF assms]]) simp
  moreover have "dict_get ?d ''schema'' = Some (JStr schema)"
    unfolding get by (simp add: with_schema_def dict_simps)
  ultimately have "decode_contract (contract_to_bytes schema (to_dict x)) schema = Inr ?d"
    by (simp add: decode_contract_def)
  moreover have "JObj ?d = json_norm (JObj ?w)" by simp
  ultimately show thesis using get by (rule that)
qed

lemma wire_roundtrip:
  assumes "wf x"
  shows "sum_then (decode_contract (contract_to_bytes schema (to_dict x)) schema) of_dict = Inr (canon x)"
proof -
  obtain d where "decode_contract (contract_to_bytes schema (to_dict x)) schema = Inr d"
    and get: "\<And>k. dict_get d k = map_option json_norm (dict_get (with_schema schema (to_dict x)) k)"
    using assms by (rule decode_own_norm) blast
  moreover have "of_dict d = Inr (canon x)"
    using assms by (rule reads_own_fields) (simp add: field_or_norm get with_schema_def dict_simps)
  ultimately show ?thesis by simp
qed

lemma wire_injective:
  "wf x \<Longrightarrow> wf y \<Longrightarrow> contract_to_bytes schema (to_dict x) = contract_to_bytes schema (to_dict y)
    \<Longrightarrow> canon x = canon y"
  by (metis wire_roundtrip sum.inject(2))

lemma digest_injective:
  assumes "inj sha" "wf x" "wf y"
    "contract_digest_of sha schema (to_dict x) = contract_digest_of sha schema (to_dict y)"
  shows "canon x = canon y"
proof (rule wire_injective)
  show "contract_to_bytes schema (to_dict x) = contract_to_bytes schema (to_dict y)"
    using assms(1,4) by (simp add: contract_to_bytes_def contract_digest_of_def canonical_digest_def
        json_digest_def canonical_json_def inj_eq)
qed (use assms in auto)

end

text \<open>
  A contract whose decoder is strict: exactly the declared fields, canonical bytes, bounded size and
  the version fields of this protocol.
\<close>

locale strict_contract = wire_contract schema to_dict of_dict canon wf
  for schema :: string and to_dict :: "'a \<Rightarrow> (string, json) dict"
    and of_dict :: "(string, json) dict \<Rightarrow> py_error + 'a" and canon :: "'a \<Rightarrow> 'a" and wf :: "'a \<Rightarrow> bool" +
  fixes names :: "string list"
  assumes declared: "wf x \<Longrightarrow> dict_keys (to_dict x) = names"
    and versions: "wf x \<Longrightarrow> dict_get (to_dict x) ''schema_version'' = Some (JInt 2)
      \<and> dict_get (to_dict x) ''canonical_encoding_version'' = Some (JStr ''canonical-json-v1'')
      \<and> dict_get (to_dict x) ''capability_version'' = Some (JStr ''SELECTION_DATAFLOW_V2'')
      \<and> dict_get (to_dict x) ''acceptance_predicate_version'' = Some (JStr ''DI_ACCEPTANCE_V2'')"
begin

lemma strict_roundtrip:
  assumes "wf x" and "length (contract_to_bytes schema (to_dict x)) \<le> 4 * 1024 * 1024"
  shows "sum_then (strict_v2_decode (contract_to_bytes schema (to_dict x)) schema (set names)) of_dict = Inr (canon x)"
proof -
  let ?w = "with_schema schema (to_dict x)"
  obtain d where d: "decode_contract (contract_to_bytes schema (to_dict x)) schema = Inr d"
    and norm: "JObj d = json_norm (JObj ?w)"
    and get: "\<And>k. dict_get d k = map_option json_norm (dict_get ?w k)"
    using assms(1) by (rule decode_own_norm) blast
  have keys: "set (dict_keys d) = insert ''schema'' (set names)"
  proof -
    have "set (dict_keys d) = dom (dict_get d)" by (simp add: dom_map_of_conv_image_fst)
    also have "\<dots> = dom (dict_get ?w)" by (auto simp: get)
    also have "dict_get ?w = (dict_get (to_dict x))(''schema'' \<mapsto> JStr schema)"
      by (intro ext) (simp add: with_schema_def dict_simps)
    also have "dom \<dots> = insert ''schema'' (set (dict_keys (to_dict x)))"
      by (simp add: dom_map_of_conv_image_fst)
    finally show ?thesis using declared [OF assms(1)] by simp
  qed
  have canonical: "canonical_json (JObj d) = contract_to_bytes schema (to_dict x)"
    unfolding norm by (simp only: canonical_json_def contract_to_bytes_def json_dumps_norm)
  have "strict_v2_decode (contract_to_bytes schema (to_dict x)) schema (set names) = Inr (dict_pop ''schema'' d)"
    using assms(2) keys canonical versions [OF assms(1)]
    by (simp add: strict_v2_decode_def d get with_schema_def dict_simps py_eq_int_def)
  moreover have "of_dict (dict_pop ''schema'' d) = Inr (canon x)"
    using assms(1)
    by (rule reads_own_fields) (simp add: field_or_def get with_schema_def dict_simps split: option.split)
  ultimately show ?thesis by simp
qed

end

end
