(* ===== verification/Contracts.thy ===== *)
theory Contracts
  imports Json_Wire Interfaces
begin

text \<open>
  The authority contracts of core/contracts.py: their fields as records, their
  \<open>__post_init__\<close> validators as \<open>make_\<close> functions, the dictionaries they are serialised from, and
  the \<open>from_bytes\<close> decoders that convert every field.

  \<^item> A constructor call is \<open>make_c x\<close>: it returns the contract or the exception of its validator.
  \<^item> \<open>c_to_dict\<close> is \<open>to_plain\<close> of the dataclass; \<open>to_bytes\<close> and \<open>digest\<close> add the schema.
  \<^item> \<open>rep\<close> is the \<open>repr\<close> of a list or a dictionary, and \<open>dict_of\<close> is \<open>dict(v)\<close> for a value that is
    not a mapping: what \<open>str(v)\<close> and \<open>dict(v)\<close> are on wires of other shapes.
  \<^item> Each decoded contract is an instance of \<open>wire_contract\<close>, which gives its round trip.
\<close>

section \<open>Validators\<close>

definition DATA_DRIVEN_V2 :: string where
  "DATA_DRIVEN_V2 = ''DATA_DRIVEN_V2''"

definition LEGACY_READY_SET_V1 :: string where
  "LEGACY_READY_SET_V1 = ''LEGACY_READY_SET_V1''"

definition require_sha256 :: "string \<Rightarrow> string \<Rightarrow> py_error + unit" where
  "require_sha256 v field_name =
     require (canonical_digest_ok v) (ValueError (field_name @ '' must be a canonical sha256 digest''))"

text \<open>A loop of checks over named digests, in order.\<close>

fun require_sha256_all :: "(string \<times> string) list \<Rightarrow> py_error + unit" where
  "require_sha256_all [] = Inr ()"
| "require_sha256_all ((v, name) # rest) =
     sum_then (require_sha256 v name) (\<lambda>_. require_sha256_all rest)"

section \<open>Bounded field containers\<close>

definition utf8_length :: "string \<Rightarrow> nat" where
  "utf8_length s = sum_list (map (\<lambda>c. if (of_char c :: nat) < 128 then 1 else 2) s)"

type_synonym r1_contract = "(string, string) dict"

definition make_r1 :: "r1_contract \<Rightarrow> py_error + r1_contract" where
  "make_r1 fs =
     (if 64 < length fs \<or> list_ex (\<lambda>(k, v). k = [] \<or> 64 < length k \<or> 4096 < utf8_length v) fs
      then Inl (ValueError ''R1 field contract exceeds bounds'')
      else Inr fs)"

definition r1_to_dict :: "r1_contract \<Rightarrow> (string, json) dict" where
  "r1_to_dict fs = [(''fields'', JObj (dict_map JStr fs))]"

definition r1_of_dict :: "(json \<Rightarrow> string) \<Rightarrow> (string, json) dict \<Rightarrow> py_error + r1_contract" where
  "r1_of_dict rep d = (case field_or d ''fields'' (JObj []) of
       JObj fs \<Rightarrow> make_r1 (dict_map (py_str rep) fs)
     | _ \<Rightarrow> Inl (ValueError ''R1 fields must be an object''))"

definition r1_schemas :: "string list" where
  "r1_schemas = [''ndnsf-request-capabilities-v1'', ''ndnsf-encrypted-request-input-v1'',
     ''ndnsf-selection-input-key-offer-v1'', ''ndnsf-selection-input-key-grant-v1'',
     ''ndnsf-di-reservation-lease-v1'', ''ndnsf-selection-decision-v1'',
     ''ndnsf-selection-decision-receipt-v1'', ''ndnsf-recipient-encrypted-assignment-v1'',
     ''ndnsf-di-stage-input-evidence-v1'', ''ndnsf-di-stage-abort-v1'',
     ''ndnsf-selection-decision-tombstone-v1'']"

definition r1_from_bytes :: "(json \<Rightarrow> string) \<Rightarrow> string \<Rightarrow> string \<Rightarrow> py_error + r1_contract" where
  "r1_from_bytes rep schema wire = sum_then (decode_contract wire schema) (r1_of_dict rep)"

definition validate_r1_capability_combination :: "bool \<Rightarrow> bool \<Rightarrow> bool \<Rightarrow> bool \<Rightarrow> py_error + unit" where
  "validate_r1_capability_combination di_reservation gated_input has_deployment_intent targeted_fast_path =
     (if di_reservation \<and> \<not> has_deployment_intent
      then Inl (ValueError ''DIReservationSelectionV1 requires DeploymentIntent'')
      else if gated_input \<and> targeted_fast_path
      then Inl (ValueError ''SelectionGatedInputV1 requires ACK/Selection'')
      else Inr ())"

section \<open>Execution plans\<close>

record plan_dependency =
  pd_producer_role :: string
  pd_consumer_role :: string
  pd_key_scope :: string
  pd_expected_digest :: string

definition make_plan_dependency :: "plan_dependency \<Rightarrow> py_error + plan_dependency" where
  "make_plan_dependency d =
     (if pd_producer_role d = [] \<or> pd_consumer_role d = [] \<or> pd_key_scope d = []
      then Inl (ValueError ''plan dependency requires producer, consumer and scope'')
      else Inr d)"

definition plan_dependency_to_dict :: "plan_dependency \<Rightarrow> (string, json) dict" where
  "plan_dependency_to_dict d =
     [(''producer_role'', JStr (pd_producer_role d)), (''consumer_role'', JStr (pd_consumer_role d)),
      (''key_scope'', JStr (pd_key_scope d)), (''expected_digest'', JStr (pd_expected_digest d))]"

record core_plan =
  cp_plan_id :: string
  cp_model_id :: string
  cp_roles :: "string list"
  cp_dependencies :: "plan_dependency list"
  cp_artifact_digests :: "(string, string) dict"
  cp_revision :: string

definition core_plan_schema :: string where
  "core_plan_schema = ''ndnsf-di-core-execution-plan-v1''"

definition make_core_plan :: "core_plan \<Rightarrow> py_error + core_plan" where
  "make_core_plan p =
     (if cp_plan_id p = [] \<or> cp_model_id p = [] \<or> cp_roles p = []
      then Inl (ValueError ''execution plan requires identity, model and roles'')
      else if \<not> distinct (cp_roles p)
      then Inl (ValueError ''execution plan roles must be unique'')
      else if list_ex (\<lambda>d. pd_producer_role d \<notin> set (cp_roles p) \<or> pd_consumer_role d \<notin> set (cp_roles p))
                (cp_dependencies p)
      then Inl (ValueError ''dependency references an unknown role'')
      else Inr p)"

definition core_plan_to_dict :: "core_plan \<Rightarrow> (string, json) dict" where
  "core_plan_to_dict p =
     [(''plan_id'', JStr (cp_plan_id p)), (''model_id'', JStr (cp_model_id p)),
      (''roles'', JList (map JStr (cp_roles p))),
      (''dependencies'', JList (map (\<lambda>d. JObj (plan_dependency_to_dict d)) (cp_dependencies p))),
      (''artifact_digests'', JObj (dict_map JStr (cp_artifact_digests p))),
      (''revision'', JStr (cp_revision p))]"

definition core_plan_digest :: "hash \<Rightarrow> core_plan \<Rightarrow> string" where
  "core_plan_digest sha p = contract_digest_of sha core_plan_schema (core_plan_to_dict p)"

definition plan_dependency_of_dict :: "(json \<Rightarrow> string) \<Rightarrow> (string, json) dict \<Rightarrow> py_error + plan_dependency" where
  "plan_dependency_of_dict rep d = make_plan_dependency
     \<lparr>pd_producer_role = str_field rep d ''producer_role'',
      pd_consumer_role = str_field rep d ''consumer_role'',
      pd_key_scope = str_field rep d ''key_scope'',
      pd_expected_digest = str_field rep d ''expected_digest''\<rparr>"

definition core_plan_of_dict :: "(json \<Rightarrow> string) \<Rightarrow> (json \<Rightarrow> py_error + (string, json) dict)
    \<Rightarrow> (string, json) dict \<Rightarrow> py_error + core_plan" where
  "core_plan_of_dict rep dict_of d =
     sum_then (str_list_field rep d ''roles'') (\<lambda>roles.
     sum_then (object_items (plan_dependency_of_dict rep) d ''dependencies'') (\<lambda>deps.
     sum_then (py_dict dict_of (field_or d ''artifact_digests'' (JObj []))) (\<lambda>digests.
       make_core_plan
         \<lparr>cp_plan_id = str_field rep d ''plan_id'', cp_model_id = str_field rep d ''model_id'',
          cp_roles = roles, cp_dependencies = deps,
          cp_artifact_digests = dict_map (py_str rep) digests,
          cp_revision = str_field rep d ''revision''\<rparr>)))"

definition core_plan_from_bytes :: "(json \<Rightarrow> string) \<Rightarrow> (json \<Rightarrow> py_error + (string, json) dict)
    \<Rightarrow> string \<Rightarrow> py_error + core_plan" where
  "core_plan_from_bytes rep dict_of wire =
     sum_then (decode_contract wire core_plan_schema) (core_plan_of_dict rep dict_of)"

section \<open>Assignments\<close>

record provider_assignment =
  pa_role :: string
  pa_provider :: string
  pa_provider_boot_epoch :: string
  pa_lease_id :: string
  pa_resource_binding_digest :: string

definition make_provider_assignment :: "provider_assignment \<Rightarrow> py_error + provider_assignment" where
  "make_provider_assignment a =
     (if pa_role a = [] \<or> pa_provider a = [] \<or> pa_provider_boot_epoch a = []
      then Inl (ValueError ''provider assignment is missing a binding identity'')
      else Inr a)"

type_synonym membership = "string \<times> string \<times> string \<times> string \<times> string"

definition assignment_key :: "provider_assignment \<Rightarrow> membership" where
  "assignment_key a = (pa_role a, pa_provider a, pa_provider_boot_epoch a, pa_lease_id a,
     pa_resource_binding_digest a)"

definition provider_assignment_to_dict :: "provider_assignment \<Rightarrow> (string, json) dict" where
  "provider_assignment_to_dict a =
     [(''role'', JStr (pa_role a)), (''provider'', JStr (pa_provider a)),
      (''provider_boot_epoch'', JStr (pa_provider_boot_epoch a)),
      (''lease_id'', JStr (pa_lease_id a)),
      (''resource_binding_digest'', JStr (pa_resource_binding_digest a))]"

record core_assignment =
  ca_assignment_id :: string
  ca_request_id :: string
  ca_attempt_epoch :: int
  ca_plan_digest :: string
  ca_providers :: "provider_assignment list"

definition core_assignment_schema :: string where
  "core_assignment_schema = ''ndnsf-di-core-assignment-v1''"

definition make_core_assignment :: "core_assignment \<Rightarrow> py_error + core_assignment" where
  "make_core_assignment a =
     (if ca_assignment_id a = [] \<or> ca_request_id a = [] \<or> ca_attempt_epoch a \<le> 0
         \<or> ca_plan_digest a = [] \<or> ca_providers a = []
      then Inl (ValueError ''invalid Core assignment'')
      else if \<not> distinct (map pa_role (ca_providers a))
      then Inl (ValueError ''a role may have only one primary assignment'')
      else Inr a)"

definition core_assignment_to_dict :: "core_assignment \<Rightarrow> (string, json) dict" where
  "core_assignment_to_dict a =
     [(''assignment_id'', JStr (ca_assignment_id a)), (''request_id'', JStr (ca_request_id a)),
      (''attempt_epoch'', JInt (ca_attempt_epoch a)), (''plan_digest'', JStr (ca_plan_digest a)),
      (''providers'', JList (map (\<lambda>p. JObj (provider_assignment_to_dict p)) (ca_providers a)))]"

definition core_assignment_digest :: "hash \<Rightarrow> core_assignment \<Rightarrow> string" where
  "core_assignment_digest sha a = contract_digest_of sha core_assignment_schema (core_assignment_to_dict a)"

definition provider_assignment_of_dict :: "(json \<Rightarrow> string) \<Rightarrow> (string, json) dict
    \<Rightarrow> py_error + provider_assignment" where
  "provider_assignment_of_dict rep d = make_provider_assignment
     \<lparr>pa_role = str_field rep d ''role'', pa_provider = str_field rep d ''provider'',
      pa_provider_boot_epoch = str_field rep d ''provider_boot_epoch'',
      pa_lease_id = str_field rep d ''lease_id'',
      pa_resource_binding_digest = str_field rep d ''resource_binding_digest''\<rparr>"

definition core_assignment_of_dict :: "(json \<Rightarrow> string) \<Rightarrow> (string, json) dict \<Rightarrow> py_error + core_assignment" where
  "core_assignment_of_dict rep d =
     sum_then (int_field d ''attempt_epoch'' 0) (\<lambda>epoch.
     sum_then (object_items (provider_assignment_of_dict rep) d ''providers'') (\<lambda>ps.
       make_core_assignment
         \<lparr>ca_assignment_id = str_field rep d ''assignment_id'',
          ca_request_id = str_field rep d ''request_id'', ca_attempt_epoch = epoch,
          ca_plan_digest = str_field rep d ''plan_digest'', ca_providers = ps\<rparr>))"

definition core_assignment_from_bytes :: "(json \<Rightarrow> string) \<Rightarrow> string \<Rightarrow> py_error + core_assignment" where
  "core_assignment_from_bytes rep wire =
     sum_then (decode_contract wire core_assignment_schema) (core_assignment_of_dict rep)"

record assignment_context =
  ac_request_id :: string
  ac_attempt_epoch :: int
  ac_plan_digest :: string
  ac_model_variant_id :: string
  ac_role_providers :: "(string \<times> string) list"
  ac_original_deadline_ms :: int
  ac_excluded_providers :: "string list"

definition assignment_context_schema :: string where
  "assignment_context_schema = ''ndnsf-di-assignment-context-v1''"

definition make_assignment_context :: "assignment_context \<Rightarrow> py_error + assignment_context" where
  "make_assignment_context c =
     (let roles = map fst (filter (\<lambda>(r, p). r \<noteq> [] \<and> p \<noteq> []) (ac_role_providers c)) in
      if ac_request_id c = [] \<or> ac_attempt_epoch c \<le> 0 \<or> ac_plan_digest c = []
         \<or> ac_model_variant_id c = [] \<or> ac_original_deadline_ms c \<le> 0 \<or> ac_role_providers c = []
      then Inl (ValueError ''invalid assignment context'')
      else if length roles \<noteq> length (ac_role_providers c) \<or> \<not> distinct roles
      then Inl (ValueError ''assignment context roles must bind exactly once'')
      else if list_ex (\<lambda>(r, p). p \<in> set (ac_excluded_providers c)) (ac_role_providers c)
      then Inl (ValueError ''assignment context binds an excluded provider'')
      else Inr c)"

definition providers_by_role :: "assignment_context \<Rightarrow> (string, string) dict" where
  "providers_by_role c = dict_of_list (ac_role_providers c)"

definition assignment_context_to_dict :: "assignment_context \<Rightarrow> (string, json) dict" where
  "assignment_context_to_dict c =
     [(''request_id'', JStr (ac_request_id c)), (''attempt_epoch'', JInt (ac_attempt_epoch c)),
      (''plan_digest'', JStr (ac_plan_digest c)), (''model_variant_id'', JStr (ac_model_variant_id c)),
      (''role_providers'', JList (map (\<lambda>(r, p). JList [JStr r, JStr p]) (ac_role_providers c))),
      (''original_deadline_ms'', JInt (ac_original_deadline_ms c)),
      (''excluded_providers'', JList (map JStr (ac_excluded_providers c)))]"

text \<open>\<open>(str(item[0]), str(item[1]))\<close>: an array or a string is indexed; an object has no key 0.\<close>

definition pair_item :: "(json \<Rightarrow> string) \<Rightarrow> json \<Rightarrow> py_error + string \<times> string" where
  "pair_item rep v = (case v of
       JList (x # y # _) \<Rightarrow> Inr (py_str rep x, py_str rep y)
     | JStr (x # y # _) \<Rightarrow> Inr ([x], [y])
     | JList _ \<Rightarrow> Inl (IndexError ''list index out of range'')
     | JStr _ \<Rightarrow> Inl (IndexError ''string index out of range'')
     | JObj _ \<Rightarrow> Inl KeyError
     | _ \<Rightarrow> Inl (TypeError ''object is not subscriptable''))"

definition assignment_context_of_dict :: "(json \<Rightarrow> string) \<Rightarrow> (string, json) dict
    \<Rightarrow> py_error + assignment_context" where
  "assignment_context_of_dict rep d =
     sum_then (int_field d ''attempt_epoch'' 0) (\<lambda>epoch.
     sum_then (sum_then (py_iter (field_or d ''role_providers'' (JList []))) (sum_map (pair_item rep))) (\<lambda>rps.
     sum_then (int_field d ''original_deadline_ms'' 0) (\<lambda>deadline.
     sum_then (str_list_field rep d ''excluded_providers'') (\<lambda>excluded.
       make_assignment_context
         \<lparr>ac_request_id = str_field rep d ''request_id'', ac_attempt_epoch = epoch,
          ac_plan_digest = str_field rep d ''plan_digest'',
          ac_model_variant_id = str_field rep d ''model_variant_id'',
          ac_role_providers = rps, ac_original_deadline_ms = deadline,
          ac_excluded_providers = excluded\<rparr>))))"

definition assignment_context_from_bytes :: "(json \<Rightarrow> string) \<Rightarrow> string \<Rightarrow> py_error + assignment_context" where
  "assignment_context_from_bytes rep wire =
     sum_then (decode_contract wire assignment_context_schema) (assignment_context_of_dict rep)"

section \<open>Evidence, receipts and the commit certificate\<close>

record execution_evidence =
  ev_provider :: string
  ev_provider_boot_epoch :: string
  ev_request_id :: string
  ev_attempt_epoch :: int
  ev_plan_digest :: string
  ev_assignment_digest :: string
  ev_runner_identity :: string
  ev_result_digest :: string

definition make_execution_evidence :: "execution_evidence \<Rightarrow> py_error + execution_evidence" where
  "make_execution_evidence e =
     (if ev_provider e = [] \<or> ev_provider_boot_epoch e = [] \<or> ev_request_id e = []
         \<or> ev_attempt_epoch e \<le> 0 \<or> ev_plan_digest e = [] \<or> ev_assignment_digest e = []
         \<or> ev_runner_identity e = []
      then Inl (ValueError ''execution evidence is missing identity bindings'')
      else Inr e)"

record coordinator_binding =
  cb_requester_identity :: string
  cb_request_id :: string
  cb_attempt_epoch :: int
  cb_intent_digest :: string
  cb_objective_digest :: string
  cb_snapshot_digest :: string
  cb_plan_digest :: string
  cb_assignment_digest :: string
  cb_execution_deadline_ms :: int
  cb_result_rendezvous :: string

definition make_coordinator_binding :: "coordinator_binding \<Rightarrow> py_error + coordinator_binding" where
  "make_coordinator_binding b =
     (if [] \<in> {cb_requester_identity b, cb_request_id b, cb_intent_digest b, cb_objective_digest b,
                cb_snapshot_digest b, cb_plan_digest b, cb_assignment_digest b, cb_result_rendezvous b}
         \<or> cb_attempt_epoch b \<le> 0 \<or> cb_execution_deadline_ms b \<le> 0
      then Inl (ValueError ''invalid requester coordinator binding'')
      else Inr b)"

datatype receipt_operation = PREPARE | COMMIT | ABORT | RELEASE | ACTIVATE

record provider_receipt =
  rc_operation :: receipt_operation
  rc_requester_identity :: string
  rc_request_id :: string
  rc_attempt_epoch :: int
  rc_intent_digest :: string
  rc_provider :: string
  rc_provider_boot_epoch :: string
  rc_lease_id :: string
  rc_lease_state :: string
  rc_expires_at_ms :: int
  rc_plan_digest :: string
  rc_role :: string
  rc_resource_binding_digest :: string
  rc_idempotency_key :: string
  rc_data_name :: string
  rc_signer_certificate :: string
  rc_wire_digest :: string
  rc_status :: bool
  rc_reason :: string

definition make_provider_receipt :: "provider_receipt \<Rightarrow> py_error + provider_receipt" where
  "make_provider_receipt r =
     (if [] \<in> {rc_requester_identity r, rc_request_id r, rc_intent_digest r, rc_provider r,
                rc_provider_boot_epoch r, rc_lease_id r, rc_lease_state r, rc_plan_digest r, rc_role r,
                rc_resource_binding_digest r, rc_idempotency_key r, rc_data_name r,
                rc_signer_certificate r, rc_wire_digest r}
         \<or> rc_attempt_epoch r \<le> 0 \<or> rc_expires_at_ms r \<le> 0
      then Inl (ValueError ''provider receipt lacks authenticated binding evidence'')
      else Inr r)"

definition receipt_key :: "provider_receipt \<Rightarrow> membership" where
  "receipt_key r = (rc_role r, rc_provider r, rc_provider_boot_epoch r, rc_lease_id r,
     rc_resource_binding_digest r)"

record commit_certificate =
  cc_coordinator :: coordinator_binding
  cc_expected_members :: "provider_assignment list"
  cc_commit_receipts :: "provider_receipt list"
  cc_output_visibility_epoch :: int

definition receipt_bound :: "coordinator_binding \<Rightarrow> provider_receipt \<Rightarrow> bool" where
  "receipt_bound b r \<longleftrightarrow> rc_operation r = COMMIT \<and> rc_status r
     \<and> rc_requester_identity r = cb_requester_identity b
     \<and> rc_request_id r = cb_request_id b
     \<and> rc_attempt_epoch r = cb_attempt_epoch b
     \<and> rc_intent_digest r = cb_intent_digest b
     \<and> rc_plan_digest r = cb_plan_digest b"

definition make_commit_certificate :: "commit_certificate \<Rightarrow> py_error + commit_certificate" where
  "make_commit_certificate c =
     (let expected = set (map assignment_key (cc_expected_members c));
          observed = set (map receipt_key (cc_commit_receipts c))
      in if cc_output_visibility_epoch c \<le> 0
         then Inl (ValueError ''output visibility epoch must be positive'')
         else if card observed \<noteq> length (cc_commit_receipts c) \<or> observed \<noteq> expected
         then Inl (ValueError ''commit receipt set does not exactly match assignment'')
         else if \<not> list_all (receipt_bound (cc_coordinator c)) (cc_commit_receipts c)
         then Inl (ValueError ''commit receipt is not bound to the coordinator'')
         else Inr c)"

definition exact_receipt_membership :: "provider_assignment list \<Rightarrow> provider_receipt list \<Rightarrow> bool" where
  "exact_receipt_membership expected receipts \<longleftrightarrow>
     (let expected_keys = map assignment_key expected;
          receipt_keys = map receipt_key receipts
      in length receipt_keys = card (set receipt_keys) \<and> set expected_keys = set receipt_keys)"

section \<open>Lifecycle, cleanup and result records\<close>

record lifecycle_record =
  lr_deployment_id :: string
  lr_owner_identity :: string
  lr_lifecycle_epoch :: int
  lr_state :: string
  lr_state_digest :: string
  lr_desired_action :: string
  lr_action_digest :: string
  lr_expected_previous_epoch :: int
  lr_expected_previous_state_digest :: string
  lr_provider_boot_epochs :: "(string, string) dict"

definition make_lifecycle_record :: "lifecycle_record \<Rightarrow> py_error + lifecycle_record" where
  "make_lifecycle_record r =
     (if lr_deployment_id r = [] \<or> lr_owner_identity r = [] \<or> lr_lifecycle_epoch r \<le> 0
         \<or> lr_state r = [] \<or> lr_state_digest r = [] \<or> lr_desired_action r = [] \<or> lr_action_digest r = []
      then Inl (ValueError ''invalid deployment lifecycle record'')
      else Inr r)"

definition accepts_successor :: "lifecycle_record \<Rightarrow> lifecycle_record \<Rightarrow> bool" where
  "accepts_successor r successor \<longleftrightarrow>
     lr_deployment_id successor = lr_deployment_id r
     \<and> lr_owner_identity successor = lr_owner_identity r
     \<and> lr_lifecycle_epoch successor = lr_lifecycle_epoch r + 1
     \<and> lr_expected_previous_epoch successor = lr_lifecycle_epoch r
     \<and> lr_expected_previous_state_digest successor = lr_state_digest r"

record orphan_cleanup =
  oc_provider :: string
  oc_provider_boot_epoch :: string
  oc_sweep_id :: string
  oc_swept_at_ms :: int
  oc_reclaimed :: "(string, string list) dict"
  oc_tombstone_high_watermarks :: "(string, int) dict"
  oc_tombstones_expire_at_ms :: int
  oc_next_retry_at_ms :: int

definition orphan_cleanup_schema :: string where
  "orphan_cleanup_schema = ''ndnsf-di-orphan-cleanup-record-v1''"

definition make_orphan_cleanup :: "orphan_cleanup \<Rightarrow> py_error + orphan_cleanup" where
  "make_orphan_cleanup r =
     (if oc_provider r = [] \<or> oc_provider_boot_epoch r = [] \<or> oc_sweep_id r = []
         \<or> oc_swept_at_ms r \<le> 0 \<or> oc_tombstones_expire_at_ms r < oc_swept_at_ms r
      then Inl (ValueError ''invalid orphan cleanup record'')
      else Inr r)"

definition orphan_cleanup_to_dict :: "orphan_cleanup \<Rightarrow> (string, json) dict" where
  "orphan_cleanup_to_dict r =
     [(''provider'', JStr (oc_provider r)), (''provider_boot_epoch'', JStr (oc_provider_boot_epoch r)),
      (''sweep_id'', JStr (oc_sweep_id r)), (''swept_at_ms'', JInt (oc_swept_at_ms r)),
      (''reclaimed'', JObj (dict_map (\<lambda>ids. JList (map JStr ids)) (oc_reclaimed r))),
      (''tombstone_high_watermarks'', JObj (dict_map JInt (oc_tombstone_high_watermarks r))),
      (''tombstones_expire_at_ms'', JInt (oc_tombstones_expire_at_ms r)),
      (''next_retry_at_ms'', JInt (oc_next_retry_at_ms r))]"

text \<open>A dict comprehension whose value expression may raise.\<close>

definition dict_convert :: "('v \<Rightarrow> py_error + 'w) \<Rightarrow> ('k, 'v) dict \<Rightarrow> py_error + ('k, 'w) dict" where
  "dict_convert f d = sum_map (\<lambda>(k, v). sum_then (f v) (\<lambda>w. Inr (k, w))) d"

definition orphan_cleanup_of_dict :: "(json \<Rightarrow> string) \<Rightarrow> (json \<Rightarrow> py_error + (string, json) dict)
    \<Rightarrow> (string, json) dict \<Rightarrow> py_error + orphan_cleanup" where
  "orphan_cleanup_of_dict rep dict_of d =
     sum_then (int_field d ''swept_at_ms'' 0) (\<lambda>swept.
     sum_then (sum_then (py_dict dict_of (field_or d ''reclaimed'' (JObj [])))
        (dict_convert (\<lambda>v. sum_then (py_iter v) (\<lambda>xs. Inr (map (py_str rep) xs))))) (\<lambda>reclaimed.
     sum_then (sum_then (py_dict dict_of (field_or d ''tombstone_high_watermarks'' (JObj [])))
        (dict_convert py_int)) (\<lambda>marks.
     sum_then (int_field d ''tombstones_expire_at_ms'' 0) (\<lambda>expire.
     sum_then (int_field d ''next_retry_at_ms'' 0) (\<lambda>retry.
       make_orphan_cleanup
         \<lparr>oc_provider = str_field rep d ''provider'',
          oc_provider_boot_epoch = str_field rep d ''provider_boot_epoch'',
          oc_sweep_id = str_field rep d ''sweep_id'', oc_swept_at_ms = swept, oc_reclaimed = reclaimed,
          oc_tombstone_high_watermarks = marks, oc_tombstones_expire_at_ms = expire,
          oc_next_retry_at_ms = retry\<rparr>)))))"

definition orphan_cleanup_from_bytes :: "(json \<Rightarrow> string) \<Rightarrow> (json \<Rightarrow> py_error + (string, json) dict)
    \<Rightarrow> string \<Rightarrow> py_error + orphan_cleanup" where
  "orphan_cleanup_from_bytes rep dict_of wire =
     sum_then (decode_contract wire orphan_cleanup_schema) (orphan_cleanup_of_dict rep dict_of)"

record rendezvous_record =
  rr_requester_identity :: string
  rr_request_id :: string
  rr_attempt_epoch :: int
  rr_certificate_digest :: string
  rr_output_epoch :: int
  rr_terminal_digest :: string
  rr_visible :: bool
  rr_expires_at_ms :: int

definition make_rendezvous_record :: "rendezvous_record \<Rightarrow> py_error + rendezvous_record" where
  "make_rendezvous_record r =
     (if rr_requester_identity r = [] \<or> rr_request_id r = [] \<or> rr_attempt_epoch r \<le> 0
         \<or> rr_certificate_digest r = [] \<or> rr_output_epoch r \<le> 0 \<or> rr_terminal_digest r = []
         \<or> rr_expires_at_ms r \<le> 0
      then Inl (ValueError ''invalid result rendezvous record'')
      else Inr r)"

section \<open>Deployment\<close>

record deployment_intent =
  di_requester_identity :: string
  di_request_id :: string
  di_attempt :: int
  di_artifact_locator :: string
  di_artifact_digest :: string
  di_allowed_variants :: "string list"
  di_required_roles :: "string list"
  di_deadline_ms :: int
  di_protected_input_locator :: string
  di_constraints :: "(string, string) dict"

definition make_deployment_intent :: "deployment_intent \<Rightarrow> py_error + deployment_intent" where
  "make_deployment_intent i =
     (if di_requester_identity i = [] \<or> di_request_id i = [] \<or> di_attempt i \<le> 0
         \<or> di_artifact_locator i = [] \<or> di_artifact_digest i = []
         \<or> di_allowed_variants i = [] \<or> di_required_roles i = [] \<or> di_deadline_ms i \<le> 0
      then Inl (ValueError ''invalid DeploymentIntent'')
      else if \<not> distinct (di_allowed_variants i)
      then Inl (ValueError ''DeploymentIntent variants must be unique'')
      else if \<not> distinct (di_required_roles i)
      then Inl (ValueError ''DeploymentIntent roles must be unique'')
      else if 32 < length (di_allowed_variants i) \<or> 64 < length (di_required_roles i)
         \<or> 64 < length (di_constraints i)
      then Inl (ValueError ''DeploymentIntent exceeds collection bounds'')
      else Inr i)"

record capability_offer =
  co_provider :: string
  co_provider_boot_epoch :: string
  co_supported_versions :: "int list"
  co_artifact_resident :: bool
  co_runtimes :: "string list"
  co_devices :: "string list"
  co_precisions :: "string list"
  co_roles :: "string list"
  co_available_capacity :: int
  co_queue_depth :: int
  co_estimated_prepare_ms :: int
  co_expires_at_ms :: int
  co_lease_id :: string

definition make_capability_offer :: "capability_offer \<Rightarrow> py_error + capability_offer" where
  "make_capability_offer o1 =
     (if co_provider o1 = [] \<or> co_provider_boot_epoch o1 = [] \<or> 1 \<notin> set (co_supported_versions o1)
         \<or> co_runtimes o1 = [] \<or> co_devices o1 = [] \<or> co_roles o1 = [] \<or> co_available_capacity o1 < 0
         \<or> co_queue_depth o1 < 0 \<or> co_estimated_prepare_ms o1 < 0 \<or> co_expires_at_ms o1 \<le> 0
      then Inl (ValueError ''invalid ProviderCapabilityOffer'')
      else if 64 < length (co_supported_versions o1) \<or> 64 < length (co_runtimes o1)
         \<or> 64 < length (co_devices o1) \<or> 64 < length (co_precisions o1) \<or> 64 < length (co_roles o1)
      then Inl (ValueError ''ProviderCapabilityOffer exceeds collection bounds'')
      else Inr o1)"

record deployment_plan =
  dp_requester_identity :: string
  dp_request_id :: string
  dp_attempt :: int
  dp_model_variant :: string
  dp_artifact_digests :: "string list"
  dp_assignments :: "provider_assignment list"
  dp_execution_target :: string
  dp_deadline_ms :: int
  dp_selection_digest :: string
  dp_status_handles :: "(string, string) dict"
  dp_requester_encryption_key :: string
  dp_execution_policy :: string

definition make_deployment_plan :: "deployment_plan \<Rightarrow> py_error + deployment_plan" where
  "make_deployment_plan p =
     (if [] \<in> {dp_requester_identity p, dp_request_id p, dp_model_variant p, dp_execution_target p,
                dp_selection_digest p}
         \<or> dp_attempt p \<le> 0 \<or> dp_deadline_ms p \<le> 0
         \<or> dp_artifact_digests p = [] \<or> dp_assignments p = []
      then Inl (ValueError ''invalid DeploymentPlan'')
      else if dp_execution_policy p \<notin> {DATA_DRIVEN_V2, LEGACY_READY_SET_V1}
      then Inl (ValueError ''unsupported DeploymentPlan execution policy'')
      else if \<not> distinct (map (\<lambda>a. (pa_provider a, pa_role a)) (dp_assignments p))
         \<or> \<not> distinct (map pa_role (dp_assignments p))
      then Inl (ValueError ''DeploymentPlan requires exact unique provider-role membership'')
      else if \<not> set (dict_keys (dp_status_handles p)) \<subseteq> set (map pa_provider (dp_assignments p))
      then Inl (ValueError ''status handle names an unselected Provider'')
      else Inr p)"

definition deployment_plan_to_dict :: "deployment_plan \<Rightarrow> (string, json) dict" where
  "deployment_plan_to_dict p =
     [(''requester_identity'', JStr (dp_requester_identity p)), (''request_id'', JStr (dp_request_id p)),
      (''attempt'', JInt (dp_attempt p)), (''model_variant'', JStr (dp_model_variant p)),
      (''artifact_digests'', JList (map JStr (dp_artifact_digests p))),
      (''assignments'', JList (map (\<lambda>a. JObj (provider_assignment_to_dict a)) (dp_assignments p))),
      (''execution_target'', JStr (dp_execution_target p)), (''deadline_ms'', JInt (dp_deadline_ms p)),
      (''selection_digest'', JStr (dp_selection_digest p)),
      (''status_handles'', JObj (dict_map JStr (dp_status_handles p))),
      (''requester_encryption_key'', JStr (dp_requester_encryption_key p)),
      (''execution_policy'', JStr (dp_execution_policy p))]"

definition deployment_plan_digest :: "hash \<Rightarrow> deployment_plan \<Rightarrow> string" where
  "deployment_plan_digest sha p =
     contract_digest_of sha ''ndnsf-di-deployment-plan-v2'' (deployment_plan_to_dict p)"

definition deployment_plan_schema :: string where
  "deployment_plan_schema = ''ndnsf-di-deployment-plan-v2''"

text \<open>
  \<open>ProviderAssignment(**item)\<close>: the constructor takes the declared names only and does not check
  the types of the fields; here a field of another type is a \<open>TypeError\<close>.
\<close>

definition keyword_argument :: "(string, json) dict \<Rightarrow> string \<Rightarrow> string option \<Rightarrow> py_error + string" where
  "keyword_argument d k v = (case dict_get d k of
       Some (JStr s) \<Rightarrow> Inr s
     | Some _ \<Rightarrow> Inl (TypeError k)
     | None \<Rightarrow> (case v of
         Some s \<Rightarrow> Inr s | None \<Rightarrow> Inl (TypeError (''missing 1 required positional argument: '' @ k))))"

definition provider_assignment_of_kwargs :: "json \<Rightarrow> py_error + provider_assignment" where
  "provider_assignment_of_kwargs v = (case v of
       JObj d \<Rightarrow>
         (if \<not> set (dict_keys d) \<subseteq> {''role'', ''provider'', ''provider_boot_epoch'', ''lease_id'', ''resource_binding_digest''}
          then Inl (TypeError ''got an unexpected keyword argument'')
          else sum_then (keyword_argument d ''role'' None) (\<lambda>role.
               sum_then (keyword_argument d ''provider'' None) (\<lambda>provider.
               sum_then (keyword_argument d ''provider_boot_epoch'' None) (\<lambda>boot_epoch.
               sum_then (keyword_argument d ''lease_id'' (Some [])) (\<lambda>lease_id.
               sum_then (keyword_argument d ''resource_binding_digest'' (Some [])) (\<lambda>binding_digest.
                 make_provider_assignment
                   \<lparr>pa_role = role, pa_provider = provider, pa_provider_boot_epoch = boot_epoch,
                    pa_lease_id = lease_id, pa_resource_binding_digest = binding_digest\<rparr>))))))
     | _ \<Rightarrow> Inl (TypeError ''argument after ** must be a mapping''))"

definition deployment_plan_of_dict :: "(json \<Rightarrow> string) \<Rightarrow> (json \<Rightarrow> py_error + (string, json) dict)
    \<Rightarrow> (string, json) dict \<Rightarrow> py_error + deployment_plan" where
  "deployment_plan_of_dict rep dict_of d =
     sum_then (int_field d ''attempt'' 0) (\<lambda>attempt.
     sum_then (str_list_field rep d ''artifact_digests'') (\<lambda>artifact_digests.
     sum_then (sum_then (py_iter (field_or d ''assignments'' (JList []))) (sum_map provider_assignment_of_kwargs))
       (\<lambda>assignments.
     sum_then (int_field d ''deadline_ms'' 0) (\<lambda>deadline_ms.
     sum_then (py_dict dict_of (field_or d ''status_handles'' (JObj []))) (\<lambda>status_handles.
       make_deployment_plan
         \<lparr>dp_requester_identity = str_field rep d ''requester_identity'', dp_request_id = str_field rep d ''request_id'',
          dp_attempt = attempt, dp_model_variant = str_field rep d ''model_variant'',
          dp_artifact_digests = artifact_digests, dp_assignments = assignments,
          dp_execution_target = str_field rep d ''execution_target'', dp_deadline_ms = deadline_ms,
          dp_selection_digest = str_field rep d ''selection_digest'',
          dp_status_handles = dict_map (py_str rep) status_handles,
          dp_requester_encryption_key = str_field rep d ''requester_encryption_key'',
          dp_execution_policy = py_str rep (field_or d ''execution_policy'' (JStr LEGACY_READY_SET_V1))\<rparr>)))))"

definition deployment_plan_from_bytes :: "(json \<Rightarrow> string) \<Rightarrow> (json \<Rightarrow> py_error + (string, json) dict)
    \<Rightarrow> string \<Rightarrow> py_error + deployment_plan" where
  "deployment_plan_from_bytes rep dict_of wire =
     sum_then (decode_contract wire deployment_plan_schema) (deployment_plan_of_dict rep dict_of)"

datatype instance_state =
  SELECTED | VERIFYING | LOADING | WARMING | READY | ACTIVE | EXECUTING | COMPLETED
  | FAILED | EXPIRED | RELEASED

definition instance_state_value :: "instance_state \<Rightarrow> string" where
  "instance_state_value s = (case s of
       SELECTED \<Rightarrow> ''SELECTED'' | VERIFYING \<Rightarrow> ''VERIFYING'' | LOADING \<Rightarrow> ''LOADING''
     | WARMING \<Rightarrow> ''WARMING'' | READY \<Rightarrow> ''READY'' | ACTIVE \<Rightarrow> ''ACTIVE''
     | EXECUTING \<Rightarrow> ''EXECUTING'' | COMPLETED \<Rightarrow> ''COMPLETED'' | FAILED \<Rightarrow> ''FAILED''
     | EXPIRED \<Rightarrow> ''EXPIRED'' | RELEASED \<Rightarrow> ''RELEASED'')"

definition instance_states :: "instance_state list" where
  "instance_states = [SELECTED, VERIFYING, LOADING, WARMING, READY, ACTIVE, EXECUTING, COMPLETED,
     FAILED, EXPIRED, RELEASED]"

definition instance_state_of :: "string \<Rightarrow> py_error + instance_state" where
  "instance_state_of v = (case find (\<lambda>s. instance_state_value s = v) instance_states of
       None \<Rightarrow> Inl (ValueError ''is not a valid DeploymentInstanceState'')
     | Some s \<Rightarrow> Inr s)"

record deployment_instance =
  in_instance_id :: string
  in_plan_digest :: string
  in_provider :: string
  in_provider_boot_epoch :: string
  in_role :: string
  in_state :: instance_state
  in_sequence :: int
  in_expires_at_ms :: int
  in_reason :: string

definition deployment_instance_schema :: string where
  "deployment_instance_schema = ''ndnsf-di-deployment-instance-v2''"

definition make_deployment_instance :: "deployment_instance \<Rightarrow> py_error + deployment_instance" where
  "make_deployment_instance i =
     (if in_instance_id i = [] \<or> in_plan_digest i = [] \<or> in_provider i = []
         \<or> in_provider_boot_epoch i = [] \<or> in_role i = [] \<or> in_sequence i < 0 \<or> in_expires_at_ms i \<le> 0
      then Inl (ValueError ''invalid DeploymentInstance'')
      else Inr i)"

definition next_states :: "instance_state \<Rightarrow> instance_state set" where
  "next_states s = (case s of
       SELECTED \<Rightarrow> {VERIFYING} | VERIFYING \<Rightarrow> {LOADING} | LOADING \<Rightarrow> {WARMING} | WARMING \<Rightarrow> {READY}
     | READY \<Rightarrow> {ACTIVE} | ACTIVE \<Rightarrow> {EXECUTING} | EXECUTING \<Rightarrow> {COMPLETED} | _ \<Rightarrow> {})"

definition instance_transition :: "deployment_instance \<Rightarrow> instance_state \<Rightarrow> string
    \<Rightarrow> py_error + deployment_instance" where
  "instance_transition i state reason =
     (if state \<notin> next_states (in_state i) \<and> state \<notin> {FAILED, EXPIRED, RELEASED}
      then Inl (ValueError (''invalid deployment transition '' @ instance_state_value (in_state i)
             @ ''->'' @ instance_state_value state))
      else make_deployment_instance
        \<lparr>in_instance_id = in_instance_id i, in_plan_digest = in_plan_digest i,
         in_provider = in_provider i, in_provider_boot_epoch = in_provider_boot_epoch i,
         in_role = in_role i, in_state = state, in_sequence = in_sequence i + 1,
         in_expires_at_ms = in_expires_at_ms i, in_reason = reason\<rparr>)"

definition deployment_instance_to_dict :: "deployment_instance \<Rightarrow> (string, json) dict" where
  "deployment_instance_to_dict i =
     [(''instance_id'', JStr (in_instance_id i)), (''plan_digest'', JStr (in_plan_digest i)),
      (''provider'', JStr (in_provider i)), (''provider_boot_epoch'', JStr (in_provider_boot_epoch i)),
      (''role'', JStr (in_role i)), (''state'', JStr (instance_state_value (in_state i))),
      (''sequence'', JInt (in_sequence i)), (''expires_at_ms'', JInt (in_expires_at_ms i)),
      (''reason'', JStr (in_reason i))]"

definition deployment_instance_of_dict :: "(json \<Rightarrow> string) \<Rightarrow> (string, json) dict
    \<Rightarrow> py_error + deployment_instance" where
  "deployment_instance_of_dict rep d =
     sum_then (instance_state_of (str_field rep d ''state'')) (\<lambda>state.
     sum_then (int_field d ''sequence'' (- 1)) (\<lambda>sequence.
     sum_then (int_field d ''expires_at_ms'' 0) (\<lambda>expires.
       make_deployment_instance
         \<lparr>in_instance_id = str_field rep d ''instance_id'', in_plan_digest = str_field rep d ''plan_digest'',
          in_provider = str_field rep d ''provider'',
          in_provider_boot_epoch = str_field rep d ''provider_boot_epoch'',
          in_role = str_field rep d ''role'', in_state = state, in_sequence = sequence,
          in_expires_at_ms = expires, in_reason = str_field rep d ''reason''\<rparr>)))"

definition deployment_instance_from_bytes :: "(json \<Rightarrow> string) \<Rightarrow> string \<Rightarrow> py_error + deployment_instance" where
  "deployment_instance_from_bytes rep wire =
     sum_then (decode_contract wire deployment_instance_schema) (deployment_instance_of_dict rep)"

section \<open>Lifecycle events\<close>

definition lifecycle_event_types :: "string list" where
  "lifecycle_event_types = [
    ''REQUEST_CREATED'', ''REQUEST_PUBLISHED'', ''ACK_ACCEPTED'', ''ACK_REJECTED'',
    ''ACK_CLOSED'', ''GRAPH_INSPECTED'', ''PLAN_VALIDATED'', ''ARTIFACT_PUBLISHED'',
    ''PLAN_COMMITTED'', ''FINAL_SELECTION'', ''ROLE_ASSIGNED'',
    ''ARTIFACT_FETCHED'', ''VERIFIED_DISK'', ''HOST_RESIDENT'', ''GPU_RESIDENT'',
    ''LOCAL_READY'', ''DEPENDENCY_INPUT_ACCEPTED'', ''STAGE_EXECUTING'',
    ''STAGE_OUTPUT_PUBLISHED'', ''STAGE_COMPLETED'', ''TOKEN_RECORDED'',
    ''RESPONSE_PUBLISHED'', ''FAILURE_PUBLISHED'', ''CANCELED'', ''EXPIRED'',
    ''CLEANUP_RECORDED'']"

definition failure_code_prefixes :: "string list" where
  "failure_code_prefixes = [''ENV_'', ''BOOT_'', ''ROUTE_'', ''ACK_'', ''PLAN_'', ''REPO_PUBLISH_'',
    ''REPO_FETCH_'', ''PREP_'', ''DEPENDENCY_'', ''EXEC_'', ''TOKEN_'',
    ''RESPONSE_'', ''CLEANUP_'', ''ANALYZER_'']"

text \<open>
  A character for which \<open>isalnum\<close> holds and which \<open>upper\<close> leaves as it is: digits, upper case
  letters, and of the code points from 128 to 255 the ordinal indicators, the superscript
  digits, the fractions and the upper case letters.
\<close>

definition upper_alnum :: "char \<Rightarrow> bool" where
  "upper_alnum c \<longleftrightarrow> (let n = (of_char c :: nat) in
     (48 \<le> n \<and> n \<le> 57) \<or> (65 \<le> n \<and> n \<le> 90) \<or> n \<in> {170, 178, 179, 185, 186, 188, 189, 190}
     \<or> (192 \<le> n \<and> n \<le> 214) \<or> (216 \<le> n \<and> n \<le> 222))"

definition validate_lifecycle_failure_code :: "string \<Rightarrow> py_error + unit" where
  "validate_lifecycle_failure_code v =
     (let letters = filter (\<lambda>c. c \<noteq> CHR ''_'') v in
      require (v = ''UNRESOLVED_EVIDENCE_GAP''
          \<or> (letters \<noteq> [] \<and> list_all upper_alnum letters
             \<and> list_ex (\<lambda>prefix. starts_with v prefix \<and> length prefix < length v) failure_code_prefixes))
        (ValueError ''failure_code must identify an exact lifecycle boundary''))"

record lifecycle_event =
  le_experiment_id :: string
  le_request_id :: string
  le_attempt_epoch :: int
  le_event_id :: string
  le_event_type :: string
  le_component :: string
  le_provider :: "string option"
  le_provider_boot_epoch :: "string option"
  le_role :: "string option"
  le_plan_digest :: "string option"
  le_operation_id :: "string option"
  le_epoch :: int
  le_sequence :: int
  le_monotonic_ns :: int
  le_wall_time_utc :: string
  le_authenticated :: bool
  le_details_schema :: string
  le_details :: "(string, json) dict"

definition given :: "string option \<Rightarrow> bool" where
  "given v \<longleftrightarrow> v \<noteq> None \<and> v \<noteq> Some []"

definition make_lifecycle_event :: "(json \<Rightarrow> string) \<Rightarrow> lifecycle_event \<Rightarrow> py_error + lifecycle_event" where
  "make_lifecycle_event rep e =
     (let scoped = [le_provider e, le_provider_boot_epoch e, le_role e] in
      if [] \<in> {le_experiment_id e, le_request_id e, le_event_id e, le_component e, le_wall_time_utc e,
               le_details_schema e}
      then Inl (ValueError ''lifecycle event identities are required'')
      else if le_attempt_epoch e \<le> 0 \<or> le_epoch e < 0 \<or> le_sequence e \<le> 0
      then Inl (ValueError ''lifecycle event epochs and sequence are invalid'')
      else if le_monotonic_ns e < 0
      then Inl (ValueError ''lifecycle event monotonic_ns is invalid'')
      else if le_event_type e \<notin> set lifecycle_event_types
      then Inl (ValueError ''unsupported lifecycle event_type'')
      else if list_ex (\<lambda>v. v \<noteq> None) scoped \<and> \<not> list_all given scoped
      then Inl (ValueError ''provider, boot epoch and role form one binding'')
      else sum_then (case le_plan_digest e of None \<Rightarrow> Inr () | Some v \<Rightarrow> require_sha256 v ''plan_digest'') (\<lambda>_.
        if le_operation_id e = None \<and> le_epoch e \<noteq> 0
        then Inl (ValueError ''operation epoch requires operation_id'')
        else if le_event_type e = ''FAILURE_PUBLISHED''
        then sum_then (validate_lifecycle_failure_code (str_field rep (le_details e) ''failure_code''))
               (\<lambda>_. Inr e)
        else Inr e))"

section \<open>Reading a contract's own fields\<close>

lemma field_or_simps [simp]:
  "field_or [] k v = v" "field_or ((j, w) # e) k v = (if j = k then w else field_or e k v)"
  by (simp_all add: field_or_def)

lemma sorted_dict_ok [simp]: "dict_ok (sort_key fst d) \<longleftrightarrow> dict_ok d"
  by (simp add: dict_ok_def distinct_map)

lemma dict_map_sort: "sort_key fst (dict_map f d) = dict_map f (sort_key fst d)"
  using sort_key_map_prod [of f d] by (simp add: dict_map_def map_prod_def)

lemma json_norm_dict [simp]:
  "sort_key fst (map (map_prod id json_norm) (dict_map f d)) = dict_map (\<lambda>v. json_norm (f v)) (sort_key fst d)"
proof -
  have "map (map_prod id json_norm) (dict_map f d) = dict_map (\<lambda>v. json_norm (f v)) d"
    by (simp add: dict_map_def map_prod_def case_prod_beta)
  then show ?thesis by (simp add: dict_map_sort)
qed

lemma json_norm_strings [simp]: "json_norm (JList (map JStr xs)) = JList (map JStr xs)"
  by simp

lemma json_distinct_dict [simp]:
  "list_all snd (map (map_prod id json_distinct) (dict_map f d)) \<longleftrightarrow> (\<forall>v \<in> snd ` set d. json_distinct (f v))"
  by (auto simp: dict_map_def list_all_iff case_prod_beta)

lemma json_distinct_items [simp]:
  "list_all id (map (json_distinct \<circ> g) xs) \<longleftrightarrow> (\<forall>x \<in> set xs. json_distinct (g x))"
  by (auto simp: list_all_iff)

lemma dict_map_id: "(\<And>v. v \<in> set (dict_values d) \<Longrightarrow> f v = v) \<Longrightarrow> dict_map f d = d"
  by (induction d) (auto simp: dict_map_def)

lemma dict_map_comp: "dict_map f (dict_map g d) = dict_map (\<lambda>v. f (g v)) d"
  by (simp add: dict_map_def case_prod_beta)

lemma str_of_strings [simp]: "py_str rep (JStr s) = s"
  by (simp add: py_str_def)

lemma str_list_own:
  "field_or d k (JList []) = JList (map JStr xs) \<Longrightarrow> str_list_field rep d k = Inr xs"
  by (simp add: str_list_field_def py_iter_def comp_def)

lemma int_own: "field_or d k (JInt i) = JInt j \<Longrightarrow> int_field d k i = Inr j"
  by (simp add: int_field_def py_int_def)

lemma object_items_own:
  assumes "field_or d k (JList []) = json_norm (JList (map (\<lambda>x. JObj (g x)) xs))"
    and "\<And>x. x \<in> set xs \<Longrightarrow> distinct (map fst (g x))"
    and "\<And>x item. x \<in> set xs \<Longrightarrow> (\<And>j v. json_norm v = v \<Longrightarrow>
      field_or item j v = json_norm (field_or (g x) j v)) \<Longrightarrow> f item = Inr x"
  shows "object_items f d k = Inr xs"
proof -
  have "sum_map (\<lambda>v. case v of JObj item \<Rightarrow> f item
      | _ \<Rightarrow> Inl (AttributeError ''object has no attribute get'')) (map (\<lambda>x. json_norm (JObj (g x))) xs) = Inr xs"
    using assms(2,3)
  proof (induction xs)
    case (Cons x xs)
    have "f (sort_key fst (map (map_prod id json_norm) (g x))) = Inr x"
      by (rule Cons.prems(2)) (auto intro!: field_or_norm dict_get_norm Cons.prems(1))
    with Cons show ?case by simp
  qed simp
  then show ?thesis unfolding object_items_def assms(1) by (simp add: py_iter_def comp_def)
qed

lemma sum_map_own: "(\<And>x. x \<in> set xs \<Longrightarrow> f (g x) = Inr x) \<Longrightarrow> sum_map f (map g xs) = Inr xs"
  by (induction xs) auto

section \<open>The decoded contracts\<close>

text \<open>
  \<open>c_wf\<close>: the contract and its parts pass their validators and its mappings have distinct keys.
  \<open>c_canon\<close>: its mappings in key order.
\<close>

definition core_plan_wf :: "core_plan \<Rightarrow> bool" where
  "core_plan_wf p \<longleftrightarrow> make_core_plan p = Inr p \<and> dict_ok (cp_artifact_digests p)
     \<and> (\<forall>d \<in> set (cp_dependencies p). make_plan_dependency d = Inr d)"

definition core_plan_canon :: "core_plan \<Rightarrow> core_plan" where
  "core_plan_canon p = p\<lparr>cp_artifact_digests := sort_key fst (cp_artifact_digests p)\<rparr>"

lemma plan_dependency_own:
  assumes "make_plan_dependency x = Inr x"
    and "\<And>j v. json_norm v = v \<Longrightarrow> field_or d j v = json_norm (field_or (plan_dependency_to_dict x) j v)"
  shows "plan_dependency_of_dict rep d = Inr x"
  using assms(1)
  by (cases x) (simp add: plan_dependency_of_dict_def str_field_def assms(2) plan_dependency_to_dict_def)

lemma core_plan_make_canon: "make_core_plan p = Inr p \<Longrightarrow> make_core_plan (core_plan_canon p) = Inr (core_plan_canon p)"
  by (simp add: make_core_plan_def core_plan_canon_def split: if_splits)

interpretation core_plan_wire: wire_contract core_plan_schema core_plan_to_dict
  "core_plan_of_dict rep dict_of" core_plan_canon core_plan_wf
  for rep :: "json \<Rightarrow> string" and dict_of :: "json \<Rightarrow> py_error + (string, json) dict"
proof
  fix x d
  assume wf: "core_plan_wf x"
  have deps: "json_distinct (JObj (plan_dependency_to_dict y))" for y
    by (simp add: plan_dependency_to_dict_def)
  show "json_distinct (JObj (core_plan_to_dict x))"
    using wf by (simp add: core_plan_to_dict_def core_plan_wf_def plan_dependency_to_dict_def dict_ok_def)
  show "\<not> dict_has (core_plan_to_dict x) ''schema''" by (simp add: dict_has_def core_plan_to_dict_def)
  assume own: "\<And>k v. k \<noteq> ''schema'' \<Longrightarrow> json_norm v = v \<Longrightarrow> field_or d k v = json_norm (field_or (core_plan_to_dict x) k v)"
  have "str_list_field rep d ''roles'' = Inr (cp_roles x)"
    by (rule str_list_own) (simp add: own core_plan_to_dict_def)
  moreover have "object_items (plan_dependency_of_dict rep) d ''dependencies'' = Inr (cp_dependencies x)"
    using wf by (intro object_items_own [where g = plan_dependency_to_dict])
      (auto simp: own core_plan_to_dict_def core_plan_wf_def deps [simplified] intro: plan_dependency_own)
  moreover have "py_dict dict_of (field_or d ''artifact_digests'' (JObj []))
      = Inr (dict_map JStr (sort_key fst (cp_artifact_digests x)))"
    by (simp add: own core_plan_to_dict_def py_dict_def)
  moreover have "dict_map (\<lambda>v. py_str rep (JStr v)) e = e" for e :: "(string, string) dict"
    by (rule dict_map_id) simp
  ultimately show "core_plan_of_dict rep dict_of d = Inr (core_plan_canon x)"
    using core_plan_make_canon [of x] wf
    by (cases x) (simp add: core_plan_of_dict_def core_plan_wf_def core_plan_canon_def str_field_def own
        core_plan_to_dict_def dict_map_comp)
qed

definition core_assignment_wf :: "core_assignment \<Rightarrow> bool" where
  "core_assignment_wf a \<longleftrightarrow> make_core_assignment a = Inr a
     \<and> (\<forall>p \<in> set (ca_providers a). make_provider_assignment p = Inr p)"

lemma provider_assignment_own:
  assumes "make_provider_assignment x = Inr x"
    and "\<And>j v. json_norm v = v \<Longrightarrow> field_or d j v = json_norm (field_or (provider_assignment_to_dict x) j v)"
  shows "provider_assignment_of_dict rep d = Inr x"
  using assms(1)
  by (cases x) (simp add: provider_assignment_of_dict_def str_field_def assms(2) provider_assignment_to_dict_def)

interpretation core_assignment_wire: wire_contract core_assignment_schema core_assignment_to_dict
  "core_assignment_of_dict rep" id core_assignment_wf for rep :: "json \<Rightarrow> string"
proof
  fix x d
  assume wf: "core_assignment_wf x"
  show "json_distinct (JObj (core_assignment_to_dict x))"
    by (simp add: core_assignment_to_dict_def provider_assignment_to_dict_def)
  show "\<not> dict_has (core_assignment_to_dict x) ''schema''"
    by (simp add: dict_has_def core_assignment_to_dict_def)
  assume own: "\<And>k v. k \<noteq> ''schema'' \<Longrightarrow> json_norm v = v \<Longrightarrow>
    field_or d k v = json_norm (field_or (core_assignment_to_dict x) k v)"
  have "int_field d ''attempt_epoch'' 0 = Inr (ca_attempt_epoch x)"
    by (rule int_own) (simp add: own core_assignment_to_dict_def)
  moreover have "object_items (provider_assignment_of_dict rep) d ''providers'' = Inr (ca_providers x)"
    using wf by (intro object_items_own [where g = provider_assignment_to_dict])
      (auto simp: own core_assignment_to_dict_def core_assignment_wf_def intro: provider_assignment_own,
       simp_all add: provider_assignment_to_dict_def)
  ultimately show "core_assignment_of_dict rep d = Inr (id x)"
    using wf by (cases x) (simp add: core_assignment_of_dict_def core_assignment_wf_def str_field_def own
        core_assignment_to_dict_def)
qed

interpretation assignment_context_wire: wire_contract assignment_context_schema assignment_context_to_dict
  "assignment_context_of_dict rep" id "\<lambda>c. make_assignment_context c = Inr c" for rep :: "json \<Rightarrow> string"
proof
  fix x d
  assume wf: "make_assignment_context x = Inr x"
  show "json_distinct (JObj (assignment_context_to_dict x))"
    by (auto simp: assignment_context_to_dict_def)
  show "\<not> dict_has (assignment_context_to_dict x) ''schema''"
    by (simp add: dict_has_def assignment_context_to_dict_def)
  assume own: "\<And>k v. k \<noteq> ''schema'' \<Longrightarrow> json_norm v = v \<Longrightarrow>
    field_or d k v = json_norm (field_or (assignment_context_to_dict x) k v)"
  have "int_field d ''attempt_epoch'' 0 = Inr (ac_attempt_epoch x)"
    "int_field d ''original_deadline_ms'' 0 = Inr (ac_original_deadline_ms x)"
    by (rule int_own, simp add: own assignment_context_to_dict_def)+
  moreover have "str_list_field rep d ''excluded_providers'' = Inr (ac_excluded_providers x)"
    by (rule str_list_own) (simp add: own assignment_context_to_dict_def)
  moreover have "sum_then (py_iter (field_or d ''role_providers'' (JList []))) (sum_map (pair_item rep))
      = Inr (ac_role_providers x)"
  proof -
    have "py_iter (field_or d ''role_providers'' (JList [])) =
        Inr (map (\<lambda>(r, p). JList [JStr r, JStr p]) (ac_role_providers x))"
      by (simp add: own assignment_context_to_dict_def py_iter_def case_prod_beta)
    moreover have "sum_map (pair_item rep) (map (\<lambda>(r, p). JList [JStr r, JStr p]) (ac_role_providers x))
        = Inr (ac_role_providers x)"
      by (rule sum_map_own) (auto simp: pair_item_def)
    ultimately show ?thesis by simp
  qed
  ultimately show "assignment_context_of_dict rep d = Inr (id x)"
    using wf by (cases x) (simp add: assignment_context_of_dict_def str_field_def own assignment_context_to_dict_def)
qed

definition orphan_cleanup_wf :: "orphan_cleanup \<Rightarrow> bool" where
  "orphan_cleanup_wf r \<longleftrightarrow> make_orphan_cleanup r = Inr r \<and> dict_ok (oc_reclaimed r)
     \<and> dict_ok (oc_tombstone_high_watermarks r)"

definition orphan_cleanup_canon :: "orphan_cleanup \<Rightarrow> orphan_cleanup" where
  "orphan_cleanup_canon r = r\<lparr>oc_reclaimed := sort_key fst (oc_reclaimed r),
     oc_tombstone_high_watermarks := sort_key fst (oc_tombstone_high_watermarks r)\<rparr>"

lemma dict_convert_own:
  "(\<And>v. v \<in> set (dict_values d) \<Longrightarrow> f (g v) = Inr v) \<Longrightarrow> dict_convert f (dict_map g d) = Inr d"
  by (induction d) (auto simp: dict_convert_def dict_map_def)

interpretation orphan_cleanup_wire: wire_contract orphan_cleanup_schema orphan_cleanup_to_dict
  "orphan_cleanup_of_dict rep dict_of" orphan_cleanup_canon orphan_cleanup_wf
  for rep :: "json \<Rightarrow> string" and dict_of :: "json \<Rightarrow> py_error + (string, json) dict"
proof
  fix x d
  assume wf: "orphan_cleanup_wf x"
  then show "json_distinct (JObj (orphan_cleanup_to_dict x))"
    by (simp add: orphan_cleanup_to_dict_def orphan_cleanup_wf_def dict_ok_def)
  show "\<not> dict_has (orphan_cleanup_to_dict x) ''schema''"
    by (simp add: dict_has_def orphan_cleanup_to_dict_def)
  assume own: "\<And>k v. k \<noteq> ''schema'' \<Longrightarrow> json_norm v = v \<Longrightarrow>
    field_or d k v = json_norm (field_or (orphan_cleanup_to_dict x) k v)"
  have "int_field d ''swept_at_ms'' 0 = Inr (oc_swept_at_ms x)"
    "int_field d ''tombstones_expire_at_ms'' 0 = Inr (oc_tombstones_expire_at_ms x)"
    "int_field d ''next_retry_at_ms'' 0 = Inr (oc_next_retry_at_ms x)"
    by (rule int_own, simp add: own orphan_cleanup_to_dict_def)+
  moreover have "py_dict dict_of (field_or d ''reclaimed'' (JObj []))
      = Inr (dict_map (\<lambda>ids. JList (map JStr ids)) (sort_key fst (oc_reclaimed x)))"
    "py_dict dict_of (field_or d ''tombstone_high_watermarks'' (JObj []))
      = Inr (dict_map JInt (sort_key fst (oc_tombstone_high_watermarks x)))"
    by (simp_all add: own orphan_cleanup_to_dict_def py_dict_def comp_def)
  moreover have "dict_convert (\<lambda>v. sum_then (py_iter v) (\<lambda>xs. Inr (map (py_str rep) xs)))
      (dict_map (\<lambda>ids. JList (map JStr ids)) e) = Inr e" for e :: "(string, string list) dict"
    by (rule dict_convert_own) (simp add: py_iter_def comp_def)
  moreover have "dict_convert py_int (dict_map JInt e) = Inr e" for e :: "(string, int) dict"
    by (rule dict_convert_own) (simp add: py_int_def)
  moreover have "make_orphan_cleanup (orphan_cleanup_canon x) = Inr (orphan_cleanup_canon x)"
    using wf by (simp add: orphan_cleanup_wf_def make_orphan_cleanup_def orphan_cleanup_canon_def split: if_splits)
  ultimately show "orphan_cleanup_of_dict rep dict_of d = Inr (orphan_cleanup_canon x)"
    by (cases x) (simp add: orphan_cleanup_of_dict_def orphan_cleanup_canon_def str_field_def own
        orphan_cleanup_to_dict_def)
qed

lemma instance_state_of_value [simp]: "instance_state_of (instance_state_value s) = Inr s"
  by (cases s) (simp_all add: instance_state_of_def instance_state_value_def instance_states_def)

interpretation deployment_instance_wire: wire_contract deployment_instance_schema deployment_instance_to_dict
  "deployment_instance_of_dict rep" id "\<lambda>i. make_deployment_instance i = Inr i" for rep :: "json \<Rightarrow> string"
proof
  fix x d
  assume wf: "make_deployment_instance x = Inr x"
  show "json_distinct (JObj (deployment_instance_to_dict x))"
    by (simp add: deployment_instance_to_dict_def)
  show "\<not> dict_has (deployment_instance_to_dict x) ''schema''"
    by (simp add: dict_has_def deployment_instance_to_dict_def)
  assume own: "\<And>k v. k \<noteq> ''schema'' \<Longrightarrow> json_norm v = v \<Longrightarrow>
    field_or d k v = json_norm (field_or (deployment_instance_to_dict x) k v)"
  have "int_field d ''sequence'' (- 1) = Inr (in_sequence x)"
    "int_field d ''expires_at_ms'' 0 = Inr (in_expires_at_ms x)"
    by (rule int_own, simp add: own deployment_instance_to_dict_def)+
  then show "deployment_instance_of_dict rep d = Inr (id x)"
    using wf by (cases x) (simp add: deployment_instance_of_dict_def str_field_def own deployment_instance_to_dict_def)
qed

definition deployment_plan_wf :: "deployment_plan \<Rightarrow> bool" where
  "deployment_plan_wf p \<longleftrightarrow> make_deployment_plan p = Inr p \<and> dict_ok (dp_status_handles p)
     \<and> (\<forall>a \<in> set (dp_assignments p). make_provider_assignment a = Inr a)"

definition deployment_plan_canon :: "deployment_plan \<Rightarrow> deployment_plan" where
  "deployment_plan_canon p = p\<lparr>dp_status_handles := sort_key fst (dp_status_handles p)\<rparr>"

lemma provider_assignment_kwargs_own:
  assumes "make_provider_assignment a = Inr a"
  shows "provider_assignment_of_kwargs (json_norm (JObj (provider_assignment_to_dict a))) = Inr a"
proof -
  let ?d = "sort_key fst (map (map_prod id json_norm) (provider_assignment_to_dict a))"
  have "distinct (map fst (provider_assignment_to_dict a))" by (simp add: provider_assignment_to_dict_def)
  note get = dict_get_norm [OF this]
  have "set (dict_keys ?d) \<subseteq> {''role'', ''provider'', ''provider_boot_epoch'', ''lease_id'', ''resource_binding_digest''}"
    by (simp add: provider_assignment_to_dict_def)
  moreover have "keyword_argument ?d ''role'' v = Inr (pa_role a)" "keyword_argument ?d ''provider'' v = Inr (pa_provider a)"
    "keyword_argument ?d ''provider_boot_epoch'' v = Inr (pa_provider_boot_epoch a)"
    "keyword_argument ?d ''lease_id'' v = Inr (pa_lease_id a)"
    "keyword_argument ?d ''resource_binding_digest'' v = Inr (pa_resource_binding_digest a)" for v
    unfolding keyword_argument_def get by (simp_all add: provider_assignment_to_dict_def)
  ultimately show ?thesis using assms
    by (cases a) (simp add: provider_assignment_of_kwargs_def del: set_map)
qed

interpretation deployment_plan_wire: wire_contract deployment_plan_schema deployment_plan_to_dict
  "deployment_plan_of_dict rep dict_of" deployment_plan_canon deployment_plan_wf
  for rep :: "json \<Rightarrow> string" and dict_of :: "json \<Rightarrow> py_error + (string, json) dict"
proof
  fix x d
  assume wf: "deployment_plan_wf x"
  then show "json_distinct (JObj (deployment_plan_to_dict x))"
    by (simp add: deployment_plan_to_dict_def provider_assignment_to_dict_def deployment_plan_wf_def dict_ok_def)
  show "\<not> dict_has (deployment_plan_to_dict x) ''schema''"
    by (simp add: dict_has_def deployment_plan_to_dict_def)
  assume own: "\<And>k v. k \<noteq> ''schema'' \<Longrightarrow> json_norm v = v \<Longrightarrow>
    field_or d k v = json_norm (field_or (deployment_plan_to_dict x) k v)"
  have "int_field d ''attempt'' 0 = Inr (dp_attempt x)" "int_field d ''deadline_ms'' 0 = Inr (dp_deadline_ms x)"
    by (rule int_own, simp add: own deployment_plan_to_dict_def)+
  moreover have "str_list_field rep d ''artifact_digests'' = Inr (dp_artifact_digests x)"
    by (rule str_list_own) (simp add: own deployment_plan_to_dict_def comp_def)
  moreover have "sum_map provider_assignment_of_kwargs
      (map (\<lambda>a. json_norm (JObj (provider_assignment_to_dict a))) (dp_assignments x)) = Inr (dp_assignments x)"
    using wf by (intro sum_map_own) (auto simp: deployment_plan_wf_def simp del: json_norm.simps intro: provider_assignment_kwargs_own)
  then have "sum_then (py_iter (field_or d ''assignments'' (JList []))) (sum_map provider_assignment_of_kwargs)
      = Inr (dp_assignments x)"
    by (simp add: own deployment_plan_to_dict_def py_iter_def comp_def)
  moreover have "py_dict dict_of (field_or d ''status_handles'' (JObj []))
      = Inr (dict_map JStr (sort_key fst (dp_status_handles x)))"
    by (simp add: own deployment_plan_to_dict_def py_dict_def comp_def)
  moreover have "make_deployment_plan (deployment_plan_canon x) = Inr (deployment_plan_canon x)"
    using wf by (simp add: deployment_plan_wf_def make_deployment_plan_def deployment_plan_canon_def split: if_splits)
  ultimately show "deployment_plan_of_dict rep dict_of d = Inr (deployment_plan_canon x)"
    by (cases x) (simp add: deployment_plan_of_dict_def deployment_plan_canon_def str_field_def own
        deployment_plan_to_dict_def dict_map_comp dict_map_id)
qed

lemma deployment_plan_digest_canon:
  "deployment_plan_digest sha (deployment_plan_canon p) = deployment_plan_digest sha p"
proof -
  have "sort_key fst (sort_key fst (dp_status_handles p)) = sort_key fst (dp_status_handles p)"
    by (rule sort_key_id_if_sorted) (rule sorted_sort_key)
  then have "json_norm (JObj (with_schema deployment_plan_schema (deployment_plan_to_dict (deployment_plan_canon p))))
      = json_norm (JObj (with_schema deployment_plan_schema (deployment_plan_to_dict p)))"
    by (simp add: deployment_plan_to_dict_def deployment_plan_canon_def with_schema_def)
  then have "json_dumps (JObj (with_schema deployment_plan_schema (deployment_plan_to_dict (deployment_plan_canon p))))
      = json_dumps (JObj (with_schema deployment_plan_schema (deployment_plan_to_dict p)))"
    by (metis json_dumps_norm)
  then show ?thesis
    by (simp add: deployment_plan_digest_def contract_digest_of_def canonical_digest_def json_digest_def
        deployment_plan_schema_def del: json_dumps.simps)
qed

interpretation r1_wire: wire_contract schema r1_to_dict "r1_of_dict rep" "sort_key fst"
  "\<lambda>fs. make_r1 fs = Inr fs \<and> dict_ok fs" for schema :: string and rep :: "json \<Rightarrow> string"
proof
  fix x d
  assume wf: "make_r1 x = Inr x \<and> dict_ok x"
  then show "json_distinct (JObj (r1_to_dict x))" by (simp add: r1_to_dict_def dict_ok_def)
  show "\<not> dict_has (r1_to_dict x) ''schema''" by (simp add: dict_has_def r1_to_dict_def)
  assume own: "\<And>k v. k \<noteq> ''schema'' \<Longrightarrow> json_norm v = v \<Longrightarrow> field_or d k v = json_norm (field_or (r1_to_dict x) k v)"
  have "make_r1 (sort_key fst x) = Inr (sort_key fst x)"
    using wf by (auto simp: make_r1_def list_ex_iff split: if_splits)
  moreover have "dict_map (\<lambda>v. py_str rep (JStr v)) e = e" for e :: "(string, string) dict"
    by (rule dict_map_id) simp
  ultimately show "r1_of_dict rep d = Inr (sort_key fst x)"
    by (simp add: r1_of_dict_def own r1_to_dict_def dict_map_comp)
qed

section \<open>Instance transitions\<close>

inductive instance_step :: "deployment_instance \<Rightarrow> deployment_instance \<Rightarrow> bool" where
  transition: "instance_transition i state reason = Inr j \<Longrightarrow> instance_step i j"

inductive_cases instance_stepE: "instance_step i j"

fun state_rank :: "instance_state \<Rightarrow> int" where
  "state_rank SELECTED = 0"
| "state_rank VERIFYING = 1"
| "state_rank LOADING = 2"
| "state_rank WARMING = 3"
| "state_rank READY = 4"
| "state_rank ACTIVE = 5"
| "state_rank EXECUTING = 6"
| "state_rank COMPLETED = 7"
| "state_rank _ = 8"

definition ended :: "instance_state \<Rightarrow> bool" where
  "ended s \<longleftrightarrow> s \<in> {FAILED, EXPIRED, RELEASED}"

definition selected_instance :: "deployment_instance \<Rightarrow> deployment_instance \<Rightarrow> bool" where
  "selected_instance i j \<longleftrightarrow> j = i \<and> in_state i = SELECTED"

definition tracks :: "deployment_instance \<Rightarrow> deployment_instance \<Rightarrow> bool" where
  "tracks i j \<longleftrightarrow> in_instance_id j = in_instance_id i \<and> in_plan_digest j = in_plan_digest i
     \<and> in_provider j = in_provider i \<and> in_provider_boot_epoch j = in_provider_boot_epoch i
     \<and> in_role j = in_role i \<and> in_expires_at_ms j = in_expires_at_ms i
     \<and> (if ended (in_state j) then in_sequence i < in_sequence j
        else in_sequence j = in_sequence i + state_rank (in_state j))"

lemma next_states_rank:
  "s \<in> next_states r \<Longrightarrow> \<not> ended r \<and> \<not> ended s \<and> state_rank s = state_rank r + 1"
  by (cases r) (auto simp: next_states_def ended_def)

lemma state_rank_nonneg: "0 \<le> state_rank s"
  by (cases s) simp_all

lemma tracks_selected: "selected_instance i j \<Longrightarrow> tracks i j"
  by (auto simp: selected_instance_def tracks_def ended_def)

lemma tracks_step:
  assumes "tracks i j" and "instance_step j k"
  shows "tracks i k"
proof -
  obtain state reason where "instance_transition j state reason = Inr k"
    using assms(2) by (rule instance_stepE)
  then have k: "k = \<lparr>in_instance_id = in_instance_id j, in_plan_digest = in_plan_digest j,
         in_provider = in_provider j, in_provider_boot_epoch = in_provider_boot_epoch j,
         in_role = in_role j, in_state = state, in_sequence = in_sequence j + 1,
         in_expires_at_ms = in_expires_at_ms j, in_reason = reason\<rparr>"
    and state: "state \<in> next_states (in_state j) \<or> ended state"
    by (auto simp: instance_transition_def make_deployment_instance_def ended_def split: if_splits)
  show ?thesis
  proof (cases "ended state")
    case True
    then have "in_sequence i \<le> in_sequence j"
      using assms(1) state_rank_nonneg [of "in_state j"] by (auto simp: tracks_def split: if_splits)
    with True assms(1) k show ?thesis by (simp add: tracks_def)
  next
    case False
    with state have "\<not> ended (in_state j)" "state_rank state = state_rank (in_state j) + 1"
      using next_states_rank by blast+
    with False assms(1) k show ?thesis by (simp add: tracks_def)
  qed
qed

interpretation instance_life: invariant_system "selected_instance i" instance_step "tracks i" for i
  by unfold_locales (rule tracks_selected tracks_step; assumption)+

section \<open>Properties\<close>

text \<open>
  Encoding a valid execution plan, assignment or assignment context with \<open>to_bytes\<close> and
  decoding the wire with \<open>from_bytes\<close> gives the same contract; the artifact digests of a plan
  come back in key order, the same mapping.
\<close>

lemma plan_contracts_roundtrip:
  assumes "core_plan_wf p" and "core_assignment_wf a" and "make_assignment_context c = Inr c"
  shows "core_plan_from_bytes rep dict_of (contract_to_bytes core_plan_schema (core_plan_to_dict p))
           = Inr (core_plan_canon p)
    \<and> core_assignment_from_bytes rep (contract_to_bytes core_assignment_schema (core_assignment_to_dict a)) = Inr a
    \<and> assignment_context_from_bytes rep
        (contract_to_bytes assignment_context_schema (assignment_context_to_dict c)) = Inr c"
  unfolding core_plan_from_bytes_def core_assignment_from_bytes_def assignment_context_from_bytes_def
  using core_plan_wire.wire_roundtrip [OF assms(1)] core_assignment_wire.wire_roundtrip [OF assms(2)]
    assignment_context_wire.wire_roundtrip [OF assms(3)] by simp

text \<open>
  The same for the records of a provider: a deployment instance comes back equal, a cleanup
  record and a bounded field container come back with their mappings in key order, under
  whichever schema of the field containers.
\<close>

lemma provider_records_roundtrip:
  assumes "make_deployment_instance i = Inr i" and "orphan_cleanup_wf r"
    and "make_r1 fs = Inr fs" and "dict_ok fs" and "schema \<in> set r1_schemas"
  shows "deployment_instance_from_bytes rep
           (contract_to_bytes deployment_instance_schema (deployment_instance_to_dict i)) = Inr i
    \<and> orphan_cleanup_from_bytes rep dict_of
        (contract_to_bytes orphan_cleanup_schema (orphan_cleanup_to_dict r)) = Inr (orphan_cleanup_canon r)
    \<and> r1_from_bytes rep schema (contract_to_bytes schema (r1_to_dict fs)) = Inr (sort_key fst fs)"
  unfolding deployment_instance_from_bytes_def orphan_cleanup_from_bytes_def r1_from_bytes_def
  using deployment_instance_wire.wire_roundtrip [OF assms(1)] orphan_cleanup_wire.wire_roundtrip [OF assms(2)]
    r1_wire.wire_roundtrip [OF conjI [OF assms(3,4)]] by simp


text \<open>
  The sequence number of a deployment instance records its way: from a SELECTED instance,
  whatever transitions follow, the identity and the expiry are kept, an instance that has not
  ended has made exactly the transitions of the chain SELECTED, VERIFYING, LOADING, WARMING,
  READY, ACTIVE, EXECUTING, COMPLETED up to its state, and an ended one at least one.
\<close>

lemma instance_sequence_exact:
  assumes "in_state i = SELECTED" and "instance_step\<^sup>*\<^sup>* i j"
  shows "in_instance_id j = in_instance_id i \<and> in_plan_digest j = in_plan_digest i
    \<and> in_provider j = in_provider i \<and> in_provider_boot_epoch j = in_provider_boot_epoch i
    \<and> in_role j = in_role i \<and> in_expires_at_ms j = in_expires_at_ms i
    \<and> (if in_state j \<in> {FAILED, EXPIRED, RELEASED} then in_sequence i < in_sequence j
       else in_sequence j = in_sequence i + state_rank (in_state j))"
proof -
  have "tracks i i" using assms(1) by (simp add: tracks_def ended_def)
  with instance_life.steps_inv [OF assms(2)] have "tracks i j" by blast
  then show ?thesis by (simp add: tracks_def ended_def)
qed

text \<open>
  The lifecycle table does not close: a terminal state may follow every state, so an instance
  that has COMPLETED can be marked FAILED and a RELEASED one EXPIRED, each with a new sequence
  number.
\<close>

lemma terminal_states_not_closed:
  "instance_transition \<lparr>in_instance_id = ''i'', in_plan_digest = ''d'', in_provider = ''p'',
      in_provider_boot_epoch = ''b'', in_role = ''r'', in_state = COMPLETED, in_sequence = 7,
      in_expires_at_ms = 1, in_reason = []\<rparr> FAILED ''late''
    = Inr \<lparr>in_instance_id = ''i'', in_plan_digest = ''d'', in_provider = ''p'',
      in_provider_boot_epoch = ''b'', in_role = ''r'', in_state = FAILED, in_sequence = 8,
      in_expires_at_ms = 1, in_reason = ''late''\<rparr>
   \<and> instance_transition \<lparr>in_instance_id = ''i'', in_plan_digest = ''d'', in_provider = ''p'',
      in_provider_boot_epoch = ''b'', in_role = ''r'', in_state = RELEASED, in_sequence = 8,
      in_expires_at_ms = 1, in_reason = []\<rparr> EXPIRED ''again''
    = Inr \<lparr>in_instance_id = ''i'', in_plan_digest = ''d'', in_provider = ''p'',
      in_provider_boot_epoch = ''b'', in_role = ''r'', in_state = EXPIRED, in_sequence = 9,
      in_expires_at_ms = 1, in_reason = ''again''\<rparr>"
  by (simp add: instance_transition_def make_deployment_instance_def)

section \<open>Witnesses\<close>

definition demo_core_plan :: core_plan where
  "demo_core_plan = \<lparr>cp_plan_id = ''p'', cp_model_id = ''m'', cp_roles = [''a'', ''b''],
     cp_dependencies = [\<lparr>pd_producer_role = ''a'', pd_consumer_role = ''b'', pd_key_scope = ''k'',
       pd_expected_digest = []\<rparr>],
     cp_artifact_digests = [(''z'', ''1''), (''y'', ''2'')], cp_revision = []\<rparr>"

definition demo_provider :: provider_assignment where
  "demo_provider = \<lparr>pa_role = ''a'', pa_provider = ''/p'', pa_provider_boot_epoch = ''boot'',
     pa_lease_id = ''l'', pa_resource_binding_digest = ''d''\<rparr>"

definition demo_core_assignment :: core_assignment where
  "demo_core_assignment = \<lparr>ca_assignment_id = ''x'', ca_request_id = ''r'', ca_attempt_epoch = 1,
     ca_plan_digest = ''d'', ca_providers = [demo_provider]\<rparr>"

definition demo_context :: assignment_context where
  "demo_context = \<lparr>ac_request_id = ''r'', ac_attempt_epoch = 1, ac_plan_digest = ''d'',
     ac_model_variant_id = ''v'', ac_role_providers = [(''a'', ''/p'')],
     ac_original_deadline_ms = 10, ac_excluded_providers = [''/q'']\<rparr>"

theorem plan_contracts_roundtrip_witness:
  "core_plan_from_bytes (\<lambda>_. []) (\<lambda>_. Inr []) (contract_to_bytes core_plan_schema (core_plan_to_dict demo_core_plan))
     = Inr (core_plan_canon demo_core_plan)
   \<and> core_assignment_from_bytes (\<lambda>_. [])
       (contract_to_bytes core_assignment_schema (core_assignment_to_dict demo_core_assignment)) = Inr demo_core_assignment
   \<and> assignment_context_from_bytes (\<lambda>_. [])
       (contract_to_bytes assignment_context_schema (assignment_context_to_dict demo_context)) = Inr demo_context"
proof (rule plan_contracts_roundtrip)
  show "core_plan_wf demo_core_plan"
    by (simp add: core_plan_wf_def make_core_plan_def make_plan_dependency_def demo_core_plan_def dict_ok_def)
  show "core_assignment_wf demo_core_assignment"
    by (simp add: core_assignment_wf_def make_core_assignment_def make_provider_assignment_def
        demo_core_assignment_def demo_provider_def)
  show "make_assignment_context demo_context = Inr demo_context"
    by (simp add: make_assignment_context_def demo_context_def)
qed

definition demo_instance :: deployment_instance where
  "demo_instance = \<lparr>in_instance_id = ''i'', in_plan_digest = ''d'', in_provider = ''p'',
      in_provider_boot_epoch = ''b'', in_role = ''r'', in_state = SELECTED, in_sequence = 3,
      in_expires_at_ms = 1, in_reason = []\<rparr>"

definition demo_cleanup :: orphan_cleanup where
  "demo_cleanup = \<lparr>oc_provider = ''p'', oc_provider_boot_epoch = ''b'', oc_sweep_id = ''s'',
     oc_swept_at_ms = 5, oc_reclaimed = [(''leases'', [''l1'', ''l2'']), (''cache_pins'', [])],
     oc_tombstone_high_watermarks = [(''r'', 2)], oc_tombstones_expire_at_ms = 9, oc_next_retry_at_ms = 0\<rparr>"

theorem provider_records_roundtrip_witness:
  "deployment_instance_from_bytes (\<lambda>_. [])
     (contract_to_bytes deployment_instance_schema (deployment_instance_to_dict demo_instance)) = Inr demo_instance
   \<and> orphan_cleanup_from_bytes (\<lambda>_. []) (\<lambda>_. Inr [])
       (contract_to_bytes orphan_cleanup_schema (orphan_cleanup_to_dict demo_cleanup)) = Inr (orphan_cleanup_canon demo_cleanup)
   \<and> r1_from_bytes (\<lambda>_. []) ''ndnsf-selection-decision-v1''
       (contract_to_bytes ''ndnsf-selection-decision-v1'' (r1_to_dict [(''b'', ''1''), (''a'', ''2'')]))
     = Inr (sort_key fst [(''b'', ''1''), (''a'', ''2'')])"
proof (rule provider_records_roundtrip)
  show "make_deployment_instance demo_instance = Inr demo_instance"
    by (simp add: make_deployment_instance_def demo_instance_def)
  show "orphan_cleanup_wf demo_cleanup"
    by (simp add: orphan_cleanup_wf_def make_orphan_cleanup_def demo_cleanup_def dict_ok_def)
  show "make_r1 [(''b'', ''1''), (''a'', ''2'')] = Inr [(''b'', ''1''), (''a'', ''2'')]"
    by (simp add: make_r1_def utf8_length_def)
qed (simp_all add: dict_ok_def r1_schemas_def)

definition demo_coordinator :: coordinator_binding where
  "demo_coordinator = \<lparr>cb_requester_identity = ''u'', cb_request_id = ''r'', cb_attempt_epoch = 1,
     cb_intent_digest = ''i'', cb_objective_digest = ''o'', cb_snapshot_digest = ''s'',
     cb_plan_digest = ''d'', cb_assignment_digest = ''a'', cb_execution_deadline_ms = 9,
     cb_result_rendezvous = ''x''\<rparr>"

definition demo_receipt :: provider_receipt where
  "demo_receipt = \<lparr>rc_operation = COMMIT, rc_requester_identity = ''u'', rc_request_id = ''r'',
     rc_attempt_epoch = 1, rc_intent_digest = ''i'', rc_provider = ''/p'',
     rc_provider_boot_epoch = ''boot'', rc_lease_id = ''l'', rc_lease_state = ''HELD'',
     rc_expires_at_ms = 9, rc_plan_digest = ''d'', rc_role = ''a'', rc_resource_binding_digest = ''d'',
     rc_idempotency_key = ''k'', rc_data_name = ''n'', rc_signer_certificate = ''c'',
     rc_wire_digest = ''w'', rc_status = True, rc_reason = ''OK''\<rparr>"

definition demo_certificate :: commit_certificate where
  "demo_certificate = \<lparr>cc_coordinator = demo_coordinator, cc_expected_members = [demo_provider],
     cc_commit_receipts = [demo_receipt], cc_output_visibility_epoch = 1\<rparr>"


definition demo_verifying :: deployment_instance where
  "demo_verifying = demo_instance\<lparr>in_state := VERIFYING, in_sequence := 4\<rparr>"

theorem instance_sequence_exact_witness:
  "in_sequence demo_verifying = in_sequence demo_instance + state_rank VERIFYING"
proof -
  have "instance_transition demo_instance VERIFYING [] = Inr demo_verifying"
    by (simp add: instance_transition_def make_deployment_instance_def next_states_def demo_instance_def
        demo_verifying_def)
  then have "instance_step\<^sup>*\<^sup>* demo_instance demo_verifying" by (auto intro: instance_step.transition)
  moreover have "in_state demo_instance = SELECTED" "in_state demo_verifying = VERIFYING"
    by (simp_all add: demo_instance_def demo_verifying_def)
  ultimately show ?thesis using instance_sequence_exact [of demo_instance demo_verifying] by simp
qed

end
