(* ===== verification/Ready_Set.thy ===== *)
theory Ready_Set
  imports Contracts
begin

text \<open>
  The ready-set protocol of core/execution.py: the requester's \<open>ReadySetCoordinator\<close>, the
  provider's \<open>ProviderActivationGate\<close>, the explicit rollback to it, and the executor that runs an
  activated plan.

  \<^item> The messages are the contracts ProviderReadyMessage, ReadyAcknowledgement, ReadySetMember
    and ExecutionActivateMessage of core/contracts.py.
  \<^item> The signature verifiers and the native adapter are parameters.
  \<^item> The coordinator refines a specification with two facts: which members are ready, and
    whether the plan is active, which it may become only when all are ready.
\<close>

section \<open>Messages\<close>

record ready_message =
  rm_request_id :: string
  rm_attempt :: int
  rm_selection_digest :: string
  rm_deployment_plan_digest :: string
  rm_provider :: string
  rm_provider_boot_epoch :: string
  rm_role :: string
  rm_artifact_digest :: string
  rm_operation_id :: string
  rm_sequence :: int
  rm_expires_at_ms :: int
  rm_signer :: string
  rm_signature :: string

definition make_ready_message :: "ready_message \<Rightarrow> py_error + ready_message" where
  "make_ready_message m =
     (if [] \<in> {rm_request_id m, rm_selection_digest m, rm_deployment_plan_digest m, rm_provider m,
                rm_provider_boot_epoch m, rm_role m, rm_artifact_digest m, rm_operation_id m,
                rm_signer m, rm_signature m}
         \<or> rm_attempt m \<le> 0 \<or> rm_sequence m \<le> 0 \<or> rm_expires_at_ms m \<le> 0
      then Inl (ValueError ''invalid ProviderReadyMessage'')
      else Inr m)"

definition ready_key :: "ready_message \<Rightarrow> string \<times> string" where
  "ready_key m = (rm_provider m, rm_role m)"

definition ready_message_to_dict :: "ready_message \<Rightarrow> (string, json) dict" where
  "ready_message_to_dict m =
     [(''request_id'', JStr (rm_request_id m)), (''attempt'', JInt (rm_attempt m)),
      (''selection_digest'', JStr (rm_selection_digest m)),
      (''deployment_plan_digest'', JStr (rm_deployment_plan_digest m)),
      (''provider'', JStr (rm_provider m)), (''provider_boot_epoch'', JStr (rm_provider_boot_epoch m)),
      (''role'', JStr (rm_role m)), (''artifact_digest'', JStr (rm_artifact_digest m)),
      (''operation_id'', JStr (rm_operation_id m)), (''sequence'', JInt (rm_sequence m)),
      (''expires_at_ms'', JInt (rm_expires_at_ms m)), (''signer'', JStr (rm_signer m)),
      (''signature'', JStr (rm_signature m))]"

definition ready_message_digest :: "hash \<Rightarrow> ready_message \<Rightarrow> string" where
  "ready_message_digest sha m =
     contract_digest_of sha ''ndnsf-di-provider-ready-v1'' (ready_message_to_dict m)"

record ready_ack =
  ra_ready_message_digest :: string
  ra_accepted :: bool
  ra_reason :: string
  ra_requester_identity :: string
  ra_sequence :: int
  ra_signature :: string

definition make_ready_ack :: "ready_ack \<Rightarrow> py_error + ready_ack" where
  "make_ready_ack a =
     (if ra_ready_message_digest a = [] \<or> ra_requester_identity a = [] \<or> ra_sequence a \<le> 0
         \<or> ra_signature a = []
      then Inl (ValueError ''invalid ReadyAcknowledgement'')
      else Inr a)"

record ready_member =
  me_provider :: string
  me_role :: string
  me_provider_boot_epoch :: string
  me_ready_message_digest :: string

definition make_ready_member :: "ready_member \<Rightarrow> py_error + ready_member" where
  "make_ready_member m =
     (if [] \<in> {me_provider m, me_role m, me_provider_boot_epoch m, me_ready_message_digest m}
      then Inl (ValueError ''invalid ReadySet member'')
      else Inr m)"

definition ready_member_to_dict :: "ready_member \<Rightarrow> (string, json) dict" where
  "ready_member_to_dict m =
     [(''provider'', JStr (me_provider m)), (''role'', JStr (me_role m)),
      (''provider_boot_epoch'', JStr (me_provider_boot_epoch m)),
      (''ready_message_digest'', JStr (me_ready_message_digest m))]"

record activate_message =
  am_requester_identity :: string
  am_request_id :: string
  am_attempt :: int
  am_selection_digest :: string
  am_deployment_plan_digest :: string
  am_members :: "ready_member list"
  am_deadline_ms :: int
  am_activation_sequence :: int
  am_signature :: string

definition make_activate_message :: "activate_message \<Rightarrow> py_error + activate_message" where
  "make_activate_message a =
     (if [] \<in> {am_requester_identity a, am_request_id a, am_selection_digest a,
                am_deployment_plan_digest a, am_signature a}
         \<or> am_attempt a \<le> 0 \<or> am_members a = [] \<or> am_deadline_ms a \<le> 0
         \<or> am_activation_sequence a \<le> 0
         \<or> \<not> distinct (map (\<lambda>m. (me_provider m, me_role m)) (am_members a))
      then Inl (ValueError ''invalid ExecutionActivateMessage'')
      else Inr a)"

definition activate_message_to_dict :: "activate_message \<Rightarrow> (string, json) dict" where
  "activate_message_to_dict a =
     [(''requester_identity'', JStr (am_requester_identity a)), (''request_id'', JStr (am_request_id a)),
      (''attempt'', JInt (am_attempt a)), (''selection_digest'', JStr (am_selection_digest a)),
      (''deployment_plan_digest'', JStr (am_deployment_plan_digest a)),
      (''members'', JList (map (\<lambda>m. JObj (ready_member_to_dict m)) (am_members a))),
      (''deadline_ms'', JInt (am_deadline_ms a)),
      (''activation_sequence'', JInt (am_activation_sequence a)),
      (''signature'', JStr (am_signature a))]"

definition activate_message_digest :: "hash \<Rightarrow> activate_message \<Rightarrow> string" where
  "activate_message_digest sha a =
     contract_digest_of sha ''ndnsf-di-execution-activate-v1'' (activate_message_to_dict a)"

definition ready_set_digest :: "hash \<Rightarrow> activate_message \<Rightarrow> string" where
  "ready_set_digest sha a = canonical_digest sha (JList (map (\<lambda>m. JObj (ready_member_to_dict m))
     (sort_key (\<lambda>m. (me_provider m, me_role m)) (am_members a))))"

section \<open>The coordinator\<close>

record ready_coordinator =
  rs_plan :: deployment_plan
  rs_accepted :: "(string \<times> string, ready_message) dict"
  rs_ack_sequence :: int
  rs_activation :: "activate_message option"
  rs_activation_count :: int

definition coordinator_init :: "deployment_plan \<Rightarrow> py_error + ready_coordinator" where
  "coordinator_init plan =
     (if dp_execution_policy plan \<noteq> LEGACY_READY_SET_V1
      then Inl (ValueError ''ReadySetCoordinator requires explicit LEGACY_READY_SET_V1'')
      else Inr \<lparr>rs_plan = plan, rs_accepted = [], rs_ack_sequence = 0, rs_activation = None,
                rs_activation_count = 0\<rparr>)"

definition expected_members :: "deployment_plan \<Rightarrow> (string \<times> string, provider_assignment) dict" where
  "expected_members plan = dict_of_list (map (\<lambda>a. ((pa_provider a, pa_role a), a)) (dp_assignments plan))"

definition ready_complete :: "ready_coordinator \<Rightarrow> bool" where
  "ready_complete s \<longleftrightarrow>
     set (dict_keys (rs_accepted s)) = set (map (\<lambda>a. (pa_provider a, pa_role a)) (dp_assignments (rs_plan s)))"

text \<open>The decision of \<open>accept\<close>: whether the message is accepted, the reason, and whether it is stored.\<close>

definition ready_verdict :: "hash \<Rightarrow> (ready_message \<Rightarrow> bool) \<Rightarrow> ready_message \<Rightarrow> int
    \<Rightarrow> ready_coordinator \<Rightarrow> bool \<times> string \<times> bool" where
  "ready_verdict sha verifier m now_ms s =
     (case dict_get (expected_members (rs_plan s)) (ready_key m) of
        None \<Rightarrow> (False, ''UNSELECTED_MEMBER'', False)
      | Some a \<Rightarrow>
          if rm_request_id m \<noteq> dp_request_id (rs_plan s)
             \<or> rm_attempt m \<noteq> dp_attempt (rs_plan s)
             \<or> rm_selection_digest m \<noteq> dp_selection_digest (rs_plan s)
             \<or> rm_deployment_plan_digest m \<noteq> deployment_plan_digest sha (rs_plan s)
             \<or> rm_provider_boot_epoch m \<noteq> pa_provider_boot_epoch a
          then (False, ''BINDING_MISMATCH'', False)
          else if rm_expires_at_ms m \<le> now_ms then (False, ''EXPIRED'', False)
          else if \<not> verifier m then (False, ''SIGNATURE_INVALID'', False)
          else (case dict_get (rs_accepted s) (ready_key m) of
                  None \<Rightarrow> (True, ''OK'', True)
                | Some previous \<Rightarrow>
                    if ready_message_digest sha previous \<noteq> ready_message_digest sha m
                    then (False, ''CONFLICTING_READY'', False)
                    else (True, ''OK'', False)))"

definition coordinator_accept :: "hash \<Rightarrow> (ready_message \<Rightarrow> bool) \<Rightarrow> ready_message \<Rightarrow> int
    \<Rightarrow> ready_coordinator \<Rightarrow> (ready_ack, ready_coordinator) outcome" where
  "coordinator_accept sha verifier m now_ms s =
     (let n = rs_ack_sequence s + 1;
          (accepted, reason, stored) = ready_verdict sha verifier m now_ms s;
          s1 = s\<lparr>rs_ack_sequence := n\<rparr>;
          s2 = (if stored then s1\<lparr>rs_accepted := dict_set (ready_key m) m (rs_accepted s)\<rparr> else s1)
      in (make_ready_ack
            \<lparr>ra_ready_message_digest = ready_message_digest sha m, ra_accepted = accepted,
             ra_reason = reason, ra_requester_identity = dp_requester_identity (rs_plan s),
             ra_sequence = n, ra_signature = ''requester-signature:'' @ str_int n\<rparr>, s2))"

definition assignment_member :: "hash \<Rightarrow> ready_coordinator \<Rightarrow> provider_assignment \<Rightarrow> py_error + ready_member" where
  "assignment_member sha s a = (case dict_get (rs_accepted s) (pa_provider a, pa_role a) of
       None \<Rightarrow> Inl KeyError
     | Some m \<Rightarrow> make_ready_member
         \<lparr>me_provider = pa_provider a, me_role = pa_role a,
          me_provider_boot_epoch = pa_provider_boot_epoch a,
          me_ready_message_digest = ready_message_digest sha m\<rparr>)"

definition activation_candidate :: "hash \<Rightarrow> int \<Rightarrow> string \<Rightarrow> ready_coordinator \<Rightarrow> py_error + activate_message" where
  "activation_candidate sha sequence signature s =
     sum_then (sum_map (assignment_member sha s) (dp_assignments (rs_plan s))) (\<lambda>members.
       make_activate_message
         \<lparr>am_requester_identity = dp_requester_identity (rs_plan s),
          am_request_id = dp_request_id (rs_plan s), am_attempt = dp_attempt (rs_plan s),
          am_selection_digest = dp_selection_digest (rs_plan s),
          am_deployment_plan_digest = deployment_plan_digest sha (rs_plan s),
          am_members = sort_key (\<lambda>m. (me_provider m, me_role m)) members,
          am_deadline_ms = dp_deadline_ms (rs_plan s), am_activation_sequence = sequence,
          am_signature = signature\<rparr>)"

definition coordinator_activate :: "hash \<Rightarrow> int \<Rightarrow> string \<Rightarrow> int \<Rightarrow> ready_coordinator
    \<Rightarrow> (activate_message, ready_coordinator) outcome" where
  "coordinator_activate sha sequence signature now_ms s =
     (if \<not> ready_complete s then (Inl (RuntimeError ''cannot activate an incomplete ReadySet''), s)
      else if dp_deadline_ms (rs_plan s) \<le> now_ms
      then (Inl (RuntimeError ''cannot activate an expired DeploymentPlan''), s)
      else (case activation_candidate sha sequence signature s of
              Inl e \<Rightarrow> (Inl e, s)
            | Inr candidate \<Rightarrow>
                (case rs_activation s of
                   None \<Rightarrow> (Inr candidate, s\<lparr>rs_activation_count := rs_activation_count s + 1,
                             rs_activation := Some candidate\<rparr>)
                 | Some a \<Rightarrow>
                     if activate_message_digest sha a \<noteq> activate_message_digest sha candidate
                     then (Inl (RuntimeError ''conflicting execution activation''), s)
                     else (Inr candidate, s\<lparr>rs_activation := Some candidate\<rparr>))))"

section \<open>The gate\<close>

record activation_gate =
  ag_plan :: deployment_plan
  ag_provider :: string
  ag_role :: string
  ag_accepted_digest :: string
  ag_activation_count :: int

definition gate_init :: "deployment_plan \<Rightarrow> string \<Rightarrow> string \<Rightarrow> py_error + activation_gate" where
  "gate_init plan provider role =
     (if dp_execution_policy plan \<noteq> LEGACY_READY_SET_V1
      then Inl (ValueError ''ProviderActivationGate requires explicit LEGACY_READY_SET_V1'')
      else Inr \<lparr>ag_plan = plan, ag_provider = provider, ag_role = role, ag_accepted_digest = [],
                ag_activation_count = 0\<rparr>)"

definition activation_bound :: "hash \<Rightarrow> (activate_message \<Rightarrow> bool) \<Rightarrow> deployment_plan \<Rightarrow> int
    \<Rightarrow> activate_message \<Rightarrow> bool" where
  "activation_bound sha verifier plan now_ms a \<longleftrightarrow>
     am_requester_identity a = dp_requester_identity plan
     \<and> am_request_id a = dp_request_id plan
     \<and> am_attempt a = dp_attempt plan
     \<and> am_selection_digest a = dp_selection_digest plan
     \<and> am_deployment_plan_digest a = deployment_plan_digest sha plan
     \<and> am_deadline_ms a = dp_deadline_ms plan
     \<and> now_ms < am_deadline_ms a
     \<and> verifier a"

definition gate_validate :: "hash \<Rightarrow> (activate_message \<Rightarrow> bool) \<Rightarrow> activate_message \<Rightarrow> int
    \<Rightarrow> activation_gate \<Rightarrow> (bool, activation_gate) outcome" where
  "gate_validate sha verifier a now_ms g =
     (if \<not> list_ex (\<lambda>x. pa_provider x = ag_provider g \<and> pa_role x = ag_role g) (dp_assignments (ag_plan g))
      then (Inl (ValueError ''Provider role is not selected''), g)
      else if \<not> activation_bound sha verifier (ag_plan g) now_ms a
      then (Inl (ValueError ''execution activation binding or authority failed''), g)
      else if set (map (\<lambda>x. (pa_provider x, pa_role x, pa_provider_boot_epoch x)) (dp_assignments (ag_plan g)))
           \<noteq> set (map (\<lambda>m. (me_provider m, me_role m, me_provider_boot_epoch m)) (am_members a))
      then (Inl (ValueError ''execution activation ReadySet is incomplete''), g)
      else let digest = activate_message_digest sha a in
        if ag_accepted_digest g \<noteq> [] \<and> ag_accepted_digest g \<noteq> digest
        then (Inl (ValueError ''conflicting execution activation''), g)
        else if ag_accepted_digest g = digest then (Inr False, g)
        else (Inr True, g\<lparr>ag_activation_count := ag_activation_count g + 1, ag_accepted_digest := digest\<rparr>))"

section \<open>Rollback\<close>

definition new_legacy_rollback_plan :: "deployment_plan \<Rightarrow> string \<Rightarrow> provider_assignment list \<Rightarrow> string
    \<Rightarrow> int \<Rightarrow> (string, string) dict option \<Rightarrow> py_error + deployment_plan" where
  "new_legacy_rollback_plan current request_id assignments selection_digest deadline_ms status_handles =
     (if dp_execution_policy current \<noteq> DATA_DRIVEN_V2
      then Inl (ValueError ''rollback source must use DATA_DRIVEN_V2'')
      else if request_id = [] \<or> request_id = dp_request_id current
      then Inl (ValueError ''V1 rollback requires a new request_id'')
      else if selection_digest = [] \<or> selection_digest = dp_selection_digest current
      then Inl (ValueError ''V1 rollback requires a new selection_digest'')
      else if deadline_ms \<le> 0
      then Inl (ValueError ''V1 rollback requires a positive deadline'')
      else if assignments = [] \<or> assignments = dp_assignments current
      then Inl (ValueError ''V1 rollback requires fresh assignments'')
      else make_deployment_plan (current\<lparr>dp_request_id := request_id, dp_attempt := 1,
             dp_assignments := assignments, dp_deadline_ms := deadline_ms,
             dp_selection_digest := selection_digest,
             dp_status_handles := (case status_handles of None \<Rightarrow> [] | Some h \<Rightarrow> h),
             dp_execution_policy := LEGACY_READY_SET_V1\<rparr>))"

section \<open>The executor\<close>

record execution_result =
  er_payload :: string
  er_evidence :: "execution_evidence list"
  er_activation_digest :: string

definition activation_matches :: "activate_message \<Rightarrow> core_assignment \<Rightarrow> py_error + unit" where
  "activation_matches a assignment =
     (if am_request_id a \<noteq> ca_request_id assignment
      then Inl (ValueError ''activation request mismatch'')
      else if am_attempt a \<noteq> ca_attempt_epoch assignment
      then Inl (ValueError ''activation attempt mismatch'')
      else if am_deployment_plan_digest a \<noteq> ca_plan_digest assignment
      then Inl (ValueError ''activation plan mismatch'')
      else if set (map (\<lambda>p. (pa_role p, pa_provider p, pa_provider_boot_epoch p)) (ca_providers assignment))
           \<noteq> set (map (\<lambda>m. (me_role m, me_provider m, me_provider_boot_epoch m)) (am_members a))
      then Inl (ValueError ''activation assignment mismatch'')
      else Inr ())"

definition evidence_bound :: "hash \<Rightarrow> core_assignment \<Rightarrow> execution_evidence \<Rightarrow> bool" where
  "evidence_bound sha a e \<longleftrightarrow> ev_request_id e = ca_request_id a
     \<and> ev_attempt_epoch e = ca_attempt_epoch a
     \<and> ev_plan_digest e = ca_plan_digest a
     \<and> ev_assignment_digest e = core_assignment_digest sha a"

text \<open>
  \<open>run plan assignment payload\<close> is the adapter's session for the plan and the assignment, run on
  the payload; the state is whether \<open>session.cancel()\<close> was called.
\<close>

definition core_execute :: "hash
    \<Rightarrow> (core_plan \<Rightarrow> core_assignment \<Rightarrow> string \<Rightarrow> py_error + string \<times> execution_evidence list)
    \<Rightarrow> core_plan \<Rightarrow> core_assignment \<Rightarrow> string \<Rightarrow> activate_message option
    \<Rightarrow> (execution_result, bool) outcome" where
  "core_execute sha run plan assignment payload activation =
     (if core_plan_digest sha plan \<noteq> ca_plan_digest assignment
      then (Inl (ValueError ''assignment is not bound to execution plan''), False)
      else case (case activation of None \<Rightarrow> Inr () | Some a \<Rightarrow> activation_matches a assignment) of
        Inl e \<Rightarrow> (Inl e, False)
      | Inr _ \<Rightarrow> (case run plan assignment payload of
          Inl e \<Rightarrow> (Inl e, False)
        | Inr (out, evidence) \<Rightarrow>
            if list_all (evidence_bound sha assignment) evidence
            then (Inr \<lparr>er_payload = out, er_evidence = evidence,
                     er_activation_digest = (case activation of None \<Rightarrow> []
                       | Some a \<Rightarrow> activate_message_digest sha a)\<rparr>, False)
            else (Inl (ValueError ''native execution evidence binding mismatch''), True)))"

section \<open>Invariant of the coordinator\<close>

inductive ready_step :: "hash \<Rightarrow> (ready_message \<Rightarrow> bool) \<Rightarrow> ready_coordinator \<Rightarrow> ready_coordinator \<Rightarrow> bool"
  for sha verifier where
  accept: "coordinator_accept sha verifier m now_ms s = (r, t) \<Longrightarrow> ready_step sha verifier s t"
| activate: "coordinator_activate sha sequence signature now_ms s = (r, t) \<Longrightarrow> ready_step sha verifier s t"

inductive_cases ready_stepE: "ready_step sha verifier s t"

definition ready_start :: "deployment_plan \<Rightarrow> ready_coordinator \<Rightarrow> bool" where
  "ready_start plan s \<longleftrightarrow> coordinator_init plan = Inr s"

definition ready_bound :: "hash \<Rightarrow> (ready_message \<Rightarrow> bool) \<Rightarrow> deployment_plan \<Rightarrow> string \<times> string
    \<Rightarrow> ready_message \<Rightarrow> bool" where
  "ready_bound sha verifier plan k m \<longleftrightarrow> ready_key m = k
     \<and> (\<exists>a. dict_get (expected_members plan) k = Some a \<and> rm_provider_boot_epoch m = pa_provider_boot_epoch a)
     \<and> rm_request_id m = dp_request_id plan \<and> rm_attempt m = dp_attempt plan
     \<and> rm_selection_digest m = dp_selection_digest plan
     \<and> rm_deployment_plan_digest m = deployment_plan_digest sha plan \<and> verifier m"

definition activation_consistent :: "hash \<Rightarrow> ready_coordinator \<Rightarrow> bool" where
  "activation_consistent sha s = (case rs_activation s of
       None \<Rightarrow> rs_activation_count s = 0
     | Some a \<Rightarrow> rs_activation_count s = 1 \<and> ready_complete s
         \<and> activation_candidate sha (am_activation_sequence a) (am_signature a) s = Inr a)"

definition ready_inv :: "hash \<Rightarrow> (ready_message \<Rightarrow> bool) \<Rightarrow> deployment_plan \<Rightarrow> ready_coordinator \<Rightarrow> bool" where
  "ready_inv sha verifier plan s \<longleftrightarrow> rs_plan s = plan \<and> dict_ok (rs_accepted s)
     \<and> dict_all (ready_bound sha verifier plan) (rs_accepted s) \<and> activation_consistent sha s"

text \<open>The two effects of a call: an acknowledgement that stores at most a new message, and an activation.\<close>

lemma verdict_stored:
  assumes "ready_verdict sha verifier m now_ms s = (accepted, reason, True)"
  shows "dict_get (rs_accepted s) (ready_key m) = None"
    and "ready_bound sha verifier (rs_plan s) (ready_key m) m"
  using assms by (auto simp: ready_verdict_def ready_bound_def split: option.splits if_splits)

lemma accept_cases:
  assumes "coordinator_accept sha verifier m now_ms s = (r, t)"
  obtains (kept) "t = s\<lparr>rs_ack_sequence := rs_ack_sequence s + 1\<rparr>"
  | (stored) "t = s\<lparr>rs_ack_sequence := rs_ack_sequence s + 1,
        rs_accepted := dict_set (ready_key m) m (rs_accepted s)\<rparr>"
      "dict_get (rs_accepted s) (ready_key m) = None"
      "ready_bound sha verifier (rs_plan s) (ready_key m) m"
proof -
  obtain accepted reason st where v: "ready_verdict sha verifier m now_ms s = (accepted, reason, st)"
    by (metis prod.exhaust)
  show thesis
  proof (cases st)
    case True
    with v verdict_stored [of sha verifier m now_ms s accepted reason] assms show thesis
      by (intro stored) (auto simp: coordinator_accept_def Let_def)
  next
    case False
    with v assms show thesis by (intro kept) (auto simp: coordinator_accept_def Let_def)
  qed
qed

lemma activate_cases:
  assumes "coordinator_activate sha sequence signature now_ms s = (r, t)"
  obtains (same) "t = s" "isl r"
  | (first) a where "r = Inr a" "rs_activation s = None" "ready_complete s"
      "dp_deadline_ms (rs_plan s) > now_ms" "activation_candidate sha sequence signature s = Inr a"
      "t = s\<lparr>rs_activation_count := rs_activation_count s + 1, rs_activation := Some a\<rparr>"
  | (again) a b where "r = Inr a" "rs_activation s = Some b" "ready_complete s"
      "dp_deadline_ms (rs_plan s) > now_ms" "activation_candidate sha sequence signature s = Inr a"
      "activate_message_digest sha a = activate_message_digest sha b"
      "t = s\<lparr>rs_activation := Some a\<rparr>"
proof (cases "activation_candidate sha sequence signature s")
  case (Inl e)
  then have "snd (coordinator_activate sha sequence signature now_ms s) = s
      \<and> isl (fst (coordinator_activate sha sequence signature now_ms s))"
    by (simp add: coordinator_activate_def)
  then have "t = s" "isl r" by (simp_all add: assms)
  then show thesis using same by blast
next
  case (Inr a)
  show thesis
  proof (cases "ready_complete s \<and> now_ms < dp_deadline_ms (rs_plan s)")
    case False
    with assms show thesis by (intro same) (auto simp: coordinator_activate_def not_less split: if_splits)
  next
    case True
    show thesis
    proof (cases "rs_activation s")
      case None
      with True Inr assms show thesis by (intro first) (auto simp: coordinator_activate_def)
    next
      case (Some b)
      show thesis
      proof (cases "activate_message_digest sha b = activate_message_digest sha a")
        case same_digest: True
        with True Some Inr assms show thesis by (intro again [of a b]) (auto simp: coordinator_activate_def)
      next
        case False
        with True Some Inr assms show thesis by (intro same) (auto simp: coordinator_activate_def)
      qed
    qed
  qed
qed

lemma candidate_cong:
  "rs_plan t = rs_plan s \<Longrightarrow> rs_accepted t = rs_accepted s \<Longrightarrow>
    activation_candidate sha sequence signature t = activation_candidate sha sequence signature s"
  "rs_plan t = rs_plan s \<Longrightarrow> rs_accepted t = rs_accepted s \<Longrightarrow> ready_complete t = ready_complete s"
  by (simp_all add: activation_candidate_def assignment_member_def [abs_def] ready_complete_def)

lemma candidate_fields:
  assumes "activation_candidate sha sequence signature s = Inr a"
  shows "am_activation_sequence a = sequence" "am_signature a = signature"
  using assms by (auto simp: activation_candidate_def sum_then_Inr make_activate_message_def split: if_splits)

lemma candidate_consistent:
  assumes "activation_candidate sha sequence signature s = Inr a" "ready_complete s"
    "rs_plan t = rs_plan s" "rs_accepted t = rs_accepted s" "rs_activation t = Some a" "rs_activation_count t = 1"
  shows "activation_consistent sha t"
  using assms(1,2,5,6) candidate_fields [OF assms(1)] candidate_cong [OF assms(3,4)]
  by (simp add: activation_consistent_def)

lemma expected_keys:
  "fst ` set (expected_members plan) = (\<lambda>a. (pa_provider a, pa_role a)) ` set (dp_assignments plan)"
  by (simp add: expected_members_def dict_keys_of_list image_image)

lemma complete_not_stored:
  assumes "ready_complete s" "ready_bound sha verifier (rs_plan s) (ready_key m) m"
  shows "dict_get (rs_accepted s) (ready_key m) \<noteq> None"
proof -
  have "ready_key m \<in> fst ` set (expected_members (rs_plan s))"
    using assms(2) by (auto simp: ready_bound_def dest!: dict_get_in dict_key_in)
  with assms(1) show ?thesis by (simp add: expected_keys ready_complete_def dict_get_None_iff)
qed

lemma ready_inv_start: "ready_start plan s \<Longrightarrow> ready_inv sha verifier plan s"
  by (auto simp: ready_start_def coordinator_init_def ready_inv_def activation_consistent_def split: if_splits)

lemma ready_inv_accept:
  assumes "ready_inv sha verifier plan s" "coordinator_accept sha verifier m now_ms s = (r, t)"
  shows "ready_inv sha verifier plan t"
  using assms(2)
proof (cases rule: accept_cases)
  case kept
  then have same: "rs_plan t = rs_plan s" "rs_accepted t = rs_accepted s"
    "rs_activation t = rs_activation s" "rs_activation_count t = rs_activation_count s" by simp_all
  then have "activation_consistent sha t = activation_consistent sha s"
    by (simp add: activation_consistent_def candidate_cong [of t s] split: option.splits)
  with same assms(1) show ?thesis by (simp add: ready_inv_def)
next
  case stored
  then have "rs_activation s = None"
    using assms(1) complete_not_stored
    by (fastforce simp: ready_inv_def activation_consistent_def split: option.splits)
  with stored assms(1) show ?thesis
    by (simp add: ready_inv_def activation_consistent_def)
qed

lemma ready_inv_activate:
  assumes "ready_inv sha verifier plan s" "coordinator_activate sha sequence signature now_ms s = (r, t)"
  shows "ready_inv sha verifier plan t"
  using assms(2)
proof (cases rule: activate_cases)
  case same
  with assms(1) show ?thesis by simp
next
  case (first a)
  with assms(1) have "rs_activation_count s = 0" by (simp add: ready_inv_def activation_consistent_def)
  with first have "activation_consistent sha t" by (intro candidate_consistent [of sha sequence signature s]) auto
  with first assms(1) show ?thesis by (simp add: ready_inv_def)
next
  case (again a b)
  with assms(1) have "rs_activation_count s = 1" by (simp add: ready_inv_def activation_consistent_def)
  with again have "activation_consistent sha t" by (intro candidate_consistent [of sha sequence signature s]) auto
  with again assms(1) show ?thesis by (simp add: ready_inv_def)
qed

section \<open>Specification of the ready set\<close>

record ready_spec =
  sp_ready :: "(string \<times> string) set"
  sp_active :: bool

inductive ready_spec_step :: "(string \<times> string) set \<Rightarrow> ready_spec \<Rightarrow> ready_spec \<Rightarrow> bool" for expected where
  report: "k \<in> expected \<Longrightarrow> ready_spec_step expected s (s\<lparr>sp_ready := insert k (sp_ready s)\<rparr>)"
| run: "sp_ready s = expected \<Longrightarrow> ready_spec_step expected s (s\<lparr>sp_active := True\<rparr>)"

definition ready_spec_start :: "ready_spec \<Rightarrow> bool" where
  "ready_spec_start s \<longleftrightarrow> sp_ready s = {} \<and> \<not> sp_active s"

definition members_of :: "deployment_plan \<Rightarrow> (string \<times> string) set" where
  "members_of plan = set (map (\<lambda>a. (pa_provider a, pa_role a)) (dp_assignments plan))"

definition ready_abs :: "ready_coordinator \<Rightarrow> ready_spec" where
  "ready_abs s = \<lparr>sp_ready = set (dict_keys (rs_accepted s)), sp_active = (rs_activation s \<noteq> None)\<rparr>"

lemma ready_bound_member: "ready_bound sha verifier plan k m \<Longrightarrow> k \<in> members_of plan"
  unfolding members_of_def set_map expected_keys [symmetric]
  by (auto simp: ready_bound_def dest!: dict_get_in dict_key_in)

lemma ready_step_refines:
  assumes "ready_inv sha verifier plan s" "ready_step sha verifier s t"
  shows "(ready_spec_step (members_of plan))\<^sup>*\<^sup>* (ready_abs s) (ready_abs t)"
  using assms(2)
proof (cases rule: ready_step.cases)
  case (accept m now_ms r)
  then show ?thesis
  proof (cases rule: accept_cases)
    case kept
    then show ?thesis by (simp add: ready_abs_def)
  next
    case stored
    then have "ready_abs t = (ready_abs s)\<lparr>sp_ready := insert (ready_key m) (sp_ready (ready_abs s))\<rparr>"
      by (simp add: ready_abs_def dict_set_new)
    moreover have "ready_key m \<in> members_of plan"
      using stored(3) assms(1) ready_bound_member by (auto simp: ready_inv_def)
    ultimately show ?thesis by (auto intro: ready_spec_step.report)
  qed
next
  case (activate sequence signature now_ms r)
  then show ?thesis
  proof (cases rule: activate_cases)
    case same
    then show ?thesis by (simp add: ready_abs_def)
  next
    case (first a)
    then have "ready_abs t = (ready_abs s)\<lparr>sp_active := True\<rparr>" by (simp add: ready_abs_def)
    moreover have "sp_ready (ready_abs s) = members_of plan"
      using first(3) assms(1) by (auto simp: ready_abs_def ready_complete_def members_of_def ready_inv_def)
    ultimately show ?thesis by (auto intro: ready_spec_step.run)
  next
    case (again a b)
    then show ?thesis by (simp add: ready_abs_def)
  qed
qed

interpretation ready: refinement "ready_start plan" "ready_step sha verifier" "ready_inv sha verifier plan"
  ready_spec_start "ready_spec_step (members_of plan)" ready_abs
  for plan and sha and verifier
proof
  fix s t
  show "ready_start plan s \<Longrightarrow> ready_inv sha verifier plan s" by (rule ready_inv_start)
  show "ready_inv sha verifier plan s \<Longrightarrow> ready_step sha verifier s t \<Longrightarrow> ready_inv sha verifier plan t"
    by (erule ready_stepE) (rule ready_inv_accept ready_inv_activate; assumption)+
  show "ready_start plan s \<Longrightarrow> ready_spec_start (ready_abs s)"
    by (auto simp: ready_start_def coordinator_init_def ready_spec_start_def ready_abs_def split: if_splits)
  show "ready_inv sha verifier plan s \<Longrightarrow> ready_step sha verifier s t
      \<Longrightarrow> (ready_spec_step (members_of plan))\<^sup>*\<^sup>* (ready_abs s) (ready_abs t)"
    by (rule ready_step_refines)
qed

section \<open>The activation message\<close>

lemma sum_map_all2: "sum_map f xs = Inr ys \<Longrightarrow> list_all2 (\<lambda>x y. f x = Inr y) xs ys"
  by (induction xs arbitrary: ys) (auto simp: sum_then_Inr)

lemma list_all2_left: "list_all2 P xs ys \<Longrightarrow> x \<in> set xs \<Longrightarrow> \<exists>y \<in> set ys. P x y"
  by (induction rule: list_all2_induct) auto

lemma candidate_members:
  assumes "activation_candidate sha sequence signature s = Inr a"
  obtains members where "list_all2 (\<lambda>x y. assignment_member sha s x = Inr y) (dp_assignments (rs_plan s)) members"
    and "set (am_members a) = set members"
  using assms
  by (auto simp: activation_candidate_def sum_then_Inr make_activate_message_def split: if_splits
      dest!: sum_map_all2)

lemma assignment_member_fields:
  assumes "assignment_member sha s x = Inr y"
  obtains m where "dict_get (rs_accepted s) (pa_provider x, pa_role x) = Some m"
    and "y = \<lparr>me_provider = pa_provider x, me_role = pa_role x,
          me_provider_boot_epoch = pa_provider_boot_epoch x,
          me_ready_message_digest = ready_message_digest sha m\<rparr>"
  using assms by (auto simp: assignment_member_def make_ready_member_def split: option.splits if_splits)

lemma candidate_member_keys:
  assumes "activation_candidate sha sequence signature s = Inr a"
  shows "set (map (\<lambda>m. (me_provider m, me_role m, me_provider_boot_epoch m)) (am_members a))
    = set (map (\<lambda>x. (pa_provider x, pa_role x, pa_provider_boot_epoch x)) (dp_assignments (rs_plan s)))"
proof -
  obtain members where members: "set (am_members a) = set members"
    "list_all2 (\<lambda>x y. assignment_member sha s x = Inr y) (dp_assignments (rs_plan s)) members"
    using assms by (rule candidate_members)
  from members(2) have "map (\<lambda>m. (me_provider m, me_role m, me_provider_boot_epoch m)) members
      = map (\<lambda>x. (pa_provider x, pa_role x, pa_provider_boot_epoch x)) (dp_assignments (rs_plan s))"
    by (induction rule: list_all2_induct) (auto elim: assignment_member_fields)
  from arg_cong [OF this, of set] show ?thesis by (simp add: members(1))
qed

lemma candidate_bound:
  assumes "activation_candidate sha sequence signature s = Inr a"
  shows "am_requester_identity a = dp_requester_identity (rs_plan s)"
    "am_request_id a = dp_request_id (rs_plan s)" "am_attempt a = dp_attempt (rs_plan s)"
    "am_selection_digest a = dp_selection_digest (rs_plan s)"
    "am_deployment_plan_digest a = deployment_plan_digest sha (rs_plan s)"
    "am_deadline_ms a = dp_deadline_ms (rs_plan s)"
  using assms by (auto simp: activation_candidate_def sum_then_Inr make_activate_message_def split: if_splits)

lemma activate_digest_nonempty: "activate_message_digest sha a \<noteq> []"
  by (simp add: activate_message_digest_def contract_digest_of_def canonical_digest_def)

lemma activate_candidate:
  "coordinator_activate sha sequence signature now_ms s = (Inr a, t) \<Longrightarrow>
    activation_candidate sha sequence signature s = Inr a"
  by (erule activate_cases) auto

section \<open>Properties\<close>

text \<open>
  C5: The coordinator implements the specification of a ready set: every reachable state abstracts
  to a reachable state in which only members of the plan are ready and the plan is active only
  when all are. When an activation exists it is counted once, and for every assignment of the
  plan it names the digest of an accepted message that carries the assignment's boot epoch, the
  request, attempt, selection and plan, and a verified signature.
\<close>

theorem ready_set_refines:
  assumes "reachable (ready_start plan) (ready_step sha verifier) s"
  shows "reachable ready_spec_start (ready_spec_step (members_of plan)) (ready_abs s)
    \<and> sp_ready (ready_abs s) \<subseteq> members_of plan
    \<and> (\<forall>a. rs_activation s = Some a \<longrightarrow> rs_activation_count s = 1
        \<and> sp_ready (ready_abs s) = members_of plan
        \<and> (\<forall>x \<in> set (dp_assignments plan). \<exists>m. ready_bound sha verifier plan (pa_provider x, pa_role x) m
             \<and> \<lparr>me_provider = pa_provider x, me_role = pa_role x,
                me_provider_boot_epoch = pa_provider_boot_epoch x,
                me_ready_message_digest = ready_message_digest sha m\<rparr> \<in> set (am_members a)))"
proof (intro conjI allI impI ballI)
  have inv: "ready_inv sha verifier plan s" using assms by (rule ready.reachable_inv)
  then have plan: "rs_plan s = plan" by (simp add: ready_inv_def)
  show "reachable ready_spec_start (ready_spec_step (members_of plan)) (ready_abs s)"
    using assms by (rule ready.reachable_refines)
  show "sp_ready (ready_abs s) \<subseteq> members_of plan"
    using inv by (auto simp: ready_abs_def ready_inv_def dict_get_iff dest!: ready_bound_member dict_allD)
  fix a
  assume a: "rs_activation s = Some a"
  with inv have "rs_activation_count s = 1" and complete: "ready_complete s"
    and cand: "activation_candidate sha (am_activation_sequence a) (am_signature a) s = Inr a"
    by (simp_all add: ready_inv_def activation_consistent_def)
  show "rs_activation_count s = 1" by fact
  show "sp_ready (ready_abs s) = members_of plan"
    using complete by (simp add: ready_abs_def ready_complete_def members_of_def plan)
  fix x
  assume "x \<in> set (dp_assignments plan)"
  moreover obtain members where members: "set (am_members a) = set members"
    "list_all2 (\<lambda>x y. assignment_member sha s x = Inr y) (dp_assignments plan) members"
    using cand unfolding plan [symmetric] by (rule candidate_members)
  ultimately obtain y where "assignment_member sha s x = Inr y" "y \<in> set members"
    by (blast dest: list_all2_left)
  then obtain m where m: "dict_get (rs_accepted s) (pa_provider x, pa_role x) = Some m"
    and y: "y = \<lparr>me_provider = pa_provider x, me_role = pa_role x,
          me_provider_boot_epoch = pa_provider_boot_epoch x,
          me_ready_message_digest = ready_message_digest sha m\<rparr>"
    by (elim assignment_member_fields)
  have "ready_bound sha verifier plan (pa_provider x, pa_role x) m"
    using inv m dict_allD by (fastforce simp: ready_inv_def)
  with \<open>y \<in> set members\<close> members(1) y
  show "\<exists>m. ready_bound sha verifier plan (pa_provider x, pa_role x) m
      \<and> \<lparr>me_provider = pa_provider x, me_role = pa_role x,
         me_provider_boot_epoch = pa_provider_boot_epoch x,
         me_ready_message_digest = ready_message_digest sha m\<rparr> \<in> set (am_members a)" by blast
qed

text \<open>
  The activation a coordinator returns is accepted by the gate of every selected provider
  role that verifies its signature before the deadline: exactly once as new (True), every repeat
  as a duplicate (False), and after it every activation with another digest is refused without a
  change of the gate.
\<close>

lemma activation_accepted_once:
  assumes "coordinator_activate sha sequence signature now_ms s = (Inr a, t)"
    and "x \<in> set (dp_assignments (rs_plan s))"
    and "gate_init (rs_plan s) (pa_provider x) (pa_role x) = Inr g"
    and "gate_verifier a" and "at1 < dp_deadline_ms (rs_plan s)" and "at2 < dp_deadline_ms (rs_plan s)"
  shows "\<exists>g'. gate_validate sha gate_verifier a at1 g = (Inr True, g')
    \<and> ag_activation_count g' = 1
    \<and> gate_validate sha gate_verifier a at2 g' = (Inr False, g')
    \<and> (activate_message_digest sha b \<noteq> activate_message_digest sha a \<longrightarrow>
        (\<exists>e. gate_validate sha v b now' g' = (Inl e, g')))"
proof -
  have cand: "activation_candidate sha sequence signature s = Inr a" using assms(1) by (rule activate_candidate)
  have g: "g = \<lparr>ag_plan = rs_plan s, ag_provider = pa_provider x, ag_role = pa_role x,
      ag_accepted_digest = [], ag_activation_count = 0\<rparr>"
    using assms(3) by (simp add: gate_init_def split: if_splits)
  have selected: "list_ex (\<lambda>y. pa_provider y = pa_provider x \<and> pa_role y = pa_role x) (dp_assignments (rs_plan s))"
    using assms(2) by (auto simp: list_ex_iff)
  have bound: "activation_bound sha gate_verifier (rs_plan s) at_ms a" if "at_ms < dp_deadline_ms (rs_plan s)" for at_ms
    using that assms(4) candidate_bound [OF cand] by (simp add: activation_bound_def)
  let ?g = "g\<lparr>ag_activation_count := 1, ag_accepted_digest := activate_message_digest sha a\<rparr>"
  have "gate_validate sha gate_verifier a at1 g = (Inr True, ?g)"
    unfolding gate_validate_def
    using selected bound [OF assms(5)] candidate_member_keys [OF cand] activate_digest_nonempty [of sha a]
    by (simp add: g Let_def)
  moreover have "gate_validate sha gate_verifier a at2 ?g = (Inr False, ?g)"
    unfolding gate_validate_def
    using selected bound [OF assms(6)] candidate_member_keys [OF cand]
    by (simp add: g Let_def)
  moreover have "\<exists>e. gate_validate sha v b now' ?g = (Inl e, ?g)"
    if "activate_message_digest sha b \<noteq> activate_message_digest sha a"
    unfolding gate_validate_def using that activate_digest_nonempty [of sha a] by (auto simp: Let_def)
  ultimately show ?thesis by (intro exI [of _ ?g]) simp
qed

text \<open>
  The executor returns a result only from the adapter's run of a plan that the assignment is
  bound to, under an activation, if one is given, of the same request, attempt, plan and members,
  and only if every piece of evidence carries the assignment's request, attempt, plan and digest;
  when a piece does not, the session is cancelled and the call raises.
\<close>

lemma executor_evidence_bound:
  "(core_execute sha run plan assignment payload activation = (Inr res, cancelled) \<longleftrightarrow>
      \<not> cancelled
      \<and> core_plan_digest sha plan = ca_plan_digest assignment
      \<and> (\<forall>a. activation = Some a \<longrightarrow> activation_matches a assignment = Inr ())
      \<and> run plan assignment payload = Inr (er_payload res, er_evidence res)
      \<and> list_all (evidence_bound sha assignment) (er_evidence res)
      \<and> er_activation_digest res = (case activation of None \<Rightarrow> [] | Some a \<Rightarrow> activate_message_digest sha a))
   \<and> (core_execute sha run plan assignment payload activation = (Inl e, True) \<longrightarrow>
      (\<exists>out evidence. run plan assignment payload = Inr (out, evidence)
         \<and> \<not> list_all (evidence_bound sha assignment) evidence))"
proof (rule conjI)
  have res: "res = \<lparr>er_payload = p, er_evidence = ev, er_activation_digest = d\<rparr> \<longleftrightarrow>
      p = er_payload res \<and> ev = er_evidence res \<and> d = er_activation_digest res" for p ev d
    by (cases res) auto
  show "core_execute sha run plan assignment payload activation = (Inr res, cancelled) \<longleftrightarrow>
      \<not> cancelled
      \<and> core_plan_digest sha plan = ca_plan_digest assignment
      \<and> (\<forall>a. activation = Some a \<longrightarrow> activation_matches a assignment = Inr ())
      \<and> run plan assignment payload = Inr (er_payload res, er_evidence res)
      \<and> list_all (evidence_bound sha assignment) (er_evidence res)
      \<and> er_activation_digest res = (case activation of None \<Rightarrow> [] | Some a \<Rightarrow> activate_message_digest sha a)"
    by (cases res) (auto simp: core_execute_def split: option.splits sum.splits if_splits)
  show "core_execute sha run plan assignment payload activation = (Inl e, True) \<longrightarrow>
      (\<exists>out evidence. run plan assignment payload = Inr (out, evidence)
         \<and> \<not> list_all (evidence_bound sha assignment) evidence)"
    by (auto simp: core_execute_def split: option.splits sum.splits if_splits prod.splits)
qed

text \<open>
  A data-driven plan is never downgraded in place. Neither a coordinator nor a gate can be
  built on it; a rollback plan is a new ready-set plan with another request and selection, its
  first attempt and other assignments; and no ready message of the old request is accepted
  under it.
\<close>

lemma rollback_fresh_authority:
  assumes "new_legacy_rollback_plan current request_id assignments selection_digest deadline_ms handles = Inr p"
  shows "(\<exists>e. coordinator_init current = Inl e) \<and> (\<exists>e. gate_init current provider role = Inl e)
    \<and> (\<exists>s. coordinator_init p = Inr s)
    \<and> dp_request_id p \<noteq> dp_request_id current \<and> dp_selection_digest p \<noteq> dp_selection_digest current
    \<and> dp_assignments p \<noteq> dp_assignments current \<and> dp_attempt p = 1 \<and> make_deployment_plan p = Inr p
    \<and> (rs_plan s = p \<and> rm_request_id m = dp_request_id current \<longrightarrow>
        fst (ready_verdict sha verifier m now_ms s) = False)"
proof -
  let ?q = "current\<lparr>dp_request_id := request_id, dp_attempt := 1, dp_assignments := assignments,
      dp_deadline_ms := deadline_ms, dp_selection_digest := selection_digest,
      dp_status_handles := (case handles of None \<Rightarrow> [] | Some h \<Rightarrow> h),
      dp_execution_policy := LEGACY_READY_SET_V1\<rparr>"
  have policies: "DATA_DRIVEN_V2 \<noteq> LEGACY_READY_SET_V1"
    by (simp add: DATA_DRIVEN_V2_def LEGACY_READY_SET_V1_def)
  have current: "dp_execution_policy current = DATA_DRIVEN_V2" "request_id \<noteq> dp_request_id current"
    "selection_digest \<noteq> dp_selection_digest current" "assignments \<noteq> dp_assignments current"
    and made: "make_deployment_plan ?q = Inr p"
    using assms by (simp_all add: new_legacy_rollback_plan_def split: if_splits)
  then have p: "p = ?q" by (simp add: make_deployment_plan_def split: if_splits)
  have "fst (ready_verdict sha verifier m now_ms s) = False"
    if "rs_plan s = p" "rm_request_id m = dp_request_id current"
    using that current(2) by (simp add: ready_verdict_def p split: option.splits)
  then show ?thesis
    using current made policies unfolding p by (simp add: coordinator_init_def gate_init_def)
qed

section \<open>Witnesses\<close>

text \<open>A plan with one provider, under a hash that is constant.\<close>

definition flat_hash :: hash where
  "flat_hash s = ''h''"

definition demo_ready_plan :: deployment_plan where
  "demo_ready_plan = \<lparr>dp_requester_identity = ''u'', dp_request_id = ''r'', dp_attempt = 1,
     dp_model_variant = ''v'', dp_artifact_digests = [''d''], dp_assignments = [demo_provider],
     dp_execution_target = ''t'', dp_deadline_ms = 100, dp_selection_digest = ''s'',
     dp_status_handles = [], dp_requester_encryption_key = [],
     dp_execution_policy = LEGACY_READY_SET_V1\<rparr>"

definition demo_ready :: ready_message where
  "demo_ready = \<lparr>rm_request_id = ''r'', rm_attempt = 1, rm_selection_digest = ''s'',
     rm_deployment_plan_digest = ''sha256:h'', rm_provider = ''/p'', rm_provider_boot_epoch = ''boot'',
     rm_role = ''a'', rm_artifact_digest = ''d'', rm_operation_id = ''o'', rm_sequence = 1,
     rm_expires_at_ms = 50, rm_signer = ''k'', rm_signature = ''x''\<rparr>"

definition demo_rs0 :: ready_coordinator where
  "demo_rs0 = \<lparr>rs_plan = demo_ready_plan, rs_accepted = [], rs_ack_sequence = 0, rs_activation = None,
     rs_activation_count = 0\<rparr>"

definition demo_rs1 :: ready_coordinator where
  "demo_rs1 = demo_rs0\<lparr>rs_ack_sequence := 1, rs_accepted := [((''/p'', ''a''), demo_ready)]\<rparr>"

definition demo_activation :: activate_message where
  "demo_activation = \<lparr>am_requester_identity = ''u'', am_request_id = ''r'', am_attempt = 1,
     am_selection_digest = ''s'', am_deployment_plan_digest = ''sha256:h'',
     am_members = [\<lparr>me_provider = ''/p'', me_role = ''a'', me_provider_boot_epoch = ''boot'',
       me_ready_message_digest = ''sha256:h''\<rparr>],
     am_deadline_ms = 100, am_activation_sequence = 1, am_signature = ''y''\<rparr>"

definition demo_rs2 :: ready_coordinator where
  "demo_rs2 = demo_rs1\<lparr>rs_activation_count := 1, rs_activation := Some demo_activation\<rparr>"

lemma flat_digests [simp]:
  "deployment_plan_digest flat_hash p = ''sha256:h''" "ready_message_digest flat_hash m = ''sha256:h''"
  "activate_message_digest flat_hash a = ''sha256:h''" "core_plan_digest flat_hash c = ''sha256:h''"
  "core_assignment_digest flat_hash x = ''sha256:h''"
  by (simp_all add: deployment_plan_digest_def ready_message_digest_def activate_message_digest_def
      core_plan_digest_def core_assignment_digest_def contract_digest_of_def canonical_digest_def
      json_digest_def flat_hash_def)

lemma demo_accept: "snd (coordinator_accept flat_hash (\<lambda>_. True) demo_ready 5 demo_rs0) = demo_rs1"
  by (simp add: coordinator_accept_def ready_verdict_def demo_rs0_def demo_rs1_def demo_ready_plan_def
      demo_provider_def demo_ready_def expected_members_def dict_of_list_def ready_key_def)

lemma demo_activate: "coordinator_activate flat_hash 1 ''y'' 6 demo_rs1 = (Inr demo_activation, demo_rs2)"
  by (simp add: coordinator_activate_def ready_complete_def activation_candidate_def assignment_member_def
      make_ready_member_def make_activate_message_def demo_rs0_def demo_rs1_def demo_rs2_def
      demo_ready_plan_def demo_provider_def demo_ready_def demo_activation_def)

lemma demo_rs2_reachable:
  "reachable (ready_start demo_ready_plan) (ready_step flat_hash (\<lambda>_. True)) demo_rs2"
proof -
  have "ready_start demo_ready_plan demo_rs0"
    by (simp add: ready_start_def coordinator_init_def demo_rs0_def demo_ready_plan_def)
  moreover have "ready_step flat_hash (\<lambda>_. True) demo_rs0 demo_rs1"
    unfolding demo_accept [symmetric] by (rule ready_step.accept [OF prod.collapse [symmetric]])
  moreover have "ready_step flat_hash (\<lambda>_. True) demo_rs1 demo_rs2"
    using demo_activate by (rule ready_step.activate)
  ultimately show ?thesis by (blast intro: reachable.intros)
qed

theorem ready_set_refines_witness:
  "sp_ready (ready_abs demo_rs2) = members_of demo_ready_plan \<and> rs_activation_count demo_rs2 = 1"
proof -
  have "rs_activation demo_rs2 = Some demo_activation" by (simp add: demo_rs2_def)
  with ready_set_refines [OF demo_rs2_reachable] show ?thesis by blast
qed

definition demo_gate :: activation_gate where
  "demo_gate = \<lparr>ag_plan = demo_ready_plan, ag_provider = ''/p'', ag_role = ''a'', ag_accepted_digest = [],
     ag_activation_count = 0\<rparr>"

theorem activation_accepted_once_witness:
  "\<exists>g'. gate_validate flat_hash (\<lambda>_. True) demo_activation 7 demo_gate = (Inr True, g')
    \<and> gate_validate flat_hash (\<lambda>_. True) demo_activation 8 g' = (Inr False, g')"
proof -
  have "demo_provider \<in> set (dp_assignments (rs_plan demo_rs1))"
    "gate_init (rs_plan demo_rs1) (pa_provider demo_provider) (pa_role demo_provider) = Inr demo_gate"
    "(7 :: int) < dp_deadline_ms (rs_plan demo_rs1)" "(8 :: int) < dp_deadline_ms (rs_plan demo_rs1)"
    by (simp_all add: gate_init_def demo_rs1_def demo_rs0_def demo_ready_plan_def demo_provider_def demo_gate_def)
  from activation_accepted_once [OF demo_activate this(1,2) _ this(3,4), of "\<lambda>_. True"]
  show ?thesis by blast
qed

definition demo_evidence :: execution_evidence where
  "demo_evidence = \<lparr>ev_provider = ''/p'', ev_provider_boot_epoch = ''boot'', ev_request_id = ''r'',
     ev_attempt_epoch = 1, ev_plan_digest = ''sha256:h'', ev_assignment_digest = ''sha256:h'',
     ev_runner_identity = ''n'', ev_result_digest = []\<rparr>"

definition demo_bound_assignment :: core_assignment where
  "demo_bound_assignment = demo_core_assignment\<lparr>ca_plan_digest := ''sha256:h''\<rparr>"

theorem executor_evidence_bound_witness:
  "core_execute flat_hash (\<lambda>_ _ p. Inr (p, [demo_evidence])) demo_core_plan demo_bound_assignment ''in''
     (Some demo_activation)
   = (Inr \<lparr>er_payload = ''in'', er_evidence = [demo_evidence], er_activation_digest = ''sha256:h''\<rparr>, False)"
proof -
  have "activation_matches demo_activation demo_bound_assignment = Inr ()"
    by (simp add: activation_matches_def demo_activation_def demo_bound_assignment_def
        demo_core_assignment_def demo_provider_def)
  moreover have "evidence_bound flat_hash demo_bound_assignment demo_evidence"
    by (simp add: evidence_bound_def demo_evidence_def demo_bound_assignment_def demo_core_assignment_def)
  moreover have "ca_plan_digest demo_bound_assignment = ''sha256:h''" by (simp add: demo_bound_assignment_def)
  ultimately show ?thesis
    by (subst conjunct1 [OF executor_evidence_bound]) simp
qed

definition demo_data_plan :: deployment_plan where
  "demo_data_plan = demo_ready_plan\<lparr>dp_execution_policy := DATA_DRIVEN_V2\<rparr>"

theorem rollback_fresh_authority_witness:
  "fst (ready_verdict flat_hash (\<lambda>_. True) demo_ready 5
     \<lparr>rs_plan = demo_data_plan\<lparr>dp_request_id := ''r2'', dp_attempt := 1,
        dp_assignments := [demo_provider\<lparr>pa_lease_id := ''l2''\<rparr>], dp_deadline_ms := 9,
        dp_selection_digest := ''s2'', dp_status_handles := [], dp_execution_policy := LEGACY_READY_SET_V1\<rparr>,
      rs_accepted = [], rs_ack_sequence = 0, rs_activation = None, rs_activation_count = 0\<rparr>) = False"
proof -
  let ?x = "demo_provider\<lparr>pa_lease_id := ''l2''\<rparr>"
  have "new_legacy_rollback_plan demo_data_plan ''r2'' [?x] ''s2'' 9 None
      = Inr (demo_data_plan\<lparr>dp_request_id := ''r2'', dp_attempt := 1, dp_assignments := [?x],
          dp_deadline_ms := 9, dp_selection_digest := ''s2'', dp_status_handles := [],
          dp_execution_policy := LEGACY_READY_SET_V1\<rparr>)"
    by (simp add: new_legacy_rollback_plan_def make_deployment_plan_def demo_data_plan_def
        demo_ready_plan_def demo_provider_def)
  moreover have "rm_request_id demo_ready = dp_request_id demo_data_plan"
    by (simp add: demo_ready_def demo_data_plan_def demo_ready_plan_def)
  ultimately show ?thesis using rollback_fresh_authority by simp
qed

end
