(* ===== verification/Recovery.thy ===== *)
theory Recovery
  imports Contracts
begin

text \<open>
  The recovery controllers of core/recovery.py: the contention retry with its backoff, the
  exact-target control messages, the requester's compensation of a replanned attempt, and the
  bounded replacement of providers.

  \<^item> The methods run under the controller's lock, so each is one atomic step; \<open>_LOG\<close> is not modelled.
  \<^item> Clock readings are arguments. The random number generator, the signer, the signature
    verifier, the sender and sha256 are parameters.
  \<^item> A method returns the controller also when it raises: several change a field before.
\<close>

section \<open>Contention retry\<close>

record retry =
  rt_max_attempts :: int
  rt_deadline_ms :: int
  rt_base_ms :: int
  rt_cap_ms :: int
  rt_attempt :: int
  rt_awaiting :: "(string, int) dict"
  rt_release_receipts :: int
  rt_expiry_fallbacks :: int
  rt_backoffs :: "int list"
  rt_exhausted :: int

definition retry_init :: "int \<Rightarrow> int \<Rightarrow> int \<Rightarrow> int \<Rightarrow> int \<Rightarrow> py_error + retry" where
  "retry_init max_attempts total_deadline_ms base_backoff_ms max_backoff_ms started_at_ms =
     (if max_attempts \<le> 0 \<or> total_deadline_ms \<le> 0 \<or> base_backoff_ms \<le> 0 \<or> max_backoff_ms < base_backoff_ms
      then Inl (ValueError ''invalid contention retry bounds'')
      else if started_at_ms < 0 then Inl (ValueError ''invalid contention retry start'')
      else Inr \<lparr>rt_max_attempts = max_attempts, rt_deadline_ms = started_at_ms + total_deadline_ms,
                rt_base_ms = base_backoff_ms, rt_cap_ms = max_backoff_ms, rt_attempt = 0,
                rt_awaiting = [], rt_release_receipts = 0, rt_expiry_fallbacks = 0, rt_backoffs = [],
                rt_exhausted = 0\<rparr>)"

definition retry_begin :: "int \<Rightarrow> retry \<Rightarrow> (int, retry) outcome" where
  "retry_begin now_ms s =
     (if rt_awaiting s \<noteq> [] then (Inl (RuntimeError ''partial reservations are not resolved''), s)
      else if rt_max_attempts s \<le> rt_attempt s \<or> rt_deadline_ms s \<le> now_ms
      then (Inl (RuntimeError ''contention retry exhausted''), s\<lparr>rt_exhausted := rt_exhausted s + 1\<rparr>)
      else (Inr (rt_attempt s + 1), s\<lparr>rt_attempt := rt_attempt s + 1\<rparr>))"

text \<open>\<open>send r\<close> is the exception \<open>send_not_selected(r)\<close> raises, if any.\<close>

fun close_each :: "(string \<Rightarrow> py_error option) \<Rightarrow> (string \<times> int) list \<Rightarrow> retry \<Rightarrow> (unit, retry) outcome" where
  "close_each send [] s = (Inr (), s)"
| "close_each send ((r, expires_at_ms) # rest) s =
     (if r = [] \<or> expires_at_ms \<le> 0 then (Inl (ValueError ''invalid partial reservation''), s)
      else case send r of
             Some e \<Rightarrow> (Inl e, s)
           | None \<Rightarrow> close_each send rest (s\<lparr>rt_awaiting := dict_set r expires_at_ms (rt_awaiting s)\<rparr>))"

definition retry_close_partial :: "(string \<Rightarrow> py_error option) \<Rightarrow> (string, int) dict \<Rightarrow> retry
    \<Rightarrow> (unit, retry) outcome" where
  "retry_close_partial send reservations s =
     (if rt_awaiting s \<noteq> [] then (Inl (RuntimeError ''previous partial release is still pending''), s)
      else close_each send reservations s)"

definition retry_accept_receipt :: "string \<Rightarrow> retry \<Rightarrow> bool \<times> retry" where
  "retry_accept_receipt r s =
     (if \<not> dict_has (rt_awaiting s) r then (False, s)
      else (True, s\<lparr>rt_awaiting := dict_pop r (rt_awaiting s),
                    rt_release_receipts := rt_release_receipts s + 1\<rparr>))"

definition retry_window :: "retry \<Rightarrow> int" where
  "retry_window s = min (rt_cap_ms s) (rt_base_ms s * 2 ^ nat (max 0 (rt_attempt s - 1)))"

definition expire_awaiting :: "int \<Rightarrow> retry \<Rightarrow> retry" where
  "expire_awaiting now_ms s =
     s\<lparr>rt_awaiting := filter (\<lambda>(k, expiry). now_ms < expiry) (rt_awaiting s),
       rt_expiry_fallbacks := rt_expiry_fallbacks s
         + int (length (filter (\<lambda>(k, expiry). expiry \<le> now_ms) (rt_awaiting s)))\<rparr>"

text \<open>\<open>randint w\<close> is \<open>random.randint(0, w)\<close>.\<close>

definition retry_next_backoff :: "(int \<Rightarrow> int) \<Rightarrow> int \<Rightarrow> retry \<Rightarrow> (int, retry) outcome" where
  "retry_next_backoff randint now_ms s0 =
     (let s = expire_awaiting now_ms s0 in
      if rt_awaiting s \<noteq> [] then (Inl (RuntimeError ''waiting for release receipt or lease expiry''), s)
      else if rt_max_attempts s \<le> rt_attempt s \<or> rt_deadline_ms s \<le> now_ms
      then (Inl (RuntimeError ''contention retry exhausted''), s\<lparr>rt_exhausted := rt_exhausted s + 1\<rparr>)
      else let delay = randint (retry_window s) in
        if rt_deadline_ms s \<le> now_ms + delay
        then (Inl (RuntimeError ''contention retry exceeds total deadline''), s\<lparr>rt_exhausted := rt_exhausted s + 1\<rparr>)
        else (Inr delay, s\<lparr>rt_backoffs := rt_backoffs s @ [delay]\<rparr>))"

section \<open>Control messages\<close>

record cancel_attempt =
  xc_request_id :: string
  xc_attempt :: int
  xc_plan_digest :: string
  xc_requester :: string
  xc_target_provider :: string
  xc_reason_code :: string
  xc_issued_at_ms :: int
  xc_expires_at_ms :: int
  xc_nonce :: string
  xc_signer_key_id :: string
  xc_signature :: string

definition make_cancel_attempt :: "cancel_attempt \<Rightarrow> py_error + cancel_attempt" where
  "make_cancel_attempt c =
     (if xc_request_id c = [] \<or> xc_attempt c \<le> 0 \<or> xc_requester c = [] \<or> xc_target_provider c = []
         \<or> xc_reason_code c = [] \<or> xc_issued_at_ms c < 0 \<or> xc_expires_at_ms c \<le> xc_issued_at_ms c
         \<or> xc_nonce c = [] \<or> xc_signer_key_id c = [] \<or> xc_signature c = []
      then Inl (ValueError ''invalid DICancelAttemptV2'')
      else sum_then (require_sha256 (xc_plan_digest c) ''plan_digest'') (\<lambda>_. Inr c))"

record release_offer =
  xr_request_id :: string
  xr_attempt :: int
  xr_offer_digest :: string
  xr_requester :: string
  xr_target_provider :: string
  xr_reason_code :: string
  xr_issued_at_ms :: int
  xr_expires_at_ms :: int
  xr_nonce :: string
  xr_signer_key_id :: string
  xr_signature :: string

definition make_release_offer :: "release_offer \<Rightarrow> py_error + release_offer" where
  "make_release_offer c =
     (if xr_request_id c = [] \<or> xr_attempt c \<le> 0 \<or> xr_requester c = [] \<or> xr_target_provider c = []
         \<or> xr_reason_code c = [] \<or> xr_issued_at_ms c < 0 \<or> xr_expires_at_ms c \<le> xr_issued_at_ms c
         \<or> xr_nonce c = [] \<or> xr_signer_key_id c = [] \<or> xr_signature c = []
      then Inl (ValueError ''invalid DIReleaseOfferV2'')
      else sum_then (require_sha256 (xr_offer_digest c) ''offer_digest'') (\<lambda>_. Inr c))"

record status_query =
  xq_request_id :: string
  xq_attempt :: int
  xq_transaction_id :: string
  xq_requester :: string
  xq_target_provider :: string
  xq_issued_at_ms :: int
  xq_expires_at_ms :: int
  xq_nonce :: string
  xq_signer_key_id :: string
  xq_signature :: string

definition make_status_query :: "status_query \<Rightarrow> py_error + status_query" where
  "make_status_query c =
     (if xq_request_id c = [] \<or> xq_attempt c \<le> 0 \<or> xq_transaction_id c = [] \<or> xq_requester c = []
         \<or> xq_target_provider c = [] \<or> xq_issued_at_ms c < 0 \<or> xq_expires_at_ms c \<le> xq_issued_at_ms c
         \<or> xq_nonce c = [] \<or> xq_signer_key_id c = [] \<or> xq_signature c = []
      then Inl (ValueError ''invalid DIStatusQueryV2'')
      else Inr c)"

datatype control =
    CancelAttempt cancel_attempt
  | ReleaseOffer release_offer
  | StatusQuery status_query

definition control_fields :: "control \<Rightarrow> (string, json) dict" where
  "control_fields x = (case x of
       CancelAttempt c \<Rightarrow>
         [(''request_id'', JStr (xc_request_id c)), (''attempt'', JInt (xc_attempt c)),
          (''plan_digest'', JStr (xc_plan_digest c)), (''requester'', JStr (xc_requester c)),
          (''target_provider'', JStr (xc_target_provider c)), (''reason_code'', JStr (xc_reason_code c)),
          (''issued_at_ms'', JInt (xc_issued_at_ms c)), (''expires_at_ms'', JInt (xc_expires_at_ms c)),
          (''nonce'', JStr (xc_nonce c)), (''signer_key_id'', JStr (xc_signer_key_id c)),
          (''signature'', JStr (xc_signature c))]
     | ReleaseOffer c \<Rightarrow>
         [(''request_id'', JStr (xr_request_id c)), (''attempt'', JInt (xr_attempt c)),
          (''offer_digest'', JStr (xr_offer_digest c)), (''requester'', JStr (xr_requester c)),
          (''target_provider'', JStr (xr_target_provider c)), (''reason_code'', JStr (xr_reason_code c)),
          (''issued_at_ms'', JInt (xr_issued_at_ms c)), (''expires_at_ms'', JInt (xr_expires_at_ms c)),
          (''nonce'', JStr (xr_nonce c)), (''signer_key_id'', JStr (xr_signer_key_id c)),
          (''signature'', JStr (xr_signature c))]
     | StatusQuery c \<Rightarrow>
         [(''request_id'', JStr (xq_request_id c)), (''attempt'', JInt (xq_attempt c)),
          (''transaction_id'', JStr (xq_transaction_id c)), (''requester'', JStr (xq_requester c)),
          (''target_provider'', JStr (xq_target_provider c)),
          (''issued_at_ms'', JInt (xq_issued_at_ms c)), (''expires_at_ms'', JInt (xq_expires_at_ms c)),
          (''nonce'', JStr (xq_nonce c)), (''signer_key_id'', JStr (xq_signer_key_id c)),
          (''signature'', JStr (xq_signature c))])"

definition control_schema :: "control \<Rightarrow> string" where
  "control_schema x = (case x of CancelAttempt _ \<Rightarrow> ''ndnsf-di-cancel-attempt-v2''
     | ReleaseOffer _ \<Rightarrow> ''ndnsf-di-release-offer-v2'' | StatusQuery _ \<Rightarrow> ''ndnsf-di-status-query-v2'')"

definition control_metadata :: "control \<Rightarrow> (string, json) dict" where
  "control_metadata x = [(''schema'', JStr (control_schema x)), (''schema_version'', JInt 2),
     (''canonical_encoding_version'', JStr ''canonical-json-v1''),
     (''control_version'', JStr ''DI_EXACT_TARGET_CONTROL_V2'')]"

definition control_to_bytes :: "control \<Rightarrow> string" where
  "control_to_bytes x = json_dumps (JObj (control_fields x @ control_metadata x))"

definition control_digest :: "hash \<Rightarrow> control \<Rightarrow> string" where
  "control_digest sha x = ''sha256:'' @ sha (control_to_bytes x)"

definition control_signing_digest :: "hash \<Rightarrow> control \<Rightarrow> string" where
  "control_signing_digest sha x =
     ''sha256:'' @ sha (json_dumps (JObj (dict_pop ''signature'' (control_fields x) @ control_metadata x)))"

definition control_requester :: "control \<Rightarrow> string" where
  "control_requester x = (case x of CancelAttempt c \<Rightarrow> xc_requester c
     | ReleaseOffer c \<Rightarrow> xr_requester c | StatusQuery c \<Rightarrow> xq_requester c)"

definition control_target :: "control \<Rightarrow> string" where
  "control_target x = (case x of CancelAttempt c \<Rightarrow> xc_target_provider c
     | ReleaseOffer c \<Rightarrow> xr_target_provider c | StatusQuery c \<Rightarrow> xq_target_provider c)"

definition control_expiry :: "control \<Rightarrow> int" where
  "control_expiry x = (case x of CancelAttempt c \<Rightarrow> xc_expires_at_ms c
     | ReleaseOffer c \<Rightarrow> xr_expires_at_ms c | StatusQuery c \<Rightarrow> xq_expires_at_ms c)"

definition control_validate_target :: "(control \<Rightarrow> bool) \<Rightarrow> int \<Rightarrow> string \<Rightarrow> string \<Rightarrow> int \<Rightarrow> control
    \<Rightarrow> py_error + unit" where
  "control_validate_target verify_signature now_ms requester target_provider attempt_deadline_ms x =
     (if control_requester x \<noteq> requester \<or> control_target x \<noteq> target_provider
         \<or> control_expiry x \<le> now_ms \<or> attempt_deadline_ms < control_expiry x \<or> \<not> verify_signature x
      then Inl (PermissionError ''DI exact-target control is unauthorized or expired'')
      else Inr ())"

section \<open>Adopted inputs\<close>

record adopted_input =
  ai_request_id :: string
  ai_old_attempt :: int
  ai_new_attempt :: int
  ai_old_lineage_digest :: string
  ai_new_lineage_digest :: string
  ai_old_semantic_digest :: string
  ai_new_semantic_digest :: string
  ai_old_schema_digest :: string
  ai_new_schema_digest :: string
  ai_old_segment_contract_digest :: string
  ai_new_segment_contract_digest :: string
  ai_authorization_digest :: string
  ai_consumer_role :: string
  ai_authorized_requester :: string
  ai_captured_at_ms :: int
  ai_expires_at_ms :: int
  ai_signer_key_id :: string
  ai_signature :: string

definition make_adopted_input :: "adopted_input \<Rightarrow> py_error + adopted_input" where
  "make_adopted_input i =
     (if ai_request_id i = [] \<or> ai_old_attempt i \<le> 0 \<or> ai_new_attempt i \<noteq> ai_old_attempt i + 1
         \<or> ai_consumer_role i = [] \<or> ai_authorized_requester i = [] \<or> ai_captured_at_ms i < 0
         \<or> ai_expires_at_ms i \<le> ai_captured_at_ms i \<or> ai_signer_key_id i = [] \<or> ai_signature i = []
      then Inl (ValueError ''invalid AdoptedInputEvidence'')
      else sum_then (require_sha256_all
        [(ai_old_lineage_digest i, ''old_lineage_digest''), (ai_new_lineage_digest i, ''new_lineage_digest''),
         (ai_old_semantic_digest i, ''old_semantic_digest''), (ai_new_semantic_digest i, ''new_semantic_digest''),
         (ai_old_schema_digest i, ''old_schema_digest''), (ai_new_schema_digest i, ''new_schema_digest''),
         (ai_old_segment_contract_digest i, ''old_segment_contract_digest''),
         (ai_new_segment_contract_digest i, ''new_segment_contract_digest''),
         (ai_authorization_digest i, ''authorization_digest'')]) (\<lambda>_. Inr i))"

definition adopted_input_digest :: "hash \<Rightarrow> adopted_input \<Rightarrow> string" where
  "adopted_input_digest sha i = canonical_digest sha (JObj
     [(''request_id'', JStr (ai_request_id i)), (''old_attempt'', JInt (ai_old_attempt i)),
      (''new_attempt'', JInt (ai_new_attempt i)),
      (''old_lineage_digest'', JStr (ai_old_lineage_digest i)),
      (''new_lineage_digest'', JStr (ai_new_lineage_digest i)),
      (''old_semantic_digest'', JStr (ai_old_semantic_digest i)),
      (''new_semantic_digest'', JStr (ai_new_semantic_digest i)),
      (''old_schema_digest'', JStr (ai_old_schema_digest i)),
      (''new_schema_digest'', JStr (ai_new_schema_digest i)),
      (''old_segment_contract_digest'', JStr (ai_old_segment_contract_digest i)),
      (''new_segment_contract_digest'', JStr (ai_new_segment_contract_digest i)),
      (''authorization_digest'', JStr (ai_authorization_digest i)),
      (''consumer_role'', JStr (ai_consumer_role i)),
      (''authorized_requester'', JStr (ai_authorized_requester i)),
      (''captured_at_ms'', JInt (ai_captured_at_ms i)), (''expires_at_ms'', JInt (ai_expires_at_ms i)),
      (''signer_key_id'', JStr (ai_signer_key_id i)), (''signature'', JStr (ai_signature i))])"

definition adopted_input_valid :: "(adopted_input \<Rightarrow> bool) \<Rightarrow> string \<Rightarrow> int \<Rightarrow> int \<Rightarrow> string \<Rightarrow> string
    \<Rightarrow> string \<Rightarrow> string \<Rightarrow> int \<Rightarrow> adopted_input \<Rightarrow> py_error + unit" where
  "adopted_input_valid verify_signature request_id old_attempt new_attempt requester consumer_role
     lineage_digest authorization_digest at_ms i =
     (if ai_request_id i \<noteq> request_id \<or> ai_old_attempt i \<noteq> old_attempt \<or> ai_new_attempt i \<noteq> new_attempt
         \<or> ai_authorized_requester i \<noteq> requester \<or> ai_consumer_role i \<noteq> consumer_role
         \<or> ai_old_lineage_digest i \<noteq> lineage_digest \<or> ai_authorization_digest i \<noteq> authorization_digest
         \<or> ai_old_lineage_digest i \<noteq> ai_new_lineage_digest i
         \<or> ai_old_semantic_digest i \<noteq> ai_new_semantic_digest i
         \<or> ai_old_schema_digest i \<noteq> ai_new_schema_digest i
         \<or> ai_old_segment_contract_digest i \<noteq> ai_new_segment_contract_digest i
         \<or> ai_expires_at_ms i \<le> at_ms \<or> \<not> verify_signature i
      then Inl (ValueError ''cross-attempt input adoption is unsafe'')
      else Inr ())"

section \<open>Attempt compensation\<close>

record attempt_transition =
  at_request_id :: string
  at_attempt :: int
  at_plan_digest :: string
  at_token_digest :: string
  at_adopted_input_digests :: "string list"

record dispatch_result =
  dr_sent :: int
  dr_acknowledged :: int
  dr_pending :: int

record compensation =
  cm_request_id :: string
  cm_requester :: string
  cm_deadline_ms :: int
  cm_authorization_digest :: string
  cm_signer_key_id :: string
  cm_attempt :: int
  cm_plan_digest :: string
  cm_token_digest :: string
  cm_providers :: "(string, string) dict"
  cm_pending :: "(string, control) dict"
  cm_terminal :: string

definition compensation_init :: "string \<Rightarrow> string \<Rightarrow> int \<Rightarrow> string \<Rightarrow> string \<Rightarrow> py_error + compensation" where
  "compensation_init request_id requester deadline_ms authorization_digest signer_key_id =
     (if request_id = [] \<or> requester = [] \<or> deadline_ms \<le> 0 \<or> signer_key_id = []
      then Inl (ValueError ''invalid attempt compensation controller'')
      else sum_then (require_sha256 authorization_digest ''authorization_digest'') (\<lambda>_.
        Inr \<lparr>cm_request_id = request_id, cm_requester = requester, cm_deadline_ms = deadline_ms,
             cm_authorization_digest = authorization_digest, cm_signer_key_id = signer_key_id,
             cm_attempt = 0, cm_plan_digest = [], cm_token_digest = [], cm_providers = [],
             cm_pending = [], cm_terminal = []\<rparr>))"

definition require_offers :: "(string, string) dict \<Rightarrow> py_error + unit" where
  "require_offers providers = require_sha256_all (map (\<lambda>v. (v, ''offer_digest'')) (dict_values providers))"

definition compensation_begin :: "string \<Rightarrow> string \<Rightarrow> (string, string) dict \<Rightarrow> compensation
    \<Rightarrow> (attempt_transition, compensation) outcome" where
  "compensation_begin plan_digest token_digest providers s =
     (if cm_attempt s \<noteq> 0 \<or> providers = []
      then (Inl (ValueError ''attempt compensation begins exactly once''), s)
      else case sum_then (require_sha256 plan_digest ''plan_digest'') (\<lambda>_.
             sum_then (require_sha256 token_digest ''token_digest'') (\<lambda>_. require_offers providers)) of
          Inl e \<Rightarrow> (Inl e, s)
        | Inr _ \<Rightarrow> (Inr \<lparr>at_request_id = cm_request_id s, at_attempt = 1, at_plan_digest = plan_digest,
              at_token_digest = token_digest, at_adopted_input_digests = []\<rparr>,
            s\<lparr>cm_attempt := 1, cm_plan_digest := plan_digest, cm_token_digest := token_digest,
              cm_providers := providers\<rparr>))"

text \<open>The signer may return no signature, which raises.\<close>

definition sign_control :: "hash \<Rightarrow> (string \<Rightarrow> string) \<Rightarrow> control \<Rightarrow> py_error + string" where
  "sign_control sha signer x =
     (let signature = signer (control_signing_digest sha x) in
      if signature = [] then Inl (ValueError ''control signer returned no signature'') else Inr signature)"

definition signed_cancel :: "hash \<Rightarrow> (string \<Rightarrow> string) \<Rightarrow> compensation \<Rightarrow> int \<Rightarrow> nat \<Rightarrow> string
    \<Rightarrow> py_error + cancel_attempt" where
  "signed_cancel sha signer s at_ms index provider =
     sum_then (make_cancel_attempt
       \<lparr>xc_request_id = cm_request_id s, xc_attempt = cm_attempt s, xc_plan_digest = cm_plan_digest s,
        xc_requester = cm_requester s, xc_target_provider = provider, xc_reason_code = ''REPLAN'',
        xc_issued_at_ms = at_ms, xc_expires_at_ms = cm_deadline_ms s,
        xc_nonce = ''cancel-'' @ str_int (cm_attempt s) @ ''-'' @ str_nat index,
        xc_signer_key_id = cm_signer_key_id s, xc_signature = ''pending''\<rparr>) (\<lambda>c.
     sum_then (sign_control sha signer (CancelAttempt c)) (\<lambda>signature.
       make_cancel_attempt (c\<lparr>xc_signature := signature\<rparr>)))"

definition signed_release :: "hash \<Rightarrow> (string \<Rightarrow> string) \<Rightarrow> compensation \<Rightarrow> int \<Rightarrow> nat \<Rightarrow> string \<Rightarrow> string
    \<Rightarrow> py_error + release_offer" where
  "signed_release sha signer s at_ms index provider offer_digest =
     sum_then (make_release_offer
       \<lparr>xr_request_id = cm_request_id s, xr_attempt = cm_attempt s, xr_offer_digest = offer_digest,
        xr_requester = cm_requester s, xr_target_provider = provider, xr_reason_code = ''REPLAN'',
        xr_issued_at_ms = at_ms, xr_expires_at_ms = cm_deadline_ms s,
        xr_nonce = ''release-'' @ str_int (cm_attempt s) @ ''-'' @ str_nat index,
        xr_signer_key_id = cm_signer_key_id s, xr_signature = ''pending''\<rparr>) (\<lambda>c.
     sum_then (sign_control sha signer (ReleaseOffer c)) (\<lambda>signature.
       make_release_offer (c\<lparr>xr_signature := signature\<rparr>)))"

definition enqueue_control :: "hash \<Rightarrow> control \<Rightarrow> compensation \<Rightarrow> compensation" where
  "enqueue_control sha x s = s\<lparr>cm_pending := dict_setdefault (control_digest sha x) x (cm_pending s)\<rparr>"

fun enqueue_compensation :: "hash \<Rightarrow> (string \<Rightarrow> string) \<Rightarrow> int \<Rightarrow> nat \<Rightarrow> (string \<times> string) list
    \<Rightarrow> compensation \<Rightarrow> (unit, compensation) outcome" where
  "enqueue_compensation sha signer at_ms index [] s = (Inr (), s)"
| "enqueue_compensation sha signer at_ms index ((provider, offer_digest) # rest) s =
     (case signed_cancel sha signer s at_ms index provider of
        Inl e \<Rightarrow> (Inl e, s)
      | Inr cancel \<Rightarrow>
          (case signed_release sha signer s at_ms index provider offer_digest of
             Inl e \<Rightarrow> (Inl e, s)
           | Inr release \<Rightarrow>
               enqueue_compensation sha signer at_ms (Suc index) rest
                 (enqueue_control sha (ReleaseOffer release)
                   (enqueue_control sha (CancelAttempt cancel) s))))"

fun adopt_inputs :: "(adopted_input \<Rightarrow> bool) \<Rightarrow> compensation \<Rightarrow> int \<Rightarrow> adopted_input list
    \<Rightarrow> (string \<times> string, adopted_input) dict \<Rightarrow> py_error + (string \<times> string, adopted_input) dict" where
  "adopt_inputs verify s at_ms [] adopted = Inr adopted"
| "adopt_inputs verify s at_ms (i # rest) adopted =
     (let key = (ai_consumer_role i, ai_old_lineage_digest i) in
      if dict_has adopted key then Inl (ValueError ''duplicate AdoptedInputEvidence'')
      else sum_then (adopted_input_valid verify (cm_request_id s) (cm_attempt s) (cm_attempt s + 1)
             (cm_requester s) (fst key) (snd key) (cm_authorization_digest s) at_ms i) (\<lambda>_.
           adopt_inputs verify s at_ms rest (dict_set key i adopted)))"

definition replan_checks :: "(adopted_input \<Rightarrow> bool) \<Rightarrow> int \<Rightarrow> string \<Rightarrow> string \<Rightarrow> (string, string) dict
    \<Rightarrow> adopted_input list \<Rightarrow> compensation \<Rightarrow> py_error + (string \<times> string, adopted_input) dict" where
  "replan_checks verify at_ms new_plan_digest new_token_digest providers adopted_inputs s =
     sum_then (require_sha256 new_plan_digest ''new_plan_digest'') (\<lambda>_.
     sum_then (require_sha256 new_token_digest ''new_token_digest'') (\<lambda>_.
     sum_then (require (\<not> (new_plan_digest = cm_plan_digest s \<or> new_token_digest = cm_token_digest s))
                 (ValueError ''replan requires fresh plan and token'')) (\<lambda>_.
     sum_then (require_offers providers) (\<lambda>_.
       adopt_inputs verify s at_ms adopted_inputs []))))"

definition compensation_replan :: "hash \<Rightarrow> (string \<Rightarrow> string) \<Rightarrow> (adopted_input \<Rightarrow> bool) \<Rightarrow> int
    \<Rightarrow> string \<Rightarrow> string \<Rightarrow> (string, string) dict \<Rightarrow> (string \<times> string) list \<Rightarrow> adopted_input list \<Rightarrow> bool
    \<Rightarrow> compensation \<Rightarrow> (attempt_transition, compensation) outcome" where
  "compensation_replan sha signer verify at_ms new_plan_digest new_token_digest providers required_inputs
     adopted_inputs fallback_complete s =
     (if cm_attempt s = 0 \<or> cm_terminal s \<noteq> [] \<or> cm_deadline_ms s \<le> at_ms \<or> providers = []
      then (Inl (RuntimeError ''replan is unavailable or expired''), s)
      else case replan_checks verify at_ms new_plan_digest new_token_digest providers adopted_inputs s of
          Inl e \<Rightarrow> (Inl e, s)
        | Inr adopted \<Rightarrow>
            if \<not> set required_inputs \<subseteq> set (dict_keys adopted) \<and> \<not> fallback_complete
            then (Inl (ValueError ''replan lacks safe adoption or complete fallback cover''),
                  s\<lparr>cm_terminal := ''ABORTED''\<rparr>)
            else and_then (enqueue_compensation sha signer at_ms 0 (sort (cm_providers s)) s) (\<lambda>_ s1.
              (Inr \<lparr>at_request_id = cm_request_id s, at_attempt = cm_attempt s + 1,
                    at_plan_digest = new_plan_digest, at_token_digest = new_token_digest,
                    at_adopted_input_digests = sort (map (adopted_input_digest sha) (dict_values adopted))\<rparr>,
               s1\<lparr>cm_attempt := cm_attempt s + 1, cm_plan_digest := new_plan_digest,
                  cm_token_digest := new_token_digest, cm_providers := providers\<rparr>)))"

definition signed_status_query :: "hash \<Rightarrow> (string \<Rightarrow> string) \<Rightarrow> compensation \<Rightarrow> int \<Rightarrow> string \<Rightarrow> string
    \<Rightarrow> py_error + status_query" where
  "signed_status_query sha signer s at_ms provider transaction_id =
     sum_then (make_status_query
       \<lparr>xq_request_id = cm_request_id s, xq_attempt = cm_attempt s, xq_transaction_id = transaction_id,
        xq_requester = cm_requester s, xq_target_provider = provider, xq_issued_at_ms = at_ms,
        xq_expires_at_ms = cm_deadline_ms s,
        xq_nonce = ''status-'' @ str_int (cm_attempt s) @ ''-'' @ str_nat (length (cm_pending s)),
        xq_signer_key_id = cm_signer_key_id s, xq_signature = ''pending''\<rparr>) (\<lambda>q.
     sum_then (sign_control sha signer (StatusQuery q)) (\<lambda>signature.
       make_status_query (q\<lparr>xq_signature := signature\<rparr>)))"

definition enqueue_status_query :: "hash \<Rightarrow> (string \<Rightarrow> string) \<Rightarrow> string \<Rightarrow> string \<Rightarrow> int \<Rightarrow> compensation
    \<Rightarrow> (status_query, compensation) outcome" where
  "enqueue_status_query sha signer provider transaction_id at_ms s =
     (if cm_terminal s \<noteq> [] \<or> cm_deadline_ms s \<le> at_ms \<or> provider = [] \<or> transaction_id = []
      then (Inl (RuntimeError ''status query is unavailable or expired''), s)
      else case signed_status_query sha signer s at_ms provider transaction_id of
          Inl e \<Rightarrow> (Inl e, s)
        | Inr query \<Rightarrow> (Inr query, enqueue_control sha (StatusQuery query) s))"

definition dispatch_pending :: "(control \<Rightarrow> bool) \<Rightarrow> int \<Rightarrow> compensation \<Rightarrow> dispatch_result \<times> compensation" where
  "dispatch_pending sender at_ms s =
     (if cm_deadline_ms s \<le> at_ms
      then (\<lparr>dr_sent = 0, dr_acknowledged = 0, dr_pending = int (length (cm_pending s))\<rparr>,
            s\<lparr>cm_terminal := (if cm_terminal s = [] then ''EXPIRED'' else cm_terminal s)\<rparr>)
      else let rest = filter (\<lambda>(k, x). \<not> sender x) (cm_pending s) in
        (\<lparr>dr_sent = int (length (cm_pending s)),
          dr_acknowledged = int (length (filter (\<lambda>(k, x). sender x) (cm_pending s))),
          dr_pending = int (length rest)\<rparr>,
         s\<lparr>cm_pending := rest\<rparr>))"

definition accept_event :: "int \<Rightarrow> int \<Rightarrow> compensation \<Rightarrow> bool" where
  "accept_event attempt at_ms s \<longleftrightarrow>
     cm_terminal s = [] \<and> at_ms < cm_deadline_ms s \<and> attempt = cm_attempt s"

definition accept_response :: "int \<Rightarrow> int \<Rightarrow> compensation \<Rightarrow> bool \<times> compensation" where
  "accept_response attempt at_ms s =
     (if \<not> accept_event attempt at_ms s then (False, s)
      else (True, s\<lparr>cm_terminal := ''RESPONSE''\<rparr>))"

definition compensation_cancel :: "int \<Rightarrow> compensation \<Rightarrow> bool \<times> compensation" where
  "compensation_cancel at_ms s =
     (if cm_terminal s \<noteq> [] \<or> cm_deadline_ms s \<le> at_ms then (False, s)
      else (True, s\<lparr>cm_terminal := ''CANCELLED''\<rparr>))"

definition compensation_expire :: "int \<Rightarrow> compensation \<Rightarrow> bool \<times> compensation" where
  "compensation_expire at_ms s =
     (if cm_terminal s \<noteq> [] \<or> at_ms < cm_deadline_ms s then (False, s)
      else (True, s\<lparr>cm_terminal := ''EXPIRED''\<rparr>))"

section \<open>Bounded recovery\<close>

datatype recovery_reason =
    PROVIDER_LOST | STRAGGLER_DEADLINE | TELEMETRY_STALE | CACHE_MISS_FULL_CONTEXT_REQUIRED
  | NO_COMPATIBLE_REPLACEMENT | REQUEST_DEADLINE

definition reason_value :: "recovery_reason \<Rightarrow> string" where
  "reason_value r = (case r of
       PROVIDER_LOST \<Rightarrow> ''PROVIDER_LOST'' | STRAGGLER_DEADLINE \<Rightarrow> ''STRAGGLER_DEADLINE''
     | TELEMETRY_STALE \<Rightarrow> ''TELEMETRY_STALE''
     | CACHE_MISS_FULL_CONTEXT_REQUIRED \<Rightarrow> ''CACHE_MISS_FULL_CONTEXT_REQUIRED''
     | NO_COMPATIBLE_REPLACEMENT \<Rightarrow> ''NO_COMPATIBLE_REPLACEMENT''
     | REQUEST_DEADLINE \<Rightarrow> ''REQUEST_DEADLINE'')"

definition reason_of :: "string \<Rightarrow> py_error + recovery_reason" where
  "reason_of v = (case find (\<lambda>r. reason_value r = v)
       [PROVIDER_LOST, STRAGGLER_DEADLINE, TELEMETRY_STALE, CACHE_MISS_FULL_CONTEXT_REQUIRED,
        NO_COMPATIBLE_REPLACEMENT, REQUEST_DEADLINE] of
       None \<Rightarrow> Inl (ValueError ''is not a valid RecoveryReason'')
     | Some r \<Rightarrow> Inr r)"

record recovery_attempt =
  va_request_id :: string
  va_attempt_epoch :: int
  va_provider :: string
  va_remaining_deadline_ms :: int

record recovery_action =
  vx_action :: string
  vx_request_id :: string
  vx_attempt_epoch :: int
  vx_provider :: string
  vx_remaining_deadline_ms :: int
  vx_terminal_reason :: "recovery_reason option"
  vx_full_context_required :: bool
  vx_control_payloads :: "(string, json) dict list"

record recovery =
  rv_request_id :: string
  rv_request_deadline_ms :: int
  rv_started_at_ms :: int
  rv_max_replacements :: int
  rv_attempt_epoch :: int
  rv_provider :: string
  rv_replacements :: int
  rv_terminal :: bool
  rv_terminal_reason :: "recovery_reason option"
  rv_excluded :: "string set"
  rv_events :: "(string, json) dict list"
  rv_visible_output_epoch :: int

definition recovery_init :: "string \<Rightarrow> int \<Rightarrow> int \<Rightarrow> int \<Rightarrow> py_error + recovery" where
  "recovery_init request_id request_deadline_ms started_at_ms max_replacements =
     (if request_id = [] \<or> request_deadline_ms \<le> started_at_ms \<or> max_replacements < 0
      then Inl (ValueError ''recovery requires identity, future deadline and bound'')
      else Inr \<lparr>rv_request_id = request_id, rv_request_deadline_ms = request_deadline_ms,
                rv_started_at_ms = started_at_ms, rv_max_replacements = max_replacements,
                rv_attempt_epoch = 0, rv_provider = [], rv_replacements = 0, rv_terminal = False,
                rv_terminal_reason = None, rv_excluded = {}, rv_events = [], rv_visible_output_epoch = 0\<rparr>)"

definition recovery_record :: "string \<Rightarrow> (string, json) dict \<Rightarrow> recovery \<Rightarrow> recovery" where
  "recovery_record event fs s =
     s\<lparr>rv_events := rv_events s @ [fold (\<lambda>(k, v) d. dict_set k v d) fs
         [(''event'', JStr event), (''requestId'', JStr (rv_request_id s)),
          (''attemptEpoch'', JInt (rv_attempt_epoch s))]]\<rparr>"

definition recovery_start :: "string \<Rightarrow> recovery \<Rightarrow> (recovery_attempt, recovery) outcome" where
  "recovery_start provider s =
     (if rv_attempt_epoch s \<noteq> 0 \<or> provider = [] then (Inl (ValueError ''recovery starts exactly once''), s)
      else (Inr \<lparr>va_request_id = rv_request_id s, va_attempt_epoch = 1, va_provider = provider,
                 va_remaining_deadline_ms = rv_request_deadline_ms s - rv_started_at_ms s\<rparr>,
            recovery_record ''ATTEMPT_STARTED'' [(''provider'', JStr provider)]
              (s\<lparr>rv_attempt_epoch := 1, rv_provider := provider\<rparr>)))"

definition recovery_failure :: "recovery_reason \<Rightarrow> int \<Rightarrow> recovery \<Rightarrow> recovery_action" where
  "recovery_failure reason remaining s =
     \<lparr>vx_action = ''fail'', vx_request_id = rv_request_id s, vx_attempt_epoch = rv_attempt_epoch s,
      vx_provider = rv_provider s, vx_remaining_deadline_ms = remaining, vx_terminal_reason = Some reason,
      vx_full_context_required = False, vx_control_payloads = []\<rparr>"

definition recovery_terminate :: "recovery_reason \<Rightarrow> int \<Rightarrow> recovery \<Rightarrow> recovery_action \<times> recovery" where
  "recovery_terminate reason remaining s =
     (let t = recovery_record ''TERMINAL_FAILURE''
            [(''reason'', JStr (reason_value reason)), (''remainingDeadlineMs'', JInt remaining)]
            (s\<lparr>rv_terminal := True, rv_terminal_reason := Some reason\<rparr>)
      in (recovery_failure reason remaining t, t))"

definition control_payload :: "recovery \<Rightarrow> recovery \<Rightarrow> string \<Rightarrow> (string, json) dict" where
  "control_payload old new operation =
     [(''schema'', JStr ''ndnsf-di-execution-control-v1''),
      (''transport'', JStr ''existing-di-service-payload''), (''operation'', JStr operation),
      (''requestId'', JStr (rv_request_id old)), (''attemptEpoch'', JInt (rv_attempt_epoch old)),
      (''providerName'', JStr (rv_provider old)),
      (''supersededByAttemptEpoch'', JInt (rv_attempt_epoch new))]"

definition recovery_recover :: "string \<Rightarrow> int \<Rightarrow> string \<Rightarrow> string list \<Rightarrow> recovery
    \<Rightarrow> (recovery_action, recovery) outcome" where
  "recovery_recover reason_text at_ms replacement_provider excluded_providers s0 =
     (if rv_attempt_epoch s0 = 0 then (Inl (RuntimeError ''recovery controller has not started''), s0)
      else case reason_of reason_text of
        Inl e \<Rightarrow> (Inl e, s0)
      | Inr reason \<Rightarrow>
          let remaining = max 0 (rv_request_deadline_ms s0 - at_ms);
              s = s0\<lparr>rv_excluded := rv_excluded s0 \<union> set excluded_providers\<rparr>;
              cache_retry = (reason = CACHE_MISS_FULL_CONTEXT_REQUIRED);
              next_provider = (if cache_retry then rv_provider s else replacement_provider)
          in if rv_terminal s
             then (Inr (recovery_failure (case rv_terminal_reason s of None \<Rightarrow> reason | Some r \<Rightarrow> r) remaining s), s)
             else if remaining \<le> 0 then apfst Inr (recovery_terminate REQUEST_DEADLINE remaining s)
             else if rv_max_replacements s \<le> rv_replacements s \<or> next_provider = []
                     \<or> next_provider \<in> rv_excluded s
             then apfst Inr (recovery_terminate NO_COMPATIBLE_REPLACEMENT remaining s)
             else let t = s\<lparr>rv_replacements := rv_replacements s + 1,
                          rv_attempt_epoch := rv_attempt_epoch s + 1, rv_provider := next_provider\<rparr>;
                      action = (if cache_retry then ''retry-full-context'' else ''replace'')
                  in (Inr \<lparr>vx_action = action, vx_request_id = rv_request_id t,
                           vx_attempt_epoch = rv_attempt_epoch t, vx_provider = next_provider,
                           vx_remaining_deadline_ms = remaining, vx_terminal_reason = None,
                           vx_full_context_required = cache_retry,
                           vx_control_payloads = map (control_payload s t) [''CANCEL'', ''SUPERSEDE'']\<rparr>,
                      recovery_record ''REPLACEMENT_DECISION''
                        [(''reason'', JStr (reason_value reason)), (''action'', JStr action),
                         (''oldAttemptEpoch'', JInt (rv_attempt_epoch s)), (''provider'', JStr next_provider),
                         (''remainingDeadlineMs'', JInt remaining)] t))"

definition recovery_accept_result :: "int \<Rightarrow> recovery \<Rightarrow> bool \<times> recovery" where
  "recovery_accept_result attempt_epoch s =
     (if rv_terminal s \<or> attempt_epoch \<noteq> rv_attempt_epoch s
      then (False, recovery_record ''RESULT_REJECTED''
              [(''observedAttemptEpoch'', JInt attempt_epoch), (''reason'', JStr ''OLD_OR_DUPLICATE_ATTEMPT'')] s)
      else (True, recovery_record ''RESULT_AUTHORITATIVE'' [(''observedAttemptEpoch'', JInt attempt_epoch)]
              (s\<lparr>rv_terminal := True\<rparr>)))"

record recovery_proposal =
  vp_action :: string
  vp_attempt_epoch :: int
  vp_original_deadline_ms :: int
  vp_replacement_provider :: string
  vp_checkpoint_digest :: string

record progress_record =
  pr_request_id :: string
  pr_attempt_epoch :: int
  pr_role :: string
  pr_phase :: string
  pr_output_epoch :: int

record checkpoint_record =
  ck_request_id :: string
  ck_attempt_epoch :: int
  ck_checkpoint_digest :: string
  ck_output_epoch :: int

definition validate_recovery :: "recovery_proposal \<Rightarrow> int \<Rightarrow> int \<Rightarrow> py_error + unit" where
  "validate_recovery p current_attempt original_deadline_ms =
     (if vp_attempt_epoch p \<le> current_attempt then Inl (ValueError ''recovery attempt is stale'')
      else if vp_original_deadline_ms p \<noteq> original_deadline_ms
      then Inl (ValueError ''recovery changed the original deadline'')
      else Inr ())"

definition take_progress :: "progress_record option \<Rightarrow> recovery \<Rightarrow> (unit, recovery) outcome" where
  "take_progress progress s = (case progress of
       None \<Rightarrow> (Inr (), s)
     | Some p \<Rightarrow>
         if pr_request_id p \<noteq> rv_request_id s \<or> pr_attempt_epoch p \<noteq> rv_attempt_epoch s
         then (Inl (ValueError ''stale or foreign progress record''), s)
         else if pr_output_epoch p < rv_visible_output_epoch s
         then (Inl (ValueError ''visible output epoch regressed''), s)
         else (Inr (), s\<lparr>rv_visible_output_epoch := pr_output_epoch p\<rparr>))"

definition check_checkpoint :: "checkpoint_record option \<Rightarrow> recovery \<Rightarrow> (unit, recovery) outcome" where
  "check_checkpoint checkpoint s = (case checkpoint of
       None \<Rightarrow> (Inr (), s)
     | Some c \<Rightarrow>
         if ck_request_id c \<noteq> rv_request_id s \<or> ck_attempt_epoch c \<noteq> rv_attempt_epoch s
            \<or> ck_output_epoch c < rv_visible_output_epoch s
         then (Inl (ValueError ''checkpoint is stale or torn''), s)
         else (Inr (), s))"

definition recovery_apply_transition :: "recovery_proposal \<Rightarrow> int \<Rightarrow> progress_record option
    \<Rightarrow> checkpoint_record option \<Rightarrow> recovery \<Rightarrow> (recovery_action, recovery) outcome" where
  "recovery_apply_transition proposal at_ms progress checkpoint s =
     (case validate_recovery proposal (rv_attempt_epoch s) (rv_request_deadline_ms s) of
        Inl e \<Rightarrow> (Inl e, s)
      | Inr _ \<Rightarrow>
          and_then (take_progress progress s) (\<lambda>_ s1.
          and_then (check_checkpoint checkpoint s1) (\<lambda>_ s2.
            recovery_recover
              (reason_value (if vp_action proposal = ''retry-full-context''
                             then CACHE_MISS_FULL_CONTEXT_REQUIRED else PROVIDER_LOST))
              at_ms (vp_replacement_provider proposal) [] s2)))"

section \<open>The retry bounds\<close>

definition retry_start :: "retry \<Rightarrow> bool" where
  "retry_start s \<longleftrightarrow> (\<exists>m d b c t. retry_init m d b c t = Inr s)"

text \<open>\<open>random.randint(0, w)\<close> returns a number between 0 and \<open>w\<close>.\<close>

definition randint_ok :: "(int \<Rightarrow> int) \<Rightarrow> bool" where
  "randint_ok randint \<longleftrightarrow> (\<forall>w \<ge> 0. 0 \<le> randint w \<and> randint w \<le> w)"

inductive retry_step :: "retry \<Rightarrow> retry \<Rightarrow> bool" where
  begin_attempt: "retry_begin now_ms s = (r, t) \<Longrightarrow> retry_step s t"
| close_partial: "retry_close_partial send reservations s = (r, t) \<Longrightarrow> retry_step s t"
| receipt: "retry_accept_receipt i s = (b, t) \<Longrightarrow> retry_step s t"
| backoff: "randint_ok randint \<Longrightarrow> retry_next_backoff randint now_ms s = (r, t) \<Longrightarrow> retry_step s t"

definition retry_inv :: "retry \<Rightarrow> bool" where
  "retry_inv s \<longleftrightarrow> 0 \<le> rt_attempt s \<and> rt_attempt s \<le> rt_max_attempts s \<and> 0 < rt_base_ms s
     \<and> rt_base_ms s \<le> rt_cap_ms s \<and> list_all (\<lambda>d. 0 \<le> d \<and> d \<le> rt_cap_ms s) (rt_backoffs s)"

lemma retry_window_bounds:
  assumes "retry_inv s"
  shows "0 \<le> retry_window s" "retry_window s \<le> rt_cap_ms s"
  using assms by (auto simp: retry_inv_def retry_window_def)

lemma close_each_frame:
  "close_each send rs s = (r, t) \<Longrightarrow> \<exists>d. t = s\<lparr>rt_awaiting := d\<rparr>"
proof (induction send rs s rule: close_each.induct)
  case (1 send s)
  then show ?case by (auto intro: exI [of _ "rt_awaiting s"])
next
  case (2 send i e rest s)
  then show ?case
    by (fastforce split: if_splits option.splits intro: exI [of _ "rt_awaiting s"])
qed

lemma expire_awaiting_inv: "retry_inv (expire_awaiting now_ms s) = retry_inv s"
  by (simp add: retry_inv_def expire_awaiting_def)

lemma next_backoff_returns:
  assumes "randint_ok randint" "retry_inv s" "retry_next_backoff randint now_ms s = (Inr d, t)"
  shows "0 \<le> d \<and> d \<le> retry_window s \<and> d \<le> rt_cap_ms s \<and> now_ms + d < rt_deadline_ms s
    \<and> rt_awaiting t = [] \<and> rt_attempt s < rt_max_attempts s \<and> rt_backoffs t = rt_backoffs s @ [d]"
proof -
  let ?s = "expire_awaiting now_ms s"
  have w: "retry_window ?s = retry_window s" by (simp add: expire_awaiting_def retry_window_def)
  have d: "d = randint (retry_window s)" and rest: "now_ms + d < rt_deadline_ms s" "rt_awaiting t = []"
    "rt_attempt s < rt_max_attempts s" "rt_backoffs t = rt_backoffs s @ [d]"
    using assms(3) unfolding retry_next_backoff_def Let_def w
    by (auto simp: expire_awaiting_def split: if_splits)
  have "0 \<le> d" "d \<le> retry_window s"
    using assms(1) retry_window_bounds [OF assms(2)] unfolding d randint_ok_def by blast+
  with rest retry_window_bounds [OF assms(2)] show ?thesis by simp
qed

lemma retry_inv_backoff:
  assumes "retry_inv s" "randint_ok randint" "retry_next_backoff randint now_ms s = (r, t)"
  shows "retry_inv t"
proof (cases r)
  case (Inl e)
  with assms(3) have "t = expire_awaiting now_ms s
      \<or> t = (expire_awaiting now_ms s)\<lparr>rt_exhausted := rt_exhausted (expire_awaiting now_ms s) + 1\<rparr>"
    by (auto simp: retry_next_backoff_def Let_def split: if_splits)
  then show ?thesis using assms(1) by (auto simp: retry_inv_def expire_awaiting_def)
next
  case (Inr d)
  with next_backoff_returns [OF assms(2,1)] assms(3) have d: "0 \<le> d" "d \<le> rt_cap_ms s" by auto
  from Inr assms(3) have "t = (expire_awaiting now_ms s)\<lparr>rt_backoffs := rt_backoffs (expire_awaiting now_ms s) @ [d]\<rparr>"
    by (auto simp: retry_next_backoff_def Let_def split: if_splits)
  with assms(1) d show ?thesis by (auto simp: retry_inv_def expire_awaiting_def)
qed

interpretation retries: invariant_system retry_start retry_step retry_inv
proof
  fix s t
  show "retry_start s \<Longrightarrow> retry_inv s"
    by (auto simp: retry_start_def retry_init_def retry_inv_def split: if_splits)
  assume inv: "retry_inv s" and "retry_step s t"
  from this(2) show "retry_inv t"
  proof cases
    case (begin_attempt now_ms r)
    with inv show ?thesis by (auto simp: retry_begin_def retry_inv_def split: if_splits)
  next
    case (close_partial send reservations r)
    then obtain d where "t = s\<lparr>rt_awaiting := d\<rparr> \<or> t = s"
      using close_each_frame [of send reservations s r t]
      by (auto simp: retry_close_partial_def split: if_splits)
    with inv show ?thesis by (auto simp: retry_inv_def)
  next
    case (receipt i b)
    with inv show ?thesis by (auto simp: retry_accept_receipt_def retry_inv_def split: if_splits)
  next
    case (backoff randint now_ms r)
    show ?thesis by (rule retry_inv_backoff [OF inv backoff])
  qed
qed

text \<open>
  C20: Contention retries are bounded. In every reachable state the number of attempts lies between
  0 and the maximum and every backoff between 0 and the cap; a backoff that is returned lies
  within the jitter window of the attempt, ends before the total deadline, and is given only when
  no partial reservation awaits its release; and with the attempts used up \<open>begin\<close> raises.
\<close>

theorem retry_bounded:
  assumes "reachable retry_start retry_step s" and "randint_ok randint"
  shows "0 \<le> rt_attempt s \<and> rt_attempt s \<le> rt_max_attempts s
    \<and> list_all (\<lambda>d. 0 \<le> d \<and> d \<le> rt_cap_ms s) (rt_backoffs s)
    \<and> (retry_next_backoff randint now_ms s = (Inr d, t) \<longrightarrow>
        0 \<le> d \<and> d \<le> retry_window s \<and> d \<le> rt_cap_ms s \<and> now_ms + d < rt_deadline_ms s
        \<and> rt_awaiting t = [])
    \<and> (rt_attempt s = rt_max_attempts s \<longrightarrow> (\<exists>e. fst (retry_begin now_ms s) = Inl e))"
proof -
  have inv: "retry_inv s" using assms(1) by (rule retries.reachable_inv)
  moreover have "\<exists>e. fst (retry_begin now_ms s) = Inl e" if "rt_attempt s = rt_max_attempts s"
    using that by (simp add: retry_begin_def)
  moreover have "0 \<le> d \<and> d \<le> retry_window s \<and> d \<le> rt_cap_ms s \<and> now_ms + d < rt_deadline_ms s
      \<and> rt_awaiting t = []" if "retry_next_backoff randint now_ms s = (Inr d, t)"
    using next_backoff_returns [OF assms(2) inv that] by blast
  ultimately show ?thesis unfolding retry_inv_def by blast
qed

section \<open>Compensation: fences and outcome\<close>

inductive compensation_step :: "hash \<Rightarrow> compensation \<Rightarrow> compensation \<Rightarrow> bool" for sha where
  begin_attempt: "compensation_begin p k providers s = (r, t) \<Longrightarrow> compensation_step sha s t"
| replan: "compensation_replan sha signer verify at_ms p k providers required adopted fallback s = (r1, t)
    \<Longrightarrow> compensation_step sha s t"
| status: "enqueue_status_query sha signer provider txn at_ms s = (r2, t) \<Longrightarrow> compensation_step sha s t"
| dispatch: "dispatch_pending sender at_ms s = (r3, t) \<Longrightarrow> compensation_step sha s t"
| response: "accept_response attempt at_ms s = (b, t) \<Longrightarrow> compensation_step sha s t"
| cancel: "compensation_cancel at_ms s = (b, t) \<Longrightarrow> compensation_step sha s t"
| expire: "compensation_expire at_ms s = (b, t) \<Longrightarrow> compensation_step sha s t"

lemma enqueue_compensation_frame:
  assumes "enqueue_compensation sha signer at_ms n ps s = (r, t)"
  shows "\<exists>q. t = s\<lparr>cm_pending := q\<rparr> \<and> (\<forall>k. dict_has (cm_pending s) k \<longrightarrow> dict_has q k)"
  using assms
proof (induction sha signer at_ms n ps s rule: enqueue_compensation.induct)
  case (1 sha signer at_ms n s)
  then show ?case by (auto intro: exI [of _ "cm_pending s"])
next
  case (2 sha signer at_ms n p offer rest s)
  show ?case
  proof (cases "isl (signed_cancel sha signer s at_ms n p) \<or> isl (signed_release sha signer s at_ms n p offer)")
    case True
    with 2(2) have "t = s" by (auto split: sum.splits)
    then show ?thesis by (auto intro: exI [of _ "cm_pending s"])
  next
    case False
    then obtain c l where cl: "signed_cancel sha signer s at_ms n p = Inr c"
      "signed_release sha signer s at_ms n p offer = Inr l" by (metis sum.collapse(2))
    let ?s = "enqueue_control sha (ReleaseOffer l) (enqueue_control sha (CancelAttempt c) s)"
    obtain q where "t = ?s\<lparr>cm_pending := q\<rparr>" "\<forall>k. dict_has (cm_pending ?s) k \<longrightarrow> dict_has q k"
      using 2(1) [OF cl] 2(2) cl by auto
    then show ?thesis
      by (auto simp: enqueue_control_def dict_setdefault_def dict_has_def dict_simps split: option.splits)
  qed
qed

lemma enqueue_compensation_covers:
  assumes "enqueue_compensation sha signer at_ms n ps s = (Inr (), t)" "(p, offer) \<in> set ps"
  shows "\<exists>i c l. signed_cancel sha signer s at_ms i p = Inr c
    \<and> signed_release sha signer s at_ms i p offer = Inr l
    \<and> dict_has (cm_pending t) (control_digest sha (CancelAttempt c))
    \<and> dict_has (cm_pending t) (control_digest sha (ReleaseOffer l))"
  using assms
proof (induction sha signer at_ms n ps s rule: enqueue_compensation.induct)
  case (1 sha signer at_ms n s)
  then show ?case by simp
next
  case (2 sha signer at_ms n q o1 rest s)
  obtain c l where cl: "signed_cancel sha signer s at_ms n q = Inr c"
    "signed_release sha signer s at_ms n q o1 = Inr l"
    using 2(2) by (auto split: sum.splits)
  let ?s = "enqueue_control sha (ReleaseOffer l) (enqueue_control sha (CancelAttempt c) s)"
  have run: "enqueue_compensation sha signer at_ms (Suc n) rest ?s = (Inr (), t)" using 2(2) cl by simp
  have same: "signed_cancel sha signer ?s = signed_cancel sha signer s"
    "signed_release sha signer ?s = signed_release sha signer s"
    by (intro ext, simp add: signed_cancel_def signed_release_def enqueue_control_def)+
  show ?case
  proof (cases "(p, offer) \<in> set rest")
    case True
    with 2(1) [OF cl run] same show ?thesis by simp
  next
    case False
    with 2(3) have pq: "p = q" "offer = o1" by auto
    have "dict_has (cm_pending ?s) (control_digest sha (CancelAttempt c))"
      "dict_has (cm_pending ?s) (control_digest sha (ReleaseOffer l))"
      by (simp_all add: enqueue_control_def dict_setdefault_def dict_has_def dict_simps split: option.splits)
    with enqueue_compensation_frame [OF run] cl pq show ?thesis by fastforce
  qed
qed

lemma replan_cases:
  assumes "compensation_replan sha signer verify at_ms p k providers required adopted fallback s = (r, t)"
  obtains (refused) e where "r = Inl e" "t = s"
  | (aborted) e where "r = Inl e" "cm_terminal s = []" "t = s\<lparr>cm_terminal := ''ABORTED''\<rparr>"
  | (unsigned) e q where "r = Inl e" "cm_terminal s = []" "t = s\<lparr>cm_pending := q\<rparr>"
  | (done') tr q where "r = Inr tr" "cm_terminal s = []" "cm_attempt s \<noteq> 0"
      "at_attempt tr = cm_attempt s + 1" "p \<noteq> cm_plan_digest s" "k \<noteq> cm_token_digest s"
      "enqueue_compensation sha signer at_ms 0 (sort (cm_providers s)) s = (Inr (), s\<lparr>cm_pending := q\<rparr>)"
      "t = s\<lparr>cm_pending := q, cm_attempt := cm_attempt s + 1, cm_plan_digest := p,
         cm_token_digest := k, cm_providers := providers\<rparr>"
proof (cases "cm_attempt s = 0 \<or> cm_terminal s \<noteq> [] \<or> cm_deadline_ms s \<le> at_ms \<or> providers = []")
  case True
  with assms show thesis by (intro refused) (auto simp: compensation_replan_def)
next
  case open': False
  show thesis
  proof (cases "replan_checks verify at_ms p k providers adopted s")
    case (Inl e)
    with open' assms show thesis by (intro refused) (auto simp: compensation_replan_def)
  next
    case (Inr ad)
    then have fresh: "p \<noteq> cm_plan_digest s" "k \<noteq> cm_token_digest s"
      by (auto simp: replan_checks_def sum_then_Inr require_def split: if_splits)
    obtain w u where run: "enqueue_compensation sha signer at_ms 0 (sort (cm_providers s)) s = (w, u)"
      by (metis prod.exhaust)
    then obtain q where u: "u = s\<lparr>cm_pending := q\<rparr>" using enqueue_compensation_frame by blast
    show thesis
    proof (cases "\<not> set required \<subseteq> set (dict_keys ad) \<and> \<not> fallback")
      case True
      with open' Inr assms show thesis by (intro aborted) (auto simp: compensation_replan_def)
    next
      case False
      show thesis
      proof (cases w)
        case (Inl e)
        with False open' Inr assms run u show thesis by (intro unsigned [of e q]) (auto simp: compensation_replan_def)
      next
        case ok: (Inr x)
        with False open' Inr assms run u fresh show thesis
          by (intro done' [OF _ _ _ _ _ _ _ _ , of _ q]) (auto simp: compensation_replan_def)
      qed
    qed
  qed
qed

text \<open>What a call may change: only an open controller, its attempt only upwards.\<close>

lemma compensation_step_frame:
  assumes "compensation_step sha s t"
  shows "cm_attempt s \<le> cm_attempt t" "cm_terminal s \<noteq> [] \<Longrightarrow> cm_terminal t = cm_terminal s"
    "0 \<le> cm_attempt s \<Longrightarrow> 0 \<le> cm_attempt t"
proof -
  have "cm_attempt s \<le> cm_attempt t \<and> (cm_terminal s \<noteq> [] \<longrightarrow> cm_terminal t = cm_terminal s)
      \<or> cm_attempt s = 0 \<and> cm_attempt t = 1 \<and> cm_terminal t = cm_terminal s"
    using assms
  proof cases
    case (begin_attempt p k providers r)
    then show ?thesis by (auto simp: compensation_begin_def split: if_splits sum.splits)
  next
    case (replan signer verify at_ms p k providers required adopted fallback r1)
    then show ?thesis by (cases rule: replan_cases) auto
  next
    case (status signer provider txn at_ms r2)
    then show ?thesis by (auto simp: enqueue_status_query_def enqueue_control_def split: if_splits sum.splits)
  next
    case (dispatch sender at_ms r3)
    then show ?thesis by (auto simp: dispatch_pending_def Let_def split: if_splits)
  next
    case (response attempt at_ms b)
    then show ?thesis by (auto simp: accept_response_def accept_event_def split: if_splits)
  next
    case (cancel at_ms b)
    then show ?thesis by (auto simp: compensation_cancel_def split: if_splits)
  next
    case (expire at_ms b)
    then show ?thesis by (auto simp: compensation_expire_def split: if_splits)
  qed
  then show "cm_attempt s \<le> cm_attempt t" "cm_terminal s \<noteq> [] \<Longrightarrow> cm_terminal t = cm_terminal s"
    "0 \<le> cm_attempt s \<Longrightarrow> 0 \<le> cm_attempt t" by auto
qed

interpretation compensation_fence: attempt_fence "compensation_step sha" "\<lambda>s (_ :: unit). cm_attempt s"
  "\<lambda>s _ e. \<exists>at_ms. accept_event e at_ms s" for sha
  by unfold_locales (auto simp: accept_event_def dest: compensation_step_frame(1))

interpretation compensation_end: terminal_fence "compensation_step sha" cm_terminal "[]"
  "\<lambda>s (attempt, at_ms). accept_event attempt at_ms s" for sha
  by unfold_locales (auto simp: accept_event_def dest: compensation_step_frame(2))

text \<open>
  C30: A replan fences the attempt it replaces and compensates it. The new attempt has the next
  number and a fresh plan and token; for every provider of the old attempt a signed cancel of the
  attempt and a signed release of its offer, addressed to the provider, are pending; no event of
  the old attempt is accepted in any later state, and once a terminal outcome is reached no event
  of any attempt is.
\<close>

theorem replan_fences_attempt:
  assumes "compensation_replan sha signer verify at_ms p k providers required adopted fallback s = (Inr tr, t)"
    and "(compensation_step sha)\<^sup>*\<^sup>* t u"
  shows "at_attempt tr = cm_attempt s + 1 \<and> cm_attempt t = cm_attempt s + 1
    \<and> cm_plan_digest t = p \<and> p \<noteq> cm_plan_digest s \<and> cm_token_digest t = k \<and> k \<noteq> cm_token_digest s
    \<and> (\<forall>(q, offer) \<in> set (cm_providers s). \<exists>i c l. signed_cancel sha signer s at_ms i q = Inr c
         \<and> signed_release sha signer s at_ms i q offer = Inr l
         \<and> dict_has (cm_pending t) (control_digest sha (CancelAttempt c))
         \<and> dict_has (cm_pending t) (control_digest sha (ReleaseOffer l)))
    \<and> \<not> accept_event (cm_attempt s) now_ms u
    \<and> (cm_terminal u \<noteq> [] \<and> (compensation_step sha)\<^sup>*\<^sup>* u v \<longrightarrow> \<not> accept_event e now_ms v)"
  using assms(1)
proof (cases rule: replan_cases)
  case (done' tr' q)
  let ?pending = "s\<lparr>cm_pending := q\<rparr>"
  have "\<exists>i c l. signed_cancel sha signer s at_ms i pr = Inr c
         \<and> signed_release sha signer s at_ms i pr offer = Inr l
         \<and> dict_has (cm_pending t) (control_digest sha (CancelAttempt c))
         \<and> dict_has (cm_pending t) (control_digest sha (ReleaseOffer l))"
    if "(pr, offer) \<in> set (cm_providers s)" for pr offer
    using enqueue_compensation_covers [OF done'(7)] that done'(8) by simp
  moreover have "\<not> accept_event (cm_attempt s) now_ms u"
    using compensation_fence.fenced_forever [OF _ assms(2)] done'(8) by fastforce
  moreover have "\<not> accept_event e now_ms v" if "cm_terminal u \<noteq> []" "(compensation_step sha)\<^sup>*\<^sup>* u v"
    using compensation_end.terminal_rejects_forever [OF that(2,1), of "(e, now_ms)"] by simp
  ultimately show ?thesis using done' by auto
qed auto

section \<open>Bounded recovery: one result\<close>

definition recovery_begun :: "recovery \<Rightarrow> bool" where
  "recovery_begun s \<longleftrightarrow> (\<exists>r d a m. recovery_init r d a m = Inr s)"

inductive recovery_step :: "recovery \<Rightarrow> recovery \<Rightarrow> bool" where
  begin_attempt: "recovery_start provider s = (r, t) \<Longrightarrow> recovery_step s t"
| recover: "recovery_recover reason_text at_ms provider excluded s = (r1, t) \<Longrightarrow> recovery_step s t"
| result: "recovery_accept_result attempt s = (b, t) \<Longrightarrow> recovery_step s t"
| transition: "recovery_apply_transition proposal at_ms progress checkpoint s = (r1, t) \<Longrightarrow> recovery_step s t"

definition authoritative :: "(string, json) dict \<Rightarrow> bool" where
  "authoritative e \<longleftrightarrow> dict_get e ''event'' = Some (JStr ''RESULT_AUTHORITATIVE'')"

definition results_seen :: "recovery \<Rightarrow> nat" where
  "results_seen s = length (filter authoritative (rv_events s))"

definition recovery_inv :: "recovery \<Rightarrow> bool" where
  "recovery_inv s \<longleftrightarrow> 0 \<le> rv_replacements s \<and> rv_replacements s \<le> rv_max_replacements s
     \<and> rv_attempt_epoch s = (if rv_attempt_epoch s = 0 then 0 else rv_replacements s + 1)
     \<and> (rv_attempt_epoch s = 0 \<longrightarrow> rv_replacements s = 0)
     \<and> results_seen s \<le> (if rv_terminal s then 1 else 0)"

lemma event_get:
  "dict_get (fold (\<lambda>(k, v) d. dict_set k v d) fs d) k = (case dict_get (rev fs) k of None \<Rightarrow> dict_get d k | Some v \<Rightarrow> Some v)"
  by (induction fs arbitrary: d) (auto simp: dict_simps map_add_def split: option.splits)

lemma recovery_record_fields [simp]:
  "rv_replacements (recovery_record e fs s) = rv_replacements s"
  "rv_max_replacements (recovery_record e fs s) = rv_max_replacements s"
  "rv_attempt_epoch (recovery_record e fs s) = rv_attempt_epoch s"
  "rv_terminal (recovery_record e fs s) = rv_terminal s"
  by (simp_all add: recovery_record_def)

lemma results_seen_record:
  "dict_get (rev fs) ''event'' = None \<Longrightarrow> results_seen (recovery_record e fs s)
    = results_seen s + (if e = ''RESULT_AUTHORITATIVE'' then 1 else 0)"
  by (simp add: results_seen_def recovery_record_def authoritative_def event_get)

lemma results_seen_updates [simp]:
  "results_seen (s\<lparr>rv_excluded := x\<rparr>) = results_seen s"
  "results_seen (s\<lparr>rv_terminal := b\<rparr>) = results_seen s"
  "results_seen (s\<lparr>rv_terminal_reason := w\<rparr>) = results_seen s"
  "results_seen (s\<lparr>rv_replacements := i\<rparr>) = results_seen s"
  "results_seen (s\<lparr>rv_attempt_epoch := i\<rparr>) = results_seen s"
  "results_seen (s\<lparr>rv_provider := p\<rparr>) = results_seen s"
  "results_seen (s\<lparr>rv_visible_output_epoch := i\<rparr>) = results_seen s"
  by (simp_all add: results_seen_def)

lemma recover_cases:
  assumes "recovery_recover reason_text at_ms provider excluded s = (r, t)"
  obtains (raised) e where "r = Inl e" "t = s"
  | (closed) x a where "r = Inr a" "vx_action a = ''fail''" "rv_terminal s" "t = s\<lparr>rv_excluded := x\<rparr>"
  | (failed) x why fs a where "r = Inr a" "vx_action a = ''fail''" "\<not> rv_terminal s" "dict_get (rev fs) ''event'' = None"
      "t = recovery_record ''TERMINAL_FAILURE'' fs
         (s\<lparr>rv_excluded := x, rv_terminal := True, rv_terminal_reason := Some why\<rparr>)"
  | (replaced) x p fs a where "r = Inr a" "vx_attempt_epoch a = rv_attempt_epoch s + 1" "\<not> rv_terminal s"
      "rv_attempt_epoch s \<noteq> 0" "rv_replacements s < rv_max_replacements s" "dict_get (rev fs) ''event'' = None"
      "at_ms < rv_request_deadline_ms s"
      "t = recovery_record ''REPLACEMENT_DECISION'' fs
         (s\<lparr>rv_excluded := x, rv_replacements := rv_replacements s + 1,
            rv_attempt_epoch := rv_attempt_epoch s + 1, rv_provider := p\<rparr>)"
proof (cases "rv_attempt_epoch s = 0 \<or> isl (reason_of reason_text)")
  case True
  then have "isl (fst (recovery_recover reason_text at_ms provider excluded s))
      \<and> snd (recovery_recover reason_text at_ms provider excluded s) = s"
    by (cases "reason_of reason_text") (auto simp: recovery_recover_def)
  then show thesis using raised [of "projl r"] by (simp add: assms)
next
  case False
  then obtain reason where reason: "reason_of reason_text = Inr reason" by (metis sum.collapse(2))
  let ?x = "rv_excluded s \<union> set excluded"
  let ?next = "if reason = CACHE_MISS_FULL_CONTEXT_REQUIRED then rv_provider s else provider"
  consider (c) "rv_terminal s" | (d) "\<not> rv_terminal s" "rv_request_deadline_ms s \<le> at_ms"
    | (n) "\<not> rv_terminal s" "at_ms < rv_request_deadline_ms s"
        "rv_max_replacements s \<le> rv_replacements s \<or> ?next = [] \<or> ?next \<in> ?x"
    | (p) "\<not> rv_terminal s" "at_ms < rv_request_deadline_ms s"
        "\<not> (rv_max_replacements s \<le> rv_replacements s \<or> ?next = [] \<or> ?next \<in> ?x)"
    by linarith
  then show thesis
  proof cases
    case c
    with False reason assms show thesis
      by (intro closed) (auto simp: recovery_recover_def recovery_failure_def Let_def)
  next
    case d
    with False reason assms show thesis
      by (intro failed [of _ "[(''reason'', JStr (reason_value REQUEST_DEADLINE)), (''remainingDeadlineMs'', JInt 0)]"
            REQUEST_DEADLINE ?x])
        (auto simp: recovery_recover_def recovery_terminate_def recovery_failure_def Let_def)
  next
    case n
    have "recovery_recover reason_text at_ms provider excluded s = apfst Inr
        (recovery_terminate NO_COMPATIBLE_REPLACEMENT (rv_request_deadline_ms s - at_ms) (s\<lparr>rv_excluded := ?x\<rparr>))"
      using False reason n
      by (cases "reason = CACHE_MISS_FULL_CONTEXT_REQUIRED") (simp_all add: recovery_recover_def Let_def)
    with n(1) assms show thesis
      by (intro failed [of _ "[(''reason'', JStr (reason_value NO_COMPATIBLE_REPLACEMENT)),
            (''remainingDeadlineMs'', JInt (rv_request_deadline_ms s - at_ms))]" NO_COMPATIBLE_REPLACEMENT ?x])
        (auto simp: recovery_terminate_def recovery_failure_def Let_def)
  next
    case p
    let ?action = "if reason = CACHE_MISS_FULL_CONTEXT_REQUIRED then ''retry-full-context'' else ''replace''"
    let ?t = "s\<lparr>rv_excluded := ?x, rv_replacements := rv_replacements s + 1,
        rv_attempt_epoch := rv_attempt_epoch s + 1, rv_provider := ?next\<rparr>"
    let ?fs = "[(''reason'', JStr (reason_value reason)), (''action'', JStr ?action),
        (''oldAttemptEpoch'', JInt (rv_attempt_epoch s)), (''provider'', JStr ?next),
        (''remainingDeadlineMs'', JInt (rv_request_deadline_ms s - at_ms))]"
    have "\<exists>a. vx_attempt_epoch a = rv_attempt_epoch s + 1 \<and>
        recovery_recover reason_text at_ms provider excluded s
          = (Inr a, recovery_record ''REPLACEMENT_DECISION'' ?fs ?t)"
      using False reason p
      by (cases "reason = CACHE_MISS_FULL_CONTEXT_REQUIRED") (simp_all add: recovery_recover_def Let_def)
    with False p assms show thesis by (elim exE conjE) (rule replaced [of _ ?fs ?next ?x], auto)
  qed
qed

lemma recovery_inv_recover:
  assumes "recovery_inv s" "recovery_recover reason_text at_ms provider excluded s = (r, t)"
  shows "recovery_inv t"
  using assms(2)
proof (cases rule: recover_cases)
  case (raised e)
  with assms(1) show ?thesis by simp
next
  case (closed x a)
  with assms(1) show ?thesis by (simp add: recovery_inv_def split: if_splits)
next
  case (failed x why fs a)
  with assms(1) show ?thesis
    by (simp add: recovery_inv_def results_seen_record split: if_splits)
next
  case (replaced x p fs a)
  with assms(1) show ?thesis
    by (simp add: recovery_inv_def results_seen_record split: if_splits)
qed

lemma recovery_inv_epoch: "recovery_inv (s\<lparr>rv_visible_output_epoch := e\<rparr>) = recovery_inv s"
  by (simp add: recovery_inv_def)

lemma apply_transition_cases:
  assumes "recovery_apply_transition proposal at_ms progress checkpoint s = (r, t)"
  obtains (raised) e v where "r = Inl e" "t = s\<lparr>rv_visible_output_epoch := v\<rparr>"
  | (ran) v why where "recovery_recover why at_ms (vp_replacement_provider proposal) []
        (s\<lparr>rv_visible_output_epoch := v\<rparr>) = (r, t)"
proof -
  have same: "s = s\<lparr>rv_visible_output_epoch := rv_visible_output_epoch s\<rparr>" by simp
  obtain p s1 where p: "take_progress progress s = (p, s1)" by (metis prod.exhaust)
  then have "s1 = s\<lparr>rv_visible_output_epoch := rv_visible_output_epoch s1\<rparr>"
    by (auto simp: take_progress_def split: option.splits if_splits)
  then obtain v where s1: "s1 = s\<lparr>rv_visible_output_epoch := v\<rparr>" by blast
  obtain c s2 where c: "check_checkpoint checkpoint s1 = (c, s2)" by (metis prod.exhaust)
  then have s2: "s2 = s1" by (auto simp: check_checkpoint_def split: option.splits if_splits)
  show thesis
  proof (cases "validate_recovery proposal (rv_attempt_epoch s) (rv_request_deadline_ms s)")
    case (Inl e)
    with assms same show thesis by (intro raised [of e "rv_visible_output_epoch s"]) (auto simp: recovery_apply_transition_def)
  next
    case (Inr u)
    show thesis
    proof (cases "isl p \<or> isl c")
      case True
      with Inr assms p c s1 s2 show thesis
        by (intro raised [of "projl r" v]) (cases p; cases c; auto simp: recovery_apply_transition_def)+
    next
      case False
      then obtain x y where "p = Inr x" "c = Inr y" by (metis sum.collapse(2))
      with Inr assms p c s1 s2 show thesis by (intro ran) (auto simp: recovery_apply_transition_def)
    qed
  qed
qed

interpretation bounded_recovery: invariant_system recovery_begun recovery_step recovery_inv
proof
  fix s t
  show "recovery_begun s \<Longrightarrow> recovery_inv s"
    by (auto simp: recovery_begun_def recovery_init_def recovery_inv_def results_seen_def split: if_splits)
  assume inv: "recovery_inv s" and "recovery_step s t"
  from this(2) show "recovery_inv t"
  proof cases
    case (begin_attempt provider r)
    with inv show ?thesis
      by (auto simp: recovery_start_def recovery_inv_def results_seen_record split: if_splits)
  next
    case (recover reason_text at_ms provider excluded r1)
    show ?thesis by (rule recovery_inv_recover [OF inv recover])
  next
    case (result attempt b)
    with inv show ?thesis
      by (auto simp: recovery_accept_result_def recovery_inv_def results_seen_record split: if_splits)
  next
    case (transition proposal at_ms progress checkpoint r1)
    then show ?thesis
      by (cases rule: apply_transition_cases) (use inv recovery_inv_epoch recovery_inv_recover in blast)+
  qed
qed

lemma recovery_terminal_step:
  assumes "recovery_step s t" "rv_terminal s"
  shows "rv_terminal t"
  using assms(1)
proof cases
  case (begin_attempt provider r)
  with assms(2) show ?thesis by (auto simp: recovery_start_def split: if_splits)
next
  case (recover reason_text at_ms provider excluded r1)
  then show ?thesis by (cases rule: recover_cases) (use assms(2) in auto)
next
  case (result attempt b)
  with assms(2) show ?thesis by (auto simp: recovery_accept_result_def split: if_splits)
next
  case (transition proposal at_ms progress checkpoint r1)
  then show ?thesis
  proof (cases rule: apply_transition_cases)
    case (ran v why)
    then show ?thesis by (cases rule: recover_cases) (use assms(2) in auto)
  qed (use assms(2) in auto)
qed

interpretation recovery_end: terminal_fence recovery_step rv_terminal False
  "\<lambda>s attempt. fst (recovery_accept_result attempt s)"
  by unfold_locales (auto simp: recovery_accept_result_def dest: recovery_terminal_step)

text \<open>
  Recovery is bounded and has one result. In every reachable state a started request is in
  the attempt after its replacements, of which there are at most the maximum, and at most one
  result was declared authoritative; a result that is accepted comes from the current attempt,
  and after it no attempt's result is accepted in any later state.
\<close>

lemma recovery_single_result:
  assumes "reachable recovery_begun recovery_step s"
  shows "rv_attempt_epoch s \<le> rv_max_replacements s + 1
    \<and> (rv_attempt_epoch s \<noteq> 0 \<longrightarrow> rv_attempt_epoch s = rv_replacements s + 1)
    \<and> results_seen s \<le> 1
    \<and> (recovery_accept_result attempt s = (True, t) \<and> recovery_step\<^sup>*\<^sup>* t u \<longrightarrow>
        attempt = rv_attempt_epoch s \<and> fst (recovery_accept_result other u) = False)"
proof -
  have inv: "recovery_inv s" using assms by (rule bounded_recovery.reachable_inv)
  then have "rv_attempt_epoch s \<le> rv_max_replacements s + 1"
    "rv_attempt_epoch s \<noteq> 0 \<longrightarrow> rv_attempt_epoch s = rv_replacements s + 1" "results_seen s \<le> 1"
    by (auto simp: recovery_inv_def split: if_splits)
  moreover have "attempt = rv_attempt_epoch s \<and> \<not> fst (recovery_accept_result other u)"
    if "recovery_accept_result attempt s = (True, t)" "recovery_step\<^sup>*\<^sup>* t u"
  proof -
    have "attempt = rv_attempt_epoch s" "rv_terminal t"
      using that(1) by (auto simp: recovery_accept_result_def split: if_splits)
    with recovery_end.terminal_rejects_forever [OF that(2)] show ?thesis by blast
  qed
  ultimately show ?thesis by blast
qed

text \<open>
  A result for epoch 0 is accepted before any attempt has started: the epoch of a controller
  that has not started is 0 too. The recovery is then terminal, and a later failure of the first
  attempt is answered with \<open>fail\<close>.
\<close>

lemma result_before_start:
  assumes "recovery_init r d a m = Inr s"
  shows "fst (recovery_accept_result 0 s) = True \<and> rv_terminal (snd (recovery_accept_result 0 s))"
  using assms by (auto simp: recovery_init_def recovery_accept_result_def split: if_splits)

section \<open>Witnesses\<close>

definition demo_retry :: retry where
  "demo_retry = \<lparr>rt_max_attempts = 3, rt_deadline_ms = 100, rt_base_ms = 10, rt_cap_ms = 50,
     rt_attempt = 0, rt_awaiting = [], rt_release_receipts = 0, rt_expiry_fallbacks = 0,
     rt_backoffs = [], rt_exhausted = 0\<rparr>"

definition demo_retry1 :: retry where
  "demo_retry1 = demo_retry\<lparr>rt_attempt := 1\<rparr>"

theorem retry_bounded_witness:
  "rt_attempt demo_retry1 \<le> rt_max_attempts demo_retry1 \<and> (10 :: int) \<le> retry_window demo_retry1"
proof -
  have "retry_init 3 100 10 50 0 = Inr demo_retry" by (simp add: retry_init_def demo_retry_def)
  then have "retry_start demo_retry" unfolding retry_start_def by blast
  moreover have "retry_begin 1 demo_retry = (Inr 1, demo_retry1)"
    by (simp add: retry_begin_def demo_retry_def demo_retry1_def)
  then have "retry_step demo_retry demo_retry1" by (rule retry_step.begin_attempt)
  ultimately have "reachable retry_start retry_step demo_retry1" by (blast intro: reachable.intros)
  moreover have "randint_ok (\<lambda>w. w)" by (simp add: randint_ok_def)
  moreover have "retry_next_backoff (\<lambda>w. w) 2 demo_retry1 = (Inr 10, demo_retry1\<lparr>rt_backoffs := [10]\<rparr>)"
    by (simp add: retry_next_backoff_def expire_awaiting_def retry_window_def demo_retry_def demo_retry1_def)
  ultimately show ?thesis using retry_bounded by blast
qed

definition demo_sha :: "char \<Rightarrow> string" where
  "demo_sha c = ''sha256:'' @ replicate 64 c"

lemma demo_sha_ok: "canonical_digest_ok (demo_sha CHR ''a'')" "canonical_digest_ok (demo_sha CHR ''b'')"
  "canonical_digest_ok (demo_sha CHR ''c'')" "demo_sha CHR ''a'' \<noteq> demo_sha CHR ''b''"
  "demo_sha CHR ''a'' \<noteq> demo_sha CHR ''c''"
  by code_simp+

definition demo_compensation :: compensation where
  "demo_compensation = \<lparr>cm_request_id = ''r'', cm_requester = ''u'', cm_deadline_ms = 100,
     cm_authorization_digest = demo_sha CHR ''a'', cm_signer_key_id = ''k'', cm_attempt = 1,
     cm_plan_digest = demo_sha CHR ''a'', cm_token_digest = demo_sha CHR ''a'',
     cm_providers = [(''/p'', demo_sha CHR ''a'')], cm_pending = [], cm_terminal = []\<rparr>"

definition demo_replan :: "(attempt_transition, compensation) outcome" where
  "demo_replan = compensation_replan (\<lambda>_. ''h'') (\<lambda>_. ''s'') (\<lambda>_. True) 5 (demo_sha CHR ''b'')
     (demo_sha CHR ''c'') [(''/q'', demo_sha CHR ''a'')] [] [] False demo_compensation"

lemma demo_replan_returns: "demo_replan = (Inr (projr (fst demo_replan)), snd demo_replan)"
proof -
  have "\<not> isl (fst demo_replan)"
    by (simp add: demo_replan_def compensation_replan_def demo_compensation_def replan_checks_def
        require_offers_def require_sha256_def require_def demo_sha_ok demo_sha_ok(4,5) [symmetric]
        signed_cancel_def signed_release_def make_cancel_attempt_def make_release_offer_def
        sign_control_def enqueue_control_def)
  then show ?thesis by (simp add: prod_eq_iff)
qed

theorem replan_fences_attempt_witness:
  "cm_attempt (snd demo_replan) = 2 \<and> \<not> accept_event 1 6 (snd demo_replan)"
proof -
  have "cm_attempt demo_compensation = 1" by (simp add: demo_compensation_def)
  moreover note replan_fences_attempt [OF demo_replan_returns [unfolded demo_replan_def] rtranclp.rtrancl_refl]
  ultimately show ?thesis unfolding demo_replan_def by fastforce
qed

definition demo_recovery :: recovery where
  "demo_recovery = \<lparr>rv_request_id = ''r'', rv_request_deadline_ms = 100, rv_started_at_ms = 0,
     rv_max_replacements = 1, rv_attempt_epoch = 0, rv_provider = [], rv_replacements = 0,
     rv_terminal = False, rv_terminal_reason = None, rv_excluded = {}, rv_events = [],
     rv_visible_output_epoch = 0\<rparr>"

definition demo_recovery1 :: recovery where
  "demo_recovery1 = snd (recovery_start ''/p'' demo_recovery)"

definition demo_recovery2 :: recovery where
  "demo_recovery2 = snd (recovery_accept_result 1 demo_recovery1)"

theorem recovery_single_result_witness:
  "results_seen demo_recovery1 \<le> 1 \<and> fst (recovery_accept_result 1 demo_recovery2) = False"
proof -
  have "recovery_init ''r'' 100 0 1 = Inr demo_recovery" by (simp add: recovery_init_def demo_recovery_def)
  then have "recovery_begun demo_recovery" by (auto simp: recovery_begun_def)
  moreover have "recovery_step demo_recovery demo_recovery1"
    unfolding demo_recovery1_def by (rule recovery_step.begin_attempt [OF prod.collapse [symmetric]])
  ultimately have "reachable recovery_begun recovery_step demo_recovery1" by (blast intro: reachable.intros)
  moreover have "recovery_accept_result 1 demo_recovery1 = (True, demo_recovery2)"
    by (simp add: demo_recovery2_def demo_recovery1_def demo_recovery_def recovery_start_def
        recovery_accept_result_def recovery_record_def)
  ultimately show ?thesis using recovery_single_result by blast
qed

end
