(* ===== verification/Recovery_Stores.thy ===== *)
theory Recovery_Stores
  imports Contracts
begin

text \<open>
  The stores of core/recovery.py: the result rendezvous, the provider's registry of orphaned
  resources, and the replanned assignment context.

  \<^item> Both stores keep an attempt high watermark per request and interpret \<open>attempt_fence\<close>.
  \<^item> The \<open>cleanup\<close> callback of a sweep is a parameter: the exception it raises for a resource, if
    any. A sweep whose callback raises stops there and keeps what it has reclaimed.
\<close>

section \<open>Result rendezvous\<close>

type_synonym result_key = "string \<times> string"

record rendezvous =
  rz_records :: "(result_key, rendezvous_record) dict"
  rz_high_watermarks :: "(result_key, int) dict"

definition rendezvous_init :: "(result_key, rendezvous_record) dict option \<Rightarrow> rendezvous" where
  "rendezvous_init backing =
     (let records = (case backing of None \<Rightarrow> [] | Some b \<Rightarrow> b)
      in \<lparr>rz_records = records, rz_high_watermarks = dict_map rr_attempt_epoch records\<rparr>)"

definition record_key :: "rendezvous_record \<Rightarrow> result_key" where
  "record_key r = (rr_requester_identity r, rr_request_id r)"

definition rendezvous_publish :: "rendezvous_record \<Rightarrow> rendezvous \<Rightarrow> (rendezvous_record, rendezvous) outcome" where
  "rendezvous_publish r s =
     (let key = record_key r;
          current = dict_get (rz_records s) key
      in if rr_attempt_epoch r < dict_get0 (rz_high_watermarks s) key
         then (Inl (ValueError ''stale result attempt is fenced''), s)
         else if current = Some r then (Inr r, s)
         else if (case current of None \<Rightarrow> False | Some c \<Rightarrow> rr_visible c)
         then (Inl (ValueError ''terminal result is already visible''), s)
         else (Inr r, s\<lparr>rz_high_watermarks := dict_set key (rr_attempt_epoch r) (rz_high_watermarks s),
                        rz_records := dict_set key r (rz_records s)\<rparr>))"

definition rendezvous_resume :: "string \<Rightarrow> string \<Rightarrow> rendezvous \<Rightarrow> rendezvous_record option" where
  "rendezvous_resume requester_identity request_id s = dict_get (rz_records s) (requester_identity, request_id)"

definition rendezvous_fence_attempt :: "string \<Rightarrow> string \<Rightarrow> int \<Rightarrow> rendezvous \<Rightarrow> (unit, rendezvous) outcome" where
  "rendezvous_fence_attempt requester_identity request_id attempt_epoch s =
     (let key = (requester_identity, request_id) in
      if attempt_epoch < dict_get0 (rz_high_watermarks s) key
      then (Inl (ValueError ''attempt high watermark cannot regress''), s)
      else (Inr (), s\<lparr>rz_high_watermarks := dict_set key attempt_epoch (rz_high_watermarks s)\<rparr>))"

section \<open>Orphaned resources\<close>

type_synonym resource = "int \<times> string \<times> int"

definition RESOURCE_KINDS :: "string list" where
  "RESOURCE_KINDS = [''leases'', ''reservations'', ''sessions'', ''cache_pins'', ''runner_handles'']"

record registry =
  og_provider :: string
  og_provider_boot_epoch :: string
  og_tombstone_ttl_ms :: int
  og_resources :: "(string, (string, resource) dict) dict"
  og_high_watermarks :: "(string, int) dict"

definition registry_init :: "string \<Rightarrow> string \<Rightarrow> int \<Rightarrow> py_error + registry" where
  "registry_init provider provider_boot_epoch tombstone_ttl_ms =
     (if provider = [] \<or> provider_boot_epoch = [] \<or> tombstone_ttl_ms \<le> 0
      then Inl (ValueError ''orphan registry requires provider identity and TTL'')
      else Inr \<lparr>og_provider = provider, og_provider_boot_epoch = provider_boot_epoch,
                og_tombstone_ttl_ms = tombstone_ttl_ms,
                og_resources = map (\<lambda>kind. (kind, [])) RESOURCE_KINDS, og_high_watermarks = []\<rparr>)"

definition resources_of :: "string \<Rightarrow> registry \<Rightarrow> (string, resource) dict" where
  "resources_of kind s = (case dict_get (og_resources s) kind of None \<Rightarrow> [] | Some d \<Rightarrow> d)"

definition registry_retain :: "string \<Rightarrow> string \<Rightarrow> int \<Rightarrow> string \<Rightarrow> int \<Rightarrow> registry \<Rightarrow> (unit, registry) outcome" where
  "registry_retain kind resource_id expires_at_ms request_id attempt_epoch s =
     (if \<not> dict_has (og_resources s) kind \<or> resource_id = [] \<or> expires_at_ms \<le> 0
      then (Inl (ValueError ''invalid orphan-managed resource''), s)
      else if attempt_epoch < dict_get0 (og_high_watermarks s) request_id
      then (Inl (ValueError ''stale operation is fenced by cleanup tombstone''), s)
      else (Inr (), s\<lparr>og_resources := dict_set kind
             (dict_set resource_id (expires_at_ms, request_id, attempt_epoch) (resources_of kind s))
             (og_resources s)\<rparr>))"

text \<open>The watermark of a request raised to an attempt, and the removal of one resource.\<close>

definition raise_watermark :: "string \<Rightarrow> int \<Rightarrow> registry \<Rightarrow> registry" where
  "raise_watermark request_id attempt_epoch s =
     s\<lparr>og_high_watermarks := dict_set request_id
         (max (dict_get0 (og_high_watermarks s) request_id) attempt_epoch) (og_high_watermarks s)\<rparr>"

definition reclaim :: "string \<Rightarrow> string \<Rightarrow> registry \<Rightarrow> registry" where
  "reclaim kind resource_id s = (case dict_get (resources_of kind s) resource_id of
       None \<Rightarrow> s
     | Some (_, request_id, attempt_epoch) \<Rightarrow>
         raise_watermark request_id attempt_epoch
           (s\<lparr>og_resources := dict_set kind (dict_pop resource_id (resources_of kind s)) (og_resources s)\<rparr>))"

fun reclaim_each :: "(string \<Rightarrow> string \<Rightarrow> py_error option) \<Rightarrow> string \<Rightarrow> string list \<Rightarrow> registry
    \<Rightarrow> (unit, registry) outcome" where
  "reclaim_each cleanup kind [] s = (Inr (), s)"
| "reclaim_each cleanup kind (i # is) s =
     (let t = reclaim kind i s in
      case cleanup kind i of Some e \<Rightarrow> (Inl e, t) | None \<Rightarrow> reclaim_each cleanup kind is t)"

definition expired_ids :: "int \<Rightarrow> (string, resource) dict \<Rightarrow> string list" where
  "expired_ids at_ms d = sort (map fst (filter (\<lambda>(i, expiry, _). expiry \<le> at_ms) d))"

fun sweep_kinds :: "(string \<Rightarrow> string \<Rightarrow> py_error option) \<Rightarrow> int \<Rightarrow> string list
    \<Rightarrow> (string, string list) dict \<Rightarrow> registry \<Rightarrow> ((string, string list) dict, registry) outcome" where
  "sweep_kinds cleanup at_ms [] reclaimed s = (Inr reclaimed, s)"
| "sweep_kinds cleanup at_ms (kind # kinds) reclaimed s =
     (let expired = expired_ids at_ms (resources_of kind s) in
      and_then (reclaim_each cleanup kind expired s) (\<lambda>_ t.
        sweep_kinds cleanup at_ms kinds (dict_set kind expired reclaimed) t))"

definition registry_sweep :: "(string \<Rightarrow> string \<Rightarrow> py_error option) \<Rightarrow> int \<Rightarrow> string \<Rightarrow> registry
    \<Rightarrow> (orphan_cleanup, registry) outcome" where
  "registry_sweep cleanup at_ms sweep_id s =
     (if at_ms \<le> 0 \<or> sweep_id = []
      then (Inl (ValueError ''cleanup sweep requires timestamp and identity''), s)
      else and_then (sweep_kinds cleanup at_ms (dict_keys (og_resources s)) [] s) (\<lambda>reclaimed t.
        (make_orphan_cleanup
           \<lparr>oc_provider = og_provider t, oc_provider_boot_epoch = og_provider_boot_epoch t,
            oc_sweep_id = sweep_id, oc_swept_at_ms = at_ms, oc_reclaimed = reclaimed,
            oc_tombstone_high_watermarks = og_high_watermarks t,
            oc_tombstones_expire_at_ms = at_ms + og_tombstone_ttl_ms t, oc_next_retry_at_ms = 0\<rparr>, t)))"

text \<open>A restart expires every resource at \<open>at_ms\<close>, changes the boot epoch and sweeps.\<close>

definition mark_all :: "registry \<Rightarrow> registry" where
  "mark_all s = fold (\<lambda>(_, request_id, attempt_epoch). raise_watermark request_id attempt_epoch)
     (concat (map dict_values (dict_values (og_resources s)))) s"

definition expire_all :: "int \<Rightarrow> registry \<Rightarrow> registry" where
  "expire_all at_ms s = s\<lparr>og_resources :=
     dict_map (dict_map (\<lambda>(_, request_id, attempt_epoch). (at_ms, request_id, attempt_epoch))) (og_resources s)\<rparr>"

definition registry_restart :: "string \<Rightarrow> int \<Rightarrow> string \<Rightarrow> registry \<Rightarrow> (orphan_cleanup, registry) outcome" where
  "registry_restart provider_boot_epoch at_ms sweep_id s =
     (if provider_boot_epoch = [] \<or> provider_boot_epoch = og_provider_boot_epoch s
      then (Inl (ValueError ''restart requires a new Provider boot epoch''), s)
      else registry_sweep (\<lambda>_ _. None) at_ms sweep_id
             ((expire_all at_ms (mark_all s))\<lparr>og_provider_boot_epoch := provider_boot_epoch\<rparr>))"

section \<open>Replanned contexts\<close>

definition sorted_set :: "'a :: linorder list \<Rightarrow> 'a list" where
  "sorted_set xs = sort (remdups xs)"

definition replan_assignment_context :: "assignment_context \<Rightarrow> (string \<times> string) list \<Rightarrow> string list
    \<Rightarrow> py_error + assignment_context" where
  "replan_assignment_context c role_providers newly_excluded =
     make_assignment_context
       \<lparr>ac_request_id = ac_request_id c, ac_attempt_epoch = ac_attempt_epoch c + 1,
        ac_plan_digest = ac_plan_digest c, ac_model_variant_id = ac_model_variant_id c,
        ac_role_providers = sort (dict_of_list role_providers),
        ac_original_deadline_ms = ac_original_deadline_ms c,
        ac_excluded_providers = sorted_set (ac_excluded_providers c @ newly_excluded)\<rparr>"

section \<open>The rendezvous: fence and visible results\<close>

inductive rendezvous_step :: "rendezvous \<Rightarrow> rendezvous \<Rightarrow> bool" where
  publish: "rendezvous_publish r s = (v, t) \<Longrightarrow> rendezvous_step s t"
| fence: "rendezvous_fence_attempt u q n s = (w, t) \<Longrightarrow> rendezvous_step s t"

inductive_cases rendezvous_stepE: "rendezvous_step s t"

lemma publish_cases:
  assumes "rendezvous_publish r s = (v, t)"
  obtains (same) "t = s"
  | (stored) "dict_get0 (rz_high_watermarks s) (record_key r) \<le> rr_attempt_epoch r"
      "\<And>c. dict_get (rz_records s) (record_key r) = Some c \<Longrightarrow> \<not> rr_visible c"
      "t = s\<lparr>rz_high_watermarks := dict_set (record_key r) (rr_attempt_epoch r) (rz_high_watermarks s),
         rz_records := dict_set (record_key r) r (rz_records s)\<rparr>"
proof (cases "rr_attempt_epoch r < dict_get0 (rz_high_watermarks s) (record_key r)
    \<or> dict_get (rz_records s) (record_key r) = Some r
    \<or> (case dict_get (rz_records s) (record_key r) of None \<Rightarrow> False | Some c \<Rightarrow> rr_visible c)")
  case True
  with assms show thesis by (intro same) (auto simp: rendezvous_publish_def Let_def split: if_splits)
next
  case False
  with assms show thesis by (intro stored) (auto simp: rendezvous_publish_def Let_def)
qed

lemma rendezvous_watermark_step:
  assumes "rendezvous_step s t"
  shows "dict_get0 (rz_high_watermarks s) k \<le> dict_get0 (rz_high_watermarks t) k"
  using assms
proof (cases rule: rendezvous_step.cases)
  case (publish r v)
  then show ?thesis by (cases rule: publish_cases) auto
next
  case (fence u q n w)
  then show ?thesis by (auto simp: rendezvous_fence_attempt_def Let_def split: if_splits)
qed

interpretation rendezvous_fence: attempt_fence rendezvous_step "\<lambda>s. dict_get0 (rz_high_watermarks s)"
  "\<lambda>s k e. \<exists>r v t. record_key r = k \<and> rr_attempt_epoch r = e \<and> rendezvous_publish r s = (Inr v, t)"
proof
  fix s t k e
  show "rendezvous_step s t \<Longrightarrow> dict_get0 (rz_high_watermarks s) k \<le> dict_get0 (rz_high_watermarks t) k"
    by (rule rendezvous_watermark_step)
  show "\<exists>r v t. record_key r = k \<and> rr_attempt_epoch r = e \<and> rendezvous_publish r s = (Inr v, t)
      \<Longrightarrow> dict_get0 (rz_high_watermarks s) k \<le> e"
    by (auto simp: rendezvous_publish_def Let_def split: if_splits)
qed

lemma visible_step:
  assumes "dict_get (rz_records s) k = Some r" "rr_visible r" "rendezvous_step s t"
  shows "dict_get (rz_records t) k = Some r"
  using assms(3)
proof (cases rule: rendezvous_step.cases)
  case (publish q v)
  then show ?thesis
  proof (cases rule: publish_cases)
    case stored
    then have "record_key q \<noteq> k" using assms(1,2) by blast
    with stored assms(1) show ?thesis by (simp add: dict_simps)
  qed (use assms(1) in simp)
next
  case (fence u q n w)
  with assms(1) show ?thesis by (auto simp: rendezvous_fence_attempt_def Let_def split: if_splits)
qed

lemma visible_steps:
  "rendezvous_step\<^sup>*\<^sup>* s t \<Longrightarrow> dict_get (rz_records s) k = Some r \<Longrightarrow> rr_visible r \<Longrightarrow> dict_get (rz_records t) k = Some r"
  by (induction rule: rtranclp_induct) (auto intro: visible_step)

text \<open>
  C21: A visible result is final. Once a record that is visible is stored for a request, every
  later \<open>resume\<close> returns it and every publication of another record for the request raises and
  changes nothing; and no record of an attempt below the request's high watermark is ever
  published.
\<close>

theorem visible_result_final:
  assumes "rendezvous_resume u q s = Some r" and "rr_visible r" and "rendezvous_step\<^sup>*\<^sup>* s t"
  shows "rendezvous_resume u q t = Some r
    \<and> (record_key r' = (u, q) \<and> r' \<noteq> r \<longrightarrow> (\<exists>e. rendezvous_publish r' t = (Inl e, t)))
    \<and> (rr_attempt_epoch z < dict_get0 (rz_high_watermarks s) (record_key z) \<longrightarrow>
        (\<exists>e. rendezvous_publish z t = (Inl e, t)))"
proof (intro conjI impI)
  have r: "dict_get (rz_records t) (u, q) = Some r"
    using visible_steps [OF assms(3)] assms(1,2) by (simp add: rendezvous_resume_def)
  then show "rendezvous_resume u q t = Some r" by (simp add: rendezvous_resume_def)
  show "\<exists>e. rendezvous_publish r' t = (Inl e, t)" if "record_key r' = (u, q) \<and> r' \<noteq> r"
    using that r assms(2) by (auto simp: rendezvous_publish_def Let_def)
  assume "rr_attempt_epoch z < dict_get0 (rz_high_watermarks s) (record_key z)"
  also have "\<dots> \<le> dict_get0 (rz_high_watermarks t) (record_key z)"
    using assms(3) by (rule rendezvous_fence.watermark_steps)
  finally show "\<exists>e. rendezvous_publish z t = (Inl e, t)" by (simp add: rendezvous_publish_def)
qed

section \<open>The registry\<close>

inductive registry_step :: "registry \<Rightarrow> registry \<Rightarrow> bool" where
  retain: "registry_retain kind i e r n s = (w, t) \<Longrightarrow> registry_step s t"
| sweep: "registry_sweep cleanup at_ms sweep_id s = (v, t) \<Longrightarrow> registry_step s t"
| restart: "registry_restart boot at_ms sweep_id s = (v, t) \<Longrightarrow> registry_step s t"

definition registry_start :: "registry \<Rightarrow> bool" where
  "registry_start s \<longleftrightarrow> (\<exists>p b ttl. registry_init p b ttl = Inr s)"

definition registry_inv :: "registry \<Rightarrow> bool" where
  "registry_inv s \<longleftrightarrow> dict_keys (og_resources s) = RESOURCE_KINDS
     \<and> (\<forall>kind. dict_ok (resources_of kind s))
     \<and> og_provider s \<noteq> [] \<and> og_provider_boot_epoch s \<noteq> [] \<and> 0 < og_tombstone_ttl_ms s"

lemma raise_watermark_fields [simp]:
  "og_resources (raise_watermark q n s) = og_resources s"
  "resources_of kind (raise_watermark q n s) = resources_of kind s"
  "og_provider (raise_watermark q n s) = og_provider s"
  "og_provider_boot_epoch (raise_watermark q n s) = og_provider_boot_epoch s"
  "og_tombstone_ttl_ms (raise_watermark q n s) = og_tombstone_ttl_ms s"
  "dict_get0 (og_high_watermarks (raise_watermark q n s)) r
     = (if r = q then max (dict_get0 (og_high_watermarks s) q) n else dict_get0 (og_high_watermarks s) r)"
  by (simp_all add: raise_watermark_def resources_of_def)

lemma resources_of_set [simp]:
  "resources_of k (s\<lparr>og_resources := dict_set kind d (og_resources s)\<rparr>) = (if k = kind then d else resources_of k s)"
  by (simp add: resources_of_def dict_simps)

lemma reclaim_fields [simp]:
  "og_provider (reclaim kind i s) = og_provider s"
  "og_provider_boot_epoch (reclaim kind i s) = og_provider_boot_epoch s"
  "og_tombstone_ttl_ms (reclaim kind i s) = og_tombstone_ttl_ms s"
  by (simp_all add: reclaim_def split: option.splits prod.splits)

lemma reclaim_resources:
  "resources_of k (reclaim kind i s) = (if k = kind then dict_pop i (resources_of kind s) else resources_of k s)"
  by (auto simp: reclaim_def dict_pop_absent split: option.splits prod.splits)

lemma reclaim_keys:
  "dict_keys (og_resources (reclaim kind i s)) = dict_keys (og_resources s)"
proof (cases "dict_get (resources_of kind s) i")
  case None
  then show ?thesis by (simp add: reclaim_def)
next
  case (Some v)
  then have "kind \<in> set (dict_keys (og_resources s))"
    by (cases "dict_get (og_resources s) kind") (auto simp: resources_of_def dest!: dict_get_in dict_key_in)
  with Some show ?thesis by (simp add: reclaim_def dict_keys_set_member split: prod.splits del: set_map)
qed

lemma reclaim_watermark:
  "dict_get0 (og_high_watermarks s) r \<le> dict_get0 (og_high_watermarks (reclaim kind i s)) r"
  "dict_get (resources_of kind s) i = Some (e, q, n) \<Longrightarrow> n \<le> dict_get0 (og_high_watermarks (reclaim kind i s)) q"
  by (auto simp: reclaim_def split: option.splits prod.splits)

text \<open>What a run of reclaims, complete or cut short by an exception, keeps.\<close>

definition reclaims :: "registry \<Rightarrow> registry \<Rightarrow> bool" where
  "reclaims s t \<longleftrightarrow> (\<lambda>s t. \<exists>kind i. t = reclaim kind i s)\<^sup>*\<^sup>* s t"

lemma reclaims_refl [simp]: "reclaims s s"
  by (simp add: reclaims_def)

lemma reclaims_trans: "reclaims s t \<Longrightarrow> reclaims t u \<Longrightarrow> reclaims s u"
  by (simp add: reclaims_def)

lemma reclaims_one: "reclaims s (reclaim kind i s)"
  unfolding reclaims_def by (rule r_into_rtranclp) blast

lemma reclaims_inv: "reclaims s t \<Longrightarrow> registry_inv s \<Longrightarrow> registry_inv t"
  unfolding reclaims_def
proof (induction rule: rtranclp_induct)
  case (step t u)
  then show ?case by (auto simp: registry_inv_def reclaim_resources reclaim_keys)
qed

lemma reclaims_watermark:
  "reclaims s t \<Longrightarrow> dict_get0 (og_high_watermarks s) r \<le> dict_get0 (og_high_watermarks t) r"
  unfolding reclaims_def
  by (induction rule: rtranclp_induct) (auto intro: order_trans reclaim_watermark(1))

lemma reclaim_each_reclaims: "reclaim_each cleanup kind is s = (r, t) \<Longrightarrow> reclaims s t"
proof (induction cleanup kind "is" s rule: reclaim_each.induct)
  case (2 cleanup kind i js s)
  then show ?case
    by (auto simp: Let_def intro: reclaims_one reclaims_trans [OF reclaims_one] split: option.splits)
qed simp

lemma sweep_kinds_reclaims: "sweep_kinds cleanup at_ms kinds d s = (r, t) \<Longrightarrow> reclaims s t"
proof (induction cleanup at_ms kinds d s rule: sweep_kinds.induct)
  case (2 cleanup at_ms kind kinds d s)
  then show ?case
    by (auto simp: Let_def intro: reclaim_each_reclaims reclaims_trans [OF reclaim_each_reclaims]
        elim!: and_then_cases)
qed simp

lemma sweep_reclaims: "registry_sweep cleanup at_ms sweep_id s = (r, t) \<Longrightarrow> reclaims s t"
  by (auto simp: registry_sweep_def intro: sweep_kinds_reclaims elim!: and_then_cases split: if_splits)

lemma retain_inv:
  assumes "registry_inv s" "registry_retain kind i e r n s = (w, t)"
  shows "registry_inv t"
proof (cases "t = s")
  case False
  with assms(2) have kind: "dict_has (og_resources s) kind"
    and t: "t = s\<lparr>og_resources := dict_set kind (dict_set i (e, r, n) (resources_of kind s)) (og_resources s)\<rparr>"
    by (auto simp: registry_retain_def split: if_splits)
  then have "kind \<in> set (dict_keys (og_resources s))" by (simp add: dict_has_def dict_get_None_iff)
  with assms(1) t show ?thesis by (auto simp: registry_inv_def dict_keys_set_member simp del: set_map)
qed (use assms(1) in simp)

lemma retain_watermark:
  "registry_retain kind i e r n s = (w, t) \<Longrightarrow> og_high_watermarks t = og_high_watermarks s"
  by (auto simp: registry_retain_def split: if_splits)

lemma mark_fold:
  "og_resources (fold (\<lambda>(_, q, n). raise_watermark q n) xs s) = og_resources s
   \<and> og_provider (fold (\<lambda>(_, q, n). raise_watermark q n) xs s) = og_provider s
   \<and> og_tombstone_ttl_ms (fold (\<lambda>(_, q, n). raise_watermark q n) xs s) = og_tombstone_ttl_ms s
   \<and> dict_get0 (og_high_watermarks s) r
      \<le> dict_get0 (og_high_watermarks (fold (\<lambda>(_, q, n). raise_watermark q n) xs s)) r"
proof (induction xs arbitrary: s)
  case (Cons x xs)
  obtain e q n where "x = (e, q, n)" by (metis prod.exhaust)
  with Cons [of "raise_watermark q n s"] show ?case by (auto split: if_splits)
qed simp

lemma resources_of_expire: "resources_of kind (expire_all at_ms s)
    = dict_map (\<lambda>(_, q, n). (at_ms, q, n)) (resources_of kind s)"
  by (simp add: resources_of_def expire_all_def dict_map_def [of _ "[]"] split: option.splits)

definition restarted :: "string \<Rightarrow> int \<Rightarrow> registry \<Rightarrow> registry" where
  "restarted boot at_ms s = (expire_all at_ms (mark_all s))\<lparr>og_provider_boot_epoch := boot\<rparr>"

lemma restarted_facts:
  "dict_keys (og_resources (restarted boot at_ms s)) = dict_keys (og_resources s)"
  "resources_of kind (restarted boot at_ms s) = dict_map (\<lambda>(_, q, n). (at_ms, q, n)) (resources_of kind s)"
  "dict_get0 (og_high_watermarks s) r \<le> dict_get0 (og_high_watermarks (restarted boot at_ms s)) r"
  "og_provider (restarted boot at_ms s) = og_provider s"
  "og_tombstone_ttl_ms (restarted boot at_ms s) = og_tombstone_ttl_ms s"
  "og_provider_boot_epoch (restarted boot at_ms s) = boot"
proof -
  let ?xs = "concat (map dict_values (dict_values (og_resources s)))"
  note m = mark_fold [of ?xs s r, folded mark_all_def]
  have res: "resources_of kind (mark_all s) = resources_of kind s" using m by (simp add: resources_of_def)
  show "dict_keys (og_resources (restarted boot at_ms s)) = dict_keys (og_resources s)"
    "dict_get0 (og_high_watermarks s) r \<le> dict_get0 (og_high_watermarks (restarted boot at_ms s)) r"
    "og_provider (restarted boot at_ms s) = og_provider s"
    "og_tombstone_ttl_ms (restarted boot at_ms s) = og_tombstone_ttl_ms s"
    "og_provider_boot_epoch (restarted boot at_ms s) = boot"
    using m by (simp_all add: restarted_def expire_all_def)
  have "resources_of kind (restarted boot at_ms s) = resources_of kind (expire_all at_ms (mark_all s))"
    by (simp add: restarted_def resources_of_def)
  then show "resources_of kind (restarted boot at_ms s) = dict_map (\<lambda>(_, q, n). (at_ms, q, n)) (resources_of kind s)"
    by (simp only: resources_of_expire res)
qed

lemma restart_cases:
  assumes "registry_restart boot at_ms sweep_id s = (v, t)"
  obtains "t = s" | "boot \<noteq> []" "registry_sweep (\<lambda>_ _. None) at_ms sweep_id (restarted boot at_ms s) = (v, t)"
  using assms by (auto simp: registry_restart_def restarted_def split: if_splits)

lemma registry_step_inv:
  assumes "registry_inv s" "registry_step s t"
  shows "registry_inv t"
  using assms(2)
proof cases
  case (retain kind i e r n w)
  with assms(1) show ?thesis by (blast intro: retain_inv)
next
  case (sweep cleanup at_ms sweep_id v)
  with assms(1) show ?thesis by (blast intro: reclaims_inv sweep_reclaims)
next
  case (restart boot at_ms sweep_id v)
  then show ?thesis
  proof (cases rule: restart_cases)
    case 2
    moreover have "registry_inv (restarted boot at_ms s)"
      using assms(1) 2(1) by (simp add: registry_inv_def restarted_facts)
    ultimately show ?thesis by (blast intro: reclaims_inv sweep_reclaims)
  qed (use assms(1) in simp)
qed

interpretation registry_system: invariant_system registry_start registry_step registry_inv
proof
  fix s
  show "registry_start s \<Longrightarrow> registry_inv s"
    by (auto simp: registry_start_def registry_init_def registry_inv_def RESOURCE_KINDS_def
        resources_of_def split: if_splits)
qed (rule registry_step_inv)

lemma registry_watermark_step:
  assumes "registry_step s t"
  shows "dict_get0 (og_high_watermarks s) r \<le> dict_get0 (og_high_watermarks t) r"
  using assms
proof cases
  case (retain kind i e r n w)
  then show ?thesis by (simp add: retain_watermark)
next
  case (sweep cleanup at_ms sweep_id v)
  then show ?thesis by (blast intro: reclaims_watermark sweep_reclaims)
next
  case (restart boot at_ms sweep_id v)
  then show ?thesis
  proof (cases rule: restart_cases)
    case 2
    then show ?thesis
      using restarted_facts(3) by (blast intro: order_trans reclaims_watermark sweep_reclaims)
  qed simp
qed

interpretation registry_fence: attempt_fence registry_step "\<lambda>s. dict_get0 (og_high_watermarks s)"
  "\<lambda>s q n. \<exists>kind i e t. registry_retain kind i e q n s = (Inr (), t)"
proof
  fix s t k n
  show "registry_step s t \<Longrightarrow> dict_get0 (og_high_watermarks s) k \<le> dict_get0 (og_high_watermarks t) k"
    by (rule registry_watermark_step)
  show "\<exists>kind i e t. registry_retain kind i e k n s = (Inr (), t) \<Longrightarrow> dict_get0 (og_high_watermarks s) k \<le> n"
    by (auto simp: registry_retain_def split: if_splits)
qed

section \<open>What a sweep removes\<close>

definition live_at :: "int \<Rightarrow> (string, resource) dict \<Rightarrow> (string, resource) dict" where
  "live_at at_ms d = filter (\<lambda>(i, expiry, _). at_ms < expiry) d"

lemma reclaim_each_all: "reclaim_each (\<lambda>_ _. None) kind is s = (Inr (), fold (reclaim kind) is s)"
  by (induction "is" arbitrary: s) (simp_all add: Let_def)

lemma fold_reclaim_resources:
  "resources_of k (fold (reclaim kind) is s)
     = (if k = kind then filter (\<lambda>p. fst p \<notin> set is) (resources_of kind s) else resources_of k s)"
  by (induction "is" arbitrary: s) (auto simp: reclaim_resources AList.delete_eq case_prod_beta
      intro!: filter_cong)

lemma fold_reclaim_watermark:
  "distinct is \<Longrightarrow> i \<in> set is \<Longrightarrow> dict_get (resources_of kind s) i = Some (e, q, n)
    \<Longrightarrow> n \<le> dict_get0 (og_high_watermarks (fold (reclaim kind) is s)) q"
proof (induction "is" arbitrary: s)
  case (Cons j js)
  show ?case
  proof (cases "i = j")
    case True
    have "reclaims (reclaim kind j s) (fold (reclaim kind) js (reclaim kind j s))"
      by (rule reclaim_each_reclaims [OF reclaim_each_all])
    with reclaim_watermark(2) [OF Cons.prems(3)] True show ?thesis
      by (auto intro: order_trans dest: reclaims_watermark)
  next
    case False
    with Cons.prems have "dict_get (resources_of kind (reclaim kind j s)) i = Some (e, q, n)"
      by (simp add: reclaim_resources dict_simps)
    with Cons False show ?thesis by simp
  qed
qed simp

lemma set_expired_ids: "i \<in> set (expired_ids at_ms d) \<longleftrightarrow> (\<exists>e x. (i, e, x) \<in> set d \<and> e \<le> at_ms)"
  by (force simp: expired_ids_def)

lemma expired_ids_facts:
  assumes "dict_ok d"
  shows "distinct (expired_ids at_ms d)"
    "filter (\<lambda>p. fst p \<notin> set (expired_ids at_ms d)) d = live_at at_ms d"
    "dict_get d i = Some (e, q, n) \<Longrightarrow> e \<le> at_ms \<Longrightarrow> i \<in> set (expired_ids at_ms d)"
proof -
  have keys: "distinct (map fst d)" using assms by (simp add: dict_ok_def)
  then show "distinct (expired_ids at_ms d)"
    by (simp add: expired_ids_def distinct_map_filter)
  have "fst p \<in> set (expired_ids at_ms d) \<longleftrightarrow> fst (snd p) \<le> at_ms" if "p \<in> set d" for p
  proof -
    obtain i e x where p: "p = (i, e, x)" by (metis prod.exhaust)
    have "e' = e" if "(i, e', x') \<in> set d" for e' x'
      using dict_ok_unique [OF assms that] \<open>p \<in> set d\<close> p by blast
    with that show ?thesis unfolding set_expired_ids p fst_conv snd_conv by blast
  qed
  then show "filter (\<lambda>p. fst p \<notin> set (expired_ids at_ms d)) d = live_at at_ms d"
    unfolding live_at_def by (intro filter_cong) auto
  show "dict_get d i = Some (e, q, n) \<Longrightarrow> e \<le> at_ms \<Longrightarrow> i \<in> set (expired_ids at_ms d)"
    unfolding set_expired_ids by (blast dest: dict_get_in)
qed

lemma sweep_kinds_all:
  assumes "distinct kinds" "\<And>k. dict_ok (resources_of k s)"
  shows "\<exists>d' t. sweep_kinds (\<lambda>_ _. None) at_ms kinds d s = (Inr d', t)
    \<and> (\<forall>k. resources_of k t = (if k \<in> set kinds then live_at at_ms (resources_of k s) else resources_of k s))
    \<and> (\<forall>k. dict_get d' k = (if k \<in> set kinds then Some (expired_ids at_ms (resources_of k s)) else dict_get d k))
    \<and> (\<forall>k i e q n. k \<in> set kinds \<and> dict_get (resources_of k s) i = Some (e, q, n) \<and> e \<le> at_ms
         \<longrightarrow> n \<le> dict_get0 (og_high_watermarks t) q)"
  using assms
proof (induction kinds arbitrary: s d)
  case Nil
  then show ?case by simp
next
  case (Cons kind kinds)
  let ?ids = "expired_ids at_ms (resources_of kind s)"
  let ?s = "fold (reclaim kind) ?ids s"
  note ids = expired_ids_facts [OF Cons.prems(2) [of kind], where at_ms = at_ms]
  have res: "resources_of k ?s = (if k = kind then live_at at_ms (resources_of kind s) else resources_of k s)" for k
    using ids(2) by (simp add: fold_reclaim_resources)
  have ok: "dict_ok (resources_of k ?s)" for k
    using Cons.prems(2) by (simp add: res live_at_def dict_ok_filter)
  have "distinct kinds" using Cons.prems(1) by simp
  from Cons.IH [OF this ok, of "dict_set kind ?ids d"] obtain d' t where
    run: "sweep_kinds (\<lambda>_ _. None) at_ms kinds (dict_set kind ?ids d) ?s = (Inr d', t)"
    and resources: "\<And>k. resources_of k t
        = (if k \<in> set kinds then live_at at_ms (resources_of k ?s) else resources_of k ?s)"
    and listed: "\<And>k. dict_get d' k
        = (if k \<in> set kinds then Some (expired_ids at_ms (resources_of k ?s)) else dict_get (dict_set kind ?ids d) k)"
    and marks: "\<And>k i e q n. k \<in> set kinds \<Longrightarrow> dict_get (resources_of k ?s) i = Some (e, q, n) \<Longrightarrow> e \<le> at_ms
        \<Longrightarrow> n \<le> dict_get0 (og_high_watermarks t) q"
    by blast
  have up: "dict_get0 (og_high_watermarks ?s) q \<le> dict_get0 (og_high_watermarks t) q" for q
    using sweep_kinds_reclaims [OF run] by (rule reclaims_watermark)
  have "n \<le> dict_get0 (og_high_watermarks t) q"
    if "k \<in> set (kind # kinds)" "dict_get (resources_of k s) i = Some (e, q, n)" "e \<le> at_ms" for k i e q n
  proof (cases "k = kind")
    case True
    with that ids have "n \<le> dict_get0 (og_high_watermarks ?s) q" by (blast intro: fold_reclaim_watermark)
    then show ?thesis using up by (rule order_trans)
  next
    case False
    with that marks [of k i e q n] show ?thesis by (simp add: res)
  qed
  moreover have "resources_of k t
      = (if k \<in> set (kind # kinds) then live_at at_ms (resources_of k s) else resources_of k s)" for k
    using Cons.prems(1) by (simp add: resources res)
  moreover have "dict_get d' k
      = (if k \<in> set (kind # kinds) then Some (expired_ids at_ms (resources_of k s)) else dict_get d k)" for k
    using Cons.prems(1) by (simp add: listed res dict_simps)
  moreover have "sweep_kinds (\<lambda>_ _. None) at_ms (kind # kinds) d s = (Inr d', t)"
    using run by (simp add: reclaim_each_all Let_def)
  ultimately show ?case by blast
qed

text \<open>
  C22: A sweep reclaims exactly what has expired. In every reachable registry, a sweep whose
  cleanup does not raise returns a record that lists, for each resource kind, the expired
  identifiers in order; it keeps exactly the resources that have not expired, raises the high
  watermark of the request of every reclaimed resource to its attempt, and from then on no
  resource of an older attempt of the request is retained.
\<close>

theorem orphan_sweep_exact:
  assumes "reachable registry_start registry_step s" and "0 < at_ms" and "sweep_id \<noteq> []"
  shows "\<exists>rec t. registry_sweep (\<lambda>_ _. None) at_ms sweep_id s = (Inr rec, t)
    \<and> (\<forall>kind \<in> set RESOURCE_KINDS.
         dict_get (oc_reclaimed rec) kind = Some (expired_ids at_ms (resources_of kind s))
         \<and> resources_of kind t = live_at at_ms (resources_of kind s)
         \<and> (\<forall>i e q n. dict_get (resources_of kind s) i = Some (e, q, n) \<and> e \<le> at_ms \<longrightarrow>
              n \<le> dict_get0 (og_high_watermarks t) q
              \<and> (\<forall>u m k j x w. registry_step\<^sup>*\<^sup>* t u \<and> m < n \<longrightarrow> registry_retain k j x q m u \<noteq> (Inr (), w))))"
proof -
  have inv: "registry_inv s" using assms(1) by (rule registry_system.reachable_inv)
  then have kinds: "dict_keys (og_resources s) = RESOURCE_KINDS" and ok: "\<And>k. dict_ok (resources_of k s)"
    by (auto simp: registry_inv_def)
  have "distinct RESOURCE_KINDS" by (simp add: RESOURCE_KINDS_def)
  from sweep_kinds_all [OF this ok, of at_ms "[]"] obtain d t where
    run: "sweep_kinds (\<lambda>_ _. None) at_ms RESOURCE_KINDS [] s = (Inr d, t)"
    and resources: "\<And>k. k \<in> set RESOURCE_KINDS \<Longrightarrow> resources_of k t = live_at at_ms (resources_of k s)"
    and listed: "\<And>k. k \<in> set RESOURCE_KINDS \<Longrightarrow> dict_get d k = Some (expired_ids at_ms (resources_of k s))"
    and marks: "\<And>k i e q n. k \<in> set RESOURCE_KINDS \<Longrightarrow> dict_get (resources_of k s) i = Some (e, q, n) \<Longrightarrow>
        e \<le> at_ms \<Longrightarrow> n \<le> dict_get0 (og_high_watermarks t) q" by auto
  have "registry_inv t" using sweep_kinds_reclaims [OF run] inv by (rule reclaims_inv)
  then obtain rec where rec: "registry_sweep (\<lambda>_ _. None) at_ms sweep_id s = (Inr rec, t)" "oc_reclaimed rec = d"
    using run assms(2,3) by (auto simp: registry_sweep_def kinds make_orphan_cleanup_def registry_inv_def)
  have "registry_retain k j x q m u \<noteq> (Inr (), w)"
    if "n \<le> dict_get0 (og_high_watermarks t) q" "registry_step\<^sup>*\<^sup>* t u" "m < n" for n q u m k j x w
  proof -
    have "m < dict_get0 (og_high_watermarks t) q" using that(1,3) by simp
    from registry_fence.fenced_forever [OF this that(2)] show ?thesis by blast
  qed
  with rec resources listed marks show ?thesis by blast
qed

section \<open>Witnesses\<close>

definition demo_result :: rendezvous_record where
  "demo_result = \<lparr>rr_requester_identity = ''u'', rr_request_id = ''r'', rr_attempt_epoch = 2,
     rr_certificate_digest = ''c'', rr_output_epoch = 1, rr_terminal_digest = ''t'', rr_visible = True,
     rr_expires_at_ms = 9\<rparr>"

definition demo_rendezvous :: rendezvous where
  "demo_rendezvous = rendezvous_init (Some [((''u'', ''r''), demo_result)])"

theorem visible_result_final_witness:
  "rendezvous_resume ''u'' ''r''
     (snd (rendezvous_publish (demo_result\<lparr>rr_attempt_epoch := 3, rr_terminal_digest := ''x''\<rparr>) demo_rendezvous))
   = Some demo_result"
proof (rule conjunct1 [OF visible_result_final])
  show "rendezvous_resume ''u'' ''r'' demo_rendezvous = Some demo_result"
    by (simp add: rendezvous_resume_def rendezvous_init_def demo_rendezvous_def Let_def)
  show "rr_visible demo_result" by (simp add: demo_result_def)
  show "rendezvous_step\<^sup>*\<^sup>* demo_rendezvous (snd (rendezvous_publish
      (demo_result\<lparr>rr_attempt_epoch := 3, rr_terminal_digest := ''x''\<rparr>) demo_rendezvous))"
    by (rule r_into_rtranclp, rule rendezvous_step.publish [OF prod.collapse [symmetric]])
qed

definition demo_registry :: registry where
  "demo_registry = \<lparr>og_provider = ''p'', og_provider_boot_epoch = ''b'', og_tombstone_ttl_ms = 10,
     og_resources = map (\<lambda>kind. (kind, [])) RESOURCE_KINDS, og_high_watermarks = []\<rparr>"

definition demo_held :: registry where
  "demo_held = snd (registry_retain ''leases'' ''l'' 5 ''r'' 2 demo_registry)"

theorem orphan_sweep_exact_witness:
  "\<exists>rec t. registry_sweep (\<lambda>_ _. None) 6 ''w'' demo_held = (Inr rec, t)
    \<and> dict_get (oc_reclaimed rec) ''leases'' = Some [''l''] \<and> resources_of ''leases'' t = []
    \<and> 2 \<le> dict_get0 (og_high_watermarks t) ''r''"
proof -
  have "registry_init ''p'' ''b'' 10 = Inr demo_registry" by (simp add: registry_init_def demo_registry_def)
  then have "registry_start demo_registry" unfolding registry_start_def by blast
  moreover have "registry_step demo_registry demo_held"
    unfolding demo_held_def by (rule registry_step.retain [OF prod.collapse [symmetric]])
  ultimately have "reachable registry_start registry_step demo_held" by (blast intro: reachable.intros)
  moreover have held: "resources_of ''leases'' demo_held = [(''l'', 5, ''r'', 2)]" by code_simp
  moreover have "''leases'' \<in> set RESOURCE_KINDS" by (simp add: RESOURCE_KINDS_def)
  ultimately obtain rec t where "registry_sweep (\<lambda>_ _. None) 6 ''w'' demo_held = (Inr rec, t)"
    "dict_get (oc_reclaimed rec) ''leases'' = Some (expired_ids 6 [(''l'', 5, ''r'', 2)])"
    "resources_of ''leases'' t = live_at 6 [(''l'', 5, ''r'', 2)]"
    "2 \<le> dict_get0 (og_high_watermarks t) ''r''"
    using orphan_sweep_exact [of demo_held 6 "''w''"] by fastforce
  then show ?thesis by (auto simp: expired_ids_def live_at_def)
qed

end
