(* ===== verification/Reservation_Book.thy ===== *)
theory Reservation_Book
  imports Contracts Interfaces
begin

text \<open>
  The reservation authority of \<open>core/deployment_control.py\<close>: \<open>AtomicReservationBook\<close> with its
  hash-chained ledger, \<open>ReservationDecisionAuthority\<close>, \<open>AckWindowDecisionCoordinator\<close> and
  \<open>BoundedExactTargetRetry\<close>.

  \<^item> A book is the record \<open>book\<close>; its items are a dictionary in insertion order, and the item
    objects the code mutates in place are replaced under their key.
  \<^item> \<open>sha\<close> is \<open>hashlib.sha256(...).hexdigest()\<close>. A lease, a decision, a receipt and a tombstone
    are field contracts (\<open>make_r1\<close>), whose constructor may raise after the book has changed.
  \<^item> A snapshot is the dictionary of \<open>snapshot()\<close> with its rows as records; the rows of a snapshot
    that do not have the fields of the data classes are not represented.
\<close>

section \<open>The book\<close>

record reservation =
  tr_requester :: string
  tr_service :: string
  tr_request_id :: string
  tr_attempt :: int
  tr_reservation_id :: string
  tr_units :: int
  tr_created_at_ms :: int
  tr_tentative_expires_at_ms :: int
  tr_state :: string
  tr_committed_expires_at_ms :: int
  tr_release_reason :: string
  tr_canonical_resource_id :: string
  tr_resource_sequence :: int
  tr_released_at_ms :: int

record reservation_event =
  rl_event_id :: string
  rl_sequence :: int
  rl_kind :: string
  rl_reservation_id :: string
  rl_request_identity :: "string \<times> string \<times> int"
  rl_canonical_resource_id :: string
  rl_provider_boot_epoch :: string
  rl_units :: int
  rl_logical_time_ms :: int
  rl_predecessor :: string
  rl_digest :: string

type_synonym book_items = "(string \<times> string \<times> int, reservation) dict"

record book =
  bk_provider :: string
  bk_boot_epoch :: string
  bk_capacity :: int
  bk_per_requester_limit :: int
  bk_per_service_limit :: int
  bk_max_lease_ms :: int
  bk_committed_lease_ms :: int
  bk_items :: book_items
  bk_release_counters :: "(string, int) dict"
  bk_ledger_events :: "reservation_event list"

definition book_init :: "string \<Rightarrow> string \<Rightarrow> int \<Rightarrow> int \<Rightarrow> int \<Rightarrow> int \<Rightarrow> int \<Rightarrow> py_error + book" where
  "book_init provider boot_epoch capacity per_requester_limit per_service_limit max_lease_ms committed_lease_ms =
     (if provider = [] \<or> boot_epoch = [] \<or> capacity \<le> 0
         \<or> min (min per_requester_limit per_service_limit) (min max_lease_ms committed_lease_ms) \<le> 0
      then Inl (ValueError ''invalid reservation book limits'')
      else Inr \<lparr>bk_provider = provider, bk_boot_epoch = boot_epoch, bk_capacity = capacity,
        bk_per_requester_limit = per_requester_limit, bk_per_service_limit = per_service_limit,
        bk_max_lease_ms = max_lease_ms, bk_committed_lease_ms = committed_lease_ms,
        bk_items = [], bk_release_counters = [], bk_ledger_events = []\<rparr>)"

definition reservation_identity :: "reservation \<Rightarrow> string \<times> string \<times> int" where
  "reservation_identity item = (tr_requester item, tr_request_id item, tr_attempt item)"

definition reservation_identity_json :: "string \<times> string \<times> int \<Rightarrow> json" where
  "reservation_identity_json i = JList [JStr (fst i), JStr (fst (snd i)), JInt (snd (snd i))]"

definition reservation_event_body :: "reservation_event \<Rightarrow> json" where
  "reservation_event_body e = JObj
     [(''event_id'', JStr (rl_event_id e)), (''sequence'', JInt (rl_sequence e)),
      (''kind'', JStr (rl_kind e)), (''reservation_id'', JStr (rl_reservation_id e)),
      (''request_identity'', reservation_identity_json (rl_request_identity e)),
      (''canonical_resource_id'', JStr (rl_canonical_resource_id e)),
      (''provider_boot_epoch'', JStr (rl_provider_boot_epoch e)), (''units'', JInt (rl_units e)),
      (''logical_time_ms'', JInt (rl_logical_time_ms e)), (''predecessor'', JStr (rl_predecessor e))]"

definition new_reservation_event :: "hash \<Rightarrow> string \<Rightarrow> reservation \<Rightarrow> int \<Rightarrow> book \<Rightarrow> reservation_event" where
  "new_reservation_event sha kind item logical_time_ms b =
     (let n = int (length (bk_ledger_events b)) + 1;
          event = \<lparr>rl_event_id = take 32 (sha (bk_provider b @ ''|'' @ bk_boot_epoch b @ ''|'' @ str_int n
                     @ ''|'' @ kind @ ''|'' @ tr_reservation_id item)),
                   rl_sequence = n, rl_kind = kind, rl_reservation_id = tr_reservation_id item,
                   rl_request_identity = reservation_identity item,
                   rl_canonical_resource_id = tr_canonical_resource_id item,
                   rl_provider_boot_epoch = bk_boot_epoch b, rl_units = tr_units item,
                   rl_logical_time_ms = logical_time_ms,
                   rl_predecessor = (if bk_ledger_events b = [] then ''GENESIS''
                     else rl_digest (last (bk_ledger_events b))),
                   rl_digest = []\<rparr>
      in event\<lparr>rl_digest := json_digest sha (reservation_event_body event)\<rparr>)"

definition append_ledger :: "hash \<Rightarrow> string \<Rightarrow> reservation \<Rightarrow> int \<Rightarrow> book \<Rightarrow> book" where
  "append_ledger sha kind item logical_time_ms b =
     b\<lparr>bk_ledger_events := bk_ledger_events b @ [new_reservation_event sha kind item logical_time_ms b]\<rparr>"

text \<open>An item stored under its key, with the ledger event that records it.\<close>

definition book_store :: "hash \<Rightarrow> string \<Rightarrow> int \<Rightarrow> string \<times> string \<times> int \<Rightarrow> reservation \<Rightarrow> book \<Rightarrow> book" where
  "book_store sha kind now_ms key item b =
     append_ledger sha kind item now_ms (b\<lparr>bk_items := dict_set key item (bk_items b)\<rparr>)"

definition reservation_live :: "reservation \<Rightarrow> bool" where
  "reservation_live item \<longleftrightarrow> tr_state item \<in> {''TENTATIVE'', ''COMMITTED''}"

definition reservation_deadline :: "reservation \<Rightarrow> int" where
  "reservation_deadline item = (if tr_state item = ''COMMITTED'' then tr_committed_expires_at_ms item
     else tr_tentative_expires_at_ms item)"

text \<open>The fields a release sets, the counter of its reason and its ledger event.\<close>

definition ended_item :: "string \<Rightarrow> int \<Rightarrow> reservation \<Rightarrow> reservation" where
  "ended_item reason now_ms item =
     item\<lparr>tr_state := ''RELEASED'', tr_release_reason := reason, tr_released_at_ms := now_ms\<rparr>"

definition book_end :: "hash \<Rightarrow> string \<Rightarrow> string \<Rightarrow> int \<Rightarrow> string \<times> string \<times> int \<Rightarrow> reservation \<Rightarrow> book \<Rightarrow> book" where
  "book_end sha kind reason now_ms key item b =
     book_store sha kind now_ms key (ended_item reason now_ms item)
       (b\<lparr>bk_release_counters := dict_set reason (dict_get0 (bk_release_counters b) reason + 1)
          (bk_release_counters b)\<rparr>)"

fun expire_items :: "hash \<Rightarrow> int \<Rightarrow> book_items \<Rightarrow> book \<Rightarrow> int \<times> book" where
  "expire_items sha now_ms [] b = (0, b)"
| "expire_items sha now_ms ((key, item) # items) b =
     (if reservation_live item \<and> reservation_deadline item \<le> now_ms
      then let (n, t) = expire_items sha now_ms items (book_end sha ''EXPIRE'' ''LEASE_EXPIRED'' now_ms key item b)
           in (n + 1, t)
      else expire_items sha now_ms items b)"

definition book_expire :: "hash \<Rightarrow> int \<Rightarrow> book \<Rightarrow> int \<times> book" where
  "book_expire sha now_ms b = expire_items sha now_ms (bk_items b) b"

definition book_live :: "hash \<Rightarrow> int \<Rightarrow> book \<Rightarrow> reservation list \<times> book" where
  "book_live sha now_ms b =
     (let t = snd (book_expire sha now_ms b) in (filter reservation_live (dict_values (bk_items t)), t))"

definition units_of :: "reservation list \<Rightarrow> int" where
  "units_of items = sum_list (map tr_units items)"

definition book_live_units :: "hash \<Rightarrow> int \<Rightarrow> book \<Rightarrow> int \<times> book" where
  "book_live_units sha now_ms b = (let (live, t) = book_live sha now_ms b in (units_of live, t))"

definition book_lease :: "book \<Rightarrow> reservation \<Rightarrow> string \<Rightarrow> py_error + r1_contract" where
  "book_lease b item signature = make_r1
     [(''requester'', tr_requester item), (''requestId'', tr_request_id item),
      (''attempt'', str_int (tr_attempt item)), (''provider'', bk_provider b),
      (''providerBootEpoch'', bk_boot_epoch b), (''reservationId'', tr_reservation_id item),
      (''service'', tr_service item), (''units'', str_int (tr_units item)),
      (''createdAtMs'', str_int (tr_created_at_ms item)),
      (''expiresAtMs'', str_int (tr_tentative_expires_at_ms item)),
      (''canonicalResourceId'', tr_canonical_resource_id item),
      (''resourceSequence'', str_int (tr_resource_sequence item)), (''signature'', signature)]"

record reserve_request =
  rq_requester :: string
  rq_service :: string
  rq_request_id :: string
  rq_attempt :: int
  rq_units :: int
  rq_requested_lease_ms :: int
  rq_authorized :: bool
  rq_signature :: string
  rq_canonical_resource_id :: string
  rq_resource_sequence :: int

definition request_key :: "reserve_request \<Rightarrow> string \<times> string \<times> int" where
  "request_key q = (rq_requester q, rq_request_id q, rq_attempt q)"

definition quota_exhausted :: "reserve_request \<Rightarrow> reservation list \<Rightarrow> book \<Rightarrow> bool" where
  "quota_exhausted q live b \<longleftrightarrow>
     bk_capacity b < units_of live + rq_units q
     \<or> bk_per_requester_limit b
         < units_of (filter (\<lambda>item. tr_requester item = rq_requester q) live) + rq_units q
     \<or> bk_per_service_limit b
         < units_of (filter (\<lambda>item. tr_service item = rq_service q) live) + rq_units q"

definition reservation_id_of :: "hash \<Rightarrow> string \<times> string \<times> int \<Rightarrow> book \<Rightarrow> string" where
  "reservation_id_of sha key b = (case key of (requester, request_id, attempt) \<Rightarrow>
     take 32 (sha (requester @ ''|'' @ request_id @ ''|'' @ str_int attempt @ ''|'' @ bk_provider b
       @ ''|'' @ bk_boot_epoch b)))"

definition new_reservation :: "hash \<Rightarrow> reserve_request \<Rightarrow> int \<Rightarrow> book \<Rightarrow> reservation" where
  "new_reservation sha q now_ms b =
     \<lparr>tr_requester = rq_requester q, tr_service = rq_service q, tr_request_id = rq_request_id q,
      tr_attempt = rq_attempt q, tr_reservation_id = reservation_id_of sha (request_key q) b,
      tr_units = rq_units q, tr_created_at_ms = now_ms,
      tr_tentative_expires_at_ms = now_ms + min (rq_requested_lease_ms q) (bk_max_lease_ms b),
      tr_state = ''TENTATIVE'', tr_committed_expires_at_ms = 0, tr_release_reason = [],
      tr_canonical_resource_id = rq_canonical_resource_id q,
      tr_resource_sequence = rq_resource_sequence q, tr_released_at_ms = 0\<rparr>"

definition book_acquire :: "hash \<Rightarrow> reserve_request \<Rightarrow> int \<Rightarrow> book \<Rightarrow> (r1_contract, book) outcome" where
  "book_acquire sha q now_ms b =
     (case book_live sha now_ms b of (live, b1) \<Rightarrow>
        if quota_exhausted q live b1 then (Inl (RuntimeError ''reservation quota exhausted''), b1)
        else let item = new_reservation sha q now_ms b1;
                 b2 = book_store sha ''ACQUIRE'' now_ms (request_key q) item b1
             in (book_lease b2 item (rq_signature q), b2))"

definition request_valid :: "reserve_request \<Rightarrow> bool" where
  "request_valid q \<longleftrightarrow> rq_requester q \<noteq> [] \<and> rq_service q \<noteq> [] \<and> rq_request_id q \<noteq> [] \<and> 0 < rq_attempt q
     \<and> 0 < rq_units q \<and> 0 < rq_requested_lease_ms q \<and> rq_signature q \<noteq> []"

definition book_reserve :: "hash \<Rightarrow> reserve_request \<Rightarrow> int \<Rightarrow> book \<Rightarrow> (r1_contract, book) outcome" where
  "book_reserve sha q now_ms b =
     (if \<not> rq_authorized q then (Inl (PermissionError ''reservation requires authorization''), b)
      else if \<not> request_valid q then (Inl (ValueError ''invalid reservation request''), b)
      else if (rq_canonical_resource_id q \<noteq> []) \<noteq> (0 < rq_resource_sequence q)
      then (Inl (ValueError ''canonical resource identity and sequence must be paired''), b)
      else case dict_get (bk_items b) (request_key q) of
             Some existing \<Rightarrow>
               if tr_state existing = ''TENTATIVE'' \<and> now_ms < tr_tentative_expires_at_ms existing
               then (book_lease b existing (rq_signature q), b)
               else book_acquire sha q now_ms b
           | None \<Rightarrow> book_acquire sha q now_ms b)"

text \<open>The first item, in insertion order, with a reservation identifier.\<close>

definition find_reservation :: "string \<Rightarrow> book \<Rightarrow> ((string \<times> string \<times> int) \<times> reservation) option" where
  "find_reservation reservation_id b =
     find (\<lambda>(key, item). tr_reservation_id item = reservation_id) (bk_items b)"

definition reservation_binding :: "hash \<Rightarrow> string \<Rightarrow> int \<Rightarrow> book \<Rightarrow> ((string, json) dict, book) outcome" where
  "reservation_binding sha reservation_id now_ms b =
     (let t = snd (book_expire sha now_ms b) in
      case find_reservation reservation_id t of
        None \<Rightarrow> (Inl (RuntimeError ''unknown reservation''), t)
      | Some (key, item) \<Rightarrow>
          (Inr [(''request_identity'', reservation_identity_json (reservation_identity item)),
                (''provider_boot_epoch'', JStr (bk_boot_epoch t)),
                (''reservation_id'', JStr (tr_reservation_id item)),
                (''quantity'', JInt (tr_units item)),
                (''canonical_resource_id'', JStr (tr_canonical_resource_id item)),
                (''resource_sequence'', JInt (tr_resource_sequence item)),
                (''live'', JBool (reservation_live item)), (''state'', JStr (tr_state item))], t))"

definition committed_item :: "int \<Rightarrow> book \<Rightarrow> reservation \<Rightarrow> reservation" where
  "committed_item now_ms b item =
     item\<lparr>tr_state := ''COMMITTED'', tr_committed_expires_at_ms := now_ms + bk_committed_lease_ms b\<rparr>"

definition book_commit :: "hash \<Rightarrow> string \<Rightarrow> int \<Rightarrow> book \<Rightarrow> (reservation, book) outcome" where
  "book_commit sha reservation_id now_ms b =
     (case find_reservation reservation_id b of
        None \<Rightarrow> (Inl (RuntimeError ''cannot commit absent or expired tentative reservation''), b)
      | Some (key, item) \<Rightarrow>
          if tr_state item \<noteq> ''TENTATIVE'' \<or> tr_tentative_expires_at_ms item \<le> now_ms
          then (Inl (RuntimeError ''cannot commit absent or expired tentative reservation''), b)
          else let committed = committed_item now_ms b item
               in (Inr committed, book_store sha ''COMMIT'' now_ms key committed b))"

definition book_release :: "hash \<Rightarrow> string \<Rightarrow> string \<Rightarrow> int \<Rightarrow> book \<Rightarrow> bool \<times> book" where
  "book_release sha reservation_id reason now_ms b =
     (case find_reservation reservation_id b of
        None \<Rightarrow> (False, b)
      | Some (key, item) \<Rightarrow>
          if tr_state item = ''RELEASED'' then (False, b)
          else (True, book_end sha ''RELEASE'' reason now_ms key item b))"

fun release_each :: "hash \<Rightarrow> reservation list \<Rightarrow> book \<Rightarrow> book" where
  "release_each sha [] b = b"
| "release_each sha (item # items) b =
     release_each sha items (snd (book_release sha (tr_reservation_id item) ''PROVIDER_SHUTDOWN'' 0 b))"

definition book_shutdown :: "hash \<Rightarrow> book \<Rightarrow> int \<times> book" where
  "book_shutdown sha b =
     (let live = filter reservation_live (dict_values (bk_items b))
      in (int (length live), release_each sha live b))"

section \<open>Snapshots\<close>

record book_snapshot =
  sn_provider :: string
  sn_boot_epoch :: string
  sn_items :: "reservation list"
  sn_release_counters :: "(string, int) dict"
  sn_ledger_events :: "reservation_event list"

definition snapshot_book :: "book \<Rightarrow> book_snapshot" where
  "snapshot_book b = \<lparr>sn_provider = bk_provider b, sn_boot_epoch = bk_boot_epoch b,
     sn_items = dict_values (bk_items b), sn_release_counters = bk_release_counters b,
     sn_ledger_events = bk_ledger_events b\<rparr>"

definition event_follows :: "hash \<Rightarrow> string \<Rightarrow> int \<Rightarrow> string \<Rightarrow> reservation_event \<Rightarrow> bool" where
  "event_follows sha boot_epoch expected previous event \<longleftrightarrow>
     rl_sequence event = expected \<and> rl_predecessor event = previous
     \<and> rl_provider_boot_epoch event = boot_epoch
     \<and> rl_digest event = json_digest sha (reservation_event_body event)"

fun book_restore_events :: "hash \<Rightarrow> int \<Rightarrow> string \<Rightarrow> reservation_event list \<Rightarrow> book \<Rightarrow> (unit, book) outcome" where
  "book_restore_events sha expected previous [] b = (Inr (), b)"
| "book_restore_events sha expected previous (event # events) b =
     (if \<not> event_follows sha (bk_boot_epoch b) expected previous event
      then (Inl (ValueError ''reservation ledger gap, fork, or digest mismatch''), b)
      else book_restore_events sha (expected + 1) (rl_digest event) events
             (b\<lparr>bk_ledger_events := bk_ledger_events b @ [event]\<rparr>))"

definition book_restore :: "hash \<Rightarrow> book_snapshot \<Rightarrow> int \<Rightarrow> book \<Rightarrow> (int, book) outcome" where
  "book_restore sha snapshot now_ms b =
     (if sn_provider snapshot \<noteq> bk_provider b \<or> sn_boot_epoch snapshot \<noteq> bk_boot_epoch b
      then (Inl (ValueError ''reservation journal provider epoch mismatch''), b)
      else and_then
        (book_restore_events sha 1 ''GENESIS'' (sn_ledger_events snapshot)
           (b\<lparr>bk_items := dict_of_list (map (\<lambda>item. (reservation_identity item, item)) (sn_items snapshot)),
              bk_release_counters := sn_release_counters snapshot, bk_ledger_events := []\<rparr>))
        (\<lambda>_ t. let (n, u) = book_expire sha now_ms t in (Inr n, u)))"

section \<open>Ownership intervals\<close>

record interval =
  iv_reservation_id :: string
  iv_request_identity :: "string \<times> string \<times> int"
  iv_canonical_resource_id :: string
  iv_start_sequence :: int
  iv_end_sequence :: "int option"
  iv_start_ms :: int
  iv_end_ms :: "int option"
  iv_half_open :: bool

definition interval_of :: "string \<Rightarrow> reservation_event \<Rightarrow> reservation_event option \<Rightarrow> interval" where
  "interval_of reservation_id start stop =
     \<lparr>iv_reservation_id = reservation_id, iv_request_identity = rl_request_identity start,
      iv_canonical_resource_id = rl_canonical_resource_id start,
      iv_start_sequence = rl_sequence start, iv_end_sequence = map_option rl_sequence stop,
      iv_start_ms = rl_logical_time_ms start, iv_end_ms = map_option rl_logical_time_ms stop,
      iv_half_open = True\<rparr>"

fun scan_intervals :: "reservation_event list \<Rightarrow> (string, reservation_event) dict \<Rightarrow> interval list \<Rightarrow> interval list" where
  "scan_intervals [] acquired intervals =
     intervals @ map (\<lambda>(reservation_id, start). interval_of reservation_id start None) acquired"
| "scan_intervals (event # events) acquired intervals =
     (let i = rl_reservation_id event in
      if rl_kind event = ''ACQUIRE'' then scan_intervals events (dict_set i event acquired) intervals
      else if rl_kind event \<in> {''RELEASE'', ''EXPIRE''}
      then (case dict_get acquired i of
              None \<Rightarrow> scan_intervals events acquired intervals
            | Some start \<Rightarrow> scan_intervals events (dict_pop i acquired)
                              (intervals @ [interval_of i start (Some event)]))
      else scan_intervals events acquired intervals)"

definition book_ownership_intervals :: "book \<Rightarrow> interval list" where
  "book_ownership_intervals b = scan_intervals (bk_ledger_events b) [] []"

section \<open>Decisions\<close>

record decision_authority =
  da_book :: book
  da_accepted :: "(string, string \<times> string) dict"

definition r1_field :: "r1_contract \<Rightarrow> string \<Rightarrow> string" where
  "r1_field fs k = (case dict_get fs k of None \<Rightarrow> [] | Some v \<Rightarrow> v)"

definition r1_digest :: "hash \<Rightarrow> string \<Rightarrow> r1_contract \<Rightarrow> string" where
  "r1_digest sha schema fs = contract_digest_of sha schema (r1_to_dict fs)"

definition decision_receipt :: "string \<Rightarrow> string \<Rightarrow> string \<Rightarrow> book \<Rightarrow> py_error + r1_contract" where
  "decision_receipt digest reservation_id state b = make_r1
     [(''decisionDigest'', digest), (''reservationId'', reservation_id), (''state'', state),
      (''provider'', bk_provider b), (''providerBootEpoch'', bk_boot_epoch b)]"

definition accept_decision :: "string \<Rightarrow> string \<Rightarrow> string \<Rightarrow> book \<Rightarrow> decision_authority \<Rightarrow> decision_authority" where
  "accept_decision reservation_id decision digest b a =
     a\<lparr>da_book := b, da_accepted := dict_set reservation_id (decision, digest) (da_accepted a)\<rparr>"

text \<open>\<open>apply\<close> after its guards, for the reservation, the decision and the digest of the message.\<close>

definition authority_decide ::
  "hash \<Rightarrow> string \<Rightarrow> string \<Rightarrow> string \<Rightarrow> int \<Rightarrow> decision_authority \<Rightarrow> (r1_contract, decision_authority) outcome" where
  "authority_decide sha reservation_id decision digest now_ms a =
     (case dict_get (da_accepted a) reservation_id of
        Some previous \<Rightarrow>
          if previous \<noteq> (decision, digest)
          then (Inl (RuntimeError ''conflicting immutable Selection decision''), a)
          else (decision_receipt digest reservation_id
                  (if decision = ''SELECTED'' then ''COMMITTED'' else ''RELEASED'') (da_book a), a)
      | None \<Rightarrow>
          if decision = ''SELECTED''
          then (case book_commit sha reservation_id now_ms (da_book a) of
                  (Inl e, b) \<Rightarrow> (Inl e, a\<lparr>da_book := b\<rparr>)
                | (Inr _, b) \<Rightarrow> (decision_receipt digest reservation_id ''COMMITTED'' b,
                                 accept_decision reservation_id decision digest b a))
          else (case book_release sha reservation_id ''NOT_SELECTED'' 0 (da_book a) of
                  (_, b) \<Rightarrow> (decision_receipt digest reservation_id ''RELEASED'' b,
                             accept_decision reservation_id decision digest b a)))"

definition authority_apply ::
  "hash \<Rightarrow> r1_contract \<Rightarrow> int \<Rightarrow> bool \<Rightarrow> decision_authority \<Rightarrow> (r1_contract, decision_authority) outcome" where
  "authority_apply sha fs now_ms signature_valid a =
     (let reservation_id = r1_field fs ''reservationId'';
          decision = r1_field fs ''decision'';
          digest = r1_digest sha ''ndnsf-selection-decision-v1'' fs
      in if \<not> signature_valid then (Inl (PermissionError ''invalid Selection signature''), a)
         else if reservation_id = [] \<or> decision \<notin> {''SELECTED'', ''NOT_SELECTED''}
         then (Inl (ValueError ''malformed Selection decision''), a)
         else authority_decide sha reservation_id decision digest now_ms a)"

section \<open>The acknowledgement window\<close>

record ack_window =
  aw_request_id :: string
  aw_attempt :: int
  aw_ack_deadline_ms :: int
  aw_retain_until_ms :: int
  aw_closed :: bool
  aw_leases :: "(string, r1_contract) dict"
  aw_decisions :: "(string, r1_contract) dict"

definition window_init :: "string \<Rightarrow> int \<Rightarrow> int \<Rightarrow> int \<Rightarrow> py_error + ack_window" where
  "window_init request_id attempt ack_deadline_ms retain_until_ms =
     (if request_id = [] \<or> attempt \<le> 0 \<or> ack_deadline_ms \<le> 0 \<or> retain_until_ms < ack_deadline_ms
      then Inl (ValueError ''invalid ACK window'')
      else Inr \<lparr>aw_request_id = request_id, aw_attempt = attempt, aw_ack_deadline_ms = ack_deadline_ms,
        aw_retain_until_ms = retain_until_ms, aw_closed = False, aw_leases = [], aw_decisions = []\<rparr>)"

definition make_decision :: "hash \<Rightarrow> r1_contract \<Rightarrow> string \<Rightarrow> ack_window \<Rightarrow> py_error + r1_contract" where
  "make_decision sha lease decision w = make_r1
     [(''decision'', decision), (''requestId'', aw_request_id w), (''attempt'', str_int (aw_attempt w)),
      (''targetProvider'', r1_field lease ''provider''),
      (''providerBootEpoch'', r1_field lease ''providerBootEpoch''),
      (''reservationId'', r1_field lease ''reservationId''),
      (''reservationDigest'', r1_digest sha ''ndnsf-di-reservation-lease-v1'' lease),
      (''expiresAtMs'', r1_field lease ''expiresAtMs'')]"

definition window_admit :: "hash \<Rightarrow> r1_contract \<Rightarrow> int \<Rightarrow> bool \<Rightarrow> ack_window \<Rightarrow> (r1_contract option, ack_window) outcome" where
  "window_admit sha lease completed_at_ms authenticated w =
     (let reservation_id = r1_field lease ''reservationId'' in
      if \<not> authenticated then (Inr None, w)
      else if reservation_id = [] then (Inl (ValueError ''ACK lease lacks reservation identity''), w)
      else if aw_closed w \<or> aw_ack_deadline_ms w \<le> completed_at_ms
      then (sum_then (make_decision sha lease ''NOT_SELECTED'' w) (\<lambda>d. Inr (Some d)), w)
      else (Inr None, w\<lparr>aw_leases := dict_setdefault reservation_id lease (aw_leases w)\<rparr>))"

fun decide_each :: "hash \<Rightarrow> string set \<Rightarrow> (string, r1_contract) dict \<Rightarrow> ack_window \<Rightarrow> (unit, ack_window) outcome" where
  "decide_each sha selected [] w = (Inr (), w)"
| "decide_each sha selected ((reservation_id, lease) # leases) w =
     (case make_decision sha lease
             (if reservation_id \<in> selected then ''SELECTED'' else ''NOT_SELECTED'') w of
        Inl e \<Rightarrow> (Inl e, w)
      | Inr d \<Rightarrow> decide_each sha selected leases
                  (w\<lparr>aw_decisions := dict_set reservation_id d (aw_decisions w)\<rparr>))"

definition window_close :: "hash \<Rightarrow> int \<Rightarrow> string set \<Rightarrow> ack_window \<Rightarrow> (r1_contract list, ack_window) outcome" where
  "window_close sha now_ms selected w =
     (if now_ms < aw_ack_deadline_ms w then (Inl (ValueError ''ACK window cannot close early''), w)
      else if aw_closed w then (Inr (dict_values (aw_decisions w)), w)
      else if selected - set (dict_keys (aw_leases w)) \<noteq> {}
      then (Inl (ValueError ''selected reservation was not an eligible ACK''), w)
      else and_then (decide_each sha selected (aw_leases w) (w\<lparr>aw_closed := True\<rparr>))
             (\<lambda>_ u. (Inr (dict_values (aw_decisions u)), u)))"

definition window_tombstone :: "ack_window \<Rightarrow> py_error + r1_contract" where
  "window_tombstone w =
     (if \<not> aw_closed w then Inl (RuntimeError ''decision set is not closed'')
      else make_r1
        [(''requestId'', aw_request_id w), (''attempt'', str_int (aw_attempt w)),
         (''selectedReservationIds'', py_join '','' (sort (map fst
            (filter (\<lambda>(k, d). r1_field d ''decision'' = ''SELECTED'') (aw_decisions w))))),
         (''retainUntilMs'', str_int (aw_retain_until_ms w))])"

section \<open>Bounded retry of an exact target\<close>

record target_retry =
  xr_max_retries :: int
  xr_deadline_ms :: int
  xr_attempts :: "(string, int) dict"
  xr_total_attempts :: int
  xr_retry_attempts :: int
  xr_exhausted :: int

definition target_eligible :: "string \<Rightarrow> int \<Rightarrow> target_retry \<Rightarrow> bool" where
  "target_eligible target now_ms r \<longleftrightarrow> target \<noteq> [] \<and> now_ms < xr_deadline_ms r
     \<and> dict_get0 (xr_attempts r) target < 1 + xr_max_retries r"

definition target_record :: "string \<Rightarrow> int \<Rightarrow> target_retry \<Rightarrow> (int, target_retry) outcome" where
  "target_record target now_ms r =
     (if \<not> target_eligible target now_ms r
      then (Inl (RuntimeError ''bounded retry exhausted or expired''), r\<lparr>xr_exhausted := xr_exhausted r + 1\<rparr>)
      else let previous = dict_get0 (xr_attempts r) target
           in (Inr (previous + 1),
               r\<lparr>xr_attempts := dict_set target (previous + 1) (xr_attempts r),
                 xr_total_attempts := xr_total_attempts r + 1,
                 xr_retry_attempts := xr_retry_attempts r + (if 0 < previous then 1 else 0)\<rparr>))"

section \<open>Transitions of the book\<close>

text \<open>
  Every operation is a sequence of three kinds of transition: an item is acquired, committed or
  ended. The invariant and the ledger are followed through these.
\<close>

definition live_items :: "book \<Rightarrow> reservation list" where
  "live_items b = filter reservation_live (dict_values (bk_items b))"

inductive book_micro :: "hash \<Rightarrow> book \<Rightarrow> book \<Rightarrow> bool" for sha where
  acquired: "request_valid q \<Longrightarrow> \<not> quota_exhausted q (live_items b) b \<Longrightarrow>
    book_micro sha b (book_store sha ''ACQUIRE'' now_ms (request_key q) (new_reservation sha q now_ms b) b)"
| committed: "dict_get (bk_items b) key = Some item \<Longrightarrow> reservation_live item \<Longrightarrow>
    book_micro sha b (book_store sha ''COMMIT'' now_ms key (committed_item now_ms b item) b)"
| ended: "dict_get (bk_items b) key = Some item \<Longrightarrow> book_micro sha b (book_end sha kind reason now_ms key item b)"

inductive book_step :: "hash \<Rightarrow> book \<Rightarrow> book \<Rightarrow> bool" for sha where
  reserve: "book_reserve sha q now_ms b = (r, t) \<Longrightarrow> book_step sha b t"
| binding: "reservation_binding sha i now_ms b = (r, t) \<Longrightarrow> book_step sha b t"
| commit: "book_commit sha i now_ms b = (r, t) \<Longrightarrow> book_step sha b t"
| release: "book_release sha i reason now_ms b = (r, t) \<Longrightarrow> book_step sha b t"
| expire: "book_expire sha now_ms b = (r, t) \<Longrightarrow> book_step sha b t"
| live_units: "book_live_units sha now_ms b = (r, t) \<Longrightarrow> book_step sha b t"
| shutdown: "book_shutdown sha b = (r, t) \<Longrightarrow> book_step sha b t"

definition book_start :: "book \<Rightarrow> bool" where
  "book_start b \<longleftrightarrow> (\<exists>p e c r s l k. book_init p e c r s l k = Inr b)"

lemma book_store_fields [simp]:
  "bk_items (book_store sha kind now_ms key item b) = dict_set key item (bk_items b)"
  "bk_release_counters (book_store sha kind now_ms key item b) = bk_release_counters b"
  "bk_ledger_events (book_store sha kind now_ms key item b)
     = bk_ledger_events b @ [new_reservation_event sha kind item now_ms b]"
  "bk_provider (book_store sha kind now_ms key item b) = bk_provider b"
  "bk_boot_epoch (book_store sha kind now_ms key item b) = bk_boot_epoch b"
  "bk_capacity (book_store sha kind now_ms key item b) = bk_capacity b"
  "bk_per_requester_limit (book_store sha kind now_ms key item b) = bk_per_requester_limit b"
  "bk_per_service_limit (book_store sha kind now_ms key item b) = bk_per_service_limit b"
  "bk_max_lease_ms (book_store sha kind now_ms key item b) = bk_max_lease_ms b"
  "bk_committed_lease_ms (book_store sha kind now_ms key item b) = bk_committed_lease_ms b"
  by (simp_all add: book_store_def append_ledger_def new_reservation_event_def Let_def)

lemma book_end_items [simp]:
  "bk_items (book_end sha kind reason now_ms key item b) = dict_set key (ended_item reason now_ms item) (bk_items b)"
  by (simp add: book_end_def)

lemma ended_not_live [simp]: "\<not> reservation_live (ended_item reason now_ms item)"
  by (simp add: reservation_live_def ended_item_def)

lemma expire_items_micro:
  assumes "dict_ok items" and "\<And>k i. (k, i) \<in> set items \<Longrightarrow> dict_get (bk_items b) k = Some i"
  shows "(book_micro sha)\<^sup>*\<^sup>* b (snd (expire_items sha now_ms items b))"
  using assms
proof (induction sha now_ms items b rule: expire_items.induct)
  case (2 sha now_ms key item items b)
  let ?b = "book_end sha ''EXPIRE'' ''LEASE_EXPIRED'' now_ms key item b"
  have ok: "dict_ok items" and fresh: "\<And>i. (key, i) \<notin> set items"
    using "2.prems"(1) by (force simp: dict_ok_def)+
  have item: "dict_get (bk_items b) key = Some item" using "2.prems"(2) by simp
  have rest: "dict_get (bk_items b) k = Some i" if "(k, i) \<in> set items" for k i
    using "2.prems"(2) that by simp
  have kept: "dict_get (bk_items ?b) k = Some i" if "(k, i) \<in> set items" for k i
    using rest [OF that] that fresh [of i] by (cases "k = key") (simp_all add: dict_simps)
  show ?case
  proof (cases "reservation_live item \<and> reservation_deadline item \<le> now_ms")
    case True
    have "(book_micro sha)\<^sup>*\<^sup>* ?b (snd (expire_items sha now_ms items ?b))"
      by (rule "2.IH"(1) [OF True ok kept])
    with book_micro.ended [OF item] have "(book_micro sha)\<^sup>*\<^sup>* b (snd (expire_items sha now_ms items ?b))"
      by (rule converse_rtranclp_into_rtranclp)
    with True show ?thesis by (simp add: case_prod_beta)
  next
    case False
    then show ?thesis using "2.IH"(2) [OF False ok rest] by auto
  qed
qed simp

lemma find_reservation_get:
  "find_reservation i b = Some (key, item) \<Longrightarrow> dict_ok (bk_items b) \<Longrightarrow> dict_get (bk_items b) key = Some item"
  by (auto simp: find_reservation_def dict_get_iff dest: find_SomeD)

lemma book_expire_micro:
  assumes "dict_ok (bk_items b)"
  shows "(book_micro sha)\<^sup>*\<^sup>* b (snd (book_expire sha now_ms b))"
  unfolding book_expire_def using assms by (rule expire_items_micro) (use assms in \<open>simp add: dict_get_iff\<close>)

lemma micro_dict_ok: "book_micro sha b t \<Longrightarrow> dict_ok (bk_items b) \<Longrightarrow> dict_ok (bk_items t)"
  by (induction rule: book_micro.induct) auto

lemma micros_dict_ok: "(book_micro sha)\<^sup>*\<^sup>* b t \<Longrightarrow> dict_ok (bk_items b) \<Longrightarrow> dict_ok (bk_items t)"
  by (induction rule: rtranclp_induct) (auto intro: micro_dict_ok)

lemma book_release_micro:
  "dict_ok (bk_items b) \<Longrightarrow> (book_micro sha)\<^sup>*\<^sup>* b (snd (book_release sha i reason now_ms b))"
  by (auto simp: book_release_def intro: book_micro.ended find_reservation_get split: option.split)

lemma release_each_micro:
  "dict_ok (bk_items b) \<Longrightarrow> (book_micro sha)\<^sup>*\<^sup>* b (release_each sha items b)"
proof (induction items arbitrary: b)
  case (Cons item items)
  let ?b = "snd (book_release sha (tr_reservation_id item) ''PROVIDER_SHUTDOWN'' 0 b)"
  have "(book_micro sha)\<^sup>*\<^sup>* b ?b" using Cons.prems by (rule book_release_micro)
  moreover from this Cons.prems have "dict_ok (bk_items ?b)" by (rule micros_dict_ok)
  ultimately show ?case using Cons.IH [of ?b] by simp
qed simp

lemma book_commit_micro:
  "dict_ok (bk_items b) \<Longrightarrow> (book_micro sha)\<^sup>*\<^sup>* b (snd (book_commit sha i now_ms b))"
  by (auto simp: book_commit_def reservation_live_def Let_def intro!: r_into_rtranclp book_micro.committed
      dest: find_reservation_get split: option.split)

lemma book_acquire_micro:
  assumes "dict_ok (bk_items b)" and "request_valid q"
  shows "(book_micro sha)\<^sup>*\<^sup>* b (snd (book_acquire sha q now_ms b))"
proof -
  let ?t = "snd (book_expire sha now_ms b)"
  have "(book_micro sha)\<^sup>*\<^sup>* b ?t" using assms(1) by (rule book_expire_micro)
  moreover have "\<not> quota_exhausted q (live_items ?t) ?t \<Longrightarrow> book_micro sha ?t
      (book_store sha ''ACQUIRE'' now_ms (request_key q) (new_reservation sha q now_ms ?t) ?t)"
    using assms(2) by (rule book_micro.acquired)
  ultimately show ?thesis
    by (auto simp: book_acquire_def book_live_def live_items_def Let_def intro: rtranclp.rtrancl_into_rtrancl)
qed

lemma book_reserve_micro:
  "dict_ok (bk_items b) \<Longrightarrow> (book_micro sha)\<^sup>*\<^sup>* b (snd (book_reserve sha q now_ms b))"
  by (auto simp: book_reserve_def book_acquire_micro split: option.split)

lemma book_step_micro:
  assumes "book_step sha b t" and "dict_ok (bk_items b)"
  shows "(book_micro sha)\<^sup>*\<^sup>* b t"
  using assms
proof (induction rule: book_step.induct)
  case (reserve q now_ms b r t)
  then show ?case using book_reserve_micro [of b sha q now_ms] by simp
next
  case (binding i now_ms b r t)
  then have "t = snd (book_expire sha now_ms b)"
    by (auto simp: reservation_binding_def Let_def split: option.splits)
  with binding show ?case by (simp add: book_expire_micro)
next
  case (commit i now_ms b r t)
  then show ?case using book_commit_micro [of b sha i now_ms] by simp
next
  case (release i reason now_ms b r t)
  then show ?case using book_release_micro [of b sha i reason now_ms] by simp
next
  case (expire now_ms b r t)
  then show ?case using book_expire_micro [of b sha now_ms] by simp
next
  case (live_units now_ms b r t)
  then show ?case using book_expire_micro [of b sha now_ms]
    by (simp add: book_live_units_def book_live_def Let_def)
next
  case (shutdown b r t)
  then show ?case using release_each_micro [of b sha] by (auto simp: book_shutdown_def Let_def)
qed

section \<open>The invariant of the book\<close>

definition live_weight :: "(reservation \<Rightarrow> bool) \<Rightarrow> 'k \<Rightarrow> reservation \<Rightarrow> int" where
  "live_weight P k item = (if reservation_live item \<and> P item then tr_units item else 0)"

lemma units_of_live: "units_of (filter P (live_items b)) = dict_sum (live_weight P) (bk_items b)"
proof -
  have "units_of (filter P (filter reservation_live (dict_values d))) = dict_sum (live_weight P) d"
    for d :: book_items by (induction d) (auto simp: units_of_def live_weight_def)
  then show ?thesis by (simp add: live_items_def)
qed

lemma units_of_all_live: "units_of (live_items b) = dict_sum (live_weight (\<lambda>_. True)) (bk_items b)"
  using units_of_live [of "\<lambda>_. True" b] by simp

fun book_ledger_ok :: "hash \<Rightarrow> string \<Rightarrow> int \<Rightarrow> string \<Rightarrow> reservation_event list \<Rightarrow> bool" where
  "book_ledger_ok sha boot_epoch expected previous [] \<longleftrightarrow> True"
| "book_ledger_ok sha boot_epoch expected previous (event # events) \<longleftrightarrow>
     event_follows sha boot_epoch expected previous event
     \<and> book_ledger_ok sha boot_epoch (expected + 1) (rl_digest event) events"

lemma book_ledger_ok_snoc:
  "book_ledger_ok sha boot n prev (es @ [e]) \<longleftrightarrow> book_ledger_ok sha boot n prev es
     \<and> event_follows sha boot (n + int (length es)) (if es = [] then prev else rl_digest (last es)) e"
  by (induction es arbitrary: n prev) (auto simp: add.assoc)

lemma new_event_follows:
  "event_follows sha (bk_boot_epoch b) (1 + int (length (bk_ledger_events b)))
     (if bk_ledger_events b = [] then ''GENESIS'' else rl_digest (last (bk_ledger_events b)))
     (new_reservation_event sha kind item now_ms b)"
  by (simp add: event_follows_def new_reservation_event_def reservation_event_body_def Let_def)

definition item_ok :: "int \<Rightarrow> string \<times> string \<times> int \<Rightarrow> reservation \<Rightarrow> bool" where
  "item_ok max_lease_ms key item \<longleftrightarrow> key = reservation_identity item \<and> 0 < tr_units item
     \<and> tr_tentative_expires_at_ms item \<le> tr_created_at_ms item + max_lease_ms"

definition within_quota :: "book \<Rightarrow> bool" where
  "within_quota b \<longleftrightarrow> dict_sum (live_weight (\<lambda>_. True)) (bk_items b) \<le> bk_capacity b
     \<and> (\<forall>r. dict_sum (live_weight (\<lambda>item. tr_requester item = r)) (bk_items b) \<le> bk_per_requester_limit b)
     \<and> (\<forall>s. dict_sum (live_weight (\<lambda>item. tr_service item = s)) (bk_items b) \<le> bk_per_service_limit b)"

definition book_inv :: "hash \<Rightarrow> book \<Rightarrow> bool" where
  "book_inv sha b \<longleftrightarrow> 0 < bk_max_lease_ms b \<and> dict_ok (bk_items b) \<and> dict_all (item_ok (bk_max_lease_ms b)) (bk_items b)
     \<and> within_quota b \<and> book_ledger_ok sha (bk_boot_epoch b) 1 ''GENESIS'' (bk_ledger_events b)"

lemma weight_replace:
  assumes "dict_ok d" and "dict_get d k = Some old" and "f k v \<le> f k old"
  shows "dict_sum f (dict_set k v d) \<le> dict_sum f d"
  using assms by (simp add: dict_sum_set_old)

lemma weight_set:
  assumes "dict_ok d" and "\<And>k v. (k, v) \<in> set d \<Longrightarrow> 0 \<le> f k v"
  shows "dict_sum f (dict_set k v d) \<le> dict_sum f d + f k v"
proof (cases "dict_get d k")
  case None
  then show ?thesis by (simp add: dict_sum_set_new)
next
  case (Some old)
  with assms have "0 \<le> f k old" by (simp add: dict_get_iff)
  with assms(1) Some show ?thesis by (simp add: dict_sum_set_old)
qed

text \<open>An item that is replaced by one that weighs no more keeps the book within its quotas.\<close>

lemma quota_replace:
  assumes "within_quota b" and "dict_ok (bk_items b)" and "dict_get (bk_items b) key = Some old"
    and "reservation_live new \<longrightarrow> reservation_live old" and "0 \<le> tr_units old"
    and "tr_units new = tr_units old" "tr_requester new = tr_requester old" "tr_service new = tr_service old"
    and "bk_items t = dict_set key new (bk_items b)" "bk_capacity t = bk_capacity b"
    "bk_per_requester_limit t = bk_per_requester_limit b" "bk_per_service_limit t = bk_per_service_limit b"
  shows "within_quota t"
proof -
  have w: "dict_sum (live_weight P) (bk_items t) \<le> dict_sum (live_weight P) (bk_items b)"
    if "P new = P old" for P
    unfolding assms(9) by (rule weight_replace [OF assms(2,3)]) (use assms(4-6) that in \<open>auto simp: live_weight_def\<close>)
  have "dict_sum (live_weight (\<lambda>i. tr_requester i = r)) (bk_items t)
      \<le> dict_sum (live_weight (\<lambda>i. tr_requester i = r)) (bk_items b)" for r by (rule w) (simp add: assms(7))
  moreover have "dict_sum (live_weight (\<lambda>i. tr_service i = s)) (bk_items t)
      \<le> dict_sum (live_weight (\<lambda>i. tr_service i = s)) (bk_items b)" for s by (rule w) (simp add: assms(8))
  moreover have "dict_sum (live_weight (\<lambda>_. True)) (bk_items t) \<le> dict_sum (live_weight (\<lambda>_. True)) (bk_items b)"
    by (rule w) simp
  ultimately show ?thesis using assms(1) unfolding within_quota_def assms(10-12) by (meson order_trans)
qed

lemma live_weight_nonneg:
  assumes "dict_ok d" "dict_all (item_ok m) d" "(k, i) \<in> set d"
  shows "0 \<le> live_weight P k i"
  using assms dict_allD [OF assms(2), of k i] by (simp add: dict_get_iff item_ok_def live_weight_def)

lemma quota_acquire:
  assumes "within_quota b" and "dict_ok (bk_items b)" and "dict_all (item_ok m) (bk_items b)"
    and "\<not> quota_exhausted q (live_items b) b"
  shows "within_quota (book_store sha ''ACQUIRE'' now_ms (request_key q) (new_reservation sha q now_ms b) b)"
proof -
  let ?i = "new_reservation sha q now_ms b"
  have w: "dict_sum (live_weight P) (dict_set (request_key q) ?i (bk_items b))
      \<le> dict_sum (live_weight P) (bk_items b) + (if P ?i then rq_units q else 0)" for P
    using weight_set [OF assms(2), of "live_weight P" "request_key q" ?i] live_weight_nonneg [OF assms(2,3)]
    by (simp add: live_weight_def reservation_live_def new_reservation_def split: if_splits)
  have fits: "dict_sum (live_weight (\<lambda>_. True)) (bk_items b) + rq_units q \<le> bk_capacity b"
    "dict_sum (live_weight (\<lambda>i. tr_requester i = rq_requester q)) (bk_items b) + rq_units q \<le> bk_per_requester_limit b"
    "dict_sum (live_weight (\<lambda>i. tr_service i = rq_service q)) (bk_items b) + rq_units q \<le> bk_per_service_limit b"
    using assms(4) by (simp_all add: quota_exhausted_def units_of_live units_of_all_live)
  show ?thesis unfolding within_quota_def
  proof (intro conjI allI)
    show "dict_sum (live_weight (\<lambda>_. True)) (bk_items (book_store sha ''ACQUIRE'' now_ms (request_key q) ?i b))
        \<le> bk_capacity (book_store sha ''ACQUIRE'' now_ms (request_key q) ?i b)"
      using w [of "\<lambda>_. True"] fits(1) by simp
    fix r s
    show "dict_sum (live_weight (\<lambda>i. tr_requester i = r)) (bk_items (book_store sha ''ACQUIRE'' now_ms (request_key q) ?i b))
        \<le> bk_per_requester_limit (book_store sha ''ACQUIRE'' now_ms (request_key q) ?i b)"
      using w [of "\<lambda>i. tr_requester i = r"] fits(2) assms(1)
      by (cases "r = rq_requester q") (auto simp: within_quota_def new_reservation_def intro: order_trans)
    show "dict_sum (live_weight (\<lambda>i. tr_service i = s)) (bk_items (book_store sha ''ACQUIRE'' now_ms (request_key q) ?i b))
        \<le> bk_per_service_limit (book_store sha ''ACQUIRE'' now_ms (request_key q) ?i b)"
      using w [of "\<lambda>i. tr_service i = s"] fits(3) assms(1)
      by (cases "s = rq_service q") (auto simp: within_quota_def new_reservation_def intro: order_trans)
  qed
qed

lemma book_micro_inv:
  assumes "book_micro sha b t" and "book_inv sha b"
  shows "book_inv sha t"
  using assms
proof (induction rule: book_micro.induct)
  case (acquired q b now_ms)
  let ?i = "new_reservation sha q now_ms b"
  have "item_ok (bk_max_lease_ms b) (request_key q) ?i"
    using acquired(1)
    by (simp add: item_ok_def request_valid_def request_key_def reservation_identity_def new_reservation_def)
  moreover have "within_quota (book_store sha ''ACQUIRE'' now_ms (request_key q) ?i b)"
    by (rule quota_acquire [where m = "bk_max_lease_ms b"]) (use acquired in \<open>simp_all add: book_inv_def\<close>)
  ultimately show ?case using acquired by (simp add: book_inv_def book_ledger_ok_snoc new_event_follows)
next
  case (committed b key item now_ms)
  then have ok: "item_ok (bk_max_lease_ms b) key item" by (auto simp: book_inv_def dest: dict_allD)
  then have "item_ok (bk_max_lease_ms b) key (committed_item now_ms b item)"
    by (simp add: item_ok_def committed_item_def reservation_identity_def)
  moreover have "within_quota (book_store sha ''COMMIT'' now_ms key (committed_item now_ms b item) b)"
    by (rule quota_replace [of b key item])
      (use committed ok in \<open>simp_all add: book_inv_def committed_item_def item_ok_def\<close>)
  ultimately show ?case using committed by (simp add: book_inv_def book_ledger_ok_snoc new_event_follows)
next
  case (ended b key item kind reason now_ms)
  let ?c = "b\<lparr>bk_release_counters := dict_set reason (dict_get0 (bk_release_counters b) reason + 1) (bk_release_counters b)\<rparr>"
  from ended have ok: "item_ok (bk_max_lease_ms b) key item" by (auto simp: book_inv_def dest: dict_allD)
  then have "item_ok (bk_max_lease_ms b) key (ended_item reason now_ms item)"
    by (simp add: item_ok_def ended_item_def reservation_identity_def)
  moreover have "within_quota (book_end sha kind reason now_ms key item b)"
    by (rule quota_replace [of b key item "ended_item reason now_ms item"])
      (use ended ok in \<open>simp_all add: book_inv_def item_ok_def book_end_def, simp_all add: ended_item_def\<close>)
  moreover have "book_ledger_ok sha (bk_boot_epoch ?c) 1 ''GENESIS''
      (bk_ledger_events ?c @ [new_reservation_event sha kind (ended_item reason now_ms item) now_ms ?c])"
    unfolding book_ledger_ok_snoc using ended new_event_follows [of sha ?c] by (simp add: book_inv_def)
  ultimately show ?case using ended by (simp add: book_inv_def book_end_def)
qed

interpretation micro_book: invariant_system "\<lambda>_. False" "book_micro sha" "book_inv sha"
  by unfold_locales (auto intro: book_micro_inv)

interpretation book_system: invariant_system book_start "book_step sha" "book_inv sha"
proof
  fix b t
  show "book_inv sha b" if "book_start b"
    using that by (auto simp: book_start_def book_init_def book_inv_def within_quota_def split: if_splits)
  show "book_inv sha t" if "book_inv sha b" "book_step sha b t"
    using micro_book.steps_inv [OF book_step_micro [OF that(2)]] that(1) by (simp add: book_inv_def)
qed

section \<open>Quotas and leases\<close>

definition book_config :: "book \<Rightarrow> string \<times> string \<times> int \<times> int \<times> int \<times> int \<times> int" where
  "book_config b = (bk_provider b, bk_boot_epoch b, bk_capacity b, bk_per_requester_limit b,
     bk_per_service_limit b, bk_max_lease_ms b, bk_committed_lease_ms b)"

lemma micro_config: "book_micro sha b t \<Longrightarrow> book_config t = book_config b"
  by (induction rule: book_micro.induct) (simp_all add: book_config_def book_end_def)

lemma micros_config: "(book_micro sha)\<^sup>*\<^sup>* b t \<Longrightarrow> book_config t = book_config b"
  by (induction rule: rtranclp_induct) (simp_all add: micro_config)

lemma step_config: "book_step sha b t \<Longrightarrow> book_inv sha b \<Longrightarrow> book_config t = book_config b"
  by (auto simp: book_inv_def dest: book_step_micro intro: micros_config)

lemma book_expire_facts:
  assumes "book_inv sha b"
  shows "book_inv sha (snd (book_expire sha now_ms b))"
    and "book_config (snd (book_expire sha now_ms b)) = book_config b"
proof -
  have "book_step sha b (snd (book_expire sha now_ms b))" by (rule book_step.expire [OF prod.collapse [symmetric]])
  then show "book_inv sha (snd (book_expire sha now_ms b))"
    "book_config (snd (book_expire sha now_ms b)) = book_config b"
    using assms by (blast intro: book_system.step_inv step_config)+
qed

text \<open>Expiry ends every live reservation whose deadline has come.\<close>

lemma expire_untouched:
  "k \<notin> fst ` set items \<Longrightarrow> dict_get (bk_items (snd (expire_items sha now_ms items b))) k = dict_get (bk_items b) k"
  by (induction sha now_ms items b rule: expire_items.induct)
    (auto simp: book_end_def dict_simps split: prod.splits)

lemma expired_ended:
  "distinct (map fst items) \<Longrightarrow> (\<And>k i. (k, i) \<in> set items \<Longrightarrow> dict_get (bk_items b) k = Some i) \<Longrightarrow> k \<in> fst ` set items \<Longrightarrow>
     dict_get (bk_items (snd (expire_items sha now_ms items b))) k = Some i \<Longrightarrow> reservation_live i \<Longrightarrow> now_ms < reservation_deadline i"
proof (induction items arbitrary: b)
  case (Cons x items)
  obtain key item where x: "x = (key, item)" by (cases x)
  let ?ends = "reservation_live item \<and> reservation_deadline item \<le> now_ms"
  let ?b = "if ?ends then book_end sha ''EXPIRE'' ''LEASE_EXPIRED'' now_ms key item b else b"
  have run: "snd (expire_items sha now_ms (x # items) b) = snd (expire_items sha now_ms items ?b)"
    by (simp add: x split: prod.split)
  show ?case
  proof (cases "k = key")
    case True
    then have "k \<notin> fst ` set items" using Cons.prems(1) x by simp
    then have "dict_get (bk_items ?b) k = Some i" using Cons.prems(4) unfolding run by (simp add: expire_untouched split del: if_split)
    with True Cons.prems(2) [of key item] Cons.prems(5) x show ?thesis
      by (auto simp: book_end_def dict_simps ended_item_def reservation_live_def split: if_splits)
  next
    case False
    show ?thesis
    proof (rule Cons.IH [of ?b])
      show "distinct (map fst items)" "k \<in> fst ` set items" using Cons.prems(1,3) False x by auto
      show "dict_get (bk_items (snd (expire_items sha now_ms items ?b))) k = Some i" using Cons.prems(4) unfolding run .
      show "reservation_live i" by (rule Cons.prems(5))
      fix j f
      assume "(j, f) \<in> set items"
      moreover from this have "j \<noteq> key" using Cons.prems(1) x by (auto simp: rev_image_eqI)
      ultimately show "dict_get (bk_items ?b) j = Some f" using Cons.prems(2) [of j f] by (simp add: book_end_def dict_simps)
    qed
  qed
qed simp

lemma expire_leaves_unexpired:
  assumes "dict_ok (bk_items b)" and "dict_get (bk_items (snd (book_expire sha now_ms b))) k = Some i" and "reservation_live i"
  shows "now_ms < reservation_deadline i"
proof -
  have "k \<in> fst ` set (bk_items b)"
  proof (rule ccontr)
    assume new: "k \<notin> fst ` set (bk_items b)"
    with assms(2) have "dict_get (bk_items b) k = Some i" by (simp add: book_expire_def expire_untouched)
    from new dict_key_in [OF dict_get_in [OF this]] show False by contradiction
  qed
  then show ?thesis using assms by (intro expired_ended [of "bk_items b" b k sha now_ms i]) (simp_all add: book_expire_def dict_ok_def dict_get_iff)
qed

lemma live_within_capacity:
  assumes "book_inv sha b" and "dict_get (bk_items b) key = Some item" and "reservation_live item"
  shows "tr_units item \<le> bk_capacity b"
proof -
  have "0 \<le> live_weight (\<lambda>_. True) k v" if "(k, v) \<in> set (bk_items b)" for k v
    using assms(1) that dict_allD [of "item_ok (bk_max_lease_ms b)" "bk_items b" k v]
    by (simp add: book_inv_def item_ok_def live_weight_def dict_get_iff)
  then have "live_weight (\<lambda>_. True) key item \<le> dict_sum (live_weight (\<lambda>_. True)) (bk_items b)"
    using dict_get_in [OF assms(2)] by (intro dict_sum_ge_item) simp_all
  with assms show ?thesis by (simp add: live_weight_def book_inv_def within_quota_def)
qed

lemma book_lease_id: "book_lease b item signature = Inr lease \<Longrightarrow> dict_get lease ''reservationId'' = Some (tr_reservation_id item)"
  by (auto simp: book_lease_def make_r1_def split: if_splits)

lemma acquire_returns:
  assumes "book_acquire sha q now_ms b = (Inr lease, t)" and "book_inv sha b" and "request_valid q"
  shows "dict_get lease ''reservationId'' = Some (reservation_id_of sha (request_key q) b)
    \<and> (\<exists>item. dict_get (bk_items t) (request_key q) = Some item
        \<and> tr_reservation_id item = reservation_id_of sha (request_key q) b
        \<and> tr_state item = ''TENTATIVE'' \<and> now_ms < tr_tentative_expires_at_ms item
        \<and> tr_tentative_expires_at_ms item \<le> now_ms + bk_max_lease_ms b)"
proof -
  let ?t = "snd (book_expire sha now_ms b)"
  let ?i = "new_reservation sha q now_ms ?t"
  have lease: "book_lease t ?i (rq_signature q) = Inr lease"
    and t: "t = book_store sha ''ACQUIRE'' now_ms (request_key q) ?i ?t"
    using assms(1) by (auto simp: book_acquire_def book_live_def Let_def split: if_splits)
  have "book_config ?t = book_config b" using assms(2) by (rule book_expire_facts)
  then have c: "bk_provider ?t = bk_provider b" "bk_boot_epoch ?t = bk_boot_epoch b" "bk_max_lease_ms ?t = bk_max_lease_ms b"
    by (simp_all add: book_config_def)
  then have i: "tr_reservation_id ?i = reservation_id_of sha (request_key q) b"
    by (simp add: new_reservation_def reservation_id_of_def)
  have "0 < rq_requested_lease_ms q" "0 < bk_max_lease_ms b"
    using assms(2,3) by (simp_all add: request_valid_def book_inv_def)
  then have "tr_state ?i = ''TENTATIVE''" "now_ms < tr_tentative_expires_at_ms ?i"
    "tr_tentative_expires_at_ms ?i \<le> now_ms + bk_max_lease_ms b"
    by (simp_all add: new_reservation_def c)
  with i book_lease_id [OF lease] show ?thesis by (simp add: t dict_simps)
qed

lemma reserve_cases:
  assumes "book_reserve sha q now_ms b = (Inr lease, t)"
  obtains (renewed) item where "dict_get (bk_items b) (request_key q) = Some item" "t = b"
      "book_lease b item (rq_signature q) = Inr lease"
      "tr_state item = ''TENTATIVE''" "now_ms < tr_tentative_expires_at_ms item"
    | (acquired) "book_acquire sha q now_ms b = (Inr lease, t)"
proof (cases "dict_get (bk_items b) (request_key q)")
  case None
  with assms have "book_acquire sha q now_ms b = (Inr lease, t)" by (simp add: book_reserve_def split: if_splits)
  then show thesis by (rule acquired)
next
  case (Some item)
  show thesis
  proof (cases "tr_state item = ''TENTATIVE'' \<and> now_ms < tr_tentative_expires_at_ms item")
    case True
    with Some have "isl (fst (book_reserve sha q now_ms b))
        \<or> book_reserve sha q now_ms b = (book_lease b item (rq_signature q), b)"
      by (simp add: book_reserve_def)
    with assms have "t = b" "book_lease b item (rq_signature q) = Inr lease" by simp_all
    from renewed [OF Some this] True show thesis by blast
  next
    case False
    with Some have "isl (fst (book_reserve sha q now_ms b)) \<or> book_reserve sha q now_ms b = book_acquire sha q now_ms b"
      by (auto simp: book_reserve_def)
    with assms have "book_acquire sha q now_ms b = (Inr lease, t)" by simp
    then show thesis by (rule acquired)
  qed
qed

text \<open>
  C10: The quotas of a reservation book. In every reachable book the units of the live
  reservations are within the capacity, and those of one requester and of one service within
  their limits; what \<open>live_units\<close> reports is within the capacity; and a lease that \<open>reserve\<close>
  returns names a reservation that is stored under the request, tentative, not yet expired, and
  held no longer than the maximal lease.
\<close>

theorem reservation_quota_safe:
  assumes "reachable book_start (book_step sha) b"
  shows "units_of (live_items b) \<le> bk_capacity b
    \<and> (\<forall>r. units_of (filter (\<lambda>item. tr_requester item = r) (live_items b)) \<le> bk_per_requester_limit b)
    \<and> (\<forall>s. units_of (filter (\<lambda>item. tr_service item = s) (live_items b)) \<le> bk_per_service_limit b)
    \<and> fst (book_live_units sha now_ms b) \<le> bk_capacity b
    \<and> (\<forall>q lease t. book_reserve sha q now_ms b = (Inr lease, t) \<longrightarrow>
        (\<exists>item. dict_get (bk_items t) (request_key q) = Some item
          \<and> dict_get lease ''reservationId'' = Some (tr_reservation_id item)
          \<and> tr_state item = ''TENTATIVE'' \<and> now_ms < tr_tentative_expires_at_ms item
          \<and> tr_tentative_expires_at_ms item \<le> tr_created_at_ms item + bk_max_lease_ms t))"
proof (intro conjI allI impI)
  have inv: "book_inv sha b" using assms by (rule book_system.reachable_inv)
  then show "units_of (live_items b) \<le> bk_capacity b"
    "units_of (filter (\<lambda>item. tr_requester item = r) (live_items b)) \<le> bk_per_requester_limit b"
    "units_of (filter (\<lambda>item. tr_service item = s) (live_items b)) \<le> bk_per_service_limit b" for r s
    by (simp_all add: book_inv_def within_quota_def units_of_live units_of_all_live)
  let ?t = "snd (book_expire sha now_ms b)"
  have "units_of (live_items ?t) \<le> bk_capacity ?t" "bk_capacity ?t = bk_capacity b"
    using book_expire_facts [OF inv, of now_ms]
    by (simp_all add: book_inv_def within_quota_def units_of_all_live book_config_def)
  then show "fst (book_live_units sha now_ms b) \<le> bk_capacity b"
    by (simp add: book_live_units_def book_live_def live_items_def Let_def)
  fix q lease t
  assume run: "book_reserve sha q now_ms b = (Inr lease, t)"
  then have valid: "request_valid q" by (auto simp: book_reserve_def split: if_splits)
  have "book_step sha b t" using run by (rule book_step.reserve)
  with inv have inv_t: "book_inv sha t" by (rule book_system.step_inv)
  have "\<exists>item. dict_get (bk_items t) (request_key q) = Some item
      \<and> dict_get lease ''reservationId'' = Some (tr_reservation_id item)
      \<and> tr_state item = ''TENTATIVE'' \<and> now_ms < tr_tentative_expires_at_ms item"
    using run
  proof (cases rule: reserve_cases)
    case (renewed item)
    then show ?thesis by (simp add: book_lease_id)
  next
    case acquired
    from acquire_returns [OF this inv valid] show ?thesis by force
  qed
  with inv_t show "\<exists>item. dict_get (bk_items t) (request_key q) = Some item
      \<and> dict_get lease ''reservationId'' = Some (tr_reservation_id item)
      \<and> tr_state item = ''TENTATIVE'' \<and> now_ms < tr_tentative_expires_at_ms item
      \<and> tr_tentative_expires_at_ms item \<le> tr_created_at_ms item + bk_max_lease_ms t"
    by (auto simp: book_inv_def item_ok_def dest: dict_allD)
qed

section \<open>Persistence\<close>

lemma book_restore_events_all:
  "book_ledger_ok sha (bk_boot_epoch b) n prev es \<Longrightarrow>
     book_restore_events sha n prev es b = (Inr (), b\<lparr>bk_ledger_events := bk_ledger_events b @ es\<rparr>)"
  by (induction sha n prev es b rule: book_restore_events.induct) auto

lemma book_restore_events_bad:
  "\<not> book_ledger_ok sha (bk_boot_epoch b) n prev es \<Longrightarrow> \<exists>e t. book_restore_events sha n prev es b = (Inl e, t)"
  by (induction sha n prev es b rule: book_restore_events.induct) auto

lemma restored_items:
  assumes "dict_ok d" and "dict_all (item_ok m) d"
  shows "dict_of_list (map (\<lambda>item. (reservation_identity item, item)) (dict_values d)) = d"
proof -
  have "reservation_identity i = k" if "(k, i) \<in> set d" for k i
    using dict_allD [OF assms(2), of k i] that assms(1) by (simp add: dict_get_iff item_ok_def)
  then have "map (\<lambda>item. (reservation_identity item, item)) (dict_values d) = d"
    by (auto simp: comp_def intro!: map_idI)
  moreover have "distinct (map fst d)" using assms(1) by (simp add: dict_ok_def)
  ultimately show ?thesis by (simp add: dict_of_list_distinct)
qed

text \<open>
  C27: Journal recovery of a reservation book. A book with the same configuration that restores the
  snapshot of a reachable book is that book with its expired reservations ended: items, counters,
  ledger and the number returned agree. A snapshot of the same Provider boot is refused exactly
  when its ledger has a gap, a fork or a wrong digest.
\<close>

theorem book_restore_roundtrip:
  assumes "reachable book_start (book_step sha) b" and "book_config c = book_config b"
  shows "book_restore sha (snapshot_book b) now_ms c
      = (Inr (fst (book_expire sha now_ms b)), snd (book_expire sha now_ms b))
    \<and> reachable book_start (book_step sha) (snd (book_restore sha (snapshot_book b) now_ms c))
    \<and> (\<forall>es. (\<exists>e t. book_restore sha ((snapshot_book b)\<lparr>sn_ledger_events := es\<rparr>) now_ms c = (Inl e, t))
        \<longleftrightarrow> \<not> book_ledger_ok sha (bk_boot_epoch b) 1 ''GENESIS'' es)"
proof -
  have inv: "book_inv sha b" using assms(1) by (rule book_system.reachable_inv)
  then have ledger: "book_ledger_ok sha (bk_boot_epoch b) 1 ''GENESIS'' (bk_ledger_events b)"
    and "dict_ok (bk_items b)" "dict_all (item_ok (bk_max_lease_ms b)) (bk_items b)"
    by (simp_all add: book_inv_def)
  note items = restored_items [OF this(2,3)]
  let ?c = "\<lambda>es. c\<lparr>bk_items := bk_items b, bk_release_counters := bk_release_counters b, bk_ledger_events := es\<rparr>"
  have same: "?c (bk_ledger_events b) = b" using assms(2) by (simp add: book_config_def)
  have config: "bk_provider c = bk_provider b" "bk_boot_epoch c = bk_boot_epoch b"
    using assms(2) by (simp_all add: book_config_def)
  have run: "book_restore sha (snapshot_book b) now_ms c
      = (Inr (fst (book_expire sha now_ms b)), snd (book_expire sha now_ms b))"
    using book_restore_events_all [of sha "?c []" 1 "''GENESIS''"] ledger same
    by (simp add: book_restore_def snapshot_book_def config items case_prod_beta del: map_map)
  moreover have "book_step sha b (snd (book_expire sha now_ms b))"
    by (rule book_step.expire [OF prod.collapse [symmetric]])
  then have "reachable book_start (book_step sha) (snd (book_expire sha now_ms b))"
    using assms(1) by (blast intro: next_state)
  moreover have "(\<exists>e t. book_restore sha ((snapshot_book b)\<lparr>sn_ledger_events := es\<rparr>) now_ms c = (Inl e, t))
      \<longleftrightarrow> \<not> book_ledger_ok sha (bk_boot_epoch b) 1 ''GENESIS'' es" for es
    using book_restore_events_all [of sha "?c []" 1 "''GENESIS''" es] book_restore_events_bad [of sha "?c []" 1 "''GENESIS''" es]
    by (auto simp: book_restore_def snapshot_book_def config items case_prod_beta simp del: map_map)
  ultimately show ?thesis by simp
qed

section \<open>Immutable decisions\<close>

inductive authority_step :: "hash \<Rightarrow> decision_authority \<Rightarrow> decision_authority \<Rightarrow> bool" for sha where
  decide: "authority_apply sha fs now_ms valid a = (r, t) \<Longrightarrow> authority_step sha a t"
| book: "book_step sha (da_book a) b \<Longrightarrow> authority_step sha a (a\<lparr>da_book := b\<rparr>)"

definition authority_start :: "decision_authority \<Rightarrow> bool" where
  "authority_start a \<longleftrightarrow> book_start (da_book a) \<and> da_accepted a = []"

text \<open>The effects of \<open>apply\<close>: nothing, a commit that fails, or the first decision on a reservation.\<close>

lemma authority_decide_cases:
  assumes "authority_decide sha i d g now_ms a = (r, t)"
  obtains (refused) e where "r = Inl e" "t = a" "dict_get (da_accepted a) i \<noteq> Some (d, g)"
    | (replayed) "dict_get (da_accepted a) i = Some (d, g)" "t = a"
        "r = decision_receipt g i (if d = ''SELECTED'' then ''COMMITTED'' else ''RELEASED'') (da_book a)"
    | (failed) e b where "book_commit sha i now_ms (da_book a) = (Inl e, b)" "t = a\<lparr>da_book := b\<rparr>" "r = Inl e"
    | (committed) item b where "dict_get (da_accepted a) i = None" "d = ''SELECTED''"
        "book_commit sha i now_ms (da_book a) = (Inr item, b)"
        "t = accept_decision i d g b a" "r = decision_receipt g i ''COMMITTED'' b"
    | (released) w b where "dict_get (da_accepted a) i = None" "d \<noteq> ''SELECTED''"
        "book_release sha i ''NOT_SELECTED'' 0 (da_book a) = (w, b)"
        "t = accept_decision i d g b a" "r = decision_receipt g i ''RELEASED'' b"
proof (cases "dict_get (da_accepted a) i")
  case (Some p)
  show thesis
  proof (cases "p = (d, g)")
    case True
    with assms Some have "t = a"
      "r = decision_receipt g i (if d = ''SELECTED'' then ''COMMITTED'' else ''RELEASED'') (da_book a)"
      by (auto simp: authority_decide_def)
    with Some True show thesis by (auto intro: replayed)
  next
    case False
    with assms Some have "t = a" "r = Inl (RuntimeError ''conflicting immutable Selection decision'')"
      by (auto simp: authority_decide_def)
    with Some False show thesis by (intro refused) simp_all
  qed
next
  case None
  show thesis
  proof (cases "d = ''SELECTED''")
    case True
    obtain x b where c: "book_commit sha i now_ms (da_book a) = (x, b)" by force
    show thesis
    proof (cases x)
      case (Inl e)
      with assms None True c have "t = a\<lparr>da_book := b\<rparr>" "r = Inl e" by (simp_all add: authority_decide_def)
      from failed [OF c [unfolded Inl] this] show thesis .
    next
      case (Inr item)
      with assms None True c have "t = accept_decision i d g b a" "r = decision_receipt g i ''COMMITTED'' b"
        by (simp_all add: authority_decide_def)
      from committed [OF None True c [unfolded Inr] this] show thesis .
    qed
  next
    case False
    obtain w b where c: "book_release sha i ''NOT_SELECTED'' 0 (da_book a) = (w, b)" by force
    with assms None False have "t = accept_decision i d g b a" "r = decision_receipt g i ''RELEASED'' b"
      by (simp_all add: authority_decide_def)
    from released [OF None False c this] show thesis .
  qed
qed

lemma authority_decide_accepted:
  "authority_decide sha i d g now_ms a = (r, t) \<Longrightarrow>
     da_accepted t = da_accepted a \<or> dict_get (da_accepted a) i = None \<and> da_accepted t = dict_set i (d, g) (da_accepted a)"
  by (erule authority_decide_cases) (simp_all add: accept_decision_def)

lemma authority_decide_book:
  assumes "authority_decide sha i d g now_ms a = (r, t)"
  shows "(book_step sha)\<^sup>*\<^sup>* (da_book a) (da_book t)"
  using assms
proof (cases rule: authority_decide_cases)
  case (failed e b)
  then show ?thesis by (auto intro: book_step.commit)
next
  case (committed item b)
  then show ?thesis by (auto simp: accept_decision_def intro: book_step.commit)
next
  case (released w b)
  then show ?thesis by (auto simp: accept_decision_def intro: book_step.release)
qed simp_all

lemma authority_apply_decide:
  "authority_apply sha fs now_ms valid a = (r, t) \<Longrightarrow> t = a \<and> isl r
     \<or> valid \<and> r1_field fs ''reservationId'' \<noteq> [] \<and> r1_field fs ''decision'' \<in> {''SELECTED'', ''NOT_SELECTED''}
       \<and> authority_decide sha (r1_field fs ''reservationId'') (r1_field fs ''decision'')
           (r1_digest sha ''ndnsf-selection-decision-v1'' fs) now_ms a = (r, t)"
  by (auto simp: authority_apply_def Let_def split: if_splits)

interpretation decision_once: terminal_once "authority_step sha" "\<lambda>a. dict_get (da_accepted a) i" None for sha i
proof
  fix a t
  assume "authority_step sha a t" and some: "dict_get (da_accepted a) i \<noteq> None"
  then show "dict_get (da_accepted t) i = dict_get (da_accepted a) i"
  proof (induction rule: authority_step.induct)
    case (decide fs now_ms valid a r t)
    then show ?case
      by (auto dest!: authority_apply_decide authority_decide_accepted simp: dict_simps)
  qed simp
qed

interpretation authority_system: invariant_system authority_start "authority_step sha" "\<lambda>a. book_inv sha (da_book a)"
proof
  fix a t
  show "book_inv sha (da_book a)" if "authority_start a"
    using that by (simp add: authority_start_def book_system.init_inv)
  show "book_inv sha (da_book t)" if "book_inv sha (da_book a)" "authority_step sha a t"
    using that(2,1)
  proof (induction rule: authority_step.induct)
    case (decide fs now_ms valid a r t)
    then have "(book_step sha)\<^sup>*\<^sup>* (da_book a) (da_book t)"
      by (auto dest!: authority_apply_decide authority_decide_book)
    then show ?case using decide(2) by (rule book_system.steps_inv)
  next
    case (book a b)
    then show ?case by (simp add: book_system.step_inv)
  qed
qed

lemma steps_config: "(book_step sha)\<^sup>*\<^sup>* b t \<Longrightarrow> book_inv sha b \<Longrightarrow> book_config t = book_config b"
proof (induction rule: rtranclp_induct)
  case (step t u)
  then have "book_inv sha t" by (blast intro: book_system.steps_inv)
  with step show ?case by (simp add: step_config)
qed simp

lemma authority_step_book:
  assumes "authority_step sha a t"
  shows "(book_step sha)\<^sup>*\<^sup>* (da_book a) (da_book t)"
  using assms
proof (induction rule: authority_step.induct)
  case (decide fs now_ms valid a r t)
  then show ?case by (auto dest!: authority_apply_decide authority_decide_book)
qed auto

lemma authority_steps_book:
  "(authority_step sha)\<^sup>*\<^sup>* a t \<Longrightarrow> (book_step sha)\<^sup>*\<^sup>* (da_book a) (da_book t)"
  by (induction rule: rtranclp_induct) (auto dest: authority_step_book intro: rtranclp_trans)

lemma receipt_config: "book_config b = book_config c \<Longrightarrow> decision_receipt g i state b = decision_receipt g i state c"
  by (simp add: decision_receipt_def book_config_def)

lemma find_reservation_id: "find_reservation i b = Some (key, item) \<Longrightarrow> tr_reservation_id item = i"
  by (auto simp: find_reservation_def dest: find_SomeD)

lemma commit_stores:
  assumes "book_commit sha i now_ms b = (Inr item, t)"
  shows "tr_reservation_id item = i \<and> tr_state item = ''COMMITTED''
    \<and> tr_committed_expires_at_ms item = now_ms + bk_committed_lease_ms b
    \<and> (\<exists>key. dict_get (bk_items t) key = Some item)"
proof -
  obtain key old where "find_reservation i b = Some (key, old)" "item = committed_item now_ms b old"
    "t = book_store sha ''COMMIT'' now_ms key item b"
    using assms by (auto simp: book_commit_def Let_def split: option.splits if_splits)
  then have "dict_get (bk_items t) key = Some item" "tr_reservation_id item = i"
    by (simp_all add: dict_simps committed_item_def find_reservation_id)
  moreover have "tr_state item = ''COMMITTED''" "tr_committed_expires_at_ms item = now_ms + bk_committed_lease_ms b"
    using \<open>item = committed_item now_ms b old\<close> by (simp_all add: committed_item_def)
  ultimately show ?thesis by blast
qed

definition decided_state :: "string \<Rightarrow> string" where
  "decided_state d = (if d = ''SELECTED'' then ''COMMITTED'' else ''RELEASED'')"

lemma decide_settles:
  assumes "authority_decide sha i d g now_ms a = (Inr receipt, t)"
  shows "dict_get (da_accepted t) i = Some (d, g) \<and> decision_receipt g i (decided_state d) (da_book t) = Inr receipt
    \<and> (d = ''SELECTED'' \<longrightarrow> dict_get (da_accepted a) i = None \<longrightarrow>
        (\<exists>key item. dict_get (bk_items (da_book t)) key = Some item \<and> tr_reservation_id item = i
          \<and> tr_state item = ''COMMITTED''
          \<and> tr_committed_expires_at_ms item = now_ms + bk_committed_lease_ms (da_book a)))"
  using assms
proof (cases rule: authority_decide_cases)
  case (committed item b)
  then show ?thesis using commit_stores [OF committed(3)]
    by (auto simp: accept_decision_def dict_simps decided_state_def)
next
  case (released w b)
  then show ?thesis by (simp add: accept_decision_def dict_simps decided_state_def)
qed (auto simp: decided_state_def)

lemma decide_replays:
  "dict_get (da_accepted a) i = Some (d, g) \<Longrightarrow>
     authority_decide sha i d g now_ms a = (decision_receipt g i (decided_state d) (da_book a), a)"
  by (simp add: authority_decide_def decided_state_def)

lemma decide_conflicts:
  "dict_get (da_accepted a) i = Some p \<Longrightarrow> p \<noteq> (d, g) \<Longrightarrow> isl (fst (authority_decide sha i d g now_ms a))
     \<and> snd (authority_decide sha i d g now_ms a) = a"
  by (simp add: authority_decide_def)

text \<open>
  C14: The first decision on a reservation is final. Once the authority has returned a receipt for
  a decision, the same message is answered by the same receipt for ever after, whatever happens in
  between, and changes nothing; every other message about that reservation raises and changes
  nothing. A receipt for a decision that selects a reservation for the first time is backed by
  a committed reservation in the book, held for the committed lease.
\<close>

theorem first_decision_final:
  assumes "reachable authority_start (authority_step sha) a"
    and "authority_apply sha fs now_ms True a = (Inr receipt, t)" and "(authority_step sha)\<^sup>*\<^sup>* t u"
  shows "authority_apply sha fs later_ms True u = (Inr receipt, u)
    \<and> (\<forall>gs valid. r1_field gs ''reservationId'' = r1_field fs ''reservationId''
        \<and> r1_digest sha ''ndnsf-selection-decision-v1'' gs \<noteq> r1_digest sha ''ndnsf-selection-decision-v1'' fs
        \<longrightarrow> (\<exists>e. authority_apply sha gs later_ms valid u = (Inl e, u)))
    \<and> (r1_field fs ''decision'' = ''SELECTED'' \<and> dict_get (da_accepted a) (r1_field fs ''reservationId'') = None
        \<longrightarrow> (\<exists>key item. dict_get (bk_items (da_book t)) key = Some item
              \<and> tr_reservation_id item = r1_field fs ''reservationId'' \<and> tr_state item = ''COMMITTED''
              \<and> tr_committed_expires_at_ms item = now_ms + bk_committed_lease_ms (da_book a)))"
proof -
  let ?i = "r1_field fs ''reservationId''" and ?d = "r1_field fs ''decision''"
  let ?g = "r1_digest sha ''ndnsf-selection-decision-v1'' fs"
  from authority_apply_decide [OF assms(2)] have valid: "?i \<noteq> []" "?d \<in> {''SELECTED'', ''NOT_SELECTED''}"
    and run: "authority_decide sha ?i ?d ?g now_ms a = (Inr receipt, t)" by auto
  note settled = decide_settles [OF run]
  then have "dict_get (da_accepted t) ?i = Some (?d, ?g)" by blast
  with decision_once.outcome_steps [OF assms(3), of ?i]
  have kept: "dict_get (da_accepted u) ?i = Some (?d, ?g)" by simp
  have "book_inv sha (da_book a)" using assms(1) by (rule authority_system.reachable_inv)
  moreover have "authority_step sha a t" using assms(2) by (rule authority_step.decide)
  ultimately have "book_inv sha (da_book t)" by (rule authority_system.step_inv)
  with authority_steps_book [OF assms(3)] have config: "book_config (da_book u) = book_config (da_book t)"
    by (rule steps_config)
  have "decision_receipt ?g ?i (decided_state ?d) (da_book u) = Inr receipt"
    using settled by (simp add: receipt_config [OF config])
  then have "authority_apply sha fs later_ms True u = (Inr receipt, u)"
    using valid decide_replays [OF kept] by (simp add: authority_apply_def Let_def)
  moreover have "\<exists>e. authority_apply sha gs later_ms v u = (Inl e, u)"
    if gs: "r1_field gs ''reservationId'' = ?i" "r1_digest sha ''ndnsf-selection-decision-v1'' gs \<noteq> ?g" for gs v
  proof -
    let ?r = "authority_apply sha gs later_ms v u"
    have "isl (fst ?r) \<and> snd ?r = u"
      using decide_conflicts [OF kept] gs by (simp add: authority_apply_def Let_def)
    then show ?thesis by (cases ?r) (auto simp: isl_def)
  qed
  ultimately show ?thesis using settled by blast
qed

text \<open>
  C39: A repeated reserve call undoes a commit. When the reservation of a request attempt is
  committed and its lease runs, an authorised \<open>reserve\<close> for the same attempt that fits the quotas
  replaces it by a new tentative reservation with the same identifier; the committed lease is gone
  although no release is on the ledger.
\<close>

theorem reserve_undoes_commit:
  assumes "dict_get (bk_items b) (request_key q) = Some item" and "tr_state item = ''COMMITTED''"
    and "rq_authorized q" "request_valid q" "(rq_canonical_resource_id q \<noteq> []) = (0 < rq_resource_sequence q)"
    and "snd (book_expire sha now_ms b) = b" and "\<not> quota_exhausted q (live_items b) b"
  shows "dict_get (bk_items (snd (book_reserve sha q now_ms b))) (request_key q) = Some (new_reservation sha q now_ms b)
    \<and> tr_state (new_reservation sha q now_ms b) = ''TENTATIVE''
    \<and> tr_reservation_id (new_reservation sha q now_ms b) = reservation_id_of sha (request_key q) b
    \<and> bk_ledger_events (snd (book_reserve sha q now_ms b))
        = bk_ledger_events b @ [new_reservation_event sha ''ACQUIRE'' (new_reservation sha q now_ms b) now_ms b]"
proof -
  let ?i = "new_reservation sha q now_ms b"
  have "snd (book_reserve sha q now_ms b) = snd (book_acquire sha q now_ms b)"
    using assms(1-5) by (simp add: book_reserve_def)
  moreover have "snd (book_acquire sha q now_ms b) = book_store sha ''ACQUIRE'' now_ms (request_key q) ?i b"
    using assms(6,7) by (simp add: book_acquire_def book_live_def live_items_def Let_def)
  moreover have "tr_state ?i = ''TENTATIVE''" "tr_reservation_id ?i = reservation_id_of sha (request_key q) b"
    by (simp_all add: new_reservation_def)
  ultimately show ?thesis by (simp add: dict_simps)
qed

section \<open>Witnesses\<close>

definition demo_book :: book where
  "demo_book = \<lparr>bk_provider = ''p'', bk_boot_epoch = ''b'', bk_capacity = 5, bk_per_requester_limit = 5,
     bk_per_service_limit = 5, bk_max_lease_ms = 10, bk_committed_lease_ms = 20,
     bk_items = [], bk_release_counters = [], bk_ledger_events = []\<rparr>"

definition demo_reserve :: reserve_request where
  "demo_reserve = \<lparr>rq_requester = ''u'', rq_service = ''s'', rq_request_id = ''r'', rq_attempt = 1, rq_units = 2,
     rq_requested_lease_ms = 8, rq_authorized = True, rq_signature = ''x'',
     rq_canonical_resource_id = [], rq_resource_sequence = 0\<rparr>"

definition flat_sha :: hash where
  "flat_sha _ = ''h''"

definition demo_reserved :: book where
  "demo_reserved = snd (book_reserve flat_sha demo_reserve 1 demo_book)"

definition demo_committed :: book where
  "demo_committed = snd (book_commit flat_sha ''h'' 2 demo_reserved)"

lemma demo_book_start: "book_start demo_book"
proof -
  have "book_init ''p'' ''b'' 5 5 5 10 20 = Inr demo_book" by (simp add: book_init_def demo_book_def)
  then show ?thesis unfolding book_start_def by blast
qed

lemma demo_reserve_step: "book_step flat_sha demo_book demo_reserved"
  unfolding demo_reserved_def by (rule book_step.reserve [OF prod.collapse [symmetric]])

lemma demo_reserved_reachable: "reachable book_start (book_step flat_sha) demo_reserved"
  using demo_reserve_step demo_book_start by (rule reachable_one)

theorem reservation_quota_safe_witness:
  "units_of (live_items demo_reserved) = 2 \<and> units_of (live_items demo_reserved) \<le> bk_capacity demo_reserved"
proof
  show "units_of (live_items demo_reserved) = 2" by code_simp
  show "units_of (live_items demo_reserved) \<le> bk_capacity demo_reserved"
    using reservation_quota_safe [OF demo_reserved_reachable] by blast
qed

theorem book_restore_roundtrip_witness:
  "book_restore flat_sha (snapshot_book demo_reserved) 3 demo_book = (Inr 0, demo_reserved)"
proof -
  have "book_config demo_book = book_config demo_reserved" by code_simp
  from book_restore_roundtrip [OF demo_reserved_reachable this, of 3]
  have "book_restore flat_sha (snapshot_book demo_reserved) 3 demo_book
      = (Inr (fst (book_expire flat_sha 3 demo_reserved)), snd (book_expire flat_sha 3 demo_reserved))" by blast
  moreover have "book_expire flat_sha 3 demo_reserved = (0, demo_reserved)" by code_simp
  ultimately show ?thesis by simp
qed

definition demo_decision :: r1_contract where
  "demo_decision = [(''reservationId'', ''h''), (''decision'', ''SELECTED'')]"

definition demo_book_authority :: decision_authority where
  "demo_book_authority = \<lparr>da_book = demo_book, da_accepted = []\<rparr>"

definition demo_holding :: decision_authority where
  "demo_holding = \<lparr>da_book = demo_reserved, da_accepted = []\<rparr>"

definition demo_book_receipt :: r1_contract where
  "demo_book_receipt = [(''decisionDigest'', ''sha256:h''), (''reservationId'', ''h''), (''state'', ''COMMITTED''),
     (''provider'', ''p''), (''providerBootEpoch'', ''b'')]"

theorem first_decision_final_witness:
  "authority_apply flat_sha demo_decision 50 True (snd (authority_apply flat_sha demo_decision 2 True demo_holding))
     = (Inr demo_book_receipt, snd (authority_apply flat_sha demo_decision 2 True demo_holding))"
proof (rule conjunct1 [OF first_decision_final])
  have "authority_start demo_book_authority" by (simp add: authority_start_def demo_book_authority_def demo_book_start)
  moreover have "authority_step flat_sha demo_book_authority demo_holding"
    using authority_step.book [of flat_sha demo_book_authority demo_reserved] demo_reserve_step
    by (simp add: demo_book_authority_def demo_holding_def)
  ultimately show "reachable authority_start (authority_step flat_sha) demo_holding" by (blast intro: reachable_one)
  have "fst (authority_apply flat_sha demo_decision 2 True demo_holding) = Inr demo_book_receipt" by code_simp
  then show "authority_apply flat_sha demo_decision 2 True demo_holding
      = (Inr demo_book_receipt, snd (authority_apply flat_sha demo_decision 2 True demo_holding))"
    by (simp add: prod_eq_iff)
qed simp

theorem reserve_undoes_commit_witness:
  "map_option tr_state (dict_get (bk_items demo_committed) (''u'', ''r'', 1)) = Some ''COMMITTED''
   \<and> map_option tr_state (dict_get (bk_items (snd (book_reserve flat_sha demo_reserve 3 demo_committed))) (''u'', ''r'', 1))
     = Some ''TENTATIVE''"
proof
  have key: "request_key demo_reserve = (''u'', ''r'', 1)" by code_simp
  show c: "map_option tr_state (dict_get (bk_items demo_committed) (''u'', ''r'', 1)) = Some ''COMMITTED''" by code_simp
  then obtain item where "dict_get (bk_items demo_committed) (request_key demo_reserve) = Some item"
    "tr_state item = ''COMMITTED''" by (auto simp: key)
  moreover have "rq_authorized demo_reserve" "request_valid demo_reserve"
    "(rq_canonical_resource_id demo_reserve \<noteq> []) = (0 < rq_resource_sequence demo_reserve)"
    "snd (book_expire flat_sha 3 demo_committed) = demo_committed"
    "\<not> quota_exhausted demo_reserve (live_items demo_committed) demo_committed" by code_simp+
  ultimately show "map_option tr_state (dict_get (bk_items (snd (book_reserve flat_sha demo_reserve 3 demo_committed)))
      (''u'', ''r'', 1)) = Some ''TENTATIVE''"
    using reserve_undoes_commit [of demo_committed demo_reserve item flat_sha 3] by (simp add: key)
qed

end
