(* ===== verification/Gated_Provider.thy ===== *)
theory Gated_Provider
  imports Ready_Set Reservation_Book
begin

text \<open>
  \<open>SelectionGatedProvider\<close> of \<open>core/deployment_control.py\<close>: the state machine by which a Provider
  prepares a role only after it is selected and executes it only after the plan is activated. It
  composes the reservation book, the deployment instances of the contracts and the activation
  gates of the ready-set protocol.

  \<^item> The callbacks of the adapter (\<open>capability\<close>, \<open>verify\<close>, \<open>load\<close>, \<open>warm\<close>, \<open>release\<close>, the
    reservation authoriser, the operation and the verifier of activations) are parameters; each but
    the verifier may raise. The capability callback receives the side-effect counters, since the code
    checks that it leaves them alone. A call is atomic: no callback re-enters the provider.
  \<^item> \<open>str_exc\<close> is \<open>str\<close> of an exception.
\<close>

section \<open>State\<close>

record counters =
  ct_verify :: int
  ct_fetch :: int
  ct_load :: int
  ct_warm :: int
  ct_reserve :: int
  ct_execute :: int
  ct_release :: int
  ct_ready_notifications :: int
  ct_ready_duplicates :: int
  ct_activation_accepts :: int
  ct_activation_duplicates :: int
  ct_retry_exhaustions :: int

definition mutation_total :: "counters \<Rightarrow> int" where
  "mutation_total c = ct_fetch c + ct_load c + ct_warm c + ct_reserve c + ct_execute c"

record preparation =
  cb_verify :: "deployment_plan \<Rightarrow> provider_assignment \<Rightarrow> py_error option"
  cb_load :: "deployment_plan \<Rightarrow> provider_assignment \<Rightarrow> py_error option"
  cb_warm :: "deployment_plan \<Rightarrow> provider_assignment \<Rightarrow> py_error option"
  cb_release :: "deployment_instance \<Rightarrow> py_error option"

record gated_provider =
  gp_provider :: string
  gp_boot_epoch :: string
  gp_book :: "book option"
  gp_counters :: counters
  gp_instances :: "(string \<times> string, deployment_instance) dict"
  gp_gates :: "(string \<times> string, activation_gate) dict"
  gp_ready_digests :: "(string \<times> string, string) dict"

definition zero_counters :: counters where
  "zero_counters = \<lparr>ct_verify = 0, ct_fetch = 0, ct_load = 0, ct_warm = 0, ct_reserve = 0, ct_execute = 0,
     ct_release = 0, ct_ready_notifications = 0, ct_ready_duplicates = 0, ct_activation_accepts = 0,
     ct_activation_duplicates = 0, ct_retry_exhaustions = 0\<rparr>"

definition provider_init :: "string \<Rightarrow> string \<Rightarrow> book option \<Rightarrow> gated_provider" where
  "provider_init provider boot_epoch reservation_book =
     \<lparr>gp_provider = provider, gp_boot_epoch = boot_epoch, gp_book = reservation_book,
      gp_counters = zero_counters, gp_instances = [], gp_gates = [], gp_ready_digests = []\<rparr>"

definition plan_key :: "hash \<Rightarrow> deployment_plan \<Rightarrow> string \<Rightarrow> string \<times> string" where
  "plan_key sha plan role = (deployment_plan_digest sha plan, role)"

section \<open>Acknowledgement\<close>

definition provider_acknowledge ::
  "(deployment_intent \<Rightarrow> counters \<Rightarrow> (capability_offer, counters) outcome) \<Rightarrow> deployment_intent \<Rightarrow> int
     \<Rightarrow> gated_provider \<Rightarrow> (capability_offer, gated_provider) outcome" where
  "provider_acknowledge capability intent now_ms s =
     (if di_deadline_ms intent \<le> now_ms then (Inl (ValueError ''deployment intent expired''), s)
      else case capability intent (gp_counters s) of
        (Inl e, c) \<Rightarrow> (Inl e, s\<lparr>gp_counters := c\<rparr>)
      | (Inr offer, c) \<Rightarrow>
          (if co_provider offer \<noteq> gp_provider s \<or> co_provider_boot_epoch offer \<noteq> gp_boot_epoch s
              \<or> co_expires_at_ms offer \<le> now_ms
           then Inl (ValueError ''capability offer binding or expiry failed'')
           else if mutation_total c \<noteq> mutation_total (gp_counters s)
           then Inl (RuntimeError ''REQUEST/ACK capability handling caused deployment side effects'')
           else Inr offer, s\<lparr>gp_counters := c\<rparr>))"

definition intent_request :: "deployment_intent \<Rightarrow> string \<Rightarrow> int \<Rightarrow> int \<Rightarrow> bool \<Rightarrow> string \<Rightarrow> reserve_request" where
  "intent_request intent service units lease_ms authorized signature =
     \<lparr>rq_requester = di_requester_identity intent, rq_service = service, rq_request_id = di_request_id intent,
      rq_attempt = di_attempt intent, rq_units = units, rq_requested_lease_ms = lease_ms,
      rq_authorized = authorized, rq_signature = signature, rq_canonical_resource_id = [],
      rq_resource_sequence = 0\<rparr>"

definition reserve_and_count :: "hash \<Rightarrow> reserve_request \<Rightarrow> int \<Rightarrow> book \<Rightarrow> gated_provider
    \<Rightarrow> (r1_contract, gated_provider) outcome" where
  "reserve_and_count sha q now_ms b s =
     (case book_reserve sha q now_ms b of
        (Inl e, b1) \<Rightarrow> (Inl e, s\<lparr>gp_book := Some b1\<rparr>)
      | (Inr lease, b1) \<Rightarrow>
          (case book_live_units sha now_ms b1 of (n, b2) \<Rightarrow>
             (Inr lease, s\<lparr>gp_book := Some b2, gp_counters := (gp_counters s)\<lparr>ct_reserve := n\<rparr>\<rparr>)))"

definition provider_acknowledge_reservation ::
  "hash \<Rightarrow> (deployment_intent \<Rightarrow> py_error + bool) option \<Rightarrow> deployment_intent \<Rightarrow> string \<Rightarrow> int \<Rightarrow> int \<Rightarrow> int
     \<Rightarrow> string \<Rightarrow> gated_provider \<Rightarrow> (r1_contract, gated_provider) outcome" where
  "provider_acknowledge_reservation sha authorizer intent service units lease_ms now_ms signature s =
     (case (gp_book s, authorizer) of
        (Some b, Some allowed) \<Rightarrow>
          if di_deadline_ms intent \<le> now_ms then (Inl (ValueError ''deployment intent expired''), s)
          else (case allowed intent of
                  Inl e \<Rightarrow> (Inl e, s)
                | Inr authorized \<Rightarrow>
                    reserve_and_count sha (intent_request intent service units lease_ms authorized signature) now_ms b s)
      | _ \<Rightarrow> (Inl (RuntimeError ''DI reservation capability is not configured''), s))"

section \<open>Selection\<close>

text \<open>
  One stage of the preparation: the instance moves to its state, the counter is raised, the
  callback runs. The pair holds the instance and the counters when the stage ends or raises.
\<close>

definition prepare_stage :: "instance_state \<Rightarrow> (counters \<Rightarrow> counters) \<Rightarrow> py_error option
    \<Rightarrow> deployment_instance \<times> counters \<Rightarrow> (unit, deployment_instance \<times> counters) outcome" where
  "prepare_stage state count raised ic = (case ic of (i, c) \<Rightarrow>
     case instance_transition i state [] of
       Inl e \<Rightarrow> (Inl e, (i, c))
     | Inr j \<Rightarrow> (case raised of Some e \<Rightarrow> (Inl e, (j, count c)) | None \<Rightarrow> (Inr (), (j, count c))))"

definition prepare_instance :: "preparation \<Rightarrow> deployment_plan \<Rightarrow> provider_assignment
    \<Rightarrow> deployment_instance \<times> counters \<Rightarrow> (unit, deployment_instance \<times> counters) outcome" where
  "prepare_instance cb plan a ic =
     and_then (prepare_stage VERIFYING (\<lambda>c. c\<lparr>ct_verify := ct_verify c + 1\<rparr>) (cb_verify cb plan a) ic) (\<lambda>_ ic.
     and_then (prepare_stage LOADING (\<lambda>c. c\<lparr>ct_load := ct_load c + 1\<rparr>) (cb_load cb plan a) ic) (\<lambda>_ ic.
     and_then (prepare_stage WARMING (\<lambda>c. c\<lparr>ct_warm := ct_warm c + 1\<rparr>) (cb_warm cb plan a) ic) (\<lambda>_ ic.
       prepare_stage READY (\<lambda>c. c) None ic)))"

definition selection_failed :: "(py_error \<Rightarrow> string) \<Rightarrow> preparation \<Rightarrow> string \<times> string \<Rightarrow> py_error
    \<Rightarrow> deployment_instance \<Rightarrow> gated_provider \<Rightarrow> (deployment_instance, gated_provider) outcome" where
  "selection_failed str_exc cb key e i s =
     (case instance_transition i FAILED (str_exc e) of
        Inl e2 \<Rightarrow> (Inl e2, s)
      | Inr f \<Rightarrow>
          (case cb_release cb f of
             Some e2 \<Rightarrow> (Inl e2, s)
           | None \<Rightarrow> (Inl e, s\<lparr>gp_counters := (gp_counters s)\<lparr>ct_release := ct_release (gp_counters s) + 1\<rparr>,
                            gp_instances := dict_set key f (gp_instances s)\<rparr>)))"

definition selection_prepared :: "deployment_plan \<Rightarrow> string \<Rightarrow> string \<times> string \<Rightarrow> deployment_instance
    \<Rightarrow> gated_provider \<Rightarrow> (deployment_instance, gated_provider) outcome" where
  "selection_prepared plan role key i s =
     (let t = s\<lparr>gp_instances := dict_set key i (gp_instances s)\<rparr> in
      case gate_init plan (gp_provider s) role of
        Inl e \<Rightarrow> (Inl e, t)
      | Inr g \<Rightarrow> (Inr i, t\<lparr>gp_gates := dict_set key g (gp_gates t)\<rparr>))"

definition gated_selected_instance :: "hash \<Rightarrow> deployment_plan \<Rightarrow> string \<Rightarrow> gated_provider \<Rightarrow> deployment_instance" where
  "gated_selected_instance sha plan role s =
     \<lparr>in_instance_id = take 32 (sha (deployment_plan_digest sha plan @ ''|'' @ gp_provider s @ ''|''
        @ gp_boot_epoch s @ ''|'' @ role)),
      in_plan_digest = deployment_plan_digest sha plan, in_provider = gp_provider s,
      in_provider_boot_epoch = gp_boot_epoch s, in_role = role, in_state = SELECTED, in_sequence = 0,
      in_expires_at_ms = dp_deadline_ms plan, in_reason = []\<rparr>"

definition finish_selection :: "hash \<Rightarrow> (py_error \<Rightarrow> string) \<Rightarrow> preparation \<Rightarrow> deployment_plan \<Rightarrow> string
    \<Rightarrow> (unit, deployment_instance \<times> counters) outcome \<Rightarrow> gated_provider
    \<Rightarrow> (deployment_instance, gated_provider) outcome" where
  "finish_selection sha str_exc cb plan role prepared s =
     (let t = s\<lparr>gp_counters := snd (snd prepared)\<rparr>; i = fst (snd prepared); key = plan_key sha plan role in
      case fst prepared of
        Inl e \<Rightarrow> selection_failed str_exc cb key e i t
      | Inr _ \<Rightarrow> selection_prepared plan role key i t)"

definition run_preparation :: "hash \<Rightarrow> (py_error \<Rightarrow> string) \<Rightarrow> preparation \<Rightarrow> deployment_plan \<Rightarrow> string
    \<Rightarrow> provider_assignment \<Rightarrow> gated_provider \<Rightarrow> (deployment_instance, gated_provider) outcome" where
  "run_preparation sha str_exc cb plan role a s =
     (case make_deployment_instance (gated_selected_instance sha plan role s) of
        Inl e \<Rightarrow> (Inl e, s)
      | Inr i \<Rightarrow> finish_selection sha str_exc cb plan role
          (prepare_instance cb plan a (i, (gp_counters s)\<lparr>ct_reserve := ct_reserve (gp_counters s) + 1\<rparr>)) s)"

definition provider_select :: "hash \<Rightarrow> (py_error \<Rightarrow> string) \<Rightarrow> preparation \<Rightarrow> deployment_plan \<Rightarrow> string \<Rightarrow> int
    \<Rightarrow> gated_provider \<Rightarrow> (deployment_instance, gated_provider) outcome" where
  "provider_select sha str_exc cb plan role now_ms s =
     (if dp_deadline_ms plan \<le> now_ms then (Inl (ValueError ''Selection DeploymentPlan expired''), s)
      else case find (\<lambda>a. pa_provider a = gp_provider s \<and> pa_role a = role) (dp_assignments plan) of
        None \<Rightarrow> (Inl (ValueError ''Selection does not bind this Provider role and boot epoch''), s)
      | Some a \<Rightarrow>
          if pa_provider_boot_epoch a \<noteq> gp_boot_epoch s
          then (Inl (ValueError ''Selection does not bind this Provider role and boot epoch''), s)
          else case dict_get (gp_instances s) (plan_key sha plan role) of
            Some current \<Rightarrow>
              if in_state current \<in> {READY, ACTIVE} then (Inr current, s)
              else run_preparation sha str_exc cb plan role a s
          | None \<Rightarrow> run_preparation sha str_exc cb plan role a s)"

section \<open>Readiness, activation, expiry and execution\<close>

definition count_ready :: "hash \<Rightarrow> string \<times> string \<Rightarrow> ready_message \<Rightarrow> gated_provider \<Rightarrow> gated_provider" where
  "count_ready sha key m s =
     (if (case dict_get (gp_ready_digests s) key of None \<Rightarrow> False | Some d \<Rightarrow> d \<noteq> [])
      then s\<lparr>gp_counters := (gp_counters s)\<lparr>ct_ready_duplicates := ct_ready_duplicates (gp_counters s) + 1\<rparr>\<rparr>
      else s\<lparr>gp_ready_digests := dict_set key (ready_message_digest sha m) (gp_ready_digests s),
             gp_counters := (gp_counters s)\<lparr>ct_ready_notifications := ct_ready_notifications (gp_counters s) + 1\<rparr>\<rparr>)"

definition provider_ready_message :: "hash \<Rightarrow> deployment_plan \<Rightarrow> string \<Rightarrow> int \<Rightarrow> int \<Rightarrow> string \<Rightarrow> string
    \<Rightarrow> gated_provider \<Rightarrow> (ready_message, gated_provider) outcome" where
  "provider_ready_message sha plan role n expires_at_ms signer signature s =
     (case dict_get (gp_instances s) (plan_key sha plan role) of
        None \<Rightarrow> (Inl (RuntimeError ''Provider role is not locally READY''), s)
      | Some i \<Rightarrow>
          if in_state i \<noteq> READY then (Inl (RuntimeError ''Provider role is not locally READY''), s)
          else (case dp_artifact_digests plan of
                  [] \<Rightarrow> (Inl (IndexError ''tuple index out of range''), s)
                | artifact # _ \<Rightarrow>
                    (case make_ready_message
                      \<lparr>rm_request_id = dp_request_id plan, rm_attempt = dp_attempt plan,
                       rm_selection_digest = dp_selection_digest plan,
                       rm_deployment_plan_digest = deployment_plan_digest sha plan,
                       rm_provider = gp_provider s, rm_provider_boot_epoch = gp_boot_epoch s, rm_role = role,
                       rm_artifact_digest = artifact, rm_operation_id = in_instance_id i, rm_sequence = n,
                       rm_expires_at_ms = expires_at_ms, rm_signer = signer, rm_signature = signature\<rparr> of
                       Inl e \<Rightarrow> (Inl e, s)
                     | Inr m \<Rightarrow> (Inr m, count_ready sha (plan_key sha plan role) m s))))"

definition activation_counted :: "bool \<Rightarrow> counters \<Rightarrow> counters" where
  "activation_counted first c =
     (if first then c\<lparr>ct_activation_accepts := ct_activation_accepts c + 1\<rparr>
      else c\<lparr>ct_activation_duplicates := ct_activation_duplicates c + 1\<rparr>)"

definition provider_activate :: "hash \<Rightarrow> (activate_message \<Rightarrow> bool) \<Rightarrow> deployment_plan \<Rightarrow> string
    \<Rightarrow> activate_message \<Rightarrow> int \<Rightarrow> gated_provider \<Rightarrow> (bool, gated_provider) outcome" where
  "provider_activate sha verifier plan role m now_ms s =
     (let key = plan_key sha plan role in
      case (dict_get (gp_instances s) key, dict_get (gp_gates s) key) of
        (Some i, Some g) \<Rightarrow>
          if in_state i \<notin> {READY, ACTIVE}
          then (Inl (RuntimeError ''activation requires a READY DeploymentInstance''), s)
          else (case gate_validate sha verifier m now_ms g of
                  (Inl e, g1) \<Rightarrow> (Inl e, s\<lparr>gp_gates := dict_set key g1 (gp_gates s)\<rparr>)
                | (Inr first, g1) \<Rightarrow>
                    (let t = s\<lparr>gp_gates := dict_set key g1 (gp_gates s)\<rparr> in
                     if \<not> first then (Inr first, t\<lparr>gp_counters := activation_counted first (gp_counters t)\<rparr>)
                     else (case instance_transition i ACTIVE [] of
                             Inl e \<Rightarrow> (Inl e, t)
                           | Inr j \<Rightarrow> (Inr first, t\<lparr>gp_instances := dict_set key j (gp_instances t),
                                                    gp_counters := activation_counted first (gp_counters t)\<rparr>))))
      | _ \<Rightarrow> (Inl (RuntimeError ''activation requires a READY DeploymentInstance''), s))"

definition provider_expire :: "hash \<Rightarrow> preparation \<Rightarrow> deployment_plan \<Rightarrow> string
    \<Rightarrow> gated_provider \<Rightarrow> (unit, gated_provider) outcome" where
  "provider_expire sha cb plan role s =
     (let key = plan_key sha plan role in
      case dict_get (gp_instances s) key of
        None \<Rightarrow> (Inr (), s)
      | Some i \<Rightarrow>
          if in_state i \<in> {COMPLETED, RELEASED} then (Inr (), s)
          else (case instance_transition i EXPIRED [] of
                  Inl e \<Rightarrow> (Inl e, s)
                | Inr x \<Rightarrow>
                    (case cb_release cb x of
                       Some e \<Rightarrow> (Inl e, s)
                     | None \<Rightarrow>
                         (let t = s\<lparr>gp_counters := (gp_counters s)\<lparr>ct_release := ct_release (gp_counters s) + 1\<rparr>\<rparr> in
                          case instance_transition x RELEASED [] of
                            Inl e \<Rightarrow> (Inl e, t)
                          | Inr y \<Rightarrow> (Inr (), t\<lparr>gp_instances := dict_set key y (gp_instances t)\<rparr>)))))"

definition finish_execution :: "(py_error \<Rightarrow> string) \<Rightarrow> string \<times> string \<Rightarrow> deployment_instance \<Rightarrow> py_error + string
    \<Rightarrow> gated_provider \<Rightarrow> (string, gated_provider) outcome" where
  "finish_execution str_exc key i operation s =
     (case operation of
        Inl e \<Rightarrow> (case instance_transition i FAILED (str_exc e) of
                    Inl e2 \<Rightarrow> (Inl e2, s)
                  | Inr j \<Rightarrow> (Inl e, s\<lparr>gp_instances := dict_set key j (gp_instances s)\<rparr>))
      | Inr result \<Rightarrow> (case instance_transition i COMPLETED [] of
                    Inl e2 \<Rightarrow> (Inl e2, s)
                  | Inr j \<Rightarrow> (Inr result, s\<lparr>gp_instances := dict_set key j (gp_instances s)\<rparr>)))"

definition provider_execute :: "hash \<Rightarrow> (py_error \<Rightarrow> string) \<Rightarrow> deployment_plan \<Rightarrow> string \<Rightarrow> py_error + string
    \<Rightarrow> gated_provider \<Rightarrow> (string, gated_provider) outcome" where
  "provider_execute sha str_exc plan role operation s =
     (let key = plan_key sha plan role in
      case dict_get (gp_instances s) key of
        None \<Rightarrow> (Inl (RuntimeError ''execution requires accepted ExecutionActivateMessage''), s)
      | Some i \<Rightarrow>
          if in_state i \<noteq> ACTIVE
          then (Inl (RuntimeError ''execution requires accepted ExecutionActivateMessage''), s)
          else (case instance_transition i EXECUTING [] of
                  Inl e \<Rightarrow> (Inl e, s)
                | Inr j \<Rightarrow> finish_execution str_exc key j operation
                    (s\<lparr>gp_instances := dict_set key j (gp_instances s),
                       gp_counters := (gp_counters s)\<lparr>ct_execute := ct_execute (gp_counters s) + 1\<rparr>\<rparr>)))"

section \<open>The execution invariant\<close>

definition executions :: "counters \<Rightarrow> int \<times> int" where
  "executions c = (ct_execute c, ct_activation_accepts c)"

definition active_weight :: "'k \<Rightarrow> deployment_instance \<Rightarrow> int" where
  "active_weight k i = (if in_state i = ACTIVE then 1 else 0)"

definition active_instances :: "gated_provider \<Rightarrow> int" where
  "active_instances s = dict_sum active_weight (gp_instances s)"

definition gate_bound :: "hash \<Rightarrow> string \<Rightarrow> string \<times> string \<Rightarrow> activation_gate \<Rightarrow> bool" where
  "gate_bound sha provider key g \<longleftrightarrow> deployment_plan_digest sha (ag_plan g) = fst key
     \<and> ag_role g = snd key \<and> ag_provider g = provider"

definition gate_open :: "hash \<Rightarrow> (activate_message \<Rightarrow> bool) \<Rightarrow> activation_gate \<Rightarrow> bool" where
  "gate_open sha verifier g \<longleftrightarrow> (\<exists>m now_ms. activation_bound sha verifier (ag_plan g) now_ms m
     \<and> ag_accepted_digest g = activate_message_digest sha m)"

definition authorised :: "hash \<Rightarrow> (activate_message \<Rightarrow> bool) \<Rightarrow> gated_provider \<Rightarrow> string \<times> string \<Rightarrow> deployment_instance \<Rightarrow> bool" where
  "authorised sha verifier s key i \<longleftrightarrow> (in_state i \<in> {ACTIVE, EXECUTING, COMPLETED} \<longrightarrow>
     (\<exists>g. dict_get (gp_gates s) key = Some g \<and> gate_open sha verifier g))"

definition provider_inv :: "hash \<Rightarrow> (activate_message \<Rightarrow> bool) \<Rightarrow> gated_provider \<Rightarrow> bool" where
  "provider_inv sha verifier s \<longleftrightarrow> dict_ok (gp_instances s)
     \<and> dict_all (gate_bound sha (gp_provider s)) (gp_gates s)
     \<and> dict_all (authorised sha verifier s) (gp_instances s)
     \<and> ct_execute (gp_counters s) + active_instances s \<le> ct_activation_accepts (gp_counters s)"

lemma active_weight_nonneg: "0 \<le> active_weight k i"
  by (simp add: active_weight_def)

lemma active_set: "dict_ok d \<Longrightarrow> dict_sum active_weight (dict_set k i d) \<le> dict_sum active_weight d + active_weight k i"
  by (rule weight_set) (simp_all add: active_weight_nonneg)

text \<open>The ways in which the operations change a provider, and that each keeps the invariant.\<close>

lemma inv_quiet:
  assumes "provider_inv sha verifier s" and "gp_instances t = gp_instances s" "gp_gates t = gp_gates s"
    "gp_provider t = gp_provider s" "executions (gp_counters t) = executions (gp_counters s)"
  shows "provider_inv sha verifier t"
proof -
  have "authorised sha verifier t = authorised sha verifier s" by (intro ext) (simp add: authorised_def assms(3))
  with assms show ?thesis by (simp add: provider_inv_def active_instances_def executions_def)
qed

lemma inv_store:
  assumes "provider_inv sha verifier s" and "in_state i \<notin> {ACTIVE, EXECUTING, COMPLETED}"
    and "gp_instances t = dict_set key i (gp_instances s)" "gp_gates t = gp_gates s"
    "gp_provider t = gp_provider s" "executions (gp_counters t) = executions (gp_counters s)"
  shows "provider_inv sha verifier t"
proof -
  have "authorised sha verifier t = authorised sha verifier s" by (intro ext) (simp add: authorised_def assms(4))
  moreover have "authorised sha verifier s key i" using assms(2) by (simp add: authorised_def)
  moreover have "active_instances t \<le> active_instances s"
    using active_set [of "gp_instances s" key i] assms(1,2,3)
    by (simp add: provider_inv_def active_instances_def active_weight_def)
  ultimately show ?thesis using assms by (simp add: provider_inv_def executions_def)
qed

lemma inv_gate:
  assumes "provider_inv sha verifier s" and "dict_get (gp_instances s) key = Some i"
    and "in_state i \<notin> {ACTIVE, EXECUTING, COMPLETED}" and "gate_bound sha (gp_provider s) key g"
    and "gp_gates t = dict_set key g (gp_gates s)" "gp_instances t = gp_instances s"
    "gp_provider t = gp_provider s" "gp_counters t = gp_counters s"
  shows "provider_inv sha verifier t"
proof -
  have "authorised sha verifier t k j" if "dict_get (gp_instances s) k = Some j" "authorised sha verifier s k j" for k j
    using that assms(2,3,5) by (cases "k = key") (auto simp: authorised_def dict_simps)
  then have "dict_all (authorised sha verifier t) (gp_instances s)"
    using assms(1) by (auto simp: provider_inv_def dict_all_def)
  with assms show ?thesis by (simp add: provider_inv_def active_instances_def)
qed

lemma inv_activate:
  assumes "provider_inv sha verifier s" and "dict_get (gp_instances s) key = Some i"
    and "gate_bound sha (gp_provider s) key g" and "gate_open sha verifier g"
    and "gp_gates t = dict_set key g (gp_gates s)" "gp_instances t = dict_set key j (gp_instances s)"
    "gp_provider t = gp_provider s" "ct_execute (gp_counters t) = ct_execute (gp_counters s)"
    "ct_activation_accepts (gp_counters t) = ct_activation_accepts (gp_counters s) + 1"
  shows "provider_inv sha verifier t"
proof -
  have "authorised sha verifier t k x" if x: "dict_get (gp_instances t) k = Some x" for k x
  proof (cases "k = key")
    case True
    with assms(4,5) show ?thesis by (simp add: authorised_def dict_simps)
  next
    case False
    with x assms(6) have "dict_get (gp_instances s) k = Some x" by (simp add: dict_simps)
    with assms(1) have "authorised sha verifier s k x" unfolding provider_inv_def by (blast dest: dict_allD)
    with False assms(5) show ?thesis by (simp add: authorised_def dict_simps)
  qed
  then have "dict_all (authorised sha verifier t) (gp_instances t)" by (simp add: dict_all_def)
  moreover have "active_instances t \<le> active_instances s + 1"
    using active_set [of "gp_instances s" key j] assms(1,6)
    by (simp add: provider_inv_def active_instances_def active_weight_def split: if_splits)
  ultimately show ?thesis using assms by (simp add: provider_inv_def)
qed

lemma inv_open:
  assumes "provider_inv sha verifier s" and "gate_bound sha (gp_provider s) key g" and "gate_open sha verifier g"
    and "gp_gates t = dict_set key g (gp_gates s)" "gp_instances t = gp_instances s"
    "gp_provider t = gp_provider s" "gp_counters t = gp_counters s"
  shows "provider_inv sha verifier t"
proof -
  have "authorised sha verifier t k j" if "authorised sha verifier s k j" for k j
    using that assms(3,4) by (cases "k = key") (auto simp: authorised_def dict_simps)
  then have "dict_all (authorised sha verifier t) (gp_instances s)"
    using assms(1) unfolding provider_inv_def by (blast intro: dict_all_mono)
  with assms show ?thesis by (simp add: provider_inv_def active_instances_def)
qed

lemma inv_execute:
  assumes "provider_inv sha verifier s" and "dict_get (gp_instances s) key = Some i" and "in_state i = ACTIVE"
    and "in_state j \<noteq> ACTIVE"
    and "gp_gates t = gp_gates s" "gp_instances t = dict_set key j (gp_instances s)"
    "gp_provider t = gp_provider s" "ct_execute (gp_counters t) = ct_execute (gp_counters s) + 1"
    "ct_activation_accepts (gp_counters t) = ct_activation_accepts (gp_counters s)"
  shows "provider_inv sha verifier t"
proof -
  have "authorised sha verifier t = authorised sha verifier s" by (intro ext) (simp add: authorised_def assms(5))
  moreover have "authorised sha verifier s key i" using assms(1,2) by (auto simp: provider_inv_def dest: dict_allD)
  then have "authorised sha verifier s key j" using assms(3) by (simp add: authorised_def)
  moreover have "active_instances t = active_instances s - 1"
    using assms(1,2,3,4,6) by (simp add: provider_inv_def active_instances_def dict_sum_set_old active_weight_def)
  ultimately show ?thesis using assms by (simp add: provider_inv_def)
qed

section \<open>The operations keep the invariant\<close>

lemma transition_state: "instance_transition i state reason = Inr j \<Longrightarrow> in_state j = state"
  by (auto simp: instance_transition_def make_deployment_instance_def split: if_splits)

lemma transition_active: "instance_transition i ACTIVE reason = Inr j \<Longrightarrow> in_state i = READY"
  by (cases "in_state i") (simp_all add: instance_transition_def next_states_def)

lemma stage_counts:
  assumes "prepare_stage state count raised ic = (r, jd)" and "\<And>c. executions (count c) = executions c"
  shows "executions (snd jd) = executions (snd ic) \<and> (r = Inr () \<longrightarrow> in_state (fst jd) = state)"
  using assms by (auto simp: prepare_stage_def transition_state split: prod.splits sum.splits option.splits)

lemma prepare_counts:
  assumes "prepare_instance cb plan a ic = (r, jd)"
  shows "executions (snd jd) = executions (snd ic) \<and> (r = Inr () \<longrightarrow> in_state (fst jd) = READY)"
  using assms unfolding prepare_instance_def
  by (auto elim!: and_then_cases dest!: stage_counts simp: executions_def)

lemma failed_inv:
  assumes "provider_inv sha verifier s"
  shows "provider_inv sha verifier (snd (selection_failed str_exc cb key e i s))"
proof (cases "instance_transition i FAILED (str_exc e)")
  case (Inr f)
  then have "in_state f = FAILED" by (rule transition_state)
  then have "provider_inv sha verifier (s\<lparr>gp_counters := (gp_counters s)\<lparr>ct_release := ct_release (gp_counters s) + 1\<rparr>,
      gp_instances := dict_set key f (gp_instances s)\<rparr>)"
    by (intro inv_store [OF assms, of f _ key]) (simp_all add: executions_def)
  with assms Inr show ?thesis by (simp add: selection_failed_def split: option.split)
qed (simp add: selection_failed_def assms)

lemma prepared_inv:
  assumes "provider_inv sha verifier s" and "in_state i = READY"
  shows "provider_inv sha verifier (snd (selection_prepared plan role (plan_key sha plan role) i s))"
proof -
  let ?key = "plan_key sha plan role"
  let ?t = "s\<lparr>gp_instances := dict_set ?key i (gp_instances s)\<rparr>"
  have inv: "provider_inv sha verifier ?t"
    by (rule inv_store [OF assms(1)]) (simp_all add: assms(2))
  show ?thesis
  proof (cases "gate_init plan (gp_provider s) role")
    case (Inl e)
    with inv show ?thesis by (simp add: selection_prepared_def Let_def)
  next
    case (Inr g)
    then have "gate_bound sha (gp_provider s) ?key g"
      by (auto simp: gate_init_def gate_bound_def plan_key_def split: if_splits)
    then have "provider_inv sha verifier (?t\<lparr>gp_gates := dict_set ?key g (gp_gates ?t)\<rparr>)"
      by (intro inv_gate [OF inv, of ?key i]) (simp_all add: dict_simps assms(2))
    with Inr show ?thesis by (simp add: selection_prepared_def Let_def)
  qed
qed

lemma finish_inv:
  assumes "provider_inv sha verifier s" and "executions (snd (snd p)) = executions (gp_counters s)"
    and "fst p = Inr () \<Longrightarrow> in_state (fst (snd p)) = READY"
  shows "provider_inv sha verifier (snd (finish_selection sha str_exc cb plan role p s))"
proof -
  have inv: "provider_inv sha verifier (s\<lparr>gp_counters := snd (snd p)\<rparr>)"
    by (rule inv_quiet [OF assms(1)]) (simp_all add: assms(2))
  show ?thesis using failed_inv [OF inv] prepared_inv [OF inv assms(3)]
    by (simp add: finish_selection_def Let_def split: sum.split)
qed

lemma run_preparation_inv:
  assumes "provider_inv sha verifier s"
  shows "provider_inv sha verifier (snd (run_preparation sha str_exc cb plan role a s))"
proof (cases "make_deployment_instance (gated_selected_instance sha plan role s)")
  case (Inr i)
  let ?p = "prepare_instance cb plan a (i, (gp_counters s)\<lparr>ct_reserve := ct_reserve (gp_counters s) + 1\<rparr>)"
  have "executions (snd (snd ?p)) = executions (gp_counters s) \<and> (fst ?p = Inr () \<longrightarrow> in_state (fst (snd ?p)) = READY)"
    using prepare_counts [OF prod.collapse [symmetric], of cb plan a] by (simp add: executions_def)
  with finish_inv [OF assms, of ?p] Inr show ?thesis by (simp add: run_preparation_def)
qed (simp add: run_preparation_def assms)

lemma select_inv:
  assumes "provider_inv sha verifier s"
  shows "provider_inv sha verifier (snd (provider_select sha str_exc cb plan role now_ms s))"
  using run_preparation_inv [OF assms] assms by (simp add: provider_select_def split: option.split)

lemma acknowledge_inv:
  assumes "provider_inv sha verifier s" and "\<And>i c. snd (capability i c) = c"
  shows "provider_inv sha verifier (snd (provider_acknowledge capability intent now_ms s))"
proof -
  have "snd (provider_acknowledge capability intent now_ms s) = s"
    using assms(2) [of intent "gp_counters s"]
    by (auto simp: provider_acknowledge_def split: prod.split sum.split)
  with assms(1) show ?thesis by simp
qed

lemma reservation_inv:
  assumes "provider_inv sha verifier s"
  shows "provider_inv sha verifier (snd (provider_acknowledge_reservation h authorizer intent service units lease_ms
           now_ms signature s))"
proof -
  have "provider_inv sha verifier (snd (reserve_and_count h q now_ms b s))" for q b
    by (rule inv_quiet [OF assms])
      (auto simp: reserve_and_count_def executions_def split: prod.splits sum.splits)
  then show ?thesis using assms
    by (auto simp: provider_acknowledge_reservation_def split: option.split sum.split)
qed

lemma ready_inv_keep:
  assumes "provider_inv sha verifier s"
  shows "provider_inv sha verifier (snd (provider_ready_message h plan role n expires_at_ms signer signature s))"
proof -
  have "provider_inv sha verifier (count_ready h key m s)" for key m
    by (rule inv_quiet [OF assms]) (simp_all add: count_ready_def executions_def)
  then show ?thesis using assms
    by (auto simp: provider_ready_message_def split: option.split sum.split list.split)
qed

lemma gate_validate_cases:
  assumes "gate_validate sha verifier m now_ms g = (r, g')"
  shows "g' = g \<and> r \<noteq> Inr True
    \<or> r = Inr True \<and> ag_plan g' = ag_plan g \<and> ag_role g' = ag_role g \<and> ag_provider g' = ag_provider g
      \<and> gate_open sha verifier g'"
  using assms by (auto simp: gate_validate_def gate_open_def Let_def split: if_splits; blast)

lemma activate_inv:
  assumes "provider_inv sha verifier s"
  shows "provider_inv sha verifier (snd (provider_activate sha verifier plan role m now_ms s))"
proof (cases "snd (provider_activate sha verifier plan role m now_ms s) = s")
  case False
  let ?key = "plan_key sha plan role"
  obtain i g where i: "dict_get (gp_instances s) ?key = Some i" and g: "dict_get (gp_gates s) ?key = Some g"
    and st: "in_state i \<in> {READY, ACTIVE}"
    using False by (auto simp: provider_activate_def Let_def split: option.splits if_splits)
  obtain r g' where v: "gate_validate sha verifier m now_ms g = (r, g')" by force
  have bound: "gate_bound sha (gp_provider s) ?key g" using assms g by (auto simp: provider_inv_def dest: dict_allD)
  have quiet: "provider_inv sha verifier (s\<lparr>gp_counters := activation_counted False (gp_counters s)\<rparr>)"
    by (rule inv_quiet [OF assms]) (simp_all add: executions_def activation_counted_def)
  show ?thesis
  proof (cases "r = Inr True")
    case True
    with gate_validate_cases [OF v] bound have g': "gate_bound sha (gp_provider s) ?key g'" "gate_open sha verifier g'"
      by (auto simp: gate_bound_def)
    have stored: "provider_inv sha verifier (s\<lparr>gp_gates := dict_set ?key g' (gp_gates s),
        gp_instances := dict_set ?key j (gp_instances s), gp_counters := activation_counted True (gp_counters s)\<rparr>)" for j
      by (rule inv_activate [OF assms i g']) (simp_all add: activation_counted_def)
    have opened: "provider_inv sha verifier (s\<lparr>gp_gates := dict_set ?key g' (gp_gates s)\<rparr>)"
      by (rule inv_open [OF assms g']) simp_all
    from v i g st True opened stored show ?thesis
      by (auto simp: provider_activate_def Let_def split: sum.split)
  next
    case False
    with gate_validate_cases [OF v] have "g' = g" by blast
    with v i g st False quiet assms show ?thesis
      by (auto simp: provider_activate_def Let_def dict_set_same split: sum.splits)
  qed
qed (use assms in simp)

lemma expire_inv:
  assumes "provider_inv sha verifier s"
  shows "provider_inv sha verifier (snd (provider_expire sha cb plan role s))"
proof -
  let ?key = "plan_key sha plan role"
  have counted: "provider_inv sha verifier (s\<lparr>gp_counters := (gp_counters s)\<lparr>ct_release := n\<rparr>\<rparr>)" for n
    by (rule inv_quiet [OF assms]) (simp_all add: executions_def)
  have "provider_inv sha verifier (s\<lparr>gp_counters := (gp_counters s)\<lparr>ct_release := n\<rparr>,
      gp_instances := dict_set ?key y (gp_instances s)\<rparr>)" if "instance_transition x RELEASED [] = Inr y" for n x y
    using transition_state [OF that]
    by (intro inv_store [OF assms, of y _ ?key]) (simp_all add: executions_def)
  then show ?thesis using assms counted
    by (auto simp: provider_expire_def Let_def split: option.split sum.split)
qed

lemma execute_inv:
  assumes "provider_inv sha verifier s"
  shows "provider_inv sha verifier (snd (provider_execute sha str_exc plan role operation s))"
proof (cases "snd (provider_execute sha str_exc plan role operation s) = s")
  case False
  let ?key = "plan_key sha plan role"
  let ?c = "(gp_counters s)\<lparr>ct_execute := ct_execute (gp_counters s) + 1\<rparr>"
  obtain i j where i: "dict_get (gp_instances s) ?key = Some i" "in_state i = ACTIVE"
    and j: "instance_transition i EXECUTING [] = Inr j"
    using False by (auto simp: provider_execute_def Let_def split: option.splits if_splits sum.splits)
  have stored: "provider_inv sha verifier (s\<lparr>gp_instances := dict_set ?key x (gp_instances s), gp_counters := ?c\<rparr>)"
      "provider_inv sha verifier (s\<lparr>gp_counters := ?c, gp_instances := dict_set ?key x (gp_instances s)\<rparr>)"
    if "in_state x \<noteq> ACTIVE" for x
    by (rule inv_execute [OF assms i that]; simp)+
  have twice: "dict_set ?key x (dict_set ?key j (gp_instances s)) = dict_set ?key x (gp_instances s)" for x
    by (rule dict_set_twice)
  show ?thesis using i j stored transition_state [OF j]
    by (auto simp: provider_execute_def finish_execution_def Let_def twice dest!: transition_state split: sum.split)
qed (use assms in simp)

section \<open>Reachable providers\<close>

inductive provider_step :: "hash \<Rightarrow> (activate_message \<Rightarrow> bool) \<Rightarrow> (py_error \<Rightarrow> string) \<Rightarrow> gated_provider \<Rightarrow> gated_provider \<Rightarrow> bool"
  for sha verifier str_exc where
  acknowledge: "(\<And>i c. snd (capability i c) = c) \<Longrightarrow> provider_acknowledge capability intent now_ms s = (r, t) \<Longrightarrow>
    provider_step sha verifier str_exc s t"
| reservation: "provider_acknowledge_reservation sha authorizer intent service units lease_ms now_ms signature s = (r, t) \<Longrightarrow>
    provider_step sha verifier str_exc s t"
| select: "provider_select sha str_exc cb plan role now_ms s = (r, t) \<Longrightarrow> provider_step sha verifier str_exc s t"
| ready: "provider_ready_message sha plan role n expires_at_ms signer signature s = (r, t) \<Longrightarrow>
    provider_step sha verifier str_exc s t"
| activate: "provider_activate sha verifier plan role m now_ms s = (r, t) \<Longrightarrow> provider_step sha verifier str_exc s t"
| expire: "provider_expire sha cb plan role s = (r, t) \<Longrightarrow> provider_step sha verifier str_exc s t"
| execute: "provider_execute sha str_exc plan role operation s = (r, t) \<Longrightarrow> provider_step sha verifier str_exc s t"

definition provider_start :: "gated_provider \<Rightarrow> bool" where
  "provider_start s \<longleftrightarrow> (\<exists>p e b. s = provider_init p e b)"

lemma snd_run: "f = (r, t) \<Longrightarrow> P (snd f) \<Longrightarrow> P t"
  by simp

interpretation provider_system: invariant_system provider_start "provider_step sha verifier str_exc" "provider_inv sha verifier"
proof
  fix s t
  show "provider_inv sha verifier s" if "provider_start s"
    using that by (auto simp: provider_start_def provider_init_def provider_inv_def active_instances_def zero_counters_def)
  assume inv: "provider_inv sha verifier s" and "provider_step sha verifier str_exc s t"
  note run = snd_run [where P = "provider_inv sha verifier" and t = t]
  from \<open>provider_step sha verifier str_exc s t\<close> show "provider_inv sha verifier t"
  proof cases
    case acknowledge
    show ?thesis by (rule run [OF acknowledge(2) acknowledge_inv [OF inv acknowledge(1)]])
  next
    case reservation
    then show ?thesis by (rule run [OF _ reservation_inv [OF inv]])
  next
    case select
    then show ?thesis by (rule run [OF _ select_inv [OF inv]])
  next
    case ready
    then show ?thesis by (rule run [OF _ ready_inv_keep [OF inv]])
  next
    case activate
    then show ?thesis by (rule run [OF _ activate_inv [OF inv]])
  next
    case expire
    then show ?thesis by (rule run [OF _ expire_inv [OF inv]])
  next
    case execute
    then show ?thesis by (rule run [OF _ execute_inv [OF inv]])
  qed
qed

lemma execute_counts:
  assumes "provider_execute sha str_exc plan role operation s = (r, t)"
    and "ct_execute (gp_counters t) \<noteq> ct_execute (gp_counters s)"
  shows "(\<exists>i. dict_get (gp_instances s) (plan_key sha plan role) = Some i \<and> in_state i = ACTIVE)
    \<and> (\<exists>j. dict_get (gp_instances t) (plan_key sha plan role) = Some j \<and> in_state j \<noteq> ACTIVE)
    \<and> gp_gates t = gp_gates s"
proof -
  let ?key = "plan_key sha plan role"
  obtain i j where i: "dict_get (gp_instances s) ?key = Some i" "in_state i = ACTIVE"
    and j: "instance_transition i EXECUTING [] = Inr j"
    using assms by (auto simp: provider_execute_def Let_def split: option.splits if_splits sum.splits)
  let ?s = "s\<lparr>gp_instances := dict_set ?key j (gp_instances s),
    gp_counters := (gp_counters s)\<lparr>ct_execute := ct_execute (gp_counters s) + 1\<rparr>\<rparr>"
  have run: "finish_execution str_exc ?key j operation ?s = (r, t)"
    using assms(1) i j by (simp add: provider_execute_def Let_def)
  have "in_state j = EXECUTING" using j by (rule transition_state)
  then have "(\<exists>j. dict_get (gp_instances t) ?key = Some j \<and> in_state j \<noteq> ACTIVE) \<and> gp_gates t = gp_gates s"
    using run by (auto simp: finish_execution_def dict_simps dest!: transition_state split: sum.splits)
  with i show ?thesis by blast
qed

text \<open>
  C11: A Provider executes only what was activated. In every reachable provider the executions so far
  and the activated instances that still wait are together at most the activations accepted. When an
  execution runs, the gate of that plan and role has accepted an activation message that the verifier
  accepts and that binds exactly this plan, and a second execution under the same activation raises
  and changes nothing.
\<close>

theorem execution_needs_activation:
  assumes "reachable provider_start (provider_step sha verifier str_exc) s"
  shows "ct_execute (gp_counters s) + active_instances s \<le> ct_activation_accepts (gp_counters s)
    \<and> (\<forall>plan role operation r t. provider_execute sha str_exc plan role operation s = (r, t)
          \<and> ct_execute (gp_counters t) \<noteq> ct_execute (gp_counters s) \<longrightarrow>
        (\<exists>g m now_ms. dict_get (gp_gates s) (plan_key sha plan role) = Some g
          \<and> deployment_plan_digest sha (ag_plan g) = deployment_plan_digest sha plan \<and> ag_role g = role
          \<and> ag_provider g = gp_provider s \<and> ag_accepted_digest g = activate_message_digest sha m
          \<and> activation_bound sha verifier (ag_plan g) now_ms m)
        \<and> (\<forall>again. \<exists>e. provider_execute sha str_exc plan role again t = (Inl e, t)))"
proof (intro conjI allI impI)
  have inv: "provider_inv sha verifier s" using assms by (rule provider_system.reachable_inv)
  then show "ct_execute (gp_counters s) + active_instances s \<le> ct_activation_accepts (gp_counters s)"
    by (simp add: provider_inv_def)
  fix plan role operation r t again
  assume run: "provider_execute sha str_exc plan role operation s = (r, t)
    \<and> ct_execute (gp_counters t) \<noteq> ct_execute (gp_counters s)"
  let ?key = "plan_key sha plan role"
  from execute_counts [of sha str_exc plan role operation s r t] run obtain i j where
    i: "dict_get (gp_instances s) ?key = Some i" "in_state i = ACTIVE"
    and j: "dict_get (gp_instances t) ?key = Some j" "in_state j \<noteq> ACTIVE" by blast
  from inv i(1) have "authorised sha verifier s ?key i" unfolding provider_inv_def by (blast dest: dict_allD)
  with i(2) obtain g where g: "dict_get (gp_gates s) ?key = Some g" "gate_open sha verifier g"
    by (auto simp: authorised_def)
  moreover from inv g(1) have "gate_bound sha (gp_provider s) ?key g" unfolding provider_inv_def by (blast dest: dict_allD)
  ultimately show "\<exists>g m now_ms. dict_get (gp_gates s) ?key = Some g
      \<and> deployment_plan_digest sha (ag_plan g) = deployment_plan_digest sha plan \<and> ag_role g = role
      \<and> ag_provider g = gp_provider s \<and> ag_accepted_digest g = activate_message_digest sha m
      \<and> activation_bound sha verifier (ag_plan g) now_ms m"
    by (auto simp: gate_open_def gate_bound_def plan_key_def)
  show "\<exists>e. provider_execute sha str_exc plan role again t = (Inl e, t)"
    using j by (simp add: provider_execute_def Let_def)
qed

section \<open>Witnesses\<close>

definition demo_callbacks :: preparation where
  "demo_callbacks = \<lparr>cb_verify = \<lambda>_ _. None, cb_load = \<lambda>_ _. None, cb_warm = \<lambda>_ _. None, cb_release = \<lambda>_. None\<rparr>"

definition demo_select :: "deployment_plan \<Rightarrow> gated_provider \<Rightarrow> (deployment_instance, gated_provider) outcome" where
  "demo_select plan s = provider_select flat_hash (\<lambda>_. []) demo_callbacks plan ''a'' 5 s"

definition demo_activate_role :: "gated_provider \<Rightarrow> (bool, gated_provider) outcome" where
  "demo_activate_role s = provider_activate flat_hash (\<lambda>_. True) demo_ready_plan ''a'' demo_activation 7 s"

definition demo_execute :: "gated_provider \<Rightarrow> (string, gated_provider) outcome" where
  "demo_execute s = provider_execute flat_hash (\<lambda>_. []) demo_ready_plan ''a'' (Inr ''out'') s"

definition demo_gp0 :: gated_provider where
  "demo_gp0 = provider_init ''/p'' ''boot'' None"

definition demo_gp2 :: gated_provider where
  "demo_gp2 = snd (demo_activate_role (snd (demo_select demo_ready_plan demo_gp0)))"

theorem execution_needs_activation_witness:
  "fst (demo_execute demo_gp2) = Inr ''out''
   \<and> (\<exists>e. provider_execute flat_hash (\<lambda>_. []) demo_ready_plan ''a'' (Inr ''more'') (snd (demo_execute demo_gp2))
        = (Inl e, snd (demo_execute demo_gp2)))"
proof
  show "fst (demo_execute demo_gp2) = Inr ''out''" by code_simp
  let ?step = "provider_step flat_hash (\<lambda>_. True) (\<lambda>_. [])"
  have "provider_start demo_gp0" unfolding provider_start_def demo_gp0_def by blast
  moreover have "?step demo_gp0 (snd (demo_select demo_ready_plan demo_gp0))"
    unfolding demo_select_def by (rule provider_step.select [OF prod.collapse [symmetric]])
  moreover have "?step (snd (demo_select demo_ready_plan demo_gp0)) demo_gp2"
    unfolding demo_gp2_def demo_activate_role_def by (rule provider_step.activate [OF prod.collapse [symmetric]])
  ultimately have "reachable provider_start ?step demo_gp2" by (blast intro: reachable.intros)
  from conjunct2 [OF execution_needs_activation [OF this], rule_format,
      of demo_ready_plan "''a''" "Inr ''out''" "fst (demo_execute demo_gp2)" "snd (demo_execute demo_gp2)"]
  have "ct_execute (gp_counters (snd (demo_execute demo_gp2))) \<noteq> ct_execute (gp_counters demo_gp2) \<longrightarrow>
      (\<exists>e. provider_execute flat_hash (\<lambda>_. []) demo_ready_plan ''a'' (Inr ''more'') (snd (demo_execute demo_gp2))
        = (Inl e, snd (demo_execute demo_gp2)))"
    unfolding demo_execute_def by simp
  moreover have "ct_execute (gp_counters (snd (demo_execute demo_gp2))) = 1" "ct_execute (gp_counters demo_gp2) = 0"
    by code_simp+
  ultimately show "\<exists>e. provider_execute flat_hash (\<lambda>_. []) demo_ready_plan ''a'' (Inr ''more'') (snd (demo_execute demo_gp2))
      = (Inl e, snd (demo_execute demo_gp2))" by simp
qed

text \<open>
  The fence of an activation ends with the instance: when the selection and the activation of a
  completed role are received again before the deadline, the role is prepared again under a new
  gate and executes a second time. And the selection of a plan with the data-driven policy prepares
  the role, leaves it READY and then raises, since such a plan has no gate.
\<close>

lemma replay_executes_again:
  "(let done = snd (demo_execute demo_gp2);
        again = demo_execute (snd (demo_activate_role (snd (demo_select demo_ready_plan done))))
    in fst again = Inr ''out'' \<and> ct_execute (gp_counters (snd again)) = 2)"
  by code_simp

lemma data_driven_selection_raises:
  "(let plan = demo_ready_plan\<lparr>dp_execution_policy := DATA_DRIVEN_V2\<rparr>; run = demo_select plan demo_gp0
    in isl (fst run) \<and> map in_state (dict_values (gp_instances (snd run))) = [READY]
       \<and> gp_gates (snd run) = [] \<and> ct_warm (gp_counters (snd run)) = 1)"
  by code_simp

end
