(* ===== verification/Shard_Retention.thy ===== *)
theory Shard_Retention
  imports Interfaces
begin

text \<open>
  \<open>ModelShardRetentionCache\<close> of \<open>core/deployment_control.py\<close>: the bounded set of model shards a
  Provider keeps across requests, with reference counts that fence an entry off from eviction.
\<close>

section \<open>The retention cache\<close>

text \<open>
  An entry is stored under its artifact digest, so the entry a victim names is the one under its
  key. \<open>min\<close> returns the first of the entries with the least sequence.
\<close>

record retained_shard =
  rs_last_used_sequence :: int
  rs_selected_refs :: int
  rs_inflight_refs :: int

record retention =
  rn_max_entries :: int
  rn_entries :: "(string, retained_shard) dict"
  rn_sequence :: int

definition retention_init :: "int \<Rightarrow> py_error + retention" where
  "retention_init max_entries =
     (if max_entries \<le> 0 then Inl (ValueError ''model shard retention bound must be positive'')
      else Inr \<lparr>rn_max_entries = max_entries, rn_entries = [], rn_sequence = 0\<rparr>)"

definition evictable :: "retained_shard \<Rightarrow> bool" where
  "evictable e \<longleftrightarrow> rs_selected_refs e = 0 \<and> rs_inflight_refs e = 0"

fun least_used :: "(string, retained_shard) dict \<Rightarrow> (string \<times> retained_shard) option" where
  "least_used [] = None"
| "least_used (x # xs) = (case least_used xs of
     None \<Rightarrow> Some x
   | Some y \<Rightarrow> if rs_last_used_sequence (snd x) \<le> rs_last_used_sequence (snd y) then Some x else Some y)"

definition victim :: "(string, retained_shard) dict \<Rightarrow> (string \<times> retained_shard) option" where
  "victim entries = least_used (filter (\<lambda>(k, e). evictable e) entries)"

lemma least_used_in: "least_used xs = Some x \<Longrightarrow> x \<in> set xs"
  by (induction xs arbitrary: x) (auto split: option.splits if_splits)

lemma victim_in: "victim entries = Some (k, e) \<Longrightarrow> (k, e) \<in> set entries \<and> evictable e"
  by (auto simp: victim_def dest: least_used_in)

function evict_entries :: "int \<Rightarrow> (string, retained_shard) dict \<Rightarrow> (string, retained_shard) dict" where
  "evict_entries max_entries entries =
     (if int (length entries) \<le> max_entries then entries
      else case victim entries of
        None \<Rightarrow> entries
      | Some (k, e) \<Rightarrow> evict_entries max_entries (dict_pop k entries))"
  by pat_completeness auto

termination evict_entries
proof (relation "measure (\<lambda>(m, entries). length entries)")
  fix m :: int and entries :: "(string, retained_shard) dict" and k e x
  assume "victim entries = Some x" "(k, e) = x"
  then have "(k, e) \<in> set entries" using victim_in [of entries k e] by simp
  then have "length (dict_pop k entries) < length entries"
    by (simp add: AList.delete_eq) (rule length_filter_less, auto)
  then show "((m, dict_pop k entries), (m, entries)) \<in> measure (\<lambda>(m, entries). length entries)" by simp
qed simp

declare evict_entries.simps [simp del]

definition evict :: "retention \<Rightarrow> retention" where
  "evict c = c\<lparr>rn_entries := evict_entries (rn_max_entries c) (rn_entries c)\<rparr>"

definition touched :: "string \<Rightarrow> retention \<Rightarrow> retention" where
  "touched artifact_digest c =
     (let n = rn_sequence c + 1;
          entry = (case dict_get (rn_entries c) artifact_digest of
            None \<Rightarrow> \<lparr>rs_last_used_sequence = n, rs_selected_refs = 0, rs_inflight_refs = 0\<rparr>
          | Some e \<Rightarrow> e\<lparr>rs_last_used_sequence := n\<rparr>)
      in c\<lparr>rn_sequence := n, rn_entries := dict_set artifact_digest entry (rn_entries c)\<rparr>)"

definition retain :: "string \<Rightarrow> retention \<Rightarrow> (unit, retention) outcome" where
  "retain artifact_digest c =
     (let created = dict_get (rn_entries c) artifact_digest = None;
          t = evict (touched artifact_digest c)
      in if rn_max_entries t < int (length (rn_entries t))
         then (Inl (RuntimeError ''model shard retention is full of selected/in-flight entries''),
               if created then t\<lparr>rn_entries := dict_pop artifact_digest (rn_entries t)\<rparr> else t)
         else (Inr (), t))"

definition pin_selected :: "string \<Rightarrow> retention \<Rightarrow> (unit, retention) outcome" where
  "pin_selected artifact_digest c = and_then (retain artifact_digest c) (\<lambda>_ t.
     case dict_get (rn_entries t) artifact_digest of
       None \<Rightarrow> (Inl (RuntimeError ''no retention capacity for selected model shard''), t)
     | Some e \<Rightarrow> (Inr (), t\<lparr>rn_entries := dict_set artifact_digest
         (e\<lparr>rs_selected_refs := rs_selected_refs e + 1\<rparr>) (rn_entries t)\<rparr>))"

definition begin_inflight :: "string \<Rightarrow> retention \<Rightarrow> (unit, retention) outcome" where
  "begin_inflight artifact_digest c = and_then (retain artifact_digest c) (\<lambda>_ t.
     case dict_get (rn_entries t) artifact_digest of
       None \<Rightarrow> (Inl (RuntimeError ''no retention capacity for in-flight model shard''), t)
     | Some e \<Rightarrow> (Inr (), t\<lparr>rn_entries := dict_set artifact_digest
         (e\<lparr>rs_inflight_refs := rs_inflight_refs e + 1\<rparr>) (rn_entries t)\<rparr>))"

definition released_shard :: "bool \<Rightarrow> bool \<Rightarrow> retained_shard \<Rightarrow> retained_shard" where
  "released_shard selected inflight e = e\<lparr>
     rs_selected_refs := (if selected then max 0 (rs_selected_refs e - 1) else rs_selected_refs e),
     rs_inflight_refs := (if inflight then max 0 (rs_inflight_refs e - 1) else rs_inflight_refs e)\<rparr>"

definition retention_release :: "string \<Rightarrow> bool \<Rightarrow> bool \<Rightarrow> retention \<Rightarrow> (unit, retention) outcome" where
  "retention_release artifact_digest selected inflight c =
     (case dict_get (rn_entries c) artifact_digest of
        None \<Rightarrow> (Inl KeyError, c)
      | Some e \<Rightarrow> (Inr (), evict (c\<lparr>rn_entries :=
          dict_set artifact_digest (released_shard selected inflight e) (rn_entries c)\<rparr>)))"

definition retention_contains :: "string \<Rightarrow> retention \<Rightarrow> bool" where
  "retention_contains artifact_digest c \<longleftrightarrow> dict_has (rn_entries c) artifact_digest"

section \<open>Eviction\<close>

lemma least_used_le:
  "least_used xs = Some x \<Longrightarrow> y \<in> set xs \<Longrightarrow> rs_last_used_sequence (snd x) \<le> rs_last_used_sequence (snd y)"
proof (induction xs arbitrary: x)
  case (Cons z xs)
  show ?case
  proof (cases "least_used xs")
    case None
    then have "xs = []" by (cases xs) (auto split: option.splits if_splits)
    with Cons.prems show ?thesis by simp
  next
    case (Some w)
    with Cons.IH [OF Some] Cons.prems show ?thesis by (auto split: if_splits)
  qed
qed simp

lemma victim_least:
  "victim d = Some (v, w) \<Longrightarrow> (j, f) \<in> set d \<Longrightarrow> evictable f \<Longrightarrow> rs_last_used_sequence w \<le> rs_last_used_sequence f"
  using least_used_le [of "filter (\<lambda>(k, e). evictable e) d" "(v, w)" "(j, f)"] by (simp add: victim_def)

lemma victim_None: "victim d = None \<longleftrightarrow> (\<forall>(k, e) \<in> set d. \<not> evictable e)"
proof -
  have "least_used xs = None \<longleftrightarrow> xs = []" for xs by (cases xs) (auto split: option.split)
  then show ?thesis by (auto simp: victim_def filter_empty_conv)
qed

text \<open>
  Within the bound \<open>_evict\<close> does nothing, and one entry beyond it it removes the victim, if there
  is one: an operation starts within the bound and adds at most one entry.
\<close>

lemma evict_short: "int (length d) \<le> m \<Longrightarrow> evict_entries m d = d"
  by (simp add: evict_entries.simps [of m d])

lemma evict_once:
  assumes "dict_ok d" and "int (length d) = m + 1" and "victim d = Some (k, e)"
  shows "evict_entries m d = dict_pop k d"
proof -
  have "dict_get d k = Some e" using victim_in [OF assms(3)] assms(1) by (simp add: dict_get_iff)
  then have "int (length (dict_pop k d)) = m" using length_dict_pop [OF assms(1)] assms(2) by (force simp: dict_has_def)
  with assms show ?thesis by (simp add: evict_entries.simps [of m d] evict_short)
qed

definition shard_ok :: "int \<Rightarrow> string \<Rightarrow> retained_shard \<Rightarrow> bool" where
  "shard_ok n k e \<longleftrightarrow> rs_last_used_sequence e \<le> n \<and> 0 \<le> rs_selected_refs e \<and> 0 \<le> rs_inflight_refs e"

definition retention_inv :: "retention \<Rightarrow> bool" where
  "retention_inv c \<longleftrightarrow> dict_ok (rn_entries c) \<and> dict_all (shard_ok (rn_sequence c)) (rn_entries c)
     \<and> 0 < rn_max_entries c \<and> int (length (rn_entries c)) \<le> rn_max_entries c"


lemma pinned_stays:
  assumes "dict_ok d" and "victim d = Some (k, e)" and "dict_get d j = Some f" and "\<not> evictable f"
  shows "dict_get (dict_pop k d) j = Some f"
  using assms victim_in [OF assms(2)] by (auto simp: dict_simps dict_get_iff dest: dict_ok_unique)

definition fresh_shard :: "retention \<Rightarrow> retained_shard" where
  "fresh_shard c = \<lparr>rs_last_used_sequence = rn_sequence c + 1, rs_selected_refs = 0, rs_inflight_refs = 0\<rparr>"

lemma touched_new:
  "dict_get (rn_entries c) a = None \<Longrightarrow>
     touched a c = c\<lparr>rn_sequence := rn_sequence c + 1, rn_entries := rn_entries c @ [(a, fresh_shard c)]\<rparr>"
  by (simp add: touched_def fresh_shard_def dict_set_new Let_def)

lemma touched_old:
  "dict_get (rn_entries c) a = Some e \<Longrightarrow>
     touched a c = c\<lparr>rn_sequence := rn_sequence c + 1,
       rn_entries := dict_set a (e\<lparr>rs_last_used_sequence := rn_sequence c + 1\<rparr>) (rn_entries c)\<rparr>"
  by (simp add: touched_def Let_def)

lemma fresh_evictable [simp]: "evictable (fresh_shard c)"
  by (simp add: evictable_def fresh_shard_def)

lemma least_used_snoc:
  "(\<And>y. y \<in> set xs \<Longrightarrow> rs_last_used_sequence (snd y) \<le> rs_last_used_sequence (snd x)) \<Longrightarrow>
     least_used (xs @ [x]) = (case least_used xs of None \<Rightarrow> Some x | Some y \<Rightarrow> Some y)"
proof (induction xs)
  case (Cons z xs)
  then have "least_used (xs @ [x]) = (case least_used xs of None \<Rightarrow> Some x | Some y \<Rightarrow> Some y)" by simp
  with Cons.prems [of z] show ?case by (auto split: option.split)
qed simp

lemma victim_newcomer:
  assumes "retention_inv c"
  shows "victim (rn_entries c @ [(a, fresh_shard c)]) = (case victim (rn_entries c) of None \<Rightarrow> Some (a, fresh_shard c) | Some y \<Rightarrow> Some y)"
proof -
  have late: "rs_last_used_sequence (snd y) \<le> rs_last_used_sequence (fresh_shard c)" if "y \<in> set (rn_entries c)" for y
    using assms that dict_allD [of "shard_ok (rn_sequence c)" "rn_entries c" "fst y" "snd y"]
    by (simp add: retention_inv_def shard_ok_def fresh_shard_def dict_get_iff)
  have "least_used (filter P (rn_entries c) @ [(a, fresh_shard c)])
      = (case least_used (filter P (rn_entries c)) of None \<Rightarrow> Some (a, fresh_shard c) | Some y \<Rightarrow> Some y)" for P
    by (rule least_used_snoc) (simp add: late)
  then show ?thesis unfolding victim_def by simp
qed

text \<open>The three outcomes of \<open>retain\<close>; the branch that raises is never taken.\<close>

lemma retain_cases:
  assumes "retention_inv c"
  obtains (known) e where "dict_get (rn_entries c) a = Some e" "retain a c = (Inr (), touched a c)"
  | (room) "dict_get (rn_entries c) a = None" "int (length (rn_entries c)) < rn_max_entries c"
      "retain a c = (Inr (), touched a c)"
  | (replaced) k e where "dict_get (rn_entries c) a = None" "int (length (rn_entries c)) = rn_max_entries c"
      "victim (rn_entries c) = Some (k, e)"
      "retain a c = (Inr (), c\<lparr>rn_sequence := rn_sequence c + 1,
         rn_entries := dict_pop k (rn_entries c) @ [(a, fresh_shard c)]\<rparr>)"
  | (refused) "dict_get (rn_entries c) a = None" "int (length (rn_entries c)) = rn_max_entries c"
      "victim (rn_entries c) = None" "retain a c = (Inr (), c\<lparr>rn_sequence := rn_sequence c + 1\<rparr>)"
proof (cases "dict_get (rn_entries c) a")
  case (Some e)
  then have "length (dict_set a v (rn_entries c)) = length (rn_entries c)" for v
    by (simp add: length_dict_set dict_has_def)
  with Some assms have "retain a c = (Inr (), touched a c)"
    by (simp add: retain_def touched_old evict_def evict_short retention_inv_def)
  with Some show ?thesis by (rule known)
next
  case None
  let ?d = "rn_entries c @ [(a, fresh_shard c)]"
  have ok: "dict_ok ?d" using assms None dict_ok_set [of "rn_entries c" a "fresh_shard c"]
    by (simp add: retention_inv_def dict_set_new)
  have v: "victim ?d = (case victim (rn_entries c) of None \<Rightarrow> Some (a, fresh_shard c) | Some y \<Rightarrow> Some y)"
    using assms by (rule victim_newcomer)
  consider "int (length (rn_entries c)) < rn_max_entries c" | "int (length (rn_entries c)) = rn_max_entries c"
    using assms by (fastforce simp: retention_inv_def)
  then show ?thesis
  proof cases
    case 1
    then have "retain a c = (Inr (), touched a c)"
      using None by (simp add: retain_def touched_new evict_def evict_short)
    with None 1 show ?thesis by (rule room)
  next
    case full: 2
    show ?thesis
    proof (cases "victim (rn_entries c)")
      case vn: None
      then have "evict_entries (rn_max_entries c) ?d = rn_entries c"
        using evict_once [OF ok, of "rn_max_entries c" a "fresh_shard c"] v full dict_pop_set_new [OF None, of "fresh_shard c"]
        by (simp add: dict_set_new None)
      then have "retain a c = (Inr (), c\<lparr>rn_sequence := rn_sequence c + 1\<rparr>)"
        using None full by (simp add: retain_def touched_new evict_def)
      with None full vn show ?thesis by (rule refused)
    next
      case vs: (Some y)
      obtain k e where y: "y = (k, e)" by (cases y)
      have k: "dict_get (rn_entries c) k = Some e"
        using victim_in [of "rn_entries c" k e] vs y assms by (simp add: retention_inv_def dict_get_iff)
      then have "k \<noteq> a" using None by auto
      then have "evict_entries (rn_max_entries c) ?d = dict_pop k (rn_entries c) @ [(a, fresh_shard c)]"
        using evict_once [OF ok, of "rn_max_entries c" k e] v vs y full by (simp add: AList.delete_eq)
      moreover have "int (Suc (length (dict_pop k (rn_entries c)))) = rn_max_entries c"
        using length_dict_pop [of "rn_entries c" k] assms k full by (simp add: retention_inv_def dict_has_def)
      ultimately have "retain a c = (Inr (), c\<lparr>rn_sequence := rn_sequence c + 1,
         rn_entries := dict_pop k (rn_entries c) @ [(a, fresh_shard c)]\<rparr>)"
        using None by (simp add: retain_def touched_new evict_def)
      with None full vs [unfolded y] show ?thesis by (rule replaced)
    qed
  qed
qed

section \<open>The bound and the fences\<close>

inductive retention_step :: "retention \<Rightarrow> retention \<Rightarrow> bool" where
  retain: "retain a c = (r, t) \<Longrightarrow> retention_step c t"
| pin: "pin_selected a c = (r, t) \<Longrightarrow> retention_step c t"
| inflight: "begin_inflight a c = (r, t) \<Longrightarrow> retention_step c t"
| release: "retention_release a selected inflight c = (r, t) \<Longrightarrow> retention_step c t"

definition retention_start :: "retention \<Rightarrow> bool" where
  "retention_start c \<longleftrightarrow> (\<exists>m. retention_init m = Inr c)"

lemma shard_ok_later: "shard_ok n k e \<Longrightarrow> shard_ok (n + 1) k e"
  by (simp add: shard_ok_def)

lemma retain_cache_inv:
  assumes inv: "retention_inv c"
  shows "fst (retain a c) = Inr () \<and> retention_inv (snd (retain a c))"
proof -
  have later: "dict_all (shard_ok (rn_sequence c + 1)) (rn_entries c)"
    using inv unfolding retention_inv_def by (blast intro: dict_all_mono shard_ok_later)
  have fresh: "shard_ok (rn_sequence c + 1) a (fresh_shard c)" by (simp add: shard_ok_def fresh_shard_def)
  from inv show ?thesis
  proof (cases rule: retain_cases [of c a])
    case (known e)
    then have "shard_ok (rn_sequence c + 1) a (e\<lparr>rs_last_used_sequence := rn_sequence c + 1\<rparr>)"
      using dict_allD [OF later known(1)] by (simp add: shard_ok_def)
    with known inv later show ?thesis
      by (simp add: touched_old retention_inv_def length_dict_set dict_has_def)
  next
    case room
    with inv later fresh show ?thesis
      by (simp add: touched_new retention_inv_def flip: dict_set_new)
         (simp add: dict_set_new)
  next
    case (replaced k e)
    have "dict_get (rn_entries c) k = Some e"
      using victim_in [OF replaced(3)] inv by (simp add: retention_inv_def dict_get_iff)
    then have "Suc (length (dict_pop k (rn_entries c))) = length (rn_entries c)"
      using length_dict_pop [of "rn_entries c" k] inv by (simp add: retention_inv_def dict_has_def)
    moreover have "dict_pop k (rn_entries c) @ [(a, fresh_shard c)] = dict_set a (fresh_shard c) (dict_pop k (rn_entries c))"
      using replaced(1) by (simp add: dict_set_new dict_simps)
    ultimately show ?thesis using inv later fresh replaced
      by (simp add: retention_inv_def length_dict_set dict_has_def dict_simps)
  next
    case refused
    with inv later show ?thesis by (simp add: retention_inv_def)
  qed
qed

lemma set_entry_inv:
  assumes "retention_inv c" and "dict_get (rn_entries c) a = Some e" and "shard_ok (rn_sequence c) a f"
  shows "retention_inv (c\<lparr>rn_entries := dict_set a f (rn_entries c)\<rparr>)"
  using assms by (simp add: retention_inv_def length_dict_set dict_has_def)

lemma entry_ok: "retention_inv c \<Longrightarrow> dict_get (rn_entries c) a = Some e \<Longrightarrow> shard_ok (rn_sequence c) a e"
  by (auto simp: retention_inv_def dest: dict_allD)

lemma pin_inv: "retention_inv c \<Longrightarrow> retention_inv (snd (pin_selected a c))"
  using retain_cache_inv [of c a] by (auto simp: pin_selected_def and_then_def shard_ok_def
      split: prod.split sum.split option.split intro!: set_entry_inv dest: entry_ok)

lemma inflight_inv: "retention_inv c \<Longrightarrow> retention_inv (snd (begin_inflight a c))"
  using retain_cache_inv [of c a] by (auto simp: begin_inflight_def and_then_def shard_ok_def
      split: prod.split sum.split option.split intro!: set_entry_inv dest: entry_ok)

lemma release_inv:
  assumes "retention_inv c"
  shows "retention_inv (snd (retention_release a selected inflight c))"
proof (cases "dict_get (rn_entries c) a")
  case (Some e)
  then have "shard_ok (rn_sequence c) a (released_shard selected inflight e)"
    using entry_ok [OF assms] by (auto simp: shard_ok_def released_shard_def)
  from set_entry_inv [OF assms Some this] Some show ?thesis
    by (simp add: retention_release_def evict_def evict_short retention_inv_def)
qed (simp add: retention_release_def assms)

interpretation shard_retention: invariant_system retention_start retention_step retention_inv
proof
  fix c t
  show "retention_inv c" if "retention_start c"
    using that by (auto simp: retention_start_def retention_init_def retention_inv_def split: if_splits)
  show "retention_inv t" if "retention_inv c" "retention_step c t"
    using that(2,1)
  proof (induction rule: retention_step.induct)
    case (retain a c r t)
    then show ?case using retain_cache_inv [of c a] by simp
  next
    case (pin a c r t)
    then show ?case using pin_inv [of c a] by simp
  next
    case (inflight a c r t)
    then show ?case using inflight_inv [of c a] by simp
  next
    case (release a selected inflight c r t)
    then show ?case using release_inv [of c a selected inflight] by simp
  qed
qed

definition same_refs :: "retained_shard \<Rightarrow> retained_shard \<Rightarrow> bool" where
  "same_refs e f \<longleftrightarrow> rs_selected_refs f = rs_selected_refs e \<and> rs_inflight_refs f = rs_inflight_refs e"

lemma retain_keeps_pinned:
  assumes inv: "retention_inv c" and j: "dict_get (rn_entries c) j = Some f" and "\<not> evictable f"
  shows "\<exists>g. dict_get (rn_entries (snd (retain a c))) j = Some g \<and> same_refs f g"
  using inv
proof (cases rule: retain_cases [of c a])
  case (known e)
  with j show ?thesis by (cases "j = a") (simp_all add: touched_old dict_simps same_refs_def)
next
  case room
  with j show ?thesis by (simp add: touched_new same_refs_def flip: dict_set_new)
      (auto simp: dict_simps)
next
  case (replaced k e)
  have "dict_get (dict_pop k (rn_entries c)) j = Some f"
    using inv replaced(3) j assms(3) by (intro pinned_stays) (simp_all add: retention_inv_def)
  with replaced show ?thesis by (simp add: map_add_Some_iff same_refs_def)
next
  case refused
  with j show ?thesis by (simp add: same_refs_def)
qed

lemma retain_contains:
  assumes inv: "retention_inv c"
  shows "retention_contains a (snd (retain a c)) \<longleftrightarrow> retention_contains a c
    \<or> int (length (rn_entries c)) < rn_max_entries c \<or> (\<exists>(k, e) \<in> set (rn_entries c). evictable e)"
  using inv
proof (cases rule: retain_cases [of c a])
  case (known e)
  then show ?thesis by (simp add: retention_contains_def dict_has_def touched_old dict_simps)
next
  case room
  then show ?thesis by (simp add: retention_contains_def dict_has_def touched_new map_add_Some_iff)
next
  case (replaced k e)
  then show ?thesis using victim_in [OF replaced(3)]
    by (auto simp: retention_contains_def dict_has_def map_add_Some_iff)
next
  case refused
  then show ?thesis by (auto simp: retention_contains_def dict_has_def victim_None)
qed

lemma retain_evicts_oldest:
  assumes inv: "retention_inv c" and k: "dict_get (rn_entries c) k = Some e" "\<not> retention_contains k (snd (retain a c))"
    and j: "dict_get (rn_entries (snd (retain a c))) j = Some f" "evictable f"
  shows "evictable e \<and> rs_last_used_sequence e \<le> rs_last_used_sequence f"
  using inv
proof (cases rule: retain_cases [of c a])
  case (known e')
  with k show ?thesis by (simp add: retention_contains_def dict_has_def touched_old dict_simps split: if_splits)
next
  case room
  with k show ?thesis by (simp add: retention_contains_def dict_has_def touched_new map_add_Some_iff)
next
  case (replaced v w)
  have v: "dict_get (rn_entries c) v = Some w" "evictable w"
    using victim_in [OF replaced(3)] inv by (simp_all add: retention_inv_def dict_get_iff)
  have "k = v" using k replaced by (auto simp: retention_contains_def dict_has_def map_add_Some_iff dict_simps split: if_splits)
  then have e: "e = w" using v k by simp
  have "rs_last_used_sequence w \<le> rs_last_used_sequence (fresh_shard c)"
    using entry_ok [OF inv v(1)] by (simp add: shard_ok_def fresh_shard_def)
  moreover have "rs_last_used_sequence w \<le> rs_last_used_sequence f" if "(j, f) \<in> set (rn_entries c)"
    using victim_least [OF replaced(3) that j(2)] .
  moreover have "(j, f) \<in> set (rn_entries c) \<or> f = fresh_shard c"
    using dict_get_in [OF j(1)] replaced by (auto simp: set_dict_pop)
  ultimately show ?thesis using v e by auto
next
  case refused
  with k show ?thesis by (simp add: retention_contains_def dict_has_def)
qed

text \<open>
  C36: The model shards a Provider retains. In every cache reached by retaining, pinning, starting and
  releasing, the bound holds and \<open>retain\<close> returns; the shard is then in the cache exactly when it
  was there before, or there was room, or some shard was neither selected nor in flight. A shard
  that is selected or in flight stays with its counts, and one that is dropped was used no later than
  any other shard that could have been.
\<close>

theorem retention_pins_kept:
  assumes "reachable retention_start retention_step c"
  shows "int (length (rn_entries c)) \<le> rn_max_entries c \<and> fst (retain a c) = Inr ()
    \<and> (retention_contains a (snd (retain a c)) \<longleftrightarrow> retention_contains a c
        \<or> int (length (rn_entries c)) < rn_max_entries c \<or> (\<exists>(k, e) \<in> set (rn_entries c). evictable e))
    \<and> (\<forall>k e. dict_get (rn_entries c) k = Some e \<and> \<not> evictable e \<longrightarrow>
        (\<exists>g. dict_get (rn_entries (snd (retain a c))) k = Some g \<and> same_refs e g))
    \<and> (\<forall>k e j f. dict_get (rn_entries c) k = Some e \<and> \<not> retention_contains k (snd (retain a c))
        \<and> dict_get (rn_entries (snd (retain a c))) j = Some f \<and> evictable f \<longrightarrow>
        rs_last_used_sequence e \<le> rs_last_used_sequence f)"
proof -
  have inv: "retention_inv c" using assms by (rule shard_retention.reachable_inv)
  then show ?thesis
    using retain_cache_inv [OF inv, of a] retain_contains [OF inv, of a] retain_keeps_pinned [OF inv]
      retain_evicts_oldest [OF inv]
    by (auto simp: retention_inv_def)
qed

definition demo_retention :: retention where
  "demo_retention = snd (begin_inflight ''a'' \<lparr>rn_max_entries = 1, rn_entries = [], rn_sequence = 0\<rparr>)"

lemma demo_retention_reached: "reachable retention_start retention_step demo_retention"
proof (rule reachable.next_state)
  show "reachable retention_start retention_step \<lparr>rn_max_entries = 1, rn_entries = [], rn_sequence = 0\<rparr>"
    by (rule reachable.start) (auto simp: retention_start_def retention_init_def intro: exI [of _ 1])
  show "retention_step \<lparr>rn_max_entries = 1, rn_entries = [], rn_sequence = 0\<rparr> demo_retention"
    unfolding demo_retention_def by (rule retention_step.inflight [OF prod.collapse [symmetric]])
qed

theorem retention_pins_kept_witness:
  "fst (retain ''b'' demo_retention) = Inr () \<and> \<not> retention_contains ''b'' (snd (retain ''b'' demo_retention))
    \<and> retention_contains ''a'' (snd (retain ''b'' demo_retention))"
proof -
  have "\<not> retention_contains ''b'' (snd (retain ''b'' demo_retention))
      \<and> retention_contains ''a'' (snd (retain ''b'' demo_retention))" by code_simp
  then show ?thesis using retention_pins_kept [OF demo_retention_reached, of "''b''"] by simp
qed

end
