(* ===== verification/Selection_Contracts.thy ===== *)
theory Selection_Contracts
  imports Contracts Base64
begin

text \<open>
  The contracts of the data-driven Selection of \<open>core/contracts.py\<close>: the request envelope, data
  dependencies, role assignments, the assignment a Provider is selected with and its acceptance,
  and the bindings by which cached state and resident shards are reused.

  \<^item> A constructor call is \<open>make_c x\<close>, as in \<open>Contracts\<close>; the validators that check a digest
    take the hash.
  \<^item> The decoders pass the JSON values of the wire to the constructors as they are. The model has
    typed fields: a value of another JSON type than the field is declared with is a TypeError.
\<close>

section \<open>Typed fields\<close>

definition typed_str :: "(string, json) dict \<Rightarrow> string \<Rightarrow> py_error + string" where
  "typed_str d k = (case dict_get d k of Some (JStr s) \<Rightarrow> Inr s | _ \<Rightarrow> Inl (TypeError k))"

definition typed_int :: "(string, json) dict \<Rightarrow> string \<Rightarrow> py_error + int" where
  "typed_int d k = (case dict_get d k of Some (JInt i) \<Rightarrow> Inr i | _ \<Rightarrow> Inl (TypeError k))"

definition typed_bool :: "(string, json) dict \<Rightarrow> string \<Rightarrow> bool \<Rightarrow> py_error + bool" where
  "typed_bool d k b = (case dict_get d k of
     None \<Rightarrow> Inr b | Some (JBool v) \<Rightarrow> Inr v | _ \<Rightarrow> Inl (TypeError k))"

definition typed_int_or_none :: "(string, json) dict \<Rightarrow> string \<Rightarrow> py_error + int option" where
  "typed_int_or_none d k = (case dict_get d k of
     Some JNull \<Rightarrow> Inr None | Some (JInt i) \<Rightarrow> Inr (Some i) | _ \<Rightarrow> Inl (TypeError k))"

text \<open>Fields with a default: a missing key is the default.\<close>

definition typed_str_or :: "(string, json) dict \<Rightarrow> string \<Rightarrow> string \<Rightarrow> py_error + string" where
  "typed_str_or d k s = (case dict_get d k of None \<Rightarrow> Inr s | _ \<Rightarrow> typed_str d k)"

definition typed_int_or :: "(string, json) dict \<Rightarrow> string \<Rightarrow> int \<Rightarrow> py_error + int" where
  "typed_int_or d k i = (case dict_get d k of None \<Rightarrow> Inr i | _ \<Rightarrow> typed_int d k)"

definition str_item :: "json \<Rightarrow> py_error + string" where
  "str_item v = (case v of JStr s \<Rightarrow> Inr s | _ \<Rightarrow> Inl (TypeError ''item''))"

definition typed_strs :: "(string, json) dict \<Rightarrow> string \<Rightarrow> py_error + string list" where
  "typed_strs d k = (case dict_get d k of Some (JList vs) \<Rightarrow> sum_map str_item vs | _ \<Rightarrow> Inl (TypeError k))"

definition typed_strs_or :: "(string, json) dict \<Rightarrow> string \<Rightarrow> py_error + string list" where
  "typed_strs_or d k = (case dict_get d k of None \<Rightarrow> Inr [] | _ \<Rightarrow> typed_strs d k)"

text \<open>\<open>C(**payload)\<close>: an unexpected keyword is a TypeError.\<close>

definition only_keys :: "(string, json) dict \<Rightarrow> string list \<Rightarrow> py_error + unit" where
  "only_keys d names = require (set (dict_keys d) \<subseteq> set names) (TypeError ''unexpected keyword argument'')"

section \<open>Data dependencies\<close>

record data_dependency =
  dd_producers :: "string list"
  dd_consumers :: "string list"
  dd_key_scope :: string
  dd_topic_prefix :: string
  dd_required :: bool
  dd_tensors :: "string list"
  dd_object_name_template :: string
  dd_expected_segments :: int
  dd_expected_bytes :: int

definition make_data_dependency :: "data_dependency \<Rightarrow> py_error + data_dependency" where
  "make_data_dependency d =
     (if dd_producers d = [] \<or> dd_consumers d = []
         \<or> \<not> distinct (dd_producers d) \<or> \<not> distinct (dd_consumers d)
         \<or> [] \<in> set (dd_producers d @ dd_consumers d)
         \<or> dd_key_scope d = [] \<or> \<not> starts_with (dd_topic_prefix d) ''/''
         \<or> [] \<in> set (dd_tensors d) \<or> dd_expected_segments d < 0 \<or> dd_expected_bytes d < 0
      then Inl (ValueError ''invalid DI data dependency'')
      else Inr d)"

definition data_dependency_to_dict :: "data_dependency \<Rightarrow> (string, json) dict" where
  "data_dependency_to_dict d =
     [(''producers'', JList (map JStr (dd_producers d))), (''consumers'', JList (map JStr (dd_consumers d))),
      (''key_scope'', JStr (dd_key_scope d)), (''topic_prefix'', JStr (dd_topic_prefix d)),
      (''required'', JBool (dd_required d)), (''tensors'', JList (map JStr (dd_tensors d))),
      (''object_name_template'', JStr (dd_object_name_template d)),
      (''expected_segments'', JInt (dd_expected_segments d)), (''expected_bytes'', JInt (dd_expected_bytes d))]"

definition data_dependency_of_dict :: "(string, json) dict \<Rightarrow> py_error + data_dependency" where
  "data_dependency_of_dict d =
     sum_then (only_keys d [''producers'', ''consumers'', ''key_scope'', ''topic_prefix'', ''required'', ''tensors'',
       ''object_name_template'', ''expected_segments'', ''expected_bytes'']) (\<lambda>_.
     sum_then (typed_strs d ''producers'') (\<lambda>producers.
     sum_then (typed_strs d ''consumers'') (\<lambda>consumers.
     sum_then (typed_str d ''key_scope'') (\<lambda>key_scope.
     sum_then (typed_str d ''topic_prefix'') (\<lambda>topic_prefix.
     sum_then (typed_bool d ''required'' True) (\<lambda>required.
     sum_then (typed_strs_or d ''tensors'') (\<lambda>tensors.
     sum_then (typed_str_or d ''object_name_template'' []) (\<lambda>object_name_template.
     sum_then (typed_int_or d ''expected_segments'' 0) (\<lambda>expected_segments.
     sum_then (typed_int_or d ''expected_bytes'' 0) (\<lambda>expected_bytes.
       make_data_dependency \<lparr>dd_producers = producers, dd_consumers = consumers, dd_key_scope = key_scope,
         dd_topic_prefix = topic_prefix, dd_required = required, dd_tensors = tensors,
         dd_object_name_template = object_name_template, dd_expected_segments = expected_segments,
         dd_expected_bytes = expected_bytes\<rparr>))))))))))"

section \<open>Role assignments\<close>

record role_assignment =
  ro_role :: string
  ro_graph_node_id :: string
  ro_layer_start :: "int option"
  ro_layer_end :: "int option"
  ro_artifact_digest :: string
  ro_dependency_digest :: string
  ro_adapter_id :: string
  ro_adapter_version :: string
  ro_dependencies :: "data_dependency list"
  ro_required_gpu_mib :: int
  ro_input_grant_digests :: "string list"
  ro_required_input_scopes :: "string list"
  ro_backend :: string
  ro_device :: string

definition layers_invalid :: "int option \<Rightarrow> int option \<Rightarrow> bool" where
  "layers_invalid layer_start layer_end \<longleftrightarrow> (case (layer_start, layer_end) of
     (None, None) \<Rightarrow> False | (Some a, Some b) \<Rightarrow> a < 0 \<or> b \<le> a | _ \<Rightarrow> True)"

definition required_inputs :: "role_assignment \<Rightarrow> string list" where
  "required_inputs r = map dd_key_scope (filter (\<lambda>d. dd_required d \<and> ro_role r \<in> set (dd_consumers d)) (ro_dependencies r))"

definition dependencies_json :: "data_dependency list \<Rightarrow> json" where
  "dependencies_json ds = JList (map (\<lambda>d. JObj (data_dependency_to_dict d)) ds)"

definition make_role_assignment :: "hash \<Rightarrow> role_assignment \<Rightarrow> py_error + role_assignment" where
  "make_role_assignment sha r =
     (if ro_role r = [] \<or> ro_graph_node_id r = [] \<or> layers_invalid (ro_layer_start r) (ro_layer_end r)
         \<or> ro_adapter_id r = [] \<or> ro_adapter_version r = [] \<or> ro_required_gpu_mib r \<le> 0
         \<or> ro_input_grant_digests r = [] \<or> 64 < length (ro_input_grant_digests r)
         \<or> 64 < length (ro_required_input_scopes r) \<or> \<not> distinct (ro_required_input_scopes r)
         \<or> [] \<in> set (ro_required_input_scopes r)
         \<or> \<not> distinct (map dd_key_scope (ro_dependencies r))
         \<or> \<not> list_all (\<lambda>d. ro_role r \<in> set (dd_producers d @ dd_consumers d)) (ro_dependencies r)
         \<or> required_inputs r \<noteq> ro_required_input_scopes r
         \<or> (ro_backend r \<noteq> []) \<noteq> (ro_device r \<noteq> [])
      then Inl (ValueError ''invalid DI role assignment'')
      else sum_then (require_sha256_all [(ro_artifact_digest r, ''artifact_digest''),
                       (ro_dependency_digest r, ''dependency_digest'')]) (\<lambda>_.
        if ro_dependency_digest r \<noteq> canonical_digest sha (dependencies_json (ro_dependencies r))
        then Inl (ValueError ''DI role dependency digest does not match committed edges'')
        else sum_then (require_sha256_all (map (\<lambda>v. (v, ''input_grant_digest'')) (ro_input_grant_digests r))) (\<lambda>_.
          Inr r)))"

definition opt_int_json :: "int option \<Rightarrow> json" where
  "opt_int_json v = (case v of None \<Rightarrow> JNull | Some i \<Rightarrow> JInt i)"

definition role_assignment_to_dict :: "role_assignment \<Rightarrow> (string, json) dict" where
  "role_assignment_to_dict r =
     [(''role'', JStr (ro_role r)), (''graph_node_id'', JStr (ro_graph_node_id r)),
      (''layer_start'', opt_int_json (ro_layer_start r)), (''layer_end'', opt_int_json (ro_layer_end r)),
      (''artifact_digest'', JStr (ro_artifact_digest r)), (''dependency_digest'', JStr (ro_dependency_digest r)),
      (''adapter_id'', JStr (ro_adapter_id r)), (''adapter_version'', JStr (ro_adapter_version r)),
      (''dependencies'', dependencies_json (ro_dependencies r)),
      (''required_gpu_mib'', JInt (ro_required_gpu_mib r)),
      (''input_grant_digests'', JList (map JStr (ro_input_grant_digests r))),
      (''required_input_scopes'', JList (map JStr (ro_required_input_scopes r))),
      (''backend'', JStr (ro_backend r)), (''device'', JStr (ro_device r))]"

definition dependency_item :: "json \<Rightarrow> py_error + data_dependency" where
  "dependency_item v = (case v of JObj d \<Rightarrow> data_dependency_of_dict d
     | _ \<Rightarrow> Inl (TypeError ''argument after ** must be a mapping''))"

definition dependency_items :: "(string, json) dict \<Rightarrow> py_error + data_dependency list" where
  "dependency_items d = (case dict_get d ''dependencies'' of
     Some (JList vs) \<Rightarrow> sum_map dependency_item vs
   | _ \<Rightarrow> Inl (ValueError ''DI role assignment lacks dependency edges''))"

definition role_assignment_of_dict :: "hash \<Rightarrow> (string, json) dict \<Rightarrow> py_error + role_assignment" where
  "role_assignment_of_dict sha d =
     sum_then (dependency_items d) (\<lambda>dependencies.
     sum_then (only_keys d [''role'', ''graph_node_id'', ''layer_start'', ''layer_end'', ''artifact_digest'',
       ''dependency_digest'', ''adapter_id'', ''adapter_version'', ''dependencies'', ''required_gpu_mib'',
       ''input_grant_digests'', ''required_input_scopes'', ''backend'', ''device'']) (\<lambda>_.
     sum_then (typed_str d ''role'') (\<lambda>role.
     sum_then (typed_str d ''graph_node_id'') (\<lambda>graph_node_id.
     sum_then (typed_int_or_none d ''layer_start'') (\<lambda>layer_start.
     sum_then (typed_int_or_none d ''layer_end'') (\<lambda>layer_end.
     sum_then (typed_str d ''artifact_digest'') (\<lambda>artifact_digest.
     sum_then (typed_str d ''dependency_digest'') (\<lambda>dependency_digest.
     sum_then (typed_str d ''adapter_id'') (\<lambda>adapter_id.
     sum_then (typed_str d ''adapter_version'') (\<lambda>adapter_version.
     sum_then (typed_int d ''required_gpu_mib'') (\<lambda>required_gpu_mib.
     sum_then (typed_strs_or d ''input_grant_digests'') (\<lambda>input_grant_digests.
     sum_then (typed_strs_or d ''required_input_scopes'') (\<lambda>required_input_scopes.
     sum_then (typed_str_or d ''backend'' []) (\<lambda>backend.
     sum_then (typed_str_or d ''device'' []) (\<lambda>device.
       make_role_assignment sha \<lparr>ro_role = role, ro_graph_node_id = graph_node_id, ro_layer_start = layer_start,
         ro_layer_end = layer_end, ro_artifact_digest = artifact_digest, ro_dependency_digest = dependency_digest,
         ro_adapter_id = adapter_id, ro_adapter_version = adapter_version, ro_dependencies = dependencies,
         ro_required_gpu_mib = required_gpu_mib, ro_input_grant_digests = input_grant_digests,
         ro_required_input_scopes = required_input_scopes, ro_backend = backend, ro_device = device\<rparr>)))))))))))))))"

section \<open>Reuse of state and shards\<close>

record kv_key =
  kv_model_identity_hash :: string
  kv_model_semantics_digest :: string
  kv_adapter_digest :: string
  kv_runner_digest :: string
  kv_split_digest :: string
  kv_tokenizer_digest :: string
  kv_prefix_token_digest :: string
  kv_prefix_length :: int
  kv_position_digest :: string
  kv_layer_start :: int
  kv_layer_end :: int
  kv_precision :: string
  kv_layout_digest :: string
  kv_runtime_abi_digest :: string
  kv_security_domain :: string

definition make_kv_key :: "kv_key \<Rightarrow> py_error + kv_key" where
  "make_kv_key k =
     (if kv_prefix_length k \<le> 0 \<or> kv_layer_start k < 0 \<or> kv_layer_end k \<le> kv_layer_start k
         \<or> kv_precision k = [] \<or> kv_security_domain k = []
      then Inl (ValueError ''invalid exact-prefix KV key'')
      else sum_then (require_sha256_all
        [(kv_model_identity_hash k, ''model_identity_hash''), (kv_model_semantics_digest k, ''model_semantics_digest''),
         (kv_adapter_digest k, ''adapter_digest''), (kv_runner_digest k, ''runner_digest''),
         (kv_split_digest k, ''split_digest''), (kv_tokenizer_digest k, ''tokenizer_digest''),
         (kv_prefix_token_digest k, ''prefix_token_digest''), (kv_position_digest k, ''position_digest''),
         (kv_layout_digest k, ''layout_digest''), (kv_runtime_abi_digest k, ''runtime_abi_digest'')]) (\<lambda>_. Inr k))"

record state_reuse =
  sr_contract_kind :: string
  sr_state_key :: string
  sr_provider :: string
  sr_provider_boot_epoch :: string
  sr_cache_epoch :: int
  sr_pin_id :: string
  sr_security_domain :: string
  sr_layer_start :: int
  sr_layer_end :: int
  sr_expires_at_ms :: int
  sr_authorized_requester :: string
  sr_migration_mode :: string
  sr_fallback :: string

definition make_state_reuse :: "state_reuse \<Rightarrow> py_error + state_reuse" where
  "make_state_reuse b =
     (if sr_contract_kind b \<notin> {''EXACT_PREFIX_KV_V1'', ''GENERIC_DERIVED_STATE_V1''}
         \<or> sr_provider b = [] \<or> length (sr_provider_boot_epoch b) < 8 \<or> sr_cache_epoch b \<le> 0
         \<or> sr_pin_id b = [] \<or> sr_security_domain b = [] \<or> sr_layer_start b < 0
         \<or> sr_layer_end b \<le> sr_layer_start b \<or> sr_expires_at_ms b \<le> 0 \<or> sr_authorized_requester b = []
         \<or> sr_migration_mode b \<notin> {''DISABLED'', ''EXPLICIT_ENCRYPTED''}
         \<or> sr_fallback b \<notin> {''CLEAN_COMPUTE'', ''REPLAN''}
      then Inl (ValueError ''invalid StateReuseBindingV2'')
      else sum_then (require_sha256 (sr_state_key b) ''state_key'') (\<lambda>_. Inr b))"

record reuse_check =
  rc_now_ms :: int
  rc_provider :: string
  rc_boot_epoch :: string
  rc_cache_epoch :: int
  rc_pin_live :: bool
  rc_security_domain :: string
  rc_requester :: string
  rc_layer_start :: int
  rc_layer_end :: int

definition state_reuse_revalidate :: "state_reuse \<Rightarrow> reuse_check \<Rightarrow> py_error + unit" where
  "state_reuse_revalidate b c = require
     (rc_now_ms c < sr_expires_at_ms b \<and> rc_pin_live c \<and> rc_provider c = sr_provider b
      \<and> rc_boot_epoch c = sr_provider_boot_epoch b \<and> rc_cache_epoch c = sr_cache_epoch b
      \<and> rc_security_domain c = sr_security_domain b \<and> rc_requester c = sr_authorized_requester b
      \<and> rc_layer_start c = sr_layer_start b \<and> rc_layer_end c = sr_layer_end b)
     (ValueError ''derived-state reuse binding is stale or mismatched'')"

definition state_reuse_to_dict :: "state_reuse \<Rightarrow> (string, json) dict" where
  "state_reuse_to_dict b =
     [(''contract_kind'', JStr (sr_contract_kind b)), (''state_key'', JStr (sr_state_key b)),
      (''provider'', JStr (sr_provider b)), (''provider_boot_epoch'', JStr (sr_provider_boot_epoch b)),
      (''cache_epoch'', JInt (sr_cache_epoch b)), (''pin_id'', JStr (sr_pin_id b)),
      (''security_domain'', JStr (sr_security_domain b)), (''layer_start'', JInt (sr_layer_start b)),
      (''layer_end'', JInt (sr_layer_end b)), (''expires_at_ms'', JInt (sr_expires_at_ms b)),
      (''authorized_requester'', JStr (sr_authorized_requester b)),
      (''migration_mode'', JStr (sr_migration_mode b)), (''fallback'', JStr (sr_fallback b))]"

definition state_reuse_of_dict :: "(string, json) dict \<Rightarrow> py_error + state_reuse" where
  "state_reuse_of_dict d =
     sum_then (only_keys d [''contract_kind'', ''state_key'', ''provider'', ''provider_boot_epoch'', ''cache_epoch'',
       ''pin_id'', ''security_domain'', ''layer_start'', ''layer_end'', ''expires_at_ms'', ''authorized_requester'',
       ''migration_mode'', ''fallback'']) (\<lambda>_.
     sum_then (typed_str d ''contract_kind'') (\<lambda>contract_kind.
     sum_then (typed_str d ''state_key'') (\<lambda>state_key.
     sum_then (typed_str d ''provider'') (\<lambda>provider.
     sum_then (typed_str d ''provider_boot_epoch'') (\<lambda>provider_boot_epoch.
     sum_then (typed_int d ''cache_epoch'') (\<lambda>cache_epoch.
     sum_then (typed_str d ''pin_id'') (\<lambda>pin_id.
     sum_then (typed_str d ''security_domain'') (\<lambda>security_domain.
     sum_then (typed_int d ''layer_start'') (\<lambda>layer_start.
     sum_then (typed_int d ''layer_end'') (\<lambda>layer_end.
     sum_then (typed_int d ''expires_at_ms'') (\<lambda>expires_at_ms.
     sum_then (typed_str d ''authorized_requester'') (\<lambda>authorized_requester.
     sum_then (typed_str_or d ''migration_mode'' ''DISABLED'') (\<lambda>migration_mode.
     sum_then (typed_str_or d ''fallback'' ''CLEAN_COMPUTE'') (\<lambda>fallback.
       make_state_reuse \<lparr>sr_contract_kind = contract_kind, sr_state_key = state_key, sr_provider = provider,
         sr_provider_boot_epoch = provider_boot_epoch, sr_cache_epoch = cache_epoch, sr_pin_id = pin_id,
         sr_security_domain = security_domain, sr_layer_start = layer_start, sr_layer_end = layer_end,
         sr_expires_at_ms = expires_at_ms, sr_authorized_requester = authorized_requester,
         sr_migration_mode = migration_mode, sr_fallback = fallback\<rparr>))))))))))))))"

record shard_evidence =
  se_artifact_digest :: string
  se_provider :: string
  se_provider_boot_epoch :: string
  se_tier :: string
  se_cache_epoch :: int
  se_captured_at_ms :: int
  se_expires_at_ms :: int
  se_pin_until_ms :: int
  se_reload_feasible :: bool
  se_content_verified :: bool
  se_signer_key_id :: string
  se_signature :: string

definition make_shard_evidence :: "shard_evidence \<Rightarrow> py_error + shard_evidence" where
  "make_shard_evidence e =
     (if se_provider e = [] \<or> length (se_provider_boot_epoch e) < 8
         \<or> se_tier e \<notin> {''PINNED_GPU'', ''RELOAD_SAFE_GPU'', ''HOST_RAM'', ''DISK'', ''REPOSITORY''}
         \<or> se_cache_epoch e \<le> 0 \<or> se_captured_at_ms e \<le> 0 \<or> se_expires_at_ms e \<le> se_captured_at_ms e
         \<or> se_pin_until_ms e < se_captured_at_ms e \<or> \<not> se_content_verified e
         \<or> se_signer_key_id e = [] \<or> se_signature e = []
         \<or> se_tier e = ''PINNED_GPU'' \<and> se_pin_until_ms e \<le> se_captured_at_ms e
         \<or> se_tier e = ''RELOAD_SAFE_GPU'' \<and> \<not> se_reload_feasible e
      then Inl (ValueError ''invalid signed shard residency evidence'')
      else sum_then (require_sha256 (se_artifact_digest e) ''artifact_digest'') (\<lambda>_. Inr e))"

definition shard_evidence_revalidate ::
  "(shard_evidence \<Rightarrow> bool) \<Rightarrow> int \<Rightarrow> string \<Rightarrow> string \<Rightarrow> int \<Rightarrow> bool \<Rightarrow> shard_evidence \<Rightarrow> py_error + unit" where
  "shard_evidence_revalidate verify_signature now_ms provider boot_epoch cache_epoch pin_live e =
     (if provider \<noteq> se_provider e \<or> boot_epoch \<noteq> se_provider_boot_epoch e \<or> cache_epoch \<noteq> se_cache_epoch e
         \<or> se_expires_at_ms e \<le> now_ms
         \<or> se_tier e = ''PINNED_GPU'' \<and> (\<not> pin_live \<or> se_pin_until_ms e \<le> now_ms)
         \<or> \<not> verify_signature e
      then Inl (ValueError ''shard residency evidence is stale or untrusted'')
      else Inr ())"

record residency_identity =
  ri_model_content_digest :: string
  ri_graph_digest :: string
  ri_partition_digest :: string
  ri_artifact_digest :: string
  ri_adapter_id :: string
  ri_adapter_version :: string
  ri_backend :: string
  ri_device :: string
  ri_provider_boot_epoch :: string

definition make_residency_identity :: "residency_identity \<Rightarrow> py_error + residency_identity" where
  "make_residency_identity i =
     sum_then (require_sha256_all
       [(ri_model_content_digest i, ''model_content_digest''), (ri_graph_digest i, ''graph_digest''),
        (ri_partition_digest i, ''partition_digest''), (ri_artifact_digest i, ''artifact_digest'')]) (\<lambda>_.
       if [] \<in> {ri_adapter_id i, ri_adapter_version i, ri_backend i, ri_device i, ri_provider_boot_epoch i}
       then Inl (ValueError ''Provider residency identity is incomplete'')
       else Inr i)"

definition durable_key :: "residency_identity \<Rightarrow> string list" where
  "durable_key i = [ri_model_content_digest i, ri_graph_digest i, ri_partition_digest i, ri_artifact_digest i,
     ri_adapter_id i, ri_adapter_version i, ri_backend i]"

section \<open>Selection assignments\<close>

record contract_versions =
  cv_schema_version :: int
  cv_canonical_encoding_version :: string
  cv_capability_version :: string
  cv_acceptance_predicate_version :: string

definition versions_v2 :: "'a contract_versions_scheme \<Rightarrow> bool" where
  "versions_v2 v \<longleftrightarrow> cv_schema_version v = 2 \<and> cv_canonical_encoding_version v = ''canonical-json-v1''
     \<and> cv_capability_version v = ''SELECTION_DATAFLOW_V2''
     \<and> cv_acceptance_predicate_version v = ''DI_ACCEPTANCE_V2''"

definition versions_to_dict :: "'a contract_versions_scheme \<Rightarrow> (string, json) dict" where
  "versions_to_dict v =
     [(''schema_version'', JInt (cv_schema_version v)),
      (''canonical_encoding_version'', JStr (cv_canonical_encoding_version v)),
      (''capability_version'', JStr (cv_capability_version v)),
      (''acceptance_predicate_version'', JStr (cv_acceptance_predicate_version v))]"

record selection_assignment = contract_versions +
  sa_invocation_id :: string
  sa_request_id :: string
  sa_attempt :: int
  sa_plan_digest :: string
  sa_provider :: string
  sa_provider_boot_epoch :: string
  sa_offer_digest :: string
  sa_resource_sequence :: int
  sa_roles :: "role_assignment list"
  sa_artifact_set_digest :: string
  sa_dependency_graph_digest :: string
  sa_deadline_ms :: int
  sa_generation :: int
  sa_state_reuse_binding :: "state_reuse option"
  sa_execution_policy :: string

definition layers_overlap :: "int \<times> int \<Rightarrow> int \<times> int \<Rightarrow> bool" where
  "layers_overlap l r \<longleftrightarrow> fst l < snd r \<and> fst r < snd l"

definition ranged_layers :: "role_assignment list \<Rightarrow> (int \<times> int) list" where
  "ranged_layers roles = List.map_filter (\<lambda>r. case (ro_layer_start r, ro_layer_end r) of
     (Some a, Some b) \<Rightarrow> Some (a, b) | _ \<Rightarrow> None) roles"

fun pairwise_disjoint :: "(int \<times> int) list \<Rightarrow> bool" where
  "pairwise_disjoint [] \<longleftrightarrow> True"
| "pairwise_disjoint (l # ls) \<longleftrightarrow> list_all (\<lambda>r. \<not> layers_overlap l r) ls \<and> pairwise_disjoint ls"

definition make_selection_assignment :: "selection_assignment \<Rightarrow> py_error + selection_assignment" where
  "make_selection_assignment a =
     (if sa_execution_policy a \<noteq> DATA_DRIVEN_V2
      then Inl (ValueError ''DI Selection execution policy must be DATA_DRIVEN_V2'')
      else if sa_invocation_id a = [] \<or> sa_request_id a = [] \<or> sa_attempt a \<le> 0 \<or> sa_provider a = []
         \<or> length (sa_provider_boot_epoch a) < 8 \<or> sa_resource_sequence a \<le> 0 \<or> sa_roles a = []
         \<or> 256 < length (sa_roles a) \<or> sa_deadline_ms a \<le> 0 \<or> sa_generation a \<le> 0
         \<or> \<not> distinct (map ro_role (sa_roles a)) \<or> \<not> versions_v2 a
      then Inl (ValueError ''invalid DISelectionAssignmentV2'')
      else if \<not> distinct (concat (map ro_input_grant_digests (sa_roles a)))
      then Inl (ValueError ''DI input grant cannot be replayed across roles'')
      else if \<not> pairwise_disjoint (ranged_layers (sa_roles a))
      then Inl (ValueError ''DI Provider role layer ownership overlaps'')
      else sum_then (require_sha256_all
        [(sa_plan_digest a, ''plan_digest''), (sa_offer_digest a, ''offer_digest''),
         (sa_artifact_set_digest a, ''artifact_set_digest''),
         (sa_dependency_graph_digest a, ''dependency_graph_digest'')]) (\<lambda>_. Inr a))"

definition assignment_gpu_mib :: "selection_assignment \<Rightarrow> int" where
  "assignment_gpu_mib a = sum_list (map ro_required_gpu_mib (sa_roles a))"

definition roles_json :: "role_assignment list \<Rightarrow> json" where
  "roles_json roles = JList (map (\<lambda>r. JObj (role_assignment_to_dict r)) roles)"

definition role_tuple_digest :: "hash \<Rightarrow> selection_assignment \<Rightarrow> string" where
  "role_tuple_digest sha a = canonical_digest sha (roles_json (sa_roles a))"

definition selection_assignment_schema :: string where
  "selection_assignment_schema = ''ndnsf-di-selection-assignment-v2''"

definition selection_assignment_to_dict :: "selection_assignment \<Rightarrow> (string, json) dict" where
  "selection_assignment_to_dict a =
     [(''invocation_id'', JStr (sa_invocation_id a)), (''request_id'', JStr (sa_request_id a)),
      (''attempt'', JInt (sa_attempt a)), (''plan_digest'', JStr (sa_plan_digest a)),
      (''provider'', JStr (sa_provider a)), (''provider_boot_epoch'', JStr (sa_provider_boot_epoch a)),
      (''offer_digest'', JStr (sa_offer_digest a)), (''resource_sequence'', JInt (sa_resource_sequence a)),
      (''roles'', roles_json (sa_roles a)), (''artifact_set_digest'', JStr (sa_artifact_set_digest a)),
      (''dependency_graph_digest'', JStr (sa_dependency_graph_digest a)),
      (''deadline_ms'', JInt (sa_deadline_ms a)), (''generation'', JInt (sa_generation a)),
      (''state_reuse_binding'', (case sa_state_reuse_binding a of
         None \<Rightarrow> JNull | Some b \<Rightarrow> JObj (state_reuse_to_dict b))),
      (''execution_policy'', JStr (sa_execution_policy a))] @ versions_to_dict a"

definition selection_assignment_keys :: "string list" where
  "selection_assignment_keys = [''invocation_id'', ''request_id'', ''attempt'', ''plan_digest'', ''provider'',
     ''provider_boot_epoch'', ''offer_digest'', ''resource_sequence'', ''roles'', ''artifact_set_digest'',
     ''dependency_graph_digest'', ''deadline_ms'', ''generation'', ''state_reuse_binding'', ''execution_policy'',
     ''schema_version'', ''canonical_encoding_version'', ''capability_version'', ''acceptance_predicate_version'']"

definition selection_assignment_digest :: "hash \<Rightarrow> selection_assignment \<Rightarrow> string" where
  "selection_assignment_digest sha a =
     contract_digest_of sha selection_assignment_schema (selection_assignment_to_dict a)"

definition selection_assignment_to_bytes :: "selection_assignment \<Rightarrow> string" where
  "selection_assignment_to_bytes a = contract_to_bytes selection_assignment_schema (selection_assignment_to_dict a)"

definition role_item :: "hash \<Rightarrow> json \<Rightarrow> py_error + role_assignment" where
  "role_item sha v = (case v of JObj d \<Rightarrow> role_assignment_of_dict sha d
     | _ \<Rightarrow> Inl (ValueError ''DI role tuple contains a non-object''))"

definition role_items :: "hash \<Rightarrow> (string, json) dict \<Rightarrow> py_error + role_assignment list" where
  "role_items sha d = (case dict_get d ''roles'' of
     Some (JList vs) \<Rightarrow> sum_map (role_item sha) vs
   | _ \<Rightarrow> Inl (ValueError ''DI role tuple must be an array''))"

definition reuse_item :: "(string, json) dict \<Rightarrow> py_error + state_reuse option" where
  "reuse_item d = (case dict_get d ''state_reuse_binding'' of
     None \<Rightarrow> Inr None
   | Some JNull \<Rightarrow> Inr None
   | Some (JObj b) \<Rightarrow> sum_then (state_reuse_of_dict b) (\<lambda>b. Inr (Some b))
   | _ \<Rightarrow> Inl (ValueError ''state reuse binding must be an object''))"

definition versions_of_dict :: "(string, json) dict \<Rightarrow> py_error + contract_versions" where
  "versions_of_dict d =
     sum_then (typed_int_or d ''schema_version'' 2) (\<lambda>schema_version.
     sum_then (typed_str_or d ''canonical_encoding_version'' ''canonical-json-v1'') (\<lambda>encoding.
     sum_then (typed_str_or d ''capability_version'' ''SELECTION_DATAFLOW_V2'') (\<lambda>capability.
     sum_then (typed_str_or d ''acceptance_predicate_version'' ''DI_ACCEPTANCE_V2'') (\<lambda>predicate.
       Inr \<lparr>cv_schema_version = schema_version, cv_canonical_encoding_version = encoding,
         cv_capability_version = capability, cv_acceptance_predicate_version = predicate\<rparr>))))"

definition selection_assignment_of_dict :: "hash \<Rightarrow> (string, json) dict \<Rightarrow> py_error + selection_assignment" where
  "selection_assignment_of_dict sha d =
     sum_then (role_items sha d) (\<lambda>roles.
     sum_then (reuse_item d) (\<lambda>reuse.
     sum_then (typed_str d ''invocation_id'') (\<lambda>invocation_id.
     sum_then (typed_str d ''request_id'') (\<lambda>request_id.
     sum_then (typed_int d ''attempt'') (\<lambda>attempt.
     sum_then (typed_str d ''plan_digest'') (\<lambda>plan_digest.
     sum_then (typed_str d ''provider'') (\<lambda>provider.
     sum_then (typed_str d ''provider_boot_epoch'') (\<lambda>provider_boot_epoch.
     sum_then (typed_str d ''offer_digest'') (\<lambda>offer_digest.
     sum_then (typed_int d ''resource_sequence'') (\<lambda>resource_sequence.
     sum_then (typed_str d ''artifact_set_digest'') (\<lambda>artifact_set_digest.
     sum_then (typed_str d ''dependency_graph_digest'') (\<lambda>dependency_graph_digest.
     sum_then (typed_int d ''deadline_ms'') (\<lambda>deadline_ms.
     sum_then (typed_int d ''generation'') (\<lambda>generation.
     sum_then (typed_str_or d ''execution_policy'' DATA_DRIVEN_V2) (\<lambda>execution_policy.
     sum_then (versions_of_dict d) (\<lambda>v.
       make_selection_assignment \<lparr>cv_schema_version = cv_schema_version v,
         cv_canonical_encoding_version = cv_canonical_encoding_version v,
         cv_capability_version = cv_capability_version v,
         cv_acceptance_predicate_version = cv_acceptance_predicate_version v,
         sa_invocation_id = invocation_id, sa_request_id = request_id, sa_attempt = attempt,
         sa_plan_digest = plan_digest, sa_provider = provider, sa_provider_boot_epoch = provider_boot_epoch,
         sa_offer_digest = offer_digest, sa_resource_sequence = resource_sequence, sa_roles = roles,
         sa_artifact_set_digest = artifact_set_digest, sa_dependency_graph_digest = dependency_graph_digest,
         sa_deadline_ms = deadline_ms, sa_generation = generation, sa_state_reuse_binding = reuse,
         sa_execution_policy = execution_policy\<rparr>))))))))))))))))"

definition selection_assignment_from_bytes :: "hash \<Rightarrow> string \<Rightarrow> py_error + selection_assignment" where
  "selection_assignment_from_bytes sha wire =
     sum_then (strict_v2_decode wire selection_assignment_schema (set selection_assignment_keys))
       (selection_assignment_of_dict sha)"

section \<open>Acceptance\<close>

record selection_acceptance = contract_versions +
  sc_invocation_id :: string
  sc_request_id :: string
  sc_attempt :: int
  sc_assignment_digest :: string
  sc_provider :: string
  sc_provider_boot_epoch :: string
  sc_offer_digest :: string
  sc_role_tuple_digest :: string
  sc_accepted_gpu_mib :: int
  sc_generation :: int
  sc_transaction_id :: string
  sc_accepted_at_ms :: int
  sc_expires_at_ms :: int

definition make_selection_acceptance :: "selection_acceptance \<Rightarrow> py_error + selection_acceptance" where
  "make_selection_acceptance c =
     (if sc_invocation_id c = [] \<or> sc_request_id c = [] \<or> sc_attempt c \<le> 0 \<or> sc_provider c = []
         \<or> length (sc_provider_boot_epoch c) < 8 \<or> sc_accepted_gpu_mib c \<le> 0 \<or> sc_generation c \<le> 0
         \<or> sc_transaction_id c = [] \<or> sc_accepted_at_ms c \<le> 0 \<or> sc_expires_at_ms c \<le> sc_accepted_at_ms c
         \<or> \<not> versions_v2 c
      then Inl (ValueError ''invalid DISelectionAcceptanceV2'')
      else sum_then (require_sha256_all
        [(sc_assignment_digest c, ''assignment_digest''), (sc_offer_digest c, ''offer_digest''),
         (sc_role_tuple_digest c, ''role_tuple_digest'')]) (\<lambda>_. Inr c))"

definition selection_acceptance_schema :: string where
  "selection_acceptance_schema = ''ndnsf-di-selection-acceptance-v2''"

definition selection_acceptance_to_dict :: "selection_acceptance \<Rightarrow> (string, json) dict" where
  "selection_acceptance_to_dict c =
     [(''invocation_id'', JStr (sc_invocation_id c)), (''request_id'', JStr (sc_request_id c)),
      (''attempt'', JInt (sc_attempt c)), (''assignment_digest'', JStr (sc_assignment_digest c)),
      (''provider'', JStr (sc_provider c)), (''provider_boot_epoch'', JStr (sc_provider_boot_epoch c)),
      (''offer_digest'', JStr (sc_offer_digest c)), (''role_tuple_digest'', JStr (sc_role_tuple_digest c)),
      (''accepted_gpu_mib'', JInt (sc_accepted_gpu_mib c)), (''generation'', JInt (sc_generation c)),
      (''transaction_id'', JStr (sc_transaction_id c)), (''accepted_at_ms'', JInt (sc_accepted_at_ms c)),
      (''expires_at_ms'', JInt (sc_expires_at_ms c))] @ versions_to_dict c"

definition selection_acceptance_keys :: "string list" where
  "selection_acceptance_keys = [''invocation_id'', ''request_id'', ''attempt'', ''assignment_digest'', ''provider'',
     ''provider_boot_epoch'', ''offer_digest'', ''role_tuple_digest'', ''accepted_gpu_mib'', ''generation'',
     ''transaction_id'', ''accepted_at_ms'', ''expires_at_ms'',
     ''schema_version'', ''canonical_encoding_version'', ''capability_version'', ''acceptance_predicate_version'']"

definition selection_acceptance_digest :: "hash \<Rightarrow> selection_acceptance \<Rightarrow> string" where
  "selection_acceptance_digest sha c =
     contract_digest_of sha selection_acceptance_schema (selection_acceptance_to_dict c)"

definition selection_acceptance_to_bytes :: "selection_acceptance \<Rightarrow> string" where
  "selection_acceptance_to_bytes c = contract_to_bytes selection_acceptance_schema (selection_acceptance_to_dict c)"

definition selection_acceptance_of_dict :: "(string, json) dict \<Rightarrow> py_error + selection_acceptance" where
  "selection_acceptance_of_dict d =
     sum_then (typed_str d ''invocation_id'') (\<lambda>invocation_id.
     sum_then (typed_str d ''request_id'') (\<lambda>request_id.
     sum_then (typed_int d ''attempt'') (\<lambda>attempt.
     sum_then (typed_str d ''assignment_digest'') (\<lambda>assignment_digest.
     sum_then (typed_str d ''provider'') (\<lambda>provider.
     sum_then (typed_str d ''provider_boot_epoch'') (\<lambda>provider_boot_epoch.
     sum_then (typed_str d ''offer_digest'') (\<lambda>offer_digest.
     sum_then (typed_str d ''role_tuple_digest'') (\<lambda>role_tuple.
     sum_then (typed_int d ''accepted_gpu_mib'') (\<lambda>accepted_gpu_mib.
     sum_then (typed_int d ''generation'') (\<lambda>generation.
     sum_then (typed_str d ''transaction_id'') (\<lambda>transaction_id.
     sum_then (typed_int d ''accepted_at_ms'') (\<lambda>accepted_at_ms.
     sum_then (typed_int d ''expires_at_ms'') (\<lambda>expires_at_ms.
     sum_then (versions_of_dict d) (\<lambda>v.
       make_selection_acceptance \<lparr>cv_schema_version = cv_schema_version v,
         cv_canonical_encoding_version = cv_canonical_encoding_version v,
         cv_capability_version = cv_capability_version v,
         cv_acceptance_predicate_version = cv_acceptance_predicate_version v,
         sc_invocation_id = invocation_id, sc_request_id = request_id, sc_attempt = attempt,
         sc_assignment_digest = assignment_digest, sc_provider = provider,
         sc_provider_boot_epoch = provider_boot_epoch, sc_offer_digest = offer_digest,
         sc_role_tuple_digest = role_tuple, sc_accepted_gpu_mib = accepted_gpu_mib,
         sc_generation = generation, sc_transaction_id = transaction_id, sc_accepted_at_ms = accepted_at_ms,
         sc_expires_at_ms = expires_at_ms\<rparr>))))))))))))))"

definition selection_acceptance_from_bytes :: "string \<Rightarrow> py_error + selection_acceptance" where
  "selection_acceptance_from_bytes wire =
     sum_then (strict_v2_decode wire selection_acceptance_schema (set selection_acceptance_keys))
       selection_acceptance_of_dict"

definition acceptance_bound :: "hash \<Rightarrow> selection_assignment \<Rightarrow> string \<Rightarrow> selection_acceptance \<Rightarrow> bool" where
  "acceptance_bound sha a transaction_id c \<longleftrightarrow>
     sc_invocation_id c = sa_invocation_id a \<and> sc_request_id c = sa_request_id a \<and> sc_attempt c = sa_attempt a
     \<and> sc_assignment_digest c = selection_assignment_digest sha a \<and> sc_provider c = sa_provider a
     \<and> sc_provider_boot_epoch c = sa_provider_boot_epoch a \<and> sc_offer_digest c = sa_offer_digest a
     \<and> sc_role_tuple_digest c = role_tuple_digest sha a \<and> sc_accepted_gpu_mib c = assignment_gpu_mib a
     \<and> sc_generation c = sa_generation a \<and> sc_transaction_id c = transaction_id
     \<and> sc_expires_at_ms c = sa_deadline_ms a"

definition validate_assignment :: "hash \<Rightarrow> selection_assignment \<Rightarrow> string \<Rightarrow> selection_acceptance \<Rightarrow> py_error + unit" where
  "validate_assignment sha a transaction_id c = require (acceptance_bound sha a transaction_id c)
     (ValueError ''DI Selection acceptance is not exactly assignment-bound'')"

section \<open>Request envelopes\<close>

record request_envelope = contract_versions +
  qe_invocation_id :: string
  qe_request_id :: string
  qe_attempt :: int
  qe_service :: string
  qe_model_name :: string
  qe_model_identity_hash :: string
  qe_task_kind :: string
  qe_input_manifest_digest :: string
  qe_input_payload_b64 :: string
  qe_options_payload_b64 :: string
  qe_plan_deadline_ms :: int
  qe_security_domain :: string
  qe_model :: "(string, json) dict"
  qe_task :: "(string, json) dict"

text \<open>The model and task views, which default to the scalar fields when they are empty.\<close>

definition with_views :: "request_envelope \<Rightarrow> request_envelope" where
  "with_views q = q\<lparr>
     qe_model := (if qe_model q = [] then [(''name'', JStr (qe_model_name q)),
       (''identity_hash'', JStr (qe_model_identity_hash q))] else qe_model q),
     qe_task := (if qe_task q = [] then [(''name'', JStr (qe_task_kind q))] else qe_task q)\<rparr>"

definition canonical_b64 :: "string \<Rightarrow> bool" where
  "canonical_b64 v \<longleftrightarrow> (case b64decode v of None \<Rightarrow> False | Some payload \<Rightarrow> b64encode payload = v)"

definition make_request_envelope :: "request_envelope \<Rightarrow> py_error + request_envelope" where
  "make_request_envelope p = (let q = with_views p in
     if qe_invocation_id q = [] \<or> qe_request_id q = [] \<or> qe_attempt q \<le> 0 \<or> \<not> starts_with (qe_service q) ''/''
        \<or> qe_model_name q = [] \<or> qe_task_kind q = [] \<or> qe_plan_deadline_ms q \<le> 0 \<or> qe_security_domain q = []
        \<or> \<not> versions_v2 q
     then Inl (ValueError ''invalid DIRequestEnvelopeV2'')
     else if dict_get (qe_model q) ''name'' \<noteq> Some (JStr (qe_model_name q))
        \<or> dict_get (qe_model q) ''identity_hash'' \<noteq> Some (JStr (qe_model_identity_hash q))
        \<or> dict_get (qe_task q) ''name'' \<noteq> Some (JStr (qe_task_kind q))
     then Inl (ValueError ''DI request model/task compatibility view mismatch'')
     else sum_then (require_sha256_all [(qe_model_identity_hash q, ''model_identity_hash''),
            (qe_input_manifest_digest q, ''input_manifest_digest'')]) (\<lambda>_.
       if \<not> canonical_b64 (qe_input_payload_b64 q) \<or> \<not> canonical_b64 (qe_options_payload_b64 q)
       then Inl (ValueError ''DI request payload is not canonical base64'')
       else Inr q))"

section \<open>Reading fields back\<close>

text \<open>A dictionary that holds the normalised fields of another, as a parsed object does.\<close>

definition same_fields :: "(string, json) dict \<Rightarrow> (string, json) dict \<Rightarrow> bool" where
  "same_fields d e \<longleftrightarrow> (\<forall>k. dict_get d k = map_option json_norm (dict_get e k))"

lemma reads_get: "same_fields d e \<Longrightarrow> dict_get d k = map_option json_norm (dict_get e k)"
  by (simp add: same_fields_def)

lemma reads_norm: "distinct (map fst e) \<Longrightarrow> same_fields (sort_key fst (map (map_prod id json_norm) e)) e"
  by (simp add: same_fields_def dict_get_norm)

lemma field_or_get:
  assumes "\<And>v. json_norm v = v \<Longrightarrow> field_or d k v = json_norm (field_or e k v)"
  shows "dict_get d k = map_option json_norm (dict_get e k)"
  using assms [of JNull] assms [of "JInt 0"] by (auto simp: field_or_def split: option.splits)

lemma only_keys_reads: "same_fields d e \<Longrightarrow> set (dict_keys e) \<subseteq> set names \<Longrightarrow> only_keys d names = Inr ()"
proof -
  assume "same_fields d e" "set (dict_keys e) \<subseteq> set names"
  moreover from this(1) have "dom (dict_get d) = dom (dict_get e)" by (auto simp: same_fields_def dom_def)
  ultimately show ?thesis by (simp add: only_keys_def require_def dom_map_of_conv_image_fst)
qed

lemma str_items [simp]: "sum_map str_item (map JStr xs) = Inr xs"
  by (induction xs) (simp_all add: str_item_def)

lemma str_items_norm [simp]: "sum_map str_item (map (json_norm \<circ> JStr) xs) = Inr xs"
  by (induction xs) (simp_all add: str_item_def)

lemmas typed_defs = typed_str_def typed_int_def typed_bool_def typed_int_or_none_def typed_str_or_def
  typed_int_or_def typed_strs_def typed_strs_or_def

lemma data_dependency_reads:
  assumes "same_fields d (data_dependency_to_dict x)" and "make_data_dependency x = Inr x"
  shows "data_dependency_of_dict d = Inr x"
proof -
  have "only_keys d [''producers'', ''consumers'', ''key_scope'', ''topic_prefix'', ''required'', ''tensors'',
      ''object_name_template'', ''expected_segments'', ''expected_bytes''] = Inr ()"
    using assms(1) by (rule only_keys_reads) (simp add: data_dependency_to_dict_def)
  then have "data_dependency_of_dict d = make_data_dependency x"
    by (simp add: data_dependency_of_dict_def typed_defs reads_get [OF assms(1)] data_dependency_to_dict_def) (cases x, simp)
  with assms(2) show ?thesis by simp
qed

lemma data_dependency_keys: "distinct (map fst (data_dependency_to_dict x))"
  by (simp add: data_dependency_to_dict_def)

lemma dependency_items_norm:
  "\<forall>x \<in> set ds. make_data_dependency x = Inr x \<Longrightarrow>
     sum_map dependency_item (map (json_norm \<circ> (\<lambda>x. JObj (data_dependency_to_dict x))) ds) = Inr ds"
proof (induction ds)
  case (Cons x ds)
  then have "dependency_item (json_norm (JObj (data_dependency_to_dict x))) = Inr x"
    by (simp add: dependency_item_def data_dependency_reads [OF reads_norm [OF data_dependency_keys]])
  with Cons show ?case by simp
qed simp

definition role_wf :: "hash \<Rightarrow> role_assignment \<Rightarrow> bool" where
  "role_wf sha r \<longleftrightarrow> make_role_assignment sha r = Inr r
     \<and> (\<forall>d \<in> set (ro_dependencies r). make_data_dependency d = Inr d)"

lemma role_assignment_reads:
  assumes "same_fields d (role_assignment_to_dict r)" and "role_wf sha r"
  shows "role_assignment_of_dict sha d = Inr r"
proof -
  have keys: "only_keys d [''role'', ''graph_node_id'', ''layer_start'', ''layer_end'', ''artifact_digest'',
       ''dependency_digest'', ''adapter_id'', ''adapter_version'', ''dependencies'', ''required_gpu_mib'',
       ''input_grant_digests'', ''required_input_scopes'', ''backend'', ''device''] = Inr ()"
    using assms(1) by (rule only_keys_reads) (simp add: role_assignment_to_dict_def)
  have deps: "dependency_items d = Inr (ro_dependencies r)"
    using assms(2) dependency_items_norm [of "ro_dependencies r"]
    by (simp add: dependency_items_def reads_get [OF assms(1)] role_assignment_to_dict_def dependencies_json_def
        role_wf_def)
  have layers: "typed_int_or_none d ''layer_start'' = Inr (ro_layer_start r)"
    "typed_int_or_none d ''layer_end'' = Inr (ro_layer_end r)"
    by (simp_all add: typed_int_or_none_def reads_get [OF assms(1)] role_assignment_to_dict_def opt_int_json_def
        split: option.split)
  have "role_assignment_of_dict sha d = make_role_assignment sha r" using keys deps layers
    by (simp add: role_assignment_of_dict_def typed_str_def typed_int_def typed_str_or_def typed_strs_def
        typed_strs_or_def reads_get [OF assms(1)] role_assignment_to_dict_def) (cases r, simp)
  with assms(2) show ?thesis by (simp add: role_wf_def)
qed

lemma role_assignment_keys: "distinct (map fst (role_assignment_to_dict x))"
  by (simp add: role_assignment_to_dict_def)

lemma role_items_norm:
  "\<forall>r \<in> set roles. role_wf sha r \<Longrightarrow>
     sum_map (role_item sha) (map (json_norm \<circ> (\<lambda>r. JObj (role_assignment_to_dict r))) roles) = Inr roles"
proof (induction roles)
  case (Cons r roles)
  then have "role_item sha (json_norm (JObj (role_assignment_to_dict r))) = Inr r"
    by (simp add: role_item_def role_assignment_reads [OF reads_norm [OF role_assignment_keys]])
  with Cons show ?case by simp
qed simp

lemma state_reuse_reads:
  assumes "same_fields d (state_reuse_to_dict b)" and "make_state_reuse b = Inr b"
  shows "state_reuse_of_dict d = Inr b"
proof -
  have "only_keys d [''contract_kind'', ''state_key'', ''provider'', ''provider_boot_epoch'', ''cache_epoch'',
       ''pin_id'', ''security_domain'', ''layer_start'', ''layer_end'', ''expires_at_ms'', ''authorized_requester'',
       ''migration_mode'', ''fallback''] = Inr ()"
    using assms(1) by (rule only_keys_reads) (simp add: state_reuse_to_dict_def)
  then have "state_reuse_of_dict d = make_state_reuse b"
    by (simp add: state_reuse_of_dict_def typed_defs reads_get [OF assms(1)] state_reuse_to_dict_def) (cases b, simp)
  with assms(2) show ?thesis by simp
qed

lemma state_reuse_keys: "distinct (map fst (state_reuse_to_dict x))"
  by (simp add: state_reuse_to_dict_def)

definition selection_wf :: "hash \<Rightarrow> selection_assignment \<Rightarrow> bool" where
  "selection_wf sha a \<longleftrightarrow> make_selection_assignment a = Inr a \<and> (\<forall>r \<in> set (sa_roles a). role_wf sha r)
     \<and> (\<forall>b. sa_state_reuse_binding a = Some b \<longrightarrow> make_state_reuse b = Inr b)"

lemma selection_assignment_reads:
  assumes "\<And>k. k \<noteq> ''schema'' \<Longrightarrow> dict_get d k = map_option json_norm (dict_get (selection_assignment_to_dict a) k)"
    and "selection_wf sha a"
  shows "selection_assignment_of_dict sha d = Inr a"
proof -
  have roles: "role_items sha d = Inr (sa_roles a)"
    using assms(2) role_items_norm [of "sa_roles a" sha]
    by (simp add: role_items_def assms(1) selection_assignment_to_dict_def roles_json_def selection_wf_def)
  have reuse: "reuse_item d = Inr (sa_state_reuse_binding a)"
    using assms(2) state_reuse_reads [OF reads_norm [OF state_reuse_keys]]
    by (auto simp: reuse_item_def assms(1) selection_assignment_to_dict_def selection_wf_def split: option.split)
  have v: "versions_of_dict d = Inr \<lparr>cv_schema_version = cv_schema_version a,
     cv_canonical_encoding_version = cv_canonical_encoding_version a,
     cv_capability_version = cv_capability_version a,
     cv_acceptance_predicate_version = cv_acceptance_predicate_version a\<rparr>"
    by (simp add: versions_of_dict_def typed_defs assms(1) selection_assignment_to_dict_def versions_to_dict_def)
  have "selection_assignment_of_dict sha d = make_selection_assignment a"
    by (simp add: selection_assignment_of_dict_def roles reuse v typed_str_def typed_int_def typed_str_or_def
        assms(1) selection_assignment_to_dict_def) (cases a, simp)
  with assms(2) show ?thesis by (simp add: selection_wf_def)
qed

lemma selection_acceptance_reads:
  assumes "\<And>k. k \<noteq> ''schema'' \<Longrightarrow> dict_get d k = map_option json_norm (dict_get (selection_acceptance_to_dict c) k)"
    and "make_selection_acceptance c = Inr c"
  shows "selection_acceptance_of_dict d = Inr c"
proof -
  have v: "versions_of_dict d = Inr \<lparr>cv_schema_version = cv_schema_version c,
     cv_canonical_encoding_version = cv_canonical_encoding_version c,
     cv_capability_version = cv_capability_version c,
     cv_acceptance_predicate_version = cv_acceptance_predicate_version c\<rparr>"
    by (simp add: versions_of_dict_def typed_defs assms(1) selection_acceptance_to_dict_def versions_to_dict_def)
  have "selection_acceptance_of_dict d = make_selection_acceptance c"
    by (simp add: selection_acceptance_of_dict_def v typed_str_def typed_int_def assms(1) selection_acceptance_to_dict_def) (cases c, simp)
  with assms(2) show ?thesis by simp
qed

section \<open>The wire\<close>

lemma dependencies_distinct: "json_distinct (dependencies_json ds)"
  by (simp add: dependencies_json_def data_dependency_to_dict_def list_all_iff)

lemma roles_distinct: "json_distinct (roles_json roles)"
  using dependencies_distinct
  by (simp add: roles_json_def role_assignment_to_dict_def opt_int_json_def list_all_iff split: option.split)

lemma state_reuse_distinct: "json_distinct (JObj (state_reuse_to_dict b))"
  by (simp add: state_reuse_to_dict_def)

interpretation selection_wire: strict_contract selection_assignment_schema selection_assignment_to_dict
  "selection_assignment_of_dict sha" id "selection_wf sha" selection_assignment_keys for sha
proof
  fix a :: selection_assignment
  show "json_distinct (JObj (selection_assignment_to_dict a))"
    using roles_distinct state_reuse_distinct
    by (simp add: selection_assignment_to_dict_def versions_to_dict_def split: option.split)
  show "\<not> dict_has (selection_assignment_to_dict a) ''schema''"
    by (simp add: dict_has_def selection_assignment_to_dict_def versions_to_dict_def)
  show "dict_keys (selection_assignment_to_dict a) = selection_assignment_keys"
    by (simp add: selection_assignment_to_dict_def versions_to_dict_def selection_assignment_keys_def)
  fix d
  assume wf: "selection_wf sha a"
  then have "versions_v2 a" by (auto simp: selection_wf_def make_selection_assignment_def split: if_splits)
  then show "dict_get (selection_assignment_to_dict a) ''schema_version'' = Some (JInt 2)
      \<and> dict_get (selection_assignment_to_dict a) ''canonical_encoding_version'' = Some (JStr ''canonical-json-v1'')
      \<and> dict_get (selection_assignment_to_dict a) ''capability_version'' = Some (JStr ''SELECTION_DATAFLOW_V2'')
      \<and> dict_get (selection_assignment_to_dict a) ''acceptance_predicate_version'' = Some (JStr ''DI_ACCEPTANCE_V2'')"
    by (simp add: selection_assignment_to_dict_def versions_to_dict_def versions_v2_def)
  assume own: "\<And>k v. k \<noteq> ''schema'' \<Longrightarrow> json_norm v = v \<Longrightarrow>
      field_or d k v = json_norm (field_or (selection_assignment_to_dict a) k v)"
  show "selection_assignment_of_dict sha d = Inr (id a)"
    unfolding id_apply using field_or_get [OF own] wf by (rule selection_assignment_reads)
qed

interpretation acceptance_wire: strict_contract selection_acceptance_schema selection_acceptance_to_dict
  selection_acceptance_of_dict id "\<lambda>c. make_selection_acceptance c = Inr c" selection_acceptance_keys
proof
  fix c :: selection_acceptance
  show "json_distinct (JObj (selection_acceptance_to_dict c))"
    by (simp add: selection_acceptance_to_dict_def versions_to_dict_def)
  show "\<not> dict_has (selection_acceptance_to_dict c) ''schema''"
    by (simp add: dict_has_def selection_acceptance_to_dict_def versions_to_dict_def)
  show "dict_keys (selection_acceptance_to_dict c) = selection_acceptance_keys"
    by (simp add: selection_acceptance_to_dict_def versions_to_dict_def selection_acceptance_keys_def)
  fix d
  assume wf: "make_selection_acceptance c = Inr c"
  then have "versions_v2 c" by (auto simp: make_selection_acceptance_def split: if_splits)
  then show "dict_get (selection_acceptance_to_dict c) ''schema_version'' = Some (JInt 2)
      \<and> dict_get (selection_acceptance_to_dict c) ''canonical_encoding_version'' = Some (JStr ''canonical-json-v1'')
      \<and> dict_get (selection_acceptance_to_dict c) ''capability_version'' = Some (JStr ''SELECTION_DATAFLOW_V2'')
      \<and> dict_get (selection_acceptance_to_dict c) ''acceptance_predicate_version'' = Some (JStr ''DI_ACCEPTANCE_V2'')"
    by (simp add: selection_acceptance_to_dict_def versions_to_dict_def versions_v2_def)
  assume own: "\<And>k v. k \<noteq> ''schema'' \<Longrightarrow> json_norm v = v \<Longrightarrow>
      field_or d k v = json_norm (field_or (selection_acceptance_to_dict c) k v)"
  show "selection_acceptance_of_dict d = Inr (id c)"
    unfolding id_apply using field_or_get [OF own] wf by (rule selection_acceptance_reads)
qed

lemma assignment_bytes_roundtrip:
  assumes "selection_wf sha a" and "length (selection_assignment_to_bytes a) \<le> 4 * 1024 * 1024"
  shows "selection_assignment_from_bytes sha (selection_assignment_to_bytes a) = Inr a"
  using selection_wire.strict_roundtrip [OF assms(1) assms(2) [unfolded selection_assignment_to_bytes_def]]
  by (simp add: selection_assignment_from_bytes_def selection_assignment_to_bytes_def)

lemma acceptance_bytes_roundtrip:
  assumes "make_selection_acceptance c = Inr c" and "length (selection_acceptance_to_bytes c) \<le> 4 * 1024 * 1024"
  shows "selection_acceptance_from_bytes (selection_acceptance_to_bytes c) = Inr c"
  using acceptance_wire.strict_roundtrip [OF assms(1) assms(2) [unfolded selection_acceptance_to_bytes_def]]
  by (simp add: selection_acceptance_from_bytes_def selection_acceptance_to_bytes_def)

text \<open>
  The Selection messages survive the wire. A valid assignment with its roles, data dependencies
  and state-reuse binding, and a valid acceptance, are decoded from their canonical bytes to
  themselves by the strict decoders, whenever the bytes are within the 4 MiB bound.
\<close>

lemma selection_wire_roundtrip:
  assumes "selection_wf sha a" and "length (selection_assignment_to_bytes a) \<le> 4 * 1024 * 1024"
    and "make_selection_acceptance c = Inr c" and "length (selection_acceptance_to_bytes c) \<le> 4 * 1024 * 1024"
  shows "selection_assignment_from_bytes sha (selection_assignment_to_bytes a) = Inr a
    \<and> selection_acceptance_from_bytes (selection_acceptance_to_bytes c) = Inr c"
  using assms by (intro conjI assignment_bytes_roundtrip acceptance_bytes_roundtrip)

lemma encoded_payload_canonical: "canonical_b64 (b64encode payload)"
  by (simp add: canonical_b64_def b64_roundtrip)

section \<open>What a decoded assignment guarantees\<close>

lemma sum_map_items: "sum_map f xs = Inr ys \<Longrightarrow> y \<in> set ys \<Longrightarrow> \<exists>x \<in> set xs. f x = Inr y"
  by (induction xs arbitrary: ys) (auto simp: sum_then_Inr)

lemma made_dependency: "make_data_dependency x = Inr y \<Longrightarrow> y = x"
  by (auto simp: make_data_dependency_def split: if_splits)

lemma made_role: "make_role_assignment sha x = Inr y \<Longrightarrow> y = x"
  by (auto simp: make_role_assignment_def sum_then_Inr split: if_splits)

lemma made_reuse: "make_state_reuse x = Inr y \<Longrightarrow> y = x"
  by (auto simp: make_state_reuse_def sum_then_Inr split: if_splits)

lemma made_assignment: "make_selection_assignment x = Inr y \<Longrightarrow> y = x"
  by (auto simp: make_selection_assignment_def sum_then_Inr split: if_splits)

lemma decoded_dependency: "data_dependency_of_dict d = Inr x \<Longrightarrow> make_data_dependency x = Inr x"
  by (auto simp: data_dependency_of_dict_def sum_then_Inr dest: made_dependency)

lemma decoded_role:
  assumes "role_assignment_of_dict sha d = Inr r"
  shows "role_wf sha r"
proof -
  obtain x where x: "make_role_assignment sha x = Inr r" and deps: "dependency_items d = Inr (ro_dependencies x)"
    using assms unfolding role_assignment_of_dict_def sum_then_Inr by fastforce
  have "make_data_dependency y = Inr y" if "y \<in> set (ro_dependencies x)" for y
    using deps that
    by (auto simp: dependency_items_def dependency_item_def dest!: sum_map_items decoded_dependency
        split: option.splits json.splits)
  with x made_role [OF x] show ?thesis by (simp add: role_wf_def)
qed

lemma decoded_selection:
  assumes "selection_assignment_of_dict sha d = Inr a"
  shows "selection_wf sha a"
proof -
  obtain x where x: "make_selection_assignment x = Inr a" and roles: "role_items sha d = Inr (sa_roles x)"
    and reuse: "reuse_item d = Inr (sa_state_reuse_binding x)"
    using assms unfolding selection_assignment_of_dict_def sum_then_Inr by fastforce
  have "role_wf sha r" if "r \<in> set (sa_roles x)" for r
    using roles that
    by (auto simp: role_items_def role_item_def dest!: sum_map_items decoded_role split: option.splits json.splits)
  moreover have "make_state_reuse b = Inr b" if "sa_state_reuse_binding x = Some b" for b
    using reuse that
    by (auto simp: reuse_item_def state_reuse_of_dict_def sum_then_Inr dest: made_reuse split: option.splits json.splits)
  ultimately show ?thesis using x made_assignment [OF x] by (simp add: selection_wf_def)
qed

definition role_layers :: "role_assignment \<Rightarrow> int set" where
  "role_layers r = (case (ro_layer_start r, ro_layer_end r) of (Some a, Some b) \<Rightarrow> {a..<b} | _ \<Rightarrow> {})"

lemma ranged_layers_Cons:
  "ranged_layers (r # rs) = (case (ro_layer_start r, ro_layer_end r) of
     (Some a, Some b) \<Rightarrow> (a, b) # ranged_layers rs | _ \<Rightarrow> ranged_layers rs)"
  by (auto simp: ranged_layers_def map_filter_def split: option.splits)

lemma ranged_layers_member:
  "r \<in> set rs \<Longrightarrow> ro_layer_start r = Some a \<Longrightarrow> ro_layer_end r = Some b \<Longrightarrow> (a, b) \<in> set (ranged_layers rs)"
  by (force simp: ranged_layers_def map_filter_def)

lemma head_layers_disjoint:
  assumes "pairwise_disjoint (ranged_layers (r # rs))" and "x \<in> set rs"
  shows "role_layers r \<inter> role_layers x = {}"
proof (cases "role_layers r = {} \<or> role_layers x = {}")
  case False
  then obtain a b c d where r: "ro_layer_start r = Some a" "ro_layer_end r = Some b"
    and x: "ro_layer_start x = Some c" "ro_layer_end x = Some d"
    by (auto simp: role_layers_def split: option.splits)
  have "(c, d) \<in> set (ranged_layers rs)" using assms(2) x by (rule ranged_layers_member)
  with assms(1) r have "\<not> layers_overlap (a, b) (c, d)" by (auto simp: ranged_layers_Cons list_all_iff)
  with r x show ?thesis by (auto simp: layers_overlap_def role_layers_def)
qed auto

lemma layers_disjoint_nth:
  "pairwise_disjoint (ranged_layers roles) \<Longrightarrow> i < j \<Longrightarrow> j < length roles \<Longrightarrow>
     role_layers (roles ! i) \<inter> role_layers (roles ! j) = {}"
proof (induction roles arbitrary: i j)
  case (Cons r roles)
  have tail: "pairwise_disjoint (ranged_layers roles)"
    using Cons.prems(1) by (auto simp: ranged_layers_Cons split: option.splits)
  show ?case
  proof (cases i)
    case 0
    with Cons.prems show ?thesis by (cases j) (simp_all add: head_layers_disjoint)
  next
    case (Suc i')
    with Cons.prems Cons.IH [OF tail, of i' "j - 1"] show ?thesis by (cases j) simp_all
  qed
qed simp

lemma concat_disjoint_nth:
  "distinct (concat (map f xs)) \<Longrightarrow> i < j \<Longrightarrow> j < length xs \<Longrightarrow> set (f (xs ! i)) \<inter> set (f (xs ! j)) = {}"
proof (induction xs arbitrary: i j)
  case (Cons x xs)
  show ?case
  proof (cases i)
    case 0
    with Cons.prems have "(x # xs) ! j \<in> set xs" by (cases j) simp_all
    with Cons.prems(1) 0 show ?thesis by auto
  next
    case (Suc i')
    with Cons.prems Cons.IH [of i' "j - 1"] show ?thesis by (cases j) simp_all
  qed
qed simp


section \<open>Witnesses\<close>

definition zero_sha :: hash where
  "zero_sha _ = replicate 64 CHR ''0''"

definition zero_digest :: string where
  "zero_digest = ''sha256:'' @ replicate 64 CHR ''0''"

definition demo_edge :: data_dependency where
  "demo_edge = \<lparr>dd_producers = [''a''], dd_consumers = [''b''], dd_key_scope = ''k'', dd_topic_prefix = ''/t'',
     dd_required = True, dd_tensors = [], dd_object_name_template = [], dd_expected_segments = 0, dd_expected_bytes = 0\<rparr>"

definition demo_role :: role_assignment where
  "demo_role = \<lparr>ro_role = ''b'', ro_graph_node_id = ''n'', ro_layer_start = Some 0, ro_layer_end = Some 4,
     ro_artifact_digest = zero_digest, ro_dependency_digest = zero_digest, ro_adapter_id = ''i'',
     ro_adapter_version = ''1'', ro_dependencies = [demo_edge], ro_required_gpu_mib = 8,
     ro_input_grant_digests = [zero_digest], ro_required_input_scopes = [''k''], ro_backend = [], ro_device = []\<rparr>"

definition demo_selection :: selection_assignment where
  "demo_selection = \<lparr>cv_schema_version = 2, cv_canonical_encoding_version = ''canonical-json-v1'',
     cv_capability_version = ''SELECTION_DATAFLOW_V2'', cv_acceptance_predicate_version = ''DI_ACCEPTANCE_V2'',
     sa_invocation_id = ''v'', sa_request_id = ''r'', sa_attempt = 1, sa_plan_digest = zero_digest,
     sa_provider = ''/p'', sa_provider_boot_epoch = ''bootboot'', sa_offer_digest = zero_digest,
     sa_resource_sequence = 1, sa_roles = [demo_role], sa_artifact_set_digest = zero_digest,
     sa_dependency_graph_digest = zero_digest, sa_deadline_ms = 100, sa_generation = 1,
     sa_state_reuse_binding = None, sa_execution_policy = DATA_DRIVEN_V2\<rparr>"

definition demo_acceptance :: selection_acceptance where
  "demo_acceptance = \<lparr>cv_schema_version = 2, cv_canonical_encoding_version = ''canonical-json-v1'',
     cv_capability_version = ''SELECTION_DATAFLOW_V2'', cv_acceptance_predicate_version = ''DI_ACCEPTANCE_V2'',
     sc_invocation_id = ''v'', sc_request_id = ''r'', sc_attempt = 1, sc_assignment_digest = zero_digest,
     sc_provider = ''/p'', sc_provider_boot_epoch = ''bootboot'', sc_offer_digest = zero_digest,
     sc_role_tuple_digest = zero_digest, sc_accepted_gpu_mib = 8, sc_generation = 1, sc_transaction_id = ''t'',
     sc_accepted_at_ms = 5, sc_expires_at_ms = 100\<rparr>"

lemma demo_selection_wf: "selection_wf zero_sha demo_selection"
proof -
  have "make_selection_assignment demo_selection = Inr demo_selection"
    "make_role_assignment zero_sha demo_role = Inr demo_role" "make_data_dependency demo_edge = Inr demo_edge"
    by code_simp+
  then show ?thesis by (simp add: selection_wf_def role_wf_def demo_selection_def demo_role_def)
qed

lemma demo_selection_short: "length (selection_assignment_to_bytes demo_selection) \<le> 2000"
  by code_simp

lemma demo_acceptance_short: "length (selection_acceptance_to_bytes demo_acceptance) \<le> 1000"
  by code_simp

theorem selection_wire_roundtrip_witness:
  "selection_assignment_from_bytes zero_sha (selection_assignment_to_bytes demo_selection) = Inr demo_selection
   \<and> selection_acceptance_from_bytes (selection_acceptance_to_bytes demo_acceptance) = Inr demo_acceptance"
proof (rule selection_wire_roundtrip [OF demo_selection_wf])
  show "make_selection_acceptance demo_acceptance = Inr demo_acceptance" by code_simp
  show "length (selection_assignment_to_bytes demo_selection) \<le> 4 * 1024 * 1024"
    "length (selection_acceptance_to_bytes demo_acceptance) \<le> 4 * 1024 * 1024"
    using demo_selection_short demo_acceptance_short by simp_all
qed


end
