(* ===== verification/Gpu_Admission.thy ===== *)
theory Gpu_Admission
  imports Selection_Contracts Interfaces
begin

text \<open>
  The Provider-local resource stores of \<open>core/deployment_control.py\<close>: \<open>GpuMiBAdmissionLedger\<close>,
  \<open>DerivedStateStore\<close> and \<open>ShardPreparationPipeline\<close>.

  \<^item> An offer is a record of the attributes the code reads of it, its digest among them.
  \<^item> The dictionaries the ledger keeps for a held offer and for a committed transition are records.
  \<^item> The pipeline's callbacks are parameters that may raise; its trace is the list of calls made.
\<close>

section \<open>The admission ledger\<close>

record gpu_offer =
  go_digest :: string
  go_provider :: string
  go_boot_epoch :: string
  go_request_id :: string
  go_attempt :: int
  go_resource_sequence :: int
  go_offered_gpu_memory_mb :: int
  go_expires_at_ms :: int

record held_offer =
  ho_offer_digest :: string
  ho_provider :: string
  ho_provider_boot_epoch :: string
  ho_request_id :: string
  ho_attempt :: int
  ho_resource_sequence :: int
  ho_gpu_mib :: int
  ho_expires_at_ms :: int

record transition = held_offer +
  tn_committed_gpu_mib :: int

record gpu_ledger =
  gl_provider :: string
  gl_boot_epoch :: string
  gl_capacity_mib :: int
  gl_held :: "(string, held_offer) dict"
  gl_committed :: "(string, transition) dict"

definition gpu_ledger_init :: "string \<Rightarrow> string \<Rightarrow> int \<Rightarrow> py_error + gpu_ledger" where
  "gpu_ledger_init provider boot_epoch capacity_mib =
     (if provider = [] \<or> length boot_epoch < 8 \<or> capacity_mib \<le> 0
      then Inl (ValueError ''invalid GPU admission ledger identity/capacity'')
      else Inr \<lparr>gl_provider = provider, gl_boot_epoch = boot_epoch, gl_capacity_mib = capacity_mib,
        gl_held = [], gl_committed = []\<rparr>)"

text \<open>The offers that have not expired; without a time none is dropped.\<close>

definition drop_expired :: "int option \<Rightarrow> gpu_ledger \<Rightarrow> gpu_ledger" where
  "drop_expired now_ms l = (case now_ms of
     None \<Rightarrow> l
   | Some now \<Rightarrow> l\<lparr>gl_held := filter (\<lambda>(k, v). now < ho_expires_at_ms v) (gl_held l)\<rparr>)"

definition held_sum :: "gpu_ledger \<Rightarrow> int" where
  "held_sum l = dict_sum (\<lambda>_ v. ho_gpu_mib v) (gl_held l)"

definition held_mib :: "int option \<Rightarrow> gpu_ledger \<Rightarrow> int \<times> gpu_ledger" where
  "held_mib now_ms l = (let t = drop_expired now_ms l in (held_sum t, t))"

definition committed_mib :: "gpu_ledger \<Rightarrow> int" where
  "committed_mib l = dict_sum (\<lambda>_ v. ho_gpu_mib v) (gl_committed l)"

definition held_of_offer :: "gpu_offer \<Rightarrow> gpu_ledger \<Rightarrow> held_offer" where
  "held_of_offer x l = \<lparr>ho_offer_digest = go_digest x, ho_provider = gl_provider l,
     ho_provider_boot_epoch = gl_boot_epoch l, ho_request_id = go_request_id x, ho_attempt = go_attempt x,
     ho_resource_sequence = go_resource_sequence x, ho_gpu_mib = go_offered_gpu_memory_mb x,
     ho_expires_at_ms = go_expires_at_ms x\<rparr>"

definition hold_offer :: "gpu_offer \<Rightarrow> int \<Rightarrow> gpu_ledger \<Rightarrow> (unit, gpu_ledger) outcome" where
  "hold_offer x now_ms l =
     (if go_provider x \<noteq> gl_provider l \<or> go_boot_epoch x \<noteq> gl_boot_epoch l
         \<or> go_expires_at_ms x \<le> now_ms \<or> go_offered_gpu_memory_mb x \<le> 0
      then (Inl (ValueError ''GPU offer identity, epoch, or expiry mismatch''), l)
      else case dict_get (gl_held l) (go_digest x) of
        Some current \<Rightarrow>
          if current \<noteq> held_of_offer x l then (Inl (ValueError ''conflicting GPU offer digest''), l)
          else (Inr (), l)
      | None \<Rightarrow>
          (let t = drop_expired (Some now_ms) l in
           if gl_capacity_mib t - held_sum t - committed_mib t < go_offered_gpu_memory_mb x
           then (Inl (ValueError ''GPU offer would overlap committed/held capacity''), t)
           else (Inr (), t\<lparr>gl_held := dict_set (go_digest x) (held_of_offer x t) (gl_held t)\<rparr>)))"

definition transition_of :: "held_offer \<Rightarrow> int \<Rightarrow> transition" where
  "transition_of h gpu_mib = \<lparr>ho_offer_digest = ho_offer_digest h, ho_provider = ho_provider h,
     ho_provider_boot_epoch = ho_provider_boot_epoch h, ho_request_id = ho_request_id h, ho_attempt = ho_attempt h,
     ho_resource_sequence = ho_resource_sequence h, ho_gpu_mib = ho_gpu_mib h, ho_expires_at_ms = ho_expires_at_ms h,
     tn_committed_gpu_mib = gpu_mib\<rparr>"

definition validate_transition :: "string \<Rightarrow> string \<Rightarrow> int \<Rightarrow> int \<Rightarrow> int \<Rightarrow> int \<Rightarrow> gpu_ledger
    \<Rightarrow> (transition, gpu_ledger) outcome" where
  "validate_transition offer_digest request_id attempt resource_sequence gpu_mib now_ms l =
     (let t = drop_expired (Some now_ms) l in
      case dict_get (gl_held t) offer_digest of
        None \<Rightarrow> (Inl (ValueError ''GPU admission transition is not offer-bound''), t)
      | Some h \<Rightarrow>
          if ho_request_id h \<noteq> request_id \<or> ho_attempt h \<noteq> attempt \<or> ho_resource_sequence h \<noteq> resource_sequence
             \<or> gpu_mib \<le> 0 \<or> ho_gpu_mib h < gpu_mib
          then (Inl (ValueError ''GPU admission transition is not offer-bound''), t)
          else (Inr (transition_of h gpu_mib), t))"

definition ledger_commit :: "string \<Rightarrow> transition \<Rightarrow> gpu_ledger \<Rightarrow> (unit, gpu_ledger) outcome" where
  "ledger_commit transaction_id n l =
     (case dict_get (gl_committed l) transaction_id of
        Some existing \<Rightarrow>
          if existing \<noteq> n then (Inl (ValueError ''conflicting committed GPU projection''), l) else (Inr (), l)
      | None \<Rightarrow>
          (case dict_get (gl_held l) (ho_offer_digest n) of
             None \<Rightarrow>
               if ho_provider n \<noteq> gl_provider l \<or> ho_provider_boot_epoch n \<noteq> gl_boot_epoch l
                  \<or> gl_capacity_mib l - committed_mib l < tn_committed_gpu_mib n
               then (Inl (ValueError ''WAL GPU projection exceeds current Provider capacity''), l)
               else (Inr (), l\<lparr>gl_committed := dict_set transaction_id n (gl_committed l)\<rparr>)
           | Some _ \<Rightarrow> (Inr (), l\<lparr>gl_held := dict_pop (ho_offer_digest n) (gl_held l),
                               gl_committed := dict_set transaction_id n (gl_committed l)\<rparr>)))"

definition ledger_release_offer :: "string \<Rightarrow> gpu_ledger \<Rightarrow> gpu_ledger" where
  "ledger_release_offer offer_digest l = l\<lparr>gl_held := dict_pop offer_digest (gl_held l)\<rparr>"

definition ledger_release_transaction :: "string \<Rightarrow> gpu_ledger \<Rightarrow> gpu_ledger" where
  "ledger_release_transaction transaction_id l = l\<lparr>gl_committed := dict_pop transaction_id (gl_committed l)\<rparr>"

section \<open>Derived state\<close>

record derived_entry =
  de_request_id :: string
  de_binding :: state_reuse
  de_pins :: int

record derived_store =
  ds_max_entries :: int
  ds_entries :: "(string, derived_entry) dict"

definition derived_init :: "int \<Rightarrow> py_error + derived_store" where
  "derived_init max_entries =
     (if max_entries \<le> 0 then Inl (ValueError ''derived-state bound must be positive'')
      else Inr \<lparr>ds_max_entries = max_entries, ds_entries = []\<rparr>)"

definition derived_insert :: "string \<Rightarrow> state_reuse \<Rightarrow> (string, derived_entry) dict \<Rightarrow> derived_store \<Rightarrow> derived_store" where
  "derived_insert request_id b entries s = s\<lparr>ds_entries :=
     dict_set (sr_state_key b) \<lparr>de_request_id = request_id, de_binding = b, de_pins = 0\<rparr> entries\<rparr>"

definition derived_put :: "string \<Rightarrow> state_reuse \<Rightarrow> derived_store \<Rightarrow> (unit, derived_store) outcome" where
  "derived_put request_id b s =
     (if (case dict_get (ds_entries s) (sr_state_key b) of Some current \<Rightarrow> de_pins current \<noteq> 0 | None \<Rightarrow> False)
      then (Inl (RuntimeError ''cannot replace pinned derived state''), s)
      else let entries = dict_pop (sr_state_key b) (ds_entries s) in
        if int (length entries) < ds_max_entries s then (Inr (), derived_insert request_id b entries s)
        else case find (\<lambda>(k, e). de_pins e = 0) entries of
          None \<Rightarrow> (Inl (RuntimeError ''all derived state is pinned''), s\<lparr>ds_entries := entries\<rparr>)
        | Some (k, e) \<Rightarrow> (Inr (), derived_insert request_id b (dict_pop k entries) s))"

definition derived_acquire :: "state_reuse \<Rightarrow> reuse_check \<Rightarrow> derived_store \<Rightarrow> (unit, derived_store) outcome" where
  "derived_acquire b check s =
     (case dict_get (ds_entries s) (sr_state_key b) of
        None \<Rightarrow> (Inl (ValueError ''derived state is not locally available''), s)
      | Some e \<Rightarrow>
          if de_binding e \<noteq> b then (Inl (ValueError ''derived state is not locally available''), s)
          else (case state_reuse_revalidate b check of
                  Inl err \<Rightarrow> (Inl err, s)
                | Inr _ \<Rightarrow> (Inr (), s\<lparr>ds_entries := dict_set (sr_state_key b) (e\<lparr>de_pins := de_pins e + 1\<rparr>)
                    (ds_entries s)\<rparr>)))"

definition derived_release :: "string \<Rightarrow> derived_store \<Rightarrow> derived_store" where
  "derived_release state_key s =
     (case dict_get (ds_entries s) state_key of
        None \<Rightarrow> s
      | Some e \<Rightarrow> s\<lparr>ds_entries := dict_set state_key (e\<lparr>de_pins := max 0 (de_pins e - 1)\<rparr>) (ds_entries s)\<rparr>)"

fun destroy_each :: "string \<Rightarrow> (string, derived_entry) dict \<Rightarrow> derived_store \<Rightarrow> (unit, derived_store) outcome" where
  "destroy_each request_id [] s = (Inr (), s)"
| "destroy_each request_id ((k, e) # items) s =
     (if de_request_id e \<noteq> request_id then destroy_each request_id items s
      else if de_pins e \<noteq> 0 then (Inl (RuntimeError ''cannot destroy pinned derived state''), s)
      else destroy_each request_id items (s\<lparr>ds_entries := dict_pop k (ds_entries s)\<rparr>))"

definition destroy_request_state :: "string \<Rightarrow> derived_store \<Rightarrow> (unit, derived_store) outcome" where
  "destroy_request_state request_id s = destroy_each request_id (ds_entries s) s"

definition derived_contains :: "string \<Rightarrow> derived_store \<Rightarrow> bool" where
  "derived_contains state_key s \<longleftrightarrow> dict_has (ds_entries s) state_key"

section \<open>Shard preparation\<close>

datatype shard_call =
    FetchFromRepository string
  | VerifyContent string string
  | PromoteToDisk string string
  | LoadToRam string
  | LoadToGpu string

record shard_callbacks =
  sb_fetch_from_repository :: "string \<Rightarrow> py_error + string"
  sb_verify_content :: "string \<Rightarrow> string \<Rightarrow> py_error option"
  sb_promote_to_disk :: "string \<Rightarrow> string \<Rightarrow> py_error option"
  sb_load_to_ram :: "string \<Rightarrow> py_error option"
  sb_load_to_gpu :: "string \<Rightarrow> py_error option"

record shard_pipeline =
  sp_provider :: string
  sp_boot_epoch :: string
  sp_cache_epoch :: int

definition call_shard :: "shard_call \<Rightarrow> py_error option \<Rightarrow> shard_call list \<Rightarrow> (unit, shard_call list) outcome" where
  "call_shard c raised trace = ((case raised of Some e \<Rightarrow> Inl e | None \<Rightarrow> Inr ()), trace @ [c])"

definition resident_tier :: "(shard_evidence \<Rightarrow> bool) \<Rightarrow> shard_pipeline \<Rightarrow> string \<Rightarrow> shard_evidence option
    \<Rightarrow> int \<Rightarrow> bool \<Rightarrow> string" where
  "resident_tier verify_signature p artifact_digest evidence now_ms pin_live =
     (case evidence of
        None \<Rightarrow> ''REPOSITORY''
      | Some e \<Rightarrow>
          if se_artifact_digest e \<noteq> artifact_digest then ''REPOSITORY''
          else (case shard_evidence_revalidate verify_signature now_ms (sp_provider p) (sp_boot_epoch p)
                       (sp_cache_epoch p) pin_live e of
                  Inl _ \<Rightarrow> ''REPOSITORY''
                | Inr _ \<Rightarrow> se_tier e))"

definition load_gpu :: "shard_callbacks \<Rightarrow> string \<Rightarrow> shard_call list \<Rightarrow> (string, shard_call list) outcome" where
  "load_gpu cb artifact_digest trace =
     and_then (call_shard (LoadToGpu artifact_digest) (sb_load_to_gpu cb artifact_digest) trace) (\<lambda>_ t.
       (Inr ''GPU_LOADED'', t))"

definition load_ram_gpu :: "shard_callbacks \<Rightarrow> string \<Rightarrow> shard_call list \<Rightarrow> (string, shard_call list) outcome" where
  "load_ram_gpu cb artifact_digest trace =
     and_then (call_shard (LoadToRam artifact_digest) (sb_load_to_ram cb artifact_digest) trace) (\<lambda>_ t.
       load_gpu cb artifact_digest t)"

definition ensure_gpu :: "(shard_evidence \<Rightarrow> bool) \<Rightarrow> shard_callbacks \<Rightarrow> shard_pipeline \<Rightarrow> string
    \<Rightarrow> shard_evidence option \<Rightarrow> int \<Rightarrow> bool \<Rightarrow> shard_call list \<Rightarrow> (string, shard_call list) outcome" where
  "ensure_gpu verify_signature cb p artifact_digest evidence now_ms pin_live trace =
     (let tier = resident_tier verify_signature p artifact_digest evidence now_ms pin_live in
      if tier \<in> {''PINNED_GPU'', ''RELOAD_SAFE_GPU''} then (Inr tier, trace)
      else if tier = ''HOST_RAM'' then load_gpu cb artifact_digest trace
      else if tier = ''DISK'' then load_ram_gpu cb artifact_digest trace
      else case sb_fetch_from_repository cb artifact_digest of
        Inl e \<Rightarrow> (Inl e, trace @ [FetchFromRepository artifact_digest])
      | Inr payload \<Rightarrow>
          and_then (call_shard (VerifyContent artifact_digest payload) (sb_verify_content cb artifact_digest payload)
            (trace @ [FetchFromRepository artifact_digest])) (\<lambda>_ t.
          and_then (call_shard (PromoteToDisk artifact_digest payload) (sb_promote_to_disk cb artifact_digest payload) t)
            (\<lambda>_ t. load_ram_gpu cb artifact_digest t)))"

section \<open>Capacity of the ledger\<close>

inductive ledger_step :: "gpu_ledger \<Rightarrow> gpu_ledger \<Rightarrow> bool" where
  hold: "hold_offer x now_ms l = (r, t) \<Longrightarrow> ledger_step l t"
| held: "held_mib now_ms l = (n, t) \<Longrightarrow> ledger_step l t"
| validate: "validate_transition offer_digest request_id attempt sequence_no gpu_mib now_ms l = (r, t) \<Longrightarrow> ledger_step l t"
| commit: "dict_get (gl_held l) offer_digest = Some h \<Longrightarrow> ledger_commit transaction_id (transition_of h gpu_mib) l = (r, t) \<Longrightarrow>
    ledger_step l t"
| recommit: "dict_get (gl_committed l) transaction_id \<noteq> None \<Longrightarrow> ledger_commit transaction_id n l = (r, t) \<Longrightarrow> ledger_step l t"
| release_offer: "ledger_step l (ledger_release_offer offer_digest l)"
| release_transaction: "ledger_step l (ledger_release_transaction transaction_id l)"

definition ledger_start :: "gpu_ledger \<Rightarrow> bool" where
  "ledger_start l \<longleftrightarrow> (\<exists>p b c. gpu_ledger_init p b c = Inr l)"

definition held_ok :: "string \<Rightarrow> held_offer \<Rightarrow> bool" where
  "held_ok k h \<longleftrightarrow> ho_offer_digest h = k \<and> 0 < ho_gpu_mib h"

definition committed_ok :: "string \<Rightarrow> transition \<Rightarrow> bool" where
  "committed_ok k n \<longleftrightarrow> 0 < ho_gpu_mib n"

definition ledger_inv :: "gpu_ledger \<Rightarrow> bool" where
  "ledger_inv l \<longleftrightarrow> dict_ok (gl_held l) \<and> dict_ok (gl_committed l) \<and> dict_all held_ok (gl_held l)
     \<and> dict_all committed_ok (gl_committed l) \<and> held_sum l + committed_mib l \<le> gl_capacity_mib l"

lemma held_positive: "ledger_inv l \<Longrightarrow> (k, h) \<in> set (gl_held l) \<Longrightarrow> 0 < ho_gpu_mib h \<and> ho_offer_digest h = k"
  using dict_allD [of held_ok "gl_held l" k h] by (simp add: ledger_inv_def held_ok_def dict_get_iff)

lemma committed_positive: "ledger_inv l \<Longrightarrow> (k, n) \<in> set (gl_committed l) \<Longrightarrow> 0 < ho_gpu_mib n"
  using dict_allD [of committed_ok "gl_committed l" k n] by (simp add: ledger_inv_def committed_ok_def dict_get_iff)

lemma sums_nonneg: "ledger_inv l \<Longrightarrow> 0 \<le> held_sum l \<and> 0 \<le> committed_mib l"
  by (auto simp: held_sum_def committed_mib_def intro!: dict_sum_nonneg dest: held_positive committed_positive)

lemma drop_expired_inv:
  assumes "ledger_inv l"
  shows "ledger_inv (drop_expired now_ms l)"
proof (cases now_ms)
  case (Some now)
  have "held_sum (drop_expired now_ms l) \<le> held_sum l"
    unfolding Some drop_expired_def held_sum_def
    by (auto simp: dict_sum_filter intro!: dict_sum_mono dest: held_positive [OF assms])
  with assms show ?thesis
    by (auto simp: Some ledger_inv_def drop_expired_def committed_mib_def dict_ok_filter dict_all_filter)
qed (simp add: drop_expired_def assms)

lemma hold_inv:
  assumes "hold_offer x now_ms l = (r, t)" and "ledger_inv l"
  shows "ledger_inv t"
proof (cases "t = l \<or> t = drop_expired (Some now_ms) l")
  case True
  with assms(2) show ?thesis using drop_expired_inv by auto
next
  case False
  let ?l = "drop_expired (Some now_ms) l"
  from False assms(1) have t: "t = ?l\<lparr>gl_held := dict_set (go_digest x) (held_of_offer x ?l) (gl_held ?l)\<rparr>"
    and fits: "held_sum ?l + committed_mib ?l + go_offered_gpu_memory_mb x \<le> gl_capacity_mib ?l"
    and pos: "0 < go_offered_gpu_memory_mb x" and none: "dict_get (gl_held l) (go_digest x) = None"
    by (auto simp: hold_offer_def Let_def split: if_splits option.splits)
  have inv: "ledger_inv ?l" using assms(2) by (rule drop_expired_inv)
  have "go_digest x \<notin> fst ` set (gl_held ?l)"
    using none by (auto simp: drop_expired_def dict_get_None_iff)
  then have "held_sum t = held_sum ?l + go_offered_gpu_memory_mb x"
    by (simp add: t held_sum_def dict_sum_set_new dict_get_None_iff held_of_offer_def)
  moreover have "committed_mib t = committed_mib ?l" "gl_capacity_mib t = gl_capacity_mib ?l"
    by (simp_all add: t committed_mib_def)
  ultimately show ?thesis using inv fits pos
    by (simp add: ledger_inv_def t held_ok_def held_of_offer_def)
qed

lemma commit_moves:
  assumes "ledger_inv l" and "dict_get (gl_held l) offer_digest = Some h"
    and "dict_get (gl_committed l) transaction_id = None"
  shows "\<exists>t. ledger_commit transaction_id (transition_of h gpu_mib) l = (Inr (), t)
    \<and> held_sum t = held_sum l - ho_gpu_mib h \<and> committed_mib t = committed_mib l + ho_gpu_mib h
    \<and> dict_get (gl_held t) offer_digest = None \<and> ledger_inv t"
proof -
  have h: "ho_offer_digest h = offer_digest" "0 < ho_gpu_mib h"
    using assms(1,2) held_positive [of l offer_digest h] by (simp_all add: ledger_inv_def dict_get_iff)
  let ?n = "transition_of h gpu_mib"
  let ?t = "l\<lparr>gl_held := dict_pop offer_digest (gl_held l),
    gl_committed := dict_set transaction_id ?n (gl_committed l)\<rparr>"
  have "ledger_commit transaction_id ?n l = (Inr (), ?t)"
    using assms(2,3) h by (simp add: ledger_commit_def transition_of_def)
  moreover have "held_sum ?t = held_sum l - ho_gpu_mib h"
    using assms(1,2) by (simp add: held_sum_def ledger_inv_def dict_sum_pop)
  moreover have "committed_mib ?t = committed_mib l + ho_gpu_mib h"
    using assms(3) by (simp add: committed_mib_def dict_sum_set_new transition_of_def)
  ultimately show ?thesis using assms(1) h
    by (auto simp: ledger_inv_def dict_simps committed_ok_def transition_of_def)
qed

lemma recommit_same: "dict_get (gl_committed l) transaction_id \<noteq> None \<Longrightarrow> snd (ledger_commit transaction_id n l) = l"
  by (auto simp: ledger_commit_def)

lemma pop_sum_le:
  "dict_ok d \<Longrightarrow> (\<And>k v. (k, v) \<in> set d \<Longrightarrow> 0 \<le> f k v) \<Longrightarrow> dict_sum f (dict_pop k d) \<le> dict_sum f d"
  by (cases "dict_get d k") (simp_all add: dict_pop_absent dict_sum_pop dict_get_iff)

interpretation gpu_admission: invariant_system ledger_start ledger_step ledger_inv
proof
  fix l t
  show "ledger_inv l" if "ledger_start l"
    using that by (auto simp: ledger_start_def gpu_ledger_init_def ledger_inv_def held_sum_def committed_mib_def
        split: if_splits)
  show "ledger_inv t" if "ledger_inv l" "ledger_step l t"
    using that(2,1)
  proof (induction rule: ledger_step.induct)
    case (hold x now_ms l r t)
    then show ?case by (blast intro: hold_inv)
  next
    case (held now_ms l n t)
    then show ?case by (auto simp: held_mib_def Let_def intro: drop_expired_inv)
  next
    case (validate offer_digest request_id attempt sequence_no gpu_mib now_ms l r t)
    then have "t = drop_expired (Some now_ms) l"
      by (auto simp: validate_transition_def Let_def split: option.splits if_splits)
    with validate show ?case by (simp add: drop_expired_inv)
  next
    case (commit l offer_digest h transaction_id gpu_mib r t)
    show ?case
    proof (cases "dict_get (gl_committed l) transaction_id")
      case None
      from commit_moves [OF commit(3,1) None, of gpu_mib] commit(2) show ?thesis by auto
    next
      case (Some n)
      with commit recommit_same [of l transaction_id "transition_of h gpu_mib"] show ?thesis by simp
    qed
  next
    case (recommit l transaction_id n r t)
    then show ?case using recommit_same [of l transaction_id n] by simp
  next
    case (release_offer l offer_digest)
    have "held_sum (ledger_release_offer offer_digest l) \<le> held_sum l"
      using release_offer unfolding held_sum_def ledger_release_offer_def
      by (simp add: ledger_inv_def) (rule pop_sum_le, auto dest: held_positive [OF release_offer])
    with release_offer show ?case by (auto simp: ledger_inv_def ledger_release_offer_def committed_mib_def)
  next
    case (release_transaction l transaction_id)
    have "committed_mib (ledger_release_transaction transaction_id l) \<le> committed_mib l"
      using release_transaction unfolding committed_mib_def ledger_release_transaction_def
      by (simp add: ledger_inv_def) (rule pop_sum_le, auto dest: committed_positive [OF release_transaction])
    with release_transaction show ?case by (auto simp: ledger_inv_def ledger_release_transaction_def held_sum_def)
  qed
qed

text \<open>
  C13: The GPU memory a Provider promises. In every ledger reached by holding, validating, committing
  held offers and releasing, the held and the committed memory together are within the capacity.
  An offer is held exactly when it is for this Provider boot, unexpired, positive and fits beside
  what is held and committed; and a transition validated for an offer can be committed under a new
  transaction, which moves the memory of the offer from held to committed.
\<close>

theorem gpu_capacity_safe:
  assumes "reachable ledger_start ledger_step l"
  shows "0 \<le> held_sum l \<and> 0 \<le> committed_mib l \<and> held_sum l + committed_mib l \<le> gl_capacity_mib l
    \<and> (\<forall>x now_ms. dict_get (gl_held l) (go_digest x) = None \<longrightarrow>
        (fst (hold_offer x now_ms l) = Inr () \<longleftrightarrow>
          go_provider x = gl_provider l \<and> go_boot_epoch x = gl_boot_epoch l \<and> now_ms < go_expires_at_ms x
          \<and> 0 < go_offered_gpu_memory_mb x
          \<and> fst (held_mib (Some now_ms) l) + committed_mib l + go_offered_gpu_memory_mb x \<le> gl_capacity_mib l))
    \<and> (\<forall>d q n sequence_no m now_ms tr t transaction_id.
        validate_transition d q n sequence_no m now_ms l = (Inr tr, t) \<and> dict_get (gl_committed l) transaction_id = None \<longrightarrow>
        0 < m \<and> m \<le> ho_gpu_mib tr \<and> tn_committed_gpu_mib tr = m
        \<and> (\<exists>u. ledger_commit transaction_id tr t = (Inr (), u)
            \<and> held_sum u = held_sum t - ho_gpu_mib tr \<and> committed_mib u = committed_mib t + ho_gpu_mib tr))"
proof (intro conjI allI impI)
  have inv: "ledger_inv l" using assms by (rule gpu_admission.reachable_inv)
  then show "0 \<le> held_sum l" "0 \<le> committed_mib l" "held_sum l + committed_mib l \<le> gl_capacity_mib l"
    using sums_nonneg by (simp_all add: ledger_inv_def)
  show "fst (hold_offer x now_ms l) = Inr () \<longleftrightarrow>
      go_provider x = gl_provider l \<and> go_boot_epoch x = gl_boot_epoch l \<and> now_ms < go_expires_at_ms x
      \<and> 0 < go_offered_gpu_memory_mb x
      \<and> fst (held_mib (Some now_ms) l) + committed_mib l + go_offered_gpu_memory_mb x \<le> gl_capacity_mib l"
    if "dict_get (gl_held l) (go_digest x) = None" for x now_ms
    using that by (auto simp: hold_offer_def held_mib_def Let_def drop_expired_def committed_mib_def)
  fix d q n sequence_no m now_ms tr t transaction_id
  assume run: "validate_transition d q n sequence_no m now_ms l = (Inr tr, t)
    \<and> dict_get (gl_committed l) transaction_id = None"
  then obtain h where h: "dict_get (gl_held t) d = Some h" "tr = transition_of h m" "0 < m" "m \<le> ho_gpu_mib h"
    and t: "t = drop_expired (Some now_ms) l"
    by (auto simp: validate_transition_def Let_def split: option.splits if_splits)
  then show "0 < m" "m \<le> ho_gpu_mib tr" "tn_committed_gpu_mib tr = m" by (simp_all add: transition_of_def)
  have "ledger_inv t" unfolding t using inv by (rule drop_expired_inv)
  moreover have "dict_get (gl_committed t) transaction_id = None" using run by (simp add: t drop_expired_def)
  ultimately show "\<exists>u. ledger_commit transaction_id tr t = (Inr (), u)
      \<and> held_sum u = held_sum t - ho_gpu_mib tr \<and> committed_mib u = committed_mib t + ho_gpu_mib tr"
    using commit_moves [of t d h transaction_id m] h by (auto simp: transition_of_def)
qed

definition demo_ledger :: gpu_ledger where
  "demo_ledger = \<lparr>gl_provider = ''p'', gl_boot_epoch = ''bootboot'', gl_capacity_mib = 10, gl_held = [], gl_committed = []\<rparr>"

definition demo_ledger_offer :: gpu_offer where
  "demo_ledger_offer = \<lparr>go_digest = ''a'', go_provider = ''p'', go_boot_epoch = ''bootboot'', go_request_id = ''r'', go_attempt = 1,
     go_resource_sequence = 1, go_offered_gpu_memory_mb = 8, go_expires_at_ms = 9\<rparr>"

lemma demo_held_reached: "reachable ledger_start ledger_step (snd (hold_offer demo_ledger_offer 1 demo_ledger))"
proof (rule reachable_one)
  show "ledger_step demo_ledger (snd (hold_offer demo_ledger_offer 1 demo_ledger))"
    by (rule ledger_step.hold [OF prod.collapse [symmetric]])
  have "gpu_ledger_init ''p'' ''bootboot'' 10 = Inr demo_ledger" by code_simp
  then show "ledger_start demo_ledger" unfolding ledger_start_def by blast
qed

theorem gpu_capacity_safe_witness:
  "(let l = snd (hold_offer demo_ledger_offer 1 demo_ledger) in held_sum l = 8 \<and> committed_mib l = 0
      \<and> held_sum l + committed_mib l \<le> gl_capacity_mib l
      \<and> isl (fst (hold_offer (demo_ledger_offer\<lparr>go_digest := ''b''\<rparr>) 1 l)))"
proof -
  let ?l = "snd (hold_offer demo_ledger_offer 1 demo_ledger)"
  have "held_sum ?l = 8 \<and> committed_mib ?l = 0 \<and> isl (fst (hold_offer (demo_ledger_offer\<lparr>go_digest := ''b''\<rparr>) 1 ?l))"
    by code_simp
  then show ?thesis using gpu_capacity_safe [OF demo_held_reached] by (simp add: Let_def)
qed

text \<open>
  A commit whose offer is not held, as after a restart, is checked against the committed memory
  only, and with the memory the assignment asked for while the ledger charges the whole offer: the
  ledger can then promise more than the capacity.
\<close>

lemma unheld_commit_exceeds_capacity:
  "(let n = transition_of (held_of_offer (demo_ledger_offer\<lparr>go_digest := ''b''\<rparr>) demo_ledger) 1;
        t = snd (ledger_commit ''t'' n (snd (hold_offer demo_ledger_offer 1 demo_ledger)))
    in held_sum t = 8 \<and> committed_mib t = 8 \<and> gl_capacity_mib t = 10)"
  by code_simp

section \<open>Derived state is not dropped while it is in use\<close>

definition derived_ok :: "string \<Rightarrow> derived_entry \<Rightarrow> bool" where
  "derived_ok k e \<longleftrightarrow> sr_state_key (de_binding e) = k \<and> 0 \<le> de_pins e"

definition derived_inv :: "derived_store \<Rightarrow> bool" where
  "derived_inv s \<longleftrightarrow> dict_ok (ds_entries s) \<and> dict_all derived_ok (ds_entries s) \<and> 0 < ds_max_entries s
     \<and> int (length (ds_entries s)) \<le> ds_max_entries s"

inductive derived_step :: "derived_store \<Rightarrow> derived_store \<Rightarrow> bool" where
  put: "derived_put q b s = (r, t) \<Longrightarrow> derived_step s t"
| acquire: "derived_acquire b check s = (r, t) \<Longrightarrow> derived_step s t"
| release: "derived_step s (derived_release k s)"
| destroy: "destroy_request_state q s = (r, t) \<Longrightarrow> derived_step s t"

definition derived_start :: "derived_store \<Rightarrow> bool" where
  "derived_start s \<longleftrightarrow> (\<exists>m. derived_init m = Inr s)"

lemma length_dict_pop_le: "length (dict_pop k d) \<le> length d"
  by (simp add: AList.delete_eq)

lemma put_inv:
  assumes "derived_inv s"
  shows "derived_inv (snd (derived_put q b s))"
proof -
  let ?d = "dict_pop (sr_state_key b) (ds_entries s)"
  have d: "dict_ok ?d" "dict_all derived_ok ?d" "int (length ?d) \<le> ds_max_entries s"
    using assms length_dict_pop_le [of "sr_state_key b" "ds_entries s"] by (simp_all add: derived_inv_def)
  have ins: "derived_inv (derived_insert q b e s)"
    if "dict_ok e" "dict_all derived_ok e" "int (length e) < ds_max_entries s" for e
    using that assms by (simp add: derived_inv_def derived_insert_def derived_ok_def length_dict_set)
  have popped: "int (length (dict_pop k ?d)) < ds_max_entries s"
    if "find (\<lambda>(k, e). de_pins e = 0) ?d = Some (k, e)" for k e
  proof -
    have "dict_has ?d k" using find_SomeD [OF that] d(1) by (auto simp: dict_has_def simp flip: dict_get_iff)
    from length_dict_pop [OF d(1) this] d(3) show ?thesis by linarith
  qed
  show ?thesis
  proof (cases "find (\<lambda>(k, e). de_pins e = 0) ?d")
    case None
    with assms d ins [of ?d] show ?thesis by (auto simp: derived_put_def derived_inv_def Let_def split: option.splits)
  next
    case (Some x)
    obtain k e where x: "x = (k, e)" by (cases x)
    have "derived_inv (derived_insert q b (dict_pop k ?d) s)"
      using d popped [OF Some [unfolded x]] by (intro ins) simp_all
    with Some x assms d ins [of ?d] show ?thesis by (auto simp: derived_put_def Let_def split: option.splits)
  qed
qed

lemma set_pins_inv:
  "derived_inv s \<Longrightarrow> dict_get (ds_entries s) k = Some e \<Longrightarrow> 0 \<le> n \<Longrightarrow>
     derived_inv (s\<lparr>ds_entries := dict_set k (e\<lparr>de_pins := n\<rparr>) (ds_entries s)\<rparr>)"
  using dict_allD [of derived_ok "ds_entries s" k e]
  by (simp add: derived_inv_def length_dict_set dict_has_def derived_ok_def)

lemma pins_nonneg: "derived_inv s \<Longrightarrow> dict_get (ds_entries s) k = Some e \<Longrightarrow> 0 \<le> de_pins e"
  by (auto simp: derived_inv_def derived_ok_def dest: dict_allD)

lemma destroy_inv: "derived_inv s \<Longrightarrow> derived_inv (snd (destroy_each q items s))"
proof (induction q items s rule: destroy_each.induct)
  case (2 q k e items s)
  then show ?case using length_dict_pop_le [of k "ds_entries s"] by (auto simp: derived_inv_def)
qed simp

interpretation derived_state: invariant_system derived_start derived_step derived_inv
proof
  fix s t
  show "derived_inv s" if "derived_start s"
    using that by (auto simp: derived_start_def derived_init_def derived_inv_def split: if_splits)
  show "derived_inv t" if "derived_inv s" "derived_step s t"
    using that(2,1)
  proof (induction rule: derived_step.induct)
    case (put q b s r t)
    then show ?case using put_inv [of s q b] by simp
  next
    case (acquire b check s r t)
    then show ?case
      by (auto simp: derived_acquire_def split: option.splits if_splits sum.splits intro!: set_pins_inv dest: pins_nonneg)
  next
    case (release s k)
    then show ?case by (auto simp: derived_release_def split: option.splits intro!: set_pins_inv)
  next
    case (destroy q s r t)
    then show ?case using destroy_inv [of s q "ds_entries s"] by (simp add: destroy_request_state_def)
  qed
qed

lemma put_keeps_pinned:
  assumes "derived_inv s" and k: "dict_get (ds_entries s) k = Some e" and pinned: "de_pins e \<noteq> 0"
  shows "dict_get (ds_entries (snd (derived_put q b s))) k = Some e"
proof (cases "k = sr_state_key b")
  case True
  with k pinned show ?thesis by (simp add: derived_put_def)
next
  case False
  let ?d = "dict_pop (sr_state_key b) (ds_entries s)"
  have d: "dict_ok ?d" "dict_get ?d k = Some e" using assms False by (simp_all add: derived_inv_def dict_simps)
  have "k \<noteq> j" if "find (\<lambda>(k, e). de_pins e = 0) ?d = Some (j, f)" for j f
    using find_SomeD [OF that] d pinned by (auto simp flip: dict_get_iff)
  with False d k show ?thesis
    by (auto simp: derived_put_def derived_insert_def Let_def dict_simps split: option.splits)
qed

lemma destroy_keeps_pinned:
  "dict_ok d \<Longrightarrow> set items \<subseteq> set d \<Longrightarrow> dict_get d k = Some e \<Longrightarrow> de_pins e \<noteq> 0 \<or> de_request_id e \<noteq> q \<Longrightarrow>
     dict_get (ds_entries s) k = Some e \<Longrightarrow> dict_get (ds_entries (snd (destroy_each q items s))) k = Some e"
proof (induction q items s rule: destroy_each.induct)
  case (2 q j f items s)
  have "j \<noteq> k" if "de_request_id f = q" "de_pins f = 0"
    using 2(3-6) that by (auto simp flip: dict_get_iff)
  with 2 show ?case by (auto simp: dict_simps)
qed simp

text \<open>
  Derived state that is in use. In every store reached by inserting, acquiring, releasing and
  destroying, the bound holds, and an entry that is pinned is neither replaced, nor evicted by
  another insertion, nor destroyed with its request.
\<close>

lemma derived_pins_kept:
  assumes "reachable derived_start derived_step s"
  shows "int (length (ds_entries s)) \<le> ds_max_entries s
    \<and> (\<forall>k e q b. dict_get (ds_entries s) k = Some e \<and> 0 < de_pins e \<longrightarrow>
        dict_get (ds_entries (snd (derived_put q b s))) k = Some e
        \<and> dict_get (ds_entries (snd (destroy_request_state q s))) k = Some e)"
proof -
  have inv: "derived_inv s" using assms by (rule derived_state.reachable_inv)
  show ?thesis
  proof (intro conjI allI impI)
    show "int (length (ds_entries s)) \<le> ds_max_entries s" using inv by (simp add: derived_inv_def)
    fix k e q b
    assume k: "dict_get (ds_entries s) k = Some e \<and> 0 < de_pins e"
    then show "dict_get (ds_entries (snd (derived_put q b s))) k = Some e"
      by (intro put_keeps_pinned [OF inv]) simp_all
    show "dict_get (ds_entries (snd (destroy_request_state q s))) k = Some e"
      unfolding destroy_request_state_def using k inv
      by (intro destroy_keeps_pinned [of "ds_entries s"]) (simp_all add: derived_inv_def)
  qed
qed

section \<open>What is loaded was verified\<close>

text \<open>
  How a shard reaches the GPU. Nothing is promoted that was not fetched and verified, nothing is
  loaded after a fetch unless the content was verified and promoted, and the repository is left out
  only on evidence for this artifact that passes revalidation for this Provider, boot and cache
  epoch. A call that returns either found the shard on the GPU and did nothing, or ended by loading it.
\<close>

lemma shard_load_verified:
  "(case ensure_gpu verify_signature cb p a ev now_ms pin_live [] of (r, trace) \<Rightarrow>
     (\<forall>q. PromoteToDisk a q \<in> set trace \<longrightarrow> sb_fetch_from_repository cb a = Inr q \<and> sb_verify_content cb a q = None)
     \<and> (FetchFromRepository a \<in> set trace \<and> LoadToRam a \<in> set trace \<longrightarrow>
         (\<exists>q. sb_fetch_from_repository cb a = Inr q \<and> sb_verify_content cb a q = None \<and> sb_promote_to_disk cb a q = None))
     \<and> (FetchFromRepository a \<notin> set trace \<longrightarrow>
         (\<exists>e. ev = Some e \<and> se_artifact_digest e = a
           \<and> shard_evidence_revalidate verify_signature now_ms (sp_provider p) (sp_boot_epoch p) (sp_cache_epoch p) pin_live e
             = Inr ()))
     \<and> (\<forall>t. r = Inr t \<longrightarrow> t \<in> {''PINNED_GPU'', ''RELOAD_SAFE_GPU''} \<and> trace = []
         \<or> t = ''GPU_LOADED'' \<and> trace \<noteq> [] \<and> last trace = LoadToGpu a))"
proof -
  let ?tier = "resident_tier verify_signature p a ev now_ms pin_live"
  have tier: "\<exists>e. ev = Some e \<and> se_artifact_digest e = a
      \<and> shard_evidence_revalidate verify_signature now_ms (sp_provider p) (sp_boot_epoch p) (sp_cache_epoch p) pin_live e
        = Inr ()" if "?tier \<noteq> ''REPOSITORY''"
    using that by (auto simp: resident_tier_def split: option.splits if_splits sum.splits)
  consider "?tier \<in> {''PINNED_GPU'', ''RELOAD_SAFE_GPU''}" | "?tier = ''HOST_RAM''" | "?tier = ''DISK''"
    | "?tier \<notin> {''PINNED_GPU'', ''RELOAD_SAFE_GPU'', ''HOST_RAM'', ''DISK''}" by blast
  then show ?thesis
  proof cases
    case 1
    then show ?thesis using tier by (auto simp: ensure_gpu_def Let_def)
  next
    case 2
    then show ?thesis using tier by (auto simp: ensure_gpu_def Let_def load_gpu_def and_then_def call_shard_def split: option.split)
  next
    case 3
    then show ?thesis using tier
      by (auto simp: ensure_gpu_def Let_def load_ram_gpu_def load_gpu_def and_then_def call_shard_def split: option.split)
  next
    case 4
    then show ?thesis
      by (auto simp: ensure_gpu_def Let_def load_ram_gpu_def load_gpu_def and_then_def call_shard_def
          split: option.split sum.split)
  qed
qed

definition demo_shard_callbacks :: shard_callbacks where
  "demo_shard_callbacks = \<lparr>sb_fetch_from_repository = (\<lambda>a. Inr ''weights''),
     sb_verify_content = (\<lambda>a q. if q = ''weights'' then None else Some (ValueError ''digest'')),
     sb_promote_to_disk = (\<lambda>a q. None), sb_load_to_ram = (\<lambda>a. None), sb_load_to_gpu = (\<lambda>a. None)\<rparr>"

definition demo_pipeline :: shard_pipeline where
  "demo_pipeline = \<lparr>sp_provider = ''p'', sp_boot_epoch = ''bootboot'', sp_cache_epoch = 1\<rparr>"

theorem shard_load_verified_witness:
  "(case ensure_gpu (\<lambda>e. False) demo_shard_callbacks demo_pipeline ''a'' None 1 True [] of (r, trace) \<Rightarrow>
     r = Inr ''GPU_LOADED'' \<and> length trace = 5 \<and> last trace = LoadToGpu ''a''
     \<and> sb_verify_content demo_shard_callbacks ''a'' ''weights'' = None)"
proof -
  have run: "ensure_gpu (\<lambda>e. False) demo_shard_callbacks demo_pipeline ''a'' None 1 True []
      = (Inr ''GPU_LOADED'', [FetchFromRepository ''a'', VerifyContent ''a'' ''weights'', PromoteToDisk ''a'' ''weights'',
          LoadToRam ''a'', LoadToGpu ''a''])"
    by code_simp
  show ?thesis
    using shard_load_verified [where verify_signature = "\<lambda>e. False" and cb = demo_shard_callbacks and p = demo_pipeline
      and a = "''a''" and ev = None and now_ms = 1 and pin_live = True]
    unfolding run by simp
qed

end
