(* ===== verification/Selection_Participant.thy ===== *)
theory Selection_Participant
  imports Gpu_Admission
begin

text \<open>
  \<open>DISelectionParticipant\<close> of \<open>core/deployment_control.py\<close>: the DI owner behind the Selection
  transaction of the Core. \<open>prepare\<close> binds an assignment to the ACK offer and writes the commit blob,
  \<open>on_committed\<close> reads the blob back, moves the GPU memory from held to committed and submits the
  preparation of every role, and a role starts once it is prepared and its inputs are there.

  \<^item> The Core context and the committed view are mappings: \<open>context.get(k)\<close> of a missing key is
    \<open>None\<close>. The attributes the code reads of an offer are a record.
  \<^item> The executor is the list of submitted preparations that have not run; each is run once, in any
    order. \<open>_futures\<close> and \<open>_role_futures\<close> are read only by the two blocking waits.
  \<^item> The trace of the participant keeps the callbacks made, the submissions and the inputs admitted.
  \<^item> \<open>on_committed\<close> keeps the transition of the blob as the mapping it is. Here it is the record that
    \<open>prepare\<close> writes, and a transition with other fields is a \<open>KeyError\<close>.
\<close>

section \<open>State\<close>

record bound_offer = gpu_offer +
  bo_service :: string
  bo_execution_policies :: "string list"
  bo_accepted_deadline_ms :: int
  bo_accepted_roles :: "string list"
  bo_backends :: "string list"
  bo_devices :: "string list"
  bo_signer_key_id :: string
  bo_signature :: string

record selection_context =
  cx_request_id :: "string option"
  cx_attempt :: int
  cx_service_name :: "string option"
  cx_provider_identity :: "string option"
  cx_provider_boot_epoch :: "string option"
  cx_selection_payload_digest :: "string option"
  cx_expires_at_unix_ms :: int
  cx_transaction_id :: string

record commit_view =
  vw_commit_blob :: string
  vw_transaction_id :: string
  vw_acceptance_payload :: string

record prep_context =
  pc_transaction_id :: string
  pc_invocation_id :: string
  pc_request_id :: string
  pc_attempt :: int
  pc_plan_digest :: string
  pc_provider :: string
  pc_provider_boot_epoch :: string
  pc_deadline_ms :: int
  pc_generation :: int
  pc_role :: role_assignment

record selection_callbacks =
  sl_prepare_role :: "prep_context \<Rightarrow> py_error option"
  sl_start_role :: "string \<Rightarrow> py_error option"
  sl_release_role :: "string \<Rightarrow> string \<Rightarrow> py_error option"
  sl_release_assignment :: "prep_context \<Rightarrow> string \<Rightarrow> py_error option"

record selection_env =
  sv_offer_lookup :: "string \<Rightarrow> bound_offer option"
  sv_offer_verifier :: "bound_offer \<Rightarrow> bool"
  sv_state_revalidator :: "(state_reuse \<Rightarrow> selection_assignment \<Rightarrow> py_error option) option"

record role_gate =
  rg_selected :: bool
  rg_local_ready :: bool
  rg_required_input_scopes :: "string set"
  rg_ready_input_scopes :: "string set"
  rg_started :: bool
  rg_failed :: bool

datatype selection_call =
    Submitted prep_context
  | Prepared prep_context
  | InputReady string string string
  | StartRole string string
  | ReleaseRole string string
  | ReleaseAssignment prep_context string

record participant =
  pt_provider :: string
  pt_boot_epoch :: string
  pt_ledger :: gpu_ledger
  pt_assignments :: "(string, selection_assignment) dict"
  pt_gates :: "(string \<times> string, role_gate) dict"
  pt_futures :: "prep_context list"
  pt_prepared_offers :: "(string, string) dict"
  pt_assignment_transactions :: "(string, string) dict"
  pt_terminal_roles :: "(string, string set) dict"
  pt_completed_assignments :: "string set"
  pt_calls :: "selection_call list"

definition input_ready :: "role_gate \<Rightarrow> bool" where
  "input_ready g \<longleftrightarrow> rg_required_input_scopes g \<subseteq> rg_ready_input_scopes g"

definition default_offer_verifier :: "bound_offer \<Rightarrow> bool" where
  "default_offer_verifier x \<longleftrightarrow> bo_signer_key_id x \<noteq> [] \<and> bo_signature x \<noteq> []"

definition participant_init :: "string \<Rightarrow> string \<Rightarrow> gpu_ledger \<Rightarrow> py_error + participant" where
  "participant_init provider boot_epoch ledger =
     (if provider \<noteq> gl_provider ledger \<or> boot_epoch \<noteq> gl_boot_epoch ledger
      then Inl (ValueError ''DI participant and GPU ledger binding mismatch'')
      else Inr \<lparr>pt_provider = provider, pt_boot_epoch = boot_epoch, pt_ledger = ledger, pt_assignments = [],
        pt_gates = [], pt_futures = [], pt_prepared_offers = [], pt_assignment_transactions = [],
        pt_terminal_roles = [], pt_completed_assignments = {}, pt_calls = []\<rparr>)"

definition logged :: "selection_call \<Rightarrow> participant \<Rightarrow> participant" where
  "logged c p = p\<lparr>pt_calls := pt_calls p @ [c]\<rparr>"

definition callback :: "selection_call \<Rightarrow> py_error option \<Rightarrow> participant \<Rightarrow> (unit, participant) outcome" where
  "callback c raised p = ((case raised of Some e \<Rightarrow> Inl e | None \<Rightarrow> Inr ()), logged c p)"

definition prep_context_of :: "string \<Rightarrow> selection_assignment \<Rightarrow> role_assignment \<Rightarrow> prep_context" where
  "prep_context_of transaction_id a r = \<lparr>pc_transaction_id = transaction_id, pc_invocation_id = sa_invocation_id a,
     pc_request_id = sa_request_id a, pc_attempt = sa_attempt a, pc_plan_digest = sa_plan_digest a,
     pc_provider = sa_provider a, pc_provider_boot_epoch = sa_provider_boot_epoch a, pc_deadline_ms = sa_deadline_ms a,
     pc_generation = sa_generation a, pc_role = r\<rparr>"

definition gate_key :: "prep_context \<Rightarrow> string \<times> string" where
  "gate_key c = (pc_transaction_id c, ro_role (pc_role c))"

section \<open>Prepare\<close>

definition binding_mismatches :: "hash \<Rightarrow> selection_context \<Rightarrow> string \<Rightarrow> selection_assignment \<Rightarrow> bound_offer option
    \<Rightarrow> int \<Rightarrow> participant \<Rightarrow> string list" where
  "binding_mismatches sha context payload a offer now_ms p =
     (if cx_request_id context \<noteq> Some (sa_request_id a) then [''request_id''] else [])
     @ (if cx_attempt context \<noteq> sa_attempt a then [''attempt''] else [])
     @ (case offer of
          None \<Rightarrow> [''offer_digest'']
        | Some x \<Rightarrow> if cx_service_name context \<noteq> Some (bo_service x) then [''service_name''] else [])
     @ (if cx_provider_identity context \<noteq> Some (pt_provider p) then [''provider_identity''] else [])
     @ (if cx_provider_boot_epoch context \<noteq> Some (pt_boot_epoch p) then [''provider_boot_epoch''] else [])
     @ (if cx_selection_payload_digest context \<noteq> Some (''sha256:'' @ sha payload) then [''selection_payload_digest''] else [])
     @ (if sa_provider a \<noteq> pt_provider p then [''assignment_provider''] else [])
     @ (if sa_provider_boot_epoch a \<noteq> pt_boot_epoch p then [''assignment_provider_boot_epoch''] else [])
     @ (if sa_deadline_ms a \<le> now_ms then [''assignment_deadline''] else [])
     @ (if cx_expires_at_unix_ms context < sa_deadline_ms a then [''core_expiry''] else [])"

definition offer_bound :: "selection_env \<Rightarrow> selection_assignment \<Rightarrow> bound_offer \<Rightarrow> int \<Rightarrow> bool" where
  "offer_bound env a x now_ms \<longleftrightarrow>
     sv_offer_verifier env x \<and> go_digest x = sa_offer_digest a \<and> go_request_id x = sa_request_id a
     \<and> go_attempt x = sa_attempt a \<and> go_provider x = sa_provider a \<and> go_boot_epoch x = sa_provider_boot_epoch a
     \<and> go_resource_sequence x = sa_resource_sequence a \<and> sa_execution_policy a \<in> set (bo_execution_policies x)
     \<and> now_ms < go_expires_at_ms x \<and> sa_deadline_ms a \<le> bo_accepted_deadline_ms x
     \<and> list_all (\<lambda>r. ro_role r \<in> set (bo_accepted_roles x)) (sa_roles a)
     \<and> list_all (\<lambda>r. ro_backend r \<in> set (bo_backends x) \<and> ro_device r \<in> set (bo_devices x)) (sa_roles a)"

definition check_reuse :: "selection_env \<Rightarrow> selection_assignment \<Rightarrow> int \<Rightarrow> py_error + unit" where
  "check_reuse env a now_ms =
     (case sa_state_reuse_binding a of
        None \<Rightarrow> Inr ()
      | Some b \<Rightarrow>
          if sr_provider b \<noteq> sa_provider a \<or> sr_provider_boot_epoch b \<noteq> sa_provider_boot_epoch a
             \<or> sr_expires_at_ms b \<le> now_ms
             \<or> \<not> list_ex (\<lambda>r. ro_layer_start r = Some (sr_layer_start b) \<and> ro_layer_end r = Some (sr_layer_end b)) (sa_roles a)
          then Inl (ValueError ''DI derived-state reuse lacks exact live binding'')
          else case sv_state_revalidator env of
            None \<Rightarrow> Inl (ValueError ''DI derived-state reuse lacks exact live binding'')
          | Some revalidate \<Rightarrow> (case revalidate b a of Some e \<Rightarrow> Inl e | None \<Rightarrow> Inr ()))"

definition acceptance_of :: "hash \<Rightarrow> selection_assignment \<Rightarrow> string \<Rightarrow> int \<Rightarrow> participant \<Rightarrow> selection_acceptance" where
  "acceptance_of sha a transaction_id now_ms p = \<lparr>cv_schema_version = 2,
     cv_canonical_encoding_version = ''canonical-json-v1'', cv_capability_version = ''SELECTION_DATAFLOW_V2'',
     cv_acceptance_predicate_version = ''DI_ACCEPTANCE_V2'',
     sc_invocation_id = sa_invocation_id a, sc_request_id = sa_request_id a, sc_attempt = sa_attempt a,
     sc_assignment_digest = selection_assignment_digest sha a, sc_provider = pt_provider p,
     sc_provider_boot_epoch = pt_boot_epoch p, sc_offer_digest = sa_offer_digest a,
     sc_role_tuple_digest = role_tuple_digest sha a, sc_accepted_gpu_mib = assignment_gpu_mib a,
     sc_generation = sa_generation a, sc_transaction_id = transaction_id, sc_accepted_at_ms = now_ms,
     sc_expires_at_ms = sa_deadline_ms a\<rparr>"

definition transition_to_dict :: "transition \<Rightarrow> (string, json) dict" where
  "transition_to_dict n =
     [(''offer_digest'', JStr (ho_offer_digest n)), (''provider'', JStr (ho_provider n)),
      (''provider_boot_epoch'', JStr (ho_provider_boot_epoch n)), (''request_id'', JStr (ho_request_id n)),
      (''attempt'', JInt (ho_attempt n)), (''resource_sequence'', JInt (ho_resource_sequence n)),
      (''gpu_mib'', JInt (ho_gpu_mib n)), (''expires_at_ms'', JInt (ho_expires_at_ms n)),
      (''committed_gpu_mib'', JInt (tn_committed_gpu_mib n))]"

definition commit_blob_dict :: "hash \<Rightarrow> string \<Rightarrow> selection_assignment \<Rightarrow> transition \<Rightarrow> selection_acceptance
    \<Rightarrow> (string, json) dict" where
  "commit_blob_dict sha transaction_id a n c =
     [(''schema'', JStr ''ndnsf-di-selection-commit-blob-v2''), (''participant_id'', JStr ''ndnsf-di-v2''),
      (''participant_version'', JInt 2), (''transaction_id'', JStr transaction_id),
      (''assignment'', JStr (b64encode (selection_assignment_to_bytes a))),
      (''assignment_digest'', JStr (selection_assignment_digest sha a)),
      (''transition'', JObj (transition_to_dict n)),
      (''acceptance'', JStr (b64encode (selection_acceptance_to_bytes c))),
      (''acceptance_digest'', JStr (selection_acceptance_digest sha c))]"

definition write_blob :: "hash \<Rightarrow> selection_assignment \<Rightarrow> string \<Rightarrow> int \<Rightarrow> transition \<Rightarrow> participant
    \<Rightarrow> (string \<times> string, participant) outcome" where
  "write_blob sha a transaction_id now_ms n p =
     (if transaction_id = [] then (Inl (ValueError ''DI Selection transaction id is missing''), p)
      else case make_selection_acceptance (acceptance_of sha a transaction_id now_ms p) of
        Inl e \<Rightarrow> (Inl e, p)
      | Inr c \<Rightarrow> (Inr (json_dumps (JObj (commit_blob_dict sha transaction_id a n c)), selection_acceptance_to_bytes c),
          p\<lparr>pt_prepared_offers := dict_set transaction_id (sa_offer_digest a) (pt_prepared_offers p)\<rparr>))"

definition check_selection :: "hash \<Rightarrow> selection_env \<Rightarrow> selection_context \<Rightarrow> string \<Rightarrow> int \<Rightarrow> participant
    \<Rightarrow> py_error + selection_assignment" where
  "check_selection sha env context payload now_ms p =
     sum_then (selection_assignment_from_bytes sha payload) (\<lambda>a.
       let offer = sv_offer_lookup env (sa_offer_digest a);
           mismatches = binding_mismatches sha context payload a offer now_ms p
       in if mismatches \<noteq> []
          then Inl (ValueError (''DI Selection/Core context binding mismatch: '' @ py_join '','' mismatches))
          else if \<not> (case offer of None \<Rightarrow> False | Some x \<Rightarrow> offer_bound env a x now_ms)
          then Inl (ValueError ''DI Selection is not exactly ACK-offer bound'')
          else sum_then (check_reuse env a now_ms) (\<lambda>_. Inr a))"

definition participant_prepare :: "hash \<Rightarrow> selection_env \<Rightarrow> selection_context \<Rightarrow> string \<Rightarrow> int \<Rightarrow> participant
    \<Rightarrow> (string \<times> string, participant) outcome" where
  "participant_prepare sha env context payload now_ms p =
     (case check_selection sha env context payload now_ms p of
        Inl e \<Rightarrow> (Inl e, p)
      | Inr a \<Rightarrow>
          (case validate_transition (sa_offer_digest a) (sa_request_id a) (sa_attempt a) (sa_resource_sequence a)
                  (assignment_gpu_mib a) now_ms (pt_ledger p) of
             (Inl e, l) \<Rightarrow> (Inl e, p\<lparr>pt_ledger := l\<rparr>)
           | (Inr n, l) \<Rightarrow> write_blob sha a (cx_transaction_id context) now_ms n (p\<lparr>pt_ledger := l\<rparr>)))"

section \<open>Start\<close>

definition maybe_start :: "selection_callbacks \<Rightarrow> string \<times> string \<Rightarrow> participant \<Rightarrow> (unit, participant) outcome" where
  "maybe_start cb key p =
     (case dict_get (pt_gates p) key of
        None \<Rightarrow> (Inl KeyError, p)
      | Some g \<Rightarrow>
          if rg_selected g \<and> rg_local_ready g \<and> input_ready g \<and> \<not> rg_started g \<and> \<not> rg_failed g
          then callback (StartRole (fst key) (snd key)) (sl_start_role cb (snd key))
            (p\<lparr>pt_gates := dict_set key (g\<lparr>rg_started := True\<rparr>) (pt_gates p)\<rparr>)
          else (Inr (), p))"

definition mark_input_ready :: "selection_callbacks \<Rightarrow> string \<Rightarrow> string option \<Rightarrow> participant \<Rightarrow> (unit, participant) outcome" where
  "mark_input_ready cb role transaction_id p =
     (case filter (\<lambda>key. snd key = role \<and> (transaction_id = None \<or> transaction_id = Some (fst key)))
            (dict_keys (pt_gates p)) of
        [key] \<Rightarrow>
          (case dict_get (pt_gates p) key of
             None \<Rightarrow> (Inl KeyError, p)
           | Some g \<Rightarrow>
               if rg_required_input_scopes g \<noteq> {}
               then (Inl (RuntimeError ''downstream role requires bound predecessor input evidence''), p)
               else maybe_start cb key p)
      | _ \<Rightarrow> (Inl (ValueError ''role input readiness is ambiguous or unknown''), p))"

definition transaction_for_assignment :: "hash \<Rightarrow> string \<Rightarrow> participant \<Rightarrow> py_error + string" where
  "transaction_for_assignment sha payload p =
     sum_then (selection_assignment_from_bytes sha payload) (\<lambda>a.
       let digest = selection_assignment_digest sha a;
           transaction_id = (case dict_get (pt_assignment_transactions p) digest of None \<Rightarrow> [] | Some t \<Rightarrow> t)
       in if transaction_id = []
          then if digest \<in> pt_completed_assignments p then Inr []
            else Inl (ValueError ''DI assignment is not committed on this Provider'')
          else if dict_get (pt_assignments p) transaction_id \<noteq> Some a
          then Inl (ValueError ''DI assignment transaction binding mismatch'')
          else Inr transaction_id)"

definition admit_input :: "selection_callbacks \<Rightarrow> string \<times> string \<Rightarrow> string \<Rightarrow> participant \<Rightarrow> (bool, participant) outcome" where
  "admit_input cb key scope p =
     (case dict_get (pt_gates p) key of
        None \<Rightarrow> (Inl (ValueError ''DI predecessor role is not committed''), p)
      | Some g \<Rightarrow>
          if scope \<in> rg_ready_input_scopes g then (Inr False, p)
          else and_then (maybe_start cb key (logged (InputReady (fst key) (snd key) scope)
              (p\<lparr>pt_gates := dict_set key (g\<lparr>rg_ready_input_scopes := insert scope (rg_ready_input_scopes g)\<rparr>) (pt_gates p)\<rparr>)))
            (\<lambda>_ q. (Inr True, q)))"

definition mark_dependency_input_ready :: "hash \<Rightarrow> selection_callbacks \<Rightarrow> string \<Rightarrow> string \<Rightarrow> string \<Rightarrow> participant
    \<Rightarrow> (bool, participant) outcome" where
  "mark_dependency_input_ready sha cb payload role scope p =
     (case selection_assignment_from_bytes sha payload of
        Inl e \<Rightarrow> (Inl e, p)
      | Inr a \<Rightarrow>
          (case transaction_for_assignment sha payload p of
             Inl e \<Rightarrow> (Inl e, p)
           | Inr transaction_id \<Rightarrow>
               if transaction_id = []
               then (Inl (ValueError ''DI assignment is not committed on this Provider''), p)
               else (case find (\<lambda>r. ro_role r = role) (sa_roles a) of
                 None \<Rightarrow> (Inl (ValueError ''DI predecessor role is not selected''), p)
               | Some r \<Rightarrow>
                   if scope \<notin> set (ro_required_input_scopes r)
                   then (Inl (ValueError ''DI predecessor scope is not plan-bound''), p)
                   else admit_input cb (transaction_id, role) scope p)))"

section \<open>Commit\<close>

definition key_str :: "(string, json) dict \<Rightarrow> string \<Rightarrow> py_error + string" where
  "key_str d k = (case dict_get d k of Some (JStr s) \<Rightarrow> Inr s | _ \<Rightarrow> Inl KeyError)"

definition key_int :: "(string, json) dict \<Rightarrow> string \<Rightarrow> py_error + int" where
  "key_int d k = (case dict_get d k of Some (JInt i) \<Rightarrow> Inr i | _ \<Rightarrow> Inl KeyError)"

definition read_transition :: "(string, json) dict \<Rightarrow> py_error + transition" where
  "read_transition d =
     sum_then (key_str d ''offer_digest'') (\<lambda>offer_digest.
     sum_then (key_str d ''provider'') (\<lambda>provider.
     sum_then (key_str d ''provider_boot_epoch'') (\<lambda>boot_epoch.
     sum_then (key_str d ''request_id'') (\<lambda>request_id.
     sum_then (key_int d ''attempt'') (\<lambda>attempt.
     sum_then (key_int d ''resource_sequence'') (\<lambda>resource_sequence.
     sum_then (key_int d ''gpu_mib'') (\<lambda>gpu_mib.
     sum_then (key_int d ''expires_at_ms'') (\<lambda>expires_at_ms.
     sum_then (key_int d ''committed_gpu_mib'') (\<lambda>committed_gpu_mib.
       Inr \<lparr>ho_offer_digest = offer_digest, ho_provider = provider, ho_provider_boot_epoch = boot_epoch,
         ho_request_id = request_id, ho_attempt = attempt, ho_resource_sequence = resource_sequence,
         ho_gpu_mib = gpu_mib, ho_expires_at_ms = expires_at_ms, tn_committed_gpu_mib = committed_gpu_mib\<rparr>)))))))))"

definition b64_field :: "(string, json) dict \<Rightarrow> string \<Rightarrow> py_error + string" where
  "b64_field d k = (case dict_get d k of
     None \<Rightarrow> Inl KeyError
   | Some (JStr s) \<Rightarrow> (case b64decode s of None \<Rightarrow> Inl (ValueError ''binascii.Error'') | Some w \<Rightarrow> Inr w)
   | Some _ \<Rightarrow> Inl (TypeError ''argument should be a bytes-like object or ASCII string''))"

definition read_blob :: "commit_view \<Rightarrow> py_error + (string, json) dict" where
  "read_blob view =
     (case wire_loads (vw_commit_blob view) of
        None \<Rightarrow> Inl (ValueError ''malformed DI commit blob'')
      | Some blob \<Rightarrow>
          if vw_commit_blob view \<noteq> json_dumps blob
          then Inl (ValueError ''DI commit blob identity/canonical form mismatch'')
          else (case blob of
            JObj d \<Rightarrow>
              if dict_get d ''schema'' \<noteq> Some (JStr ''ndnsf-di-selection-commit-blob-v2'')
                 \<or> dict_get d ''participant_id'' \<noteq> Some (JStr ''ndnsf-di-v2'')
                 \<or> \<not> (case dict_get d ''participant_version'' of None \<Rightarrow> False | Some v \<Rightarrow> py_eq_int v 2)
                 \<or> dict_get d ''transaction_id'' \<noteq> Some (JStr (vw_transaction_id view))
              then Inl (ValueError ''DI commit blob identity/canonical form mismatch'')
              else Inr d
          | _ \<Rightarrow> Inl (AttributeError ''get'')))"

definition read_committed :: "hash \<Rightarrow> commit_view \<Rightarrow> py_error + selection_assignment \<times> (string, json) dict" where
  "read_committed sha view =
     sum_then (read_blob view) (\<lambda>d.
     sum_then (b64_field d ''assignment'') (\<lambda>assignment_wire.
     sum_then (selection_assignment_from_bytes sha assignment_wire) (\<lambda>a.
     sum_then (b64_field d ''acceptance'') (\<lambda>acceptance_wire.
     sum_then (selection_acceptance_from_bytes acceptance_wire) (\<lambda>c.
     sum_then (validate_assignment sha a (vw_transaction_id view) c) (\<lambda>_.
       case (dict_get d ''assignment_digest'', dict_get d ''acceptance_digest'') of
         (None, _) \<Rightarrow> Inl KeyError
       | (Some v, w) \<Rightarrow>
           if v \<noteq> JStr (selection_assignment_digest sha a)
           then Inl (ValueError ''DI committed assignment/acceptance mismatch'')
           else (case w of
             None \<Rightarrow> Inl KeyError
           | Some w \<Rightarrow>
               if w \<noteq> JStr (selection_acceptance_digest sha c) \<or> vw_acceptance_payload view \<noteq> acceptance_wire
               then Inl (ValueError ''DI committed assignment/acceptance mismatch'')
               else Inr (a, d))))))))"

definition fresh_gate :: "role_assignment \<Rightarrow> role_gate" where
  "fresh_gate r = \<lparr>rg_selected = True, rg_local_ready = False, rg_required_input_scopes = set (ro_required_input_scopes r),
     rg_ready_input_scopes = {}, rg_started = False, rg_failed = False\<rparr>"

definition submit_role :: "string \<Rightarrow> selection_assignment \<Rightarrow> role_assignment \<Rightarrow> participant \<Rightarrow> participant" where
  "submit_role transaction_id a r p =
     logged (Submitted (prep_context_of transaction_id a r))
       (p\<lparr>pt_gates := dict_set (transaction_id, ro_role r) (fresh_gate r) (pt_gates p),
          pt_futures := pt_futures p @ [prep_context_of transaction_id a r]\<rparr>)"

definition project_commit :: "hash \<Rightarrow> string \<Rightarrow> selection_assignment \<Rightarrow> (string, json) dict \<Rightarrow> participant
    \<Rightarrow> (unit, participant) outcome" where
  "project_commit sha transaction_id a d p =
     (case dict_get (pt_assignments p) transaction_id of
        Some existing \<Rightarrow>
          if existing \<noteq> a then (Inl (ValueError ''conflicting DI committed projection''), p) else (Inr (), p)
      | None \<Rightarrow>
          (case sum_then (case dict_get d ''transition'' of Some (JObj n) \<Rightarrow> Inr n | _ \<Rightarrow> Inl KeyError) read_transition of
             Inl e \<Rightarrow> (Inl e, p)
           | Inr n \<Rightarrow>
               (case ledger_commit transaction_id n (pt_ledger p) of
                  (Inl e, l) \<Rightarrow> (Inl e, p\<lparr>pt_ledger := l\<rparr>)
                | (Inr _, l) \<Rightarrow> (Inr (), fold (submit_role transaction_id a) (sa_roles a)
                    (p\<lparr>pt_ledger := l, pt_assignments := dict_set transaction_id a (pt_assignments p),
                       pt_assignment_transactions := dict_set (selection_assignment_digest sha a) transaction_id
                         (pt_assignment_transactions p),
                       pt_terminal_roles := dict_set transaction_id {} (pt_terminal_roles p)\<rparr>)))))"

definition on_committed :: "hash \<Rightarrow> commit_view \<Rightarrow> participant \<Rightarrow> (unit, participant) outcome" where
  "on_committed sha view p =
     (case read_committed sha view of
        Inl e \<Rightarrow> (Inl e, p)
      | Inr (a, d) \<Rightarrow> project_commit sha (vw_transaction_id view) a d p)"

section \<open>Completion\<close>

fun release_roles :: "selection_callbacks \<Rightarrow> string \<Rightarrow> selection_assignment \<Rightarrow> string \<Rightarrow> role_assignment list \<Rightarrow> participant
    \<Rightarrow> (unit, participant) outcome" where
  "release_roles cb transaction_id a reason [] p = (Inr (), p)"
| "release_roles cb transaction_id a reason (r # roles) p =
     and_then (callback (ReleaseAssignment (prep_context_of transaction_id a r) reason)
         (sl_release_assignment cb (prep_context_of transaction_id a r) reason)
         (p\<lparr>pt_gates := dict_pop (transaction_id, ro_role r) (pt_gates p)\<rparr>))
       (\<lambda>_ q. release_roles cb transaction_id a reason roles q)"

definition forget_transaction :: "string \<Rightarrow> string \<Rightarrow> participant \<Rightarrow> participant" where
  "forget_transaction transaction_id digest p = p\<lparr>pt_ledger := ledger_release_transaction transaction_id (pt_ledger p),
     pt_completed_assignments := insert digest (pt_completed_assignments p),
     pt_assignment_transactions := dict_pop digest (pt_assignment_transactions p),
     pt_assignments := dict_pop transaction_id (pt_assignments p),
     pt_terminal_roles := dict_pop transaction_id (pt_terminal_roles p),
     pt_prepared_offers := dict_pop transaction_id (pt_prepared_offers p)\<rparr>"

definition complete_transaction :: "selection_callbacks \<Rightarrow> string \<Rightarrow> selection_assignment \<Rightarrow> string \<Rightarrow> string \<Rightarrow> participant
    \<Rightarrow> (unit, participant) outcome" where
  "complete_transaction cb transaction_id a digest reason p =
     release_roles cb transaction_id a reason (sa_roles a) (forget_transaction transaction_id digest p)"

definition release_failed_transaction :: "hash \<Rightarrow> selection_callbacks \<Rightarrow> string \<Rightarrow> string \<Rightarrow> participant
    \<Rightarrow> (unit, participant) outcome" where
  "release_failed_transaction sha cb transaction_id reason p =
     (case dict_get (pt_assignments p) transaction_id of
        None \<Rightarrow> (Inr (), p)
      | Some a \<Rightarrow>
          if selection_assignment_digest sha a \<in> pt_completed_assignments p then (Inr (), p)
          else complete_transaction cb transaction_id a (selection_assignment_digest sha a) reason p)"

definition mark_role_terminal :: "hash \<Rightarrow> selection_callbacks \<Rightarrow> string \<Rightarrow> string \<Rightarrow> string \<Rightarrow> participant
    \<Rightarrow> (bool, participant) outcome" where
  "mark_role_terminal sha cb payload role reason p =
     (case selection_assignment_from_bytes sha payload of
        Inl e \<Rightarrow> (Inl e, p)
      | Inr a \<Rightarrow>
          (let digest = selection_assignment_digest sha a;
               transaction_id = (case dict_get (pt_assignment_transactions p) digest of None \<Rightarrow> [] | Some t \<Rightarrow> t)
           in if digest \<in> pt_completed_assignments p then (Inr False, p)
              else if transaction_id = [] \<or> dict_get (pt_assignments p) transaction_id \<noteq> Some a
              then (Inl (ValueError ''DI terminal role is not assignment-bound''), p)
              else if role \<notin> ro_role ` set (sa_roles a)
              then (Inl (ValueError ''DI terminal role is outside the assignment''), p)
              else let terminal = insert role (case dict_get (pt_terminal_roles p) transaction_id of None \<Rightarrow> {} | Some s \<Rightarrow> s);
                       q = p\<lparr>pt_terminal_roles := dict_set transaction_id terminal (pt_terminal_roles p)\<rparr>
                   in if terminal \<noteq> ro_role ` set (sa_roles a) then (Inr False, q)
                      else and_then (complete_transaction cb transaction_id a digest reason q) (\<lambda>_ t. (Inr True, t))))"

definition on_aborted :: "hash \<Rightarrow> selection_callbacks \<Rightarrow> string \<Rightarrow> string \<Rightarrow> participant \<Rightarrow> (unit, participant) outcome" where
  "on_aborted sha cb transaction_id reason p =
     (let offer_digest = dict_get (pt_prepared_offers p) transaction_id;
          q = p\<lparr>pt_prepared_offers := dict_pop transaction_id (pt_prepared_offers p)\<rparr>
      in and_then
        (case dict_get (pt_assignments q) transaction_id of
           None \<Rightarrow> (Inr (), q)
         | Some a \<Rightarrow> complete_transaction cb transaction_id a (selection_assignment_digest sha a) reason q)
        (\<lambda>_ t. (Inr (), case offer_digest of
           None \<Rightarrow> t
         | Some x \<Rightarrow> if x = [] then t else t\<lparr>pt_ledger := ledger_release_offer x (pt_ledger t)\<rparr>)))"

section \<open>Preparation\<close>

definition prepare_returned :: "selection_callbacks \<Rightarrow> prep_context \<Rightarrow> participant \<Rightarrow> (unit, participant) outcome" where
  "prepare_returned cb c p =
     (case dict_get (pt_gates p) (gate_key c) of
        None \<Rightarrow> (Inl KeyError, p)
      | Some g \<Rightarrow> maybe_start cb (gate_key c)
          (p\<lparr>pt_gates := dict_set (gate_key c) (g\<lparr>rg_local_ready := True\<rparr>) (pt_gates p)\<rparr>))"

definition prepare_failed :: "prep_context \<Rightarrow> participant \<Rightarrow> (unit, participant) outcome" where
  "prepare_failed c p =
     (case dict_get (pt_gates p) (gate_key c) of
        None \<Rightarrow> (Inl KeyError, p)
      | Some g \<Rightarrow> (Inr (), p\<lparr>pt_gates := dict_set (gate_key c) (g\<lparr>rg_failed := True\<rparr>) (pt_gates p)\<rparr>))"

definition prepare_role :: "hash \<Rightarrow> selection_callbacks \<Rightarrow> prep_context \<Rightarrow> participant \<Rightarrow> (unit, participant) outcome" where
  "prepare_role sha cb c p =
     (case sl_prepare_role cb c of
        None \<Rightarrow> prepare_returned cb c (logged (Prepared c) p)
      | Some e \<Rightarrow>
          and_then (prepare_failed c p) (\<lambda>_ p.
          and_then (callback (ReleaseRole (ro_role (pc_role c)) ''PREPARATION_FAILED'')
            (sl_release_role cb (ro_role (pc_role c)) ''PREPARATION_FAILED'') p) (\<lambda>_ p.
          and_then (release_failed_transaction sha cb (pc_transaction_id c) ''PREPARATION_FAILED'' p) (\<lambda>_ p.
            (Inl e, p)))))"

definition participant_roles :: "string option \<Rightarrow> participant \<Rightarrow> string list" where
  "participant_roles transaction_id p = sort (remdups (map snd
     (filter (\<lambda>key. transaction_id = None \<or> transaction_id = Some (fst key)) (dict_keys (pt_gates p)))))"

section \<open>Steps\<close>

text \<open>
  The atomic sections of the participant, in any order: a preparation that returns or raises is a
  step of its own, and so are the release callback and the release of the transaction that follow a
  failure. The GPU ledger also takes offers between them.
\<close>

inductive participant_step :: "hash \<Rightarrow> participant \<Rightarrow> participant \<Rightarrow> bool" for sha where
  offer: "hold_offer x now_ms (pt_ledger p) = (r, l) \<Longrightarrow> participant_step sha p (p\<lparr>pt_ledger := l\<rparr>)"
| prepare: "participant_prepare sha env context payload now_ms p = (r, q) \<Longrightarrow> participant_step sha p q"
| committed: "on_committed sha view p = (r, q) \<Longrightarrow> participant_step sha p q"
| prepared: "c \<in> set (pt_futures p) \<Longrightarrow>
    prepare_returned cb c (logged (Prepared c) (p\<lparr>pt_futures := remove1 c (pt_futures p)\<rparr>)) = (r, q) \<Longrightarrow>
    participant_step sha p q"
| failed: "c \<in> set (pt_futures p) \<Longrightarrow> prepare_failed c (p\<lparr>pt_futures := remove1 c (pt_futures p)\<rparr>) = (r, q) \<Longrightarrow>
    participant_step sha p q"
| release_role: "participant_step sha p (logged (ReleaseRole role reason) p)"
| release_failed: "release_failed_transaction sha cb transaction_id reason p = (r, q) \<Longrightarrow> participant_step sha p q"
| input: "mark_input_ready cb role transaction_id p = (r, q) \<Longrightarrow> participant_step sha p q"
| dependency: "mark_dependency_input_ready sha cb payload role scope p = (r', q) \<Longrightarrow> participant_step sha p q"
| terminal: "mark_role_terminal sha cb payload role reason p = (r', q) \<Longrightarrow> participant_step sha p q"
| aborted: "on_aborted sha cb transaction_id reason p = (r, q) \<Longrightarrow> participant_step sha p q"

definition participant_start :: "participant \<Rightarrow> bool" where
  "participant_start p \<longleftrightarrow> (\<exists>provider boot_epoch l. ledger_start l \<and> participant_init provider boot_epoch l = Inr p)"

lemma prepare_role_steps:
  assumes "c \<in> set (pt_futures p)"
    and "prepare_role sha cb c (p\<lparr>pt_futures := remove1 c (pt_futures p)\<rparr>) = (r, q)"
  shows "(participant_step sha)\<^sup>*\<^sup>* p q"
proof (cases "sl_prepare_role cb c")
  case None
  with assms have "participant_step sha p q" by (auto simp: prepare_role_def intro: participant_step.prepared)
  then show ?thesis by blast
next
  case (Some e)
  let ?p = "p\<lparr>pt_futures := remove1 c (pt_futures p)\<rparr>"
  let ?role = "ro_role (pc_role c)"
  let ?l = "logged (ReleaseRole ?role ''PREPARATION_FAILED'') (snd (prepare_failed c ?p))"
  have 1: "participant_step sha p (snd (prepare_failed c ?p))"
    using assms(1) by (rule participant_step.failed) (rule prod.collapse [symmetric])
  have 2: "participant_step sha (snd (prepare_failed c ?p)) ?l" by (rule participant_step.release_role)
  have 3: "participant_step sha ?l (snd (release_failed_transaction sha cb (pc_transaction_id c) ''PREPARATION_FAILED'' ?l))"
    by (rule participant_step.release_failed) (rule prod.collapse [symmetric])
  have "q \<in> {snd (prepare_failed c ?p), ?l, snd (release_failed_transaction sha cb (pc_transaction_id c) ''PREPARATION_FAILED'' ?l)}"
    using assms(2) Some
    by (auto simp: prepare_role_def callback_def and_then_def split: prod.splits sum.splits option.splits)
  with 1 2 3 show ?thesis by (auto intro: rtranclp.rtrancl_into_rtrancl)
qed

section \<open>When a role starts\<close>

definition submissions :: "string \<times> string \<Rightarrow> selection_call list \<Rightarrow> nat" where
  "submissions key calls = length (filter (\<lambda>c. case c of Submitted x \<Rightarrow> gate_key x = key | _ \<Rightarrow> False) calls)"

definition starts :: "string \<times> string \<Rightarrow> selection_call list \<Rightarrow> nat" where
  "starts key calls = count_list calls (StartRole (fst key) (snd key))"

definition may_start :: "string \<times> string \<Rightarrow> selection_call list \<Rightarrow> bool" where
  "may_start key calls \<longleftrightarrow> (\<exists>c d. Submitted c \<in> set calls \<and> Prepared d \<in> set calls \<and> gate_key c = key \<and> gate_key d = key
     \<and> (\<forall>s \<in> set (ro_required_input_scopes (pc_role c)). InputReady (fst key) (snd key) s \<in> set calls))"

definition ordered_starts :: "selection_call list \<Rightarrow> bool" where
  "ordered_starts calls \<longleftrightarrow> (\<forall>pre t r post. calls = pre @ StartRole t r # post \<longrightarrow> may_start (t, r) pre)"

definition gate_ok :: "selection_call list \<Rightarrow> string \<times> string \<Rightarrow> role_gate \<Rightarrow> bool" where
  "gate_ok calls key g \<longleftrightarrow>
     (rg_local_ready g \<longrightarrow> (\<exists>d. Prepared d \<in> set calls \<and> gate_key d = key))
     \<and> (\<exists>c. Submitted c \<in> set calls \<and> gate_key c = key \<and> set (ro_required_input_scopes (pc_role c)) = rg_required_input_scopes g)
     \<and> (\<forall>s \<in> rg_ready_input_scopes g. InputReady (fst key) (snd key) s \<in> set calls)
     \<and> starts key calls + (if rg_started g then 0 else 1) \<le> submissions key calls"

definition gates_inv :: "participant \<Rightarrow> bool" where
  "gates_inv p \<longleftrightarrow> dict_ok (pt_gates p) \<and> dict_all (gate_ok (pt_calls p)) (pt_gates p)
     \<and> (\<forall>key. starts key (pt_calls p) \<le> submissions key (pt_calls p)) \<and> ordered_starts (pt_calls p)"

lemma starts_snoc [simp]: "starts key (calls @ [c]) = starts key calls + (if c = StartRole (fst key) (snd key) then 1 else 0)"
  by (simp add: starts_def)

lemma submissions_snoc [simp]:
  "submissions key (calls @ [c]) = submissions key calls + (case c of Submitted x \<Rightarrow> if gate_key x = key then 1 else 0 | _ \<Rightarrow> 0)"
  by (simp add: submissions_def split: selection_call.split)

lemma ordered_snoc:
  assumes "ordered_starts calls" and "\<And>t r. c = StartRole t r \<Longrightarrow> may_start (t, r) calls"
  shows "ordered_starts (calls @ [c])"
  unfolding ordered_starts_def
proof (intro allI impI)
  fix pre t r post
  assume split: "calls @ [c] = pre @ StartRole t r # post"
  show "may_start (t, r) pre"
  proof (cases post rule: rev_cases)
    case Nil
    with split assms(2) show ?thesis by simp
  next
    case (snoc rest x)
    then have "calls = pre @ StartRole t r # rest" using split by simp
    with assms(1) show ?thesis by (auto simp: ordered_starts_def)
  qed
qed

lemma gate_ok_later:
  "gate_ok calls key g \<Longrightarrow> c \<noteq> StartRole (fst key) (snd key) \<Longrightarrow> gate_ok (calls @ [c]) key g"
  unfolding gate_ok_def by (auto split: selection_call.split)

lemma counted: "gates_inv p \<Longrightarrow> starts key (pt_calls p) \<le> submissions key (pt_calls p)"
  unfolding gates_inv_def by blast

lemma unstarted: "gate_ok calls key g \<Longrightarrow> \<not> rg_started g \<Longrightarrow> starts key calls < submissions key calls"
  by (simp add: gate_ok_def)

text \<open>The five ways the gates and the trace change.\<close>

lemma logged_gates:
  assumes "gates_inv p" and "\<And>t r. c \<noteq> StartRole t r"
  shows "gates_inv (logged c p)"
proof -
  have "starts key (pt_calls p @ [c]) \<le> submissions key (pt_calls p @ [c])" for key
    using counted [OF assms(1), of key] assms(2) by (simp add: trans_le_add1)
  moreover have "ordered_starts (pt_calls p @ [c])"
  proof (rule ordered_snoc)
    show "ordered_starts (pt_calls p)" using assms(1) by (simp add: gates_inv_def)
    show "may_start (t, r) (pt_calls p)" if "c = StartRole t r" for t r
      using assms(2) [of t r] that by simp
  qed
  moreover have "dict_all (gate_ok (pt_calls p @ [c])) (pt_gates p)"
    using assms by (auto simp: gates_inv_def intro: dict_all_mono gate_ok_later)
  ultimately show ?thesis using assms(1) by (simp add: gates_inv_def logged_def)
qed

lemma set_gates: "gates_inv p \<Longrightarrow> gate_ok (pt_calls p) key g \<Longrightarrow> gates_inv (p\<lparr>pt_gates := dict_set key g (pt_gates p)\<rparr>)"
  by (simp add: gates_inv_def)

lemma pop_gates: "gates_inv p \<Longrightarrow> gates_inv (p\<lparr>pt_gates := dict_pop key (pt_gates p)\<rparr>)"
  by (simp add: gates_inv_def)

lemma gate_at: "gates_inv p \<Longrightarrow> dict_get (pt_gates p) key = Some g \<Longrightarrow> gate_ok (pt_calls p) key g"
  by (auto simp: gates_inv_def dest: dict_allD)

lemma start_gates:
  assumes inv: "gates_inv p" and g: "dict_get (pt_gates p) key = Some g"
    and ready: "rg_local_ready g" "input_ready g" "\<not> rg_started g"
  shows "gates_inv (logged (StartRole (fst key) (snd key)) (p\<lparr>pt_gates := dict_set key (g\<lparr>rg_started := True\<rparr>) (pt_gates p)\<rparr>))"
proof -
  let ?c = "StartRole (fst key) (snd key)"
  have ok: "gate_ok (pt_calls p) key g" using inv g by (rule gate_at)
  then have started: "gate_ok (pt_calls p @ [?c]) key (g\<lparr>rg_started := True\<rparr>)"
    using ready by (auto simp: gate_ok_def)
  have others: "gate_ok (pt_calls p @ [?c]) k v" if "dict_get (pt_gates p) k = Some v" "k \<noteq> key" for k v
    using gate_at [OF inv that(1)] that(2) by (intro gate_ok_later) (auto simp: prod_eq_iff)
  have "dict_all (gate_ok (pt_calls p @ [?c])) (dict_set key (g\<lparr>rg_started := True\<rparr>) (pt_gates p))"
    using started others by (auto simp: dict_all_def dict_simps)
  moreover have "starts k (pt_calls p @ [?c]) \<le> submissions k (pt_calls p @ [?c])" for k
    using counted [OF inv, of k] unstarted [OF ok ready(3)] by (auto simp: prod_eq_iff [symmetric])
  moreover have "may_start key (pt_calls p)"
    using ok ready unfolding gate_ok_def may_start_def input_ready_def by blast
  then have "ordered_starts (pt_calls p @ [?c])"
    using inv by (intro ordered_snoc) (auto simp: gates_inv_def)
  ultimately show ?thesis using inv by (simp add: gates_inv_def logged_def)
qed

lemma maybe_start_gates:
  assumes "gates_inv p"
  shows "gates_inv (snd (maybe_start cb key p))"
  using assms start_gates [OF assms, of key] by (auto simp: maybe_start_def callback_def split: option.split)

lemma submit_gates:
  assumes "gates_inv p"
  shows "gates_inv (submit_role t a r p)"
proof -
  let ?c = "prep_context_of t a r"
  have key: "gate_key ?c = (t, ro_role r)" "pc_role ?c = r" by (simp_all add: gate_key_def prep_context_of_def)
  have "gates_inv (logged (Submitted ?c) p)" using assms by (rule logged_gates) simp
  moreover have "gate_ok (pt_calls (logged (Submitted ?c) p)) (t, ro_role r) (fresh_gate r)"
    using counted [OF assms, of "(t, ro_role r)"] key by (auto simp: gate_ok_def fresh_gate_def logged_def)
  ultimately have "gates_inv ((logged (Submitted ?c) p)\<lparr>pt_gates := dict_set (t, ro_role r) (fresh_gate r) (pt_gates (logged (Submitted ?c) p))\<rparr>)"
    by (rule set_gates)
  then show ?thesis by (simp add: submit_role_def logged_def gates_inv_def)
qed

lemma submit_all_gates: "gates_inv p \<Longrightarrow> gates_inv (fold (submit_role t a) roles p)"
  by (induction roles arbitrary: p) (simp_all add: submit_gates)

lemma release_roles_gates: "gates_inv p \<Longrightarrow> gates_inv (snd (release_roles cb t a reason roles p))"
proof (induction roles arbitrary: p)
  case (Cons r roles)
  have "gates_inv (logged (ReleaseAssignment (prep_context_of t a r) reason) (p\<lparr>pt_gates := dict_pop (t, ro_role r) (pt_gates p)\<rparr>))"
    by (rule logged_gates [OF pop_gates [OF Cons.prems]]) simp
  with Cons.IH show ?case by (simp add: callback_def and_then_def split: option.split)
qed simp

lemma complete_gates: "gates_inv p \<Longrightarrow> gates_inv (snd (complete_transaction cb t a digest reason p))"
  unfolding complete_transaction_def
  by (rule release_roles_gates) (simp add: gates_inv_def forget_transaction_def)

lemma prepare_gates: "gates_inv p \<Longrightarrow> gates_inv (snd (participant_prepare sha env context payload now_ms p))"
  by (simp add: participant_prepare_def write_blob_def gates_inv_def split: sum.split prod.split)

lemma commit_gates: "gates_inv p \<Longrightarrow> gates_inv (snd (on_committed sha view p))"
  by (auto simp: on_committed_def project_commit_def intro!: submit_all_gates split: sum.split prod.split option.split)
     (simp_all add: gates_inv_def)

lemma returned_gates:
  assumes "gates_inv p" and "Prepared c \<in> set (pt_calls p)"
  shows "gates_inv (snd (prepare_returned cb c p))"
proof (cases "dict_get (pt_gates p) (gate_key c)")
  case (Some g)
  have "gate_ok (pt_calls p) (gate_key c) (g\<lparr>rg_local_ready := True\<rparr>)"
    using gate_at [OF assms(1) Some] assms(2) by (auto simp: gate_ok_def)
  from maybe_start_gates [OF set_gates [OF assms(1) this]] Some show ?thesis by (simp add: prepare_returned_def)
qed (simp add: prepare_returned_def assms(1))

lemma failed_gates:
  assumes "gates_inv p"
  shows "gates_inv (snd (prepare_failed c p))"
proof (cases "dict_get (pt_gates p) (gate_key c)")
  case (Some g)
  have "gate_ok (pt_calls p) (gate_key c) (g\<lparr>rg_failed := True\<rparr>)"
    using gate_at [OF assms(1) Some] by (simp add: gate_ok_def)
  from set_gates [OF assms(1) this] Some show ?thesis by (simp add: prepare_failed_def)
qed (simp add: prepare_failed_def assms)

lemma admit_gates:
  assumes "gates_inv p"
  shows "gates_inv (snd (admit_input cb key scope p))"
proof (cases "dict_get (pt_gates p) key")
  case (Some g)
  let ?c = "InputReady (fst key) (snd key) scope"
  let ?g = "g\<lparr>rg_ready_input_scopes := insert scope (rg_ready_input_scopes g)\<rparr>"
  have l: "gates_inv (logged ?c p)" using assms by (rule logged_gates) simp
  have "gate_ok (pt_calls (logged ?c p)) key ?g"
    using gate_at [OF assms Some] by (auto simp: gate_ok_def logged_def)
  from set_gates [OF l this] have "gates_inv (logged ?c (p\<lparr>pt_gates := dict_set key ?g (pt_gates p)\<rparr>))"
    by (simp add: logged_def gates_inv_def)
  from maybe_start_gates [OF this, of cb key] assms Some show ?thesis
    by (auto simp: admit_input_def and_then_def split: prod.splits sum.splits)
qed (simp add: admit_input_def assms)

lemma dependency_gates: "gates_inv p \<Longrightarrow> gates_inv (snd (mark_dependency_input_ready sha cb payload role scope p))"
  by (auto simp: mark_dependency_input_ready_def intro: admit_gates split: sum.split option.split)

lemma input_gates: "gates_inv p \<Longrightarrow> gates_inv (snd (mark_input_ready cb role t p))"
  by (auto simp: mark_input_ready_def intro: maybe_start_gates split: list.split option.split)

lemma snd_and_then_const: "snd (and_then m (\<lambda>x s. (f x, s))) = snd m"
  by (cases m, cases "fst m") (auto simp: and_then_def)

lemma terminal_gates: "gates_inv p \<Longrightarrow> gates_inv (snd (mark_role_terminal sha cb payload role reason p))"
  by (auto simp: mark_role_terminal_def Let_def snd_and_then_const intro!: complete_gates split: sum.split option.split)
     (simp_all add: gates_inv_def)

lemma release_failed_gates: "gates_inv p \<Longrightarrow> gates_inv (snd (release_failed_transaction sha cb t reason p))"
  by (auto simp: release_failed_transaction_def intro: complete_gates split: option.split)

lemma aborted_gates:
  assumes "gates_inv p"
  shows "gates_inv (snd (on_aborted sha cb t reason p))"
proof -
  let ?q = "p\<lparr>pt_prepared_offers := dict_pop t (pt_prepared_offers p)\<rparr>"
  have q: "gates_inv ?q" using assms by (simp add: gates_inv_def)
  show ?thesis
  proof (cases "dict_get (pt_assignments p) t")
    case None
    with q show ?thesis by (auto simp: on_aborted_def Let_def gates_inv_def split: option.split)
  next
    case (Some a)
    from complete_gates [OF q, of cb t a "selection_assignment_digest sha a" reason] Some show ?thesis
      by (auto simp: on_aborted_def Let_def and_then_def gates_inv_def split: prod.splits sum.splits option.split)
  qed
qed

section \<open>The committed memory belongs to live transactions\<close>

text \<open>Every offer the ledger holds is kept under its own digest.\<close>

definition held_inv :: "gpu_ledger \<Rightarrow> bool" where
  "held_inv l \<longleftrightarrow> dict_ok (gl_held l) \<and> dict_all held_ok (gl_held l)"

lemma held_inv_drop: "held_inv l \<Longrightarrow> held_inv (drop_expired now_ms l)"
  by (auto simp: held_inv_def drop_expired_def dict_ok_filter dict_all_filter split: option.split)

lemma held_inv_hold: "held_inv l \<Longrightarrow> held_inv (snd (hold_offer x now_ms l))"
  using held_inv_drop [of l "Some now_ms"]
  by (auto simp: hold_offer_def Let_def held_inv_def held_ok_def held_of_offer_def split: option.split)

lemma held_inv_validate: "held_inv l \<Longrightarrow> held_inv (snd (validate_transition d q n m k now_ms l))"
  using held_inv_drop [of l "Some now_ms"] by (simp add: validate_transition_def Let_def split: option.split)

lemma held_inv_release [simp]:
  "held_inv l \<Longrightarrow> held_inv (ledger_release_offer d l)" "held_inv l \<Longrightarrow> held_inv (ledger_release_transaction t l)"
  by (simp_all add: held_inv_def ledger_release_offer_def ledger_release_transaction_def)

lemma held_inv_commit: "ledger_commit t n l = (r, k) \<Longrightarrow> held_inv l \<Longrightarrow> held_inv k"
  by (auto simp: ledger_commit_def held_inv_def split: option.splits if_splits)

definition ledger_tied :: "participant \<Rightarrow> bool" where
  "ledger_tied p \<longleftrightarrow> held_inv (pt_ledger p) \<and> (\<forall>t. dict_has (gl_committed (pt_ledger p)) t \<longleftrightarrow> dict_has (pt_assignments p) t)"

lemma tied_none:
  assumes "ledger_tied p" and "dict_get (pt_assignments p) t = None"
  shows "dict_get (gl_committed (pt_ledger p)) t = None"
proof -
  have "dict_has (gl_committed (pt_ledger p)) t \<longleftrightarrow> dict_has (pt_assignments p) t" using assms(1) by (simp add: ledger_tied_def)
  with assms(2) show ?thesis by (simp add: dict_has_def)
qed

lemma hold_committed: "gl_committed (snd (hold_offer x now_ms l)) = gl_committed l"
  by (simp add: hold_offer_def Let_def drop_expired_def split: option.split)

lemma validate_committed: "gl_committed (snd (validate_transition d q n m k now_ms l)) = gl_committed l"
  by (simp add: validate_transition_def Let_def drop_expired_def split: option.split)

lemma maybe_start_keeps: "pt_ledger (snd (maybe_start cb key p)) = pt_ledger p \<and> pt_assignments (snd (maybe_start cb key p)) = pt_assignments p
    \<and> pt_completed_assignments (snd (maybe_start cb key p)) = pt_completed_assignments p"
  by (simp add: maybe_start_def callback_def logged_def split: option.split)

lemma submit_keeps:
  "pt_ledger (fold (submit_role t a) roles p) = pt_ledger p \<and> pt_assignments (fold (submit_role t a) roles p) = pt_assignments p
    \<and> pt_completed_assignments (fold (submit_role t a) roles p) = pt_completed_assignments p
    \<and> pt_assignment_transactions (fold (submit_role t a) roles p) = pt_assignment_transactions p"
  by (induction roles arbitrary: p) (simp_all add: submit_role_def logged_def)

lemma release_roles_keeps:
  "pt_ledger (snd (release_roles cb t a reason roles p)) = pt_ledger p
    \<and> pt_assignments (snd (release_roles cb t a reason roles p)) = pt_assignments p
    \<and> pt_completed_assignments (snd (release_roles cb t a reason roles p)) = pt_completed_assignments p"
  by (induction roles arbitrary: p) (simp_all add: callback_def logged_def and_then_def split: option.split)

lemma complete_result:
  "pt_ledger (snd (complete_transaction cb t a digest reason p)) = ledger_release_transaction t (pt_ledger p)
    \<and> pt_assignments (snd (complete_transaction cb t a digest reason p)) = dict_pop t (pt_assignments p)
    \<and> pt_completed_assignments (snd (complete_transaction cb t a digest reason p)) = insert digest (pt_completed_assignments p)"
  by (simp add: complete_transaction_def release_roles_keeps forget_transaction_def)

lemma complete_tied: "ledger_tied p \<Longrightarrow> ledger_tied (snd (complete_transaction cb t a digest reason p))"
  by (simp add: ledger_tied_def complete_result) (simp add: ledger_release_transaction_def)

lemma commit_result:
  "ledger_commit t n l = (Inr (), k) \<Longrightarrow> dict_has (gl_committed k) u \<longleftrightarrow> u = t \<or> dict_has (gl_committed l) u"
  by (auto simp: ledger_commit_def dict_has_def dict_simps split: option.splits if_splits)

lemma commit_refused: "ledger_commit t n l = (Inl e, k) \<Longrightarrow> k = l"
  by (auto simp: ledger_commit_def split: option.splits if_splits)

lemma project_cases:
  obtains (refused) e where "project_commit sha t a d p = (Inl e, p)"
  | (known) "dict_get (pt_assignments p) t = Some a" "project_commit sha t a d p = (Inr (), p)"
  | (projected) n l where "dict_get (pt_assignments p) t = None" "ledger_commit t n (pt_ledger p) = (Inr (), l)"
      "project_commit sha t a d p = (Inr (), fold (submit_role t a) (sa_roles a)
         (p\<lparr>pt_ledger := l, pt_assignments := dict_set t a (pt_assignments p),
            pt_assignment_transactions := dict_set (selection_assignment_digest sha a) t (pt_assignment_transactions p),
            pt_terminal_roles := dict_set t {} (pt_terminal_roles p)\<rparr>))"
proof (cases "dict_get (pt_assignments p) t")
  case (Some x)
  then show ?thesis using refused known by (cases "x = a") (simp_all add: project_commit_def)
next
  case None
  let ?n = "sum_then (case dict_get d ''transition'' of Some (JObj n) \<Rightarrow> Inr n | _ \<Rightarrow> Inl KeyError) read_transition"
  show ?thesis
  proof (cases ?n)
    case (Inl e)
    with None show ?thesis using refused by (simp add: project_commit_def)
  next
    case (Inr n)
    obtain r l where run: "ledger_commit t n (pt_ledger p) = (r, l)" by (cases "ledger_commit t n (pt_ledger p)")
    show ?thesis
    proof (cases r)
      case (Inl e)
      with None Inr run commit_refused [of t n "pt_ledger p" e l] show ?thesis using refused [of e]
        by (simp add: project_commit_def)
    next
      case (Inr u)
      with run have "ledger_commit t n (pt_ledger p) = (Inr (), l)" by simp
      with None \<open>?n = Inr n\<close> show ?thesis using projected [of n l] by (simp add: project_commit_def)
    qed
  qed
qed

lemma project_tied:
  assumes "ledger_tied p"
  shows "ledger_tied (snd (project_commit sha t a d p))"
proof (cases rule: project_cases [of sha t a d p])
  case (projected n l)
  have "held_inv l" using assms held_inv_commit [OF projected(2)] by (simp add: ledger_tied_def)
  with assms projected(3) commit_result [OF projected(2)] show ?thesis by (simp add: ledger_tied_def submit_keeps)
qed (simp_all add: assms)

lemma committed_tied: "ledger_tied p \<Longrightarrow> ledger_tied (snd (on_committed sha view p))"
  by (simp add: on_committed_def project_tied split: sum.split prod.split)

definition terminal_of :: "participant \<Rightarrow> string \<Rightarrow> string set" where
  "terminal_of p t = (case dict_get (pt_terminal_roles p) t of None \<Rightarrow> {} | Some s \<Rightarrow> s)"

lemma terminal_cases:
  obtains (same) r where "mark_role_terminal sha cb payload role reason p = (r, p)" "r \<noteq> Inr True"
  | (waiting) x where "mark_role_terminal sha cb payload role reason p = (Inr False, p\<lparr>pt_terminal_roles := x\<rparr>)"
  | (last) a t x where "selection_assignment_from_bytes sha payload = Inr a"
      "selection_assignment_digest sha a \<notin> pt_completed_assignments p" "dict_get (pt_assignments p) t = Some a"
      "insert role (terminal_of p t) = ro_role ` set (sa_roles a)"
      "mark_role_terminal sha cb payload role reason p =
         and_then (complete_transaction cb t a (selection_assignment_digest sha a) reason (p\<lparr>pt_terminal_roles := x\<rparr>))
           (\<lambda>_ q. (Inr True, q))"
proof (cases "selection_assignment_from_bytes sha payload")
  case (Inl e)
  then show ?thesis using same [of "Inl e"] by (simp add: mark_role_terminal_def)
next
  case (Inr a)
  let ?digest = "selection_assignment_digest sha a"
  let ?t = "case dict_get (pt_assignment_transactions p) ?digest of None \<Rightarrow> [] | Some t \<Rightarrow> t"
  let ?roles = "ro_role ` set (sa_roles a)"
  consider "?digest \<in> pt_completed_assignments p"
    | "?digest \<notin> pt_completed_assignments p" "?t = [] \<or> dict_get (pt_assignments p) ?t \<noteq> Some a"
    | "?digest \<notin> pt_completed_assignments p" "?t \<noteq> []" "dict_get (pt_assignments p) ?t = Some a" "role \<notin> ?roles"
    | "?digest \<notin> pt_completed_assignments p" "?t \<noteq> []" "dict_get (pt_assignments p) ?t = Some a" "role \<in> ?roles"
      "insert role (terminal_of p ?t) \<noteq> ?roles"
    | "?digest \<notin> pt_completed_assignments p" "?t \<noteq> []" "dict_get (pt_assignments p) ?t = Some a" "role \<in> ?roles"
      "insert role (terminal_of p ?t) = ?roles" by blast
  then show ?thesis
  proof cases
    case 1
    with Inr show ?thesis using same [of "Inr False"] by (simp add: mark_role_terminal_def Let_def)
  next
    case 2
    with Inr show ?thesis using same [of "Inl (ValueError ''DI terminal role is not assignment-bound'')"]
      by (simp add: mark_role_terminal_def Let_def)
  next
    case 3
    with Inr show ?thesis using same [of "Inl (ValueError ''DI terminal role is outside the assignment'')"]
      by (simp add: mark_role_terminal_def Let_def)
  next
    case 4
    with Inr show ?thesis using waiting [of "dict_set ?t (insert role (terminal_of p ?t)) (pt_terminal_roles p)"]
      by (simp add: mark_role_terminal_def Let_def terminal_of_def)
  next
    case 5
    with Inr show ?thesis using last [of a ?t "dict_set ?t (insert role (terminal_of p ?t)) (pt_terminal_roles p)"]
      by (simp add: mark_role_terminal_def Let_def terminal_of_def)
  qed
qed

lemma terminal_tied:
  assumes "ledger_tied p"
  shows "ledger_tied (snd (mark_role_terminal sha cb payload role reason p))"
proof (cases rule: terminal_cases [of sha cb payload role reason p])
  case (same r)
  with assms show ?thesis by simp
next
  case (waiting x)
  with assms show ?thesis by (simp add: ledger_tied_def)
next
  case (last a t x)
  have "ledger_tied (p\<lparr>pt_terminal_roles := x\<rparr>)" using assms by (simp add: ledger_tied_def)
  then show ?thesis unfolding last(5) snd_and_then_const by (rule complete_tied)
qed

lemma release_offer_tied: "ledger_tied p \<Longrightarrow> ledger_tied (p\<lparr>pt_ledger := ledger_release_offer x (pt_ledger p)\<rparr>)"
  by (simp add: ledger_tied_def) (simp add: ledger_release_offer_def)

definition aborted_transaction :: "hash \<Rightarrow> selection_callbacks \<Rightarrow> string \<Rightarrow> string \<Rightarrow> participant \<Rightarrow> participant" where
  "aborted_transaction sha cb t reason p =
     (let q = p\<lparr>pt_prepared_offers := dict_pop t (pt_prepared_offers p)\<rparr>
      in case dict_get (pt_assignments p) t of
        None \<Rightarrow> q
      | Some a \<Rightarrow> snd (complete_transaction cb t a (selection_assignment_digest sha a) reason q))"

lemma aborted_cases:
  obtains "snd (on_aborted sha cb t reason p) = aborted_transaction sha cb t reason p"
  | x where "snd (on_aborted sha cb t reason p) = (aborted_transaction sha cb t reason p)\<lparr>pt_ledger :=
      ledger_release_offer x (pt_ledger (aborted_transaction sha cb t reason p))\<rparr>"
  by (cases "dict_get (pt_assignments p) t"; cases "dict_get (pt_prepared_offers p) t")
    (fastforce simp: on_aborted_def aborted_transaction_def Let_def and_then_def split: prod.splits sum.splits if_splits)+

lemma aborted_tied:
  assumes "ledger_tied p"
  shows "ledger_tied (snd (on_aborted sha cb t reason p))"
proof -
  have "ledger_tied (p\<lparr>pt_prepared_offers := dict_pop t (pt_prepared_offers p)\<rparr>)" using assms by (simp add: ledger_tied_def)
  then have "ledger_tied (aborted_transaction sha cb t reason p)"
    by (simp add: aborted_transaction_def Let_def complete_tied split: option.split)
  then show ?thesis by (cases rule: aborted_cases [of sha cb t reason p]) (simp_all add: release_offer_tied)
qed

lemma prepare_tied:
  assumes "ledger_tied p"
  shows "ledger_tied (snd (participant_prepare sha env cx payload now_ms p))"
proof -
  have "ledger_tied (p\<lparr>pt_ledger := l\<rparr>)"
    if "validate_transition d q n m k now_ms (pt_ledger p) = (r, l)" for d q n m k r l
    using assms that validate_committed [of d q n m k now_ms "pt_ledger p"] held_inv_validate [of "pt_ledger p" d q n m k now_ms]
    by (simp add: ledger_tied_def)
  moreover have "ledger_tied (snd (write_blob sha a t now_ms n u))" if "ledger_tied u" for a t n u
    using that by (simp add: write_blob_def ledger_tied_def split: sum.split)
  ultimately show ?thesis using assms by (simp add: participant_prepare_def split: sum.split prod.split)
qed

definition participant_inv :: "participant \<Rightarrow> bool" where
  "participant_inv p \<longleftrightarrow> gates_inv p \<and> ledger_tied p"

text \<open>The operations on one gate leave the ledger, the assignments and the completed digests.\<close>

definition same_transactions :: "participant \<Rightarrow> participant \<Rightarrow> bool" where
  "same_transactions p q \<longleftrightarrow> pt_ledger q = pt_ledger p \<and> pt_assignments q = pt_assignments p
     \<and> pt_completed_assignments q = pt_completed_assignments p"

lemma same_tied: "same_transactions p q \<Longrightarrow> ledger_tied p \<Longrightarrow> ledger_tied q"
  by (simp add: same_transactions_def ledger_tied_def)

lemma gate_operations_same:
  "same_transactions p (snd (prepare_returned cb c p))"
  "same_transactions p (snd (prepare_failed c p))"
  "same_transactions p (snd (mark_input_ready cb role t p))"
  "same_transactions p (snd (admit_input cb key scope p))"
proof -
  show "same_transactions p (snd (prepare_returned cb c p))" "same_transactions p (snd (prepare_failed c p))"
    "same_transactions p (snd (mark_input_ready cb role t p))"
    by (simp_all add: same_transactions_def prepare_returned_def prepare_failed_def mark_input_ready_def maybe_start_keeps
        split: option.split list.split)
  show "same_transactions p (snd (admit_input cb key scope p))"
    by (simp add: same_transactions_def admit_input_def snd_and_then_const maybe_start_keeps logged_def split: option.split)
qed

lemma dependency_same: "same_transactions p (snd (mark_dependency_input_ready sha cb payload role scope p))"
  using gate_operations_same(4)
  by (simp add: mark_dependency_input_ready_def same_transactions_def split: sum.split option.split)

interpretation selection_participant: invariant_system participant_start "participant_step sha" participant_inv for sha
proof
  fix p q
  show "participant_inv p" if "participant_start p"
    using that by (auto simp: participant_start_def participant_init_def participant_inv_def gates_inv_def ledger_tied_def
        held_inv_def ledger_start_def gpu_ledger_init_def ordered_starts_def starts_def submissions_def dict_has_def
        split: if_splits)
  show "participant_inv q" if "participant_inv p" "participant_step sha p q"
    using that(2,1)
  proof (induction rule: participant_step.induct)
    case (offer x now_ms p r l)
    then have "gl_committed l = gl_committed (pt_ledger p)" using hold_committed [of x now_ms "pt_ledger p"] by simp
    moreover have "held_inv l" using offer held_inv_hold [of "pt_ledger p" x now_ms]
      by (simp add: participant_inv_def ledger_tied_def)
    ultimately show ?case using offer by (simp add: participant_inv_def gates_inv_def ledger_tied_def)
  next
    case (prepare env cx payload now_ms p r q)
    with prepare_tied [of p sha env cx payload now_ms] prepare_gates [of p sha env cx payload now_ms] show ?case by (simp add: participant_inv_def)
  next
    case (committed view p r q)
    then show ?case using commit_gates [of p sha view] committed_tied [of p sha view] by (simp add: participant_inv_def)
  next
    case (prepared c p cb r q)
    let ?p = "logged (Prepared c) (p\<lparr>pt_futures := remove1 c (pt_futures p)\<rparr>)"
    have "gates_inv (p\<lparr>pt_futures := remove1 c (pt_futures p)\<rparr>)" using prepared by (simp add: participant_inv_def gates_inv_def)
    then have "gates_inv ?p" by (rule logged_gates) simp
    then have "gates_inv (snd (prepare_returned cb c ?p))" by (rule returned_gates) (simp add: logged_def)
    moreover have "ledger_tied ?p" using prepared by (simp add: participant_inv_def ledger_tied_def logged_def)
    then have "ledger_tied (snd (prepare_returned cb c ?p))" by (rule same_tied [OF gate_operations_same(1)])
    ultimately show ?case using prepared(2) by (simp add: participant_inv_def)
  next
    case (failed c p r q)
    let ?p = "p\<lparr>pt_futures := remove1 c (pt_futures p)\<rparr>"
    have "participant_inv ?p" using failed by (simp add: participant_inv_def gates_inv_def ledger_tied_def)
    then show ?case using failed(2) failed_gates [of ?p c] same_tied [OF gate_operations_same(2), of ?p c]
      by (simp add: participant_inv_def)
  next
    case (release_role p role reason)
    then show ?case using logged_gates [of p "ReleaseRole role reason"]
      by (simp add: participant_inv_def ledger_tied_def logged_def)
  next
    case (release_failed cb t reason p r q)
    have "ledger_tied (snd (release_failed_transaction sha cb t reason p))" if "ledger_tied p"
      using that by (auto simp: release_failed_transaction_def intro: complete_tied split: option.split)
    with release_failed release_failed_gates [of p sha cb t reason] show ?case by (simp add: participant_inv_def)
  next
    case (input cb role t p r q)
    then show ?case using input_gates [of p cb role t] same_tied [OF gate_operations_same(3), of p cb role t]
      by (simp add: participant_inv_def)
  next
    case (dependency cb payload role scope p r q)
    then show ?case using dependency_gates [of p sha cb payload role scope] same_tied [OF dependency_same, of p sha cb payload role scope]
      by (simp add: participant_inv_def)
  next
    case (terminal cb payload role reason p r q)
    then show ?case using terminal_gates [of p sha cb payload role reason] terminal_tied [of p sha cb payload role reason]
      by (simp add: participant_inv_def)
  next
    case (aborted cb t reason p r q)
    then show ?case using aborted_gates [of p sha cb t reason] aborted_tied [of p sha cb t reason]
      by (simp add: participant_inv_def)
  qed
qed

text \<open>
  C12: When a selected role starts. In every run of the participant, with preparations finishing and
  inputs arriving in any order and callbacks that may raise, a role of a transaction is started at
  most as often as it was submitted by a commit, and each start comes after a commit that submitted
  the role, after a preparation of it returned, and after every input scope the committed role
  requires was admitted. The GPU ledger holds committed memory for exactly the live transactions.
\<close>

theorem role_start_guarded:
  assumes "reachable participant_start (participant_step sha) p"
  shows "starts (t, r) (pt_calls p) \<le> submissions (t, r) (pt_calls p)
    \<and> (\<forall>pre post. pt_calls p = pre @ StartRole t r # post \<longrightarrow> may_start (t, r) pre)
    \<and> (dict_has (gl_committed (pt_ledger p)) t \<longleftrightarrow> dict_has (pt_assignments p) t)"
  using selection_participant.reachable_inv [OF assms]
  by (auto simp: participant_inv_def gates_inv_def ordered_starts_def ledger_tied_def)

section \<open>The reservation is released once\<close>

lemma step_keeps_completed:
  assumes "participant_step sha p q" and "d \<in> pt_completed_assignments p"
  shows "d \<in> pt_completed_assignments q"
  using assms
proof (induction rule: participant_step.induct)
  case (prepare env cx payload now_ms p r q)
  have "pt_completed_assignments (snd (participant_prepare sha env cx payload now_ms p)) = pt_completed_assignments p"
    by (simp add: participant_prepare_def write_blob_def split: sum.split prod.split)
  with prepare show ?case by simp
next
  case (committed view p r q)
  have "pt_completed_assignments (snd (project_commit sha t a e p)) = pt_completed_assignments p" for t a e
    by (cases rule: project_cases [of sha t a e p]) (simp_all add: submit_keeps)
  then have "pt_completed_assignments (snd (on_committed sha view p)) = pt_completed_assignments p"
    by (simp add: on_committed_def split: sum.split prod.split)
  with committed show ?case by simp
next
  case (prepared c p cb r q)
  then show ?case using gate_operations_same(1) [of "logged (Prepared c) (p\<lparr>pt_futures := remove1 c (pt_futures p)\<rparr>)" cb c]
    by (simp add: same_transactions_def logged_def)
next
  case (failed c p r q)
  then show ?case using gate_operations_same(2) [of "p\<lparr>pt_futures := remove1 c (pt_futures p)\<rparr>" c]
    by (simp add: same_transactions_def)
next
  case (release_failed cb t reason p r q)
  have "d \<in> pt_completed_assignments (snd (release_failed_transaction sha cb t reason p))"
    using release_failed(2) by (simp add: release_failed_transaction_def complete_result split: option.split)
  with release_failed show ?case by simp
next
  case (input cb role t p r q)
  then show ?case using gate_operations_same(3) [of p cb role t] by (simp add: same_transactions_def)
next
  case (dependency cb payload role scope p r q)
  then show ?case using dependency_same [of p sha cb payload role scope] by (simp add: same_transactions_def)
next
  case (terminal cb payload role reason p r q)
  have "d \<in> pt_completed_assignments (snd (mark_role_terminal sha cb payload role reason p))"
  proof (cases rule: terminal_cases [of sha cb payload role reason p])
    case (last a t x)
    show ?thesis unfolding last(5) snd_and_then_const by (simp add: complete_result terminal(2))
  qed (simp_all add: terminal(2))
  with terminal show ?case by simp
next
  case (aborted cb t reason p r q)
  have "d \<in> pt_completed_assignments (aborted_transaction sha cb t reason p)"
    using aborted by (simp add: aborted_transaction_def Let_def complete_result split: option.split)
  then have "d \<in> pt_completed_assignments (snd (on_aborted sha cb t reason p))"
    by (cases rule: aborted_cases [of sha cb t reason p]) simp_all
  with aborted show ?case by simp
qed (simp_all add: logged_def)

lemma completed_terminal:
  "selection_assignment_from_bytes sha payload = Inr a \<Longrightarrow> selection_assignment_digest sha a \<in> pt_completed_assignments p \<Longrightarrow>
     mark_role_terminal sha cb payload role reason p = (Inr False, p)"
  by (simp add: mark_role_terminal_def Let_def)

text \<open>
  The completion of an assignment is a terminal outcome: it stays, and from then on no call for the
  assignment answers that it released the reservation.
\<close>

definition releases :: "hash \<Rightarrow> selection_assignment \<Rightarrow> participant \<Rightarrow> selection_callbacks \<times> string \<times> string \<times> string \<Rightarrow> bool" where
  "releases sha a p x \<longleftrightarrow> (case x of (cb, payload, role, reason) \<Rightarrow>
     selection_assignment_from_bytes sha payload = Inr a \<and> fst (mark_role_terminal sha cb payload role reason p) = Inr True)"

interpretation assignment_completion: terminal_fence "participant_step sha"
  "\<lambda>p. selection_assignment_digest sha a \<in> pt_completed_assignments p" False "releases sha a" for sha a
proof
  show "(selection_assignment_digest sha a \<in> pt_completed_assignments q) = (selection_assignment_digest sha a \<in> pt_completed_assignments p)"
    if "(selection_assignment_digest sha a \<in> pt_completed_assignments p) \<noteq> False" "participant_step sha p q" for p q
    using that step_keeps_completed [OF that(2)] by simp
  show "\<not> releases sha a p x" if "(selection_assignment_digest sha a \<in> pt_completed_assignments p) \<noteq> False" for p x
    using that by (auto simp: releases_def completed_terminal split: prod.splits)
qed

text \<open>
  C16: The GPU reservation of a transaction is released once. When \<open>mark_role_terminal\<close> answers true
  in a reachable state, the assignment was live and held committed memory, every one of its roles
  had been reported terminal, and afterwards its memory is released; and in no later state does any
  call for the same assignment answer true again.
\<close>

theorem reservation_released_once:
  assumes "reachable participant_start (participant_step sha) p"
    and run: "mark_role_terminal sha cb payload role reason p = (Inr True, q)"
    and later: "(participant_step sha)\<^sup>*\<^sup>* q u"
  shows "\<exists>a t. selection_assignment_from_bytes sha payload = Inr a \<and> dict_get (pt_assignments p) t = Some a
    \<and> insert role (terminal_of p t) = ro_role ` set (sa_roles a)
    \<and> dict_has (gl_committed (pt_ledger p)) t \<and> \<not> dict_has (gl_committed (pt_ledger q)) t
    \<and> fst (mark_role_terminal sha cb' payload role' reason' u) \<noteq> Inr True"
proof (cases rule: terminal_cases [of sha cb payload role reason p])
  case (last a t x)
  have tied: "ledger_tied p" using selection_participant.reachable_inv [OF assms(1)] by (simp add: participant_inv_def)
  have q: "q = snd (complete_transaction cb t a (selection_assignment_digest sha a) reason (p\<lparr>pt_terminal_roles := x\<rparr>))"
    using run unfolding last(5) by (auto dest: arg_cong [of _ _ snd] simp: snd_and_then_const)
  then have "selection_assignment_digest sha a \<in> pt_completed_assignments q" by (simp add: complete_result)
  then have "\<not> releases sha a u (cb', payload, role', reason')"
    using assignment_completion.terminal_rejects_forever [OF later, of a] by simp
  then have "fst (mark_role_terminal sha cb' payload role' reason' u) \<noteq> Inr True" by (simp add: releases_def last(1))
  moreover have "dict_has (gl_committed (pt_ledger p)) t" using tied last(3) by (simp add: ledger_tied_def) (simp add: dict_has_def)
  moreover have "\<not> dict_has (gl_committed (pt_ledger q)) t" by (simp add: q complete_result ledger_release_transaction_def)
  ultimately show ?thesis using last by blast
qed (use run in simp_all)

text \<open>
  A transaction that is committed again after its assignment was completed gets its memory back in
  the ledger, and neither a terminal report nor a failed preparation releases it.
\<close>

lemma recommit_never_released:
  assumes "read_committed sha view = Inr (a, d)" and "on_committed sha view p = (Inr (), q)"
    and "dict_get (pt_assignments p) (vw_transaction_id view) = None"
    and "selection_assignment_digest sha a \<in> pt_completed_assignments p"
    and "selection_assignment_from_bytes sha payload = Inr a"
  shows "dict_has (gl_committed (pt_ledger q)) (vw_transaction_id view)
    \<and> mark_role_terminal sha cb payload role reason q = (Inr False, q)
    \<and> release_failed_transaction sha cb (vw_transaction_id view) reason q = (Inr (), q)"
proof (cases rule: project_cases [of sha "vw_transaction_id view" a d p])
  case (projected n l)
  then have q: "q = fold (submit_role (vw_transaction_id view) a) (sa_roles a)
      (p\<lparr>pt_ledger := l, pt_assignments := dict_set (vw_transaction_id view) a (pt_assignments p),
         pt_assignment_transactions := dict_set (selection_assignment_digest sha a) (vw_transaction_id view) (pt_assignment_transactions p),
         pt_terminal_roles := dict_set (vw_transaction_id view) {} (pt_terminal_roles p)\<rparr>)"
    using assms(1,2) by (simp add: on_committed_def)
  then have "selection_assignment_digest sha a \<in> pt_completed_assignments q" using assms(4) by (simp add: submit_keeps)
  with completed_terminal [OF assms(5)] show ?thesis
    using commit_result [OF projected(2)] by (simp add: q submit_keeps release_failed_transaction_def dict_simps)
qed (use assms in \<open>simp_all add: on_committed_def\<close>)

text \<open>A sibling of a failed role, whose gate is gone, raises when its own preparation returns.\<close>

lemma sibling_preparation_raises:
  "dict_get (pt_gates p) (gate_key c) = None \<Longrightarrow> sl_prepare_role cb c = None \<Longrightarrow> prepare_role sha cb c p = (Inl KeyError, logged (Prepared c) p)"
  by (simp add: prepare_role_def prepare_returned_def logged_def)

section \<open>What is prepared can be committed\<close>

lemma transition_fields: "distinct (map fst (transition_to_dict n))"
  by (simp add: transition_to_dict_def)

lemma read_own_transition: "same_fields d (transition_to_dict n) \<Longrightarrow> read_transition d = Inr n"
  by (simp add: read_transition_def key_str_def key_int_def reads_get transition_to_dict_def)

lemma blob_distinct: "json_distinct (JObj (commit_blob_dict sha t a n c))"
  by (simp add: commit_blob_dict_def transition_to_dict_def)

definition own_view :: "hash \<Rightarrow> string \<Rightarrow> selection_assignment \<Rightarrow> transition \<Rightarrow> selection_acceptance \<Rightarrow> commit_view" where
  "own_view sha t a n c = \<lparr>vw_commit_blob = json_dumps (JObj (commit_blob_dict sha t a n c)), vw_transaction_id = t,
     vw_acceptance_payload = selection_acceptance_to_bytes c\<rparr>"

lemma read_own_blob:
  obtains d where "read_blob (own_view sha t a n c) = Inr d" "same_fields d (commit_blob_dict sha t a n c)"
proof -
  let ?b = "commit_blob_dict sha t a n c"
  let ?d = "sort_key fst (map (map_prod id json_norm) ?b)"
  have norm: "json_norm (JObj ?b) = JObj ?d" by simp
  have fields: "same_fields ?d ?b" using blob_distinct by (intro reads_norm) simp
  have loads: "wire_loads (json_dumps (JObj ?b)) = Some (JObj ?d)" unfolding norm [symmetric] using blob_distinct by (rule wire_loads_dumps)
  have canonical: "json_dumps (JObj ?d) = json_dumps (JObj ?b)" unfolding norm [symmetric] by (rule json_dumps_norm)
  have "read_blob (own_view sha t a n c) = Inr ?d"
    using reads_get [OF fields] loads canonical
    by (simp add: read_blob_def own_view_def commit_blob_dict_def py_eq_int_def)
  with fields show ?thesis by (rule that [rotated])
qed

lemma read_own_commit:
  assumes "selection_wf sha a" and "length (selection_assignment_to_bytes a) \<le> 4 * 1024 * 1024"
    and "make_selection_acceptance c = Inr c" and "length (selection_acceptance_to_bytes c) \<le> 4 * 1024 * 1024"
    and "acceptance_bound sha a t c"
  obtains d where "read_committed sha (own_view sha t a n c) = Inr (a, d)" "same_fields d (commit_blob_dict sha t a n c)"
proof (rule read_own_blob [of sha t a n c])
  fix d
  assume blob: "read_blob (own_view sha t a n c) = Inr d" and fields: "same_fields d (commit_blob_dict sha t a n c)"
  have get: "dict_get d ''assignment'' = Some (JStr (b64encode (selection_assignment_to_bytes a)))"
    "dict_get d ''acceptance'' = Some (JStr (b64encode (selection_acceptance_to_bytes c)))"
    "dict_get d ''assignment_digest'' = Some (JStr (selection_assignment_digest sha a))"
    "dict_get d ''acceptance_digest'' = Some (JStr (selection_acceptance_digest sha c))"
    by (simp_all add: reads_get [OF fields] commit_blob_dict_def)
  have view: "vw_transaction_id (own_view sha t a n c) = t"
    "vw_acceptance_payload (own_view sha t a n c) = selection_acceptance_to_bytes c" by (simp_all add: own_view_def)
  have "read_committed sha (own_view sha t a n c) = Inr (a, d)"
    using assignment_bytes_roundtrip [OF assms(1,2)] acceptance_bytes_roundtrip [OF assms(3,4)] assms(5)
    by (simp add: read_committed_def blob b64_field_def get b64_roundtrip validate_assignment_def require_def view)
  with fields show thesis by (rule that [rotated])
qed

lemma own_commit:
  assumes "selection_wf sha a" and "length (selection_assignment_to_bytes a) \<le> 4 * 1024 * 1024"
    and "make_selection_acceptance c = Inr c" and "length (selection_acceptance_to_bytes c) \<le> 4 * 1024 * 1024"
    and "acceptance_bound sha a t c" and "dict_get (pt_assignments p) t = None"
    and "ledger_commit t n (pt_ledger p) = (Inr (), l)"
  shows "on_committed sha (own_view sha t a n c) p = (Inr (), fold (submit_role t a) (sa_roles a)
      (p\<lparr>pt_ledger := l, pt_assignments := dict_set t a (pt_assignments p),
         pt_assignment_transactions := dict_set (selection_assignment_digest sha a) t (pt_assignment_transactions p),
         pt_terminal_roles := dict_set t {} (pt_terminal_roles p)\<rparr>))"
proof (rule read_own_commit [OF assms(1-5), of n])
  fix d
  assume read: "read_committed sha (own_view sha t a n c) = Inr (a, d)" and fields: "same_fields d (commit_blob_dict sha t a n c)"
  have "dict_get d ''transition'' = Some (json_norm (JObj (transition_to_dict n)))"
    by (simp add: reads_get [OF fields] commit_blob_dict_def)
  then have "dict_get d ''transition'' = Some (JObj (sort_key fst (map (map_prod id json_norm) (transition_to_dict n))))" by simp
  moreover have "read_transition (sort_key fst (map (map_prod id json_norm) (transition_to_dict n))) = Inr n"
    by (rule read_own_transition [OF reads_norm [OF transition_fields]])
  ultimately show ?thesis
    using assms(6,7) by (simp add: on_committed_def read project_commit_def) (simp add: own_view_def)
qed

lemma submit_other_gate:
  "k \<notin> ro_role ` set roles \<Longrightarrow> dict_get (pt_gates (fold (submit_role t a) roles p)) (t, k) = dict_get (pt_gates p) (t, k)"
  by (induction roles arbitrary: p) (auto simp: submit_role_def logged_def dict_simps)

lemma submit_futures: "pt_futures (fold (submit_role t a) roles p) = pt_futures p @ map (prep_context_of t a) roles"
  by (induction roles arbitrary: p) (simp_all add: submit_role_def logged_def)

lemma submitted_gate:
  "distinct (map ro_role roles) \<Longrightarrow> x \<in> set roles \<Longrightarrow>
     dict_get (pt_gates (fold (submit_role t a) roles p)) (t, ro_role x) = Some (fresh_gate x)"
proof (induction roles arbitrary: p)
  case (Cons r roles)
  show ?case
  proof (cases "x = r")
    case True
    with Cons.prems(1) show ?thesis by (simp add: submit_other_gate) (simp add: submit_role_def logged_def dict_simps)
  next
    case False
    with Cons show ?thesis by simp
  qed
qed simp

lemma no_mismatches:
  "binding_mismatches sha cx payload a offer now_ms p = [] \<Longrightarrow> sa_provider a = pt_provider p
     \<and> sa_provider_boot_epoch a = pt_boot_epoch p \<and> now_ms < sa_deadline_ms a"
  by (simp add: binding_mismatches_def split: if_splits)

lemma prepare_success:
  assumes "participant_prepare sha env cx payload now_ms p = (Inr (blob, acc), q)" and "selection_assignment_from_bytes sha payload = Inr a"
  obtains l h c where
    "validate_transition (sa_offer_digest a) (sa_request_id a) (sa_attempt a) (sa_resource_sequence a) (assignment_gpu_mib a)
       now_ms (pt_ledger p) = (Inr (transition_of h (assignment_gpu_mib a)), l)"
    "dict_get (gl_held l) (sa_offer_digest a) = Some h" "0 < assignment_gpu_mib a" "assignment_gpu_mib a \<le> ho_gpu_mib h"
    "c = acceptance_of sha a (cx_transaction_id cx) now_ms p" "make_selection_acceptance c = Inr c"
    "acceptance_bound sha a (cx_transaction_id cx) c" "acc = selection_acceptance_to_bytes c"
    "blob = vw_commit_blob (own_view sha (cx_transaction_id cx) a (transition_of h (assignment_gpu_mib a)) c)"
    "pt_ledger q = l" "pt_assignments q = pt_assignments p"
proof -
  have "check_selection sha env cx payload now_ms p = Inr a"
    using assms by (auto simp: participant_prepare_def check_selection_def Let_def sum_then_Inr split: sum.splits if_splits)
  then have bound: "sa_provider a = pt_provider p" "sa_provider_boot_epoch a = pt_boot_epoch p"
    using assms(2) no_mismatches [of sha cx payload a "sv_offer_lookup env (sa_offer_digest a)" now_ms p]
    by (auto simp: check_selection_def Let_def split: if_splits)
  let ?v = "validate_transition (sa_offer_digest a) (sa_request_id a) (sa_attempt a) (sa_resource_sequence a)
    (assignment_gpu_mib a) now_ms (pt_ledger p)"
  obtain n l where v: "?v = (Inr n, l)"
    and w: "write_blob sha a (cx_transaction_id cx) now_ms n (p\<lparr>pt_ledger := l\<rparr>) = (Inr (blob, acc), q)"
    using assms(1) \<open>check_selection _ _ _ _ _ _ = _\<close>
    by (auto simp: participant_prepare_def split: prod.splits sum.splits)
  obtain h where h: "n = transition_of h (assignment_gpu_mib a)" "dict_get (gl_held l) (sa_offer_digest a) = Some h"
      "0 < assignment_gpu_mib a" "assignment_gpu_mib a \<le> ho_gpu_mib h"
    using v by (auto simp: validate_transition_def Let_def split: option.splits if_splits)
  let ?c = "acceptance_of sha a (cx_transaction_id cx) now_ms (p\<lparr>pt_ledger := l\<rparr>)"
  have c: "?c = acceptance_of sha a (cx_transaction_id cx) now_ms p" by (simp add: acceptance_of_def)
  have made: "make_selection_acceptance ?c = Inr ?c"
    using w by (auto simp: write_blob_def make_selection_acceptance_def sum_then_Inr split: if_splits sum.splits)
  have "acceptance_bound sha a (cx_transaction_id cx) ?c"
    using bound by (simp add: acceptance_bound_def acceptance_of_def)
  with that [OF v [unfolded h(1)] h(2-4) refl made [unfolded c]] w made v h show thesis
    by (auto simp: write_blob_def own_view_def c split: if_splits)
qed

text \<open>
  C15: What is prepared can be committed. If \<open>prepare\<close> of a reachable participant returned a commit
  blob and an acceptance for an assignment, and its transaction was not yet committed, then
  \<open>on_committed\<close> on these bytes succeeds: it reads the same assignment back, moves the offer from held
  to committed with the memory the assignment asks for, and opens a closed gate and submits a
  preparation for every role.
\<close>

theorem prepared_commit_accepted:
  assumes "reachable participant_start (participant_step sha) p"
    and "selection_assignment_from_bytes sha payload = Inr a"
    and "participant_prepare sha env cx payload now_ms p = (Inr (blob, acc), q)"
    and "dict_get (pt_assignments p) (cx_transaction_id cx) = None"
    and "length (selection_assignment_to_bytes a) \<le> 4 * 1024 * 1024" and "length acc \<le> 4 * 1024 * 1024"
  shows "\<exists>r n. on_committed sha \<lparr>vw_commit_blob = blob, vw_transaction_id = cx_transaction_id cx, vw_acceptance_payload = acc\<rparr> q
      = (Inr (), r)
    \<and> dict_get (pt_assignments r) (cx_transaction_id cx) = Some a
    \<and> dict_get (gl_committed (pt_ledger r)) (cx_transaction_id cx) = Some n \<and> ho_offer_digest n = sa_offer_digest a
    \<and> 0 < assignment_gpu_mib a \<and> tn_committed_gpu_mib n = assignment_gpu_mib a \<and> assignment_gpu_mib a \<le> ho_gpu_mib n
    \<and> \<not> dict_has (gl_held (pt_ledger r)) (sa_offer_digest a)
    \<and> (\<forall>x \<in> set (sa_roles a). dict_get (pt_gates r) (cx_transaction_id cx, ro_role x) = Some (fresh_gate x)
        \<and> prep_context_of (cx_transaction_id cx) a x \<in> set (pt_futures r))"
proof (rule prepare_success [OF assms(3,2)])
  fix l h c
  let ?t = "cx_transaction_id cx"
  let ?n = "transition_of h (assignment_gpu_mib a)"
  assume v: "validate_transition (sa_offer_digest a) (sa_request_id a) (sa_attempt a) (sa_resource_sequence a)
      (assignment_gpu_mib a) now_ms (pt_ledger p) = (Inr ?n, l)"
    and h: "dict_get (gl_held l) (sa_offer_digest a) = Some h" "0 < assignment_gpu_mib a" "assignment_gpu_mib a \<le> ho_gpu_mib h"
    and c: "make_selection_acceptance c = Inr c" "acceptance_bound sha a ?t c" "acc = selection_acceptance_to_bytes c"
    and blob: "blob = vw_commit_blob (own_view sha ?t a ?n c)" and q: "pt_ledger q = l" "pt_assignments q = pt_assignments p"
  have tied: "ledger_tied p" using selection_participant.reachable_inv [OF assms(1)] by (simp add: participant_inv_def)
  have "held_inv l" using held_inv_validate [of "pt_ledger p"] tied v by (metis ledger_tied_def snd_conv)
  then have key: "ho_offer_digest h = sa_offer_digest a"
    using h(1) by (auto simp: held_inv_def held_ok_def dest: dict_allD)
  have "gl_committed l = gl_committed (pt_ledger p)" using validate_committed v by (metis snd_conv)
  then have none: "dict_get (gl_committed l) ?t = None"
    using tied_none [OF tied assms(4)] by simp
  let ?l = "l\<lparr>gl_held := dict_pop (sa_offer_digest a) (gl_held l), gl_committed := dict_set ?t ?n (gl_committed l)\<rparr>"
  have commit: "ledger_commit ?t ?n (pt_ledger q) = (Inr (), ?l)"
    using none h(1) key by (simp add: q ledger_commit_def transition_of_def)
  have wf: "selection_wf sha a"
    using assms(2) by (auto simp: selection_assignment_from_bytes_def sum_then_Inr dest: decoded_selection)
  then have roles: "distinct (map ro_role (sa_roles a))"
    by (auto simp: selection_wf_def make_selection_assignment_def split: if_splits)
  have fresh: "dict_get (pt_assignments q) ?t = None" using assms(4) q by simp
  have short: "length (selection_acceptance_to_bytes c) \<le> 4 * 1024 * 1024" using assms(6) c(3) by simp
  have view: "\<lparr>vw_commit_blob = blob, vw_transaction_id = ?t, vw_acceptance_payload = acc\<rparr> = own_view sha ?t a ?n c"
    by (simp add: blob c(3) own_view_def)
  note run = own_commit [OF wf assms(5) c(1) short c(2) fresh commit]
  show ?thesis
    unfolding view run using roles key h
    by (intro exI [of _ ?n] exI conjI ballI)
      (auto simp: submit_keeps submit_futures submitted_gate dict_simps dict_has_def transition_of_def)
qed

section \<open>A run\<close>

definition demo_gpu_offer :: gpu_offer where
  "demo_gpu_offer = \<lparr>go_digest = zero_digest, go_provider = ''/p'', go_boot_epoch = ''bootboot'', go_request_id = ''r'',
     go_attempt = 1, go_resource_sequence = 1, go_offered_gpu_memory_mb = 8, go_expires_at_ms = 90\<rparr>"

definition demo_bound_offer :: bound_offer where
  "demo_bound_offer = \<lparr>go_digest = zero_digest, go_provider = ''/p'', go_boot_epoch = ''bootboot'', go_request_id = ''r'',
     go_attempt = 1, go_resource_sequence = 1, go_offered_gpu_memory_mb = 8, go_expires_at_ms = 90, bo_service = ''/s'',
     bo_execution_policies = [DATA_DRIVEN_V2], bo_accepted_deadline_ms = 100, bo_accepted_roles = [''b''], bo_backends = [[]],
     bo_devices = [[]], bo_signer_key_id = ''k'', bo_signature = ''s''\<rparr>"

definition demo_env :: selection_env where
  "demo_env = \<lparr>sv_offer_lookup = (\<lambda>d. if d = zero_digest then Some demo_bound_offer else None),
     sv_offer_verifier = default_offer_verifier, sv_state_revalidator = None\<rparr>"

definition demo_cx :: selection_context where
  "demo_cx = \<lparr>cx_request_id = Some ''r'', cx_attempt = 1, cx_service_name = Some ''/s'', cx_provider_identity = Some ''/p'',
     cx_provider_boot_epoch = Some ''bootboot'', cx_selection_payload_digest = Some zero_digest,
     cx_expires_at_unix_ms = 100, cx_transaction_id = ''t''\<rparr>"

definition demo_selection_callbacks :: selection_callbacks where
  "demo_selection_callbacks = \<lparr>sl_prepare_role = (\<lambda>c. None), sl_start_role = (\<lambda>r. None), sl_release_role = (\<lambda>r s. None),
     sl_release_assignment = (\<lambda>c s. None)\<rparr>"

definition demo_participant_ledger :: gpu_ledger where
  "demo_participant_ledger = \<lparr>gl_provider = ''/p'', gl_boot_epoch = ''bootboot'', gl_capacity_mib = 10, gl_held = [], gl_committed = []\<rparr>"

definition demo_participant :: participant where
  "demo_participant = \<lparr>pt_provider = ''/p'', pt_boot_epoch = ''bootboot'', pt_ledger = demo_participant_ledger, pt_assignments = [],
     pt_gates = [], pt_futures = [], pt_prepared_offers = [], pt_assignment_transactions = [],
     pt_terminal_roles = [], pt_completed_assignments = {}, pt_calls = []\<rparr>"

definition demo_offered :: participant where
  "demo_offered = demo_participant\<lparr>pt_ledger := snd (hold_offer demo_gpu_offer 5 demo_participant_ledger)\<rparr>"

definition demo_transition :: transition where
  "demo_transition = transition_of (held_of_offer demo_gpu_offer demo_participant_ledger) 8"

definition demo_payload :: string where
  "demo_payload = selection_assignment_to_bytes demo_selection"

definition demo_live :: participant where
  "demo_live = fold (submit_role ''t'' demo_selection) (sa_roles demo_selection)
     (demo_offered\<lparr>pt_ledger := snd (ledger_commit ''t'' demo_transition (pt_ledger demo_offered)),
        pt_assignments := dict_set ''t'' demo_selection (pt_assignments demo_offered),
        pt_assignment_transactions := dict_set zero_digest ''t'' (pt_assignment_transactions demo_offered),
        pt_terminal_roles := dict_set ''t'' {} (pt_terminal_roles demo_offered)\<rparr>)"

definition demo_prep :: prep_context where
  "demo_prep = prep_context_of ''t'' demo_selection demo_role"

definition demo_prepared :: participant where
  "demo_prepared = snd (prepare_returned demo_selection_callbacks demo_prep
     (logged (Prepared demo_prep) (demo_live\<lparr>pt_futures := remove1 demo_prep (pt_futures demo_live)\<rparr>)))"

definition demo_started :: participant where
  "demo_started = snd (admit_input demo_selection_callbacks (''t'', ''b'') ''k'' demo_prepared)"

lemma zero_digests: "selection_assignment_digest zero_sha a = zero_digest"
  by (simp add: selection_assignment_digest_def contract_digest_of_def canonical_digest_def json_digest_def zero_sha_def zero_digest_def)

lemma demo_payload_decodes: "selection_assignment_from_bytes zero_sha demo_payload = Inr demo_selection"
proof -
  have "length (selection_assignment_to_bytes demo_selection) \<le> 4 * 1024 * 1024" using demo_selection_short by simp
  from assignment_bytes_roundtrip [OF demo_selection_wf this] show ?thesis by (simp add: demo_payload_def)
qed

lemma demo_offered_reached: "reachable participant_start (participant_step zero_sha) demo_offered"
proof (rule reachable_one)
  show "participant_step zero_sha demo_participant demo_offered"
    unfolding demo_offered_def
    by (rule participant_step.offer [of demo_gpu_offer 5]) (simp add: demo_participant_def prod_eq_iff)
  have "gpu_ledger_init ''/p'' ''bootboot'' 10 = Inr demo_participant_ledger"
    "participant_init ''/p'' ''bootboot'' demo_participant_ledger = Inr demo_participant" by code_simp+
  then show "participant_start demo_participant" unfolding participant_start_def ledger_start_def by blast
qed

lemma demo_committed:
  "on_committed zero_sha (own_view zero_sha ''t'' demo_selection demo_transition demo_acceptance) demo_offered = (Inr (), demo_live)"
  unfolding demo_live_def zero_digests [of demo_selection, symmetric]
proof (rule own_commit [OF demo_selection_wf])
  show "length (selection_assignment_to_bytes demo_selection) \<le> 4 * 1024 * 1024"
    "length (selection_acceptance_to_bytes demo_acceptance) \<le> 4 * 1024 * 1024"
    using demo_selection_short demo_acceptance_short by simp_all
  show "make_selection_acceptance demo_acceptance = Inr demo_acceptance"
    "acceptance_bound zero_sha demo_selection ''t'' demo_acceptance"
    "dict_get (pt_assignments demo_offered) ''t'' = None" by code_simp+
  have "fst (ledger_commit ''t'' demo_transition (pt_ledger demo_offered)) = Inr ()" by code_simp
  then show "ledger_commit ''t'' demo_transition (pt_ledger demo_offered)
      = (Inr (), snd (ledger_commit ''t'' demo_transition (pt_ledger demo_offered)))" by (simp add: prod_eq_iff)
qed

lemma demo_started_reached: "reachable participant_start (participant_step zero_sha) demo_started"
proof -
  have "participant_step zero_sha demo_offered demo_live" using demo_committed by (rule participant_step.committed)
  moreover have "participant_step zero_sha demo_live demo_prepared"
    unfolding demo_prepared_def
    by (rule participant_step.prepared [OF _ prod.collapse [symmetric]])
      (simp add: demo_live_def submit_futures demo_prep_def, simp add: demo_selection_def)
  moreover have "participant_step zero_sha demo_prepared demo_started"
  proof -
    have "dict_get (pt_assignment_transactions demo_prepared) zero_digest = Some ''t''"
      "dict_get (pt_assignments demo_prepared) ''t'' = Some demo_selection" by code_simp+
    then have "transaction_for_assignment zero_sha demo_payload demo_prepared = Inr ''t''"
      by (simp add: transaction_for_assignment_def demo_payload_decodes Let_def zero_digests)
    then have "mark_dependency_input_ready zero_sha demo_selection_callbacks demo_payload ''b'' ''k'' demo_prepared
        = (fst (admit_input demo_selection_callbacks (''t'', ''b'') ''k'' demo_prepared), demo_started)"
      by (simp add: mark_dependency_input_ready_def demo_payload_decodes demo_started_def) (simp add: demo_selection_def demo_role_def)
    then show ?thesis by (rule participant_step.dependency)
  qed
  ultimately show ?thesis using demo_offered_reached by (blast intro: reachable.next_state)
qed

theorem role_start_guarded_witness:
  "starts (''t'', ''b'') (pt_calls demo_started) = 1 \<and> submissions (''t'', ''b'') (pt_calls demo_started) = 1
    \<and> dict_has (pt_assignments demo_started) ''t'' \<and> dict_has (gl_committed (pt_ledger demo_started)) ''t''"
proof -
  have "starts (''t'', ''b'') (pt_calls demo_started) = 1 \<and> submissions (''t'', ''b'') (pt_calls demo_started) = 1
    \<and> dict_has (pt_assignments demo_started) ''t''" by code_simp
  then show ?thesis using role_start_guarded [OF demo_started_reached, of "''t''" "''b''"] by simp
qed

theorem reservation_released_once_witness:
  "(let q = mark_role_terminal zero_sha demo_selection_callbacks demo_payload ''b'' ''done'' demo_started in
     fst q = Inr True \<and> \<not> dict_has (gl_committed (pt_ledger (snd q))) ''t''
     \<and> fst (mark_role_terminal zero_sha demo_selection_callbacks demo_payload ''b'' ''done'' (snd q)) \<noteq> Inr True)"
proof -
  let ?q = "mark_role_terminal zero_sha demo_selection_callbacks demo_payload ''b'' ''done'' demo_started"
  have "fst ?q = Inr True \<and> \<not> dict_has (gl_committed (pt_ledger (snd ?q))) ''t''"
    unfolding mark_role_terminal_def demo_payload_decodes sum.case zero_digests by code_simp
  then show ?thesis
    using reservation_released_once [OF demo_started_reached, where q = "snd ?q" and u = "snd ?q" and cb = demo_selection_callbacks
        and payload = demo_payload and role = "''b''" and reason = "''done''" and cb' = demo_selection_callbacks and role' = "''b''"
        and reason' = "''done''"]
    by (auto simp: prod_eq_iff Let_def)
qed

theorem prepared_commit_accepted_witness:
  "\<exists>blob acc q r. participant_prepare zero_sha demo_env demo_cx demo_payload 5 demo_offered = (Inr (blob, acc), q)
     \<and> on_committed zero_sha \<lparr>vw_commit_blob = blob, vw_transaction_id = ''t'', vw_acceptance_payload = acc\<rparr> q = (Inr (), r)
     \<and> dict_get (pt_assignments r) ''t'' = Some demo_selection"
proof -
  have mismatches: "binding_mismatches zero_sha demo_cx payload demo_selection (Some demo_bound_offer) 5 demo_offered = []" for payload
    by (simp add: binding_mismatches_def demo_cx_def demo_selection_def demo_bound_offer_def demo_offered_def demo_participant_def
        zero_sha_def zero_digest_def)
  have offer: "sv_offer_lookup demo_env (sa_offer_digest demo_selection) = Some demo_bound_offer"
    "offer_bound demo_env demo_selection demo_bound_offer 5" "check_reuse demo_env demo_selection 5 = Inr ()" by code_simp+
  have "check_selection zero_sha demo_env demo_cx demo_payload 5 demo_offered = Inr demo_selection"
    by (simp add: check_selection_def demo_payload_decodes Let_def offer mismatches)
  moreover have "validate_transition (sa_offer_digest demo_selection) (sa_request_id demo_selection) (sa_attempt demo_selection)
      (sa_resource_sequence demo_selection) (assignment_gpu_mib demo_selection) 5 (pt_ledger demo_offered)
      = (Inr demo_transition, pt_ledger demo_offered)" by code_simp
  moreover have "acceptance_of zero_sha demo_selection ''t'' 5 demo_offered = demo_acceptance"
    "make_selection_acceptance demo_acceptance = Inr demo_acceptance" by code_simp+
  ultimately have run: "participant_prepare zero_sha demo_env demo_cx demo_payload 5 demo_offered
      = (Inr (json_dumps (JObj (commit_blob_dict zero_sha ''t'' demo_selection demo_transition demo_acceptance)),
          selection_acceptance_to_bytes demo_acceptance),
         demo_offered\<lparr>pt_prepared_offers := dict_set ''t'' (sa_offer_digest demo_selection) (pt_prepared_offers demo_offered)\<rparr>)"
    by (simp add: participant_prepare_def write_blob_def demo_cx_def)
  have "dict_get (pt_assignments demo_offered) (cx_transaction_id demo_cx) = None" by code_simp
  moreover have "length (selection_assignment_to_bytes demo_selection) \<le> 4 * 1024 * 1024"
    "length (selection_acceptance_to_bytes demo_acceptance) \<le> 4 * 1024 * 1024"
    using demo_selection_short demo_acceptance_short by simp_all
  ultimately show ?thesis
    using prepared_commit_accepted [OF demo_offered_reached demo_payload_decodes run] run by (simp add: demo_cx_def) blast
qed

end
