(* ===== verification/Placement_Validation.thy ===== *)
theory Placement_Validation
  imports Interfaces
begin

text \<open>
  \<open>core/decision_validation.py\<close>: the last check of every proposal an optimiser makes. Proposals are
  records of the attributes the checks read; the values that are searched for sensitive fields are
  JSON values, a data class being the object of its fields. The checks of floating point numbers
  (objectives, tuning) and of open handles have no counterpart here; \<open>validate_recovery\<close> stands
  with the recovery controllers that call it.
\<close>

section \<open>Proposals\<close>

record model_candidate =
  mc_model_id :: string
  mc_variant_id :: string
  mc_exact_semantics :: bool
  mc_precision :: string
  mc_artifact_digest :: string
  mc_capabilities :: "string list"

record estimate =
  es_horizon_ms :: int
  es_measured_at_ms :: int

record engine_snapshot =
  sn_captured_at_ms :: int
  sn_estimates :: "(string, estimate) dict"

record policy_result =
  pr_policy_kind :: string
  pr_evidence_kind :: string
  pr_evidence_state_epoch :: int
  pr_value :: json

record scheduling_proposal =
  sg_ordered_items :: "string list"
  sg_batch_size :: int

record placement_provider =
  pp_provider :: string
  pp_accepted_roles :: "string list"
  pp_backends :: "string list"
  pp_usable_gpu_memory_mb :: int

record placement_assignment =
  pl_role :: string
  pl_provider :: string
  pl_backend :: string
  pl_required_gpu_memory_mb :: int

record placement_request =
  pq_providers :: "placement_provider list"
  pq_required_roles :: "string list"

record placement_decision =
  pd_assignments :: "placement_assignment list"
  pd_fallback_order :: "(string, string list) dict"

section \<open>Sensitive fields\<close>

text \<open>\<open>str.lower\<close> on code points below 256.\<close>

definition lower_char :: "char \<Rightarrow> char" where
  "lower_char c = (let n = (of_char c :: nat) in
     if 65 \<le> n \<and> n \<le> 90 \<or> 192 \<le> n \<and> n \<le> 222 \<and> n \<noteq> 215 then char_of (n + 32) else c)"

definition plain_field :: "string \<Rightarrow> string" where
  "plain_field k = map lower_char (filter (\<lambda>c. c \<noteq> CHR ''_'') k)"

definition FORBIDDEN_POLICY_FIELDS :: "string set" where
  "FORBIDDEN_POLICY_FIELDS = {''prompt'', ''payload'', ''tensor'', ''token'', ''secret'', ''credential'',
     ''privatekey'', ''decryptedpolicy'', ''crosstenantdata''}"

definition FORBIDDEN_PLACEMENT_FIELDS :: "string set" where
  "FORBIDDEN_PLACEMENT_FIELDS = {''prompt'', ''payload'', ''rawinput'', ''inputbytes'', ''tensor'', ''token'',
     ''usertoken'', ''providertoken'', ''secret'', ''credential'', ''privatekey'',
     ''decryptedpolicy'', ''crosstenantdata'', ''callback'', ''networkhandle'',
     ''devicehandle'', ''filehandle'', ''workingdirectory'', ''writablepath'',
     ''mountpath'', ''repositoryhandle''}"

definition ends_with :: "string \<Rightarrow> string \<Rightarrow> bool" where
  "ends_with s t \<longleftrightarrow> starts_with (rev s) (rev t)"

fun reject_sensitive :: "json \<Rightarrow> py_error + unit"
  and reject_sensitive_items :: "json list \<Rightarrow> py_error + unit"
  and reject_sensitive_fields :: "(string \<times> json) list \<Rightarrow> py_error + unit" where
  "reject_sensitive (JObj kvs) = reject_sensitive_fields kvs"
| "reject_sensitive (JList vs) = reject_sensitive_items vs"
| "reject_sensitive v = Inr ()"
| "reject_sensitive_items [] = Inr ()"
| "reject_sensitive_items (v # vs) = sum_then (reject_sensitive v) (\<lambda>_. reject_sensitive_items vs)"
| "reject_sensitive_fields [] = Inr ()"
| "reject_sensitive_fields ((k, v) # kvs) =
     (if plain_field k \<in> FORBIDDEN_POLICY_FIELDS then Inl (ValueError ''policy result contains sensitive payload'')
      else sum_then (reject_sensitive v) (\<lambda>_. reject_sensitive_fields kvs))"

definition field_forbidden :: "string \<Rightarrow> bool" where
  "field_forbidden k \<longleftrightarrow> plain_field k \<in> FORBIDDEN_PLACEMENT_FIELDS \<or> ends_with (plain_field k) ''callback''
     \<or> ends_with (plain_field k) ''handle'' \<or> ends_with (plain_field k) ''writablepath''"

fun reject_placement :: "string \<Rightarrow> json \<Rightarrow> py_error + unit"
  and reject_placement_items :: "json list \<Rightarrow> py_error + unit"
  and reject_placement_fields :: "(string \<times> json) list \<Rightarrow> py_error + unit" where
  "reject_placement field v =
     (if field_forbidden field
      then Inl (ValueError ''placement strategy boundary contains authority or sensitive data'')
      else case v of JObj kvs \<Rightarrow> reject_placement_fields kvs | JList vs \<Rightarrow> reject_placement_items vs | _ \<Rightarrow> Inr ())"
| "reject_placement_items [] = Inr ()"
| "reject_placement_items (v # vs) = sum_then (reject_placement [] v) (\<lambda>_. reject_placement_items vs)"
| "reject_placement_fields [] = Inr ()"
| "reject_placement_fields ((k, v) # kvs) = sum_then (reject_placement k v) (\<lambda>_. reject_placement_fields kvs)"

section \<open>Checks\<close>

fun check_estimates :: "int \<Rightarrow> (string, estimate) dict \<Rightarrow> py_error + unit" where
  "check_estimates at_ms [] = Inr ()"
| "check_estimates at_ms ((name, e) # es) =
     (if at_ms < es_measured_at_ms e then Inl (ValueError (''future estimate: '' @ name))
      else if es_horizon_ms e < at_ms - es_measured_at_ms e then Inl (ValueError (''stale estimate: '' @ name))
      else check_estimates at_ms es)"

definition validate_snapshot :: "engine_snapshot \<Rightarrow> int \<Rightarrow> int \<Rightarrow> py_error + unit" where
  "validate_snapshot s at_ms max_age_ms =
     (if at_ms < sn_captured_at_ms s \<or> max_age_ms < at_ms - sn_captured_at_ms s
      then Inl (ValueError ''stale engine snapshot'') else check_estimates at_ms (sn_estimates s))"

definition validate_candidate_budget :: "'a list \<Rightarrow> int \<Rightarrow> py_error + 'a list" where
  "validate_candidate_budget candidates max_candidates =
     (if max_candidates < int (length candidates) then Inl (ValueError ''candidate budget exceeded'') else Inr candidates)"

definition validate_model_selection :: "model_candidate \<Rightarrow> model_candidate list \<Rightarrow> bool \<Rightarrow> py_error + model_candidate" where
  "validate_model_selection selected allowed exact_required =
     (if selected \<notin> set allowed then Inl (ValueError ''model variant is outside authorized candidate set'')
      else if exact_required \<and> \<not> mc_exact_semantics selected
      then Inl (ValueError ''exact model semantics cannot be replaced'') else Inr selected)"

definition validate_proposed_assignment :: "(string, string) dict \<Rightarrow> string list \<Rightarrow> string list \<Rightarrow> py_error + unit" where
  "validate_proposed_assignment providers_by_role roles providers =
     (if set (dict_keys providers_by_role) \<noteq> set roles
      then Inl (ValueError ''assignment does not bind every role exactly once'')
      else if list_ex (\<lambda>p. p \<notin> set providers) (dict_values providers_by_role)
      then Inl (ValueError ''assignment selected an ineligible Provider'') else Inr ())"

definition validate_policy_result :: "policy_result \<Rightarrow> string \<Rightarrow> int \<Rightarrow> py_error + policy_result" where
  "validate_policy_result r expected_kind snapshot_epoch =
     (if pr_policy_kind r \<noteq> expected_kind then Inl (ValueError ''policy result kind mismatch'')
      else if pr_evidence_kind r \<noteq> expected_kind then Inl (ValueError ''policy evidence kind mismatch'')
      else if pr_evidence_state_epoch r \<noteq> snapshot_epoch then Inl (ValueError ''stale policy result epoch'')
      else sum_then (reject_sensitive (pr_value r)) (\<lambda>_. Inr r))"

definition validate_scheduling :: "scheduling_proposal \<Rightarrow> string list \<Rightarrow> py_error + unit" where
  "validate_scheduling p allowed_items =
     (if \<not> distinct (sg_ordered_items p) then Inl (ValueError ''scheduling proposal duplicates work'')
      else if \<not> set (sg_ordered_items p) \<subseteq> set allowed_items then Inl (ValueError ''scheduling proposal crosses scope'')
      else if sg_batch_size p \<le> 0 then Inl (ValueError ''invalid scheduling batch'') else Inr ())"

definition validate_admission :: "bool \<Rightarrow> bool \<Rightarrow> py_error + unit" where
  "validate_admission accepted prior_rejected =
     (if prior_rejected \<and> accepted then Inl (ValueError ''admission policy cannot reverse prior rejection'') else Inr ())"

definition validate_cache :: "string \<Rightarrow> int \<Rightarrow> int \<Rightarrow> py_error + unit" where
  "validate_cache cache_key_digest state_epoch expected_epoch =
     (if state_epoch \<noteq> expected_epoch then Inl (ValueError ''cache proposal state epoch mismatch'')
      else if \<not> starts_with cache_key_digest ''sha256:'' then Inl (ValueError ''cache key is not digest bound'') else Inr ())"

definition validate_target :: "string \<Rightarrow> string list \<Rightarrow> py_error + unit" where
  "validate_target adapter_name compatible_adapters =
     (if adapter_name \<notin> set compatible_adapters
      then Inl (ValueError ''execution target selected incompatible adapter'') else Inr ())"

section \<open>Joint placement\<close>

fun check_assignments :: "(string, placement_provider) dict \<Rightarrow> placement_assignment list \<Rightarrow> (string, int) dict
    \<Rightarrow> py_error + (string, int) dict" where
  "check_assignments by_name [] aggregate_gpu = Inr aggregate_gpu"
| "check_assignments by_name (a # as) aggregate_gpu =
     (case dict_get by_name (pl_provider a) of
        None \<Rightarrow> Inl (ValueError ''placement decision selected a Provider outside the ACK set'')
      | Some p \<Rightarrow>
          if pl_role a \<notin> set (pp_accepted_roles p) then Inl (ValueError ''placement role is outside the Provider offer'')
          else if pl_backend a \<notin> set (pp_backends p) then Inl (ValueError ''placement backend is outside the Provider offer'')
          else check_assignments by_name as (dict_set (pl_provider a)
            (dict_get0 aggregate_gpu (pl_provider a) + pl_required_gpu_memory_mb a) aggregate_gpu))"

fun check_totals :: "(string, placement_provider) dict \<Rightarrow> (string, int) dict \<Rightarrow> py_error + unit" where
  "check_totals by_name [] = Inr ()"
| "check_totals by_name ((name, required_mb) # totals) =
     (case dict_get by_name name of
        None \<Rightarrow> Inl KeyError
      | Some p \<Rightarrow>
          if pp_usable_gpu_memory_mb p < required_mb
          then Inl (ValueError ''placement aggregate GPU memory exceeds Provider offer'')
          else check_totals by_name totals)"

fun check_fallbacks :: "string list \<Rightarrow> string list \<Rightarrow> (string, string list) dict \<Rightarrow> py_error + unit" where
  "check_fallbacks roles allowed [] = Inr ()"
| "check_fallbacks roles allowed ((role, fallbacks) # rest) =
     (if role \<notin> set roles then Inl (ValueError ''placement fallback references an unknown role'')
      else if \<not> distinct fallbacks \<or> \<not> set fallbacks \<subseteq> set allowed
      then Inl (ValueError ''placement fallback is outside the ACK set'')
      else check_fallbacks roles allowed rest)"

definition providers_by_name :: "placement_provider list \<Rightarrow> (string, placement_provider) dict" where
  "providers_by_name providers = dict_of_list (map (\<lambda>p. (pp_provider p, p)) providers)"

definition validate_joint_placement :: "placement_request \<Rightarrow> placement_decision \<Rightarrow> py_error + unit" where
  "validate_joint_placement q d =
     (let by_name = providers_by_name (pq_providers q); roles = map pl_role (pd_assignments d) in
      if length by_name \<noteq> length (pq_providers q)
      then Inl (ValueError ''placement request contains duplicate Provider views'')
      else if \<not> distinct roles \<or> set roles \<noteq> set (pq_required_roles q)
      then Inl (ValueError ''placement decision does not cover every role exactly once'')
      else sum_then (check_assignments by_name (pd_assignments d) []) (\<lambda>totals.
        sum_then (check_totals by_name totals) (\<lambda>_.
          check_fallbacks (pq_required_roles q) (dict_keys by_name) (pd_fallback_order d))))"

section \<open>What a valid placement is\<close>

definition placed_mb :: "string \<Rightarrow> placement_assignment list \<Rightarrow> int" where
  "placed_mb n assignments = sum_list (map pl_required_gpu_memory_mb (filter (\<lambda>a. pl_provider a = n) assignments))"

definition within_offer :: "placement_assignment \<Rightarrow> placement_provider \<Rightarrow> bool" where
  "within_offer a p \<longleftrightarrow> pp_provider p = pl_provider a \<and> pl_role a \<in> set (pp_accepted_roles p)
     \<and> pl_backend a \<in> set (pp_backends p)"

definition joint_placement_ok :: "placement_request \<Rightarrow> placement_decision \<Rightarrow> bool" where
  "joint_placement_ok q d \<longleftrightarrow>
     distinct (map pp_provider (pq_providers q))
     \<and> distinct (map pl_role (pd_assignments d)) \<and> pl_role ` set (pd_assignments d) = set (pq_required_roles q)
     \<and> (\<forall>a \<in> set (pd_assignments d). \<exists>p \<in> set (pq_providers q). within_offer a p)
     \<and> (\<forall>a \<in> set (pd_assignments d). \<forall>p \<in> set (pq_providers q). pp_provider p = pl_provider a \<longrightarrow>
         placed_mb (pp_provider p) (pd_assignments d) \<le> pp_usable_gpu_memory_mb p)
     \<and> (\<forall>(role, fallbacks) \<in> set (pd_fallback_order d). role \<in> set (pq_required_roles q) \<and> distinct fallbacks
         \<and> set fallbacks \<subseteq> pp_provider ` set (pq_providers q))"

definition book_gpu :: "placement_assignment \<Rightarrow> (string, int) dict \<Rightarrow> (string, int) dict" where
  "book_gpu a totals = dict_set (pl_provider a) (dict_get0 totals (pl_provider a) + pl_required_gpu_memory_mb a) totals"

lemma check_assignments_iff:
  "check_assignments by_name as totals = Inr t \<longleftrightarrow>
     (\<forall>a \<in> set as. \<exists>p. dict_get by_name (pl_provider a) = Some p \<and> pl_role a \<in> set (pp_accepted_roles p)
        \<and> pl_backend a \<in> set (pp_backends p)) \<and> t = fold book_gpu as totals"
  by (induction as arbitrary: totals) (auto simp: book_gpu_def split: option.split)

lemma fold_book_gpu:
  "dict_get0 (fold book_gpu as totals) n = dict_get0 totals n + placed_mb n as
    \<and> (dict_has (fold book_gpu as totals) n \<longleftrightarrow> dict_has totals n \<or> n \<in> pl_provider ` set as)
    \<and> (dict_ok totals \<longrightarrow> dict_ok (fold book_gpu as totals))"
  by (induction as arbitrary: totals) (auto simp: placed_mb_def book_gpu_def)

lemma check_totals_iff:
  "check_totals by_name totals = Inr () \<longleftrightarrow>
     (\<forall>(n, r) \<in> set totals. \<exists>p. dict_get by_name n = Some p \<and> r \<le> pp_usable_gpu_memory_mb p)"
  by (induction totals) (auto split: option.splits if_splits)

lemma check_fallbacks_iff:
  "check_fallbacks roles allowed order = Inr () \<longleftrightarrow>
     (\<forall>(role, fallbacks) \<in> set order. role \<in> set roles \<and> distinct fallbacks \<and> set fallbacks \<subseteq> set allowed)"
  by (induction order) (auto split: if_splits)

lemma length_dict_of_list: "length (dict_of_list xs) = length xs \<longleftrightarrow> distinct (map fst xs)"
proof -
  have "distinct (dict_keys (dict_of_list xs))" using dict_ok_of_list [of xs] by (simp add: dict_ok_def)
  then have "length (dict_of_list xs) = card (set (dict_keys (dict_of_list xs)))" using distinct_card by fastforce
  also have "\<dots> = card (set (map fst xs))" using dict_keys_of_list [of xs] by simp
  finally show ?thesis using card_distinct [of "map fst xs"] distinct_card [of "map fst xs"] by auto
qed

lemma providers_by_name_distinct:
  assumes "distinct (map pp_provider ps)"
  shows "dict_get (providers_by_name ps) n = Some p \<longleftrightarrow> p \<in> set ps \<and> pp_provider p = n"
    and "dict_keys (providers_by_name ps) = map pp_provider ps"
proof -
  have d: "distinct (map fst (map (\<lambda>p. (pp_provider p, p)) ps))" using assms by (simp add: comp_def)
  then have e: "providers_by_name ps = map (\<lambda>p. (pp_provider p, p)) ps"
    unfolding providers_by_name_def by (rule dict_of_list_distinct)
  show "dict_keys (providers_by_name ps) = map pp_provider ps" by (simp add: e comp_def)
  have "dict_ok (providers_by_name ps)" by (simp add: providers_by_name_def)
  then show "dict_get (providers_by_name ps) n = Some p \<longleftrightarrow> p \<in> set ps \<and> pp_provider p = n"
    by (auto simp: dict_get_iff e)
qed

lemma totals_within_offers:
  assumes "distinct (map pp_provider ps)" and "\<forall>a \<in> set as. pl_provider a \<in> pp_provider ` set ps"
  shows "check_totals (providers_by_name ps) (fold book_gpu as []) = Inr () \<longleftrightarrow>
     (\<forall>a \<in> set as. \<forall>p \<in> set ps. pp_provider p = pl_provider a \<longrightarrow> placed_mb (pp_provider p) as \<le> pp_usable_gpu_memory_mb p)"
proof -
  let ?t = "fold book_gpu as []"
  have t: "dict_ok ?t" "\<And>n. dict_get0 ?t n = placed_mb n as" "\<And>n. dict_has ?t n \<longleftrightarrow> n \<in> pl_provider ` set as"
    using fold_book_gpu [of as "[]"] by (simp_all add: dict_get0_def dict_has_def)
  have items: "(n, r) \<in> set ?t \<longleftrightarrow> n \<in> pl_provider ` set as \<and> r = placed_mb n as" for n r
  proof -
    have "(n, r) \<in> set ?t \<longleftrightarrow> dict_get ?t n = Some r" using t(1) by (simp add: dict_get_iff)
    also have "\<dots> \<longleftrightarrow> dict_has ?t n \<and> r = dict_get0 ?t n" by (auto simp: dict_has_def dict_get0_def)
    finally show ?thesis by (simp add: t)
  qed
  have unique: "p = p'" if "p \<in> set ps" "p' \<in> set ps" "pp_provider p = pp_provider p'" for p p'
    using assms(1) that by (auto simp: distinct_map dest: inj_onD)
  have "check_totals (providers_by_name ps) ?t = Inr () \<longleftrightarrow>
      (\<forall>a \<in> set as. \<exists>p. dict_get (providers_by_name ps) (pl_provider a) = Some p
        \<and> placed_mb (pl_provider a) as \<le> pp_usable_gpu_memory_mb p)"
    unfolding check_totals_iff by (force simp: items split: prod.splits)
  also have "\<dots> \<longleftrightarrow> (\<forall>a \<in> set as. \<exists>p \<in> set ps. pp_provider p = pl_provider a
      \<and> placed_mb (pl_provider a) as \<le> pp_usable_gpu_memory_mb p)"
    using providers_by_name_distinct(1) [OF assms(1)] by blast
  also have "\<dots> \<longleftrightarrow> (\<forall>a \<in> set as. \<forall>p \<in> set ps. pp_provider p = pl_provider a \<longrightarrow>
      placed_mb (pp_provider p) as \<le> pp_usable_gpu_memory_mb p)"
    using assms(2) unique by (intro ball_cong refl) (metis imageE)
  finally show ?thesis .
qed

text \<open>
  C33: The joint placement check is exact. A decision passes exactly when the provider views are
  distinct, every required role is assigned once, every assignment is within the offer of its
  Provider, the GPU memory of all assignments of a Provider together is within what it offers, and
  every fallback names a required role and distinct providers of the request.
\<close>

theorem joint_placement_exact: "validate_joint_placement q d = Inr () \<longleftrightarrow> joint_placement_ok q d"
proof (cases "distinct (map pp_provider (pq_providers q)) \<and> distinct (map pl_role (pd_assignments d))
    \<and> pl_role ` set (pd_assignments d) = set (pq_required_roles q)")
  case False
  have "length (providers_by_name (pq_providers q)) = length (pq_providers q) \<longleftrightarrow> distinct (map pp_provider (pq_providers q))"
    using length_dict_of_list [of "map (\<lambda>p. (pp_provider p, p)) (pq_providers q)"] by (simp add: providers_by_name_def comp_def)
  with False show ?thesis by (auto simp: validate_joint_placement_def joint_placement_ok_def Let_def)
next
  case True
  let ?by = "providers_by_name (pq_providers q)"
  have len: "length ?by = length (pq_providers q)"
    using True length_dict_of_list [of "map (\<lambda>p. (pp_provider p, p)) (pq_providers q)"] by (simp add: providers_by_name_def comp_def)
  let ?t = "fold book_gpu (pd_assignments d) []"
  let ?in = "\<forall>a \<in> set (pd_assignments d). \<exists>p \<in> set (pq_providers q). within_offer a p"
  have ok: "check_assignments ?by (pd_assignments d) [] = Inr t \<longleftrightarrow> ?in \<and> t = ?t" for t
    unfolding check_assignments_iff using True by (auto simp: providers_by_name_distinct(1) within_offer_def)
  show ?thesis
  proof (cases ?in)
    case False
    then have "isl (check_assignments ?by (pd_assignments d) [])" using ok by (cases "check_assignments ?by (pd_assignments d) []") auto
    with False True len show ?thesis
      by (auto simp: validate_joint_placement_def joint_placement_ok_def Let_def isl_def)
  next
    case in_offers: True
    then have run: "check_assignments ?by (pd_assignments d) [] = Inr ?t" using ok by simp
    have "\<forall>a \<in> set (pd_assignments d). pl_provider a \<in> pp_provider ` set (pq_providers q)"
      using in_offers by (force simp: within_offer_def)
    note totals = totals_within_offers [OF conjunct1 [OF True] this]
    have "validate_joint_placement q d = Inr () \<longleftrightarrow> check_totals ?by ?t = Inr ()
        \<and> check_fallbacks (pq_required_roles q) (dict_keys ?by) (pd_fallback_order d) = Inr ()"
      using True len by (simp add: validate_joint_placement_def Let_def run sum_then_Inr)
    also have "\<dots> \<longleftrightarrow> joint_placement_ok q d"
      unfolding totals check_fallbacks_iff joint_placement_ok_def
      using True in_offers by (simp add: providers_by_name_distinct(2))
    finally show ?thesis .
  qed
qed

section \<open>What the searches find\<close>

fun json_fields :: "json \<Rightarrow> string set"
  and json_item_fields :: "json list \<Rightarrow> string set"
  and json_member_fields :: "(string \<times> json) list \<Rightarrow> string set" where
  "json_fields (JObj kvs) = json_member_fields kvs"
| "json_fields (JList vs) = json_item_fields vs"
| "json_fields v = {}"
| "json_item_fields [] = {}"
| "json_item_fields (v # vs) = json_fields v \<union> json_item_fields vs"
| "json_member_fields [] = {}"
| "json_member_fields ((k, v) # kvs) = insert k (json_fields v \<union> json_member_fields kvs)"

text \<open>A value passes exactly when no object at any depth has a forbidden field.\<close>

lemma reject_sensitive_exact:
  "reject_sensitive v = Inr () \<longleftrightarrow> (\<forall>k \<in> json_fields v. plain_field k \<notin> FORBIDDEN_POLICY_FIELDS)"
  "reject_sensitive_items vs = Inr () \<longleftrightarrow> (\<forall>k \<in> json_item_fields vs. plain_field k \<notin> FORBIDDEN_POLICY_FIELDS)"
  "reject_sensitive_fields kvs = Inr () \<longleftrightarrow> (\<forall>k \<in> json_member_fields kvs. plain_field k \<notin> FORBIDDEN_POLICY_FIELDS)"
  by (induction v and vs and kvs rule: json_fields_json_item_fields_json_member_fields.induct) (auto simp: sum_then_Inr)

lemma reject_placement_exact:
  "reject_placement field v = Inr () \<longleftrightarrow> \<not> field_forbidden field \<and> (\<forall>k \<in> json_fields v. \<not> field_forbidden k)"
  "reject_placement_items vs = Inr () \<longleftrightarrow> (\<forall>k \<in> json_item_fields vs. \<not> field_forbidden k)"
  "reject_placement_fields kvs = Inr () \<longleftrightarrow> (\<forall>k \<in> json_member_fields kvs. \<not> field_forbidden k)"
proof -
  have unnamed: "\<not> field_forbidden []"
    by (simp add: field_forbidden_def plain_field_def FORBIDDEN_PLACEMENT_FIELDS_def ends_with_def)
  show "reject_placement field v = Inr () \<longleftrightarrow> \<not> field_forbidden field \<and> (\<forall>k \<in> json_fields v. \<not> field_forbidden k)"
    "reject_placement_items vs = Inr () \<longleftrightarrow> (\<forall>k \<in> json_item_fields vs. \<not> field_forbidden k)"
    "reject_placement_fields kvs = Inr () \<longleftrightarrow> (\<forall>k \<in> json_member_fields kvs. \<not> field_forbidden k)"
    using unnamed
    by (induction field v and vs and kvs rule: reject_placement_reject_placement_items_reject_placement_fields.induct)
      (auto simp: sum_then_Inr split: json.split)
qed

end
