(* ===== verification/Eligibility.thy ===== *)
theory Eligibility
  imports Interfaces "HOL-Library.Multiset"
begin

text \<open>
  \<open>core/eligibility.py\<close>, the fail-closed test of provider candidates, and
  \<open>core/execution_intent.py\<close>, the coordinator of execution intents.

  \<^item> A candidate that arrives as a mapping is a JSON object; \<open>rep\<close> is the \<open>repr\<close> of a list or a
    dictionary, and \<open>dict_of\<close> is \<open>dict(v)\<close> for a value that is not a mapping.
  \<^item> The coordinator only compares intents and replaces their state: the other fields of an intent
    are one component of the record.
\<close>

section \<open>Candidates\<close>

record candidate =
  cf_provider :: string
  cf_provider_boot_epoch :: string
  cf_observed_at_ms :: int
  cf_fragment_digests :: "string list"
  cf_lease_id :: string
  cf_lease_expires_at_ms :: int
  cf_feasible :: bool
  cf_rejection_reason :: string
  cf_attributes :: "(string, json) dict"

record requirements =
  er_at_ms :: int
  er_maximum_age_ms :: int
  er_required_fragment_digest :: string
  er_lease_required :: bool
  er_expected_provider_boot_epoch :: string
  er_excluded_providers :: "string list"

record decision =
  ed_eligible :: bool
  ed_reason :: string
  ed_candidate :: candidate

definition make_candidate :: "candidate \<Rightarrow> py_error + candidate" where
  "make_candidate c =
     (if cf_provider c = [] \<or> cf_provider_boot_epoch c = [] \<or> cf_observed_at_ms c \<le> 0
      then Inl (ValueError ''candidate facts require provider, boot epoch and observation'') else Inr c)"

definition make_requirements :: "requirements \<Rightarrow> py_error + requirements" where
  "make_requirements r =
     (if er_at_ms r \<le> 0 \<or> er_maximum_age_ms r < 0 then Inl (ValueError ''eligibility time bounds are invalid'') else Inr r)"

text \<open>\<open>payload.get(k, payload.get(alias, v))\<close>.\<close>

definition get_alias :: "(string, json) dict \<Rightarrow> string \<Rightarrow> string \<Rightarrow> json \<Rightarrow> json" where
  "get_alias d k alias v = (case dict_get d k of
     Some x \<Rightarrow> x
   | None \<Rightarrow> (case dict_get d alias of Some x \<Rightarrow> x | None \<Rightarrow> v))"

definition normalize_mapping :: "(json \<Rightarrow> string) \<Rightarrow> (json \<Rightarrow> py_error + (string, json) dict) \<Rightarrow> (string, json) dict
    \<Rightarrow> py_error + candidate" where
  "normalize_mapping rep dict_of d =
     sum_then (py_int (get_alias d ''observed_at_ms'' ''observedAtMs'' (JInt 0))) (\<lambda>observed_at_ms.
     sum_then (py_iter (get_alias d ''fragment_digests'' ''fragmentDigests'' (JList []))) (\<lambda>fragments.
     sum_then (py_int (get_alias d ''lease_expires_at_ms'' ''leaseExpiresAtMs'' (JInt 0))) (\<lambda>lease_expires_at_ms.
     sum_then (py_dict dict_of (case dict_get d ''attributes'' of None \<Rightarrow> JObj [] | Some v \<Rightarrow> v)) (\<lambda>attributes.
       make_candidate \<lparr>
         cf_provider = py_str rep (get_alias d ''provider'' ''providerName'' (JStr [])),
         cf_provider_boot_epoch = py_str rep (get_alias d ''provider_boot_epoch'' ''providerBootEpoch'' (JStr [])),
         cf_observed_at_ms = observed_at_ms,
         cf_fragment_digests = sort (map (py_str rep) fragments),
         cf_lease_id = py_str rep (get_alias d ''lease_id'' ''leaseId'' (JStr [])),
         cf_lease_expires_at_ms = lease_expires_at_ms,
         cf_feasible = py_truth (case dict_get d ''feasible'' of None \<Rightarrow> JBool True | Some v \<Rightarrow> v),
         cf_rejection_reason = py_str rep (get_alias d ''rejection_reason'' ''rejectionReason'' (JStr [])),
         cf_attributes = attributes\<rparr>))))"

datatype candidate_payload = Facts candidate | Payload "(string, json) dict"

definition normalize_candidate :: "(json \<Rightarrow> string) \<Rightarrow> (json \<Rightarrow> py_error + (string, json) dict) \<Rightarrow> candidate_payload
    \<Rightarrow> py_error + candidate" where
  "normalize_candidate rep dict_of x = (case x of Facts c \<Rightarrow> Inr c | Payload d \<Rightarrow> normalize_mapping rep dict_of d)"

definition decide_candidate :: "candidate \<Rightarrow> requirements \<Rightarrow> bool \<times> string" where
  "decide_candidate c r =
     (let age = er_at_ms r - cf_observed_at_ms c in
      if cf_provider c \<in> set (er_excluded_providers r) then (False, ''PROVIDER_EXCLUDED'')
      else if er_expected_provider_boot_epoch r \<noteq> [] \<and> cf_provider_boot_epoch c \<noteq> er_expected_provider_boot_epoch r
      then (False, ''PROVIDER_BOOT_EPOCH_MISMATCH'')
      else if age < 0 \<or> er_maximum_age_ms r < age then (False, ''CANDIDATE_STALE'')
      else if \<not> cf_feasible c
      then (False, if cf_rejection_reason c \<noteq> [] then cf_rejection_reason c else ''CANDIDATE_INFEASIBLE'')
      else if er_required_fragment_digest r \<noteq> [] \<and> er_required_fragment_digest r \<notin> set (cf_fragment_digests c)
      then (False, ''FRAGMENT_UNAVAILABLE'')
      else if er_lease_required r \<and> cf_lease_id c = [] then (False, ''LEASE_REQUIRED'')
      else if er_lease_required r \<and> cf_lease_expires_at_ms c \<le> er_at_ms r then (False, ''LEASE_EXPIRED'')
      else (True, ''ELIGIBLE''))"

definition evaluate_candidate :: "(json \<Rightarrow> string) \<Rightarrow> (json \<Rightarrow> py_error + (string, json) dict) \<Rightarrow> candidate_payload
    \<Rightarrow> requirements \<Rightarrow> py_error + decision" where
  "evaluate_candidate rep dict_of x r =
     sum_then (normalize_candidate rep dict_of x) (\<lambda>c.
       Inr \<lparr>ed_eligible = fst (decide_candidate c r), ed_reason = snd (decide_candidate c r), ed_candidate = c\<rparr>)"

text \<open>Sorting by \<open>(provider, provider_boot_epoch)\<close>: a stable sort by the second and then by the first.\<close>

definition eligible_candidates :: "(json \<Rightarrow> string) \<Rightarrow> (json \<Rightarrow> py_error + (string, json) dict) \<Rightarrow> candidate_payload list
    \<Rightarrow> requirements \<Rightarrow> py_error + candidate list" where
  "eligible_candidates rep dict_of xs r =
     sum_then (sum_map (\<lambda>x. evaluate_candidate rep dict_of x r) xs) (\<lambda>decisions.
       Inr (sort_key cf_provider (sort_key cf_provider_boot_epoch (map ed_candidate (filter ed_eligible decisions)))))"

section \<open>Execution intents\<close>

record intent =
  xi_intent_id :: string
  xi_content :: json
  xi_state :: string

type_synonym intents = "(string, intent) dict"

definition intent_prepare :: "intent \<Rightarrow> intents \<Rightarrow> (intent, intents) outcome" where
  "intent_prepare x s =
     (case dict_get s (xi_intent_id x) of
        Some current \<Rightarrow>
          if current = x then (Inr current, s) else (Inl (ValueError ''conflicting execution intent''), s)
      | None \<Rightarrow>
          if xi_state x \<noteq> ''PREPARED'' then (Inl (ValueError ''new execution intent must be PREPARED''), s)
          else (Inr x, dict_set (xi_intent_id x) x s))"

definition intent_revalidate :: "(intent \<Rightarrow> py_error option) \<Rightarrow> string \<Rightarrow> intents \<Rightarrow> (unit, intents) outcome" where
  "intent_revalidate validator intent_id s =
     (case dict_get s intent_id of
        None \<Rightarrow> (Inl KeyError, s)
      | Some x \<Rightarrow> ((case validator x of Some e \<Rightarrow> Inl e | None \<Rightarrow> Inr ()), s))"

definition intent_moved :: "string \<Rightarrow> intent \<Rightarrow> string \<Rightarrow> intents \<Rightarrow> (intent, intents) outcome" where
  "intent_moved intent_id x state s = (Inr (x\<lparr>xi_state := state\<rparr>), dict_set intent_id (x\<lparr>xi_state := state\<rparr>) s)"

definition intent_commit :: "string \<Rightarrow> intents \<Rightarrow> (intent, intents) outcome" where
  "intent_commit intent_id s =
     (case dict_get s intent_id of
        None \<Rightarrow> (Inl KeyError, s)
      | Some x \<Rightarrow>
          if xi_state x = ''COMMITTED'' then (Inr x, s)
          else if xi_state x \<noteq> ''PREPARED'' then (Inl (ValueError ''only prepared intent may commit''), s)
          else intent_moved intent_id x ''COMMITTED'' s)"

definition intent_abort :: "string \<Rightarrow> intents \<Rightarrow> (intent, intents) outcome" where
  "intent_abort intent_id s =
     (case dict_get s intent_id of
        None \<Rightarrow> (Inl KeyError, s)
      | Some x \<Rightarrow>
          if xi_state x = ''COMMITTED'' then (Inl (ValueError ''committed intent cannot be aborted''), s)
          else intent_moved intent_id x ''ABORTED'' s)"

definition intent_release :: "string \<Rightarrow> intents \<Rightarrow> (intent, intents) outcome" where
  "intent_release intent_id s =
     (case dict_get s intent_id of
        None \<Rightarrow> (Inl KeyError, s)
      | Some x \<Rightarrow> intent_moved intent_id x ''RELEASED'' s)"

definition intent_get :: "string \<Rightarrow> intents \<Rightarrow> py_error + intent" where
  "intent_get intent_id s = (case dict_get s intent_id of None \<Rightarrow> Inl KeyError | Some x \<Rightarrow> Inr x)"

section \<open>The eligible candidates\<close>

definition candidate_ok :: "requirements \<Rightarrow> candidate \<Rightarrow> bool" where
  "candidate_ok r c \<longleftrightarrow> cf_provider c \<notin> set (er_excluded_providers r)
     \<and> er_expected_provider_boot_epoch r \<in> {[], cf_provider_boot_epoch c}
     \<and> cf_observed_at_ms c \<le> er_at_ms r \<and> er_at_ms r \<le> cf_observed_at_ms c + er_maximum_age_ms r \<and> cf_feasible c
     \<and> er_required_fragment_digest r \<in> insert [] (set (cf_fragment_digests c))
     \<and> (er_lease_required r \<longrightarrow> cf_lease_id c \<noteq> [] \<and> er_at_ms r < cf_lease_expires_at_ms c)"

lemma decide_candidate_iff: "fst (decide_candidate c r) \<longleftrightarrow> candidate_ok r c"
  by (auto simp: decide_candidate_def candidate_ok_def Let_def)

definition candidate_before :: "candidate \<Rightarrow> candidate \<Rightarrow> bool" where
  "candidate_before c d \<longleftrightarrow> cf_provider c < cf_provider d
     \<or> cf_provider c = cf_provider d \<and> cf_provider_boot_epoch c \<le> cf_provider_boot_epoch d"

lemma sorted_wrt_insort:
  assumes "sorted_wrt (\<lambda>x y. g x \<le> g y) (x # xs)" and "sorted_wrt (\<lambda>x y. f x < f y \<or> f x = f y \<and> g x \<le> g y) ys"
    and "\<And>y. y \<in> set ys \<Longrightarrow> f x = f y \<Longrightarrow> g x \<le> g y"
  shows "sorted_wrt (\<lambda>x y. f x < f y \<or> f x = f y \<and> g x \<le> g y) (insort_key (f :: 'a \<Rightarrow> 'k :: linorder) x ys)"
  using assms(2,3)
proof (induction ys)
  case (Cons y ys)
  then show ?case by (auto simp: set_insort_key)
qed simp

lemma sorted_by_both:
  fixes f g :: "'a \<Rightarrow> 'k :: linorder"
  assumes "sorted_wrt (\<lambda>x y. g x \<le> g y) xs"
  shows "sorted_wrt (\<lambda>x y. f x < f y \<or> f x = f y \<and> g x \<le> g y) (sort_key f xs)"
  using assms
proof (induction xs)
  case (Cons x xs)
  then show ?case by (auto simp: sort_key_simps intro!: sorted_wrt_insort [of g x xs])
qed simp

lemma sum_map_length: "sum_map f xs = Inr ys \<Longrightarrow> list_all2 (\<lambda>x y. f x = Inr y) xs ys"
  by (induction xs arbitrary: ys) (auto simp: sum_then_Inr)

text \<open>
  C35: Which candidates pass. If every candidate can be normalised, the result is the list of exactly
  the normalised candidates that satisfy the requirements, each as often as it was given, in the
  order of provider and boot epoch.
\<close>

theorem eligible_candidates_exact:
  assumes "eligible_candidates rep dict_of xs r = Inr cs"
  shows "\<exists>facts. list_all2 (\<lambda>x c. normalize_candidate rep dict_of x = Inr c) xs facts
    \<and> mset cs = mset (filter (candidate_ok r) facts) \<and> sorted_wrt candidate_before cs"
proof -
  obtain ds where ds: "sum_map (\<lambda>x. evaluate_candidate rep dict_of x r) xs = Inr ds"
    and cs: "cs = sort_key cf_provider (sort_key cf_provider_boot_epoch (map ed_candidate (filter ed_eligible ds)))"
    using assms by (auto simp: eligible_candidates_def sum_then_Inr)
  have all: "list_all2 (\<lambda>x d. normalize_candidate rep dict_of x = Inr (ed_candidate d) \<and> (ed_eligible d \<longleftrightarrow> candidate_ok r (ed_candidate d))) xs ds"
    using sum_map_length [OF ds] by (rule list_all2_mono) (auto simp: evaluate_candidate_def sum_then_Inr decide_candidate_iff)
  then have "list_all2 (\<lambda>x c. normalize_candidate rep dict_of x = Inr c) xs (map ed_candidate ds)"
    by (simp add: list.rel_map) (erule list_all2_mono, simp)
  moreover have "ed_eligible d \<longleftrightarrow> candidate_ok r (ed_candidate d)" if "d \<in> set ds" for d
    using all that by (auto simp: list_all2_conv_all_nth in_set_conv_nth)
  then have "filter ed_eligible ds = filter (candidate_ok r \<circ> ed_candidate) ds" by (intro filter_cong) simp_all
  then have "mset cs = mset (filter (candidate_ok r) (map ed_candidate ds))" by (simp add: cs filter_map)
  moreover have "sorted_wrt candidate_before cs"
  proof -
    have "sorted_wrt (\<lambda>x y. cf_provider_boot_epoch x \<le> cf_provider_boot_epoch y)
        (sort_key cf_provider_boot_epoch (map ed_candidate (filter ed_eligible ds)))"
      using sorted_sort_key [of cf_provider_boot_epoch] by (simp add: sorted_map)
    from sorted_by_both [OF this, of cf_provider] show ?thesis unfolding cs candidate_before_def [abs_def] .
  qed
  ultimately show ?thesis by blast
qed

section \<open>Intents that do not commit\<close>

inductive intent_step :: "intents \<Rightarrow> intents \<Rightarrow> bool" where
  prepare: "intent_prepare x s = (r, t) \<Longrightarrow> intent_step s t"
| revalidate: "intent_revalidate validator i s = (u, t) \<Longrightarrow> intent_step s t"
| commit: "intent_commit i s = (r, t) \<Longrightarrow> intent_step s t"
| abort: "intent_abort i s = (r, t) \<Longrightarrow> intent_step s t"
| release: "intent_release i s = (r, t) \<Longrightarrow> intent_step s t"

definition closed_intent :: "intents \<Rightarrow> string \<Rightarrow> bool" where
  "closed_intent s i \<longleftrightarrow> (\<exists>x. dict_get s i = Some x \<and> xi_state x \<in> {''ABORTED'', ''RELEASED''})"

lemma closed_step: "intent_step s t \<Longrightarrow> closed_intent s i \<Longrightarrow> closed_intent t i"
  by (induction rule: intent_step.induct)
    (auto simp: closed_intent_def intent_prepare_def intent_revalidate_def intent_commit_def intent_abort_def intent_release_def
      intent_moved_def dict_simps split: option.splits if_splits)

text \<open>
  The end of an intent is a terminal outcome: an intent that was aborted or released stays so, and no
  later commit of it succeeds.
\<close>

interpretation intent_end: terminal_fence intent_step "\<lambda>s. closed_intent s i" False "\<lambda>s j. j = i \<and> \<not> isl (fst (intent_commit j s))" for i
proof
  show "closed_intent t i = closed_intent s i" if "closed_intent s i \<noteq> False" "intent_step s t" for s t
    using that closed_step by simp
  show "\<not> (j = i \<and> \<not> isl (fst (intent_commit j s)))" if "closed_intent s i \<noteq> False" for s j
    using that by (auto simp: closed_intent_def intent_commit_def)
qed

lemma closed_intent_never_commits:
  "intent_step\<^sup>*\<^sup>* s t \<Longrightarrow> closed_intent s i \<Longrightarrow> isl (fst (intent_commit i t))"
  using intent_end.terminal_rejects_forever [of s t i i] by auto

text \<open>Abort refuses a committed intent, but accepts it after a release.\<close>

lemma committed_intent_aborted_after_release:
  "xi_state x = ''COMMITTED'' \<Longrightarrow> dict_get s i = Some x \<Longrightarrow> isl (fst (intent_abort i s))
     \<and> fst (intent_abort i (snd (intent_release i s))) = Inr (x\<lparr>xi_state := ''ABORTED''\<rparr>)"
  by (simp add: intent_abort_def intent_release_def intent_moved_def dict_simps)

definition demo_requirements :: requirements where
  "demo_requirements = \<lparr>er_at_ms = 10, er_maximum_age_ms = 5, er_required_fragment_digest = [], er_lease_required = False,
     er_expected_provider_boot_epoch = [], er_excluded_providers = [''x'']\<rparr>"

definition demo_candidate :: "string \<Rightarrow> candidate" where
  "demo_candidate p = \<lparr>cf_provider = p, cf_provider_boot_epoch = ''e'', cf_observed_at_ms = 8, cf_fragment_digests = [],
     cf_lease_id = [], cf_lease_expires_at_ms = 0, cf_feasible = True, cf_rejection_reason = [], cf_attributes = []\<rparr>"

theorem eligible_candidates_exact_witness:
  "\<exists>facts. list_all2 (\<lambda>x c. normalize_candidate (\<lambda>_. []) (\<lambda>_. Inl KeyError) x = Inr c)
      [Facts (demo_candidate ''b''), Facts (demo_candidate ''x''), Facts (demo_candidate ''a'')] facts
    \<and> mset [demo_candidate ''a'', demo_candidate ''b''] = mset (filter (candidate_ok demo_requirements) facts)
    \<and> sorted_wrt candidate_before [demo_candidate ''a'', demo_candidate ''b'']"
proof (rule eligible_candidates_exact)
  show "eligible_candidates (\<lambda>_. []) (\<lambda>_. Inl KeyError)
      [Facts (demo_candidate ''b''), Facts (demo_candidate ''x''), Facts (demo_candidate ''a'')] demo_requirements
    = Inr [demo_candidate ''a'', demo_candidate ''b'']" by code_simp
qed

end
