(* ===== verification/Tensor_Data.thy ===== *)
theory Tensor_Data
  imports Interfaces "HOL-Library.Multiset"
begin

text \<open>
  \<open>core/hybrid_contracts.py\<close>: tensor groups and hybrid plans, the authenticated data segments
  that ranks exchange, and the replay window of an operation.

  \<^item> \<open>mac k m\<close> is \<open>hmac.new(k, m, sha256).hexdigest()\<close>. Random nonces are arguments.
  \<^item> Byte strings are strings; \<open>str.encode\<close> is UTF-8, here for code points below 256.
\<close>

section \<open>Tensor groups\<close>

record tensor_slice =
  ts_tensor :: string
  ts_rank :: int
  ts_disposition :: string
  ts_axis :: "int option"
  ts_begin :: int
  ts_end :: int
  ts_layout :: string

definition tensor_dispositions :: "string set" where
  "tensor_dispositions = {''SHARDED'', ''REPLICATED'', ''OWNER_ONLY'', ''LOCAL_DERIVED''}"

definition make_tensor_slice :: "tensor_slice \<Rightarrow> py_error + tensor_slice" where
  "make_tensor_slice s =
     (if ts_disposition s \<notin> tensor_dispositions
      then Inl (ValueError (''is not a valid TensorDisposition: '' @ ts_disposition s))
      else if ts_tensor s = [] \<or> ts_rank s < 0 \<or> ts_layout s = [] \<or> ts_begin s < 0 \<or> ts_end s < ts_begin s
      then Inl (ValueError ''invalid tensor slice'')
      else if ts_disposition s = ''SHARDED''
      then if ts_axis s = None \<or> ts_end s \<le> ts_begin s
        then Inl (ValueError ''sharded tensor slice requires a non-empty axis range'') else Inr s
      else if (case ts_axis s of None \<Rightarrow> False | Some a \<Rightarrow> a < 0)
      then Inl (ValueError ''tensor axis must be non-negative'') else Inr s)"

record tensor_group =
  tg_role :: string
  tg_epoch :: string
  tg_participants :: "string list"
  tg_tensors :: "tensor_slice list"

text \<open>The ranges of the sharded slices of a tensor, sorted by begin and then by end.\<close>

definition sharded :: "string \<Rightarrow> tensor_slice \<Rightarrow> bool" where
  "sharded tensor s \<longleftrightarrow> ts_tensor s = tensor \<and> ts_disposition s = ''SHARDED''"

definition sharded_ranges :: "string \<Rightarrow> tensor_slice list \<Rightarrow> (int \<times> int) list" where
  "sharded_ranges tensor ss = sort_key fst (sort_key snd (map (\<lambda>s. (ts_begin s, ts_end s)) (filter (sharded tensor) ss)))"

definition ranges_overlap :: "(int \<times> int) list \<Rightarrow> bool" where
  "ranges_overlap ranges \<longleftrightarrow> list_ex (\<lambda>((b, e), (c, f)). c < e \<and> b < e) (zip ranges (tl ranges))"

definition make_tensor_group :: "tensor_group \<Rightarrow> py_error + tensor_group" where
  "make_tensor_group g =
     (if tg_role g = [] \<or> tg_epoch g = [] \<or> tg_participants g = [] \<or> \<not> distinct (tg_participants g) \<or> tg_tensors g = []
      then Inl (ValueError ''local tensor group is incomplete'')
      else if ts_rank ` set (tg_tensors g) \<noteq> int ` {0..<length (tg_participants g)}
      then Inl (ValueError ''tensor group rank cover is incomplete'')
      else if list_ex (\<lambda>s. ranges_overlap (sharded_ranges (ts_tensor s) (tg_tensors g))) (tg_tensors g)
      then Inl (ValueError ''overlapping sharded tensor ranges'')
      else Inr g)"

record redistribution =
  rd_producer_ranks :: "int list"
  rd_consumer_ranks :: "int list"
  rd_tensor :: string
  rd_operation :: string
  rd_epoch :: string
  rd_integrity_digest :: string

definition make_redistribution :: "redistribution \<Rightarrow> py_error + redistribution" where
  "make_redistribution r =
     (if rd_producer_ranks r = [] \<or> rd_consumer_ranks r = [] \<or> rd_tensor r = []
         \<or> rd_operation r \<notin> {''GATHER'', ''SCATTER'', ''RESHARD''} \<or> rd_epoch r = []
         \<or> \<not> starts_with (rd_integrity_digest r) ''sha256:''
      then Inl (ValueError ''invalid redistribution edge'') else Inr r)"

record hybrid_plan =
  hp_stages :: int
  hp_tensor_degrees :: "int list"
  hp_rank_labels :: "string list"
  hp_redistributions :: "redistribution list"

definition hybrid_rank_count :: "hybrid_plan \<Rightarrow> int" where
  "hybrid_rank_count p = sum_list (hp_tensor_degrees p)"

definition make_hybrid_plan :: "hybrid_plan \<Rightarrow> py_error + hybrid_plan" where
  "make_hybrid_plan p =
     (if hp_stages p \<le> 0 \<or> int (length (hp_tensor_degrees p)) \<noteq> hp_stages p
         \<or> list_ex (\<lambda>d. d < 1) (hp_tensor_degrees p)
         \<or> int (length (hp_rank_labels p)) \<noteq> sum_list (hp_tensor_degrees p)
         \<or> \<not> distinct (hp_rank_labels p)
      then Inl (ValueError ''hybrid plan rank/stage cover is incomplete'') else Inr p)"

section \<open>Data segments\<close>

definition utf8_encode :: "string \<Rightarrow> string" where
  "utf8_encode s = concat (map (\<lambda>c. let n = (of_char c :: nat) in
     if n < 128 then [c] else [char_of (192 + n div 64), char_of (128 + n mod 64)]) s)"

definition to_bytes8 :: "int \<Rightarrow> py_error + string" where
  "to_bytes8 n = (if n < 0 \<or> 2 ^ 64 \<le> n then Inl (OverflowError ''int too big to convert'')
     else Inr (map (\<lambda>i. char_of (nat (n div 256 ^ (7 - i) mod 256))) [0..<8]))"

record data_segment =
  dg_operation_id :: string
  dg_epoch :: string
  dg_producer :: string
  dg_consumer :: string
  dg_segment_no :: int
  dg_payload :: string
  dg_key :: string
  dg_nonce :: string
  dg_aad :: string
  dg_mac :: string

definition segment_mac :: "(string \<Rightarrow> string \<Rightarrow> string) \<Rightarrow> data_segment \<Rightarrow> py_error + string" where
  "segment_mac mac s = sum_then (to_bytes8 (dg_segment_no s)) (\<lambda>number.
     Inr (mac (dg_key s) (utf8_encode (dg_operation_id s) @ ''|'' @ utf8_encode (dg_epoch s) @ ''|'' @ number
       @ dg_nonce s @ dg_aad s @ dg_payload s)))"

definition make_data_segment :: "(string \<Rightarrow> string \<Rightarrow> string) \<Rightarrow> data_segment \<Rightarrow> py_error + data_segment" where
  "make_data_segment mac s =
     (if dg_operation_id s = [] \<or> dg_epoch s = [] \<or> dg_producer s = [] \<or> dg_consumer s = [] \<or> dg_segment_no s < 0
         \<or> dg_payload s = [] \<or> length (dg_key s) < 16 \<or> length (dg_nonce s) < 12 \<or> 32 < length (dg_nonce s)
      then Inl (ValueError ''invalid NDNSF_DATA_V1 segment'')
      else sum_then (segment_mac mac s) (\<lambda>expected.
        if dg_mac s \<noteq> [] \<and> dg_mac s \<noteq> expected then Inl (ValueError ''NDNSF_DATA_V1 segment MAC mismatch'')
        else Inr (s\<lparr>dg_mac := expected\<rparr>)))"

definition segment_create :: "(string \<Rightarrow> string \<Rightarrow> string) \<Rightarrow> string \<Rightarrow> data_segment \<Rightarrow> py_error + data_segment" where
  "segment_create mac random16 s = make_data_segment mac (s\<lparr>dg_nonce := random16, dg_mac := []\<rparr>)"

definition segment_verify :: "(string \<Rightarrow> string \<Rightarrow> string) \<Rightarrow> string \<Rightarrow> data_segment \<Rightarrow> py_error + unit" where
  "segment_verify mac key s = sum_then (make_data_segment mac (s\<lparr>dg_key := key, dg_mac := []\<rparr>)) (\<lambda>t.
     if dg_mac s \<noteq> dg_mac t then Inl (ValueError ''NDNSF_DATA_V1 replay/integrity verification failed'') else Inr ())"

record replay_window =
  rw_operation_id :: string
  rw_epoch :: string
  rw_max_segments :: int
  rw_seen :: "(int \<times> string) set"

definition window_open :: "string \<Rightarrow> string \<Rightarrow> int \<Rightarrow> py_error + replay_window" where
  "window_open operation_id epoch max_segments =
     (if operation_id = [] \<or> epoch = [] \<or> max_segments \<le> 0 then Inl (ValueError ''invalid DATA replay window'')
      else Inr \<lparr>rw_operation_id = operation_id, rw_epoch = epoch, rw_max_segments = max_segments, rw_seen = {}\<rparr>)"

definition window_accept :: "(string \<Rightarrow> string \<Rightarrow> string) \<Rightarrow> string \<Rightarrow> data_segment \<Rightarrow> replay_window
    \<Rightarrow> (unit, replay_window) outcome" where
  "window_accept mac key s w =
     (if dg_operation_id s \<noteq> rw_operation_id w \<or> dg_epoch s \<noteq> rw_epoch w
      then (Inl (ValueError ''DATA segment epoch binding mismatch''), w)
      else case segment_verify mac key s of
        Inl e \<Rightarrow> (Inl e, w)
      | Inr _ \<Rightarrow>
          if (dg_segment_no s, dg_nonce s) \<in> rw_seen w then (Inl (ValueError ''duplicate or replayed DATA segment''), w)
          else if rw_max_segments w \<le> int (card (rw_seen w)) then (Inl (RuntimeError ''DATA replay window is full''), w)
          else (Inr (), w\<lparr>rw_seen := insert (dg_segment_no s, dg_nonce s) (rw_seen w)\<rparr>))"

section \<open>Shards of a tensor do not overlap\<close>

lemma ranges_sorted: "sorted (map fst (sharded_ranges tensor ss))"
  by (simp add: sharded_ranges_def)

text \<open>In a list of non-empty ranges sorted by begin, no neighbours overlap only if no two do.\<close>

lemma disjoint_ranges:
  assumes "sorted (map fst rs)" and "\<And>b e. (b, e) \<in> set rs \<Longrightarrow> b < e" and "\<not> ranges_overlap rs"
    and "i < j" and "j < length rs"
  shows "snd (rs ! i) \<le> fst (rs ! j)"
proof -
  have step: "snd (rs ! k) \<le> fst (rs ! Suc k)" if "Suc k < length rs" for k
  proof -
    have "(rs ! k, rs ! Suc k) \<in> set (zip rs (tl rs))"
      using that by (auto simp: set_zip nth_tl intro!: exI [of _ k])
    then have "\<not> (fst (rs ! Suc k) < snd (rs ! k) \<and> fst (rs ! k) < snd (rs ! k))"
      using assms(3) by (force simp: ranges_overlap_def list_ex_iff case_prod_beta)
    moreover have "fst (rs ! k) < snd (rs ! k)" using assms(2) [of "fst (rs ! k)" "snd (rs ! k)"] that by simp
    ultimately show ?thesis by (simp add: case_prod_beta)
  qed
  have "snd (rs ! i) \<le> fst (rs ! Suc i)" using step assms(4,5) by simp
  also have "\<dots> \<le> fst (rs ! j)"
    using assms(1,4,5) sorted_nth_mono [of "map fst rs" "Suc i" j] by simp
  finally show ?thesis .
qed

lemma mset_pair_disjoint:
  assumes "mset xs = mset rs" and "\<And>i j. i < j \<Longrightarrow> j < length rs \<Longrightarrow> snd (rs ! i) \<le> fst (rs ! j)"
    and "{#x, y#} \<subseteq># mset xs"
  shows "snd x \<le> fst y \<or> snd y \<le> (fst x :: int)"
proof -
  have sub: "{#x, y#} \<subseteq># mset rs" using assms by simp
  obtain us vs where rs: "rs = us @ x # vs"
    using split_list [of x rs] mset_subset_eqD [OF sub, of x] by auto
  then have "y \<in># mset us + mset vs" using sub by (simp add: insert_subset_eq_iff)
  then consider "y \<in> set us" | "y \<in> set vs" by auto
  then show ?thesis
  proof cases
    case 1
    then obtain i where "i < length us" "us ! i = y" by (auto simp: in_set_conv_nth)
    then show ?thesis using assms(2) [of i "length us"] rs by (simp add: nth_append)
  next
    case 2
    then obtain i where "i < length vs" "vs ! i = y" by (auto simp: in_set_conv_nth)
    then show ?thesis using assms(2) [of "length us" "Suc (length us + i)"] rs by (simp add: nth_append)
  qed
qed

lemma pair_in_mset: "i < j \<Longrightarrow> j < length xs \<Longrightarrow> {#xs ! i, xs ! j#} \<subseteq># mset xs"
proof (induction xs arbitrary: i j)
  case (Cons x xs)
  obtain k where j: "j = Suc k" using Cons.prems by (cases j) auto
  show ?case
  proof (cases i)
    case 0
    then show ?thesis using j Cons.prems by simp
  next
    case (Suc l)
    with j Cons.prems Cons.IH [of l k] have "{#xs ! l, xs ! k#} \<subseteq># mset xs" by simp
    then show ?thesis using Suc j by (simp add: subset_mset.order_trans)
  qed
qed simp

lemma filter_pair:
  "i < j \<Longrightarrow> j < length xs \<Longrightarrow> P (xs ! i) \<Longrightarrow> P (xs ! j) \<Longrightarrow> {#f (xs ! i), f (xs ! j)#} \<subseteq># mset (map f (filter P xs))"
proof -
  assume ij: "i < j" "j < length xs" "P (xs ! i)" "P (xs ! j)"
  then have "filter_mset P {#xs ! i, xs ! j#} \<subseteq># filter_mset P (mset xs)"
    by (intro multiset_filter_mono pair_in_mset)
  then have "image_mset f {#xs ! i, xs ! j#} \<subseteq># image_mset f (filter_mset P (mset xs))"
    using ij by (intro image_mset_subseteq_mono) simp
  then show ?thesis by simp
qed

text \<open>
  What a tensor group guarantees. In a group that its constructor accepts, of slices that theirs
  accepts, the ranks are exactly those of the participants, and two sharded slices of the same
  tensor never overlap.
\<close>

lemma tensor_shards_disjoint:
  assumes "make_tensor_group g = Inr h" and "list_all (\<lambda>s. make_tensor_slice s = Inr s) (tg_tensors g)"
    and "i < j" and "j < length (tg_tensors g)"
    and "sharded n (tg_tensors g ! i)" and "sharded n (tg_tensors g ! j)"
  shows "h = g \<and> ts_rank ` set (tg_tensors g) = int ` {0..<length (tg_participants g)}
    \<and> {ts_begin (tg_tensors g ! i)..<ts_end (tg_tensors g ! i)} \<inter> {ts_begin (tg_tensors g ! j)..<ts_end (tg_tensors g ! j)} = {}"
proof -
  let ?ss = "tg_tensors g"
  let ?f = "\<lambda>s. (ts_begin s, ts_end s)"
  let ?rs = "sharded_ranges n ?ss"
  have h: "h = g" "ts_rank ` set ?ss = int ` {0..<length (tg_participants g)}"
    and apart: "list_all (\<lambda>s. \<not> ranges_overlap (sharded_ranges (ts_tensor s) ?ss)) ?ss"
    using assms(1) by (auto simp: make_tensor_group_def list_ex_iff list_all_iff split: if_splits)
  have "ts_tensor (?ss ! i) = n" using assms(5) by (simp add: sharded_def)
  then have "\<not> ranges_overlap ?rs" using apart assms(3,4) by (auto simp: list_all_length)
  moreover have "b < e" if "(b, e) \<in> set ?rs" for b e
    using that assms(2) by (auto simp: sharded_ranges_def sharded_def list_all_iff make_tensor_slice_def split: if_splits)
  ultimately have ordered: "snd (?rs ! k) \<le> fst (?rs ! l)" if "k < l" "l < length ?rs" for k l
    using that by (intro disjoint_ranges [OF ranges_sorted]) simp_all
  have "mset (map ?f (filter (sharded n) ?ss)) = mset ?rs" by (simp add: sharded_ranges_def)
  from mset_pair_disjoint [OF this ordered filter_pair [of i j ?ss "sharded n" ?f]] assms(3-6)
  have "ts_end (?ss ! i) \<le> ts_begin (?ss ! j) \<or> ts_end (?ss ! j) \<le> ts_begin (?ss ! i)" by simp
  then show ?thesis using h assms(3,4) by auto
qed

section \<open>No segment is accepted twice\<close>

inductive window_step :: "(string \<Rightarrow> string \<Rightarrow> string) \<Rightarrow> replay_window \<Rightarrow> replay_window \<Rightarrow> bool" for mac where
  accept: "window_accept mac key s w = (r, v) \<Longrightarrow> window_step mac w v"

definition window_start :: "replay_window \<Rightarrow> bool" where
  "window_start w \<longleftrightarrow> (\<exists>i e m. window_open i e m = Inr w)"

definition window_inv :: "replay_window \<Rightarrow> bool" where
  "window_inv w \<longleftrightarrow> finite (rw_seen w) \<and> int (card (rw_seen w)) \<le> rw_max_segments w"

lemma segment_accept_cases:
  obtains (refused) e where "window_accept mac key s w = (Inl e, w)"
  | (accepted) "window_accept mac key s w = (Inr (), w\<lparr>rw_seen := insert (dg_segment_no s, dg_nonce s) (rw_seen w)\<rparr>)"
      "(dg_segment_no s, dg_nonce s) \<notin> rw_seen w" "int (card (rw_seen w)) < rw_max_segments w"
      "dg_operation_id s = rw_operation_id w" "dg_epoch s = rw_epoch w" "segment_verify mac key s = Inr ()"
proof (cases "fst (window_accept mac key s w)")
  case (Inl e)
  then have "window_accept mac key s w = (Inl e, w)" by (auto simp: window_accept_def split: if_splits sum.splits)
  then show ?thesis by (rule refused)
next
  case (Inr u)
  then show ?thesis by (intro accepted) (auto simp: window_accept_def split: if_splits sum.splits)
qed

interpretation replay: invariant_system window_start "window_step mac" window_inv for mac
proof
  show "window_inv w" if "window_start w" for w
    using that by (auto simp: window_start_def window_open_def window_inv_def split: if_splits)
  show "window_inv v" if "window_inv w" "window_step mac w v" for w v
    using that(2,1)
  proof (induction rule: window_step.induct)
    case (accept key s w r v)
    show ?case
    proof (cases rule: segment_accept_cases [of mac key s w])
      case (refused e)
      with accept show ?thesis by simp
    next
      case accepted
      with accept show ?thesis by (auto simp: window_inv_def)
    qed
  qed
qed

text \<open>An accepted identity stays seen, and refuses every later segment with it.\<close>

definition accepts_identity :: "(string \<Rightarrow> string \<Rightarrow> string) \<Rightarrow> int \<times> string \<Rightarrow> replay_window \<Rightarrow> string \<times> data_segment \<Rightarrow> bool" where
  "accepts_identity mac i w x \<longleftrightarrow> (dg_segment_no (snd x), dg_nonce (snd x)) = i \<and> \<not> isl (fst (window_accept mac (fst x) (snd x) w))"

interpretation replay_fence: terminal_fence "window_step mac" "\<lambda>w. i \<in> rw_seen w" False "accepts_identity mac i" for mac i
proof
  show "(i \<in> rw_seen v) = (i \<in> rw_seen w)" if "(i \<in> rw_seen w) \<noteq> False" "window_step mac w v" for w v
    using that(2,1)
  proof (induction rule: window_step.induct)
    case (accept key s w r v)
    then show ?case by (cases rule: segment_accept_cases [of mac key s w]) auto
  qed
  show "\<not> accepts_identity mac i w x" if "(i \<in> rw_seen w) \<noteq> False" for w x
  proof (cases rule: segment_accept_cases [of mac "fst x" "snd x" w])
    case (refused e)
    then show ?thesis by (simp add: accepts_identity_def)
  next
    case accepted
    with that show ?thesis by (auto simp: accepts_identity_def)
  qed
qed

text \<open>
  C34: Segments and replays. A reachable window keeps at most its bound of identities; a segment it
  accepts is of its operation and epoch and passed the check of its code with the key; and from then
  on no segment with the same number and nonce is accepted, under any key.
\<close>

theorem segment_accepted_once:
  assumes "reachable window_start (window_step mac) w" and "window_accept mac key s w = (Inr (), v)"
    and "(window_step mac)\<^sup>*\<^sup>* v u" and "dg_segment_no t = dg_segment_no s" and "dg_nonce t = dg_nonce s"
  shows "int (card (rw_seen v)) \<le> rw_max_segments v \<and> dg_operation_id s = rw_operation_id w \<and> dg_epoch s = rw_epoch w
    \<and> segment_verify mac key s = Inr () \<and> isl (fst (window_accept mac key' t u))"
proof (cases rule: segment_accept_cases [of mac key s w])
  case (refused e)
  with assms(2) show ?thesis by simp
next
  case accepted
  let ?i = "(dg_segment_no s, dg_nonce s)"
  have "window_inv v" using replay.step_inv [OF replay.reachable_inv [OF assms(1)] window_step.accept [OF assms(2)]] .
  moreover have "?i \<in> rw_seen v" using accepted assms(2) by auto
  then have "\<not> accepts_identity mac ?i u (key', t)" using replay_fence.terminal_rejects_forever [OF assms(3)] by simp
  then have "isl (fst (window_accept mac key' t u))" using assms(4,5) by (simp add: accepts_identity_def)
  ultimately show ?thesis using accepted by (simp add: window_inv_def)
qed

text \<open>
  The code that is checked covers neither producer nor consumer, nor where the associated data ends
  and the payload begins.
\<close>

lemma segment_mac_boundary:
  "segment_mac mac (s\<lparr>dg_producer := a, dg_consumer := b, dg_aad := dg_aad s @ x, dg_payload := y\<rparr>)
     = segment_mac mac (s\<lparr>dg_payload := x @ y\<rparr>)"
  by (simp add: segment_mac_def)

lemma moved_boundary_verifies:
  assumes "segment_verify mac key (s\<lparr>dg_payload := x @ y\<rparr>) = Inr ()" and "y \<noteq> []" and "a \<noteq> []" and "b \<noteq> []"
  shows "segment_verify mac key (s\<lparr>dg_producer := a, dg_consumer := b, dg_aad := dg_aad s @ x, dg_payload := y\<rparr>) = Inr ()"
  using assms by (cases "to_bytes8 (dg_segment_no s)")
    (auto simp: segment_verify_def make_data_segment_def segment_mac_def split: if_splits)

section \<open>Witnesses\<close>

definition demo_slice :: "int \<Rightarrow> int \<Rightarrow> int \<Rightarrow> tensor_slice" where
  "demo_slice rank b e = \<lparr>ts_tensor = ''w'', ts_rank = rank, ts_disposition = ''SHARDED'', ts_axis = Some 0, ts_begin = b,
     ts_end = e, ts_layout = ''l''\<rparr>"

definition demo_group :: tensor_group where
  "demo_group = \<lparr>tg_role = ''r'', tg_epoch = ''e'', tg_participants = [''p'', ''q''],
     tg_tensors = [demo_slice 0 4 8, demo_slice 1 0 4]\<rparr>"

lemma tensor_shards_disjoint_witness:
  "{4..<8 :: int} \<inter> {0..<4} = {} \<and> ts_rank ` set (tg_tensors demo_group) = int ` {0..<length (tg_participants demo_group)}"
proof -
  have "make_tensor_group demo_group = Inr demo_group" "list_all (\<lambda>s. make_tensor_slice s = Inr s) (tg_tensors demo_group)"
    "sharded ''w'' (tg_tensors demo_group ! 0)" "sharded ''w'' (tg_tensors demo_group ! 1)" by code_simp+
  from tensor_shards_disjoint [OF this(1,2) _ _ this(3,4)] show ?thesis by (simp add: demo_group_def demo_slice_def)
qed

definition demo_data_mac :: "string \<Rightarrow> string \<Rightarrow> string" where
  "demo_data_mac k m = take 4 m"

definition demo_segment :: data_segment where
  "demo_segment = \<lparr>dg_operation_id = ''op'', dg_epoch = ''e'', dg_producer = ''p'', dg_consumer = ''q'', dg_segment_no = 3,
     dg_payload = ''data'', dg_key = replicate 16 CHR ''k'', dg_nonce = replicate 16 CHR ''n'', dg_aad = [], dg_mac = ''op|e''\<rparr>"

definition demo_window :: replay_window where
  "demo_window = \<lparr>rw_operation_id = ''op'', rw_epoch = ''e'', rw_max_segments = 2, rw_seen = {}\<rparr>"

theorem segment_accepted_once_witness:
  "(let v = snd (window_accept demo_data_mac (replicate 16 CHR ''k'') demo_segment demo_window) in
     card (rw_seen v) = 1 \<and> isl (fst (window_accept demo_data_mac (replicate 16 CHR ''k'') demo_segment v)))"
proof -
  let ?k = "replicate 16 CHR ''k''"
  let ?v = "snd (window_accept demo_data_mac ?k demo_segment demo_window)"
  have "fst (window_accept demo_data_mac ?k demo_segment demo_window) = Inr ()" by code_simp
  then have run: "window_accept demo_data_mac ?k demo_segment demo_window = (Inr (), ?v)" by (simp add: prod_eq_iff)
  have "window_open ''op'' ''e'' 2 = Inr demo_window" by code_simp
  then have "window_start demo_window" unfolding window_start_def by blast
  then have "reachable window_start (window_step demo_data_mac) demo_window" by (rule reachable.start)
  from segment_accepted_once [OF this run rtranclp.rtrancl_refl refl refl, of ?k]
  have "isl (fst (window_accept demo_data_mac ?k demo_segment ?v))" by blast
  moreover have "card (rw_seen ?v) = 1" by code_simp
  ultimately show ?thesis by (simp add: Let_def)
qed

end
