(* ===== verification/Runtime_Journal.thy ===== *)
theory Runtime_Journal
  imports Contracts Base64 Interfaces "HOL-Library.Sublist"
begin

text \<open>
  \<open>app_sdk/runtime_journal.py\<close>: the append-only journal of an application and its spool of protected
  requests. The journal file is a string of bytes, the spool a dictionary from request identities to
  the bytes of their files. The clock is the parameter \<open>clock\<close>, whose \<open>i\<close>-th value is the \<open>i\<close>-th
  reading of a call; \<open>seal\<close> and \<open>unseal\<close> stand for the authenticated encryption and \<open>mac\<close> for the
  keyed hash. A crash leaves a prefix of what a call was writing. Ownership, modes and symbolic links
  of the files are not modelled.
\<close>

section \<open>Records\<close>

definition journal_schema :: string where
  "journal_schema = ''ndnsf-di-app-runtime-journal-v1''"

definition lifecycle_kind :: string where
  "lifecycle_kind = ''spec168-lifecycle-event-v1''"

definition transaction_kind :: string where
  "transaction_kind = ''journal-transaction''"

type_synonym jrecord = "(string, json) dict"
type_synonym entry = "string \<times> (string, json) dict"

definition make_journal_record :: "string \<Rightarrow> (string, json) dict \<Rightarrow> int \<Rightarrow> jrecord" where
  "make_journal_record kind payload timestamp_ms =
     [(''schema'', JStr journal_schema), (''kind'', JStr kind), (''timestampMs'', JInt timestamp_ms),
      (''payload'', JObj payload)]"

definition with_checksum :: "hash \<Rightarrow> jrecord \<Rightarrow> jrecord" where
  "with_checksum sha r = dict_set ''checksum'' (JStr (sha (json_dumps (JObj r)))) r"

definition newline :: char where
  "newline = CHR 0x0A"

definition wire_line :: "jrecord \<Rightarrow> string" where
  "wire_line r = json_dumps (JObj r) @ [newline]"

definition make_envelopes :: "hash \<Rightarrow> (nat \<Rightarrow> int) \<Rightarrow> entry list \<Rightarrow> jrecord list" where
  "make_envelopes sha clock entries =
     map (\<lambda>(i, kind, payload). with_checksum sha (make_journal_record kind payload (clock i)))
       (enumerate 0 entries)"

definition batch_envelope :: "hash \<Rightarrow> int \<Rightarrow> jrecord list \<Rightarrow> jrecord" where
  "batch_envelope sha timestamp_ms envelopes =
     with_checksum sha (make_journal_record transaction_kind [(''records'', JList (map JObj envelopes))] timestamp_ms)"

definition written_record :: "hash \<Rightarrow> (nat \<Rightarrow> int) \<Rightarrow> entry list \<Rightarrow> jrecord" where
  "written_record sha clock entries =
     (case make_envelopes sha clock entries of
        [envelope] \<Rightarrow> envelope
      | envelopes \<Rightarrow> batch_envelope sha (clock (length entries)) envelopes)"

section \<open>Reading the file\<close>

text \<open>\<open>bytes.splitlines\<close>: a line ends at a line feed, a carriage return, or both in this order.\<close>

definition drop_line_feed :: "string \<Rightarrow> string" where
  "drop_line_feed s = (case s of [] \<Rightarrow> [] | c # r \<Rightarrow> if c = newline then r else s)"

lemma length_drop_line_feed [simp]: "length (drop_line_feed s) \<le> length s"
  by (simp add: drop_line_feed_def split: list.splits)

function split_lines :: "string \<Rightarrow> string \<Rightarrow> string list" where
  "split_lines line [] = (if line = [] then [] else [rev line])"
| "split_lines line (c # s) =
     (if c = newline then rev line # split_lines [] s
      else if c = CHR 0x0D then rev line # split_lines [] (drop_line_feed s)
      else split_lines (c # line) s)"
  by pat_completeness auto

termination
  by (relation "measure (length \<circ> snd)") (auto simp: less_Suc_eq_le)

abbreviation splitlines :: "string \<Rightarrow> string list" where
  "splitlines s \<equiv> split_lines [] s"

text \<open>
  The record without its checksum, checked against it. \<open>compare_digest\<close> raises on a checksum that is
  not an ASCII string.
\<close>

definition verify_record :: "hash \<Rightarrow> string \<Rightarrow> string \<Rightarrow> jrecord \<Rightarrow> py_error + jrecord" where
  "verify_record sha mismatch unsupported d =
     (let checksum = field_or d ''checksum'' (JStr []); item = dict_pop ''checksum'' d in
      case checksum of
        JStr c \<Rightarrow>
          (if \<not> list_all (\<lambda>x. (of_char x :: nat) < 128) c
           then Inl (TypeError ''comparing strings with non-ASCII characters is not supported'')
           else if c \<noteq> sha (json_dumps (JObj item)) then Inl (ValueError mismatch)
           else if dict_get item ''schema'' \<noteq> Some (JStr journal_schema) then Inl (JournalVersionError unsupported)
           else Inr (dict_set ''checksum'' checksum item))
      | _ \<Rightarrow> Inl (TypeError ''unsupported operand types''))"

definition load_logical :: "hash \<Rightarrow> json \<Rightarrow> py_error + jrecord" where
  "load_logical sha v = (case v of
       JObj d \<Rightarrow> verify_record sha ''runtime journal transaction checksum mismatch''
                   ''unsupported runtime journal transaction schema'' d
     | _ \<Rightarrow> Inl (ValueError ''runtime journal transaction record mismatch''))"

definition transaction_records :: "jrecord \<Rightarrow> py_error + json list" where
  "transaction_records r = (case field_or r ''payload'' (JObj []) of
       JObj payload \<Rightarrow>
         (case dict_get payload ''records'' of
            Some (JList nested) \<Rightarrow> Inr nested
          | _ \<Rightarrow> Inl (ValueError ''runtime journal transaction payload mismatch''))
     | _ \<Rightarrow> Inl (AttributeError ''object has no attribute get''))"

definition load_line :: "hash \<Rightarrow> json \<Rightarrow> py_error + jrecord list" where
  "load_line sha v = (case v of
       JObj d \<Rightarrow>
         sum_then (verify_record sha ''runtime journal checksum mismatch'' ''unsupported runtime journal schema'' d)
           (\<lambda>verified.
             if dict_get verified ''kind'' \<noteq> Some (JStr transaction_kind) then Inr [verified]
             else sum_then (transaction_records verified) (sum_map (load_logical sha)))
     | JList _ \<Rightarrow> Inl (TypeError ''pop expected at most 1 argument'')
     | _ \<Rightarrow> Inl (AttributeError ''object has no attribute pop''))"

fun load_lines :: "hash \<Rightarrow> bool \<Rightarrow> string list \<Rightarrow> py_error + jrecord list" where
  "load_lines sha tolerate_torn_tail [] = Inr []"
| "load_lines sha tolerate_torn_tail (line # lines) =
     (case wire_loads line of
        None \<Rightarrow> (if tolerate_torn_tail \<and> lines = [] then Inr [] else Inl (ValueError ''corrupt runtime journal''))
      | Some item \<Rightarrow>
          sum_then (load_line sha item) (\<lambda>records.
            sum_then (load_lines sha tolerate_torn_tail lines) (\<lambda>rest. Inr (records @ rest))))"

definition load_records :: "hash \<Rightarrow> bool \<Rightarrow> string \<Rightarrow> py_error + jrecord list" where
  "load_records sha tolerate_torn_tail file = load_lines sha tolerate_torn_tail (splitlines file)"

section \<open>The journal\<close>

record envelope_key =
  ek_key_id :: string
  ek_key_bytes :: string

record key_ring =
  kr_active :: envelope_key
  kr_previous :: "envelope_key list"

record journal =
  jn_file :: string
  jn_spool :: "(string, string) dict"
  jn_quota_bytes :: int
  jn_key_ring :: "key_ring option"
  jn_usage_bytes :: int
  jn_journal_size :: int
  jn_records_cache :: "jrecord list"
  jn_journal_envelopes :: "(string, (string, json) dict) dict"

abbreviation byte_size :: "string \<Rightarrow> int" where
  "byte_size s \<equiv> int (length s)"

definition indexed_payload :: "(json \<Rightarrow> string) \<Rightarrow> json option \<Rightarrow> (string, json) dict
    \<Rightarrow> (string, (string, json) dict) dict \<Rightarrow> (string, (string, json) dict) dict" where
  "indexed_payload rep kind payload index =
     (let request_id = str_field rep payload ''request_id'' in
      if kind = Some (JStr ''protected-envelope'') \<and> request_id \<noteq> [] then dict_set request_id payload index
      else if kind = Some (JStr ''protected-envelope-tombstone'') \<and> request_id \<noteq> [] then dict_pop request_id index
      else index)"

definition index_envelope_record :: "(json \<Rightarrow> string) \<Rightarrow> jrecord \<Rightarrow> journal \<Rightarrow> (unit, journal) outcome" where
  "index_envelope_record rep r j = (case field_or r ''payload'' (JObj []) of
       JObj payload \<Rightarrow>
         (Inr (), j\<lparr>jn_journal_envelopes := indexed_payload rep (dict_get r ''kind'') payload (jn_journal_envelopes j)\<rparr>)
     | _ \<Rightarrow> (Inl (AttributeError ''object has no attribute get''), j))"

fun index_records :: "(json \<Rightarrow> string) \<Rightarrow> jrecord list \<Rightarrow> journal \<Rightarrow> (unit, journal) outcome" where
  "index_records rep [] j = (Inr (), j)"
| "index_records rep (r # rs) j = and_then (index_envelope_record rep r j) (\<lambda>_. index_records rep rs)"

definition rebuild_envelope_index :: "(json \<Rightarrow> string) \<Rightarrow> journal \<Rightarrow> (unit, journal) outcome" where
  "rebuild_envelope_index rep j =
     index_records rep (jn_records_cache j) (j\<lparr>jn_journal_envelopes := []\<rparr>)"

text \<open>
  Opening a state root: the files there are \<open>file\<close>, \<open>spool\<close> and others of \<open>other_bytes\<close> in total,
  such as temporary files that a crash left behind.
\<close>

definition scan_usage_bytes :: "string \<Rightarrow> (string, string) dict \<Rightarrow> int \<Rightarrow> int" where
  "scan_usage_bytes file spool other_bytes =
     byte_size file + dict_sum (\<lambda>_ content. byte_size content) spool + other_bytes"

definition open_journal :: "hash \<Rightarrow> (json \<Rightarrow> string) \<Rightarrow> string \<Rightarrow> (string, string) dict \<Rightarrow> int \<Rightarrow> int \<Rightarrow> key_ring option
    \<Rightarrow> py_error + journal" where
  "open_journal sha rep file spool other_bytes quota_bytes ring =
     sum_then (load_records sha True file) (\<lambda>records.
       case rebuild_envelope_index rep
           \<lparr>jn_file = file, jn_spool = spool, jn_quota_bytes = quota_bytes, jn_key_ring = ring,
            jn_usage_bytes = scan_usage_bytes file spool other_bytes, jn_journal_size = byte_size file,
            jn_records_cache = records, jn_journal_envelopes = []\<rparr> of
         (Inl e, _) \<Rightarrow> Inl e
       | (Inr _, j) \<Rightarrow> Inr j)"

definition refresh_records :: "hash \<Rightarrow> (json \<Rightarrow> string) \<Rightarrow> bool \<Rightarrow> journal \<Rightarrow> (unit, journal) outcome" where
  "refresh_records sha rep tolerate_torn_tail j =
     (let observed = byte_size (jn_file j); previous = jn_journal_size j in
      if observed = previous then (Inr (), j)
      else case load_records sha tolerate_torn_tail (jn_file j) of
        Inl e \<Rightarrow> (Inl e, j)
      | Inr records \<Rightarrow>
          and_then (rebuild_envelope_index rep (j\<lparr>jn_records_cache := records\<rparr>)) (\<lambda>_ k.
            (Inr (), k\<lparr>jn_journal_size := observed, jn_usage_bytes := jn_usage_bytes k + (observed - previous)\<rparr>)))"

definition append_many_locked :: "hash \<Rightarrow> (json \<Rightarrow> string) \<Rightarrow> (nat \<Rightarrow> int) \<Rightarrow> entry list \<Rightarrow> journal
    \<Rightarrow> (jrecord list, journal) outcome" where
  "append_many_locked sha rep clock entries j =
     (let envelopes = make_envelopes sha clock entries; wire = wire_line (written_record sha clock entries) in
      if envelopes = [] then (Inr [], j)
      else if jn_usage_bytes j + byte_size wire > jn_quota_bytes j
      then (Inl (JournalQuotaError ''journal quota exceeded''), j)
      else and_then
        (index_records rep envelopes
           (j\<lparr>jn_file := jn_file j @ wire, jn_records_cache := jn_records_cache j @ envelopes\<rparr>))
        (\<lambda>_ k. (Inr envelopes, k\<lparr>jn_journal_size := jn_journal_size k + byte_size wire,
                                  jn_usage_bytes := jn_usage_bytes k + byte_size wire\<rparr>)))"

definition with_lock :: "bool \<Rightarrow> (journal \<Rightarrow> ('a, journal) outcome) \<Rightarrow> journal \<Rightarrow> ('a, journal) outcome" where
  "with_lock busy f j =
     (if busy then (Inl (JournalLockError ''runtime journal writer lock is busy''), j) else f j)"

definition append_many :: "hash \<Rightarrow> (json \<Rightarrow> string) \<Rightarrow> bool \<Rightarrow> (nat \<Rightarrow> int) \<Rightarrow> entry list \<Rightarrow> journal
    \<Rightarrow> (jrecord list, journal) outcome" where
  "append_many sha rep busy clock entries j =
     (if entries = [] then (Inr [], j)
      else with_lock busy (\<lambda>j. and_then (refresh_records sha rep True j)
             (\<lambda>_. append_many_locked sha rep clock entries)) j)"

definition journal_append :: "hash \<Rightarrow> (json \<Rightarrow> string) \<Rightarrow> bool \<Rightarrow> (nat \<Rightarrow> int) \<Rightarrow> string \<Rightarrow> (string, json) dict \<Rightarrow> journal
    \<Rightarrow> (jrecord, journal) outcome" where
  "journal_append sha rep busy clock kind payload j =
     and_then (append_many sha rep busy clock [(kind, payload)] j) (\<lambda>records k. (Inr (records ! 0), k))"

definition journal_records :: "hash \<Rightarrow> (json \<Rightarrow> string) \<Rightarrow> bool \<Rightarrow> journal \<Rightarrow> (jrecord list, journal) outcome" where
  "journal_records sha rep tolerate_torn_tail j =
     and_then (refresh_records sha rep tolerate_torn_tail j) (\<lambda>_ k. (Inr (jn_records_cache k), k))"

section \<open>Lines and records\<close>

text \<open>
  \<open>ascii_hash\<close>: a hexadecimal digest has ASCII characters only. \<open>same_record\<close>: equal as Python
  dictionaries, whatever the order of their keys. \<open>record_ok\<close>: a record as the journal writes it.
\<close>

definition ascii_hash :: "hash \<Rightarrow> bool" where
  "ascii_hash sha \<longleftrightarrow> (\<forall>s. list_all (\<lambda>c. (of_char c :: nat) < 128) (sha s))"

definition same_record :: "jrecord \<Rightarrow> jrecord \<Rightarrow> bool" where
  "same_record a b \<longleftrightarrow> json_distinct (JObj a) \<and> json_distinct (JObj b) \<and> json_norm (JObj a) = json_norm (JObj b)"

definition sealed_record :: "hash \<Rightarrow> jrecord \<Rightarrow> bool" where
  "sealed_record sha r \<longleftrightarrow> json_distinct (JObj r)
     \<and> dict_get r ''checksum'' = Some (JStr (sha (json_dumps (JObj (dict_pop ''checksum'' r)))))
     \<and> dict_get r ''schema'' = Some (JStr journal_schema)
     \<and> (\<exists>kind payload. dict_get r ''kind'' = Some (JStr kind) \<and> dict_get r ''payload'' = Some (JObj payload))"

definition record_ok :: "hash \<Rightarrow> jrecord \<Rightarrow> bool" where
  "record_ok sha r \<longleftrightarrow> sealed_record sha r \<and> dict_get r ''kind'' \<noteq> Some (JStr transaction_kind)"

definition entry_ok :: "entry \<Rightarrow> bool" where
  "entry_ok e \<longleftrightarrow> fst e \<noteq> transaction_kind \<and> json_distinct (JObj (snd e))"

declare json_dumps.simps(6) [simp del] json_distinct.simps(6) [simp del] json_norm.simps(6) [simp del]

lemma json_distinct_obj:
  "json_distinct (JObj d) \<longleftrightarrow> dict_ok d \<and> (\<forall>v \<in> snd ` set d. json_distinct v)"
  by (auto simp: json_distinct.simps(6) dict_ok_def list_all_iff)

lemma json_distinct_norm [simp]: "json_distinct (json_norm v) \<longleftrightarrow> json_distinct v"
proof (induction v)
  case (JObj kvs)
  have "map fst (map (map_prod id json_norm) kvs) = map fst kvs" by simp
  then have "distinct (map fst (sort_key fst (map (map_prod id json_norm) kvs))) \<longleftrightarrow> distinct (map fst kvs)"
    by (metis distinct_map distinct_sort set_sort)
  moreover have "(\<forall>v \<in> snd ` set (map (map_prod id json_norm) kvs). json_distinct v)
      \<longleftrightarrow> (\<forall>v \<in> snd ` set kvs. json_distinct v)"
    using JObj by (force simp: snds.simps)
  ultimately show ?case
    unfolding json_norm.simps json_distinct_obj dict_ok_def by (simp only: set_sort)
qed (auto simp: list_all_iff)

lemma dict_pop_filter: "dict_pop k d = filter (\<lambda>p. fst p \<noteq> k) d"
  by (auto simp: AList.delete_eq intro: filter_cong)

lemma json_norm_pop:
  "json_norm (JObj (dict_pop k d)) = JObj (dict_pop k (sort_key fst (map (map_prod id json_norm) d)))"
  by (simp add: dict_pop_filter json_norm.simps(6) filter_sort filter_map comp_def)

lemma json_distinct_pop: "json_distinct (JObj d) \<Longrightarrow> json_distinct (JObj (dict_pop k d))"
  unfolding json_distinct_obj by (auto simp: dict_pop_filter intro: dict_ok_filter)

lemma json_distinct_set:
  "json_distinct (JObj d) \<Longrightarrow> json_distinct v \<Longrightarrow> json_distinct (JObj (dict_set k v d))"
  unfolding json_distinct_obj by (auto simp: set_dict_set)

lemma same_record_refl: "json_distinct (JObj r) \<Longrightarrow> same_record r r"
  by (simp add: same_record_def)

lemma same_record_trans: "same_record a b \<Longrightarrow> same_record b c \<Longrightarrow> same_record a c"
  by (simp add: same_record_def)

lemma same_record_sym: "same_record a b \<Longrightarrow> same_record b a"
  by (simp add: same_record_def)

lemma same_record_get:
  assumes "same_record a b"
  shows "map_option json_norm (dict_get a k) = map_option json_norm (dict_get b k)"
proof -
  have "distinct (map fst a)" "distinct (map fst b)"
    "sort_key fst (map (map_prod id json_norm) a) = sort_key fst (map (map_prod id json_norm) b)"
    using assms by (simp_all add: same_record_def json_distinct_obj dict_ok_def json_norm.simps(6))
  then show ?thesis using dict_get_norm [of a k] dict_get_norm [of b k] by simp
qed

lemma norm_atoms [simp]:
  "json_norm v = JStr s \<longleftrightarrow> v = JStr s" "json_norm v = JInt i \<longleftrightarrow> v = JInt i"
  "json_norm v = JBool b \<longleftrightarrow> v = JBool b" "json_norm v = JNull \<longleftrightarrow> v = JNull"
  by (cases v; simp add: json_norm.simps(6))+

lemma norm_str_option: "map_option json_norm x = Some (JStr s) \<longleftrightarrow> x = Some (JStr s)"
  using norm_atoms(1) by (cases x) simp_all

lemma same_record_str:
  assumes "same_record a b"
  shows "dict_get a k = Some (JStr s) \<longleftrightarrow> dict_get b k = Some (JStr s)"
  using norm_str_option [of "dict_get a k" s] norm_str_option [of "dict_get b k" s] same_record_get [OF assms, of k]
  by (simp only:)

lemma same_record_pop:
  assumes "same_record a b"
  shows "same_record (dict_pop k a) (dict_pop k b)"
proof -
  have "sort_key fst (map (map_prod id json_norm) a) = sort_key fst (map (map_prod id json_norm) b)"
    using assms by (simp add: same_record_def json_norm.simps(6))
  with assms show ?thesis by (simp only: same_record_def json_norm_pop json_distinct_pop)
qed

lemma same_record_dumps: "same_record a b \<Longrightarrow> json_dumps (JObj a) = json_dumps (JObj b)"
  using json_dumps_norm [of "JObj a"] json_dumps_norm [of "JObj b"] by (simp only: same_record_def)

lemma sealed_same:
  assumes "same_record a b" and "sealed_record sha b"
  shows "sealed_record sha a"
proof -
  have "json_dumps (JObj (dict_pop ''checksum'' a)) = json_dumps (JObj (dict_pop ''checksum'' b))"
    using assms(1) by (intro same_record_dumps same_record_pop)
  moreover obtain payload where "dict_get b ''payload'' = Some (JObj payload)"
    using assms(2) by (auto simp: sealed_record_def)
  then obtain p where "dict_get a ''payload'' = Some (JObj p)"
    using same_record_get [OF assms(1), of "''payload''"]
    by (cases "dict_get a ''payload''") (auto, metis json_norm.simps json.distinct json.exhaust)
  ultimately show ?thesis
    using assms(1,2) same_record_str [OF assms(1)] unfolding sealed_record_def same_record_def by auto
qed

lemma record_ok_same: "same_record a b \<Longrightarrow> record_ok sha b \<Longrightarrow> record_ok sha a"
  unfolding record_ok_def using sealed_same same_record_str by blast

lemma with_checksum_sealed:
  assumes "json_distinct (JObj payload)"
  shows "sealed_record sha (with_checksum sha (make_journal_record kind payload t))"
proof -
  have "json_distinct (JObj (make_journal_record kind payload t))"
    using assms by (simp add: make_journal_record_def json_distinct.simps(6))
  moreover have "dict_get (make_journal_record kind payload t) ''checksum'' = None"
    by (simp add: make_journal_record_def)
  ultimately show ?thesis
    unfolding sealed_record_def with_checksum_def
    by (simp add: dict_pop_set_new json_distinct_set AList.update_conv')
       (simp add: make_journal_record_def)
qed

lemma make_envelopes_ok:
  "list_all entry_ok entries \<Longrightarrow> list_all (record_ok sha) (make_envelopes sha clock entries)"
  unfolding make_envelopes_def list_all_iff
proof safe
  fix r assume ok: "\<forall>e \<in> set entries. entry_ok e"
    and "r \<in> set (map (\<lambda>(i, kind, payload). with_checksum sha (make_journal_record kind payload (clock i)))
      (enumerate 0 entries))"
  then obtain i kind payload where r: "r = with_checksum sha (make_journal_record kind payload (clock i))"
    and e: "(kind, payload) \<in> set entries" by (auto simp: in_set_enumerate_eq) (metis nth_mem)
  from ok e have "entry_ok (kind, payload)" by blast
  then show "record_ok sha r" unfolding r record_ok_def
    using with_checksum_sealed by (auto simp: entry_ok_def with_checksum_def make_journal_record_def)
qed

lemma same_list_refl: "list_all (record_ok sha) rs \<Longrightarrow> list_all2 same_record rs rs"
  by (auto simp: list_all2_same list_all_iff record_ok_def sealed_record_def intro: same_record_refl)

section \<open>Reading what was written\<close>

text \<open>A record that the journal wrote passes the checks when it is read back.\<close>

lemma verify_sealed:
  assumes "ascii_hash sha" and "sealed_record sha r"
  shows "\<exists>d. json_norm (JObj r) = JObj d
    \<and> (\<exists>q. verify_record sha mismatch unsupported d = Inr q \<and> same_record q r)"
proof -
  define d where "d = sort_key fst (map (map_prod id json_norm) r)"
  have norm: "json_norm (JObj r) = JObj d" by (simp add: d_def json_norm.simps(6))
  have distinct: "json_distinct (JObj r)" using assms(2) by (simp add: sealed_record_def)
  then have distinct_d: "json_distinct (JObj d)" by (metis norm json_distinct_norm)
  have same: "same_record d r"
    unfolding same_record_def norm [symmetric] using distinct by simp
  let ?c = "JStr (sha (json_dumps (JObj (dict_pop ''checksum'' r))))"
  have sealed: "sealed_record sha d" using same assms(2) by (rule sealed_same)
  let ?q = "dict_set ''checksum'' ?c (dict_pop ''checksum'' d)"
  have c: "dict_get d ''checksum'' = Some ?c"
    using assms(2) same_record_str [OF same] by (simp add: sealed_record_def)
  have "json_dumps (JObj (dict_pop ''checksum'' d)) = json_dumps (JObj (dict_pop ''checksum'' r))"
    using same by (intro same_record_dumps same_record_pop)
  moreover have "dict_get d ''schema'' = Some (JStr journal_schema)" using sealed by (simp add: sealed_record_def)
  ultimately have "verify_record sha mismatch unsupported d = Inr ?q"
    using assms(1) c by (simp add: verify_record_def field_or_def ascii_hash_def AList.delete_conv')
  moreover have "same_record ?q d"
    unfolding same_record_def
  proof (intro conjI json_norm_eqI)
    show "json_distinct (JObj ?q)" using distinct_d by (intro json_distinct_set json_distinct_pop) simp_all
    then show "distinct (map fst ?q)" by (simp add: json_distinct_obj dict_ok_def)
    show "distinct (map fst d)" using distinct_d by (simp add: json_distinct_obj dict_ok_def)
    show "map_option json_norm (dict_get ?q k) = map_option json_norm (dict_get d k)" for k
      using c by (simp add: AList.update_conv' AList.delete_conv')
  qed (rule distinct_d)
  ultimately show ?thesis using norm same by (blast intro: same_record_trans)
qed

lemma load_logical_sealed:
  "ascii_hash sha \<Longrightarrow> sealed_record sha r
    \<Longrightarrow> \<exists>q. load_logical sha (json_norm (JObj r)) = Inr q \<and> same_record q r"
  using verify_sealed by (fastforce simp: load_logical_def)

lemma load_logical_all:
  assumes "ascii_hash sha" and "list_all (sealed_record sha) rs"
  shows "\<exists>qs. sum_map (load_logical sha) (map (\<lambda>r. json_norm (JObj r)) rs) = Inr qs \<and> list_all2 same_record qs rs"
  using assms(2)
proof (induction rs)
  case (Cons r rs)
  with load_logical_sealed [OF assms(1), of r] show ?case by fastforce
qed simp

lemma load_record_line:
  assumes "ascii_hash sha" and "record_ok sha r"
  shows "\<exists>q. load_line sha (json_norm (JObj r)) = Inr [q] \<and> same_record q r"
proof -
  obtain d q where d: "json_norm (JObj r) = JObj d"
    "verify_record sha ''runtime journal checksum mismatch'' ''unsupported runtime journal schema'' d = Inr q"
    and same: "same_record q r"
    using verify_sealed [OF assms(1)] assms(2) unfolding record_ok_def by blast
  from same assms(2) have "record_ok sha q" by (rule record_ok_same)
  with d same show ?thesis by (simp add: load_line_def record_ok_def)
qed

lemma load_batch_line:
  assumes "ascii_hash sha" and "list_all (record_ok sha) rs"
  shows "\<exists>qs. load_line sha (json_norm (JObj (batch_envelope sha t rs))) = Inr qs \<and> list_all2 same_record qs rs"
proof -
  let ?b = "batch_envelope sha t rs"
  have distinct: "json_distinct (JObj [(''records'', JList (map JObj rs))])"
    using assms(2) by (auto simp: json_distinct_obj list_all_iff record_ok_def sealed_record_def dict_ok_def)
  have sealed: "sealed_record sha ?b" unfolding batch_envelope_def by (rule with_checksum_sealed [OF distinct])
  obtain d q where d: "json_norm (JObj ?b) = JObj d"
    "verify_record sha ''runtime journal checksum mismatch'' ''unsupported runtime journal schema'' d = Inr q"
    and same: "same_record q ?b"
    using verify_sealed [OF assms(1) sealed] by blast
  have get: "dict_get ?b ''kind'' = Some (JStr transaction_kind)"
    "dict_get ?b ''payload'' = Some (JObj [(''records'', JList (map JObj rs))])"
    by (simp_all add: batch_envelope_def with_checksum_def make_journal_record_def)
  have kind: "dict_get q ''kind'' = Some (JStr transaction_kind)"
    using same_record_str [OF same] get(1) by blast
  have "verify_record sha m u d = Inr q \<Longrightarrow> \<exists>p. dict_get q ''payload'' = Some (JObj p)
      \<and> dict_get p ''records'' = Some (JList (map (\<lambda>r. json_norm (JObj r)) rs))" for m u
  proof -
    assume "verify_record sha m u d = Inr q"
    then have "dict_get q ''payload'' = dict_get d ''payload''"
      by (auto simp: verify_record_def Let_def AList.update_conv' AList.delete_conv' split: json.splits if_splits)
    moreover have "dict_get d ''payload'' = map_option json_norm (dict_get ?b ''payload'')"
      using d(1) sealed dict_get_norm [of ?b "''payload''"]
      by (simp add: json_norm.simps(6) sealed_record_def json_distinct_obj dict_ok_def)
    ultimately show ?thesis using get(2) by (auto simp: json_norm.simps(6))
  qed
  with d(2) obtain p where "dict_get q ''payload'' = Some (JObj p)"
    "dict_get p ''records'' = Some (JList (map (\<lambda>r. json_norm (JObj r)) rs))" by blast
  then have "transaction_records q = Inr (map (\<lambda>r. json_norm (JObj r)) rs)"
    by (simp add: transaction_records_def field_or_def)
  moreover have "list_all (sealed_record sha) rs" using assms(2) by (auto simp: list_all_iff record_ok_def)
  ultimately show ?thesis
    using d kind load_logical_all [OF assms(1)] by (fastforce simp: load_line_def)
qed

section \<open>The file as a sequence of lines\<close>

text \<open>\<open>file_holds\<close>: the file consists of complete lines, and reading them gives these records.\<close>

definition line_holds :: "hash \<Rightarrow> jrecord \<Rightarrow> jrecord list \<Rightarrow> bool" where
  "line_holds sha line rs \<longleftrightarrow> json_distinct (JObj line)
     \<and> (\<exists>qs. load_line sha (json_norm (JObj line)) = Inr qs \<and> list_all2 same_record qs rs)"

definition file_holds :: "hash \<Rightarrow> string \<Rightarrow> jrecord list \<Rightarrow> bool" where
  "file_holds sha file rs \<longleftrightarrow> (\<exists>lines rss. file = concat (map wire_line lines)
     \<and> list_all2 (line_holds sha) lines rss \<and> rs = concat rss)"

lemma split_lines_line:
  "list_all (\<lambda>c. (32 :: nat) \<le> of_char c) s
    \<Longrightarrow> split_lines acc (s @ newline # t) = (rev acc @ s) # split_lines [] t"
  by (induction s arbitrary: acc) (auto simp: newline_def)

lemma split_lines_last:
  "list_all (\<lambda>c. (32 :: nat) \<le> of_char c) s
    \<Longrightarrow> split_lines acc s = (if acc = [] \<and> s = [] then [] else [rev acc @ s])"
  by (induction s arbitrary: acc) (auto simp: newline_def)

lemma splitlines_wire: "splitlines (wire_line r @ t) = json_dumps (JObj r) # splitlines t"
  using split_lines_line [OF printable_dumps, of "[]" "JObj r" t] by (simp add: wire_line_def)

lemma splitlines_file:
  "splitlines (concat (map wire_line lines) @ t) = map (\<lambda>r. json_dumps (JObj r)) lines @ splitlines t"
  by (induction lines) (simp_all add: splitlines_wire)

lemma load_lines_file:
  assumes "list_all2 (line_holds sha) lines rss"
  shows "\<exists>qs. load_lines sha tolerate (map (\<lambda>r. json_dumps (JObj r)) lines @ tail)
      = sum_then (load_lines sha tolerate tail) (\<lambda>rest. Inr (qs @ rest)) \<and> list_all2 same_record qs (concat rss)"
  using assms
proof (induction rule: list_all2_induct)
  case Nil
  show ?case by (cases "load_lines sha tolerate tail") simp_all
next
  case (Cons r lines rs rss)
  then obtain qs where qs: "load_lines sha tolerate (map (\<lambda>r. json_dumps (JObj r)) lines @ tail)
      = sum_then (load_lines sha tolerate tail) (\<lambda>rest. Inr (qs @ rest))" "list_all2 same_record qs (concat rss)"
    by blast
  from Cons.hyps(1) obtain ps where ps: "load_line sha (json_norm (JObj r)) = Inr ps" "list_all2 same_record ps rs"
    and distinct: "json_distinct (JObj r)" by (auto simp: line_holds_def)
  have "load_lines sha tolerate (map (\<lambda>r. json_dumps (JObj r)) (r # lines) @ tail)
      = sum_then (load_lines sha tolerate tail) (\<lambda>rest. Inr ((ps @ qs) @ rest))"
    using wire_loads_dumps [OF distinct] ps(1) qs(1) by (cases "load_lines sha tolerate tail") simp_all
  moreover have "list_all2 same_record (ps @ qs) (concat (rs # rss))"
    using ps(2) qs(2) by (simp add: list_all2_appendI)
  ultimately show ?case by blast
qed

lemma load_file:
  assumes "file_holds sha file rs"
  shows "\<exists>qs. load_records sha tolerate file = Inr qs \<and> list_all2 same_record qs rs"
proof -
  obtain lines rss where "file = concat (map wire_line lines)" and "list_all2 (line_holds sha) lines rss"
    and "rs = concat rss" using assms by (auto simp: file_holds_def)
  with load_lines_file [of sha lines rss tolerate "[]"] splitlines_file [of lines "[]"]
  show ?thesis by (auto simp: load_records_def)
qed

lemma wire_loads_cut:
  assumes "json_distinct (JObj d)" and "json_dumps (JObj d) = p @ q" and "q \<noteq> []"
  shows "wire_loads p = None"
proof -
  have "list_all (\<lambda>c. (of_char c :: nat) < 128) p" using ascii_dumps [of "JObj d"] assms(2) by simp
  then have "wire_loads p = json_loads p" by (simp add: wire_loads_def utf8_ascii)
  with json_loads_cut [OF assms] show ?thesis by simp
qed

text \<open>A torn line after complete ones is left out when it is tolerated, and refused otherwise.\<close>

lemma load_torn_file:
  assumes "file_holds sha file rs" and "json_distinct (JObj d)" and "json_dumps (JObj d) = p @ q"
    and "p \<noteq> []" and "q \<noteq> []"
  shows "\<exists>qs. load_records sha True (file @ p) = Inr qs \<and> list_all2 same_record qs rs"
    and "load_records sha False (file @ p) = Inl (ValueError ''corrupt runtime journal'')"
proof -
  obtain lines rss where parts: "file = concat (map wire_line lines)" "list_all2 (line_holds sha) lines rss"
    and rs: "rs = concat rss" using assms(1) by (auto simp: file_holds_def)
  have "list_all (\<lambda>c. (32 :: nat) \<le> of_char c) p" using printable_dumps [of "JObj d"] assms(3) by simp
  then have lines: "splitlines (file @ p) = map (\<lambda>r. json_dumps (JObj r)) lines @ [p]"
    using assms(4) split_lines_last [of p "[]"] splitlines_file [of lines p] by (simp add: parts)
  note cut = wire_loads_cut [OF assms(2,3,5)]
  show "\<exists>qs. load_records sha True (file @ p) = Inr qs \<and> list_all2 same_record qs rs"
    using load_lines_file [OF parts(2), of True "[p]"] cut by (auto simp: load_records_def lines rs)
  show "load_records sha False (file @ p) = Inl (ValueError ''corrupt runtime journal'')"
    using load_lines_file [OF parts(2), of False "[p]"] cut by (auto simp: load_records_def lines)
qed

text \<open>A complete line whose line end is missing is read.\<close>

lemma load_unterminated_file:
  assumes "file_holds sha file rs" and "line_holds sha r new"
  shows "\<exists>qs. load_records sha tolerate (file @ json_dumps (JObj r)) = Inr qs \<and> list_all2 same_record qs (rs @ new)"
proof -
  obtain lines rss where parts: "file = concat (map wire_line lines)" "list_all2 (line_holds sha) lines rss"
    and rs: "rs = concat rss" using assms(1) by (auto simp: file_holds_def)
  have "json_dumps (JObj r) \<noteq> []" using json_dumps_head [of "JObj r"] by auto
  then have lines: "splitlines (file @ json_dumps (JObj r)) = map (\<lambda>r. json_dumps (JObj r)) (lines @ [r])"
    using split_lines_last [OF printable_dumps, of "[]" "JObj r"] splitlines_file [of lines "json_dumps (JObj r)"]
    by (simp add: parts)
  have "list_all2 (line_holds sha) (lines @ [r]) (rss @ [new])"
    using parts(2) assms(2) by (intro list_all2_appendI) simp_all
  from load_lines_file [OF this, of tolerate "[]"] show ?thesis
    by (auto simp: load_records_def lines rs)
qed

lemma file_holds_Nil [simp]: "file_holds sha [] []"
  unfolding file_holds_def by (intro exI [of _ "[]"]) simp

lemma file_holds_append:
  assumes "file_holds sha file rs" and "line_holds sha r new"
  shows "file_holds sha (file @ wire_line r) (rs @ new)"
proof -
  obtain lines rss where "file = concat (map wire_line lines)" "list_all2 (line_holds sha) lines rss"
    "rs = concat rss" using assms(1) by (auto simp: file_holds_def)
  with assms(2) show ?thesis unfolding file_holds_def
    by (intro exI [of _ "lines @ [r]"] exI [of _ "rss @ [new]"]) (simp add: list_all2_appendI)
qed

lemma record_line_holds: "ascii_hash sha \<Longrightarrow> record_ok sha r \<Longrightarrow> line_holds sha r [r]"
  using load_record_line [of sha r] by (auto simp: line_holds_def record_ok_def sealed_record_def)

lemma file_holds_records:
  "ascii_hash sha \<Longrightarrow> list_all (record_ok sha) rs \<Longrightarrow> file_holds sha (concat (map wire_line rs)) rs"
  unfolding file_holds_def
  by (intro exI [of _ rs] exI [of _ "map (\<lambda>r. [r]) rs"])
    (auto simp: list_all_iff list_all2_iff zip_map2 zip_same concat_map_singleton record_line_holds)

lemma written_line_holds:
  assumes "ascii_hash sha" and "list_all entry_ok entries" and "entries \<noteq> []"
  shows "line_holds sha (written_record sha clock entries) (make_envelopes sha clock entries)"
proof -
  have ok: "list_all (record_ok sha) (make_envelopes sha clock entries)" using assms(2) by (rule make_envelopes_ok)
  show ?thesis
  proof (cases "\<exists>r. make_envelopes sha clock entries = [r]")
    case True
    then obtain r where "make_envelopes sha clock entries = [r]" by blast
    with ok record_line_holds [OF assms(1)] show ?thesis by (simp add: written_record_def)
  next
    case False
    then have "written_record sha clock entries = batch_envelope sha (clock (length entries)) (make_envelopes sha clock entries)"
      by (auto simp: written_record_def split: list.splits)
    moreover have "json_distinct (JObj [(''records'', JList (map JObj (make_envelopes sha clock entries)))])"
      using ok by (auto simp: json_distinct_obj list_all_iff record_ok_def sealed_record_def dict_ok_def)
    then have "json_distinct (JObj (batch_envelope sha (clock (length entries)) (make_envelopes sha clock entries)))"
      using with_checksum_sealed by (auto simp: batch_envelope_def sealed_record_def)
    ultimately show ?thesis using load_batch_line [OF assms(1) ok] by (simp add: line_holds_def)
  qed
qed

end
