(* ===== verification/Journal_Log.thy ===== *)
theory Journal_Log
  imports Runtime_Journal
begin

text \<open>
  \<open>app_sdk/runtime_journal.py\<close>, continued: the acceptance of lifecycle events, compaction, the state of
  a journal over any sequence of calls, other writers and reopenings, and the properties of the
  journal: appends are atomic under a crash, the lifecycle log is consistent and permanent, compaction
  keeps exactly what it should, and a torn tail that is appended to poisons the file.
\<close>

section \<open>Lifecycle events\<close>

definition lifecycle_event_schema :: string where
  "lifecycle_event_schema = ''ndnsf-di.lifecycle-event.v1''"

definition option_json :: "string option \<Rightarrow> json" where
  "option_json v = (case v of None \<Rightarrow> JNull | Some s \<Rightarrow> JStr s)"

definition lifecycle_event_fields :: "lifecycle_event \<Rightarrow> (string, json) dict" where
  "lifecycle_event_fields e =
     [(''experiment_id'', JStr (le_experiment_id e)), (''request_id'', JStr (le_request_id e)),
      (''attempt_epoch'', JInt (le_attempt_epoch e)), (''event_id'', JStr (le_event_id e)),
      (''event_type'', JStr (le_event_type e)), (''component'', JStr (le_component e)),
      (''provider'', option_json (le_provider e)),
      (''provider_boot_epoch'', option_json (le_provider_boot_epoch e)), (''role'', option_json (le_role e)),
      (''plan_digest'', option_json (le_plan_digest e)), (''operation_id'', option_json (le_operation_id e)),
      (''epoch'', JInt (le_epoch e)), (''sequence'', JInt (le_sequence e)),
      (''monotonic_ns'', JInt (le_monotonic_ns e)), (''wall_time_utc'', JStr (le_wall_time_utc e)),
      (''authenticated'', JBool (le_authenticated e)), (''details_schema'', JStr (le_details_schema e)),
      (''details'', JObj (le_details e))]"

definition lifecycle_event_to_dict :: "lifecycle_event \<Rightarrow> (string, json) dict" where
  "lifecycle_event_to_dict e = with_schema lifecycle_event_schema (lifecycle_event_fields e)"

definition lifecycle_event_names :: "string list" where
  "lifecycle_event_names = [''experiment_id'', ''request_id'', ''attempt_epoch'', ''event_id'', ''event_type'',
     ''component'', ''provider'', ''provider_boot_epoch'', ''role'', ''plan_digest'', ''operation_id'', ''epoch'',
     ''sequence'', ''monotonic_ns'', ''wall_time_utc'', ''authenticated'', ''details_schema'', ''details'']"

text \<open>
  \<open>from_dict\<close>. The class does not check the types of its fields; here a field of another type than
  the declared one is a \<open>TypeError\<close>.
\<close>

definition event_str :: "(string, json) dict \<Rightarrow> string \<Rightarrow> py_error + string" where
  "event_str d k = (case dict_get d k of Some (JStr s) \<Rightarrow> Inr s | _ \<Rightarrow> Inl (TypeError k))"

definition event_option :: "(string, json) dict \<Rightarrow> string \<Rightarrow> py_error + string option" where
  "event_option d k = (case dict_get d k of
       Some (JStr s) \<Rightarrow> Inr (Some s) | Some JNull \<Rightarrow> Inr None | _ \<Rightarrow> Inl (TypeError k))"

definition event_int :: "(string, json) dict \<Rightarrow> string \<Rightarrow> py_error + int" where
  "event_int d k = (case dict_get d k of Some (JInt i) \<Rightarrow> Inr i | _ \<Rightarrow> Inl (TypeError k))"

definition event_bool :: "(string, json) dict \<Rightarrow> string \<Rightarrow> py_error + bool" where
  "event_bool d k = (case dict_get d k of Some (JBool b) \<Rightarrow> Inr b | _ \<Rightarrow> Inl (TypeError k))"

definition event_dict :: "(string, json) dict \<Rightarrow> string \<Rightarrow> py_error + (string, json) dict" where
  "event_dict d k = (case dict_get d k of Some (JObj v) \<Rightarrow> Inr v | _ \<Rightarrow> Inl (TypeError k))"

definition lifecycle_event_from_dict :: "(json \<Rightarrow> string) \<Rightarrow> (string, json) dict \<Rightarrow> py_error + lifecycle_event" where
  "lifecycle_event_from_dict rep d =
     (if set (dict_keys d) \<noteq> insert ''schema'' (set lifecycle_event_names)
         \<or> dict_get d ''schema'' \<noteq> Some (JStr lifecycle_event_schema)
      then Inl (ValueError ''lifecycle event contains unknown or missing fields'')
      else
        sum_then (event_str d ''experiment_id'') (\<lambda>experiment_id.
        sum_then (event_str d ''request_id'') (\<lambda>request_id.
        sum_then (event_int d ''attempt_epoch'') (\<lambda>attempt_epoch.
        sum_then (event_str d ''event_id'') (\<lambda>event_id.
        sum_then (event_str d ''event_type'') (\<lambda>event_type.
        sum_then (event_str d ''component'') (\<lambda>component.
        sum_then (event_option d ''provider'') (\<lambda>provider.
        sum_then (event_option d ''provider_boot_epoch'') (\<lambda>boot_epoch.
        sum_then (event_option d ''role'') (\<lambda>role.
        sum_then (event_option d ''plan_digest'') (\<lambda>plan_digest.
        sum_then (event_option d ''operation_id'') (\<lambda>operation_id.
        sum_then (event_int d ''epoch'') (\<lambda>epoch.
        sum_then (event_int d ''sequence'') (\<lambda>sequence.
        sum_then (event_int d ''monotonic_ns'') (\<lambda>monotonic_ns.
        sum_then (event_str d ''wall_time_utc'') (\<lambda>wall_time_utc.
        sum_then (event_bool d ''authenticated'') (\<lambda>authenticated.
        sum_then (event_str d ''details_schema'') (\<lambda>details_schema.
        sum_then (event_dict d ''details'') (\<lambda>details.
          make_lifecycle_event rep
            \<lparr>le_experiment_id = experiment_id, le_request_id = request_id, le_attempt_epoch = attempt_epoch,
             le_event_id = event_id, le_event_type = event_type, le_component = component, le_provider = provider,
             le_provider_boot_epoch = boot_epoch, le_role = role, le_plan_digest = plan_digest,
             le_operation_id = operation_id, le_epoch = epoch, le_sequence = sequence,
             le_monotonic_ns = monotonic_ns, le_wall_time_utc = wall_time_utc, le_authenticated = authenticated,
             le_details_schema = details_schema, le_details = details\<rparr>)))))))))))))))))))"

definition terminal_event_types :: "string list" where
  "terminal_event_types = [''RESPONSE_PUBLISHED'', ''FAILURE_PUBLISHED'', ''CANCELED'', ''EXPIRED'']"

definition role_scoped_types :: "string list" where
  "role_scoped_types = [''ARTIFACT_FETCHED'', ''VERIFIED_DISK'', ''HOST_RESIDENT'', ''GPU_RESIDENT'', ''LOCAL_READY'',
     ''DEPENDENCY_INPUT_ACCEPTED'', ''STAGE_EXECUTING'', ''STAGE_OUTPUT_PUBLISHED'', ''STAGE_COMPLETED'']"

definition list_max :: "int list \<Rightarrow> int" where
  "list_max xs = fold max (tl xs) (hd xs)"

definition role_assignments :: "lifecycle_event list \<Rightarrow> (string option, string option \<times> string option) dict" where
  "role_assignments es = dict_of_list
     (map (\<lambda>e. (le_role e, (le_provider e, le_provider_boot_epoch e)))
        (filter (\<lambda>e. le_event_type e = ''ROLE_ASSIGNED'') es))"

definition progress_verdict :: "lifecycle_event list \<Rightarrow> lifecycle_event \<Rightarrow> string option" where
  "progress_verdict same_attempt event =
     (let progress = filter (\<lambda>x. le_operation_id x = le_operation_id event) same_attempt;
          max_epoch = list_max (map le_epoch progress) in
      if le_operation_id event = None \<or> progress = [] then None
      else if le_epoch event < max_epoch then Some ''STALE_OPERATION_EPOCH''
      else if le_epoch event = max_epoch
           \<and> le_sequence event \<le> list_max (map le_sequence (filter (\<lambda>x. le_epoch x = max_epoch) progress))
      then Some ''NON_MONOTONIC_PROGRESS'' else None)"

definition attempt_verdict :: "lifecycle_event list \<Rightarrow> lifecycle_event \<Rightarrow> string option" where
  "attempt_verdict same_attempt event =
     (let plans = map le_plan_digest (filter (\<lambda>x. le_event_type x = ''PLAN_COMMITTED'') same_attempt);
          committed_plan = (case plans of [] \<Rightarrow> None | p # _ \<Rightarrow> p);
          assignments = role_assignments same_attempt;
          expected = dict_get assignments (le_role event) in
      if list_ex (\<lambda>x. le_experiment_id x \<noteq> le_experiment_id event) same_attempt
      then Some ''EXPERIMENT_BINDING_MISMATCH''
      else if list_ex (\<lambda>x. le_event_type x \<in> set terminal_event_types) same_attempt
      then Some (if le_event_type event \<in> set terminal_event_types then ''TERMINAL_ALREADY_SET''
                 else ''REQUEST_ALREADY_TERMINAL'')
      else if committed_plan \<noteq> None \<and> le_plan_digest event \<noteq> committed_plan then Some ''PLAN_BINDING_MISMATCH''
      else if le_event_type event \<in> set role_scoped_types \<and> expected = None then Some ''ROLE_NOT_ASSIGNED''
      else if expected \<noteq> None \<and> expected \<noteq> Some (le_provider event, le_provider_boot_epoch event)
      then Some ''PROVIDER_ROLE_BINDING_MISMATCH''
      else progress_verdict same_attempt event)"

definition lifecycle_verdict :: "lifecycle_event list \<Rightarrow> lifecycle_event \<Rightarrow> string option" where
  "lifecycle_verdict accepted event =
     (let same_request = filter (\<lambda>x. le_request_id x = le_request_id event) accepted;
          max_attempt = list_max (map le_attempt_epoch same_request) in
      if list_ex (\<lambda>x. le_event_id x = le_event_id event) accepted then Some ''DUPLICATE_EVENT_ID''
      else if \<not> le_authenticated event then Some ''UNAUTHENTICATED_EVENT''
      else if same_request \<noteq> [] \<and> le_attempt_epoch event < max_attempt then Some ''STALE_ATTEMPT''
      else if same_request \<noteq> [] \<and> le_attempt_epoch event > max_attempt \<and> le_event_type event \<noteq> ''REQUEST_CREATED''
      then Some ''ATTEMPT_NOT_OPENED''
      else attempt_verdict (filter (\<lambda>x. le_attempt_epoch x = le_attempt_epoch event) same_request) event)"

text \<open>
  The accepted events of the decisions in the journal; \<open>None\<close> when one of them is malformed. An
  \<open>AttributeError\<close> is the one exception that the code does not catch: a list of the field names in
  place of the event.
\<close>

definition event_of_decision :: "(json \<Rightarrow> string) \<Rightarrow> (string, json) dict \<Rightarrow> py_error + lifecycle_event" where
  "event_of_decision rep d = (case dict_get d ''event'' of
       None \<Rightarrow> Inl KeyError
     | Some (JObj e) \<Rightarrow> lifecycle_event_from_dict rep e
     | Some (JList xs) \<Rightarrow>
         (if set xs = JStr ` insert ''schema'' (set lifecycle_event_names)
          then Inl (AttributeError ''list has no attribute get'')
          else Inl (ValueError ''lifecycle event contains unknown or missing fields''))
     | Some _ \<Rightarrow> Inl (TypeError ''lifecycle event''))"

fun accepted_events :: "(json \<Rightarrow> string) \<Rightarrow> json list \<Rightarrow> py_error + lifecycle_event list option" where
  "accepted_events rep [] = Inr (Some [])"
| "accepted_events rep (p # ps) = (case p of
       JObj d \<Rightarrow>
         (if \<not> py_truth (field_or d ''accepted'' JNull) then accepted_events rep ps
          else (case event_of_decision rep d of
                  Inl (AttributeError m) \<Rightarrow> Inl (AttributeError m)
                | Inl _ \<Rightarrow> Inr None
                | Inr e \<Rightarrow> sum_then (accepted_events rep ps) (\<lambda>es. Inr (map_option (Cons e) es))))
     | _ \<Rightarrow> Inl (AttributeError ''object has no attribute get''))"

definition lifecycle_rejection :: "(json \<Rightarrow> string) \<Rightarrow> json list \<Rightarrow> lifecycle_event \<Rightarrow> py_error + string option" where
  "lifecycle_rejection rep decisions event =
     sum_then (accepted_events rep decisions) (\<lambda>r. Inr (case r of
         None \<Rightarrow> Some ''JOURNAL_LIFECYCLE_CORRUPT''
       | Some accepted \<Rightarrow> lifecycle_verdict accepted event))"

definition record_payload :: "jrecord \<Rightarrow> py_error + json" where
  "record_payload r = (case dict_get r ''payload'' of None \<Rightarrow> Inl KeyError | Some p \<Rightarrow> Inr p)"

definition lifecycle_decisions :: "jrecord list \<Rightarrow> py_error + json list" where
  "lifecycle_decisions rs =
     sum_map record_payload (filter (\<lambda>r. dict_get r ''kind'' = Some (JStr lifecycle_kind)) rs)"

definition lifecycle_decision :: "lifecycle_event \<Rightarrow> string option \<Rightarrow> (string, json) dict" where
  "lifecycle_decision event code =
     [(''event'', JObj (lifecycle_event_to_dict event)), (''accepted'', JBool (code = None)),
      (''rejection_code'', option_json code)]"

definition append_lifecycle_event :: "hash \<Rightarrow> (json \<Rightarrow> string) \<Rightarrow> bool \<Rightarrow> (nat \<Rightarrow> int) \<Rightarrow> lifecycle_event \<Rightarrow> journal
    \<Rightarrow> ((string, json) dict, journal) outcome" where
  "append_lifecycle_event sha rep busy clock event =
     with_lock busy (\<lambda>j. and_then (refresh_records sha rep True j) (\<lambda>_ k.
       case sum_then (lifecycle_decisions (jn_records_cache k)) (\<lambda>ds. lifecycle_rejection rep ds event) of
         Inl e \<Rightarrow> (Inl e, k)
       | Inr code \<Rightarrow>
           and_then (append_many_locked sha rep clock [(lifecycle_kind, lifecycle_decision event code)] k)
             (\<lambda>_ l. (Inr (lifecycle_decision event code), l))))"

section \<open>Compaction\<close>

definition record_kind :: "jrecord \<Rightarrow> py_error + json" where
  "record_kind r = (case dict_get r ''kind'' of None \<Rightarrow> Inl KeyError | Some k \<Rightarrow> Inr k)"

definition as_mapping :: "json \<Rightarrow> py_error + (string, json) dict" where
  "as_mapping p = (case p of JObj d \<Rightarrow> Inr d | _ \<Rightarrow> Inl (AttributeError ''object has no attribute get''))"

fun expired_requests :: "(json \<Rightarrow> string) \<Rightarrow> int \<Rightarrow> int \<Rightarrow> jrecord list \<Rightarrow> py_error + string list" where
  "expired_requests rep at_ms retention_ms [] = Inr []"
| "expired_requests rep at_ms retention_ms (r # rs) =
     sum_then (record_kind r) (\<lambda>kind.
     sum_then
       (if kind \<noteq> JStr ''request-handle'' then Inr []
        else sum_then (record_payload r) (\<lambda>p. sum_then (as_mapping p) (\<lambda>m.
             sum_then (int_field m ''expires_at_ms'' 0) (\<lambda>expires.
             Inr (if expires + retention_ms \<le> at_ms then [str_field rep m ''request_id''] else [])))))
       (\<lambda>ids. sum_then (expired_requests rep at_ms retention_ms rs) (\<lambda>rest. Inr (ids @ rest))))"

fun latest_indices :: "(json \<Rightarrow> string) \<Rightarrow> nat \<Rightarrow> jrecord list \<Rightarrow> (string, nat) dict \<Rightarrow> (string, nat) dict
    \<Rightarrow> py_error + (string, nat) dict \<times> (string, nat) dict" where
  "latest_indices rep i [] deployments operations = Inr (deployments, operations)"
| "latest_indices rep i (r # rs) deployments operations =
     sum_then (record_payload r) (\<lambda>p.
       if dict_get r ''kind'' = Some (JStr ''deployment-state'')
       then sum_then (as_mapping p) (\<lambda>m.
              latest_indices rep (Suc i) rs (dict_set (str_field rep m ''deploymentId'') i deployments) operations)
       else if dict_get r ''kind'' = Some (JStr ''deployment-operation'')
       then sum_then (as_mapping p) (\<lambda>m.
              latest_indices rep (Suc i) rs deployments (dict_set (str_field rep m ''operation_id'') i operations))
       else latest_indices rep (Suc i) rs deployments operations)"

definition record_request :: "(json \<Rightarrow> string) \<Rightarrow> (string, json) dict \<Rightarrow> string" where
  "record_request rep m = py_str rep (field_or m ''requestId'' (field_or m ''request_id'' (JStr [])))"

definition keep_record :: "(json \<Rightarrow> string) \<Rightarrow> int \<Rightarrow> int \<Rightarrow> string list \<Rightarrow> (string, nat) dict \<Rightarrow> (string, nat) dict \<Rightarrow> nat
    \<Rightarrow> jrecord \<Rightarrow> (string, json) dict \<Rightarrow> py_error + bool" where
  "keep_record rep at_ms retention_ms expired deployments operations i r m =
     (let kind = dict_get r ''kind'' in
      if record_request rep m \<in> set expired then Inr False
      else if kind = Some (JStr ''deployment-state'') \<and> dict_get deployments (str_field rep m ''deploymentId'') \<noteq> Some i
      then Inr False
      else if kind = Some (JStr ''deployment-operation'') \<and> dict_get operations (str_field rep m ''operation_id'') \<noteq> Some i
      then Inr False
      else if kind = Some (JStr ''protected-envelope'')
      then sum_then (int_field m ''expires_at_ms'' 0) (\<lambda>expires. Inr (\<not> expires + retention_ms \<le> at_ms))
      else Inr True)"

fun retained_records :: "(json \<Rightarrow> string) \<Rightarrow> int \<Rightarrow> int \<Rightarrow> string list \<Rightarrow> (string, nat) dict \<Rightarrow> (string, nat) dict \<Rightarrow> nat
    \<Rightarrow> jrecord list \<Rightarrow> py_error + jrecord list" where
  "retained_records rep at_ms retention_ms expired deployments operations i [] = Inr []"
| "retained_records rep at_ms retention_ms expired deployments operations i (r # rs) =
     sum_then (record_payload r) (\<lambda>p. sum_then (as_mapping p) (\<lambda>m.
     sum_then (keep_record rep at_ms retention_ms expired deployments operations i r m) (\<lambda>keep.
     sum_then (retained_records rep at_ms retention_ms expired deployments operations (Suc i) rs) (\<lambda>rest.
     Inr (if keep then r # rest else rest)))))"

definition compacted :: "(json \<Rightarrow> string) \<Rightarrow> int \<Rightarrow> int \<Rightarrow> jrecord list \<Rightarrow> py_error + jrecord list" where
  "compacted rep at_ms retention_ms rs =
     sum_then (expired_requests rep at_ms retention_ms rs) (\<lambda>ids.
     sum_then (latest_indices rep 0 rs [] []) (\<lambda>(deployments, operations).
       retained_records rep at_ms retention_ms (filter (\<lambda>i. i \<noteq> []) ids) deployments operations 0 rs))"

definition compact :: "hash \<Rightarrow> (json \<Rightarrow> string) \<Rightarrow> bool \<Rightarrow> int \<Rightarrow> int \<Rightarrow> journal \<Rightarrow> (int \<times> int, journal) outcome" where
  "compact sha rep busy at_ms retention_ms j =
     (if retention_ms < 0 then (Inl (ValueError ''retention_ms must be non-negative''), j)
      else with_lock busy (\<lambda>j. and_then (refresh_records sha rep False j) (\<lambda>_ k.
        let records = jn_records_cache k in
        case compacted rep at_ms retention_ms records of
          Inl e \<Rightarrow> (Inl e, k)
        | Inr retained \<Rightarrow>
            if length retained = length records then (Inr (int (length retained), 0), k)
            else let wire = concat (map wire_line retained) in
              and_then (rebuild_envelope_index rep (k\<lparr>jn_file := wire, jn_records_cache := retained\<rparr>)) (\<lambda>_ l.
                (Inr (int (length retained), int (length records) - int (length retained)),
                 l\<lparr>jn_journal_size := byte_size wire,
                   jn_usage_bytes := jn_usage_bytes l + (byte_size wire - jn_journal_size k)\<rparr>)))) j)"

section \<open>Consistent lifecycle logs\<close>

text \<open>
  What acceptance promises of two events in the order of the journal, and of the whole log. The
  binding to the committed plan is promised when every commit names its plan: the code takes the
  plan of the first commit of the attempt, and a first commit without a plan binds nothing.
\<close>

definition same_attempt :: "lifecycle_event \<Rightarrow> lifecycle_event \<Rightarrow> bool" where
  "same_attempt x y \<longleftrightarrow> le_request_id x = le_request_id y \<and> le_attempt_epoch x = le_attempt_epoch y"

definition lifecycle_follows :: "lifecycle_event \<Rightarrow> lifecycle_event \<Rightarrow> bool" where
  "lifecycle_follows x y \<longleftrightarrow> le_event_id x \<noteq> le_event_id y
     \<and> (le_request_id x = le_request_id y \<longrightarrow> le_attempt_epoch x \<le> le_attempt_epoch y)
     \<and> (same_attempt x y \<longrightarrow> le_experiment_id x = le_experiment_id y
         \<and> le_event_type x \<notin> set terminal_event_types
         \<and> (le_event_type x = ''ROLE_ASSIGNED'' \<and> le_role x = le_role y
             \<longrightarrow> le_provider x = le_provider y \<and> le_provider_boot_epoch x = le_provider_boot_epoch y)
         \<and> (le_operation_id x \<noteq> None \<and> le_operation_id x = le_operation_id y
             \<longrightarrow> le_epoch x < le_epoch y \<or> le_epoch x = le_epoch y \<and> le_sequence x < le_sequence y))"

definition plan_follows :: "lifecycle_event \<Rightarrow> lifecycle_event \<Rightarrow> bool" where
  "plan_follows x y \<longleftrightarrow>
     (same_attempt x y \<and> le_event_type x = ''PLAN_COMMITTED'' \<longrightarrow> le_plan_digest y = le_plan_digest x)"

definition lifecycle_ok :: "lifecycle_event list \<Rightarrow> bool" where
  "lifecycle_ok es \<longleftrightarrow> list_all le_authenticated es \<and> sorted_wrt lifecycle_follows es
     \<and> ((\<forall>x \<in> set es. le_event_type x = ''PLAN_COMMITTED'' \<longrightarrow> le_plan_digest x \<noteq> None)
         \<longrightarrow> sorted_wrt plan_follows es)"

lemma list_max_ge: "x \<in> set xs \<Longrightarrow> x \<le> list_max xs"
proof (cases xs)
  case (Cons a ys)
  have "b \<le> fold max ys b \<and> (\<forall>y \<in> set ys. y \<le> fold max ys b)" for b
  proof (induction ys arbitrary: b)
    case (Cons y ys)
    from Cons.IH [of "max y b"] show ?case by auto
  qed simp
  then show "x \<in> set xs \<Longrightarrow> x \<le> list_max xs" by (auto simp: list_max_def Cons)
qed simp

lemma sorted_wrt_symD:
  assumes "sorted_wrt P xs" and "x \<in> set xs" and "y \<in> set xs"
  shows "x = y \<or> P x y \<or> P y x"
proof -
  obtain i j where "i < length xs" "xs ! i = x" "j < length xs" "xs ! j = y"
    using assms(2,3) by (auto simp: in_set_conv_nth)
  with assms(1) show ?thesis by (cases i j rule: linorder_cases) (auto simp: sorted_wrt_iff_nth_less)
qed

lemma dict_of_list_get:
  "k \<in> fst ` set kvs \<Longrightarrow> \<exists>v. dict_get (dict_of_list kvs) k = Some v \<and> (k, v) \<in> set kvs"
proof -
  have step: "dict_get (fold (\<lambda>(k, v) d. dict_set k v d) kvs d) k
      = (case dict_get (rev kvs) k of None \<Rightarrow> dict_get d k | Some v \<Rightarrow> Some v)" for d :: "('a, 'b) dict"
    by (induction kvs arbitrary: d)
      (auto simp: AList.update_conv' map_add_def split: option.splits)
  assume "k \<in> fst ` set kvs"
  then obtain v where "dict_get (rev kvs) k = Some v"
    by (metis map_of_eq_None_iff not_None_eq set_rev)
  moreover from this have "(k, v) \<in> set kvs" by (metis map_of_SomeD set_rev)
  ultimately show ?thesis using step [of "[]"] by (simp add: dict_of_list_def)
qed

lemma attempt_members:
  "set (filter (\<lambda>x. le_attempt_epoch x = le_attempt_epoch e) (filter (\<lambda>x. le_request_id x = le_request_id e) es))
    = {x \<in> set es. same_attempt x e}"
  by (auto simp: same_attempt_def)

lemma assigned_binding:
  assumes "sorted_wrt lifecycle_follows es" and "set ss = {x \<in> set es. same_attempt x e}"
    and "x \<in> set ss" and "le_event_type x = ''ROLE_ASSIGNED''"
  shows "dict_get (role_assignments ss) (le_role x) = Some (le_provider x, le_provider_boot_epoch x)"
proof -
  let ?kvs = "map (\<lambda>e. (le_role e, (le_provider e, le_provider_boot_epoch e)))
    (filter (\<lambda>e. le_event_type e = ''ROLE_ASSIGNED'') ss)"
  have "le_role x \<in> fst ` set ?kvs" using assms(3,4) by force
  from dict_of_list_get [OF this]
  obtain v where v: "dict_get (role_assignments ss) (le_role x) = Some v" "(le_role x, v) \<in> set ?kvs"
    unfolding role_assignments_def by (elim exE conjE)
  then obtain z where z: "z \<in> set ss" "le_event_type z = ''ROLE_ASSIGNED''" "le_role z = le_role x"
    "v = (le_provider z, le_provider_boot_epoch z)" by auto
  have attempt: "same_attempt x z" "same_attempt z x" and "x \<in> set es" "z \<in> set es"
    using assms(2,3) z(1) by (auto simp: same_attempt_def)
  with sorted_wrt_symD [OF assms(1), of x z]
  consider "x = z" | "lifecycle_follows x z" | "lifecycle_follows z x" by blast
  then have "le_provider x = le_provider z \<and> le_provider_boot_epoch x = le_provider_boot_epoch z"
    by cases (use attempt z(2,3) assms(4) in \<open>simp_all add: lifecycle_follows_def\<close>)
  with v(1) z(4) show ?thesis by simp
qed

lemma progress_accepted:
  assumes "progress_verdict ss e = None" and "x \<in> set ss" and "le_operation_id x \<noteq> None"
    and "le_operation_id x = le_operation_id e"
  shows "le_epoch x < le_epoch e \<or> le_epoch x = le_epoch e \<and> le_sequence x < le_sequence e"
proof -
  let ?progress = "filter (\<lambda>x. le_operation_id x = le_operation_id e) ss"
  let ?m = "list_max (map le_epoch ?progress)"
  have x: "x \<in> set ?progress" using assms(2,4) by simp
  then have "?progress \<noteq> []" by force
  then have "\<not> le_epoch e < ?m"
    and seq: "le_epoch e = ?m \<Longrightarrow> list_max (map le_sequence (filter (\<lambda>x. le_epoch x = ?m) ?progress)) < le_sequence e"
    using assms(1,3,4) by (auto simp: progress_verdict_def Let_def split: if_splits)
  moreover have "le_epoch x \<le> ?m" using x by (intro list_max_ge) auto
  moreover have "le_sequence x \<le> list_max (map le_sequence (filter (\<lambda>x. le_epoch x = ?m) ?progress))" if "le_epoch x = ?m"
    using x that by (intro list_max_ge) auto
  ultimately show ?thesis by force
qed

lemma verdict_follows:
  assumes "lifecycle_verdict es e = None" and "sorted_wrt lifecycle_follows es" and "x \<in> set es"
  shows "lifecycle_follows x e"
proof -
  let ?rs = "filter (\<lambda>x. le_request_id x = le_request_id e) es"
  define ss where "ss = filter (\<lambda>x. le_attempt_epoch x = le_attempt_epoch e) ?rs"
  have ss: "set ss = {x \<in> set es. same_attempt x e}" unfolding ss_def by (rule attempt_members)
  have attempt: "attempt_verdict ss e = None" and "le_event_id x \<noteq> le_event_id e"
    and old: "?rs \<noteq> [] \<Longrightarrow> \<not> le_attempt_epoch e < list_max (map le_attempt_epoch ?rs)"
    using assms(1,3) unfolding lifecycle_verdict_def ss_def
    by (auto simp: Let_def list_ex_iff split: if_splits)
  moreover have "le_attempt_epoch x \<le> le_attempt_epoch e" if "le_request_id x = le_request_id e"
  proof -
    have "x \<in> set ?rs" using that assms(3) by simp
    then have "le_attempt_epoch x \<le> list_max (map le_attempt_epoch ?rs)" by (intro list_max_ge) auto
    moreover have "?rs \<noteq> []" using \<open>x \<in> set ?rs\<close> by force
    ultimately show ?thesis using old by linarith
  qed
  moreover have "le_experiment_id x = le_experiment_id e" "le_event_type x \<notin> set terminal_event_types"
    "le_event_type x = ''ROLE_ASSIGNED'' \<Longrightarrow> le_role x = le_role e
       \<Longrightarrow> le_provider x = le_provider e \<and> le_provider_boot_epoch x = le_provider_boot_epoch e"
    "le_operation_id x \<noteq> None \<Longrightarrow> le_operation_id x = le_operation_id e
       \<Longrightarrow> le_epoch x < le_epoch e \<or> le_epoch x = le_epoch e \<and> le_sequence x < le_sequence e"
    if "same_attempt x e"
  proof -
    have x: "x \<in> set ss" using that assms(3) ss by simp
    note v = attempt [unfolded attempt_verdict_def Let_def]
    show "le_experiment_id x = le_experiment_id e" using v x by (auto simp: list_ex_iff split: if_splits)
    show "le_event_type x \<notin> set terminal_event_types" using v x by (auto simp: list_ex_iff split: if_splits)
    show "le_provider x = le_provider e \<and> le_provider_boot_epoch x = le_provider_boot_epoch e"
      if "le_event_type x = ''ROLE_ASSIGNED''" "le_role x = le_role e"
      using v assigned_binding [OF assms(2) ss x that(1)] that(2) by (auto split: if_splits)
    have "progress_verdict ss e = None" using v by (simp split: if_splits)
    from progress_accepted [OF this x]
    show "le_epoch x < le_epoch e \<or> le_epoch x = le_epoch e \<and> le_sequence x < le_sequence e"
      if "le_operation_id x \<noteq> None" "le_operation_id x = le_operation_id e" using that by blast
  qed
  ultimately show ?thesis unfolding lifecycle_follows_def by blast
qed

lemma verdict_plan:
  assumes "lifecycle_verdict es e = None" and "sorted_wrt plan_follows es" and "x \<in> set es"
    and "\<forall>x \<in> set es. le_event_type x = ''PLAN_COMMITTED'' \<longrightarrow> le_plan_digest x \<noteq> None"
  shows "plan_follows x e"
proof (cases "same_attempt x e \<and> le_event_type x = ''PLAN_COMMITTED''")
  case True
  define ss where "ss = filter (\<lambda>x. le_attempt_epoch x = le_attempt_epoch e) (filter (\<lambda>x. le_request_id x = le_request_id e) es)"
  have ss: "set ss = {x \<in> set es. same_attempt x e}" unfolding ss_def by (rule attempt_members)
  have attempt: "attempt_verdict ss e = None"
    using assms(1) unfolding lifecycle_verdict_def ss_def by (auto simp: Let_def split: if_splits)
  let ?cs = "filter (\<lambda>x. le_event_type x = ''PLAN_COMMITTED'') ss"
  have x: "x \<in> set ?cs" using True assms(3) ss by simp
  then obtain z zs where zs: "?cs = z # zs" by (cases ?cs) auto
  then have "z \<in> set ?cs" by simp
  then have z: "z \<in> set es" "same_attempt z e" "le_event_type z = ''PLAN_COMMITTED''" using ss by auto
  then have "le_plan_digest z \<noteq> None" using assms(4) by blast
  then have "le_plan_digest e = le_plan_digest z"
    using attempt zs by (auto simp: attempt_verdict_def Let_def split: if_splits)
  moreover have "same_attempt x z" "same_attempt z x" using True z by (auto simp: same_attempt_def)
  then have "le_plan_digest x = le_plan_digest z"
    using sorted_wrt_symD [OF assms(2,3) z(1)] True z(3) by (auto simp: plan_follows_def)
  ultimately show ?thesis by (simp add: plan_follows_def)
qed (auto simp: plan_follows_def)

lemma lifecycle_ok_snoc:
  assumes "lifecycle_ok es" and "lifecycle_verdict es e = None"
  shows "lifecycle_ok (es @ [e])"
proof -
  have "le_authenticated e"
    using assms(2) by (auto simp: lifecycle_verdict_def Let_def split: if_splits)
  with assms verdict_follows [OF assms(2)] verdict_plan [OF assms(2)] show ?thesis
    unfolding lifecycle_ok_def sorted_wrt_append by auto
qed

section \<open>Decisions in the journal\<close>

text \<open>
  \<open>lifecycle_core\<close>: an event without its details, which acceptance does not look at. \<open>decision_ok\<close>: a
  lifecycle record holds a decision on a valid event. \<open>logged_events\<close>: the accepted events.
\<close>

definition lifecycle_core :: "lifecycle_event \<Rightarrow> lifecycle_event" where
  "lifecycle_core e = e\<lparr>le_details := []\<rparr>"

definition lifecycle_event_ok :: "(json \<Rightarrow> string) \<Rightarrow> lifecycle_event \<Rightarrow> bool" where
  "lifecycle_event_ok rep e \<longleftrightarrow> make_lifecycle_event rep e = Inr e \<and> json_distinct (JObj (le_details e))
     \<and> (case dict_get (le_details e) ''failure_code'' of Some (JList _) \<Rightarrow> False | Some (JObj _) \<Rightarrow> False | _ \<Rightarrow> True)"

definition decision_ok :: "(json \<Rightarrow> string) \<Rightarrow> jrecord \<Rightarrow> bool" where
  "decision_ok rep r \<longleftrightarrow> (dict_get r ''kind'' = Some (JStr lifecycle_kind) \<longrightarrow>
     (\<exists>e code p. lifecycle_event_ok rep e \<and> dict_get r ''payload'' = Some (JObj p)
        \<and> same_record p (lifecycle_decision e code)))"

definition logged_event :: "(json \<Rightarrow> string) \<Rightarrow> jrecord \<Rightarrow> lifecycle_event list" where
  "logged_event rep r =
     (if dict_get r ''kind'' \<noteq> Some (JStr lifecycle_kind) then []
      else case dict_get r ''payload'' of
        Some (JObj d) \<Rightarrow>
          (if py_truth (field_or d ''accepted'' JNull)
           then (case event_of_decision rep d of Inl _ \<Rightarrow> [] | Inr e \<Rightarrow> [lifecycle_core e]) else [])
      | _ \<Rightarrow> [])"

definition logged_events :: "(json \<Rightarrow> string) \<Rightarrow> jrecord list \<Rightarrow> lifecycle_event list" where
  "logged_events rep rs = concat (map (logged_event rep) rs)"

lemma norm_option_atoms:
  "map_option json_norm x = Some (JStr s) \<longleftrightarrow> x = Some (JStr s)"
  "map_option json_norm x = Some (JInt i) \<longleftrightarrow> x = Some (JInt i)"
  "map_option json_norm x = Some (JBool b) \<longleftrightarrow> x = Some (JBool b)"
  "map_option json_norm x = Some JNull \<longleftrightarrow> x = Some JNull"
  by (cases x; simp)+

lemma norm_option_obj:
  "map_option json_norm x = Some (json_norm (JObj v)) \<Longrightarrow> \<exists>w. x = Some (JObj w) \<and> json_norm (JObj w) = json_norm (JObj v)"
  by (cases x) (auto, metis json.distinct json.exhaust json_norm.simps)

lemma same_record_atom:
  assumes "same_record d e" and "dict_get e k = Some v" and "v \<in> range JStr \<union> range JInt \<union> range JBool \<union> {JNull}"
  shows "dict_get d k = Some v"
proof -
  have "map_option json_norm (dict_get d k) = Some v"
    using same_record_get [OF assms(1), of k] assms(2,3) by auto
  with assms(3) show ?thesis by (auto simp: norm_option_atoms)
qed

lemma option_json_atom: "option_json v \<in> range JStr \<union> range JInt \<union> range JBool \<union> {JNull}"
  by (cases v) (auto simp: option_json_def)

lemma json_distinct_get: "json_distinct (JObj e) \<Longrightarrow> dict_get e k = Some v \<Longrightarrow> json_distinct v"
  unfolding json_distinct_obj by (force dest: dict_get_in)

lemma same_record_obj:
  assumes "same_record d e" and "dict_get e k = Some (JObj v)"
  shows "\<exists>w. dict_get d k = Some (JObj w) \<and> same_record w v"
proof -
  have "map_option json_norm (dict_get d k) = Some (json_norm (JObj v))"
    using same_record_get [OF assms(1), of k] assms(2) by simp
  then obtain w where w: "dict_get d k = Some (JObj w)" "json_norm (JObj w) = json_norm (JObj v)"
    using norm_option_obj by blast
  moreover have "json_distinct (JObj v)"
    using assms json_distinct_get unfolding same_record_def by blast
  ultimately show ?thesis unfolding same_record_def by (metis json_distinct_norm)
qed

lemma same_record_keys:
  assumes "same_record d e"
  shows "set (dict_keys d) = set (dict_keys e)"
proof -
  have "dict_get d k = None \<longleftrightarrow> dict_get e k = None" for k
    using same_record_get [OF assms, of k] by (metis option.map_disc_iff)
  then show ?thesis by (auto simp: map_of_eq_None_iff)
qed

lemma typed_own:
  "dict_get d k = Some (JStr s) \<Longrightarrow> event_str d k = Inr s" "dict_get d k = Some (JInt i) \<Longrightarrow> event_int d k = Inr i"
  "dict_get d k = Some (JBool b) \<Longrightarrow> event_bool d k = Inr b" "dict_get d k = Some (JObj v) \<Longrightarrow> event_dict d k = Inr v"
  "dict_get d k = Some (option_json x) \<Longrightarrow> event_option d k = Inr x"
  by (simp_all add: event_str_def event_int_def event_bool_def event_dict_def event_option_def option_json_def
      split: option.splits)

lemma lifecycle_dict:
  "lifecycle_event_to_dict e = lifecycle_event_fields e @ [(''schema'', JStr lifecycle_event_schema)]"
  by (simp add: lifecycle_event_to_dict_def with_schema_def lifecycle_event_fields_def)

lemma lifecycle_failure_code:
  assumes "lifecycle_event_ok rep e" and "same_record v (le_details e)"
  shows "str_field rep v ''failure_code'' = str_field rep (le_details e) ''failure_code''"
proof (cases "dict_get (le_details e) ''failure_code''")
  case None
  then have "dict_get v ''failure_code'' = None" using same_record_get [OF assms(2), of "''failure_code''"] by simp
  with None show ?thesis by (simp add: str_field_def field_or_def)
next
  case (Some c)
  then have "c \<in> range JStr \<union> range JInt \<union> range JBool \<union> {JNull}"
    using assms(1) by (cases c) (auto simp: lifecycle_event_ok_def)
  with Some have "dict_get v ''failure_code'' = Some c" by (intro same_record_atom [OF assms(2)])
  with Some show ?thesis by (simp add: str_field_def field_or_def)
qed

lemma make_lifecycle_details:
  assumes "make_lifecycle_event rep e = Inr e"
    and "str_field rep v ''failure_code'' = str_field rep (le_details e) ''failure_code''"
  shows "make_lifecycle_event rep (e\<lparr>le_details := v\<rparr>) = Inr (e\<lparr>le_details := v\<rparr>)"
  using assms unfolding make_lifecycle_event_def Let_def
  by (simp add: sum_then_Inr split: if_splits) (auto simp: sum_then_Inr)

lemma lifecycle_from_same:
  assumes "lifecycle_event_ok rep e" and "same_record d (lifecycle_event_to_dict e)"
  shows "\<exists>v. lifecycle_event_from_dict rep d = Inr (e\<lparr>le_details := v\<rparr>)"
proof -
  have keys: "set (dict_keys d) = insert ''schema'' (set lifecycle_event_names)"
    using same_record_keys [OF assms(2)]
    by (simp add: lifecycle_dict lifecycle_event_fields_def lifecycle_event_names_def insert_commute)
  obtain v where v: "dict_get d ''details'' = Some (JObj v)" "same_record v (le_details e)"
    using same_record_obj [OF assms(2), of "''details''" "le_details e"]
    by (auto simp: lifecycle_dict lifecycle_event_fields_def)
  have make: "make_lifecycle_event rep (e\<lparr>le_details := v\<rparr>) = Inr (e\<lparr>le_details := v\<rparr>)"
    using assms(1) lifecycle_failure_code [OF assms(1) v(2)]
    by (intro make_lifecycle_details) (simp_all add: lifecycle_event_ok_def)
  have atom: "dict_get (lifecycle_event_to_dict e) k = Some w \<Longrightarrow> w \<in> range JStr \<union> range JInt \<union> range JBool \<union> {JNull}
      \<Longrightarrow> dict_get d k = Some w" for k w
    by (rule same_record_atom [OF assms(2)])
  have strs: "event_str d ''experiment_id'' = Inr (le_experiment_id e)" "event_str d ''request_id'' = Inr (le_request_id e)"
    "event_str d ''event_id'' = Inr (le_event_id e)" "event_str d ''event_type'' = Inr (le_event_type e)"
    "event_str d ''component'' = Inr (le_component e)" "event_str d ''wall_time_utc'' = Inr (le_wall_time_utc e)"
    "event_str d ''details_schema'' = Inr (le_details_schema e)"
    by (rule typed_own(1), rule atom, simp add: lifecycle_dict lifecycle_event_fields_def, simp)+
  have ints: "event_int d ''attempt_epoch'' = Inr (le_attempt_epoch e)" "event_int d ''epoch'' = Inr (le_epoch e)"
    "event_int d ''sequence'' = Inr (le_sequence e)" "event_int d ''monotonic_ns'' = Inr (le_monotonic_ns e)"
    by (rule typed_own(2), rule atom, simp add: lifecycle_dict lifecycle_event_fields_def, simp)+
  have options: "event_option d ''provider'' = Inr (le_provider e)"
    "event_option d ''provider_boot_epoch'' = Inr (le_provider_boot_epoch e)" "event_option d ''role'' = Inr (le_role e)"
    "event_option d ''plan_digest'' = Inr (le_plan_digest e)" "event_option d ''operation_id'' = Inr (le_operation_id e)"
    by (rule typed_own(5), rule atom, simp add: lifecycle_dict lifecycle_event_fields_def, rule option_json_atom)+
  have bool: "event_bool d ''authenticated'' = Inr (le_authenticated e)"
    by (rule typed_own(3), rule atom, simp add: lifecycle_dict lifecycle_event_fields_def, simp)
  have schema: "dict_get d ''schema'' = Some (JStr lifecycle_event_schema)"
    by (rule atom, simp add: lifecycle_dict lifecycle_event_fields_def, simp)
  have "lifecycle_event_from_dict rep d = make_lifecycle_event rep (e\<lparr>le_details := v\<rparr>)"
    unfolding lifecycle_event_from_dict_def using keys schema
    by (simp add: strs ints options bool typed_own(4) [OF v(1)]) (cases e; simp)
  with make show ?thesis by auto
qed

lemma decision_event:
  assumes "lifecycle_event_ok rep e" and "same_record p (lifecycle_decision e code)"
  shows "py_truth (field_or p ''accepted'' JNull) \<longleftrightarrow> code = None"
    and "\<exists>v. event_of_decision rep p = Inr (e\<lparr>le_details := v\<rparr>)"
proof -
  have "dict_get p ''accepted'' = Some (JBool (code = None))"
    by (rule same_record_atom [OF assms(2)]) (simp_all add: lifecycle_decision_def)
  then show "py_truth (field_or p ''accepted'' JNull) \<longleftrightarrow> code = None"
    by (simp add: field_or_def py_truth_def)
  obtain w where "dict_get p ''event'' = Some (JObj w)" "same_record w (lifecycle_event_to_dict e)"
    using same_record_obj [OF assms(2), of "''event''" "lifecycle_event_to_dict e"]
    by (auto simp: lifecycle_decision_def)
  with lifecycle_from_same [OF assms(1)] show "\<exists>v. event_of_decision rep p = Inr (e\<lparr>le_details := v\<rparr>)"
    by (simp add: event_of_decision_def)
qed

lemma logged_decision:
  assumes "lifecycle_event_ok rep e" and "same_record p (lifecycle_decision e code)"
    and "dict_get r ''kind'' = Some (JStr lifecycle_kind)" and "dict_get r ''payload'' = Some (JObj p)"
  shows "logged_event rep r = (if code = None then [lifecycle_core e] else [])"
  using decision_event [OF assms(1,2)] assms(3,4) by (auto simp: logged_event_def lifecycle_core_def)

lemma decision_ok_same:
  assumes "same_record q r" and "decision_ok rep r"
  shows "decision_ok rep q \<and> logged_event rep q = logged_event rep r"
proof (cases "dict_get r ''kind'' = Some (JStr lifecycle_kind)")
  case True
  then have kind: "dict_get q ''kind'' = Some (JStr lifecycle_kind)" using same_record_str [OF assms(1)] by blast
  from True assms(2) obtain e code p where r: "lifecycle_event_ok rep e" "dict_get r ''payload'' = Some (JObj p)"
    "same_record p (lifecycle_decision e code)" by (auto simp: decision_ok_def)
  from same_record_obj [OF assms(1) r(2)] obtain w where w: "dict_get q ''payload'' = Some (JObj w)" "same_record w p"
    by blast
  have same: "same_record w (lifecycle_decision e code)" using w(2) r(3) by (rule same_record_trans)
  show ?thesis
    using logged_decision [OF r(1) same kind w(1)] logged_decision [OF r(1,3) True r(2)] r(1) same w(1)
    by (auto simp: decision_ok_def)
next
  case False
  then have "dict_get q ''kind'' \<noteq> Some (JStr lifecycle_kind)" using same_record_str [OF assms(1)] by blast
  with False show ?thesis by (simp add: decision_ok_def logged_event_def)
qed

lemma decisions_same:
  "list_all2 same_record qs rs \<Longrightarrow> list_all (decision_ok rep) rs
    \<Longrightarrow> list_all (decision_ok rep) qs \<and> logged_events rep qs = logged_events rep rs"
proof (induction rule: list_all2_induct)
  case (Cons q qs r rs)
  with decision_ok_same [of q r rep] show ?case by (simp add: logged_events_def)
qed (simp add: logged_events_def)

lemma records_same: "list_all2 same_record qs rs \<Longrightarrow> list_all (record_ok sha) rs \<Longrightarrow> list_all (record_ok sha) qs"
  by (induction rule: list_all2_induct) (auto intro: record_ok_same)

lemma accepted_of_records:
  assumes "list_all (decision_ok rep) rs"
  shows "\<exists>ds es. lifecycle_decisions rs = Inr ds \<and> accepted_events rep ds = Inr (Some es)
    \<and> map lifecycle_core es = logged_events rep rs"
  using assms
proof (induction rs)
  case Nil
  show ?case by (simp add: lifecycle_decisions_def logged_events_def)
next
  case (Cons r rs)
  then obtain ds es where IH: "lifecycle_decisions rs = Inr ds" "accepted_events rep ds = Inr (Some es)"
    "map lifecycle_core es = logged_events rep rs" by auto
  show ?case
  proof (cases "dict_get r ''kind'' = Some (JStr lifecycle_kind)")
    case True
    with Cons.prems obtain e code p where r: "lifecycle_event_ok rep e" "dict_get r ''payload'' = Some (JObj p)"
      "same_record p (lifecycle_decision e code)" by (auto simp: decision_ok_def)
    from decision_event [OF r(1,3)] obtain v where v: "event_of_decision rep p = Inr (e\<lparr>le_details := v\<rparr>)"
      "py_truth (field_or p ''accepted'' JNull) \<longleftrightarrow> code = None" by blast
    have "lifecycle_decisions (r # rs) = Inr (JObj p # ds)"
      using IH(1) True r(2) by (simp add: lifecycle_decisions_def record_payload_def)
    moreover have "logged_events rep (r # rs) = (if code = None then [lifecycle_core e] else []) @ logged_events rep rs"
      using logged_decision [OF r(1,3) True r(2)] by (simp add: logged_events_def)
    moreover have "accepted_events rep (JObj p # ds) = Inr (Some ((if code = None then [e\<lparr>le_details := v\<rparr>] else []) @ es))"
      using v IH(2) by simp
    moreover have "lifecycle_core (e\<lparr>le_details := v\<rparr>) = lifecycle_core e" by (simp add: lifecycle_core_def)
    ultimately show ?thesis using IH(3) by simp
  next
    case False
    with IH show ?thesis by (simp add: lifecycle_decisions_def logged_events_def logged_event_def)
  qed
qed

text \<open>Acceptance looks at nothing but the core of the events.\<close>

lemma core_fields [simp]:
  "le_experiment_id (lifecycle_core e) = le_experiment_id e" "le_request_id (lifecycle_core e) = le_request_id e"
  "le_attempt_epoch (lifecycle_core e) = le_attempt_epoch e" "le_event_id (lifecycle_core e) = le_event_id e"
  "le_event_type (lifecycle_core e) = le_event_type e" "le_provider (lifecycle_core e) = le_provider e"
  "le_provider_boot_epoch (lifecycle_core e) = le_provider_boot_epoch e" "le_role (lifecycle_core e) = le_role e"
  "le_plan_digest (lifecycle_core e) = le_plan_digest e" "le_operation_id (lifecycle_core e) = le_operation_id e"
  "le_epoch (lifecycle_core e) = le_epoch e" "le_sequence (lifecycle_core e) = le_sequence e"
  "le_authenticated (lifecycle_core e) = le_authenticated e"
  by (simp_all add: lifecycle_core_def)

lemma filter_core: "filter P (map lifecycle_core es) = map lifecycle_core (filter (\<lambda>e. P (lifecycle_core e)) es)"
  by (simp add: filter_map comp_def)

lemma progress_verdict_core:
  "progress_verdict (map lifecycle_core es) (lifecycle_core e) = progress_verdict es e"
  by (simp add: progress_verdict_def filter_core comp_def Let_def)

lemma attempt_verdict_core:
  "attempt_verdict (map lifecycle_core es) (lifecycle_core e) = attempt_verdict es e"
  by (simp add: attempt_verdict_def progress_verdict_core role_assignments_def filter_core comp_def
      list_ex_iff Let_def)

lemma lifecycle_verdict_core:
  "lifecycle_verdict (map lifecycle_core es) (lifecycle_core e) = lifecycle_verdict es e"
  using attempt_verdict_core [of "[]" e]
  by (simp add: lifecycle_verdict_def attempt_verdict_core filter_core comp_def list_ex_iff Let_def)

section \<open>The state of a journal\<close>

text \<open>
  The file consists of complete lines of records as the code writes them, with a consistent log of
  lifecycle events; a journal object that has seen the whole file has its records in the cache and
  its envelopes in the index. \<open>envelope_index\<close> is the index of a sequence of records.
\<close>

definition index_step :: "(json \<Rightarrow> string) \<Rightarrow> (string, (string, json) dict) dict \<Rightarrow> jrecord
    \<Rightarrow> (string, (string, json) dict) dict" where
  "index_step rep index r = (case dict_get r ''payload'' of
       Some (JObj payload) \<Rightarrow> indexed_payload rep (dict_get r ''kind'') payload index
     | _ \<Rightarrow> index)"

definition envelope_index :: "(json \<Rightarrow> string) \<Rightarrow> jrecord list \<Rightarrow> (string, (string, json) dict) dict" where
  "envelope_index rep rs = foldl (index_step rep) [] rs"

definition file_ok :: "hash \<Rightarrow> (json \<Rightarrow> string) \<Rightarrow> string \<Rightarrow> jrecord list \<Rightarrow> bool" where
  "file_ok sha rep file rs \<longleftrightarrow> file_holds sha file rs \<and> list_all (record_ok sha) rs \<and> list_all (decision_ok rep) rs
     \<and> lifecycle_ok (logged_events rep rs)"

definition synced :: "hash \<Rightarrow> (json \<Rightarrow> string) \<Rightarrow> journal \<Rightarrow> jrecord list \<Rightarrow> bool" where
  "synced sha rep j rs \<longleftrightarrow> jn_journal_size j = byte_size (jn_file j) \<and> list_all2 same_record (jn_records_cache j) rs
     \<and> jn_journal_envelopes j = envelope_index rep (jn_records_cache j)"

definition journal_inv :: "hash \<Rightarrow> (json \<Rightarrow> string) \<Rightarrow> journal \<Rightarrow> bool" where
  "journal_inv sha rep j \<longleftrightarrow> (\<exists>rs. file_ok sha rep (jn_file j) rs
     \<and> jn_journal_size j \<le> byte_size (jn_file j)
     \<and> (jn_journal_size j = byte_size (jn_file j) \<longrightarrow> synced sha rep j rs))"

inductive journal_step :: "hash \<Rightarrow> (json \<Rightarrow> string) \<Rightarrow> journal \<Rightarrow> journal \<Rightarrow> bool" for sha rep where
  append: "list_all entry_ok entries \<Longrightarrow> list_all (\<lambda>e. fst e \<noteq> lifecycle_kind) entries
    \<Longrightarrow> journal_step sha rep j (snd (append_many sha rep busy clock entries j))"
| lifecycle: "lifecycle_event_ok rep event
    \<Longrightarrow> journal_step sha rep j (snd (append_lifecycle_event sha rep busy clock event j))"
| read: "journal_step sha rep j (snd (journal_records sha rep tolerate j))"
| compaction: "journal_step sha rep j (snd (compact sha rep busy at_ms retention_ms j))"
| spool: "journal_step sha rep j (j\<lparr>jn_spool := files, jn_usage_bytes := usage\<rparr>)"
| other_writer: "list_all entry_ok entries \<Longrightarrow> list_all (\<lambda>e. fst e \<noteq> lifecycle_kind) entries \<Longrightarrow> entries \<noteq> []
    \<Longrightarrow> journal_step sha rep j (j\<lparr>jn_file := jn_file j @ wire_line (written_record sha clock entries)\<rparr>)"
| reopen: "open_journal sha rep (jn_file j) files other_bytes quota_bytes ring = Inr k \<Longrightarrow> journal_step sha rep j k"

definition journal_start :: "hash \<Rightarrow> (json \<Rightarrow> string) \<Rightarrow> journal \<Rightarrow> bool" where
  "journal_start sha rep j \<longleftrightarrow> ascii_hash sha \<and> (\<exists>files other_bytes quota_bytes ring.
     open_journal sha rep [] files other_bytes quota_bytes ring = Inr j)"

lemma record_ok_payload: "record_ok sha r \<Longrightarrow> \<exists>p. dict_get r ''payload'' = Some (JObj p)"
  by (auto simp: record_ok_def sealed_record_def)

lemma index_records_ok:
  "list_all (record_ok sha) rs
    \<Longrightarrow> index_records rep rs j = (Inr (), j\<lparr>jn_journal_envelopes := foldl (index_step rep) (jn_journal_envelopes j) rs\<rparr>)"
proof (induction rs arbitrary: j)
  case (Cons r rs)
  then obtain p where "dict_get r ''payload'' = Some (JObj p)" using record_ok_payload [of sha r] by auto
  then have "index_envelope_record rep r j
      = (Inr (), j\<lparr>jn_journal_envelopes := index_step rep (jn_journal_envelopes j) r\<rparr>)"
    by (simp add: index_envelope_record_def index_step_def field_or_def)
  with Cons show ?case by simp
qed simp

lemma rebuild_ok:
  "list_all (record_ok sha) (jn_records_cache j) \<Longrightarrow> rebuild_envelope_index rep j
    = (Inr (), j\<lparr>jn_journal_envelopes := envelope_index rep (jn_records_cache j)\<rparr>)"
  by (simp add: rebuild_envelope_index_def index_records_ok envelope_index_def)

lemma synced_facts:
  assumes "file_ok sha rep (jn_file j) rs" and "synced sha rep j rs"
  shows "list_all (record_ok sha) (jn_records_cache j)" "list_all (decision_ok rep) (jn_records_cache j)"
    "lifecycle_ok (logged_events rep (jn_records_cache j))"
proof -
  have same: "list_all2 same_record (jn_records_cache j) rs" using assms(2) by (simp add: synced_def)
  show "list_all (record_ok sha) (jn_records_cache j)"
    using records_same [OF same] assms(1) by (auto simp: file_ok_def)
  show "list_all (decision_ok rep) (jn_records_cache j)" "lifecycle_ok (logged_events rep (jn_records_cache j))"
    using decisions_same [OF same, of rep] assms(1) by (auto simp: file_ok_def)
qed

lemma open_file:
  assumes "file_ok sha rep file rs"
  shows "\<exists>j. open_journal sha rep file files other_bytes quota_bytes ring = Inr j \<and> jn_file j = file
    \<and> synced sha rep j rs"
proof -
  obtain qs where qs: "load_records sha True file = Inr qs" "list_all2 same_record qs rs"
    using assms load_file [of sha "file" rs] unfolding file_ok_def by blast
  have "list_all (record_ok sha) qs" using records_same [OF qs(2)] assms by (auto simp: file_ok_def)
  with qs show ?thesis by (simp add: open_journal_def rebuild_ok synced_def)
qed

lemma refresh_ok:
  assumes "journal_inv sha rep j"
  shows "\<exists>k rs. refresh_records sha rep tolerate j = (Inr (), k) \<and> jn_file k = jn_file j
    \<and> file_ok sha rep (jn_file k) rs \<and> synced sha rep k rs"
proof -
  obtain rs where rs: "file_ok sha rep (jn_file j) rs"
    "jn_journal_size j = byte_size (jn_file j) \<longrightarrow> synced sha rep j rs" using assms by (auto simp: journal_inv_def)
  show ?thesis
  proof (cases "jn_journal_size j = byte_size (jn_file j)")
    case True
    with rs show ?thesis by (auto simp: refresh_records_def)
  next
    case False
    obtain qs where qs: "load_records sha tolerate (jn_file j) = Inr qs" "list_all2 same_record qs rs"
      using rs(1) load_file [of sha "jn_file j" rs] unfolding file_ok_def by blast
    have "list_all (record_ok sha) qs" using records_same [OF qs(2)] rs(1) by (auto simp: file_ok_def)
    with False qs rs(1) show ?thesis
      by (auto simp: refresh_records_def Let_def rebuild_ok synced_def)
  qed
qed

lemma synced_inv: "file_ok sha rep (jn_file j) rs \<Longrightarrow> synced sha rep j rs \<Longrightarrow> journal_inv sha rep j"
  by (auto simp: journal_inv_def synced_def)

lemma file_ok_append:
  assumes "ascii_hash sha" and "file_ok sha rep file rs" and "list_all entry_ok entries" and "entries \<noteq> []"
    and "list_all (decision_ok rep) (make_envelopes sha clock entries)"
    and "lifecycle_ok (logged_events rep (rs @ make_envelopes sha clock entries))"
  shows "file_ok sha rep (file @ wire_line (written_record sha clock entries)) (rs @ make_envelopes sha clock entries)"
  using assms file_holds_append [OF _ written_line_holds [OF assms(1,3,4)]] make_envelopes_ok [OF assms(3)]
  by (simp add: file_ok_def)

lemma append_locked_ok:
  assumes "ascii_hash sha" and "file_ok sha rep (jn_file j) rs" and "synced sha rep j rs"
    and "list_all entry_ok entries" and "entries \<noteq> []"
    and "list_all (decision_ok rep) (make_envelopes sha clock entries)"
    and "lifecycle_ok (logged_events rep (rs @ make_envelopes sha clock entries))"
    and "append_many_locked sha rep clock entries j = (r, k)"
  shows "journal_inv sha rep k \<and> (\<forall>envelopes. r = Inr envelopes \<longrightarrow>
    envelopes = make_envelopes sha clock entries \<and> jn_records_cache k = jn_records_cache j @ envelopes
    \<and> jn_file k = jn_file j @ wire_line (written_record sha clock entries)
    \<and> file_ok sha rep (jn_file k) (rs @ envelopes) \<and> synced sha rep k (rs @ envelopes))
    \<and> (\<forall>e. r = Inl e \<longrightarrow> k = j)"
proof -
  let ?envs = "make_envelopes sha clock entries" and ?wire = "wire_line (written_record sha clock entries)"
  have ok: "list_all (record_ok sha) ?envs" using assms(4) by (rule make_envelopes_ok)
  have ne: "?envs \<noteq> []" using assms(5) by (auto simp: make_envelopes_def enumerate_eq_zip)
  have written: "file_ok sha rep (jn_file j @ ?wire) (rs @ ?envs)" by (rule file_ok_append) fact+
  note self = same_list_refl [OF ok]
  show ?thesis
  proof (cases "jn_usage_bytes j + byte_size ?wire > jn_quota_bytes j")
    case True
    with ne assms(8) have "r = Inl (JournalQuotaError ''journal quota exceeded'')" "k = j"
      by (auto simp: append_many_locked_def Let_def)
    with assms(2,3) show ?thesis by (auto intro: synced_inv)
  next
    case False
    with ne assms(8) ok have r: "r = Inr ?envs" and k: "k = j\<lparr>jn_file := jn_file j @ ?wire,
        jn_records_cache := jn_records_cache j @ ?envs,
        jn_journal_envelopes := foldl (index_step rep) (jn_journal_envelopes j) ?envs,
        jn_journal_size := jn_journal_size j + byte_size ?wire, jn_usage_bytes := jn_usage_bytes j + byte_size ?wire\<rparr>"
      by (auto simp: append_many_locked_def Let_def index_records_ok)
    have "synced sha rep k (rs @ ?envs)"
      using assms(3) self unfolding k by (simp add: synced_def envelope_index_def list_all2_appendI)
    moreover have "file_ok sha rep (jn_file k) (rs @ ?envs)" using written unfolding k by simp
    ultimately show ?thesis using r k by (auto intro: synced_inv)
  qed
qed

section \<open>Compaction as a filter\<close>

text \<open>
  What compaction keeps, said of the whole sequence: not the records of an expired request, only the
  last state of a deployment and of an operation, no expired envelope.
\<close>

definition payload_of :: "jrecord \<Rightarrow> (string, json) dict" where
  "payload_of r = (case dict_get r ''payload'' of Some (JObj p) \<Rightarrow> p | _ \<Rightarrow> [])"

definition kind_is :: "string \<Rightarrow> jrecord \<Rightarrow> bool" where
  "kind_is kind r \<longleftrightarrow> dict_get r ''kind'' = Some (JStr kind)"

definition expires_by :: "int \<Rightarrow> int \<Rightarrow> jrecord \<Rightarrow> bool" where
  "expires_by at_ms retention_ms r \<longleftrightarrow>
     (case int_field (payload_of r) ''expires_at_ms'' 0 of Inr expires \<Rightarrow> expires + retention_ms \<le> at_ms | Inl _ \<Rightarrow> False)"

definition request_expired :: "(json \<Rightarrow> string) \<Rightarrow> int \<Rightarrow> int \<Rightarrow> jrecord list \<Rightarrow> string \<Rightarrow> bool" where
  "request_expired rep at_ms retention_ms rs request_id \<longleftrightarrow> request_id \<noteq> [] \<and> (\<exists>r \<in> set rs. kind_is ''request-handle'' r
     \<and> expires_by at_ms retention_ms r \<and> str_field rep (payload_of r) ''request_id'' = request_id)"

definition superseded :: "(json \<Rightarrow> string) \<Rightarrow> string \<Rightarrow> string \<Rightarrow> jrecord list \<Rightarrow> nat \<Rightarrow> bool" where
  "superseded rep kind key rs i \<longleftrightarrow> kind_is kind (rs ! i) \<and> list_ex (\<lambda>r. kind_is kind r
     \<and> str_field rep (payload_of r) key = str_field rep (payload_of (rs ! i)) key) (drop (Suc i) rs)"

definition compaction_keeps :: "(json \<Rightarrow> string) \<Rightarrow> int \<Rightarrow> int \<Rightarrow> jrecord list \<Rightarrow> nat \<Rightarrow> bool" where
  "compaction_keeps rep at_ms retention_ms rs i \<longleftrightarrow>
     \<not> request_expired rep at_ms retention_ms rs (record_request rep (payload_of (rs ! i)))
     \<and> \<not> superseded rep ''deployment-state'' ''deploymentId'' rs i
     \<and> \<not> superseded rep ''deployment-operation'' ''operation_id'' rs i
     \<and> \<not> (kind_is ''protected-envelope'' (rs ! i) \<and> expires_by at_ms retention_ms (rs ! i))"

lemma payload_ok: "record_ok sha r \<Longrightarrow> record_payload r = Inr (JObj (payload_of r))"
  using record_ok_payload [of sha r] by (auto simp: record_payload_def payload_of_def)

lemma kind_ok: "record_ok sha r \<Longrightarrow> \<exists>k. record_kind r = Inr k \<and> dict_get r ''kind'' = Some k"
  by (auto simp: record_kind_def record_ok_def sealed_record_def)

lemma expired_requests_exact:
  assumes "list_all (record_ok sha) rs" and "expired_requests rep at_ms retention_ms rs = Inr ids"
  shows "set ids = {str_field rep (payload_of r) ''request_id'' | r. r \<in> set rs \<and> kind_is ''request-handle'' r
    \<and> expires_by at_ms retention_ms r}"
  using assms
proof (induction rs arbitrary: ids)
  case (Cons r rs)
  from Cons.prems(1) have r: "record_ok sha r" and rs: "list_all (record_ok sha) rs" by auto
  obtain k where k: "record_kind r = Inr k" "dict_get r ''kind'' = Some k" using kind_ok [OF r] by blast
  from Cons.prems(2) obtain here rest where "ids = here @ rest"
    and rest: "expired_requests rep at_ms retention_ms rs = Inr rest"
    and here: "here = (if kind_is ''request-handle'' r \<and> expires_by at_ms retention_ms r
      then [str_field rep (payload_of r) ''request_id''] else [])"
    by (auto simp: k payload_ok [OF r] as_mapping_def kind_is_def expires_by_def sum_then_Inr split: if_splits)
  with Cons.IH [OF rs rest] show ?case by auto
qed simp

text \<open>The index of the last record of a kind with a key.\<close>

definition last_index :: "(json \<Rightarrow> string) \<Rightarrow> string \<Rightarrow> string \<Rightarrow> jrecord list \<Rightarrow> (string, nat) dict \<Rightarrow> bool" where
  "last_index rep kind key rs d \<longleftrightarrow> (\<forall>k n. dict_get d k = Some n \<longleftrightarrow> n < length rs \<and> kind_is kind (rs ! n)
     \<and> str_field rep (payload_of (rs ! n)) key = k \<and> \<not> superseded rep kind key rs n)"

lemma last_index_snoc:
  assumes "last_index rep kind key rs d"
  shows "last_index rep kind key (rs @ [r])
    (if kind_is kind r then dict_set (str_field rep (payload_of r) key) (length rs) d else d)"
proof -
  have old: "superseded rep kind key (rs @ [r]) n \<longleftrightarrow> superseded rep kind key rs n \<or> kind_is kind (rs ! n)
      \<and> kind_is kind r \<and> str_field rep (payload_of r) key = str_field rep (payload_of (rs ! n)) key"
    if "n < length rs" for n
    unfolding superseded_def using that by (simp add: nth_append) blast
  have new: "\<not> superseded rep kind key (rs @ [r]) (length rs)" by (simp add: superseded_def)
  show ?thesis
    unfolding last_index_def
  proof (intro allI)
    fix k n
    consider "n < length rs" | "n = length rs" | "length rs < n" by linarith
    then show "dict_get (if kind_is kind r then dict_set (str_field rep (payload_of r) key) (length rs) d else d) k = Some n
      \<longleftrightarrow> n < length (rs @ [r]) \<and> kind_is kind ((rs @ [r]) ! n)
        \<and> str_field rep (payload_of ((rs @ [r]) ! n)) key = k \<and> \<not> superseded rep kind key (rs @ [r]) n"
      using assms [unfolded last_index_def, rule_format, of k n] new
      by cases (auto simp: old nth_append AList.update_conv')
  qed
qed

lemma latest_indices_snoc:
  assumes "list_all (record_ok sha) rs" and "record_ok sha r"
  shows "latest_indices rep i (rs @ [r]) D0 O0 = sum_then (latest_indices rep i rs D0 O0) (\<lambda>(ds, os). Inr
    (if kind_is ''deployment-state'' r
     then dict_set (str_field rep (payload_of r) ''deploymentId'') (i + length rs) ds else ds,
     if kind_is ''deployment-operation'' r
     then dict_set (str_field rep (payload_of r) ''operation_id'') (i + length rs) os else os))"
  using assms(1)
proof (induction rs arbitrary: i D0 O0)
  case Nil
  show ?case using payload_ok [OF assms(2)] by (auto simp: kind_is_def as_mapping_def)
next
  case (Cons a rs)
  then have "record_payload a = Inr (JObj (payload_of a))" using payload_ok by auto
  with Cons show ?case by (simp add: as_mapping_def cong del: if_weak_cong)
qed

lemma latest_indices_exact:
  assumes "list_all (record_ok sha) rs"
  shows "\<exists>ds os. latest_indices rep 0 rs [] [] = Inr (ds, os)
    \<and> last_index rep ''deployment-state'' ''deploymentId'' rs ds
    \<and> last_index rep ''deployment-operation'' ''operation_id'' rs os"
  using assms
proof (induction rs rule: rev_induct)
  case Nil
  show ?case by (simp add: last_index_def)
next
  case (snoc r rs)
  then obtain ds os where IH: "latest_indices rep 0 rs [] [] = Inr (ds, os)"
    "last_index rep ''deployment-state'' ''deploymentId'' rs ds"
    "last_index rep ''deployment-operation'' ''operation_id'' rs os" by auto
  have "list_all (record_ok sha) rs" "record_ok sha r" using snoc.prems by auto
  from latest_indices_snoc [OF this, of rep 0 "[]" "[]"] IH(1) last_index_snoc [OF IH(2), of r] last_index_snoc [OF IH(3), of r]
  show ?case unfolding add_0 by (simp split del: if_split)
qed

lemma keep_record_exact:
  assumes "record_ok sha (rs ! i)" and "i < length rs"
    and "keep_record rep at_ms retention_ms expired ds os i (rs ! i) (payload_of (rs ! i)) = Inr keep"
    and "last_index rep ''deployment-state'' ''deploymentId'' rs ds"
    and "last_index rep ''deployment-operation'' ''operation_id'' rs os"
    and "\<And>x. x \<in> set expired \<longleftrightarrow> request_expired rep at_ms retention_ms rs x"
  shows "keep \<longleftrightarrow> compaction_keeps rep at_ms retention_ms rs i"
proof -
  let ?p = "payload_of (rs ! i)"
  have "dict_get ds (str_field rep ?p ''deploymentId'') \<noteq> Some i
      \<longleftrightarrow> superseded rep ''deployment-state'' ''deploymentId'' rs i" if "kind_is ''deployment-state'' (rs ! i)"
    using assms(2) that assms(4) [unfolded last_index_def, rule_format, of _ i] by blast
  moreover have "dict_get os (str_field rep ?p ''operation_id'') \<noteq> Some i
      \<longleftrightarrow> superseded rep ''deployment-operation'' ''operation_id'' rs i" if "kind_is ''deployment-operation'' (rs ! i)"
    using assms(2) that assms(5) [unfolded last_index_def, rule_format, of _ i] by blast
  moreover have "kind_is kind (rs ! i)" if "superseded rep kind key rs i" for kind key
    using that by (simp add: superseded_def)
  moreover have "kind_is a r \<Longrightarrow> kind_is b r \<Longrightarrow> a = b" for a b r by (simp add: kind_is_def)
  ultimately show ?thesis
    using assms(3) unfolding keep_record_def Let_def kind_is_def [symmetric] compaction_keeps_def assms(6)
    by (auto simp: sum_then_Inr expires_by_def split: if_splits)
qed

lemma retained_exact:
  assumes "list_all (record_ok sha) rs"
    and "retained_records rep at_ms retention_ms expired ds os (length pre) post = Inr kept" and "rs = pre @ post"
    and "last_index rep ''deployment-state'' ''deploymentId'' rs ds"
    and "last_index rep ''deployment-operation'' ''operation_id'' rs os"
    and "\<And>x. x \<in> set expired \<longleftrightarrow> request_expired rep at_ms retention_ms rs x"
  shows "kept = map ((!) rs) (filter (compaction_keeps rep at_ms retention_ms rs) [length pre..<length rs])"
  using assms(2,3)
proof (induction post arbitrary: pre kept)
  case (Cons r post)
  have r: "rs ! length pre = r" "length pre < length rs" using Cons.prems(2) by simp_all
  then have ok: "record_ok sha (rs ! length pre)" using assms(1) unfolding list_all_length by blast
  from Cons.prems(1) obtain keep rest where
    keep: "keep_record rep at_ms retention_ms expired ds os (length pre) r (payload_of r) = Inr keep"
    and rest: "retained_records rep at_ms retention_ms expired ds os (Suc (length pre)) post = Inr rest"
    and kept: "kept = (if keep then r # rest else rest)"
    using payload_ok [OF ok] r by (auto simp: as_mapping_def sum_then_Inr)
  have "keep \<longleftrightarrow> compaction_keeps rep at_ms retention_ms rs (length pre)"
    using keep r by (intro keep_record_exact [OF ok _ _ assms(4,5,6)]) simp_all
  moreover have "rest = map ((!) rs) (filter (compaction_keeps rep at_ms retention_ms rs) [Suc (length pre)..<length rs])"
    using Cons.IH [of "pre @ [r]" rest] rest Cons.prems(2) by simp
  ultimately show ?case using kept r by (simp add: upt_conv_Cons)
qed simp

lemma compacted_exact:
  assumes "list_all (record_ok sha) rs" and "compacted rep at_ms retention_ms rs = Inr kept"
  shows "kept = map ((!) rs) (filter (compaction_keeps rep at_ms retention_ms rs) [0..<length rs])"
proof -
  obtain ds os where idx: "latest_indices rep 0 rs [] [] = Inr (ds, os)"
    "last_index rep ''deployment-state'' ''deploymentId'' rs ds"
    "last_index rep ''deployment-operation'' ''operation_id'' rs os" using latest_indices_exact [OF assms(1)] by blast
  obtain ids where ids: "expired_requests rep at_ms retention_ms rs = Inr ids"
    and kept: "retained_records rep at_ms retention_ms (filter (\<lambda>i. i \<noteq> []) ids) ds os 0 rs = Inr kept"
    using assms(2) idx(1) by (auto simp: compacted_def sum_then_Inr)
  have "x \<in> set (filter (\<lambda>i. i \<noteq> []) ids) \<longleftrightarrow> request_expired rep at_ms retention_ms rs x" for x
    using expired_requests_exact [OF assms(1) ids] by (auto simp: request_expired_def)
  from retained_exact [OF assms(1), of rep at_ms retention_ms _ ds os "[]" rs kept, OF _ _ idx(2,3) this] kept
  show ?thesis by simp
qed

lemma concat_map_filter:
  "(\<And>x. x \<in> set xs \<Longrightarrow> \<not> P x \<Longrightarrow> f x = []) \<Longrightarrow> concat (map f (filter P xs)) = concat (map f xs)"
  by (induction xs) auto

text \<open>A decision names no request of its own, so no compaction removes it.\<close>

lemma decision_kept:
  assumes "decision_ok rep (rs ! i)" and "logged_event rep (rs ! i) \<noteq> []"
  shows "compaction_keeps rep at_ms retention_ms rs i"
proof -
  have kind: "kind_is lifecycle_kind (rs ! i)" using assms(2) by (auto simp: logged_event_def kind_is_def split: if_splits)
  then obtain e code p where p: "dict_get (rs ! i) ''payload'' = Some (JObj p)" "same_record p (lifecycle_decision e code)"
    using assms(1) by (auto simp: decision_ok_def kind_is_def)
  have "dict_get p ''requestId'' = None" "dict_get p ''request_id'' = None"
    using same_record_get [OF p(2), of "''requestId''"] same_record_get [OF p(2), of "''request_id''"]
    by (simp_all add: lifecycle_decision_def)
  then have "record_request rep (payload_of (rs ! i)) = []"
    by (simp add: record_request_def payload_of_def p(1) field_or_def py_str_def)
  with kind show ?thesis
    by (simp add: compaction_keeps_def request_expired_def superseded_def kind_is_def lifecycle_kind_def)
qed

lemma compacted_log:
  assumes "list_all (record_ok sha) rs" and "list_all (decision_ok rep) rs"
    and "compacted rep at_ms retention_ms rs = Inr kept"
  shows "logged_events rep kept = logged_events rep rs" and "set kept \<subseteq> set rs"
proof -
  let ?f = "\<lambda>i. logged_event rep (rs ! i)" and ?is = "[0..<length rs]"
  note kept = compacted_exact [OF assms(1,3)]
  show "set kept \<subseteq> set rs" unfolding kept by auto
  have "?f i = []" if "i \<in> set ?is" and "\<not> compaction_keeps rep at_ms retention_ms rs i" for i
    using decision_kept [of rep rs i at_ms retention_ms] that assms(2) by (auto simp: list_all_length)
  from concat_map_filter [of ?is "compaction_keeps rep at_ms retention_ms rs" ?f, OF this]
  have "logged_events rep kept = concat (map ?f ?is)" by (simp add: logged_events_def kept comp_def)
  also have "\<dots> = logged_events rep rs"
    unfolding logged_events_def by (metis (no_types, lifting) map_nth map_map comp_def map_cong)
  finally show "logged_events rep kept = logged_events rep rs" .
qed

lemma compact_ok:
  assumes "ascii_hash sha" and "journal_inv sha rep j" and "compact sha rep False at_ms retention_ms j = (r, k)"
    and "0 \<le> retention_ms"
  shows "\<exists>l. refresh_records sha rep False j = (Inr (), l)
    \<and> (case compacted rep at_ms retention_ms (jn_records_cache l) of
         Inl e \<Rightarrow> r = Inl e \<and> k = l \<and> journal_inv sha rep k
       | Inr kept \<Rightarrow> r = Inr (int (length kept), int (length (jn_records_cache l)) - int (length kept))
           \<and> jn_records_cache k = kept \<and> (\<exists>rs. file_ok sha rep (jn_file k) rs \<and> synced sha rep k rs))"
proof -
  obtain l rs where l: "refresh_records sha rep False j = (Inr (), l)"
    "file_ok sha rep (jn_file l) rs" "synced sha rep l rs" using refresh_ok [OF assms(2)] by blast
  note cache = synced_facts [OF l(2,3)]
  show ?thesis
  proof (cases "compacted rep at_ms retention_ms (jn_records_cache l)")
    case (Inl e)
    with l assms(3,4) have "r = Inl e" "k = l" by (auto simp: compact_def with_lock_def Let_def)
    with l Inl show ?thesis by (auto intro: synced_inv)
  next
    case (Inr kept)
    note log = compacted_log [OF cache(1,2) Inr]
    show ?thesis
    proof (cases "length kept = length (jn_records_cache l)")
      case True
      have "filter (compaction_keeps rep at_ms retention_ms (jn_records_cache l)) [0..<length (jn_records_cache l)]
          = [0..<length (jn_records_cache l)]"
      proof -
        have "length (filter (compaction_keeps rep at_ms retention_ms (jn_records_cache l)) [0..<length (jn_records_cache l)])
            = length [0..<length (jn_records_cache l)]"
          using compacted_exact [OF cache(1) Inr] True by simp
        then show ?thesis by (metis filter_id_conv length_filter_less less_irrefl)
      qed
      then have "kept = jn_records_cache l" using compacted_exact [OF cache(1) Inr] by (simp add: map_nth)
      moreover from True Inr l(1) assms(3,4) have "r = Inr (int (length kept), 0)" "k = l"
        by (auto simp: compact_def with_lock_def Let_def)
      ultimately show ?thesis using l Inr by auto
    next
      case False
      have ok: "list_all (record_ok sha) kept" "list_all (decision_ok rep) kept"
        using cache(1,2) log(2) by (auto simp: list_all_iff)
      let ?k = "l\<lparr>jn_file := concat (map wire_line kept), jn_records_cache := kept,
        jn_journal_envelopes := envelope_index rep kept, jn_journal_size := byte_size (concat (map wire_line kept)),
        jn_usage_bytes := jn_usage_bytes l + (byte_size (concat (map wire_line kept)) - jn_journal_size l)\<rparr>"
      from False Inr l(1) assms(3,4) ok(1)
      have r: "r = Inr (int (length kept), int (length (jn_records_cache l)) - int (length kept))" and k: "k = ?k"
        by (auto simp: compact_def with_lock_def Let_def rebuild_ok)
      have "file_ok sha rep (jn_file k) kept"
        using file_holds_records [OF assms(1) ok(1)] ok log(1) cache(3) unfolding k by (simp add: file_ok_def)
      moreover have "synced sha rep k kept" using same_list_refl [OF ok(1)] unfolding k by (simp add: synced_def)
      ultimately show ?thesis using l(1) Inr r k by auto
    qed
  qed
qed

section \<open>Every operation keeps the state\<close>

lemma plain_entries:
  assumes "list_all (\<lambda>e. fst e \<noteq> lifecycle_kind) entries"
  shows "list_all (decision_ok rep) (make_envelopes sha clock entries)"
    and "logged_events rep (make_envelopes sha clock entries) = []"
proof -
  have kind: "dict_get r ''kind'' \<noteq> Some (JStr lifecycle_kind)" if r: "r \<in> set (make_envelopes sha clock entries)" for r
  proof -
    obtain i kind payload where "r = with_checksum sha (make_journal_record kind payload (clock i))"
      "(kind, payload) \<in> set entries"
      using r by (auto simp: make_envelopes_def in_set_enumerate_eq) (metis nth_mem)
    with assms show ?thesis
      by (auto simp: with_checksum_def make_journal_record_def AList.update_conv' list_all_iff)
  qed
  then show "list_all (decision_ok rep) (make_envelopes sha clock entries)"
    by (auto simp: list_all_iff decision_ok_def)
  show "logged_events rep (make_envelopes sha clock entries) = []"
    using kind by (auto simp: logged_events_def logged_event_def)
qed

lemma logged_append: "logged_events rep (rs @ ss) = logged_events rep rs @ logged_events rep ss"
  by (simp add: logged_events_def)

lemma append_many_inv:
  assumes "ascii_hash sha" and "journal_inv sha rep j" and "list_all entry_ok entries"
    and "list_all (\<lambda>e. fst e \<noteq> lifecycle_kind) entries" and "append_many sha rep busy clock entries j = (r, k)"
  shows "journal_inv sha rep k \<and> (\<forall>envelopes. r = Inr envelopes \<longrightarrow> envelopes = make_envelopes sha clock entries
    \<and> (entries \<noteq> [] \<longrightarrow> jn_file k = jn_file j @ wire_line (written_record sha clock entries)
        \<and> (\<exists>rs. file_ok sha rep (jn_file j) rs \<and> file_ok sha rep (jn_file k) (rs @ envelopes)
             \<and> synced sha rep k (rs @ envelopes))))"
proof (cases "entries = [] \<or> busy")
  case True
  with assms(2,5) show ?thesis
    by (cases "entries = []") (auto simp: append_many_def with_lock_def make_envelopes_def)
next
  case False
  obtain l rs where l: "refresh_records sha rep True j = (Inr (), l)" "jn_file l = jn_file j"
    "file_ok sha rep (jn_file l) rs" "synced sha rep l rs" using refresh_ok [OF assms(2)] by blast
  have run: "append_many_locked sha rep clock entries l = (r, k)"
    using assms(5) False l(1) by (simp add: append_many_def with_lock_def)
  have log: "lifecycle_ok (logged_events rep (rs @ make_envelopes sha clock entries))"
    using l(3) plain_entries(2) [OF assms(4)] by (simp add: logged_append file_ok_def)
  note post = append_locked_ok [OF assms(1) l(3,4) assms(3) _ plain_entries(1) [OF assms(4)] log run]
  have "file_ok sha rep (jn_file l @ wire_line (written_record sha clock entries)) (rs @ make_envelopes sha clock entries)"
    using False by (intro file_ok_append [OF assms(1) l(3) assms(3) _ plain_entries(1) [OF assms(4)] log]) auto
  with post False l(2,3) show ?thesis by auto
qed

lemma decision_distinct:
  assumes "lifecycle_event_ok rep e"
  shows "json_distinct (JObj (lifecycle_decision e code))"
proof -
  have atom: "json_distinct (option_json v)" for v by (cases v) (simp_all add: option_json_def)
  have "json_distinct (JObj (lifecycle_event_to_dict e))"
    using assms atom by (simp add: json_distinct_obj lifecycle_dict lifecycle_event_fields_def dict_ok_def lifecycle_event_ok_def)
  with atom show ?thesis by (simp add: json_distinct_obj lifecycle_decision_def dict_ok_def)
qed

lemma decision_envelope:
  assumes "lifecycle_event_ok rep e"
  shows "\<exists>r. make_envelopes sha clock [(lifecycle_kind, lifecycle_decision e code)] = [r] \<and> decision_ok rep r
    \<and> logged_event rep r = (if code = None then [lifecycle_core e] else [])"
proof -
  let ?r = "with_checksum sha (make_journal_record lifecycle_kind (lifecycle_decision e code) (clock 0))"
  have get: "dict_get ?r ''kind'' = Some (JStr lifecycle_kind)"
    "dict_get ?r ''payload'' = Some (JObj (lifecycle_decision e code))"
    by (simp_all add: with_checksum_def make_journal_record_def)
  have same: "same_record (lifecycle_decision e code) (lifecycle_decision e code)"
    using decision_distinct [OF assms] by (rule same_record_refl)
  have "decision_ok rep ?r" unfolding decision_ok_def using assms get(2) same by blast
  then show ?thesis
    using logged_decision [OF assms same get] by (simp add: make_envelopes_def)
qed

text \<open>What every step does to the file: it stays well formed, and accepted events are only added.\<close>

definition log_grows :: "hash \<Rightarrow> (json \<Rightarrow> string) \<Rightarrow> journal \<Rightarrow> journal \<Rightarrow> bool" where
  "log_grows sha rep j k \<longleftrightarrow> (\<exists>rs rs' es. file_ok sha rep (jn_file j) rs \<and> file_ok sha rep (jn_file k) rs'
     \<and> logged_events rep rs' = logged_events rep rs @ es)"

lemma log_grows_same:
  assumes "journal_inv sha rep j" and "jn_file k = jn_file j"
  shows "log_grows sha rep j k"
proof -
  obtain rs where "file_ok sha rep (jn_file j) rs" using assms(1) by (auto simp: journal_inv_def)
  with assms(2) show ?thesis unfolding log_grows_def by (intro exI [of _ rs] exI [of _ "[]"]) simp
qed

lemma lifecycle_inv:
  assumes "ascii_hash sha" and "journal_inv sha rep j" and "lifecycle_event_ok rep e"
    and "append_lifecycle_event sha rep busy clock e j = (r, k)"
  shows "journal_inv sha rep k \<and> log_grows sha rep j k"
proof (cases busy)
  case True
  with assms(2,4) show ?thesis by (simp add: append_lifecycle_event_def with_lock_def log_grows_same)
next
  case False
  obtain l rs where l: "refresh_records sha rep True j = (Inr (), l)" "jn_file l = jn_file j"
    "file_ok sha rep (jn_file l) rs" "synced sha rep l rs" using refresh_ok [OF assms(2)] by blast
  have same: "list_all2 same_record (jn_records_cache l) rs" using l(4) by (simp add: synced_def)
  note cache = synced_facts [OF l(3,4)]
  obtain ds es where ds: "lifecycle_decisions (jn_records_cache l) = Inr ds" "accepted_events rep ds = Inr (Some es)"
    "map lifecycle_core es = logged_events rep (jn_records_cache l)" using accepted_of_records [OF cache(2)] by blast
  define code where "code = lifecycle_verdict es e"
  let ?entries = "[(lifecycle_kind, lifecycle_decision e code)]"
  define a where "a = append_many_locked sha rep clock ?entries l"
  have k: "snd a = k"
    using assms(4) False l(1) ds(1,2) unfolding code_def a_def
    by (auto simp: append_lifecycle_event_def with_lock_def lifecycle_rejection_def and_then_def
        split: prod.splits sum.splits)
  obtain env where env: "make_envelopes sha clock ?entries = [env]" "decision_ok rep env"
    "logged_event rep env = (if code = None then [lifecycle_core e] else [])"
    using decision_envelope [OF assms(3)] by blast
  have logs: "logged_events rep rs = map lifecycle_core es"
    using ds(3) decisions_same [OF same, of rep] l(3) by (simp add: file_ok_def)
  have "lifecycle_ok (logged_events rep rs @ (if code = None then [lifecycle_core e] else []))"
    using l(3) lifecycle_ok_snoc [of "map lifecycle_core es" "lifecycle_core e"]
    by (simp add: logs file_ok_def code_def lifecycle_verdict_core)
  then have log: "lifecycle_ok (logged_events rep (rs @ make_envelopes sha clock ?entries))"
    using env by (simp add: logged_append) (simp add: logged_events_def)
  have ok: "list_all entry_ok ?entries" "list_all (decision_ok rep) (make_envelopes sha clock ?entries)"
    using decision_distinct [OF assms(3)] env by (simp_all add: entry_ok_def lifecycle_kind_def transaction_kind_def)
  have "a = (fst a, k)" using k by auto
  from append_locked_ok [OF assms(1) l(3,4) ok(1) _ ok(2) log this [unfolded a_def]]
  have post: "journal_inv sha rep k" "fst a = Inl err \<Longrightarrow> k = l"
    "fst a = Inr envs \<Longrightarrow> file_ok sha rep (jn_file k) (rs @ envs)" for err envs by (auto simp: a_def)
  have "log_grows sha rep j k"
  proof (cases "fst a")
    case (Inl err)
    with post(2) l(2) log_grows_same [OF assms(2)] show ?thesis by simp
  next
    case (Inr envs)
    with post(3) l(2,3) show ?thesis unfolding log_grows_def by (metis logged_append)
  qed
  with post(1) show ?thesis ..
qed

lemma append_many_grows:
  assumes "ascii_hash sha" and "journal_inv sha rep j" and "list_all entry_ok entries"
    and "list_all (\<lambda>e. fst e \<noteq> lifecycle_kind) entries"
  shows "log_grows sha rep j (snd (append_many sha rep busy clock entries j))"
proof -
  obtain r k where run: "append_many sha rep busy clock entries j = (r, k)" by fastforce
  note post = append_many_inv [OF assms run]
  show ?thesis
  proof (cases "entries = [] \<or> (\<exists>e. r = Inl e)")
    case True
    then have "jn_file k = jn_file j"
    proof
      assume "\<exists>e. r = Inl e"
      obtain l where "refresh_records sha rep True j = (Inr (), l)" "jn_file l = jn_file j"
        using refresh_ok [OF assms(2)] by blast
      with run \<open>\<exists>e. r = Inl e\<close> show ?thesis
        by (auto simp: append_many_def append_many_locked_def with_lock_def Let_def
            index_records_ok [OF make_envelopes_ok [OF assms(3), of sha clock]] split: if_splits)
    qed (use run in \<open>simp add: append_many_def\<close>)
    with log_grows_same [OF assms(2)] run show ?thesis by simp
  next
    case False
    then obtain envs where "r = Inr envs" by (cases r) auto
    with post False run show ?thesis unfolding log_grows_def by simp (metis logged_append)
  qed
qed

lemma compact_grows:
  assumes "ascii_hash sha" and "journal_inv sha rep j"
  shows "journal_inv sha rep (snd (compact sha rep busy at_ms retention_ms j))
    \<and> log_grows sha rep j (snd (compact sha rep busy at_ms retention_ms j))"
proof (cases "busy \<or> retention_ms < 0")
  case True
  with assms(2) log_grows_same [OF assms(2), of j] show ?thesis by (auto simp: compact_def with_lock_def)
next
  case False
  obtain r k where run: "compact sha rep False at_ms retention_ms j = (r, k)" by fastforce
  have "0 \<le> retention_ms" using False by simp
  from compact_ok [OF assms run this] obtain l where l: "refresh_records sha rep False j = (Inr (), l)"
    "case compacted rep at_ms retention_ms (jn_records_cache l) of
         Inl e \<Rightarrow> r = Inl e \<and> k = l \<and> journal_inv sha rep k
       | Inr kept \<Rightarrow> r = Inr (int (length kept), int (length (jn_records_cache l)) - int (length kept))
           \<and> jn_records_cache k = kept \<and> (\<exists>rs. file_ok sha rep (jn_file k) rs \<and> synced sha rep k rs)" by blast
  obtain rs where rs: "jn_file l = jn_file j" "file_ok sha rep (jn_file l) rs" "synced sha rep l rs"
    using refresh_ok [OF assms(2), of False] l(1) by auto
  have "journal_inv sha rep k \<and> log_grows sha rep j k"
  proof (cases "compacted rep at_ms retention_ms (jn_records_cache l)")
    case (Inl e)
    with l(2) rs(1) log_grows_same [OF assms(2)] show ?thesis by auto
  next
    case (Inr kept)
    with l(2) obtain ks where ks: "jn_records_cache k = kept" "file_ok sha rep (jn_file k) ks" "synced sha rep k ks"
      by auto
    have "list_all2 same_record kept ks" "list_all2 same_record (jn_records_cache l) rs"
      using ks rs(3) by (simp_all add: synced_def)
    then have "logged_events rep ks = logged_events rep kept" "logged_events rep (jn_records_cache l) = logged_events rep rs"
      using decisions_same [of kept ks rep] decisions_same [of "jn_records_cache l" rs rep] ks(2) rs(2)
      by (simp_all add: file_ok_def)
    with compacted_log(1) [OF synced_facts(1,2) [OF rs(2,3)] Inr]
    have "logged_events rep ks = logged_events rep rs @ []" by simp
    with ks rs show ?thesis unfolding log_grows_def by (metis synced_inv)
  qed
  with False run show ?thesis by simp
qed

lemma journal_step_inv:
  assumes "ascii_hash sha" and "journal_inv sha rep j" and "journal_step sha rep j k"
  shows "journal_inv sha rep k \<and> log_grows sha rep j k"
  using assms(3)
proof cases
  case (append entries busy clock)
  then show ?thesis
    using append_many_inv [OF assms(1,2) append(2,3), of busy clock] append_many_grows [OF assms(1,2) append(2,3)]
    by (metis surjective_pairing)
next
  case (lifecycle event busy clock)
  then show ?thesis using lifecycle_inv [OF assms(1,2)] by (metis surjective_pairing)
next
  case (read tolerate)
  obtain l rs where "refresh_records sha rep tolerate j = (Inr (), l)" "jn_file l = jn_file j"
    "file_ok sha rep (jn_file l) rs" "synced sha rep l rs" using refresh_ok [OF assms(2)] by blast
  with read log_grows_same [OF assms(2)] show ?thesis by (auto simp: journal_records_def intro: synced_inv)
next
  case (compaction busy at_ms retention_ms)
  then show ?thesis using compact_grows [OF assms(1,2)] by simp
next
  case (spool files usage)
  with assms(2) log_grows_same [OF assms(2), of k] show ?thesis by (simp add: journal_inv_def synced_def)
next
  case (other_writer entries clock)
  obtain rs where rs: "file_ok sha rep (jn_file j) rs" "jn_journal_size j \<le> byte_size (jn_file j)"
    using assms(2) by (auto simp: journal_inv_def)
  note plain = plain_entries [OF other_writer(3), of rep]
  have "file_ok sha rep (jn_file k) (rs @ make_envelopes sha clock entries)"
    using rs(1) plain unfolding other_writer(1)
    by (simp, intro file_ok_append [OF assms(1) _ other_writer(2,4)]) (simp_all add: logged_append file_ok_def)
  moreover have "jn_journal_size k < byte_size (jn_file k)"
    using rs(2) by (simp add: other_writer(1) wire_line_def)
  ultimately show ?thesis using rs(1) unfolding journal_inv_def log_grows_def by (metis less_imp_le less_irrefl logged_append)
next
  case (reopen files other_bytes quota_bytes ring)
  obtain rs where rs: "file_ok sha rep (jn_file j) rs" using assms(2) by (auto simp: journal_inv_def)
  from open_file [OF rs] reopen have "jn_file k = jn_file j" "synced sha rep k rs" by (metis Inr_inject)+
  with rs log_grows_same [OF assms(2)] show ?thesis by (metis synced_inv)
qed

lemma journal_start_inv:
  assumes "journal_start sha rep j"
  shows "journal_inv sha rep j"
proof -
  have "file_ok sha rep [] []" by (simp add: file_ok_def logged_events_def lifecycle_ok_def)
  with assms open_file [of sha rep "[]" "[]"] show ?thesis
    unfolding journal_start_def by (metis Inr_inject synced_inv)
qed

interpretation journal: invariant_system "journal_start sha rep" "journal_step sha rep"
  "\<lambda>j. ascii_hash sha \<and> journal_inv sha rep j"
  by unfold_locales (auto simp: journal_start_inv journal_step_inv journal_start_def)

text \<open>The accepted events, read from the file, only grow.\<close>

definition accepted_log :: "hash \<Rightarrow> (json \<Rightarrow> string) \<Rightarrow> journal \<Rightarrow> lifecycle_event list" where
  "accepted_log sha rep j = (case load_records sha True (jn_file j) of
       Inl _ \<Rightarrow> [] | Inr rs \<Rightarrow> logged_events rep rs)"

lemma accepted_log_ok: "file_ok sha rep (jn_file j) rs \<Longrightarrow> accepted_log sha rep j = logged_events rep rs"
proof -
  assume ok: "file_ok sha rep (jn_file j) rs"
  then obtain qs where "load_records sha True (jn_file j) = Inr qs" "list_all2 same_record qs rs"
    using load_file [of sha "jn_file j" rs] unfolding file_ok_def by blast
  with decisions_same [of qs rs rep] ok show ?thesis by (simp add: accepted_log_def file_ok_def)
qed

interpretation log: append_log "\<lambda>j k. (ascii_hash sha \<and> journal_inv sha rep j) \<and> journal_step sha rep j k"
  "accepted_log sha rep"
proof
  fix j k
  assume "(ascii_hash sha \<and> journal_inv sha rep j) \<and> journal_step sha rep j k"
  then have "log_grows sha rep j k" using journal_step_inv by blast
  then show "\<exists>es. accepted_log sha rep k = accepted_log sha rep j @ es"
    unfolding log_grows_def by (metis accepted_log_ok)
qed

lemma journal_steps_log:
  "(journal_step sha rep)\<^sup>*\<^sup>* j k \<Longrightarrow> ascii_hash sha \<and> journal_inv sha rep j
    \<Longrightarrow> (\<lambda>j k. (ascii_hash sha \<and> journal_inv sha rep j) \<and> journal_step sha rep j k)\<^sup>*\<^sup>* j k"
proof (induction rule: rtranclp_induct)
  case (step k l)
  then have "ascii_hash sha \<and> journal_inv sha rep k" using journal.steps_inv by blast
  with step show ?case by (auto intro: rtranclp.rtrancl_into_rtrancl)
qed simp

lemma accepted_log_consistent:
  assumes "journal_inv sha rep j"
  shows "lifecycle_ok (accepted_log sha rep j)"
proof -
  obtain rs where "file_ok sha rep (jn_file j) rs" using assms by (auto simp: journal_inv_def)
  with accepted_log_ok show ?thesis by (simp add: file_ok_def)
qed

lemma same_list_via:
  assumes "list_all2 same_record qs rs" and "list_all2 same_record ps rs"
  shows "list_all2 same_record qs ps"
proof -
  have "list_all2 same_record rs ps"
    using assms(2) by (auto simp: list_all2_conv_all_nth intro: same_record_sym)
  with assms(1) show ?thesis by (rule list_all2_trans [rotated 1]) (rule same_record_trans)
qed

text \<open>A brace that is left over makes the following line unreadable.\<close>

lemma wire_loads_brace: "wire_loads (CHR 0x7B # json_dumps (JObj d)) = None"
proof -
  let ?s = "CHR 0x7B # json_dumps (JObj d)"
  have "list_all (\<lambda>c. (of_char c :: nat) < 128) ?s" using ascii_dumps by simp
  then have "wire_loads ?s = json_loads ?s" by (simp add: wire_loads_def utf8_ascii)
  moreover obtain t where t: "json_dumps (JObj d) = CHR 0x7B # t" unfolding json_dumps_obj by simp
  ultimately show ?thesis by (simp add: json_loads_def skip_ws_def is_ws_def)
qed

lemma index_records_keep:
  "jn_file (snd (index_records rep rs j)) = jn_file j
    \<and> jn_journal_size (snd (index_records rep rs j)) = jn_journal_size j"
proof (induction rs arbitrary: j)
  case (Cons r rs)
  show ?case
  proof (cases "\<exists>p. field_or r ''payload'' (JObj []) = JObj p")
    case True
    with Cons show ?thesis by (auto simp: index_envelope_record_def)
  next
    case False
    then show ?thesis by (cases "field_or r ''payload'' (JObj [])") (simp_all add: index_envelope_record_def)
  qed
qed simp

lemma open_journal_file:
  assumes "open_journal sha rep file files other_bytes quota_bytes ring = Inr k"
  shows "jn_file k = file \<and> jn_journal_size k = byte_size file"
proof -
  obtain rs j where "k = snd (index_records rep rs j)" "jn_file j = file" "jn_journal_size j = byte_size file"
  proof -
    obtain rs where load: "load_records sha True file = Inr rs"
      using assms by (auto simp: open_journal_def sum_then_Inr)
    let ?j = "\<lparr>jn_file = file, jn_spool = files, jn_quota_bytes = quota_bytes, jn_key_ring = ring,
      jn_usage_bytes = scan_usage_bytes file files other_bytes, jn_journal_size = byte_size file,
      jn_records_cache = rs, jn_journal_envelopes = []\<rparr>"
    have "k = snd (index_records rep rs ?j)"
      using assms load by (auto simp: open_journal_def rebuild_envelope_index_def split: prod.splits sum.splits)
    then show ?thesis by (rule that) simp_all
  qed
  with index_records_keep show ?thesis by simp
qed

lemma append_synced:
  assumes "jn_journal_size j = byte_size (jn_file j)" and "append_many sha rep busy clock entries j = (Inr envelopes, k)"
    and "list_all entry_ok entries" and "entries \<noteq> []"
  shows "jn_file k = jn_file j @ wire_line (written_record sha clock entries) \<and> jn_journal_size k = byte_size (jn_file k)"
proof -
  have "append_many_locked sha rep clock entries j = (Inr envelopes, k)"
    using assms by (auto simp: append_many_def with_lock_def refresh_records_def split: if_splits)
  moreover have "make_envelopes sha clock entries \<noteq> []" using assms(4) by (auto simp: make_envelopes_def enumerate_eq_zip)
  ultimately show ?thesis using assms(1)
    by (auto simp: append_many_locked_def Let_def index_records_ok [OF make_envelopes_ok [OF assms(3), of sha clock]]
        split: if_splits)
qed

section \<open>Properties\<close>

text \<open>
  C8: Appending is atomic under a crash. Wherever a crash cuts the bytes that a call is writing,
  opening the journal again reads the records from before the call, or these and all records of the
  call, the latter exactly when at most the final line end is missing; a batch is never read in part.
\<close>

theorem append_crash_atomic:
  assumes "reachable (journal_start sha rep) (journal_step sha rep) j"
    and "list_all entry_ok entries" and "list_all (\<lambda>e. fst e \<noteq> lifecycle_kind) entries"
    and "append_many sha rep busy clock entries j = (Inr envelopes, k)"
    and "prefix (jn_file j) torn" and "prefix torn (jn_file k)"
  shows "\<exists>before rs. load_records sha True (jn_file j) = Inr before \<and> load_records sha True torn = Inr rs
    \<and> list_all2 same_record rs (if length torn + 1 < length (jn_file k) then before else before @ envelopes)"
proof -
  have inv: "ascii_hash sha" "journal_inv sha rep j" using journal.reachable_inv [OF assms(1)] by simp_all
  then obtain rs where rs: "file_ok sha rep (jn_file j) rs" by (auto simp: journal_inv_def)
  then have holds: "file_holds sha (jn_file j) rs" by (simp add: file_ok_def)
  obtain before where before: "load_records sha True (jn_file j) = Inr before" "list_all2 same_record before rs"
    using load_file [OF holds] by blast
  show ?thesis
  proof (cases "entries = []")
    case True
    with assms(4) have "envelopes = []" "k = j" by (simp_all add: append_many_def)
    moreover from this assms(5,6) have "torn = jn_file j" by (auto intro: prefix_order.antisym)
    ultimately show ?thesis using before(1) same_list_via [OF before(2,2)] by simp
  next
    case False
    let ?r = "written_record sha clock entries"
    from append_many_inv [OF inv assms(2,3,4)] False have env: "envelopes = make_envelopes sha clock entries"
      and k: "jn_file k = jn_file j @ wire_line ?r" by auto
    obtain p q where torn: "torn = jn_file j @ p" and q: "wire_line ?r = p @ q"
      using assms(5,6) k by (auto simp: prefix_def)
    have line: "line_holds sha ?r envelopes" unfolding env by (rule written_line_holds) fact+
    have new: "list_all2 same_record (before @ envelopes) (rs @ envelopes)"
      using before(2) same_list_refl [OF make_envelopes_ok [OF assms(2)]] by (simp add: env list_all2_appendI)
    show ?thesis
    proof (cases "length torn + 1 < length (jn_file k)")
      case True
      with k torn have short: "length p < length (json_dumps (JObj ?r))" by (simp add: wire_line_def)
      define q' where "q' = drop (length p) (json_dumps (JObj ?r))"
      have "p = take (length p) (json_dumps (JObj ?r))"
        using q short by (metis append_eq_conv_conj take_append wire_line_def diff_is_0_eq less_imp_le take0 append_Nil2)
      then have split: "json_dumps (JObj ?r) = p @ q'" "q' \<noteq> []"
        using short by (auto simp: q'_def) (metis append_take_drop_id)
      have "\<exists>qs. load_records sha True torn = Inr qs \<and> list_all2 same_record qs rs"
      proof (cases "p = []")
        case False
        from load_torn_file(1) [OF holds _ split(1) False split(2)] line torn show ?thesis
          by (simp add: line_holds_def)
      qed (use before torn in simp)
      with True before same_list_via show ?thesis by auto
    next
      case long: False
      then have "p = json_dumps (JObj ?r) \<or> p = wire_line ?r"
        using k torn q by (cases q rule: rev_cases) (auto simp: wire_line_def)
      then have "\<exists>qs. load_records sha True torn = Inr qs \<and> list_all2 same_record qs (rs @ envelopes)"
        using load_unterminated_file [OF holds line] load_file [OF file_holds_append [OF holds line]] torn by auto
      with long before(1) same_list_via [OF _ new] show ?thesis by auto
    qed
  qed
qed


text \<open>
  C25: Compaction keeps exactly what it should. When compaction succeeds, the records it keeps, in
  their order, are those that belong to no expired request, are the last state of their deployment
  or operation, and are no expired envelope; the new file reads back as exactly these records, also
  without tolerance for a torn tail, and the accepted lifecycle events stay.
\<close>

theorem compaction_exact:
  assumes "reachable (journal_start sha rep) (journal_step sha rep) j"
    and "compact sha rep busy at_ms retention_ms j = (Inr (kept, removed), k)"
  shows "\<exists>l rs. refresh_records sha rep False j = (Inr (), l)
    \<and> jn_records_cache k = map ((!) (jn_records_cache l))
        (filter (compaction_keeps rep at_ms retention_ms (jn_records_cache l)) [0..<length (jn_records_cache l)])
    \<and> kept = int (length (jn_records_cache k)) \<and> kept + removed = int (length (jn_records_cache l))
    \<and> load_records sha False (jn_file k) = Inr rs \<and> list_all2 same_record rs (jn_records_cache k)
    \<and> accepted_log sha rep k = accepted_log sha rep j"
proof -
  have inv: "ascii_hash sha" "journal_inv sha rep j" using journal.reachable_inv [OF assms(1)] by simp_all
  have free: "\<not> busy" "0 \<le> retention_ms" using assms(2) by (auto simp: compact_def with_lock_def split: if_splits)
  from compact_ok [OF inv _ free(2)] assms(2) free(1) obtain l where l: "refresh_records sha rep False j = (Inr (), l)"
    "case compacted rep at_ms retention_ms (jn_records_cache l) of
         Inl e \<Rightarrow> (Inr (kept, removed) :: py_error + int \<times> int) = Inl e \<and> k = l \<and> journal_inv sha rep k
       | Inr ks \<Rightarrow> (Inr (kept, removed) :: py_error + int \<times> int)
           = Inr (int (length ks), int (length (jn_records_cache l)) - int (length ks))
           \<and> jn_records_cache k = ks \<and> (\<exists>rs. file_ok sha rep (jn_file k) rs \<and> synced sha rep k rs)" by fastforce
  then obtain ks rs where ks: "compacted rep at_ms retention_ms (jn_records_cache l) = Inr ks" "jn_records_cache k = ks"
    "kept = int (length ks)" "removed = int (length (jn_records_cache l)) - int (length ks)"
    "file_ok sha rep (jn_file k) rs" "synced sha rep k rs" by (auto split: sum.splits)
  obtain before where before: "jn_file l = jn_file j" "file_ok sha rep (jn_file l) before" "synced sha rep l before"
    using refresh_ok [OF inv(2), of False] l(1) by auto
  obtain qs where qs: "load_records sha False (jn_file k) = Inr qs" "list_all2 same_record qs rs"
    using load_file [of sha "jn_file k" rs False] ks(5) unfolding file_ok_def by blast
  have same: "list_all2 same_record (jn_records_cache k) rs" "list_all2 same_record (jn_records_cache l) before"
    using ks(6) before(3) by (simp_all add: synced_def)
  note cache = synced_facts [OF before(2,3)]
  have "logged_events rep rs = logged_events rep before"
    using decisions_same [OF same(1), of rep] decisions_same [OF same(2), of rep] ks(2,5) before(2)
      compacted_log(1) [OF cache(1,2) ks(1)] by (simp add: file_ok_def)
  then have "accepted_log sha rep k = accepted_log sha rep j"
    using accepted_log_ok [OF ks(5)] accepted_log_ok [of sha rep j before] before(1,2) by simp
  with l(1) ks(2,3,4) qs(1) same_list_via [OF qs(2) same(1)] compacted_exact [OF cache(1) ks(1)]
  show ?thesis by auto
qed

text \<open>
  C40: A torn tail poisons the journal. The journal that is opened after a crash tolerates a torn
  line but leaves it in the file. When the crash left the first byte of a line, the next call of
  \<open>append\<close> succeeds, but its records cannot be read when the journal is opened again, and after one
  more call the file cannot be opened at all.
\<close>

theorem torn_tail_poisons:
  assumes "reachable (journal_start sha rep) (journal_step sha rep) j"
    and "open_journal sha rep (jn_file j @ [CHR 0x7B]) files other_bytes quota_bytes ring = Inr k"
    and "append_many sha rep busy clock entries k = (Inr envelopes, l)" and "list_all entry_ok entries" and "entries \<noteq> []"
    and "append_many sha rep busy' clock' extra l = (Inr envelopes', m)" and "list_all entry_ok extra" and "extra \<noteq> []"
  shows "(\<exists>before rs. load_records sha True (jn_file j) = Inr before \<and> load_records sha True (jn_file l) = Inr rs
      \<and> list_all2 same_record rs before)
    \<and> load_records sha True (jn_file m) = Inl (ValueError ''corrupt runtime journal'')"
proof -
  let ?r = "written_record sha clock entries" and ?s = "written_record sha clock' extra"
  have "journal_inv sha rep j" using journal.reachable_inv [OF assms(1)] by simp
  then obtain rs where "file_ok sha rep (jn_file j) rs" by (auto simp: journal_inv_def)
  then have holds: "file_holds sha (jn_file j) rs" by (simp add: file_ok_def)
  obtain before where before: "load_records sha True (jn_file j) = Inr before" "list_all2 same_record before rs"
    using load_file [OF holds] by blast
  from holds obtain lines rss where parts: "jn_file j = concat (map wire_line lines)"
    "list_all2 (line_holds sha) lines rss" "rs = concat rss" by (auto simp: file_holds_def)
  have k: "jn_file k = jn_file j @ [CHR 0x7B]" "jn_journal_size k = byte_size (jn_file k)"
    using open_journal_file [OF assms(2)] by simp_all
  have l: "jn_file l = jn_file k @ wire_line ?r" "jn_journal_size l = byte_size (jn_file l)"
    using append_synced [OF k(2) assms(3,4,5)] by simp_all
  have m: "jn_file m = jn_file l @ wire_line ?s" using append_synced [OF l(2) assms(6,7,8)] by simp
  let ?torn = "CHR 0x7B # json_dumps (JObj ?r)"
  have printable: "list_all (\<lambda>c. (32 :: nat) \<le> of_char c) ?torn" using printable_dumps by simp
  have split: "splitlines (jn_file j @ CHR 0x7B # wire_line ?r @ t) = map (\<lambda>r. json_dumps (JObj r)) lines @ ?torn # splitlines t" for t
    using split_lines_line [OF printable, of "[]" t] splitlines_file [of lines "CHR 0x7B # wire_line ?r @ t"]
    by (simp add: parts(1) wire_line_def)
  have "splitlines (wire_line ?s) = [json_dumps (JObj ?s)]" using splitlines_wire [of ?s "[]"] by simp
  then have lines_l: "splitlines (jn_file l) = map (\<lambda>r. json_dumps (JObj r)) lines @ [?torn]"
    and lines_m: "splitlines (jn_file m) = map (\<lambda>r. json_dumps (JObj r)) lines @ [?torn, json_dumps (JObj ?s)]"
    using split [of "[]"] split [of "wire_line ?s"] by (simp_all add: m l(1) k(1))
  obtain qs where "load_records sha True (jn_file l) = Inr qs" "list_all2 same_record qs rs"
    using load_lines_file [OF parts(2), of True "[?torn]"] wire_loads_brace by (auto simp: load_records_def lines_l parts(3))
  moreover have "load_records sha True (jn_file m) = Inl (ValueError ''corrupt runtime journal'')"
    using load_lines_file [OF parts(2), of True "[?torn, json_dumps (JObj ?s)]"] wire_loads_brace
    by (auto simp: load_records_def lines_m)
  ultimately show ?thesis using before same_list_via by blast
qed

section \<open>Witnesses\<close>

definition demo_digest :: hash where
  "demo_digest s = ''0a''"

definition demo_repr :: "json \<Rightarrow> string" where
  "demo_repr v = []"

definition demo_clock :: "nat \<Rightarrow> int" where
  "demo_clock i = 7"

definition demo_entries :: "entry list" where
  "demo_entries = [(''request-handle'', [(''request_id'', JStr ''r''), (''expires_at_ms'', JInt 5)])]"

definition demo_journal :: journal where
  "demo_journal = \<lparr>jn_file = [], jn_spool = [], jn_quota_bytes = 1000, jn_key_ring = None, jn_usage_bytes = 0,
     jn_journal_size = 0, jn_records_cache = [], jn_journal_envelopes = []\<rparr>"

definition demo_written :: journal where
  "demo_written = snd (append_many demo_digest demo_repr False demo_clock demo_entries demo_journal)"

definition demo_torn :: journal where
  "demo_torn = demo_journal\<lparr>jn_file := [CHR 0x7B], jn_usage_bytes := 1, jn_journal_size := 1\<rparr>"

definition demo_torn_written :: journal where
  "demo_torn_written = snd (append_many demo_digest demo_repr False demo_clock demo_entries demo_torn)"

definition demo_event :: lifecycle_event where
  "demo_event = \<lparr>le_experiment_id = ''x'', le_request_id = ''r'', le_attempt_epoch = 1, le_event_id = ''e'',
     le_event_type = ''REQUEST_CREATED'', le_component = ''client'', le_provider = None, le_provider_boot_epoch = None,
     le_role = None, le_plan_digest = None, le_operation_id = None, le_epoch = 0, le_sequence = 1,
     le_monotonic_ns = 0, le_wall_time_utc = ''t'', le_authenticated = True, le_details_schema = ''d'', le_details = []\<rparr>"

lemma demo_ascii: "ascii_hash demo_digest"
  by (simp add: ascii_hash_def demo_digest_def)

lemma demo_start: "journal_start demo_digest demo_repr demo_journal"
  unfolding journal_start_def
  by (intro conjI demo_ascii exI [of _ "[]"] exI [of _ 0] exI [of _ 1000] exI [of _ None])
    (simp add: open_journal_def load_records_def rebuild_envelope_index_def demo_journal_def scan_usage_bytes_def)

lemma demo_journal_reachable: "reachable (journal_start demo_digest demo_repr) (journal_step demo_digest demo_repr) demo_journal"
  by (rule reachable.start) (rule demo_start)

lemma demo_entries_ok: "list_all entry_ok demo_entries" "list_all (\<lambda>e. fst e \<noteq> lifecycle_kind) demo_entries"
    "demo_entries \<noteq> []"
  by (simp_all add: demo_entries_def entry_ok_def json_distinct_obj dict_ok_def transaction_kind_def lifecycle_kind_def)

lemma demo_journal_append:
  "append_many demo_digest demo_repr False demo_clock demo_entries demo_journal
    = (Inr (make_envelopes demo_digest demo_clock demo_entries), demo_written)"
proof -
  have "fst (append_many demo_digest demo_repr False demo_clock demo_entries demo_journal)
      = Inr (make_envelopes demo_digest demo_clock demo_entries)" by code_simp
  then show ?thesis by (simp add: demo_written_def prod_eq_iff)
qed

lemma demo_written_reachable:
  "reachable (journal_start demo_digest demo_repr) (journal_step demo_digest demo_repr) demo_written"
  using reachable.next_state [OF demo_journal_reachable journal_step.append [OF demo_entries_ok(1,2)]]
  by (simp add: demo_written_def)

theorem append_crash_atomic_witness:
  "load_records demo_digest True (jn_file demo_journal) = Inr [] \<and> load_records demo_digest True [CHR 0x7B] = Inr []"
proof -
  have torn: "prefix (jn_file demo_journal) [CHR 0x7B]" "prefix [CHR 0x7B] (jn_file demo_written)"
    "length [CHR 0x7B] + 1 < length (jn_file demo_written)" by code_simp+
  have "load_records demo_digest True (jn_file demo_journal) = Inr []" by (simp add: demo_journal_def load_records_def)
  with append_crash_atomic [OF demo_journal_reachable demo_entries_ok(1,2) demo_journal_append torn(1,2)] torn(3) show ?thesis by auto
qed


theorem compaction_exact_witness:
  "accepted_log demo_digest demo_repr (snd (compact demo_digest demo_repr False 100 0 demo_written))
    = accepted_log demo_digest demo_repr demo_written
   \<and> jn_records_cache (snd (compact demo_digest demo_repr False 100 0 demo_written)) = []"
proof -
  have "fst (compact demo_digest demo_repr False 100 0 demo_written) = Inr (0, 1)" by code_simp
  then have "compact demo_digest demo_repr False 100 0 demo_written
      = (Inr (0, 1), snd (compact demo_digest demo_repr False 100 0 demo_written))" by (simp add: prod_eq_iff)
  from compaction_exact [OF demo_written_reachable this] show ?thesis by auto
qed

theorem torn_tail_poisons_witness:
  "\<exists>envelopes m. append_many demo_digest demo_repr False demo_clock demo_entries demo_torn_written = (Inr envelopes, m)
    \<and> load_records demo_digest True (jn_file m) = Inl (ValueError ''corrupt runtime journal'')"
proof -
  have opened: "open_journal demo_digest demo_repr (jn_file demo_journal @ [CHR 0x7B]) [] 0 1000 None = Inr demo_torn"
    by code_simp
  have "fst (append_many demo_digest demo_repr False demo_clock demo_entries demo_torn)
      = Inr (make_envelopes demo_digest demo_clock demo_entries)" by code_simp
  then have once: "append_many demo_digest demo_repr False demo_clock demo_entries demo_torn
      = (Inr (make_envelopes demo_digest demo_clock demo_entries), demo_torn_written)"
    by (simp add: demo_torn_written_def prod_eq_iff)
  have "fst (append_many demo_digest demo_repr False demo_clock demo_entries demo_torn_written)
      = Inr (make_envelopes demo_digest demo_clock demo_entries)" by code_simp
  then obtain m where twice: "append_many demo_digest demo_repr False demo_clock demo_entries demo_torn_written
      = (Inr (make_envelopes demo_digest demo_clock demo_entries), m)" by (metis prod.collapse)
  from torn_tail_poisons [OF demo_journal_reachable opened once demo_entries_ok(1,3) twice demo_entries_ok(1,3)] twice
  show ?thesis by blast
qed

end
