(* ===== verification/Request_Spool.thy ===== *)
theory Request_Spool
  imports Journal_Log
begin

text \<open>
  \<open>app_sdk/runtime_journal.py\<close>, continued: protected request envelopes. A request is encrypted under
  the active key of a key ring, committed to the journal together with the records that refer to it
  or written to the spool, and read back under the key that its envelope names, also after the key
  was rotated. \<open>enc\<close> and \<open>dec\<close> stand for the authenticated encryption, \<open>mac\<close> for the keyed hash
  of the oldest format, \<open>nonce\<close> for the random nonce.
\<close>

section \<open>Keys\<close>

definition ascii_text :: "string \<Rightarrow> bool" where
  "ascii_text s \<longleftrightarrow> list_all (\<lambda>c. (of_char c :: nat) < 128) s"

definition make_envelope_key :: "envelope_key \<Rightarrow> py_error + envelope_key" where
  "make_envelope_key k =
     (if ek_key_id k = [] \<or> CHR ''/'' \<in> set (ek_key_id k) \<or> CHR 0x5C \<in> set (ek_key_id k)
      then Inl (JournalKeyError ''invalid request-envelope key identity'')
      else if length (ek_key_bytes k) \<noteq> 32
      then Inl (JournalKeyError ''request-envelope key must contain exactly 32 bytes'') else Inr k)"

definition ring_keys :: "key_ring \<Rightarrow> envelope_key list" where
  "ring_keys ring = kr_active ring # kr_previous ring"

definition make_key_ring :: "key_ring \<Rightarrow> py_error + key_ring" where
  "make_key_ring ring =
     (if \<not> distinct (map ek_key_id (ring_keys ring))
      then Inl (JournalKeyError ''request-envelope key identities must be unique'') else Inr ring)"

fun find_key :: "string \<Rightarrow> envelope_key list \<Rightarrow> py_error + envelope_key" where
  "find_key key_id [] = Inl (JournalKeyError (''request-envelope key is unavailable: '' @ key_id))"
| "find_key key_id (k # ks) =
     (if \<not> ascii_text (ek_key_id k) \<or> \<not> ascii_text key_id
      then Inl (TypeError ''comparing strings with non-ASCII characters is not supported'')
      else if ek_key_id k = key_id then Inr k else find_key key_id ks)"

definition required_key_ring :: "journal \<Rightarrow> py_error + key_ring" where
  "required_key_ring j = (case jn_key_ring j of
       None \<Rightarrow> Inl (JournalKeyError ''request-envelope key provider is required'') | Some ring \<Rightarrow> Inr ring)"

section \<open>Text of an envelope\<close>

text \<open>\<open>json.dumps\<close> with its default separators, for an object of strings and numbers.\<close>

definition spaced_member :: "string \<times> json \<Rightarrow> string" where
  "spaced_member kv = json_string (fst kv) @ '': '' @ json_dumps (snd kv)"

definition json_dumps_spaced :: "(string, json) dict \<Rightarrow> string" where
  "json_dumps_spaced d = [CHR 0x7B] @ py_join '', '' (map spaced_member (sort_key fst d)) @ [CHR 0x7D]"

text \<open>
  \<open>base64.b64decode\<close> without validation: characters outside the alphabet are skipped, and the text
  ends where the padding completes a group.
\<close>

fun a2b_base64 :: "nat \<Rightarrow> nat \<Rightarrow> nat \<Rightarrow> string \<Rightarrow> string option" where
  "a2b_base64 quad_pos leftchar pads [] = (if quad_pos = 0 then Some [] else None)"
| "a2b_base64 quad_pos leftchar pads (c # s) =
     (if c = b64_pad then
        (if 2 \<le> quad_pos \<and> 4 \<le> quad_pos + Suc pads then Some []
         else a2b_base64 quad_pos leftchar (if 2 \<le> quad_pos then Suc pads else pads) s)
      else case b64_value c of
        None \<Rightarrow> a2b_base64 quad_pos leftchar pads s
      | Some v \<Rightarrow>
          if quad_pos = 0 then a2b_base64 1 v 0 s
          else if quad_pos = 1
          then map_option (Cons (char_of (leftchar * 4 + v div 16))) (a2b_base64 2 (v mod 16) 0 s)
          else if quad_pos = 2
          then map_option (Cons (char_of (leftchar * 16 + v div 4))) (a2b_base64 3 (v mod 4) 0 s)
          else map_option (Cons (char_of (leftchar * 64 + v))) (a2b_base64 0 0 0 s))"

definition b64_text :: "json \<Rightarrow> py_error + string" where
  "b64_text v = (case v of
       JStr s \<Rightarrow>
         (if \<not> ascii_text s then Inl (ValueError ''string argument should contain only ASCII characters'')
          else case a2b_base64 0 0 0 s of None \<Rightarrow> Inl (ValueError ''Incorrect padding'') | Some b \<Rightarrow> Inr b)
     | _ \<Rightarrow> Inl (TypeError ''argument should be a bytes-like object or ASCII string''))"

section \<open>Preparing and committing\<close>

record prepared_envelope =
  pe_request_id :: string
  pe_expires_at_ms :: int
  pe_encoded :: string
  pe_wire_digest :: string

definition bad_request_id :: "string \<Rightarrow> bool" where
  "bad_request_id r \<longleftrightarrow> r = [] \<or> CHR ''/'' \<in> set r \<or> r = ''.'' \<or> r = ''..''"

definition make_prepared_envelope :: "prepared_envelope \<Rightarrow> py_error + prepared_envelope" where
  "make_prepared_envelope p =
     (if bad_request_id (pe_request_id p) \<or> pe_expires_at_ms p \<le> 0 \<or> pe_encoded p = []
         \<or> \<not> starts_with (pe_wire_digest p) ''sha256:''
      then Inl (ValueError ''invalid prepared request envelope'') else Inr p)"

definition envelope_metadata :: "string \<Rightarrow> int \<Rightarrow> string \<Rightarrow> (string, json) dict" where
  "envelope_metadata request_id expires_at_ms key_id =
     [(''schema'', JStr ''ndnsf-di-protected-request-v3''), (''requestId'', JStr request_id),
      (''expiresAtMs'', JInt expires_at_ms), (''keyId'', JStr key_id)]"

type_synonym cipher = "string \<Rightarrow> string \<Rightarrow> string \<Rightarrow> string \<Rightarrow> string"
type_synonym decipher = "string \<Rightarrow> string \<Rightarrow> string \<Rightarrow> string \<Rightarrow> string option"

definition spool_body :: "cipher \<Rightarrow> string \<Rightarrow> envelope_key \<Rightarrow> string \<Rightarrow> string \<Rightarrow> int \<Rightarrow> (string, json) dict" where
  "spool_body enc nonce key request_id payload expires_at_ms =
     (let metadata = envelope_metadata request_id expires_at_ms (ek_key_id key) in
      metadata @ [(''nonce'', JStr (b64encode nonce)),
        (''ciphertext'', JStr (b64encode (enc (ek_key_bytes key) nonce payload (json_dumps (JObj metadata)))))])"

definition prepare_envelope :: "hash \<Rightarrow> cipher \<Rightarrow> string \<Rightarrow> string \<Rightarrow> string \<Rightarrow> int \<Rightarrow> journal \<Rightarrow> py_error + prepared_envelope" where
  "prepare_envelope sha enc nonce request_id payload expires_at_ms j =
     (if bad_request_id request_id then Inl (ValueError ''invalid request spool identity'')
      else sum_then (required_key_ring j) (\<lambda>ring.
        let encoded = json_dumps_spaced (spool_body enc nonce (kr_active ring) request_id payload expires_at_ms) in
        make_prepared_envelope \<lparr>pe_request_id = request_id, pe_expires_at_ms = expires_at_ms, pe_encoded = encoded,
          pe_wire_digest = ''sha256:'' @ sha encoded\<rparr>))"

definition envelope_payload :: "prepared_envelope \<Rightarrow> (string, json) dict" where
  "envelope_payload p =
     [(''request_id'', JStr (pe_request_id p)), (''expires_at_ms'', JInt (pe_expires_at_ms p)),
      (''wire_digest'', JStr (pe_wire_digest p)), (''encoded'', JStr (b64encode (pe_encoded p)))]"

definition commit_prepared_envelope :: "hash \<Rightarrow> (json \<Rightarrow> string) \<Rightarrow> bool \<Rightarrow> (nat \<Rightarrow> int) \<Rightarrow> prepared_envelope \<Rightarrow> entry list
    \<Rightarrow> journal \<Rightarrow> (jrecord list, journal) outcome" where
  "commit_prepared_envelope sha rep busy clock p entries j =
     (if ''sha256:'' @ sha (pe_encoded p) \<noteq> pe_wire_digest p
      then (Inl (ValueError ''prepared request envelope digest mismatch''), j)
      else append_many sha rep busy clock ((''protected-envelope'', envelope_payload p) # entries) j)"

text \<open>
  The spool. Writing replaces the file of the request; what the operating system refuses is not
  modelled.
\<close>

definition spool_size :: "string \<Rightarrow> journal \<Rightarrow> int" where
  "spool_size request_id j = (case dict_get (jn_spool j) request_id of None \<Rightarrow> 0 | Some content \<Rightarrow> byte_size content)"

definition materialize_envelope_mirror :: "prepared_envelope \<Rightarrow> journal \<Rightarrow> journal" where
  "materialize_envelope_mirror p j =
     (let projected = jn_usage_bytes j - spool_size (pe_request_id p) j + byte_size (pe_encoded p) in
      if projected > jn_quota_bytes j then j
      else j\<lparr>jn_spool := dict_set (pe_request_id p) (pe_encoded p) (jn_spool j), jn_usage_bytes := projected\<rparr>)"

definition write_envelope :: "hash \<Rightarrow> cipher \<Rightarrow> string \<Rightarrow> string \<Rightarrow> string \<Rightarrow> int \<Rightarrow> journal \<Rightarrow> (string, journal) outcome" where
  "write_envelope sha enc nonce request_id payload expires_at_ms j =
     (case prepare_envelope sha enc nonce request_id payload expires_at_ms j of
        Inl e \<Rightarrow> (Inl e, j)
      | Inr p \<Rightarrow>
          let projected = jn_usage_bytes j - spool_size request_id j + byte_size (pe_encoded p) in
          if projected > jn_quota_bytes j then (Inl (JournalQuotaError ''journal quota exceeded''), j)
          else (Inr (pe_wire_digest p),
                j\<lparr>jn_spool := dict_set request_id (pe_encoded p) (jn_spool j), jn_usage_bytes := projected\<rparr>))"

definition spool_expired :: "int \<Rightarrow> string \<Rightarrow> bool" where
  "spool_expired at_ms content = (case wire_loads content of
       Some (JObj body) \<Rightarrow> (case int_field body ''expiresAtMs'' 0 of Inr e \<Rightarrow> \<not> e > at_ms | Inl _ \<Rightarrow> True)
     | _ \<Rightarrow> True)"

definition removable :: "int \<Rightarrow> string list \<Rightarrow> string \<times> string \<Rightarrow> bool" where
  "removable at_ms protected entry \<longleftrightarrow> fst entry \<notin> set protected \<and> spool_expired at_ms (snd entry)"

definition cleanup :: "int \<Rightarrow> string list \<Rightarrow> journal \<Rightarrow> string list \<times> journal" where
  "cleanup at_ms protected j =
     (let gone = filter (removable at_ms protected) (jn_spool j) in
      (sort (map fst gone),
       j\<lparr>jn_spool := filter (\<lambda>entry. \<not> removable at_ms protected entry) (jn_spool j),
         jn_usage_bytes := jn_usage_bytes j - dict_sum (\<lambda>_ content. byte_size content) gone\<rparr>))"

section \<open>Reading\<close>

definition encoded_envelope :: "hash \<Rightarrow> (json \<Rightarrow> string) \<Rightarrow> string \<Rightarrow> journal \<Rightarrow> py_error + string" where
  "encoded_envelope sha rep request_id j = (case dict_get (jn_spool j) request_id of
       Some content \<Rightarrow> Inr content
     | None \<Rightarrow>
         (case dict_get (jn_journal_envelopes j) request_id of
            None \<Rightarrow> Inl KeyError
          | Some r \<Rightarrow>
              (case Option.bind (dict_get r ''encoded'') (\<lambda>v. b64decode (py_str rep v)) of
                 None \<Rightarrow> Inl (ValueError ''protected journal envelope is malformed'')
               | Some encoded \<Rightarrow>
                   let digest = ''sha256:'' @ sha encoded; expected = str_field rep r ''wire_digest'' in
                   if \<not> ascii_text expected then Inl (TypeError ''comparing strings with non-ASCII characters is not supported'')
                   else if digest \<noteq> expected then Inl (ValueError ''protected journal envelope digest mismatch'')
                   else Inr encoded)))"

definition body_item :: "(string, json) dict \<Rightarrow> string \<Rightarrow> py_error + json" where
  "body_item d k = (case dict_get d k of None \<Rightarrow> Inl KeyError | Some v \<Rightarrow> Inr v)"

fun open_legacy :: "(string \<Rightarrow> string \<Rightarrow> string) \<Rightarrow> string \<Rightarrow> string \<Rightarrow> (string, json) dict \<Rightarrow> envelope_key list
    \<Rightarrow> py_error + string" where
  "open_legacy mac tag wire d [] = Inl (ValueError ''request envelope integrity failure'')"
| "open_legacy mac tag wire d (k # ks) =
     (if tag = mac (ek_key_bytes k) wire then sum_then (body_item d ''payload'') b64_text
      else open_legacy mac tag wire d ks)"

definition read_legacy :: "(string \<Rightarrow> string \<Rightarrow> string) \<Rightarrow> (string, json) dict \<Rightarrow> envelope_key list \<Rightarrow> py_error + string" where
  "read_legacy mac d keys =
     (let rest = dict_pop ''mac'' d in
      case field_or d ''mac'' (JStr []) of
        JStr tag \<Rightarrow>
          (if \<not> ascii_text tag then Inl (TypeError ''comparing strings with non-ASCII characters is not supported'')
           else open_legacy mac tag (json_dumps (JObj rest)) rest keys)
      | _ \<Rightarrow> Inl (TypeError ''unsupported operand types''))"

fun open_with :: "decipher \<Rightarrow> (string, json) dict \<Rightarrow> string \<Rightarrow> envelope_key list \<Rightarrow> py_error + string" where
  "open_with dec d aad [] = Inl (ValueError ''request envelope integrity failure'')"
| "open_with dec d aad (k # ks) =
     (case sum_then (sum_then (body_item d ''nonce'') b64_text) (\<lambda>nonce.
           sum_then (sum_then (body_item d ''ciphertext'') b64_text) (\<lambda>ciphertext.
             case dec (ek_key_bytes k) nonce ciphertext aad of
               None \<Rightarrow> Inl (ValueError ''invalid tag'') | Some payload \<Rightarrow> Inr payload)) of
        Inr payload \<Rightarrow> Inr payload
      | Inl _ \<Rightarrow> open_with dec d aad ks)"

definition read_encrypted :: "(json \<Rightarrow> string) \<Rightarrow> decipher \<Rightarrow> string \<Rightarrow> (string, json) dict \<Rightarrow> key_ring \<Rightarrow> int \<Rightarrow> py_error + string" where
  "read_encrypted rep dec schema d ring expires =
     sum_then (body_item d ''requestId'') (\<lambda>request_id.
       let metadata = [(''schema'', JStr schema), (''requestId'', request_id), (''expiresAtMs'', JInt expires)] in
       if schema = ''ndnsf-di-protected-request-v3''
       then sum_then (body_item d ''keyId'') (\<lambda>key_id.
              sum_then (find_key (py_str rep key_id) (ring_keys ring)) (\<lambda>key.
                open_with dec d (json_dumps (JObj (metadata @ [(''keyId'', JStr (py_str rep key_id))]))) [key]))
       else open_with dec d (json_dumps (JObj metadata)) (ring_keys ring))"

definition read_envelope :: "hash \<Rightarrow> (json \<Rightarrow> string) \<Rightarrow> (string \<Rightarrow> string \<Rightarrow> string) \<Rightarrow> decipher \<Rightarrow> string \<Rightarrow> int option \<Rightarrow> int
    \<Rightarrow> journal \<Rightarrow> py_error + string" where
  "read_envelope sha rep mac dec request_id at_ms now_ms j =
     (case encoded_envelope sha rep request_id j of
        Inl KeyError \<Rightarrow> Inl KeyError
      | Inl _ \<Rightarrow> Inl (ValueError ''request envelope integrity failure'')
      | Inr encoded \<Rightarrow>
          (case wire_loads encoded of
             None \<Rightarrow> Inl (ValueError ''request envelope integrity failure'')
           | Some (JObj d) \<Rightarrow>
               sum_then (sum_then (body_item d ''expiresAtMs'') py_int) (\<lambda>expires.
                 if expires \<le> (case at_ms of None \<Rightarrow> now_ms | Some t \<Rightarrow> if t = 0 then now_ms else t)
                 then Inl (ValueError ''request envelope expired'')
                 else sum_then (required_key_ring j) (\<lambda>ring.
                   case dict_get d ''schema'' of
                     Some (JStr schema) \<Rightarrow>
                       (if schema = ''ndnsf-di-protected-request-v1'' then read_legacy mac d (ring_keys ring)
                        else if schema = ''ndnsf-di-protected-request-v2'' \<or> schema = ''ndnsf-di-protected-request-v3''
                        then read_encrypted rep dec schema d ring expires
                        else Inl (ValueError ''request envelope schema mismatch''))
                   | Some (JList _) \<Rightarrow> Inl (TypeError ''unhashable type'')
                   | Some (JObj _) \<Rightarrow> Inl (TypeError ''unhashable type'')
                   | _ \<Rightarrow> Inl (ValueError ''request envelope schema mismatch'')))
           | Some _ \<Rightarrow> Inl (TypeError ''indices must be integers'')))"

definition envelope_digest :: "hash \<Rightarrow> (json \<Rightarrow> string) \<Rightarrow> string \<Rightarrow> journal \<Rightarrow> py_error + string" where
  "envelope_digest sha rep request_id j =
     sum_then (encoded_envelope sha rep request_id j) (\<lambda>encoded. Inr (''sha256:'' @ sha encoded))"

section \<open>Encodings\<close>

lemma a2b_roundtrip: "a2b_base64 0 0 0 (b64encode s) = Some s"
proof (induction s rule: b64encode.induct)
  case (2 a)
  then show ?case by (simp add: Let_def sextet_bounds sextet_bytes)
next
  case (3 a b)
  then show ?case by (simp add: Let_def sextet_bounds sextet_bytes high_bits)
next
  case (4 a b c s)
  then show ?case by (simp add: Let_def sextet_bounds sextet_bytes high_bits)
qed simp

lemma b64_ascii: "ascii_text (b64encode s)"
proof -
  have alphabet: "list_all (\<lambda>n. (of_char (b64_char n) :: nat) < 128) [0..<64]" by code_simp
  then have char: "n < 64 \<Longrightarrow> (of_char (b64_char n) :: nat) < 128" for n by (simp add: list_all_iff)
  have "(of_char b64_pad :: nat) < 128" by (simp add: b64_pad_def)
  with char show ?thesis unfolding ascii_text_def
    by (induction s rule: b64encode.induct) (simp_all add: Let_def sextet_bounds)
qed

lemma b64_text_encode: "b64_text (JStr (b64encode s)) = Inr s"
  by (simp add: b64_text_def b64_ascii a2b_roundtrip)

definition atomic :: "json \<Rightarrow> bool" where
  "atomic v \<longleftrightarrow> (case v of JList _ \<Rightarrow> False | JObj _ \<Rightarrow> False | _ \<Rightarrow> True)"

lemma skip_space [simp]: "skip_ws (CHR '' '' # s) = skip_ws s"
  by (simp add: skip_ws_def is_ws_def)

lemma reads_atom: "atomic v \<Longrightarrow> ends_number r \<Longrightarrow> reads parse_value (json_dumps v @ r) v r"
  using reads_atoms [of r] by (cases v) (simp_all add: atomic_def)

lemma spaced_member_key:
  "skip_ws (spaced_member kv @ r) = spaced_member kv @ r"
  "\<exists>q. spaced_member kv = CHR 0x22 # q
     \<and> parse_string (q @ r) = Some (fst kv, CHR '':'' # CHR '' '' # json_dumps (snd kv) @ r)"
  by (simp_all add: spaced_member_def json_string_def control_chars parse_json_string)

lemma reads_spaced:
  assumes "kvs \<noteq> []" and "list_all (atomic \<circ> snd) kvs"
  shows "reads parse_pairs (py_join '', '' (map spaced_member kvs) @ CHR 0x7D # r) kvs r"
  using assms
proof (induction kvs rule: list_nonempty_induct)
  case (single kv)
  let ?r = "CHR 0x7D # r"
  obtain q where q: "spaced_member kv = CHR 0x22 # q"
    "parse_string (q @ ?r) = Some (fst kv, CHR '':'' # CHR '' '' # json_dumps (snd kv) @ ?r)"
    using spaced_member_key(2) by blast
  have "reads parse_value (json_dumps (snd kv) @ ?r) (snd kv) ?r" using single by (simp add: reads_atom)
  then show ?case by (rule reads_step) (simp add: q split: prod.splits)
next
  case (cons kv kvs)
  obtain y ys where kvs: "kvs = y # ys" using cons.hyps by (cases kvs) auto
  let ?rest = "py_join '', '' (map spaced_member kvs) @ CHR 0x7D # r"
  let ?r = "CHR '','' # CHR '' '' # ?rest"
  have ws: "skip_ws ?rest = ?rest" using kvs by (cases ys) (simp_all add: spaced_member_key)
  obtain q where q: "spaced_member kv = CHR 0x22 # q"
    "parse_string (q @ ?r) = Some (fst kv, CHR '':'' # CHR '' '' # json_dumps (snd kv) @ ?r)"
    using spaced_member_key(2) by blast
  have "reads parse_value (json_dumps (snd kv) @ ?r) (snd kv) ?r" using cons.prems by (simp add: reads_atom)
  moreover have "reads parse_pairs ?rest kvs r" using cons by simp
  ultimately have "reads parse_pairs (spaced_member kv @ ?r) (kv # kvs) r"
    by (rule reads_step2) (simp add: q ws split: prod.splits)
  then show ?case by (simp add: kvs)
qed

lemma wire_loads_spaced:
  assumes "d \<noteq> []" and "dict_ok d" and "list_all (atomic \<circ> snd) d"
  shows "wire_loads (json_dumps_spaced d) = Some (JObj (sort_key fst d))"
proof -
  let ?d = "sort_key fst d" and ?s = "json_dumps_spaced d"
  have ne: "?d \<noteq> []" using assms(1) by (metis length_0_conv length_sort)
  have "list_all (list_all (\<lambda>c. (of_char c :: nat) < 128)) (map spaced_member ?d)"
    using ascii_string ascii_dumps by (auto simp: spaced_member_def list_all_iff)
  then have "list_all (\<lambda>c. (of_char c :: nat) < 128) ?s"
    unfolding json_dumps_spaced_def by (auto intro: ascii_join)
  then have ascii: "wire_loads ?s = json_loads ?s" by (simp add: wire_loads_def utf8_ascii)
  have "reads parse_pairs (py_join '', '' (map spaced_member ?d) @ CHR 0x7D # []) ?d []"
    using ne assms(3) by (intro reads_spaced) (simp_all add: list_all_iff)
  moreover obtain y ys where d: "?d = y # ys" using ne by (cases ?d) auto
  moreover obtain q where "spaced_member y = CHR 0x22 # q" using spaced_member_key(2) [of y] by blast
  moreover have "dict_of_list ?d = ?d"
    using assms(2) by (intro dict_of_list_distinct) (simp add: dict_ok_def distinct_map)
  ultimately have "reads parse_value ?s (JObj ?d) []"
    unfolding json_dumps_spaced_def by (elim reads_step) (cases ys; simp)
  then obtain m where "parse_value n ?s = Some (JObj ?d, [])" if "m \<le> n" for n unfolding reads_def by blast
  then have "parse_value (max m (Suc (2 * length ?s))) ?s = Some (JObj ?d, [])" by simp
  then have "parse_value (Suc (2 * length ?s)) ?s = Some (JObj ?d, [])" by (subst parse_fuel(1)) auto
  moreover have "skip_ws ?s = ?s" by (simp add: json_dumps_spaced_def skip_ws_def is_ws_def)
  ultimately show ?thesis using ascii by (simp add: json_loads_def)
qed

section \<open>Reading what was committed\<close>

lemma spool_body_facts:
  "spool_body enc nonce key r p e \<noteq> []" "dict_ok (spool_body enc nonce key r p e)"
  "list_all (atomic \<circ> snd) (spool_body enc nonce key r p e)"
  by (simp_all add: spool_body_def envelope_metadata_def Let_def dict_ok_def atomic_def)

lemma read_body:
  assumes "\<And>k n m a. dec k n (enc k n m a) a = Some m" and "find_key (ek_key_id key) (ring_keys ring) = Inr key"
    and "\<And>k. dict_get d k = dict_get (spool_body enc nonce key request_id payload expires_at_ms) k"
  shows "read_encrypted rep dec ''ndnsf-di-protected-request-v3'' d ring expires_at_ms = Inr payload"
proof -
  let ?m = "envelope_metadata request_id expires_at_ms (ek_key_id key)"
  have get: "body_item d ''requestId'' = Inr (JStr request_id)" "body_item d ''keyId'' = Inr (JStr (ek_key_id key))"
    "body_item d ''nonce'' = Inr (JStr (b64encode nonce))"
    "body_item d ''ciphertext'' = Inr (JStr (b64encode (enc (ek_key_bytes key) nonce payload (json_dumps (JObj ?m)))))"
    by (simp_all add: body_item_def assms(3) spool_body_def envelope_metadata_def Let_def)
  have m: "?m = [(''schema'', JStr ''ndnsf-di-protected-request-v3''), (''requestId'', JStr request_id),
      (''expiresAtMs'', JInt expires_at_ms)] @ [(''keyId'', JStr (ek_key_id key))]"
    by (simp add: envelope_metadata_def)
  show ?thesis
    using assms(2) by (simp add: read_encrypted_def get Let_def b64_text_encode assms(1) m [symmetric, simplified])
qed

lemma read_indexed:
  assumes "ascii_hash sha" and "\<And>k n m a. dec k n (enc k n m a) a = Some m"
    and "pe_encoded p = json_dumps_spaced (spool_body enc nonce key request_id payload (pe_expires_at_ms p))"
    and "pe_wire_digest p = ''sha256:'' @ sha (pe_encoded p)"
    and "jn_key_ring j = Some ring" and "find_key (ek_key_id key) (ring_keys ring) = Inr key"
    and "dict_get (jn_spool j) request_id = None" and "dict_get (jn_journal_envelopes j) request_id = Some r"
    and "same_record r (envelope_payload p)" and "0 < at_ms" and "at_ms < pe_expires_at_ms p"
  shows "read_envelope sha rep mac dec request_id (Some at_ms) now_ms j = Inr payload"
proof -
  let ?b = "spool_body enc nonce key request_id payload (pe_expires_at_ms p)"
  have atoms: "dict_get r ''encoded'' = Some (JStr (b64encode (pe_encoded p)))"
    "dict_get r ''wire_digest'' = Some (JStr (pe_wire_digest p))"
    by (rule same_record_atom [OF assms(9)], simp add: envelope_payload_def, simp)+
  have "ascii_text (pe_wire_digest p)" using assms(1,4) by (simp add: ascii_text_def ascii_hash_def)
  then have encoded: "encoded_envelope sha rep request_id j = Inr (pe_encoded p)"
    using assms(4,7,8) atoms
    by (simp add: encoded_envelope_def b64_roundtrip str_field_def field_or_def py_str_def)
  have loads: "wire_loads (pe_encoded p) = Some (JObj (sort_key fst ?b))"
    unfolding assms(3) by (rule wire_loads_spaced [OF spool_body_facts])
  have get: "dict_get (sort_key fst ?b) k = dict_get ?b k" for k
    using spool_body_facts(2) by (intro dict_get_sort) (simp add: dict_ok_def)
  have fields: "dict_get ?b ''expiresAtMs'' = Some (JInt (pe_expires_at_ms p))"
    "dict_get ?b ''schema'' = Some (JStr ''ndnsf-di-protected-request-v3'')"
    by (simp_all add: spool_body_def envelope_metadata_def Let_def)
  have "read_encrypted rep dec ''ndnsf-di-protected-request-v3'' (sort_key fst ?b) ring (pe_expires_at_ms p) = Inr payload"
    using assms(2,6) get by (rule read_body)
  then show ?thesis
    using assms(5,10,11)
    by (simp add: read_envelope_def encoded loads body_item_def get fields py_int_def required_key_ring_def)
qed

lemma index_records_only:
  "\<exists>index. snd (index_records rep rs j) = j\<lparr>jn_journal_envelopes := index\<rparr>"
proof (induction rs arbitrary: j)
  case Nil
  show ?case by (intro exI [of _ "jn_journal_envelopes j"]) simp
next
  case (Cons r rs)
  show ?case
  proof (cases "\<exists>p. field_or r ''payload'' (JObj []) = JObj p")
    case True
    then obtain index where "index_envelope_record rep r j = (Inr (), j\<lparr>jn_journal_envelopes := index\<rparr>)"
      by (auto simp: index_envelope_record_def)
    with Cons [of "j\<lparr>jn_journal_envelopes := index\<rparr>"] show ?thesis by auto
  next
    case False
    then have "snd (index_records rep (r # rs) j) = j\<lparr>jn_journal_envelopes := jn_journal_envelopes j\<rparr>"
      by (cases "field_or r ''payload'' (JObj [])") (simp_all add: index_envelope_record_def)
    then show ?thesis by blast
  qed
qed

lemma index_records_spool [simp]:
  "jn_spool (snd (index_records rep rs j)) = jn_spool j" "jn_key_ring (snd (index_records rep rs j)) = jn_key_ring j"
  using index_records_only [of rep rs j] by auto

lemma refresh_spool [simp]:
  "jn_spool (snd (refresh_records sha rep tolerate j)) = jn_spool j
    \<and> jn_key_ring (snd (refresh_records sha rep tolerate j)) = jn_key_ring j"
proof -
  let ?j = "\<lambda>rs. j\<lparr>jn_records_cache := rs, jn_journal_envelopes := []\<rparr>"
  have "jn_spool (snd (and_then (index_records rep rs (?j rs)) (\<lambda>_ k. (Inr (), f k)))) = jn_spool j
      \<and> jn_key_ring (snd (and_then (index_records rep rs (?j rs)) (\<lambda>_ k. (Inr (), f k)))) = jn_key_ring j"
    if "\<And>k. jn_spool (f k) = jn_spool k \<and> jn_key_ring (f k) = jn_key_ring k" for rs f
    using index_records_spool [of rep rs "?j rs"] that
    by (cases "index_records rep rs (?j rs)") (auto simp: and_then_def split: sum.splits)
  then show ?thesis
    by (simp add: refresh_records_def Let_def rebuild_envelope_index_def split: sum.splits)
qed

lemma append_locked_spool:
  "jn_spool (snd (append_many_locked sha rep clock entries j)) = jn_spool j
    \<and> jn_key_ring (snd (append_many_locked sha rep clock entries j)) = jn_key_ring j"
proof -
  let ?envs = "make_envelopes sha clock entries"
  let ?j = "j\<lparr>jn_file := jn_file j @ wire_line (written_record sha clock entries),
    jn_records_cache := jn_records_cache j @ ?envs\<rparr>"
  show ?thesis
    using index_records_spool [of rep ?envs ?j]
    by (cases "index_records rep ?envs ?j") (auto simp: append_many_locked_def Let_def and_then_def split: sum.splits)
qed

lemma append_many_spool:
  "jn_spool (snd (append_many sha rep busy clock entries j)) = jn_spool j
    \<and> jn_key_ring (snd (append_many sha rep busy clock entries j)) = jn_key_ring j"
proof -
  obtain r k where run: "refresh_records sha rep True j = (r, k)" by fastforce
  then have "jn_spool k = jn_spool j" "jn_key_ring k = jn_key_ring j"
    using refresh_spool [of sha rep True j] by simp_all
  with append_locked_spool [of sha rep clock entries k] run show ?thesis
    by (cases r) (simp_all add: append_many_def with_lock_def)
qed

text \<open>\<open>plain_request\<close>: the request identity of a record is not a list or an object.\<close>

definition plain_request :: "jrecord \<Rightarrow> bool" where
  "plain_request r \<longleftrightarrow> (case dict_get (payload_of r) ''request_id'' of None \<Rightarrow> True | Some v \<Rightarrow> atomic v)"

lemma atomic_same:
  assumes "same_record w v" and "case dict_get v k of None \<Rightarrow> True | Some x \<Rightarrow> atomic x"
  shows "dict_get w k = dict_get v k"
proof (cases "dict_get v k")
  case None
  with same_record_get [OF assms(1), of k] show ?thesis by simp
next
  case (Some x)
  with assms(2) have "x \<in> range JStr \<union> range JInt \<union> range JBool \<union> {JNull}"
    by (cases x) (auto simp: atomic_def)
  with Some show ?thesis by (simp add: same_record_atom [OF assms(1)])
qed

definition same_index :: "(string, (string, json) dict) dict \<Rightarrow> (string, (string, json) dict) dict \<Rightarrow> bool" where
  "same_index a b \<longleftrightarrow> (\<forall>k. rel_option same_record (dict_get a k) (dict_get b k))"

lemma index_step_same:
  assumes "same_record q r" and "record_ok sha r" and "plain_request r" and "same_index a b"
  shows "same_index (index_step rep a q) (index_step rep b r)"
proof -
  obtain v where v: "dict_get r ''payload'' = Some (JObj v)" using record_ok_payload [OF assms(2)] by blast
  obtain w where w: "dict_get q ''payload'' = Some (JObj w)" "same_record w v"
    using same_record_obj [OF assms(1) v] by blast
  have "dict_get w ''request_id'' = dict_get v ''request_id''"
    using assms(3) v by (intro atomic_same [OF w(2)]) (simp add: plain_request_def payload_of_def)
  then have "str_field rep w ''request_id'' = str_field rep v ''request_id''" by (simp add: str_field_def field_or_def)
  moreover have "dict_get q ''kind'' = Some (JStr s) \<longleftrightarrow> dict_get r ''kind'' = Some (JStr s)" for s
    using assms(1) by (rule same_record_str)
  ultimately show ?thesis using assms(4) v w
    by (auto simp: same_index_def index_step_def indexed_payload_def Let_def AList.update_conv' AList.delete_conv')
qed

lemma envelope_index_same:
  assumes "list_all2 same_record qs rs" and "list_all (record_ok sha) rs" and "list_all plain_request rs"
  shows "same_index (envelope_index rep qs) (envelope_index rep rs)"
proof -
  have "same_index a b \<Longrightarrow> same_index (foldl (index_step rep) a qs) (foldl (index_step rep) b rs)" for a b
    using assms
  proof (induction arbitrary: a b rule: list_all2_induct)
    case (Cons q qs r rs)
    from Cons.prems index_step_same [OF Cons.hyps(1), of sha a b rep] show ?case by (auto intro!: Cons.IH)
  qed simp
  moreover have "same_index [] []" by (simp add: same_index_def)
  ultimately show ?thesis by (simp add: envelope_index_def)
qed

lemma index_committed:
  assumes "pe_request_id p \<noteq> []"
    and "list_all (\<lambda>e. fst e \<notin> {''protected-envelope'', ''protected-envelope-tombstone''}) entries"
  shows "dict_get (foldl (index_step rep) index
      (make_envelopes sha clock ((''protected-envelope'', envelope_payload p) # entries))) (pe_request_id p)
    = Some (envelope_payload p)"
proof -
  define f where "f = (\<lambda>(i, kind, payload). with_checksum sha (make_journal_record kind payload (clock i)))"
  have get: "dict_get (f (i, kind, payload)) ''kind'' = Some (JStr kind)"
    "dict_get (f (i, kind, payload)) ''payload'' = Some (JObj payload)" for i kind payload
    by (simp_all add: f_def with_checksum_def make_journal_record_def)
  have rest: "foldl (index_step rep) index (map f xs) = index"
    if "list_all (\<lambda>e. fst (snd e) \<notin> {''protected-envelope'', ''protected-envelope-tombstone''}) xs" for xs index
    using that
  proof (induction xs arbitrary: index)
    case (Cons x xs)
    obtain i kind payload where x: "x = (i, kind, payload)" by (cases x)
    from Cons.prems have "index_step rep index (f x) = index" by (simp add: x index_step_def get indexed_payload_def)
    with Cons show ?case by simp
  qed simp
  have "list_all (\<lambda>e. fst (snd e) \<notin> {''protected-envelope'', ''protected-envelope-tombstone''}) (enumerate 1 entries)"
    using assms(2) list.pred_map [of "\<lambda>e. fst e \<notin> {''protected-envelope'', ''protected-envelope-tombstone''}" snd "enumerate 1 entries"]
    by (simp add: comp_def)
  from rest [OF this] have "foldl (index_step rep) index (map f (enumerate 0 ((''protected-envelope'', envelope_payload p) # entries)))
      = index_step rep index (f (0, ''protected-envelope'', envelope_payload p))" by simp
  moreover have "str_field rep (envelope_payload p) ''request_id'' = pe_request_id p"
    by (simp add: envelope_payload_def str_field_def field_or_def py_str_def)
  ultimately show ?thesis
    using assms(1) by (simp add: make_envelopes_def f_def [symmetric] index_step_def get indexed_payload_def AList.update_conv')
qed

lemma open_journal_parts:
  assumes "open_journal sha rep file files other_bytes quota_bytes ring = Inr m"
  shows "jn_spool m = files \<and> jn_key_ring m = ring"
proof -
  obtain rs where load: "load_records sha True file = Inr rs"
    using assms by (auto simp: open_journal_def sum_then_Inr)
  let ?j = "\<lparr>jn_file = file, jn_spool = files, jn_quota_bytes = quota_bytes, jn_key_ring = ring,
    jn_usage_bytes = scan_usage_bytes file files other_bytes, jn_journal_size = byte_size file,
    jn_records_cache = rs, jn_journal_envelopes = []\<rparr>"
  have "m = snd (index_records rep rs ?j)"
    using assms load by (auto simp: open_journal_def rebuild_envelope_index_def split: prod.splits sum.splits)
  then show ?thesis by simp
qed

lemma prepare_facts:
  assumes "prepare_envelope sha enc nonce request_id payload expires_at_ms j = Inr p" and "jn_key_ring j = Some ring"
  shows "request_id \<noteq> [] \<and> pe_request_id p = request_id \<and> pe_expires_at_ms p = expires_at_ms
    \<and> pe_encoded p = json_dumps_spaced (spool_body enc nonce (kr_active ring) request_id payload expires_at_ms)
    \<and> pe_wire_digest p = ''sha256:'' @ sha (pe_encoded p)"
  using assms
  by (auto simp: prepare_envelope_def required_key_ring_def make_prepared_envelope_def bad_request_id_def Let_def
      split: if_splits)

lemma append_many_cache:
  assumes "append_many sha rep busy clock entries j = (Inr envelopes, k)"
  shows "\<exists>old. jn_records_cache k = old @ make_envelopes sha clock entries"
proof (cases "entries = []")
  case True
  then show ?thesis by (simp add: make_envelopes_def)
next
  case False
  with assms obtain l where "append_many_locked sha rep clock entries l = (Inr envelopes, k)"
    by (auto simp: append_many_def with_lock_def and_then_def split: if_splits prod.splits sum.splits)
  moreover have "make_envelopes sha clock entries \<noteq> []" using False by (auto simp: make_envelopes_def enumerate_eq_zip)
  moreover have "jn_records_cache (snd (index_records rep rs i)) = jn_records_cache i" for rs i
    using index_records_only [of rep rs i] by auto
  ultimately have "jn_records_cache k = jn_records_cache l @ make_envelopes sha clock entries"
    by (auto simp: append_many_locked_def Let_def and_then_def split: if_splits prod.splits sum.splits)
      (metis snd_conv journal.select_convs(7) journal.surjective journal.update_convs(7))
  then show ?thesis by blast
qed

lemma dict_sum_split: "dict_sum f (filter P d) + dict_sum f (filter (\<lambda>x. \<not> P x) d) = dict_sum f d"
  by (induction d) auto

lemma dict_get_filter: "dict_ok d \<Longrightarrow> dict_get (filter P d) k = Some v \<longleftrightarrow> dict_get d k = Some v \<and> P (k, v)"
  using dict_get_iff [of d k v] dict_get_iff [OF dict_ok_filter, of d P k v] by auto

section \<open>Properties\<close>


text \<open>
  C38: The accounting of the spool. Writing an envelope and cleaning the spool change the recorded
  usage by exactly the bytes that the spool gains or loses, a write never takes the usage over the
  quota, and cleaning removes exactly the files that are not protected and are expired or unreadable.
\<close>

theorem spool_usage_exact:
  assumes "dict_ok (jn_spool j)" and "write_envelope sha enc nonce request_id payload expires_at_ms j = (r, k)"
  shows "jn_usage_bytes k - dict_sum (\<lambda>_ c. byte_size c) (jn_spool k)
      = jn_usage_bytes j - dict_sum (\<lambda>_ c. byte_size c) (jn_spool j)
    \<and> (jn_usage_bytes j \<le> jn_quota_bytes j \<longrightarrow> jn_usage_bytes k \<le> jn_quota_bytes k)
    \<and> jn_usage_bytes (snd (cleanup at_ms protected k)) - dict_sum (\<lambda>_ c. byte_size c) (jn_spool (snd (cleanup at_ms protected k)))
      = jn_usage_bytes k - dict_sum (\<lambda>_ c. byte_size c) (jn_spool k)
    \<and> (\<forall>q content. dict_get (jn_spool (snd (cleanup at_ms protected k))) q = Some content
        \<longleftrightarrow> dict_get (jn_spool k) q = Some content \<and> (q \<in> set protected \<or> \<not> spool_expired at_ms content))"
proof -
  let ?size = "\<lambda>_ c. byte_size c"
  have stored: "jn_usage_bytes k - dict_sum ?size (jn_spool k) = jn_usage_bytes j - dict_sum ?size (jn_spool j)
      \<and> (jn_usage_bytes j \<le> jn_quota_bytes j \<longrightarrow> jn_usage_bytes k \<le> jn_quota_bytes k) \<and> dict_ok (jn_spool k)"
  proof (cases "k = j")
    case False
    then obtain p where p: "prepare_envelope sha enc nonce request_id payload expires_at_ms j = Inr p"
      using assms(2) by (auto simp: write_envelope_def split: sum.splits)
    let ?usage = "jn_usage_bytes j - spool_size request_id j + byte_size (pe_encoded p)"
    have quota: "?usage \<le> jn_quota_bytes j"
      and k: "k = j\<lparr>jn_spool := dict_set request_id (pe_encoded p) (jn_spool j), jn_usage_bytes := ?usage\<rparr>"
      using assms(2) False by (auto simp: write_envelope_def p Let_def split: if_splits)
    have "dict_sum ?size (dict_set request_id (pe_encoded p) (jn_spool j))
        = dict_sum ?size (jn_spool j) - spool_size request_id j + byte_size (pe_encoded p)"
      using dict_sum_set_new [of "jn_spool j" request_id ?size "pe_encoded p"]
        dict_sum_set_old [OF assms(1), of request_id _ ?size "pe_encoded p"]
      by (cases "dict_get (jn_spool j) request_id") (simp_all add: spool_size_def)
    with k quota assms(1) show ?thesis by simp
  qed (use assms(1) in simp)
  have cleaned: "snd (cleanup at_ms protected k) = k\<lparr>jn_spool := filter (\<lambda>x. \<not> removable at_ms protected x) (jn_spool k),
      jn_usage_bytes := jn_usage_bytes k - dict_sum ?size (filter (removable at_ms protected) (jn_spool k))\<rparr>"
    by (simp add: cleanup_def Let_def)
  have "dict_get (filter (\<lambda>x. \<not> removable at_ms protected x) (jn_spool k)) q = Some content
      \<longleftrightarrow> dict_get (jn_spool k) q = Some content \<and> (q \<in> set protected \<or> \<not> spool_expired at_ms content)" for q content
    using stored by (subst dict_get_filter) (auto simp: removable_def)
  with stored dict_sum_split [of ?size "removable at_ms protected" "jn_spool k"] show ?thesis by (simp add: cleaned)
qed

section \<open>Witnesses\<close>

definition demo_enc :: cipher where
  "demo_enc k n m a = m"

definition demo_dec :: decipher where
  "demo_dec k n c a = Some c"

definition demo_ring :: key_ring where
  "demo_ring = \<lparr>kr_active = \<lparr>ek_key_id = ''k'', ek_key_bytes = replicate 32 CHR ''s''\<rparr>, kr_previous = []\<rparr>"

definition demo_keyed :: journal where
  "demo_keyed = demo_journal\<lparr>jn_quota_bytes := 5000, jn_key_ring := Some demo_ring\<rparr>"

definition demo_spooled :: prepared_envelope where
  "demo_spooled = \<lparr>pe_request_id = ''q'', pe_expires_at_ms = 50,
     pe_encoded = json_dumps_spaced (spool_body demo_enc ''n'' (kr_active demo_ring) ''q'' ''p'' 50),
     pe_wire_digest = ''sha256:0a''\<rparr>"

lemma demo_keyed_reachable:
  "reachable (journal_start demo_digest demo_repr) (journal_step demo_digest demo_repr) demo_keyed"
proof (rule reachable.start)
  have "open_journal demo_digest demo_repr [] [] 0 5000 (Some demo_ring) = Inr demo_keyed"
    by (simp add: open_journal_def load_records_def rebuild_envelope_index_def demo_keyed_def demo_journal_def
        scan_usage_bytes_def)
  then show "journal_start demo_digest demo_repr demo_keyed"
    unfolding journal_start_def using demo_ascii by blast
qed


theorem spool_usage_exact_witness:
  "jn_usage_bytes (snd (write_envelope demo_digest demo_enc ''n'' ''q'' ''p'' 50 demo_keyed)) \<le> 5000"
proof -
  have "jn_quota_bytes (snd (write_envelope demo_digest demo_enc ''n'' ''q'' ''p'' 50 demo_keyed)) = 5000" by code_simp
  moreover have "dict_ok (jn_spool demo_keyed)" "jn_usage_bytes demo_keyed \<le> jn_quota_bytes demo_keyed"
    by (simp_all add: demo_keyed_def demo_journal_def)
  ultimately show ?thesis
    using spool_usage_exact [of demo_keyed demo_digest demo_enc "''n''" "''q''" "''p''" 50
      "fst (write_envelope demo_digest demo_enc ''n'' ''q'' ''p'' 50 demo_keyed)"
      "snd (write_envelope demo_digest demo_enc ''n'' ''q'' ''p'' 50 demo_keyed)"] by simp
qed

end
