(* ===== verification/Deployment_Journal.thy ===== *)
theory Deployment_Journal
  imports Request_Spool
begin

text \<open>
  \<open>DeploymentControlJournal\<close> of \<open>deployment_control.py\<close>: deployment plans and instances as records of
  the runtime journal, and their recovery at start. The importer of records of the first version is
  a parameter, \<open>busy i\<close> and \<open>clock i\<close> are the state of the lock and the time at the \<open>i\<close>-th write of
  a call.
\<close>

section \<open>The control journal\<close>

definition plan_kind :: string where
  "plan_kind = ''deployment-plan-v2''"

definition instance_kind :: string where
  "instance_kind = ''deployment-instance-v2''"

definition legacy_state_kind :: string where
  "legacy_state_kind = ''deployment-state''"

record control_journal =
  cj_journal :: journal
  cj_legacy_import_count :: int

definition control_append :: "hash \<Rightarrow> (json \<Rightarrow> string) \<Rightarrow> bool \<Rightarrow> int \<Rightarrow> string \<Rightarrow> (string, json) dict \<Rightarrow> control_journal
    \<Rightarrow> (unit, control_journal) outcome" where
  "control_append sha rep busy at_ms kind payload c =
     (case journal_append sha rep busy (\<lambda>_. at_ms) kind payload (cj_journal c) of
        (r, j) \<Rightarrow> (map_sum id (\<lambda>_. ()) r, c\<lparr>cj_journal := j\<rparr>))"

definition write_plan :: "hash \<Rightarrow> (json \<Rightarrow> string) \<Rightarrow> bool \<Rightarrow> int \<Rightarrow> deployment_plan \<Rightarrow> control_journal
    \<Rightarrow> (unit, control_journal) outcome" where
  "write_plan sha rep busy at_ms plan =
     control_append sha rep busy at_ms plan_kind (with_schema deployment_plan_schema (deployment_plan_to_dict plan))"

definition write_instance :: "hash \<Rightarrow> (json \<Rightarrow> string) \<Rightarrow> bool \<Rightarrow> int \<Rightarrow> deployment_instance \<Rightarrow> control_journal
    \<Rightarrow> (unit, control_journal) outcome" where
  "write_instance sha rep busy at_ms i =
     control_append sha rep busy at_ms instance_kind (with_schema deployment_instance_schema (deployment_instance_to_dict i))"

section \<open>Restoring\<close>

fun for_each :: "('a \<Rightarrow> 's \<Rightarrow> (unit, 's) outcome) \<Rightarrow> 'a list \<Rightarrow> 's \<Rightarrow> (unit, 's) outcome" where
  "for_each f [] s = (Inr (), s)"
| "for_each f (x # xs) s = and_then (f x s) (\<lambda>_. for_each f xs)"

type_synonym plans = "(string, deployment_plan) dict"
type_synonym instances = "(string, deployment_instance) dict"
type_synonym importer = "(string, json) dict \<Rightarrow> py_error + deployment_plan \<times> deployment_instance list"

record scan =
  sc_plans :: plans
  sc_instances :: instances
  sc_migrated :: "(deployment_plan \<times> deployment_instance list) list"

definition add_plan :: "hash \<Rightarrow> deployment_plan \<Rightarrow> plans \<Rightarrow> plans" where
  "add_plan sha plan = dict_set (deployment_plan_digest sha plan) plan"

definition add_instance :: "deployment_instance \<Rightarrow> instances \<Rightarrow> instances" where
  "add_instance i = dict_set (in_instance_id i) i"

definition record_item :: "(json \<Rightarrow> py_error + (string, json) dict) \<Rightarrow> jrecord \<Rightarrow> py_error + json \<times> (string, json) dict" where
  "record_item dict_of r =
     sum_then (record_kind r) (\<lambda>kind. sum_then (record_payload r) (\<lambda>p. sum_then (py_dict dict_of p) (\<lambda>payload.
       Inr (kind, payload))))"

definition restore_record :: "hash \<Rightarrow> (json \<Rightarrow> string) \<Rightarrow> (json \<Rightarrow> py_error + (string, json) dict) \<Rightarrow> importer option
    \<Rightarrow> jrecord \<Rightarrow> scan \<Rightarrow> (unit, scan) outcome" where
  "restore_record sha rep dict_of importer r s =
     (case record_item dict_of r of
        Inl e \<Rightarrow> (Inl e, s)
      | Inr (kind, payload) \<Rightarrow>
          if kind = JStr plan_kind
          then (case deployment_plan_from_bytes rep dict_of (json_dumps (JObj payload)) of
                  Inl e \<Rightarrow> (Inl e, s)
                | Inr plan \<Rightarrow> (Inr (), s\<lparr>sc_plans := add_plan sha plan (sc_plans s)\<rparr>))
          else if kind = JStr instance_kind
          then (case deployment_instance_from_bytes rep (json_dumps (JObj payload)) of
                  Inl e \<Rightarrow> (Inl e, s)
                | Inr i \<Rightarrow> (Inr (), s\<lparr>sc_instances := add_instance i (sc_instances s)\<rparr>))
          else if kind = JStr legacy_state_kind
          then (case importer of
                  None \<Rightarrow> (Inr (), s)
                | Some f \<Rightarrow> (case f payload of
                    Inl e \<Rightarrow> (Inl e, s)
                  | Inr m \<Rightarrow> (Inr (), s\<lparr>sc_migrated := sc_migrated s @ [m]\<rparr>)))
          else (Inr (), s))"

record migration =
  mg_control :: control_journal
  mg_writes :: nat
  mg_plans :: plans
  mg_instances :: instances

definition migrate_plan :: "hash \<Rightarrow> (json \<Rightarrow> string) \<Rightarrow> (nat \<Rightarrow> bool) \<Rightarrow> (nat \<Rightarrow> int) \<Rightarrow> deployment_plan \<Rightarrow> migration
    \<Rightarrow> (unit, migration) outcome" where
  "migrate_plan sha rep busy clock plan m =
     (if dict_has (mg_plans m) (deployment_plan_digest sha plan) then (Inr (), m)
      else case write_plan sha rep (busy (mg_writes m)) (clock (mg_writes m)) plan (mg_control m) of
        (Inl e, c) \<Rightarrow> (Inl e, m\<lparr>mg_control := c\<rparr>)
      | (Inr _, c) \<Rightarrow>
          (Inr (), m\<lparr>mg_control := c, mg_writes := Suc (mg_writes m), mg_plans := add_plan sha plan (mg_plans m)\<rparr>))"

definition migrate_instance :: "hash \<Rightarrow> (json \<Rightarrow> string) \<Rightarrow> (nat \<Rightarrow> bool) \<Rightarrow> (nat \<Rightarrow> int) \<Rightarrow> deployment_instance \<Rightarrow> migration
    \<Rightarrow> (unit, migration) outcome" where
  "migrate_instance sha rep busy clock i m =
     (if dict_has (mg_instances m) (in_instance_id i) then (Inr (), m)
      else case write_instance sha rep (busy (mg_writes m)) (clock (mg_writes m)) i (mg_control m) of
        (Inl e, c) \<Rightarrow> (Inl e, m\<lparr>mg_control := c\<rparr>)
      | (Inr _, c) \<Rightarrow>
          (Inr (), m\<lparr>mg_control := c, mg_writes := Suc (mg_writes m), mg_instances := add_instance i (mg_instances m)\<rparr>))"

definition migrate :: "hash \<Rightarrow> (json \<Rightarrow> string) \<Rightarrow> (nat \<Rightarrow> bool) \<Rightarrow> (nat \<Rightarrow> int)
    \<Rightarrow> deployment_plan \<times> deployment_instance list \<Rightarrow> migration \<Rightarrow> (unit, migration) outcome" where
  "migrate sha rep busy clock entry m =
     and_then (migrate_plan sha rep busy clock (fst entry) m)
       (\<lambda>_. for_each (migrate_instance sha rep busy clock) (snd entry))"

definition control_restore :: "hash \<Rightarrow> (json \<Rightarrow> string) \<Rightarrow> (json \<Rightarrow> py_error + (string, json) dict) \<Rightarrow> importer option
    \<Rightarrow> (nat \<Rightarrow> bool) \<Rightarrow> (nat \<Rightarrow> int) \<Rightarrow> control_journal \<Rightarrow> (plans \<times> instances, control_journal) outcome" where
  "control_restore sha rep dict_of importer busy clock c =
     (case journal_records sha rep True (cj_journal c) of
        (Inl e, j) \<Rightarrow> (Inl e, c\<lparr>cj_journal := j\<rparr>)
      | (Inr records, j) \<Rightarrow>
          (case for_each (restore_record sha rep dict_of importer) records
                  \<lparr>sc_plans = [], sc_instances = [], sc_migrated = []\<rparr> of
             (r, s) \<Rightarrow>
               let d = c\<lparr>cj_journal := j,
                         cj_legacy_import_count := cj_legacy_import_count c + int (length (sc_migrated s))\<rparr> in
               (case r of
                  Inl e \<Rightarrow> (Inl e, d)
                | Inr _ \<Rightarrow>
                    (case for_each (migrate sha rep busy clock) (sc_migrated s)
                            \<lparr>mg_control = d, mg_writes = 0, mg_plans = sc_plans s, mg_instances = sc_instances s\<rparr> of
                       (Inl e, m) \<Rightarrow> (Inl e, mg_control m)
                     | (Inr _, m) \<Rightarrow> (Inr (mg_plans m, mg_instances m), mg_control m)))))"

section \<open>Records of the control journal\<close>

text \<open>The writes as values, the entries they append, and what a scan makes of them.\<close>

datatype control_item = Plan_Write deployment_plan | Instance_Write deployment_instance

definition write_ok :: "control_item \<Rightarrow> bool" where
  "write_ok w \<longleftrightarrow> (case w of Plan_Write p \<Rightarrow> deployment_plan_wf p | Instance_Write i \<Rightarrow> make_deployment_instance i = Inr i)"

definition control_write :: "hash \<Rightarrow> (json \<Rightarrow> string) \<Rightarrow> bool \<times> int \<times> control_item \<Rightarrow> control_journal
    \<Rightarrow> (unit, control_journal) outcome" where
  "control_write sha rep call = (case call of (busy, at_ms, w) \<Rightarrow>
     (case w of Plan_Write p \<Rightarrow> write_plan sha rep busy at_ms p | Instance_Write i \<Rightarrow> write_instance sha rep busy at_ms i))"

definition write_entry :: "control_item \<Rightarrow> entry" where
  "write_entry w = (case w of
       Plan_Write p \<Rightarrow> (plan_kind, with_schema deployment_plan_schema (deployment_plan_to_dict p))
     | Instance_Write i \<Rightarrow> (instance_kind, with_schema deployment_instance_schema (deployment_instance_to_dict i)))"

definition written_envelope :: "hash \<Rightarrow> bool \<times> int \<times> control_item \<Rightarrow> jrecord" where
  "written_envelope sha call = (case call of (busy, at_ms, w) \<Rightarrow>
     with_checksum sha (make_journal_record (fst (write_entry w)) (snd (write_entry w)) at_ms))"

definition scan_write :: "hash \<Rightarrow> control_item \<Rightarrow> scan \<Rightarrow> scan" where
  "scan_write sha w s = (case w of
       Plan_Write p \<Rightarrow> s\<lparr>sc_plans := add_plan sha (deployment_plan_canon p) (sc_plans s)\<rparr>
     | Instance_Write i \<Rightarrow> s\<lparr>sc_instances := add_instance i (sc_instances s)\<rparr>)"

lemma for_each_append: "for_each f (xs @ ys) s = and_then (for_each f xs s) (\<lambda>_. for_each f ys)"
  by (induction xs arbitrary: s) (auto simp: and_then_def split: prod.splits sum.splits)

lemma write_entry_ok: "write_ok w \<Longrightarrow> entry_ok (write_entry w) \<and> fst (write_entry w) \<noteq> lifecycle_kind"
  using deployment_plan_wire.wire_distinct deployment_instance_wire.wire_distinct
  by (auto simp: write_ok_def write_entry_def entry_ok_def plan_kind_def instance_kind_def transaction_kind_def
      lifecycle_kind_def split: control_item.splits)

lemma control_write_append:
  "control_write sha rep (busy, at_ms, w) = control_append sha rep busy at_ms (fst (write_entry w)) (snd (write_entry w))"
  by (simp add: control_write_def write_entry_def write_plan_def write_instance_def split: control_item.split)

lemma append_synced_cache:
  assumes "jn_journal_size j = byte_size (jn_file j)" and "append_many sha rep busy clock entries j = (Inr envelopes, k)"
    and "list_all entry_ok entries"
  shows "jn_records_cache k = jn_records_cache j @ make_envelopes sha clock entries"
proof (cases "entries = []")
  case False
  with assms have "append_many_locked sha rep clock entries j = (Inr envelopes, k)"
    by (auto simp: append_many_def with_lock_def refresh_records_def split: if_splits)
  then show ?thesis
    by (auto simp: append_many_locked_def Let_def index_records_ok [OF make_envelopes_ok [OF assms(3), of sha clock]]
        split: if_splits)
qed (use assms(2) in \<open>simp add: append_many_def make_envelopes_def\<close>)

lemma control_write_ok:
  assumes "ascii_hash sha" and "journal_inv sha rep (cj_journal c)" and "write_ok w"
    and "control_write sha rep (busy, at_ms, w) c = (r, d)"
  shows "journal_inv sha rep (cj_journal d)" "cj_legacy_import_count d = cj_legacy_import_count c"
    "r = Inr () \<Longrightarrow> file_ok sha rep (jn_file (cj_journal c)) rs
      \<Longrightarrow> file_ok sha rep (jn_file (cj_journal d)) (rs @ [written_envelope sha (busy, at_ms, w)])"
    "r = Inr () \<Longrightarrow> jn_journal_size (cj_journal c) = byte_size (jn_file (cj_journal c))
      \<Longrightarrow> jn_journal_size (cj_journal d) = byte_size (jn_file (cj_journal d))
        \<and> jn_records_cache (cj_journal d) = jn_records_cache (cj_journal c) @ [written_envelope sha (busy, at_ms, w)]"
proof -
  let ?run = "append_many sha rep busy (\<lambda>_. at_ms) [write_entry w] (cj_journal c)"
  have d: "d = c\<lparr>cj_journal := snd ?run\<rparr>" and r: "r = Inr () \<longleftrightarrow> (\<exists>x. fst ?run = Inr x)"
    using assms(4) by (auto simp: control_write_append control_append_def journal_append_def and_then_def
        split: prod.splits sum.splits)
  have entry: "list_all entry_ok [write_entry w]" "list_all (\<lambda>e. fst e \<noteq> lifecycle_kind) [write_entry w]"
    using write_entry_ok [OF assms(3)] by simp_all
  have envs: "make_envelopes sha (\<lambda>_. at_ms) [write_entry w] = [written_envelope sha (busy, at_ms, w)]"
    by (simp add: make_envelopes_def written_envelope_def case_prod_beta)
  note post = append_many_inv [OF assms(1,2) entry, of busy "\<lambda>_. at_ms" "fst ?run" "snd ?run", simplified envs]
  note plain = plain_entries [OF entry(2), of rep sha "\<lambda>_. at_ms"]
  show "journal_inv sha rep (cj_journal d)" using post d by simp
  show "cj_legacy_import_count d = cj_legacy_import_count c" using d by simp
  show "file_ok sha rep (jn_file (cj_journal d)) (rs @ [written_envelope sha (busy, at_ms, w)])"
    if "r = Inr ()" and rs: "file_ok sha rep (jn_file (cj_journal c)) rs"
  proof -
    have "lifecycle_ok (logged_events rep (rs @ make_envelopes sha (\<lambda>_. at_ms) [write_entry w]))"
      using rs plain(2) by (simp add: logged_append file_ok_def)
    from file_ok_append [OF assms(1) rs entry(1) _ plain(1) this] that(1) post r d show ?thesis
      by (auto simp: envs)
  qed
  show "jn_journal_size (cj_journal d) = byte_size (jn_file (cj_journal d))
      \<and> jn_records_cache (cj_journal d) = jn_records_cache (cj_journal c) @ [written_envelope sha (busy, at_ms, w)]"
    if ret: "r = Inr ()" and sized: "jn_journal_size (cj_journal c) = byte_size (jn_file (cj_journal c))"
  proof -
    obtain x where "fst ?run = Inr x" using ret r by blast
    then have x: "?run = (Inr x, cj_journal d)" by (simp add: d prod_eq_iff)
    show ?thesis using append_synced [OF sized x entry(1)] append_synced_cache [OF sized x entry(1)] by (simp add: envs)
  qed
qed

lemma record_item_ok:
  assumes "record_ok sha r"
  shows "\<exists>kind. dict_get r ''kind'' = Some (JStr kind) \<and> record_item dict_of r = Inr (JStr kind, payload_of r)"
proof -
  obtain kind payload where "dict_get r ''kind'' = Some (JStr kind)" "dict_get r ''payload'' = Some (JObj payload)"
    using assms by (auto simp: record_ok_def sealed_record_def)
  then show ?thesis by (simp add: record_item_def record_kind_def payload_ok [OF assms] py_dict_def)
qed

lemma restore_record_same:
  assumes "same_record a b" and "record_ok sha b"
  shows "restore_record sha rep dict_of None a s = restore_record sha rep dict_of None b s"
proof -
  have ok: "record_ok sha a" using assms by (rule record_ok_same)
  obtain k where b: "dict_get b ''kind'' = Some (JStr k)" "record_item dict_of b = Inr (JStr k, payload_of b)"
    using record_item_ok [OF assms(2)] by blast
  then have a: "record_item dict_of a = Inr (JStr k, payload_of a)"
    using record_item_ok [OF ok, of dict_of] same_record_str [OF assms(1)] by auto
  obtain p where p: "dict_get b ''payload'' = Some (JObj p)" using record_ok_payload [OF assms(2)] by blast
  obtain q where q: "dict_get a ''payload'' = Some (JObj q)" "same_record q p" using same_record_obj [OF assms(1) p] by blast
  have "json_dumps (JObj (payload_of a)) = json_dumps (JObj (payload_of b))"
    using p q same_record_dumps [of q p] by (simp add: payload_of_def)
  then show ?thesis by (simp add: restore_record_def a b(2))
qed

lemma restore_same:
  "list_all2 same_record qs rs \<Longrightarrow> list_all (record_ok sha) rs
    \<Longrightarrow> for_each (restore_record sha rep dict_of None) qs s = for_each (restore_record sha rep dict_of None) rs s"
  by (induction qs rs arbitrary: s rule: list_all2_induct)
    (auto simp: restore_record_same and_then_def split: prod.splits sum.splits)

lemma restore_written:
  assumes "write_ok w"
  shows "restore_record sha rep dict_of importer (written_envelope sha (busy, at_ms, w)) s = (Inr (), scan_write sha w s)"
proof -
  let ?e = "written_envelope sha (busy, at_ms, w)"
  have item: "record_item dict_of ?e = Inr (JStr (fst (write_entry w)), snd (write_entry w))"
    by (simp add: written_envelope_def record_item_def record_kind_def record_payload_def with_checksum_def
        make_journal_record_def AList.update_conv' py_dict_def)
  show ?thesis
  proof (cases w)
    case (Plan_Write p)
    then have "deployment_plan_from_bytes rep dict_of (contract_to_bytes deployment_plan_schema (deployment_plan_to_dict p))
        = Inr (deployment_plan_canon p)"
      using assms deployment_plan_wire.wire_roundtrip by (simp add: write_ok_def deployment_plan_from_bytes_def)
    with Plan_Write item show ?thesis
      by (simp add: restore_record_def write_entry_def scan_write_def contract_to_bytes_def canonical_json_def)
  next
    case (Instance_Write i)
    then have "deployment_instance_from_bytes rep (contract_to_bytes deployment_instance_schema (deployment_instance_to_dict i)) = Inr i"
      using assms deployment_instance_wire.wire_roundtrip by (simp add: write_ok_def deployment_instance_from_bytes_def)
    with Instance_Write item show ?thesis
      by (simp add: restore_record_def write_entry_def scan_write_def contract_to_bytes_def canonical_json_def
          plan_kind_def instance_kind_def)
  qed
qed

lemma restore_none_migrates:
  "sc_migrated (snd (for_each (restore_record sha rep dict_of None) rs s)) = sc_migrated s"
proof (induction rs arbitrary: s)
  case (Cons r rs)
  have "sc_migrated (snd (restore_record sha rep dict_of None r s)) = sc_migrated s"
    by (auto simp: restore_record_def split: sum.splits)
  with Cons show ?case by (auto simp: and_then_def split: prod.splits sum.splits)
qed simp

abbreviation empty_scan :: scan where
  "empty_scan \<equiv> \<lparr>sc_plans = [], sc_instances = [], sc_migrated = []\<rparr>"

lemma restore_none_journal:
  assumes "refresh_records sha rep True (cj_journal c) = (Inr (), j)"
  shows "cj_journal (snd (control_restore sha rep dict_of None busy clock c)) = j"
proof -
  obtain r s where run: "for_each (restore_record sha rep dict_of None) (jn_records_cache j) empty_scan = (r, s)"
    by fastforce
  then have "sc_migrated s = []" using restore_none_migrates [of sha rep dict_of "jn_records_cache j" empty_scan] by simp
  with assms run show ?thesis by (cases r) (simp_all add: control_restore_def journal_records_def)
qed

lemma same_list_sym: "list_all2 same_record qs rs \<Longrightarrow> list_all2 same_record rs qs"
  by (auto simp: list_all2_conv_all_nth intro: same_record_sym)

text \<open>Without an importer, restoring depends on the records of the file only.\<close>

lemma restore_file:
  assumes "journal_inv sha rep (cj_journal c)" and "file_ok sha rep (jn_file (cj_journal c)) rs"
  shows "fst (control_restore sha rep dict_of None busy clock c)
    = (case for_each (restore_record sha rep dict_of None) rs empty_scan of
         (Inl e, s) \<Rightarrow> Inl e | (Inr _, s) \<Rightarrow> Inr (sc_plans s, sc_instances s))"
proof -
  obtain j qs where j: "refresh_records sha rep True (cj_journal c) = (Inr (), j)" "jn_file j = jn_file (cj_journal c)"
    "file_ok sha rep (jn_file j) qs" "synced sha rep j qs" using refresh_ok [OF assms(1)] by blast
  obtain ls where ls: "load_records sha True (jn_file j) = Inr ls" "list_all2 same_record ls qs"
    using load_file [of sha "jn_file j" qs] j(3) unfolding file_ok_def by blast
  obtain ls' where ls': "load_records sha True (jn_file j) = Inr ls'" "list_all2 same_record ls' rs"
    using load_file [of sha "jn_file j" rs] assms(2) unfolding file_ok_def j(2) by blast
  have "ls' = ls" using ls(1) ls'(1) by (simp only: sum.inject)
  then have "list_all2 same_record qs rs" using ls(2) ls'(2) same_list_via same_list_sym by blast
  moreover have "list_all2 same_record (jn_records_cache j) qs" using j(4) by (simp add: synced_def)
  ultimately have "list_all2 same_record (jn_records_cache j) rs"
    using same_list_via same_list_sym by blast
  then have "for_each (restore_record sha rep dict_of None) (jn_records_cache j) empty_scan
      = for_each (restore_record sha rep dict_of None) rs empty_scan"
    using assms(2) by (intro restore_same) (auto simp: file_ok_def)
  then show ?thesis using restore_none_migrates [of sha rep dict_of rs empty_scan] j(1)
    by (auto simp: control_restore_def journal_records_def Let_def split: prod.splits sum.splits)
qed

section \<open>Writing and restoring\<close>

lemma scan_writes:
  assumes "list_all (\<lambda>(_, _, w). write_ok w) ws"
  shows "for_each (restore_record sha rep dict_of importer) (map (written_envelope sha) ws) s
    = (Inr (), fold (\<lambda>(_, _, w). scan_write sha w) ws s)"
  using assms by (induction ws arbitrary: s) (auto simp: restore_written)

lemma control_writes_ok:
  assumes "ascii_hash sha" and "journal_inv sha rep (cj_journal c)" and "list_all (\<lambda>(_, _, w). write_ok w) ws"
    and "for_each (control_write sha rep) ws c = (Inr (), d)" and "file_ok sha rep (jn_file (cj_journal c)) rs"
  shows "journal_inv sha rep (cj_journal d)
    \<and> file_ok sha rep (jn_file (cj_journal d)) (rs @ map (written_envelope sha) ws)"
  using assms(2-5)
proof (induction ws arbitrary: c rs)
  case (Cons call ws)
  obtain busy at_ms w where call: "call = (busy, at_ms, w)" by (cases call)
  with Cons.prems(2) have ok: "write_ok w" "list_all (\<lambda>(_, _, w). write_ok w) ws" by simp_all
  from Cons.prems(3) obtain b where b: "control_write sha rep call c = (Inr (), b)"
    "for_each (control_write sha rep) ws b = (Inr (), d)" by (auto elim!: and_then_cases)
  note post = control_write_ok [OF assms(1) Cons.prems(1) ok(1) b(1) [unfolded call]]
  show ?case using Cons.IH [OF post(1) ok(2) b(2) post(3) [OF refl Cons.prems(4)]] by (simp add: call)
qed simp

text \<open>What the writes make of the dictionaries that a restart returns.\<close>

definition deployed :: "hash \<Rightarrow> control_item \<Rightarrow> plans \<times> instances \<Rightarrow> plans \<times> instances" where
  "deployed sha w state = (case w of
       Plan_Write p \<Rightarrow> map_prod (add_plan sha (deployment_plan_canon p)) id state
     | Instance_Write i \<Rightarrow> map_prod id (add_instance i) state)"

lemma scan_deployed:
  "(sc_plans (fold (\<lambda>(_, _, w). scan_write sha w) ws s), sc_instances (fold (\<lambda>(_, _, w). scan_write sha w) ws s))
    = fold (\<lambda>(_, _, w). deployed sha w) ws (sc_plans s, sc_instances s)"
  by (induction ws arbitrary: s) (auto simp: scan_write_def deployed_def split: control_item.split)

text \<open>
  C24: Deployments survive a restart. What a restart returns after any sequence of writes is what it
  returned before, with each written plan under its digest and each instance under its identity, the
  last one winning; also from a journal that is opened anew on the file. A plan comes back with its
  status handles in key order.
\<close>

theorem deployments_restored:
  assumes "reachable (journal_start sha rep) (journal_step sha rep) (cj_journal c)"
    and "control_restore sha rep dict_of None busy clock c = (Inr state, b)"
    and "list_all (\<lambda>(_, _, w). write_ok w) ws"
    and "for_each (control_write sha rep) ws b = (Inr (), d)"
  shows "fst (control_restore sha rep dict_of None busy' clock' d) = Inr (fold (\<lambda>(_, _, w). deployed sha w) ws state)
    \<and> (\<forall>files other_bytes quota_bytes ring j n.
        open_journal sha rep (jn_file (cj_journal d)) files other_bytes quota_bytes ring = Inr j
        \<longrightarrow> fst (control_restore sha rep dict_of None busy' clock' \<lparr>cj_journal = j, cj_legacy_import_count = n\<rparr>)
          = Inr (fold (\<lambda>(_, _, w). deployed sha w) ws state))"
proof -
  have inv: "ascii_hash sha" "journal_inv sha rep (cj_journal c)" using journal.reachable_inv [OF assms(1)] by simp_all
  obtain j where j: "refresh_records sha rep True (cj_journal c) = (Inr (), j)" "jn_file j = jn_file (cj_journal c)"
    "journal_inv sha rep j" using refresh_ok [OF inv(2), of True] synced_inv by blast
  have b: "cj_journal b = j" using restore_none_journal [OF j(1), of dict_of busy clock] assms(2) by simp
  obtain rs where rs: "file_ok sha rep (jn_file (cj_journal c)) rs" using inv(2) by (auto simp: journal_inv_def)
  let ?rs = "rs @ map (written_envelope sha) ws"
  have d: "journal_inv sha rep (cj_journal d)" "file_ok sha rep (jn_file (cj_journal d)) ?rs"
    using control_writes_ok [OF inv(1) _ assms(3,4)] j(2,3) b rs by simp_all
  from restore_file [OF inv(2) rs, of dict_of busy clock] assms(2) obtain s
    where s: "for_each (restore_record sha rep dict_of None) rs empty_scan = (Inr (), s)" "state = (sc_plans s, sc_instances s)"
    by (auto split: prod.splits sum.splits)
  have restored: "fst (control_restore sha rep dict_of None busy' clock' e) = Inr (fold (\<lambda>(_, _, w). deployed sha w) ws state)"
    if "journal_inv sha rep (cj_journal e)" "jn_file (cj_journal e) = jn_file (cj_journal d)" for e
    using restore_file [OF that(1), of ?rs dict_of busy' clock'] that(2) d(2) scan_deployed [of sha ws s]
    by (simp add: for_each_append s scan_writes [OF assms(3)])
  have "fst (control_restore sha rep dict_of None busy' clock' \<lparr>cj_journal = m, cj_legacy_import_count = n\<rparr>)
      = Inr (fold (\<lambda>(_, _, w). deployed sha w) ws state)"
    if "open_journal sha rep (jn_file (cj_journal d)) files other_bytes quota_bytes ring = Inr m"
    for files other_bytes quota_bytes ring m n
    using open_file [OF d(2), of files other_bytes quota_bytes ring] that d(2)
    by (intro restored) (auto intro: synced_inv)
  with restored [OF d(1) refl] show ?thesis by blast
qed

section \<open>Migration\<close>

text \<open>
  \<open>migrates m ws n\<close>: the migration has gone from \<open>m\<close> to \<open>n\<close> by the writes \<open>ws\<close>, which are in the
  journal and in the dictionaries. \<open>settled\<close>: an entry has nothing left to write.
\<close>

definition raw_write :: "hash \<Rightarrow> control_item \<Rightarrow> plans \<times> instances \<Rightarrow> plans \<times> instances" where
  "raw_write sha w state = (case w of
       Plan_Write p \<Rightarrow> map_prod (add_plan sha p) id state
     | Instance_Write i \<Rightarrow> map_prod id (add_instance i) state)"

definition migrating :: "hash \<Rightarrow> (json \<Rightarrow> string) \<Rightarrow> migration \<Rightarrow> bool" where
  "migrating sha rep m \<longleftrightarrow> journal_inv sha rep (cj_journal (mg_control m))
     \<and> jn_journal_size (cj_journal (mg_control m)) = byte_size (jn_file (cj_journal (mg_control m)))"

definition migrates :: "hash \<Rightarrow> (json \<Rightarrow> string) \<Rightarrow> migration \<Rightarrow> (bool \<times> int \<times> control_item) list \<Rightarrow> migration \<Rightarrow> bool" where
  "migrates sha rep m ws n \<longleftrightarrow> migrating sha rep n \<and> list_all (\<lambda>(_, _, w). write_ok w) ws
     \<and> cj_legacy_import_count (mg_control n) = cj_legacy_import_count (mg_control m)
     \<and> jn_records_cache (cj_journal (mg_control n)) = jn_records_cache (cj_journal (mg_control m)) @ map (written_envelope sha) ws
     \<and> (mg_plans n, mg_instances n) = fold (\<lambda>(_, _, w). raw_write sha w) ws (mg_plans m, mg_instances m)"

definition settled_plan :: "hash \<Rightarrow> deployment_plan \<Rightarrow> plans \<times> instances \<Rightarrow> bool" where
  "settled_plan sha plan state \<longleftrightarrow> dict_has (fst state) (deployment_plan_digest sha plan)"

definition settled_instance :: "deployment_instance \<Rightarrow> plans \<times> instances \<Rightarrow> bool" where
  "settled_instance i state \<longleftrightarrow> dict_has (snd state) (in_instance_id i)"

definition settled :: "hash \<Rightarrow> deployment_plan \<times> deployment_instance list \<Rightarrow> plans \<times> instances \<Rightarrow> bool" where
  "settled sha entry state \<longleftrightarrow> settled_plan sha (fst entry) state \<and> (\<forall>i \<in> set (snd entry). settled_instance i state)"

lemma migrates_refl: "migrating sha rep m \<Longrightarrow> migrates sha rep m [] m"
  by (simp add: migrates_def)

lemma migrates_trans: "migrates sha rep m vs n \<Longrightarrow> migrates sha rep n ws k \<Longrightarrow> migrates sha rep m (vs @ ws) k"
  by (simp add: migrates_def)

lemma raw_writes_keep:
  "dict_has (fst state) k \<Longrightarrow> dict_has (fst (fold (\<lambda>(_, _, w). raw_write sha w) ws state)) k"
  "dict_has (snd state) k \<Longrightarrow> dict_has (snd (fold (\<lambda>(_, _, w). raw_write sha w) ws state)) k"
  by (induction ws arbitrary: state)
    (auto simp: raw_write_def add_plan_def add_instance_def split: control_item.split)

lemma migrates_keeps:
  assumes "migrates sha rep m ws n"
  shows "settled_plan sha p (mg_plans m, mg_instances m) \<Longrightarrow> settled_plan sha p (mg_plans n, mg_instances n)"
    and "settled_instance i (mg_plans m, mg_instances m) \<Longrightarrow> settled_instance i (mg_plans n, mg_instances n)"
    and "settled sha e (mg_plans m, mg_instances m) \<Longrightarrow> settled sha e (mg_plans n, mg_instances n)"
proof -
  let ?n = "(mg_plans n, mg_instances n)"
  have n: "?n = fold (\<lambda>(_, _, w). raw_write sha w) ws (mg_plans m, mg_instances m)"
    using assms by (simp add: migrates_def)
  show plan: "settled_plan sha p (mg_plans m, mg_instances m) \<Longrightarrow> settled_plan sha p ?n" for p
    unfolding settled_plan_def n by (rule raw_writes_keep)
  show inst: "settled_instance i (mg_plans m, mg_instances m) \<Longrightarrow> settled_instance i ?n" for i
    unfolding settled_instance_def n by (rule raw_writes_keep)
  show "settled sha e (mg_plans m, mg_instances m) \<Longrightarrow> settled sha e ?n"
    using plan inst unfolding settled_def by blast
qed

lemma migrates_write:
  assumes "ascii_hash sha" and "migrating sha rep m" and "write_ok w"
    and "control_write sha rep (busy, at_ms, w) (mg_control m) = (Inr (), c)"
    and "mg_control n = c" and "(mg_plans n, mg_instances n) = raw_write sha w (mg_plans m, mg_instances m)"
  shows "migrates sha rep m [(busy, at_ms, w)] n"
  using control_write_ok [OF assms(1) _ assms(3,4)] assms(2,3,5,6) by (simp add: migrating_def migrates_def)

lemma migrate_plan_run:
  assumes "ascii_hash sha" and "migrating sha rep m" and "deployment_plan_wf p"
    and "migrate_plan sha rep busy clock p m = (Inr (), n)"
  shows "\<exists>ws. migrates sha rep m ws n \<and> settled_plan sha p (mg_plans n, mg_instances n)"
proof (cases "dict_has (mg_plans m) (deployment_plan_digest sha p)")
  case True
  with assms(2,4) show ?thesis by (intro exI [of _ "[]"]) (simp add: migrate_plan_def migrates_refl settled_plan_def)
next
  case False
  let ?call = "(busy (mg_writes m), clock (mg_writes m), Plan_Write p)"
  from False assms(4) obtain c where c: "control_write sha rep ?call (mg_control m) = (Inr (), c)"
    and n: "n = m\<lparr>mg_control := c, mg_writes := Suc (mg_writes m), mg_plans := add_plan sha p (mg_plans m)\<rparr>"
    by (auto simp: migrate_plan_def control_write_def split: prod.splits sum.splits)
  have "migrates sha rep m [?call] n"
    by (rule migrates_write [OF assms(1,2) _ c]) (use assms(3) in \<open>simp_all add: write_ok_def n raw_write_def\<close>)
  then show ?thesis by (intro exI [of _ "[?call]"]) (simp add: settled_plan_def n add_plan_def)
qed

lemma migrate_instance_run:
  assumes "ascii_hash sha" and "migrating sha rep m" and "make_deployment_instance i = Inr i"
    and "migrate_instance sha rep busy clock i m = (Inr (), n)"
  shows "\<exists>ws. migrates sha rep m ws n \<and> settled_instance i (mg_plans n, mg_instances n)"
proof (cases "dict_has (mg_instances m) (in_instance_id i)")
  case True
  with assms(2,4) show ?thesis by (intro exI [of _ "[]"]) (simp add: migrate_instance_def migrates_refl settled_instance_def)
next
  case False
  let ?call = "(busy (mg_writes m), clock (mg_writes m), Instance_Write i)"
  from False assms(4) obtain c where c: "control_write sha rep ?call (mg_control m) = (Inr (), c)"
    and n: "n = m\<lparr>mg_control := c, mg_writes := Suc (mg_writes m), mg_instances := add_instance i (mg_instances m)\<rparr>"
    by (auto simp: migrate_instance_def control_write_def split: prod.splits sum.splits)
  have "migrates sha rep m [?call] n"
    by (rule migrates_write [OF assms(1,2) _ c]) (use assms(3) in \<open>simp_all add: write_ok_def n raw_write_def\<close>)
  then show ?thesis by (intro exI [of _ "[?call]"]) (simp add: settled_instance_def n add_instance_def)
qed

lemma for_each_migrates:
  assumes step: "\<And>x m n. x \<in> set xs \<Longrightarrow> migrating sha rep m \<Longrightarrow> f x m = (Inr (), n)
      \<Longrightarrow> \<exists>ws. migrates sha rep m ws n \<and> post x (mg_plans n, mg_instances n)"
    and keeps: "\<And>x m ws n. migrates sha rep m ws n \<Longrightarrow> post x (mg_plans m, mg_instances m)
      \<Longrightarrow> post x (mg_plans n, mg_instances n)"
    and "migrating sha rep m" and "for_each f xs m = (Inr (), n)"
  shows "\<exists>ws. migrates sha rep m ws n \<and> (\<forall>x \<in> set xs. post x (mg_plans n, mg_instances n))"
  using assms(3,4) step
proof (induction xs arbitrary: m)
  case Nil
  then show ?case by (auto intro!: exI [of _ "[]"] migrates_refl)
next
  case (Cons x xs)
  from Cons.prems(2) obtain k where k: "f x m = (Inr (), k)" "for_each f xs k = (Inr (), n)" by (auto elim!: and_then_cases)
  from Cons.prems(3) [OF _ Cons.prems(1) k(1)] obtain vs
    where vs: "migrates sha rep m vs k" "post x (mg_plans k, mg_instances k)" by auto
  then have "migrating sha rep k" by (simp add: migrates_def)
  from Cons.IH [OF this k(2) Cons.prems(3)] obtain ws
    where ws: "migrates sha rep k ws n" "\<forall>x \<in> set xs. post x (mg_plans n, mg_instances n)" by (meson list.set_intros(2))
  with vs keeps [OF ws(1) vs(2)] show ?case by (intro exI [of _ "vs @ ws"]) (auto intro: migrates_trans)
qed

lemma migrate_run:
  assumes "ascii_hash sha" and "migrating sha rep m" and "deployment_plan_wf (fst e)"
    and "\<And>i. i \<in> set (snd e) \<Longrightarrow> make_deployment_instance i = Inr i" and "migrate sha rep busy clock e m = (Inr (), n)"
  shows "\<exists>ws. migrates sha rep m ws n \<and> settled sha e (mg_plans n, mg_instances n)"
proof -
  from assms(5) obtain k where k: "migrate_plan sha rep busy clock (fst e) m = (Inr (), k)"
    "for_each (migrate_instance sha rep busy clock) (snd e) k = (Inr (), n)"
    by (auto simp: migrate_def elim!: and_then_cases)
  obtain vs where vs: "migrates sha rep m vs k" "settled_plan sha (fst e) (mg_plans k, mg_instances k)"
    using migrate_plan_run [OF assms(1-3) k(1)] by blast
  then have good: "migrating sha rep k" by (simp add: migrates_def)
  obtain ws where ws: "migrates sha rep k ws n" "\<forall>i \<in> set (snd e). settled_instance i (mg_plans n, mg_instances n)"
    using for_each_migrates [where post = settled_instance, OF _ _ good k(2)]
      migrate_instance_run [OF assms(1) _ assms(4)] migrates_keeps(2) by blast
  have "settled sha e (mg_plans n, mg_instances n)" using migrates_keeps(1) [OF ws(1) vs(2)] ws(2) by (simp add: settled_def)
  with migrates_trans [OF vs(1) ws(1)] show ?thesis by blast
qed

text \<open>An entry that is settled is not written again.\<close>

lemma settled_migrate:
  assumes "settled sha e (mg_plans m, mg_instances m)"
  shows "migrate sha rep busy clock e m = (Inr (), m)"
proof -
  have "for_each (migrate_instance sha rep busy clock) is m = (Inr (), m)" if "set is \<subseteq> set (snd e)" for "is"
    using that assms by (induction "is") (auto simp: migrate_instance_def settled_def settled_instance_def)
  with assms show ?thesis by (simp add: migrate_def migrate_plan_def settled_def settled_plan_def)
qed

lemma settled_all:
  "(\<And>e. e \<in> set es \<Longrightarrow> settled sha e (mg_plans m, mg_instances m)) \<Longrightarrow> for_each (migrate sha rep busy clock) es m = (Inr (), m)"
  by (induction es) (auto simp: settled_migrate)

lemma scan_imported:
  assumes "for_each (restore_record sha rep dict_of (Some f)) rs s = (r, t)" and "\<And>e. e \<in> set (sc_migrated s) \<Longrightarrow> \<exists>p. f p = Inr e"
    and "e \<in> set (sc_migrated t)"
  shows "\<exists>p. f p = Inr e"
  using assms
proof (induction rs arbitrary: s)
  case (Cons x rs)
  obtain q u where u: "restore_record sha rep dict_of (Some f) x s = (q, u)" by fastforce
  then have imported: "\<And>e. e \<in> set (sc_migrated u) \<Longrightarrow> \<exists>p. f p = Inr e"
    using Cons.prems(2) by (auto simp: restore_record_def split: sum.splits if_splits) blast+
  show ?case
  proof (cases q)
    case (Inl a)
    with Cons.prems(1,3) u imported show ?thesis by simp
  next
    case (Inr b)
    with Cons.prems(1) u have "for_each (restore_record sha rep dict_of (Some f)) rs u = (r, t)" by simp
    from Cons.IH [OF this imported Cons.prems(3)] show ?thesis .
  qed
qed auto

text \<open>The plans as a restart reads them: with their status handles in key order.\<close>

lemma canon_idem [simp]: "deployment_plan_canon (deployment_plan_canon p) = deployment_plan_canon p"
  by (simp add: deployment_plan_canon_def sort_key_id_if_sorted sorted_sort_key)

lemma canon_add_plan:
  "dict_map deployment_plan_canon (add_plan sha p d)
    = dict_set (deployment_plan_digest sha p) (deployment_plan_canon p) (dict_map deployment_plan_canon d)"
  unfolding add_plan_def by (induction d) (auto simp: dict_map_def)

lemma scan_raw:
  assumes "dict_map deployment_plan_canon (sc_plans s) = dict_map deployment_plan_canon (fst state)" and "sc_instances s = snd state"
  shows "dict_map deployment_plan_canon (sc_plans (fold (\<lambda>(_, _, w). scan_write sha w) ws s))
      = dict_map deployment_plan_canon (fst (fold (\<lambda>(_, _, w). raw_write sha w) ws state))
    \<and> sc_instances (fold (\<lambda>(_, _, w). scan_write sha w) ws s) = snd (fold (\<lambda>(_, _, w). raw_write sha w) ws state)
    \<and> sc_migrated (fold (\<lambda>(_, _, w). scan_write sha w) ws s) = sc_migrated s"
  using assms
proof (induction ws arbitrary: s state)
  case (Cons call ws)
  obtain busy at_ms w where call: "call = (busy, at_ms, w)" by (cases call)
  have "dict_map deployment_plan_canon (sc_plans (scan_write sha w s)) = dict_map deployment_plan_canon (fst (raw_write sha w state))"
    "sc_instances (scan_write sha w s) = snd (raw_write sha w state)" "sc_migrated (scan_write sha w s) = sc_migrated s"
    using Cons.prems
    by (simp_all add: scan_write_def raw_write_def canon_add_plan deployment_plan_digest_canon split: control_item.split)
  with Cons.IH [of "scan_write sha w s" "raw_write sha w state"] show ?case by (simp add: call)
qed simp

section \<open>Migration settles\<close>

abbreviation migration_start :: "control_journal \<Rightarrow> journal \<Rightarrow> scan \<Rightarrow> migration" where
  "migration_start c j s \<equiv>
     \<lparr>mg_control = c\<lparr>cj_journal := j, cj_legacy_import_count := cj_legacy_import_count c + int (length (sc_migrated s))\<rparr>,
      mg_writes = 0, mg_plans = sc_plans s, mg_instances = sc_instances s\<rparr>"

lemma control_restore_run:
  assumes "journal_inv sha rep (cj_journal c)"
    and "control_restore sha rep dict_of importer busy clock c = (Inr state, d)"
  obtains j s n where "refresh_records sha rep True (cj_journal c) = (Inr (), j)" "migrating sha rep (migration_start c j s)"
    "for_each (restore_record sha rep dict_of importer) (jn_records_cache j) empty_scan = (Inr (), s)"
    "for_each (migrate sha rep busy clock) (sc_migrated s) (migration_start c j s) = (Inr (), n)"
    "state = (mg_plans n, mg_instances n)" "d = mg_control n"
proof -
  obtain j rs where j: "refresh_records sha rep True (cj_journal c) = (Inr (), j)" "file_ok sha rep (jn_file j) rs"
    "synced sha rep j rs" using refresh_ok [OF assms(1)] by blast
  obtain r s where scan: "for_each (restore_record sha rep dict_of importer) (jn_records_cache j) empty_scan = (r, s)" by fastforce
  have "r = Inr ()" using assms(2) j(1) scan by (cases r) (simp_all add: control_restore_def journal_records_def)
  let ?m = "migration_start c j s"
  obtain q n where n: "for_each (migrate sha rep busy clock) (sc_migrated s) ?m = (q, n)" by fastforce
  with assms(2) j(1) scan \<open>r = Inr ()\<close> have "q = Inr ()" "state = (mg_plans n, mg_instances n)" "d = mg_control n"
    by (cases q; simp add: control_restore_def journal_records_def)+
  moreover have "migrating sha rep ?m" using j synced_inv by (auto simp: migrating_def synced_def)
  ultimately show thesis using that [OF j(1)] scan \<open>r = Inr ()\<close> n by simp
qed

text \<open>
  C31: Migration happens once. After a restart that imported records of the first version, the next
  restart returns the same plans and instances and writes nothing, even when the journal is locked;
  but it calls the importer again for every old record and counts the imports a second time.
\<close>

theorem migration_settles:
  assumes "reachable (journal_start sha rep) (journal_step sha rep) (cj_journal c)"
    and "\<And>payload plan is. f payload = Inr (plan, is)
      \<Longrightarrow> deployment_plan_wf plan \<and> list_all (\<lambda>i. make_deployment_instance i = Inr i) is"
    and "control_restore sha rep dict_of (Some f) busy clock c = (Inr (plans, instances), d)"
  shows "\<exists>plans'. control_restore sha rep dict_of (Some f) busy' clock' d = (Inr (plans', instances),
        d\<lparr>cj_legacy_import_count := cj_legacy_import_count d + (cj_legacy_import_count d - cj_legacy_import_count c)\<rparr>)
    \<and> dict_map deployment_plan_canon plans' = dict_map deployment_plan_canon plans"
proof -
  have inv: "ascii_hash sha" "journal_inv sha rep (cj_journal c)" using journal.reachable_inv [OF assms(1)] by simp_all
  obtain j s n where j: "refresh_records sha rep True (cj_journal c) = (Inr (), j)"
    and good: "migrating sha rep (migration_start c j s)"
    and scan: "for_each (restore_record sha rep dict_of (Some f)) (jn_records_cache j) empty_scan = (Inr (), s)"
    and run: "for_each (migrate sha rep busy clock) (sc_migrated s) (migration_start c j s) = (Inr (), n)"
    and n: "(plans, instances) = (mg_plans n, mg_instances n)" "d = mg_control n"
    by (rule control_restore_run [OF inv(2) assms(3)])
  have wf: "deployment_plan_wf (fst e)" "i \<in> set (snd e) \<Longrightarrow> make_deployment_instance i = Inr i"
    if "e \<in> set (sc_migrated s)" for e i
    using scan_imported [OF scan _ that] assms(2) [of _ "fst e" "snd e"] by (auto simp: list_all_iff)
  have step: "\<exists>ws. migrates sha rep m ws k \<and> settled sha e (mg_plans k, mg_instances k)"
    if "e \<in> set (sc_migrated s)" "migrating sha rep m" "migrate sha rep busy clock e m = (Inr (), k)" for e m k
    using migrate_run [OF inv(1) that(2) wf [OF that(1)] that(3)] .
  have "\<exists>ws. migrates sha rep (migration_start c j s) ws n \<and> (\<forall>e \<in> set (sc_migrated s). settled sha e (mg_plans n, mg_instances n))"
    by (rule for_each_migrates [where f = "migrate sha rep busy clock", OF _ _ good run])
      (use step migrates_keeps(3) in blast)+
  then obtain ws where ws: "migrates sha rep (migration_start c j s) ws n"
    "\<forall>e \<in> set (sc_migrated s). settled sha e (mg_plans n, mg_instances n)" by blast
  let ?t = "fold (\<lambda>(_, _, w). scan_write sha w) ws s"
  have t: "dict_map deployment_plan_canon (sc_plans ?t) = dict_map deployment_plan_canon (mg_plans n)"
    "sc_instances ?t = mg_instances n" "sc_migrated ?t = sc_migrated s"
    using scan_raw [of s "(sc_plans s, sc_instances s)" sha ws] ws(1) by (simp_all add: migrates_def prod_eq_iff)
  have keys: "dict_has (sc_plans ?t) k = dict_has (mg_plans n) k" for k
    using arg_cong [OF t(1), of "\<lambda>d. dict_has d k"] by (simp add: dict_has_def dict_get_map)
  have settled: "settled sha e (sc_plans ?t, sc_instances ?t)" if "e \<in> set (sc_migrated s)" for e
    using ws(2) that keys t(2) by (simp add: settled_def settled_plan_def settled_instance_def)
  have count: "cj_legacy_import_count d - cj_legacy_import_count c = int (length (sc_migrated s))"
    and cache: "jn_records_cache (cj_journal d) = jn_records_cache j @ map (written_envelope sha) ws"
    and ok: "list_all (\<lambda>(_, _, w). write_ok w) ws"
    and size: "jn_journal_size (cj_journal d) = byte_size (jn_file (cj_journal d))"
    using ws(1) n(2) by (simp_all add: migrates_def migrating_def)
  have again: "for_each (restore_record sha rep dict_of (Some f)) (jn_records_cache (cj_journal d)) empty_scan = (Inr (), ?t)"
    by (simp add: cache for_each_append scan scan_writes [OF ok])
  have "refresh_records sha rep True (cj_journal d) = (Inr (), cj_journal d)"
    using size by (simp add: refresh_records_def)
  then have "control_restore sha rep dict_of (Some f) busy' clock' d = (Inr (sc_plans ?t, sc_instances ?t),
      d\<lparr>cj_legacy_import_count := cj_legacy_import_count d + int (length (sc_migrated s))\<rparr>)"
    by (simp add: control_restore_def journal_records_def again t(3) settled_all settled)
  with t(1,2) n(1) count show ?thesis by simp
qed

section \<open>Witnesses\<close>

definition demo_deployment :: deployment_plan where
  "demo_deployment = \<lparr>dp_requester_identity = ''u'', dp_request_id = ''r'', dp_attempt = 1, dp_model_variant = ''m'',
     dp_artifact_digests = [''a''],
     dp_assignments = [\<lparr>pa_role = ''r'', pa_provider = ''p'', pa_provider_boot_epoch = ''b'', pa_lease_id = [],
       pa_resource_binding_digest = []\<rparr>],
     dp_execution_target = ''t'', dp_deadline_ms = 9, dp_selection_digest = ''s'', dp_status_handles = [(''p'', ''h'')],
     dp_requester_encryption_key = [], dp_execution_policy = LEGACY_READY_SET_V1\<rparr>"

definition demo_writes :: "(bool \<times> int \<times> control_item) list" where
  "demo_writes = [(False, 5, Plan_Write demo_deployment), (False, 6, Instance_Write demo_instance)]"

definition demo_room :: journal where
  "demo_room = demo_journal\<lparr>jn_quota_bytes := 10000\<rparr>"

definition demo_control :: control_journal where
  "demo_control = \<lparr>cj_journal = demo_room, cj_legacy_import_count = 0\<rparr>"

definition demo_legacy :: control_journal where
  "demo_legacy = demo_control\<lparr>cj_journal := snd (append_many demo_digest demo_repr False demo_clock [(legacy_state_kind, [])] demo_room)\<rparr>"

definition demo_importer :: importer where
  "demo_importer payload = Inr (demo_deployment, [demo_instance])"

definition no_dict :: "json \<Rightarrow> py_error + (string, json) dict" where
  "no_dict v = Inl (TypeError ''object is not iterable'')"

lemma demo_room_reachable: "reachable (journal_start demo_digest demo_repr) (journal_step demo_digest demo_repr) demo_room"
proof (rule reachable.start)
  show "journal_start demo_digest demo_repr demo_room"
    unfolding journal_start_def
    by (intro conjI demo_ascii exI [of _ "[]"] exI [of _ 0] exI [of _ 10000] exI [of _ None])
      (simp add: open_journal_def load_records_def rebuild_envelope_index_def demo_journal_def demo_room_def scan_usage_bytes_def)
qed

lemma demo_deployed_ok: "deployment_plan_wf demo_deployment" "make_deployment_instance demo_instance = Inr demo_instance"
  by (simp_all add: deployment_plan_wf_def make_deployment_plan_def demo_deployment_def make_provider_assignment_def
      dict_ok_def make_deployment_instance_def demo_instance_def)

theorem deployments_restored_witness:
  "fst (control_restore demo_digest demo_repr no_dict None (\<lambda>_. False) demo_clock
     (snd (for_each (control_write demo_digest demo_repr) demo_writes demo_control)))
    = Inr (fold (\<lambda>(_, _, w). deployed demo_digest w) demo_writes ([], []))"
proof -
  have "control_restore demo_digest demo_repr no_dict None (\<lambda>_. False) demo_clock demo_control = (Inr ([], []), demo_control)"
    by (simp add: control_restore_def demo_control_def demo_room_def demo_journal_def journal_records_def refresh_records_def)
  moreover have "fst (for_each (control_write demo_digest demo_repr) demo_writes demo_control) = Inr ()" by code_simp
  then have "for_each (control_write demo_digest demo_repr) demo_writes demo_control
      = (Inr (), snd (for_each (control_write demo_digest demo_repr) demo_writes demo_control))" by (simp add: prod_eq_iff)
  moreover have "list_all (\<lambda>(_, _, w). write_ok w) demo_writes"
    by (simp add: demo_writes_def write_ok_def demo_deployed_ok)
  moreover have "reachable (journal_start demo_digest demo_repr) (journal_step demo_digest demo_repr) (cj_journal demo_control)"
    by (simp add: demo_control_def demo_room_reachable)
  ultimately show ?thesis using deployments_restored by blast
qed

theorem migration_settles_witness:
  "\<exists>d. snd (control_restore demo_digest demo_repr no_dict (Some demo_importer) (\<lambda>_. False) demo_clock demo_legacy) = d
     \<and> snd (control_restore demo_digest demo_repr no_dict (Some demo_importer) (\<lambda>_. True) demo_clock d)
       = d\<lparr>cj_legacy_import_count := 2\<rparr>"
proof -
  let ?run = "control_restore demo_digest demo_repr no_dict (Some demo_importer) (\<lambda>_. False) demo_clock demo_legacy"
  have "case ?run of (r, d) \<Rightarrow> \<not> isl r \<and> cj_legacy_import_count d = 1" by code_simp
  moreover have "cj_legacy_import_count demo_legacy = 0" by (simp add: demo_legacy_def demo_control_def)
  ultimately have returned: "\<not> isl (fst ?run)"
    and count: "cj_legacy_import_count (snd ?run) = 1" "cj_legacy_import_count demo_legacy = 0"
    by (simp_all add: case_prod_beta)
  from returned obtain plans instances where run: "?run = (Inr (plans, instances), snd ?run)"
    by (cases "fst ?run") (auto simp: prod_eq_iff)
  have "reachable (journal_start demo_digest demo_repr) (journal_step demo_digest demo_repr) (cj_journal demo_legacy)"
    using reachable.next_state [OF demo_room_reachable journal_step.append [of "[(legacy_state_kind, [])]"]]
    by (simp add: demo_legacy_def entry_ok_def json_distinct_obj dict_ok_def legacy_state_kind_def transaction_kind_def lifecycle_kind_def)
  from migration_settles [OF this _ run, of "\<lambda>_. True" demo_clock] show ?thesis
    by (auto simp: count demo_importer_def demo_deployed_ok)
qed

end
