(* ===== verification/Spec2Isabelle.thy ===== *)
theory Spec2Isabelle
  imports Device_Scheduler State_Store V3_Lifecycle Conflict_Permit Conflict_Snapshot Dependency_Execution Ready_Set Recovery
    Recovery_Stores Gated_Provider Shard_Retention Selection_Participant Placement_Validation Eligibility Tensor_Data
    Deployment_Journal
begin

text \<open>
  \<^bold>\<open>NDNSF distributed inference: the core.\<close> NDNSF runs services over Named Data Networking. Its
  distributed-inference layer splits a model into roles, selects a Provider for each, prepares the
  shards and runs the roles as a graph of stages that exchange tensors. The decisions are taken by
  the Python package \<open>src/NDNSF-DistributedInference/ndnsf_distributed_inference/core\<close>, which does no
  input or output of its own: transport, storage, signatures and model adapters reach it through
  callbacks. This library models that package and proves what its authorities promise.

  \<^bold>\<open>Parts of the program and the theories that model them.\<close> File names are those of \<open>core/\<close>.

  \<^item> \<open>contracts.py\<close>: the messages, their constructors and their canonical JSON. \<open>Json_Wire\<close> has
    \<open>json.dumps\<close>, \<open>json.loads\<close> and the decoders \<open>_decode\<close> and \<open>_strict_v2_decode\<close>; \<open>Contracts\<close> the plan,
    assignment, reservation, instance and certificate contracts; \<open>Base64\<close> and \<open>Selection_Contracts\<close> the
    contracts of the data-driven Selection.
  \<^item> \<open>device_scheduler.py\<close>: \<open>Device_Scheduler\<close>. \<open>v3_lifecycle.py\<close>: \<open>V3_Lifecycle\<close>. \<open>state.py\<close>:
    \<open>State_Store\<close>.
  \<^item> \<open>conflict_coordination.py\<close>: \<open>Conflict_Coordination\<close> has the coordinator, \<open>Conflict_Safety\<close> its
    invariants, \<open>Conflict_Permit\<close> the signed permits, \<open>Conflict_Snapshot\<close> the persistence.
  \<^item> \<open>execution.py\<close>: \<open>Dependency_Execution\<close> has the dependency-driven execution, \<open>Ready_Set\<close> the
    ready-set coordinator, the activation gate, the rollback and the executor.
  \<^item> \<open>recovery.py\<close>: \<open>Recovery\<close> has the retry, compensation and replacement controllers,
    \<open>Recovery_Stores\<close> the result rendezvous and the registry of orphaned resources.
  \<^item> \<open>deployment_control.py\<close>: \<open>Reservation_Book\<close> has the reservation book, the decision authority and
    the acknowledgement window; \<open>Gated_Provider\<close> the Provider that prepares after selection and
    executes after activation; \<open>Gpu_Admission\<close> the GPU ledger, the derived state and the shard
    pipeline; \<open>Shard_Retention\<close> the retention cache; \<open>Selection_Participant\<close> the participant that joins
    them under the Selection transaction.
  \<^item> \<open>decision_validation.py\<close>: \<open>Placement_Validation\<close>. \<open>eligibility.py\<close> and \<open>execution_intent.py\<close>:
    \<open>Eligibility\<close>. \<open>hybrid_contracts.py\<close>: \<open>Tensor_Data\<close>.

  \<^bold>\<open>How the model reads.\<close> \<open>Prelude\<close> has Python's exceptions as the values \<open>py_error\<close>, dictionaries as
  insertion-ordered association lists (\<open>dict_get\<close>, \<open>dict_set\<close>, \<open>dict_pop\<close>), JSON values and the
  generic lemmas. An object is a record; a method is a function to the result or the exception and
  the object after it, also when it raises. Methods hold the lock of their object, so a method call
  is one step of the object, and the step relations (\<open>coord_step\<close>, \<open>execution_step\<close>,
  \<open>book_step\<close>, \<open>participant_step\<close> and the others) take any sequence of calls with any arguments. Clock
  readings are arguments. Parameters stand for code outside \<open>core/\<close>: \<open>sha\<close> for sha256, \<open>mac\<close> for
  the keyed hash, the verifiers of signatures, the callbacks of adapters, which may raise, and \<open>rep\<close>
  and \<open>dict_of\<close> for \<open>repr\<close> and \<open>dict\<close> on values of unexpected shape.

  \<^bold>\<open>Interfaces.\<close> \<open>Interfaces\<close> states the contracts the components share as locales:
  \<open>invariant_system\<close> (an invariant that every operation keeps), \<open>refinement\<close>, \<open>append_log\<close>,
  \<open>attempt_fence\<close> (a watermark of attempts that never goes back), \<open>terminal_once\<close> and \<open>terminal_fence\<close>
  (an outcome that is set once and then refuses events). \<open>Json_Wire\<close> adds \<open>wire_contract\<close> and
  \<open>strict_contract\<close>, which give the round trip of a contract from the way its decoder reads fields.
  Each is interpreted on the definitions of the components, and the properties rest on the
  interpretations.

  \<^bold>\<open>What is shown.\<close>

  \<^item> Conflict admission: live permits never conflict, a permit activates only with a reservation for
    every claim, permits are bounded, the ledger is a hash chain that only grows, granting wastes no
    slot, the signed envelope is sound, and a snapshot restores to the same coordinator.
  \<^item> Execution: the constructor accepts exactly the acyclic plans, a stage runs only with its
    prerequisites, one outcome ends an execution, and the ready-set protocol activates a plan only
    when all members are ready.
  \<^item> Resources: device memory, reservation units and GPU memory are never promised beyond capacity;
    devices are held exclusively; pinned shards and derived state stay; nothing is loaded unverified.
  \<^item> Deployment: the first decision on a reservation is final, a role executes only after a verified
    activation, and in the data-driven protocol a role starts only when it is committed, prepared and
    has its inputs; what was prepared can be committed, and a reservation is released once.
  \<^item> Recovery: retries and replacements are bounded, fenced attempts never become visible, a terminal
    result is final, and a sweep reclaims exactly the expired resources.
  \<^item> Proposals and data: the joint placement check accepts exactly the placements within the offers,
    the eligible candidates are exactly those that meet the requirements, shards of a tensor do not
    overlap, a closed intent never commits, and a data segment is accepted once.
  \<^item> Wire: the contracts survive encoding, and a decoded assignment has the properties its
    constructor checks.
  \<^item> Across components: what a binding of the reservation book authorises at the conflict
    coordinator, below.

  Several theorems record behaviour that the code does not intend: capacity of a shared resource
  that is overcommitted, a commit that is undone by a repeated reservation, a coordinator that cannot
  be restored after a rotation, a reservation that a repeated commit makes unreleasable.

  \<^bold>\<open>Bounds and fuel.\<close> Only the JSON parser recurses on fuel, one more than twice the length of its
  input; \<open>parse_fuel\<close> shows that more fuel changes nothing. All other loops are structural or have a
  termination proof: the topological check of a plan and the eviction loop of the cache.

  \<^bold>\<open>Not modelled.\<close> Floating point numbers and code points above 255 in JSON. The blocking waits and
  the thread pool of the participant, whose pending preparations are a list run in any order. The
  deployment journal. The checks of floating point objectives and tuning parameters and of open
  handles in \<open>decision_validation.py\<close>. The remaining files of \<open>core/\<close> (secure status, protected
  artifacts, runtime contracts, abstract ports) and everything outside \<open>core/\<close>: planners, SDK, adapters of machine
  learning runtimes, the NDN bindings, the repository client, experiments and user interfaces.
\<close>

section \<open>Reservations and conflict admission\<close>

text \<open>
  C17: What a reservation authorises. The binding that the book of a Provider gives out for a
  reservation is accepted by the conflict coordinator for a claim exactly when the claim is of the
  request that made the reservation and of the boot epoch of the book, the reservation is live, and
  the claim asks for no more than the reserved units; the resource of the claim is not compared. A
  live reservation in a binding is unexpired and within the capacity of the book.
\<close>

theorem book_binding_authorizes:
  assumes "reachable book_start (book_step sha) b" and "reservation_binding sha reservation_id now_ms b = (Inr d, t)"
  shows "\<exists>key item. find_reservation reservation_id t = Some (key, item)
    \<and> (\<forall>request claim. binding_authorizes d request claim = Inr (request = reservation_identity item
        \<and> provider_boot_epoch (claim_key claim) = bk_boot_epoch b \<and> reservation_live item
        \<and> claim_quantity claim \<le> tr_units item))
    \<and> (reservation_live item \<longrightarrow> now_ms < reservation_deadline item \<and> tr_units item \<le> bk_capacity b)"
proof -
  have inv: "book_inv sha b" using assms(1) by (rule book_system.reachable_inv)
  have t: "t = snd (book_expire sha now_ms b)" using assms(2) by (auto simp: reservation_binding_def Let_def split: option.splits)
  then obtain key item where item: "find_reservation reservation_id t = Some (key, item)"
    and d: "d = [(''request_identity'', reservation_identity_json (reservation_identity item)),
      (''provider_boot_epoch'', JStr (bk_boot_epoch t)), (''reservation_id'', JStr (tr_reservation_id item)),
      (''quantity'', JInt (tr_units item)), (''canonical_resource_id'', JStr (tr_canonical_resource_id item)),
      (''resource_sequence'', JInt (tr_resource_sequence item)), (''live'', JBool (reservation_live item)),
      (''state'', JStr (tr_state item))]"
    using assms(2) by (auto simp: reservation_binding_def Let_def split: option.splits)
  have inv_t: "book_inv sha t" and same: "book_config t = book_config b" using book_expire_facts [OF inv, of now_ms] t by simp_all
  have boot: "bk_boot_epoch t = bk_boot_epoch b" "bk_capacity t = bk_capacity b" using same by (simp_all add: book_config_def)
  have get: "dict_get (bk_items t) key = Some item"
    using find_SomeD [OF item [unfolded find_reservation_def]] inv_t by (simp add: book_inv_def dict_get_iff)
  have "binding_authorizes d request claim = Inr (request = reservation_identity item
      \<and> provider_boot_epoch (claim_key claim) = bk_boot_epoch b \<and> reservation_live item \<and> claim_quantity claim \<le> tr_units item)"
    for request claim
    by (auto simp: d binding_authorizes_def identity_matches_def reservation_identity_json_def reservation_identity_def
        py_eq_int_def py_int_def py_truth_def boot)
  moreover have "now_ms < reservation_deadline item" if "reservation_live item"
    using expire_leaves_unexpired [of b sha now_ms key item] inv get that by (simp add: t book_inv_def)
  moreover have "tr_units item \<le> bk_capacity b" if "reservation_live item"
    using live_within_capacity [OF inv_t get that] boot by simp
  ultimately show ?thesis using item by blast
qed

definition demo_binding_claim :: resource_claim where
  "demo_binding_claim = demo_claim\<lparr>claim_key := demo_key\<lparr>provider_boot_epoch := ''b''\<rparr>, claim_quantity := 2\<rparr>"

theorem book_binding_authorizes_witness:
  "\<exists>d t. reservation_binding flat_sha ''h'' 3 demo_reserved = (Inr d, t)
     \<and> binding_authorizes d (''u'', ''r'', 1) demo_binding_claim = Inr True"
proof -
  let ?run = "reservation_binding flat_sha ''h'' 3 demo_reserved"
  have ok: "\<not> isl (fst ?run)" by code_simp
  then obtain d where run: "?run = (Inr d, snd ?run)" by (cases "fst ?run") (auto simp: prod_eq_iff)
  from book_binding_authorizes [OF demo_reserved_reachable run] obtain key item
    where item: "find_reservation ''h'' (snd ?run) = Some (key, item)"
      and exact: "binding_authorizes d (''u'', ''r'', 1) demo_binding_claim = Inr ((''u'', ''r'', 1) = reservation_identity item
        \<and> provider_boot_epoch (claim_key demo_binding_claim) = bk_boot_epoch demo_reserved \<and> reservation_live item
        \<and> claim_quantity demo_binding_claim \<le> tr_units item)" by blast
  have "map_option (\<lambda>(k, i). (reservation_identity i, reservation_live i, tr_units i)) (find_reservation ''h'' (snd ?run))
      = Some ((''u'', ''r'', 1), True, 2)" by code_simp
  then have "reservation_identity item = (''u'', ''r'', 1)" "reservation_live item" "tr_units item = 2" by (simp_all add: item)
  moreover have "provider_boot_epoch (claim_key demo_binding_claim) = bk_boot_epoch demo_reserved"
    "claim_quantity demo_binding_claim = 2" by code_simp+
  ultimately show ?thesis using run exact by (intro exI [of _ d] exI [of _ "snd ?run"]) simp
qed

end
